(* ===== verification/Values.thy ===== *)
theory Values
  imports Prelude
begin

text \<open>
  Value types of the domain crate (\<open>crates/dbward-domain/src/values\<close>): validated database and
  environment names with their wildcard, the operation of a request, and selectors. The
  lemmas show that the validation accepts exactly the documented names and that selectors
  and operations survive printing followed by parsing.
\<close>

subsection \<open>Validated names\<close>

datatype database_name = DatabaseName (db_str: string)

datatype environment = Environment (env_str: string)

definition name_char :: "char \<Rightarrow> bool" where
  "name_char b \<longleftrightarrow> is_lower b \<or> is_digit b \<or> b = CHR ''_'' \<or> b = CHR ''-''"

text \<open>The constructor the macro \<open>validated_newtype\<close> generates, before wrapping.\<close>

definition validated_new :: "nat \<Rightarrow> string \<Rightarrow> string \<Rightarrow> string \<Rightarrow> string + string" where
  "validated_new max_len pfx pattern s =
     (if s = ''*'' then Inr s
      else if s = [] \<or> length s > max_len then Inl (pfx @ '' must be 1-63 characters'')
      else if \<not> is_lower (s ! 0) then Inl (pfx @ '' must start with a lowercase letter'')
      else if \<not> list_all name_char s then Inl (pfx @ '' must match '' @ pattern)
      else Inr s)"

definition DatabaseName_new :: "string \<Rightarrow> string + database_name" where
  "DatabaseName_new s =
     tryE (validated_new 63 ''database name'' ''[a-z0-9_-]'' s) (\<lambda>v. Inr (DatabaseName v))"

definition Environment_new :: "string \<Rightarrow> string + environment" where
  "Environment_new s =
     tryE (validated_new 63 ''environment'' ''[a-z0-9_-]'' s) (\<lambda>v. Inr (Environment v))"

definition db_wildcard :: database_name where
  "db_wildcard = DatabaseName ''*''"

definition env_wildcard :: environment where
  "env_wildcard = Environment ''*''"

definition db_is_wildcard :: "database_name \<Rightarrow> bool" where
  "db_is_wildcard d \<longleftrightarrow> db_str d = ''*''"

definition env_is_wildcard :: "environment \<Rightarrow> bool" where
  "env_is_wildcard e \<longleftrightarrow> env_str e = ''*''"

text \<open>The documented set of names: \<open>*\<close>, or 1 to 63 characters matching \<open>[a-z][a-z0-9_-]*\<close>.\<close>

definition valid_name :: "string \<Rightarrow> bool" where
  "valid_name s \<longleftrightarrow> s = ''*'' \<or>
     (\<exists>c cs. s = c # cs \<and> is_lower c \<and> (\<forall>b \<in> set cs. name_char b) \<and> length s \<le> 63)"

lemma is_lower_name_char [simp]: "is_lower c \<Longrightarrow> name_char c"
  by (simp add: name_char_def)

lemma validated_new_Inr:
  "validated_new 63 p q s = Inr t \<longleftrightarrow> t = s \<and> valid_name s"
  by (cases s) (auto simp: validated_new_def valid_name_def list_all_iff)

lemma colon_not_name_char [simp]: "\<not> name_char CHR '':''"
  by (simp add: name_char_def is_lower_def is_digit_def)

lemma valid_name_no_colon: "valid_name s \<Longrightarrow> CHR '':'' \<notin> set s"
proof -
  assume "valid_name s"
  then consider "s = ''*''" | c cs where "s = c # cs" "is_lower c" "\<forall>b \<in> set cs. name_char b"
    by (auto simp: valid_name_def)
  then show ?thesis
  proof cases
    case 1
    then show ?thesis by simp
  next
    case 2
    have "\<not> is_lower CHR '':''" by (simp add: is_lower_def)
    with 2 show ?thesis using colon_not_name_char by auto
  qed
qed

subsection \<open>Operations\<close>

datatype operation = ExecuteSelect | ExecuteDml | MigrateUp | MigrateDown | MigrateStatus
  | MigrateRepair

fun operation_as_str :: "operation \<Rightarrow> string" where
  "operation_as_str ExecuteSelect = ''execute_select''"
| "operation_as_str ExecuteDml = ''execute_dml''"
| "operation_as_str MigrateUp = ''migrate_up''"
| "operation_as_str MigrateDown = ''migrate_down''"
| "operation_as_str MigrateStatus = ''migrate_status''"
| "operation_as_str MigrateRepair = ''migrate_repair''"

fun is_read_only :: "operation \<Rightarrow> bool" where
  "is_read_only ExecuteSelect = True"
| "is_read_only MigrateStatus = True"
| "is_read_only _ = False"

definition is_mutation :: "operation \<Rightarrow> bool" where
  "is_mutation op \<longleftrightarrow> \<not> is_read_only op"

fun is_migration_mutation :: "operation \<Rightarrow> bool" where
  "is_migration_mutation MigrateUp = True"
| "is_migration_mutation MigrateDown = True"
| "is_migration_mutation MigrateRepair = True"
| "is_migration_mutation _ = False"

definition operation_from_str :: "string \<Rightarrow> string + operation" where
  "operation_from_str s =
     ok_or (map_of
       [(''execute_select'', ExecuteSelect), (''execute_dml'', ExecuteDml),
        (''execute_query'', ExecuteSelect), (''execute'', ExecuteSelect),
        (''query'', ExecuteSelect), (''migrate_up'', MigrateUp),
        (''migrate_down'', MigrateDown), (''migrate_status'', MigrateStatus),
        (''migrate_repair'', MigrateRepair)] s)
       (''unknown operation '' @ quoted s @ ''. Valid operations: execute_select, execute_dml, '' @
        ''execute_query, migrate_up, migrate_down, migrate_status, migrate_repair'')"

lemma operation_from_as_str [simp]: "operation_from_str (operation_as_str op) = Inr op"
  by (cases op) (simp_all add: operation_from_str_def)

lemma operation_as_str_inject [simp]: "operation_as_str a = operation_as_str b \<longleftrightarrow> a = b"
  by (metis operation_from_as_str sum.inject(2))

lemma migration_mutation_is_mutation: "is_migration_mutation op \<Longrightarrow> is_mutation op"
  by (cases op) (simp_all add: is_mutation_def)

subsection \<open>Selectors\<close>

datatype selector = Requester | Role string | Group string | User string

datatype selector_parse_error = SelectorParseError string

definition selector_parse :: "string \<Rightarrow> selector_parse_error + selector" where
  "selector_parse s =
     (if s = ''requester'' then Inr Requester
      else case split_once CHR '':'' s of
        None \<Rightarrow> Inl (SelectorParseError (''missing '' @ quoted '':'' @ '' in '' @ quoted s @
          ''. Expected format: user:<name>, group:<name>, or role:<name>''))
      | Some (pfx, v) \<Rightarrow>
          if v = [] then Inl (SelectorParseError (''empty value in '' @ quoted s))
          else if pfx = ''role'' then Inr (Role v)
          else if pfx = ''group'' then Inr (Group v)
          else if pfx = ''user'' then Inr (User v)
          else Inl (SelectorParseError (''unknown prefix '' @ quoted pfx)))"

fun selector_matches :: "selector \<Rightarrow> string list \<Rightarrow> string list \<Rightarrow> string \<Rightarrow> bool \<Rightarrow> bool" where
  "selector_matches Requester role_names groups user_id is_requester = is_requester"
| "selector_matches (Role r) role_names groups user_id is_requester = list_ex (\<lambda>rn. rn = r) role_names"
| "selector_matches (Group g) role_names groups user_id is_requester = list_ex (\<lambda>ug. ug = g) groups"
| "selector_matches (User u) role_names groups user_id is_requester = (user_id = u)"

fun selector_to_string :: "selector \<Rightarrow> string" where
  "selector_to_string Requester = ''requester''"
| "selector_to_string (Role r) = ''role:'' @ r"
| "selector_to_string (Group g) = ''group:'' @ g"
| "selector_to_string (User u) = ''user:'' @ u"

text \<open>A selector the parser can have produced carries a non-empty value.\<close>

fun selector_wf :: "selector \<Rightarrow> bool" where
  "selector_wf Requester = True"
| "selector_wf (Role r) = (r \<noteq> [])"
| "selector_wf (Group g) = (g \<noteq> [])"
| "selector_wf (User u) = (u \<noteq> [])"

lemma selector_parse_wf: "selector_parse s = Inr sel \<Longrightarrow> selector_wf sel"
  by (auto simp: selector_parse_def split: if_splits option.splits prod.splits)

lemma selector_parse_to_string: "selector_wf sel \<Longrightarrow> selector_parse (selector_to_string sel) = Inr sel"
  by (cases sel) (simp_all add: selector_parse_def)

lemma selector_to_string_parse: "selector_parse s = Inr sel \<Longrightarrow> selector_to_string sel = s"
  by (auto simp: selector_parse_def dest!: split_once_SomeD split: if_splits option.splits prod.splits)

lemma selector_to_string_inject [simp]: "selector_to_string a = selector_to_string b \<longleftrightarrow> a = b"
  by (cases a; cases b) simp_all

end
