(* ===== verification/Policies.thy ===== *)
theory Policies
  imports Values
begin

text \<open>
  Policies of the domain crate (\<open>crates/dbward-domain/src/policies\<close>) and the risk levels they
  refer to: workflows with their approval steps and auto-approval settings, execution
  policies with the lease arithmetic, result and review policies. The lemmas bound the lease
  durations an execution policy hands out.
\<close>

subsection \<open>Risk levels\<close>

datatype risk_level = Low | Medium | High | Critical | Unknown | Unavailable

text \<open>The order \<open>#[derive(PartialOrd, Ord)]\<close> gives: the order of the variants.\<close>

fun risk_rank :: "risk_level \<Rightarrow> nat" where
  "risk_rank Low = 0"
| "risk_rank Medium = 1"
| "risk_rank High = 2"
| "risk_rank Critical = 3"
| "risk_rank Unknown = 4"
| "risk_rank Unavailable = 5"

lemma risk_rank_inject: "risk_rank a = risk_rank b \<longleftrightarrow> a = b"
  by (cases a; cases b) simp_all

instantiation risk_level :: linorder
begin

definition less_eq_risk_level :: "risk_level \<Rightarrow> risk_level \<Rightarrow> bool" where
  "less_eq_risk_level a b \<longleftrightarrow> risk_rank a \<le> risk_rank b"

definition less_risk_level :: "risk_level \<Rightarrow> risk_level \<Rightarrow> bool" where
  "less_risk_level a b \<longleftrightarrow> risk_rank a < risk_rank b"

instance
  by standard (auto simp: less_eq_risk_level_def less_risk_level_def risk_rank_inject)

end

lemmas risk_order_defs = less_eq_risk_level_def less_risk_level_def

subsection \<open>Workflows\<close>

datatype workflow_step_mode = ModeAll | ModeAny

record approver_group =
  ag_selector :: selector
  ag_min :: u32

record workflow_step =
  ws_approvers :: "approver_group list"
  ws_mode :: workflow_step_mode

datatype auto_approve_mode = Always | RiskBased

record auto_approve_settings =
  aa_mode :: auto_approve_mode
  aa_max_risk_level :: "risk_level option"
  aa_allow_read_only :: bool
  aa_allow_safe_ddl :: bool
  aa_max_estimated_rows :: int

record workflow =
  wf_id :: string
  wf_database :: database_name
  wf_environment :: environment
  wf_operations :: "operation list"
  wf_auto_approve :: "auto_approve_settings option"
  wf_steps :: "workflow_step list"
  wf_require_reason :: bool
  wf_allow_self_approve :: bool
  wf_allow_same_approver_across_steps :: bool
  wf_explain :: bool
  wf_pending_ttl_secs :: "u64 option"
  wf_statement_timeout_secs :: "u64 option"
  wf_approval_ttl_secs :: "u64 option"
  wf_created_at :: "timestamp option"
  wf_updated_at :: "timestamp option"

definition matches_operation :: "workflow \<Rightarrow> operation \<Rightarrow> bool" where
  "matches_operation w op \<longleftrightarrow> wf_operations w = [] \<or> op \<in> set (wf_operations w)"

subsection \<open>Execution policies\<close>

record execution_policy =
  ep_id :: string
  ep_database :: database_name
  ep_environment :: environment
  ep_max_executions :: u32
  ep_execution_window_secs :: u64
  ep_retry_on_failure :: bool
  ep_statement_timeout_secs :: u32
  ep_max_statement_timeout_secs :: u32
  ep_max_rows :: "u32 option"
  ep_migration_lease_duration_secs :: "u32 option"
  ep_migration_statement_timeout_secs :: "u32 option"
  ep_created_at :: "timestamp option"
  ep_updated_at :: "timestamp option"

definition default_execution_policy :: execution_policy where
  "default_execution_policy =
     \<lparr> ep_id = [], ep_database = db_wildcard, ep_environment = env_wildcard,
       ep_max_executions = 1, ep_execution_window_secs = 86400, ep_retry_on_failure = False,
       ep_statement_timeout_secs = 30, ep_max_statement_timeout_secs = 600,
       ep_max_rows = None, ep_migration_lease_duration_secs = None,
       ep_migration_statement_timeout_secs = None, ep_created_at = None,
       ep_updated_at = None \<rparr>"

definition DEFAULT_MIGRATION_LEASE_SECS :: int where
  "DEFAULT_MIGRATION_LEASE_SECS = 600"

definition effective_statement_timeout :: "execution_policy \<Rightarrow> operation \<Rightarrow> u32" where
  "effective_statement_timeout p op =
     (if is_migration_mutation op
      then (case ep_migration_statement_timeout_secs p of None \<Rightarrow> 0 | Some t \<Rightarrow> t)
      else ep_statement_timeout_secs p)"

text \<open>The \<open>i64\<close> arithmetic cannot overflow: both operands are \<open>u32\<close> values plus 30.\<close>

definition lease_from_timeout :: "execution_policy \<Rightarrow> u32 \<Rightarrow> int" where
  "lease_from_timeout p timeout =
     (let buffer = 30; base = uint timeout + buffer;
          cap = uint (ep_max_statement_timeout_secs p) + buffer
      in max (min base cap) 60)"

definition lease_duration_secs :: "execution_policy \<Rightarrow> int" where
  "lease_duration_secs p = lease_from_timeout p (ep_statement_timeout_secs p)"

definition lease_duration_for_operation :: "execution_policy \<Rightarrow> operation \<Rightarrow> int" where
  "lease_duration_for_operation p op =
     (if is_migration_mutation op then
        case ep_migration_lease_duration_secs p of
          Some d \<Rightarrow> uint d
        | None \<Rightarrow>
            (case ep_migration_statement_timeout_secs p of
               Some t \<Rightarrow> if t > 0 then lease_from_timeout p t else DEFAULT_MIGRATION_LEASE_SECS
             | None \<Rightarrow> DEFAULT_MIGRATION_LEASE_SECS)
      else lease_duration_secs p)"

definition validate_execution_policy :: "execution_policy \<Rightarrow> string + unit" where
  "validate_execution_policy p =
     (if ep_statement_timeout_secs p > ep_max_statement_timeout_secs p
      then Inl ''statement_timeout_secs must not exceed max_statement_timeout_secs''
      else case ep_migration_statement_timeout_secs p of
        Some t \<Rightarrow> if t > 0 \<and> t > ep_max_statement_timeout_secs p
          then Inl ''migration_statement_timeout_secs must not exceed max_statement_timeout_secs''
          else Inr ()
      | None \<Rightarrow> Inr ())"

lemma lease_from_timeout_ge: "60 \<le> lease_from_timeout p t"
  by (simp add: lease_from_timeout_def Let_def)

lemma lease_from_timeout_le:
  "lease_from_timeout p t \<le> max 60 (uint (ep_max_statement_timeout_secs p) + 30)"
  by (auto simp: lease_from_timeout_def Let_def)

lemma lease_from_timeout_covers:
  "t \<le> ep_max_statement_timeout_secs p \<Longrightarrow> uint t + 30 \<le> lease_from_timeout p t"
  by (auto simp: lease_from_timeout_def Let_def word_le_def)

lemma lease_duration_i64: "lease_duration_for_operation p op < 2 ^ 32 + 60"
proof -
  have u: "uint (x :: u32) < 2 ^ 32" for x
    using uint_bounded [of x] by simp
  have "lease_from_timeout p t < 2 ^ 32 + 60" for t
    using lease_from_timeout_le [of p t] u [of "ep_max_statement_timeout_secs p"] by simp
  moreover have "uint (x :: u32) < 2 ^ 32 + 60" for x
    using u [of x] by linarith
  ultimately show ?thesis
    by (simp add: lease_duration_for_operation_def lease_duration_secs_def
      DEFAULT_MIGRATION_LEASE_SECS_def split: option.splits)
qed

text \<open>A validated policy gives every operation whose statement timeout is enforced (a positive
  timeout, no explicit migration lease) a lease of at least sixty seconds that outlives the
  statement timeout by the thirty-second buffer, and never one longer than the larger of
  sixty seconds and the maximal timeout plus the buffer.\<close>

theorem lease_outlives_timeout:
  assumes "validate_execution_policy p = Inr ()"
    and "is_migration_mutation op \<Longrightarrow> ep_migration_lease_duration_secs p = None"
    and "0 < effective_statement_timeout p op"
  shows "uint (effective_statement_timeout p op) + 30 \<le> lease_duration_for_operation p op
    \<and> 60 \<le> lease_duration_for_operation p op
    \<and> lease_duration_for_operation p op \<le> max 60 (uint (ep_max_statement_timeout_secs p) + 30)"
proof -
  have "lease_duration_for_operation p op = lease_from_timeout p (effective_statement_timeout p op)
    \<and> effective_statement_timeout p op \<le> ep_max_statement_timeout_secs p"
    using assms
    by (auto simp: validate_execution_policy_def lease_duration_for_operation_def
        lease_duration_secs_def effective_statement_timeout_def not_less
        split: if_splits option.splits)
  then show ?thesis
    using lease_from_timeout_ge lease_from_timeout_le lease_from_timeout_covers by metis
qed

theorem lease_outlives_timeout_witness:
  "uint (effective_statement_timeout default_execution_policy ExecuteSelect) + 30
     \<le> lease_duration_for_operation default_execution_policy ExecuteSelect
   \<and> 60 \<le> lease_duration_for_operation default_execution_policy ExecuteSelect
   \<and> lease_duration_for_operation default_execution_policy ExecuteSelect
     \<le> max 60 (uint (ep_max_statement_timeout_secs default_execution_policy) + 30)"
  by (rule lease_outlives_timeout)
    (simp_all add: validate_execution_policy_def default_execution_policy_def
      effective_statement_timeout_def)

subsection \<open>Result policies\<close>

datatype delivery_mode = Both | Stream

record result_policy =
  rp_id :: string
  rp_database :: database_name
  rp_environment :: environment
  rp_retention_days :: u32
  rp_delivery_mode :: delivery_mode
  rp_access :: "selector list"
  rp_created_at :: "timestamp option"
  rp_updated_at :: "timestamp option"

end
