(* ===== verification/Auth.thy ===== *)
theory Auth
  imports Policies
begin

text \<open>
  Identity and permissions (\<open>crates/dbward-domain/src/auth\<close>): permissions with their wire
  names, ownership scopes, resolved roles, the authenticated principal and the resource
  contexts of the second authorization layer. The lemmas give the wire-format round trip and
  the meaning of the effective ownership scope.
\<close>

subsection \<open>Permissions\<close>

datatype permission = RequestQuery | RequestDml | RequestDdl | RequestBreakGlassQuery
  | RequestBreakGlassDml | RequestBreakGlassDdl | RequestView | RequestCancel
  | RequestResume | RequestPreflight | RequestPreflightExplain | ResultView
  | SchemaRead | WorkflowRead | WorkflowWrite | PolicyWrite
  | RoleWrite | UserRead | UserWrite | WebhookWrite
  | TokenCreate | TokenRevoke | TokenList | TokenCreateAgent
  | TokenReissue | AuditRead | MetricsView | AgentOperate
  | PermAll

fun permission_as_str :: "permission \<Rightarrow> string" where
  "permission_as_str RequestQuery = ''request.query''"
| "permission_as_str RequestDml = ''request.dml''"
| "permission_as_str RequestDdl = ''request.ddl''"
| "permission_as_str RequestBreakGlassQuery = ''request.break_glass_query''"
| "permission_as_str RequestBreakGlassDml = ''request.break_glass_dml''"
| "permission_as_str RequestBreakGlassDdl = ''request.break_glass_ddl''"
| "permission_as_str RequestView = ''request.view''"
| "permission_as_str RequestCancel = ''request.cancel''"
| "permission_as_str RequestResume = ''request.resume''"
| "permission_as_str RequestPreflight = ''request.preflight''"
| "permission_as_str RequestPreflightExplain = ''request.preflight_explain''"
| "permission_as_str ResultView = ''result.view''"
| "permission_as_str SchemaRead = ''schema.read''"
| "permission_as_str WorkflowRead = ''workflow.read''"
| "permission_as_str WorkflowWrite = ''workflow.write''"
| "permission_as_str PolicyWrite = ''policy.write''"
| "permission_as_str RoleWrite = ''role.write''"
| "permission_as_str UserRead = ''user.read''"
| "permission_as_str UserWrite = ''user.write''"
| "permission_as_str WebhookWrite = ''webhook.write''"
| "permission_as_str TokenCreate = ''token.create''"
| "permission_as_str TokenRevoke = ''token.revoke''"
| "permission_as_str TokenList = ''token.list''"
| "permission_as_str TokenCreateAgent = ''token.create_agent''"
| "permission_as_str TokenReissue = ''token.reissue''"
| "permission_as_str AuditRead = ''audit.read''"
| "permission_as_str MetricsView = ''metrics.view''"
| "permission_as_str AgentOperate = ''agent.operate''"
| "permission_as_str PermAll = ''*''"

definition permission_from_str :: "string \<Rightarrow> string + permission" where
  "permission_from_str s =
     ok_or (map_of
       [(''request.query'', RequestQuery),
        (''request.dml'', RequestDml),
        (''request.ddl'', RequestDdl),
        (''request.break_glass_query'', RequestBreakGlassQuery),
        (''request.break_glass_dml'', RequestBreakGlassDml),
        (''request.break_glass_ddl'', RequestBreakGlassDdl),
        (''request.view'', RequestView),
        (''request.cancel'', RequestCancel),
        (''request.resume'', RequestResume),
        (''request.preflight'', RequestPreflight),
        (''request.preflight_explain'', RequestPreflightExplain),
        (''result.view'', ResultView),
        (''schema.read'', SchemaRead),
        (''workflow.read'', WorkflowRead),
        (''workflow.write'', WorkflowWrite),
        (''policy.write'', PolicyWrite),
        (''role.write'', RoleWrite),
        (''user.read'', UserRead),
        (''user.write'', UserWrite),
        (''webhook.write'', WebhookWrite),
        (''token.create'', TokenCreate),
        (''token.revoke'', TokenRevoke),
        (''token.list'', TokenList),
        (''token.create_agent'', TokenCreateAgent),
        (''token.reissue'', TokenReissue),
        (''audit.read'', AuditRead),
        (''metrics.view'', MetricsView),
        (''agent.operate'', AgentOperate),
        (''*'', PermAll)] s)
       (''unknown permission: '' @ s)"

text \<open>Reading back the wire name of a permission yields that permission, for every variant.\<close>

theorem permission_from_as_str: "permission_from_str (permission_as_str p) = Inr p"
  by (cases p) (simp_all add: permission_from_str_def)

lemma permission_from_str_sound: "permission_from_str s = Inr p \<Longrightarrow> permission_as_str p = s"
  by (auto simp: permission_from_str_def ok_or_def split: option.splits if_splits)

subsection \<open>Ownership scopes and roles\<close>

datatype ownership_scope = Own | AnyOwner

fun ownership_as_str :: "ownership_scope \<Rightarrow> string" where
  "ownership_as_str Own = ''own''"
| "ownership_as_str AnyOwner = ''any''"

definition ownership_from_str :: "string \<Rightarrow> string + ownership_scope" where
  "ownership_from_str s =
     (if s = ''own'' then Inr Own else if s = ''any'' then Inr AnyOwner
      else Inl (''unknown ownership scope: '' @ s))"

lemma ownership_from_as_str: "ownership_from_str (ownership_as_str s) = Inr s"
  by (cases s) (simp_all add: ownership_from_str_def)

text \<open>The permission table of a role is a \<open>HashMap<Permission, OwnershipScope>\<close>.\<close>

record resolved_role =
  rr_name :: string
  rr_permissions :: "permission \<rightharpoonup> ownership_scope"
  rr_databases :: "database_name list"
  rr_environments :: "environment list"

definition role_has_permission :: "resolved_role \<Rightarrow> permission \<Rightarrow> bool" where
  "role_has_permission r perm \<longleftrightarrow>
     rr_permissions r PermAll \<noteq> None \<or> rr_permissions r perm \<noteq> None"

definition covers_database :: "resolved_role \<Rightarrow> database_name \<Rightarrow> bool" where
  "covers_database r db = list_ex (\<lambda>d. db_str d = ''*'' \<or> d = db) (rr_databases r)"

definition covers_environment :: "resolved_role \<Rightarrow> environment \<Rightarrow> bool" where
  "covers_environment r env = list_ex (\<lambda>e. env_str e = ''*'' \<or> e = env) (rr_environments r)"

definition role_allows :: "resolved_role \<Rightarrow> permission \<Rightarrow> database_name \<Rightarrow> environment \<Rightarrow> bool" where
  "role_allows r perm db env \<longleftrightarrow>
     role_has_permission r perm \<and> covers_database r db \<and> covers_environment r env"

definition ownership_of :: "resolved_role \<Rightarrow> permission \<Rightarrow> ownership_scope" where
  "ownership_of r perm =
     (if rr_permissions r PermAll \<noteq> None then AnyOwner
      else case rr_permissions r perm of None \<Rightarrow> Own | Some s \<Rightarrow> s)"

lemma wildcard_role_allows:
  assumes "rr_permissions r PermAll \<noteq> None" and "db_wildcard \<in> set (rr_databases r)"
    and "env_wildcard \<in> set (rr_environments r)"
  shows "role_allows r perm db env \<and> ownership_of r perm = AnyOwner"
  using assms
  by (auto simp: role_allows_def role_has_permission_def covers_database_def
      covers_environment_def ownership_of_def list_ex_iff db_wildcard_def env_wildcard_def
      intro: bexI [of _ "DatabaseName ''*''"] bexI [of _ "Environment ''*''"])

subsection \<open>The authenticated principal\<close>

datatype subject_type = SubjUser | SubjAgent

record auth_user =
  au_subject_id :: string
  au_subject_type :: subject_type
  au_roles :: "resolved_role list"
  au_groups :: "string list"
  au_token_id :: "string option"

definition has_scoped_permission ::
  "auth_user \<Rightarrow> permission \<Rightarrow> database_name \<Rightarrow> environment \<Rightarrow> bool" where
  "has_scoped_permission u perm db env = list_ex (\<lambda>r. role_allows r perm db env) (au_roles u)"

definition has_permission :: "auth_user \<Rightarrow> permission \<Rightarrow> bool" where
  "has_permission u perm = list_ex (\<lambda>r. role_has_permission r perm) (au_roles u)"

fun effective_ownership_loop ::
  "resolved_role list \<Rightarrow> permission \<Rightarrow> database_name \<Rightarrow> environment \<Rightarrow> ownership_scope" where
  "effective_ownership_loop [] perm db env = Own"
| "effective_ownership_loop (r # rs) perm db env =
     (if role_allows r perm db env \<and> ownership_of r perm = AnyOwner then AnyOwner
      else effective_ownership_loop rs perm db env)"

definition effective_ownership ::
  "auth_user \<Rightarrow> permission \<Rightarrow> database_name \<Rightarrow> environment \<Rightarrow> ownership_scope" where
  "effective_ownership u perm db env = effective_ownership_loop (au_roles u) perm db env"

definition role_names :: "auth_user \<Rightarrow> string list" where
  "role_names u = map rr_name (au_roles u)"

lemma effective_ownership_loop_Any:
  "effective_ownership_loop rs perm db env = AnyOwner \<longleftrightarrow>
   (\<exists>r \<in> set rs. role_allows r perm db env \<and> ownership_of r perm = AnyOwner)"
  by (induction rs) auto

lemma effective_ownership_Any:
  "effective_ownership u perm db env = AnyOwner \<longleftrightarrow>
   (\<exists>r \<in> set (au_roles u). role_allows r perm db env \<and> ownership_of r perm = AnyOwner)"
  by (simp add: effective_ownership_def effective_ownership_loop_Any)

lemma has_scoped_permission_mono:
  assumes "set (au_roles u) \<subseteq> set (au_roles v)" and "has_scoped_permission u perm db env"
  shows "has_scoped_permission v perm db env"
  using assms by (auto simp: has_scoped_permission_def list_ex_iff)

lemma effective_ownership_mono:
  assumes "set (au_roles u) \<subseteq> set (au_roles v)" and "effective_ownership u perm db env = AnyOwner"
  shows "effective_ownership v perm db env = AnyOwner"
  using assms by (auto simp: effective_ownership_Any)

lemma scoped_imp_global: "has_scoped_permission u perm db env \<Longrightarrow> has_permission u perm"
  by (auto simp: has_scoped_permission_def has_permission_def list_ex_iff role_allows_def)

subsection \<open>Resource contexts\<close>

datatype resource_context =
    CtxGlobal
  | CtxRequestView string bool bool
  | CtxRequestMutate string
  | CtxApprovalStep string u32 "approver_group list" bool bool "string list"
  | CtxAgentExecution string
  | CtxResult string "string list"
  | CtxAuditQuery "string option"
  | CtxToken string
  | CtxUser string

subsection \<open>Application errors\<close>

text \<open>The error types of \<open>crates/dbward-app/src/error.rs\<close> with their machine-readable codes.\<close>

datatype authz_error =
    AzForbidden permission string
  | AzScopeDenied string string
  | AzApprovalDenied string

datatype auth_error = MissingToken | InvalidToken | TokenExpired | TokenRevoked | UserSuspended
  | OidcNotConfigured | OidcVerificationFailed string | AuthInternal string | UserLimitReached
  | NoRolesResolved | InsufficientScope

datatype app_error =
    Forbidden authz_error
  | AuthFailed auth_error
  | NotFound string
  | Conflict string
  | Gone string
  | Validation string
  | PlanLimit string
  | PayloadTooLarge string
  | RateLimited string
  | Internal string

fun auth_error_code :: "auth_error \<Rightarrow> string" where
  "auth_error_code MissingToken = ''auth.missing_token''"
| "auth_error_code InvalidToken = ''auth.invalid_token''"
| "auth_error_code TokenExpired = ''auth.token_expired''"
| "auth_error_code TokenRevoked = ''auth.token_revoked''"
| "auth_error_code UserSuspended = ''auth.user_suspended''"
| "auth_error_code OidcNotConfigured = ''auth.oidc_not_configured''"
| "auth_error_code (OidcVerificationFailed _) = ''auth.oidc_failed''"
| "auth_error_code (AuthInternal _) = ''internal_error''"
| "auth_error_code UserLimitReached = ''policy.limit_exceeded''"
| "auth_error_code NoRolesResolved = ''auth.no_roles_resolved''"
| "auth_error_code InsufficientScope = ''auth.insufficient_scope''"

fun app_error_code :: "app_error \<Rightarrow> string" where
  "app_error_code (Forbidden _) = ''forbidden''"
| "app_error_code (AuthFailed e) = auth_error_code e"
| "app_error_code (NotFound _) = ''request.not_found''"
| "app_error_code (Conflict _) = ''request.conflict''"
| "app_error_code (Gone _) = ''request.gone''"
| "app_error_code (Validation _) = ''validation.failed''"
| "app_error_code (PlanLimit _) = ''policy.limit_exceeded''"
| "app_error_code (PayloadTooLarge _) = ''payload.too_large''"
| "app_error_code (RateLimited _) = ''preflight.rate_limited''"
| "app_error_code (Internal _) = ''internal_error''"

type_synonym 'a app_result = "app_error + 'a"

end
