(* ===== verification/Entities.thy ===== *)
theory Entities
  imports Auth
begin

text \<open>
  Entities of the domain crate (\<open>crates/dbward-domain/src/entities\<close>): requests and their
  status, approvals, executions, agents, tokens, results and audit events. JSON columns stay
  strings, as in the source.
\<close>

subsection \<open>Requests\<close>

datatype request_status = Pending | Approved | AutoApproved | BreakGlass | Dispatched | Running
  | Executed | Failed | Rejected | Cancelled | Expired | ExecutionLost

fun status_as_str :: "request_status \<Rightarrow> string" where
  "status_as_str Pending = ''pending''"
| "status_as_str Approved = ''approved''"
| "status_as_str AutoApproved = ''auto_approved''"
| "status_as_str BreakGlass = ''break_glass''"
| "status_as_str Dispatched = ''dispatched''"
| "status_as_str Running = ''running''"
| "status_as_str Executed = ''executed''"
| "status_as_str Failed = ''failed''"
| "status_as_str Rejected = ''rejected''"
| "status_as_str Cancelled = ''cancelled''"
| "status_as_str Expired = ''expired''"
| "status_as_str ExecutionLost = ''execution_lost''"

definition is_terminal :: "request_status \<Rightarrow> bool" where
  "is_terminal s \<longleftrightarrow> s \<in> {Executed, Failed, Rejected, Cancelled, Expired}"

definition is_dispatchable :: "request_status \<Rightarrow> bool" where
  "is_dispatchable s \<longleftrightarrow> s \<in> {Approved, AutoApproved, BreakGlass}"

definition is_re_dispatchable :: "request_status \<Rightarrow> bool" where
  "is_re_dispatchable s \<longleftrightarrow> s \<in> {Executed, Failed, ExecutionLost}"

definition is_cancellable :: "request_status \<Rightarrow> bool" where
  "is_cancellable s \<longleftrightarrow> \<not> s \<in> {Executed, Failed, Rejected, Cancelled, Expired}"

text \<open>\<open>parse_status\<close> of the SQLite request repository.\<close>

definition parse_status :: "string \<Rightarrow> request_status app_result" where
  "parse_status s =
     ok_or (map_of
       [(''pending'', Pending), (''approved'', Approved), (''auto_approved'', AutoApproved),
        (''break_glass'', BreakGlass), (''dispatched'', Dispatched), (''running'', Running),
        (''executed'', Executed), (''failed'', Failed), (''rejected'', Rejected),
        (''cancelled'', Cancelled), (''expired'', Expired),
        (''execution_lost'', ExecutionLost)] s)
       (Internal (''unknown status: '' @ s))"

lemma parse_status_as_str [simp]: "parse_status (status_as_str s) = Inr s"
  by (cases s) (simp_all add: parse_status_def)

lemma status_as_str_inject [simp]: "status_as_str a = status_as_str b \<longleftrightarrow> a = b"
  by (metis parse_status_as_str sum.inject(2))

record request =
  rq_id :: string
  rq_requester :: string
  rq_database :: database_name
  rq_environment :: environment
  rq_operation :: operation
  rq_detail :: string
  rq_status :: request_status
  rq_emergency :: bool
  rq_reason :: "string option"
  rq_idempotency_key :: "string option"
  rq_idempotency_fingerprint :: "string option"
  rq_metadata_json :: string
  rq_share_with :: "string list"
  rq_no_result_store :: bool
  rq_workflow_snapshot_json :: "string option"
  rq_decision_trace_json :: "string option"
  rq_execution_plan_json :: "string option"
  rq_cancel_reason :: "string option"
  rq_cancelled_by :: "string option"
  rq_created_at :: timestamp
  rq_updated_at :: timestamp
  rq_resolved_at :: "timestamp option"
  rq_expires_at :: "timestamp option"

subsection \<open>Approvals\<close>

datatype approval_action = Approve | Reject

record approval =
  ap_id :: string
  ap_request_id :: string
  ap_action :: approval_action
  ap_actor_id :: string
  ap_matched_selector :: string
  ap_step_index :: u32
  ap_comment :: "string option"
  ap_created_at :: timestamp

fun approval_action_str :: "approval_action \<Rightarrow> string" where
  "approval_action_str Approve = ''approve''"
| "approval_action_str Reject = ''reject''"

definition parse_approval_action :: "string \<Rightarrow> approval_action app_result" where
  "parse_approval_action s =
     (if s = ''approve'' then Inr Approve else if s = ''reject'' then Inr Reject
      else Inl (Internal (''unknown approval action: '' @ s)))"

lemma parse_approval_action_str [simp]: "parse_approval_action (approval_action_str a) = Inr a"
  by (cases a) (simp_all add: parse_approval_action_def)

subsection \<open>Executions\<close>

datatype execution_status = ExClaimed | ExRunning | ExCompleting | ExCompleted | ExFailed

fun as_api_str :: "execution_status \<Rightarrow> string" where
  "as_api_str ExClaimed = ''claimed''"
| "as_api_str ExRunning = ''running''"
| "as_api_str ExCompleting = ''running''"
| "as_api_str ExCompleted = ''completed''"
| "as_api_str ExFailed = ''failed''"

record execution =
  ex_id :: string
  ex_request_id :: string
  ex_agent_id :: string
  ex_status :: execution_status
  ex_token :: string
  ex_lease_expires_at :: timestamp
  ex_started_at :: "timestamp option"
  ex_finished_at :: "timestamp option"
  ex_error_message :: "string option"
  ex_created_at :: timestamp

subsection \<open>Agents\<close>

datatype agent_status = AgActive | AgDraining

datatype agent_derived_status = Healthy | Offline | Saturated

record database_capability =
  dc_database :: database_name
  dc_environment :: environment

record active_job_entry =
  aj_request_id :: string
  aj_operation :: string
  aj_elapsed_secs :: u64

record agent =
  ag_id :: string
  ag_token_id :: string
  ag_databases :: "database_capability list"
  ag_status :: agent_status
  ag_max_concurrent :: u32
  ag_in_flight :: u32
  ag_uptime_secs :: u64
  ag_active_jobs :: "active_job_entry list"
  ag_lease_duration_secs :: "u64 option"
  ag_last_seen :: "timestamp option"
  ag_created_at :: timestamp

definition derived_status :: "agent \<Rightarrow> timestamp \<Rightarrow> agent_derived_status" where
  "derived_status a now =
     (case ag_last_seen a of
        None \<Rightarrow> Offline
      | Some seen \<Rightarrow>
          if num_seconds (now - seen) > 60 then Offline
          else if ag_in_flight a \<ge> ag_max_concurrent a then Saturated
          else Healthy)"

lemma derived_status_Healthy:
  "derived_status a now = Healthy \<longleftrightarrow>
   (\<exists>seen. ag_last_seen a = Some seen \<and> num_seconds (now - seen) \<le> 60)
   \<and> ag_in_flight a < ag_max_concurrent a"
  by (auto simp: derived_status_def not_le split: option.splits)

subsection \<open>Tokens\<close>

datatype token_status = TokActive | TokRevoked

datatype provisioning_kind = Initial | Bootstrap

fun provisioning_as_str :: "provisioning_kind \<Rightarrow> string" where
  "provisioning_as_str Initial = ''initial''"
| "provisioning_as_str Bootstrap = ''bootstrap''"

definition provisioning_from_str_opt :: "string option \<Rightarrow> provisioning_kind option" where
  "provisioning_from_str_opt s =
     (if s = Some ''initial'' then Some Initial
      else if s = Some ''bootstrap'' then Some Bootstrap else None)"

lemma provisioning_from_as_str: "provisioning_from_str_opt (Some (provisioning_as_str k)) = Some k"
  by (cases k) (simp_all add: provisioning_from_str_opt_def)

subsection \<open>Results\<close>

datatype result_status = Stored | ResultExpired

datatype selector_type = SelRequester | SelRole | SelGroup | SelUser

record execution_result =
  er_id :: string
  er_request_id :: string
  er_execution_id :: string
  er_storage_backend :: string
  er_storage_key :: string
  er_content_length :: nat
  er_checksum_sha256 :: string
  er_retention_days :: u32
  er_status :: result_status
  er_truncated :: bool
  er_truncation_reason :: "string option"
  er_stored_at :: timestamp
  er_expires_at :: timestamp

record result_access =
  ra_id :: string
  ra_result_id :: string
  ra_selector_type :: selector_type
  ra_selector_value :: string

subsection \<open>Audit events\<close>

datatype ip_source = Direct | Forwarded

fun ip_source_as_str :: "ip_source \<Rightarrow> string" where
  "ip_source_as_str Direct = ''peer''"
| "ip_source_as_str Forwarded = ''xff''"

text \<open>An \<open>IpAddr\<close> is represented by its printed form, the only form the sources store.\<close>

record client_info =
  ci_peer_ip :: string
  ci_client_ip :: string
  ci_source :: ip_source

datatype audit_context = CtxRequest client_info | CtxAgent string | CtxSystem

datatype event_category = CatApproval | CatExecution | CatAgent | CatAuth | CatToken | CatIdentity
  | CatPolicy | CatRequest | CatPreflight

definition category_parse_strict :: "string \<Rightarrow> string + event_category" where
  "category_parse_strict s =
     ok_or (map_of
       [(''approval'', CatApproval), (''execution'', CatExecution), (''agent'', CatAgent),
        (''auth'', CatAuth), (''token'', CatToken), (''identity'', CatIdentity),
        (''policy'', CatPolicy), (''request'', CatRequest), (''preflight'', CatPreflight)] s)
       (''unknown event category: '' @ s)"

definition category_parse :: "string \<Rightarrow> event_category" where
  "category_parse s = (case category_parse_strict s of Inr c \<Rightarrow> c | Inl _ \<Rightarrow> CatPolicy)"

datatype event_outcome = OutSuccess | OutDenied | OutFailure | OutInfo

datatype actor_type = ActUser | ActAgent | ActSystem

record audit_event =
  ae_id :: string
  ae_event_type :: string
  ae_event_category :: event_category
  ae_event_version :: u32
  ae_outcome :: event_outcome
  ae_actor_id :: string
  ae_actor_type :: actor_type
  ae_resource_type :: "string option"
  ae_resource_id :: "string option"
  ae_peer_ip :: "string option"
  ae_client_ip :: "string option"
  ae_client_ip_source :: "string option"
  ae_request_id :: "string option"
  ae_operation :: "string option"
  ae_database_name :: "string option"
  ae_environment :: "string option"
  ae_detail_fingerprint :: "string option"
  ae_detail_raw :: "string option"
  ae_reason :: "string option"
  ae_metadata_json :: string
  ae_prev_hash :: "string option"
  ae_event_hash :: string
  ae_created_at :: timestamp

text \<open>\<open>AuditEvent::simple\<close>: identifier and hash-chain columns are filled by the store.\<close>

definition audit_event_simple ::
  "string \<Rightarrow> string \<Rightarrow> string \<Rightarrow> string option \<Rightarrow> timestamp \<Rightarrow> audit_context \<Rightarrow> audit_event" where
  "audit_event_simple event_type category actor_id resource_id timestamp ctx =
     (let (peer_ip, client_ip, client_ip_source, actor_type) =
        (case ctx of
           CtxRequest info \<Rightarrow>
             (Some (ci_peer_ip info), Some (ci_client_ip info),
              Some (ip_source_as_str (ci_source info)), ActUser)
         | CtxAgent _ \<Rightarrow> (None, None, None, ActAgent)
         | CtxSystem \<Rightarrow> (None, None, None, ActSystem))
      in \<lparr> ae_id = [], ae_event_type = event_type, ae_event_category = category_parse category,
           ae_event_version = 1, ae_outcome = OutSuccess, ae_actor_id = actor_id,
           ae_actor_type = actor_type, ae_resource_type = None, ae_resource_id = resource_id,
           ae_peer_ip = peer_ip, ae_client_ip = client_ip,
           ae_client_ip_source = client_ip_source, ae_request_id = None, ae_operation = None,
           ae_database_name = None, ae_environment = None, ae_detail_fingerprint = None,
           ae_detail_raw = None, ae_reason = None, ae_metadata_json = ''{}'',
           ae_prev_hash = None, ae_event_hash = [], ae_created_at = timestamp \<rparr>)"

end
