(* ===== verification/Workflow_Engine.thy ===== *)
theory Workflow_Engine
  imports Entities
begin

text \<open>
  The approval engine of the domain crate: workflow lookup and evaluation and step
  progression (\<open>services/workflow_matcher.rs\<close>), approver eligibility
  (\<open>services/approval_checker.rs\<close>) and the progress view (\<open>services/approval_progress.rs\<close>).
  The lemmas characterise the selected workflow, the current step, satisfaction under more
  approvals, and the agreement between the satisfaction test and the list of open groups.
\<close>

subsection \<open>Workflow lookup\<close>

datatype auto_approve_reason = ReasonAlways | ReasonRiskBased

datatype approval_decision = NeedsApproval | DecisionAutoApproved auto_approve_reason

definition needs_approval :: "approval_decision \<Rightarrow> bool" where
  "needs_approval d \<longleftrightarrow> d = NeedsApproval"

definition matches_scope :: "database_name \<Rightarrow> database_name \<Rightarrow> bool" where
  "matches_scope policy_db request_db \<longleftrightarrow> db_is_wildcard policy_db \<or> policy_db = request_db"

definition matches_scope_env :: "environment \<Rightarrow> environment \<Rightarrow> bool" where
  "matches_scope_env policy_env request_env \<longleftrightarrow> env_is_wildcard policy_env \<or> policy_env = request_env"

definition scope_specificity ::
  "database_name \<Rightarrow> environment \<Rightarrow> database_name \<Rightarrow> environment \<Rightarrow> u8" where
  "scope_specificity policy_db policy_env request_db request_env =
     (let score = 0;
          score = (if \<not> env_is_wildcard policy_env \<and> policy_env = request_env then score + 4 else score);
          score = (if \<not> db_is_wildcard policy_db \<and> policy_db = request_db then score + 2 else score)
      in score)"

definition specificity_score :: "workflow \<Rightarrow> database_name \<Rightarrow> environment \<Rightarrow> operation \<Rightarrow> u8" where
  "specificity_score w db env op =
     (let score = scope_specificity (wf_database w) (wf_environment w) db env
      in if wf_operations w \<noteq> [] \<and> op \<in> set (wf_operations w) then score + 1 else score)"

definition find_matching_workflow ::
  "workflow list \<Rightarrow> database_name \<Rightarrow> environment \<Rightarrow> operation \<Rightarrow> workflow option" where
  "find_matching_workflow workflows db env op =
     (let candidates =
        filter (\<lambda>w. matches_scope (wf_database w) db \<and> matches_scope_env (wf_environment w) env)
          (filter (\<lambda>w. matches_operation w op) workflows)
      in if candidates = [] then None
         else max_by_key (\<lambda>w. specificity_score w db env op) candidates)"

text \<open>The documented contract: a candidate matches scope and operation; candidates are ranked
  by an exact environment, then an exact database, then an explicit operation list.\<close>

definition wf_candidate :: "workflow \<Rightarrow> database_name \<Rightarrow> environment \<Rightarrow> operation \<Rightarrow> bool" where
  "wf_candidate w db env op \<longleftrightarrow> matches_operation w op
     \<and> matches_scope (wf_database w) db \<and> matches_scope_env (wf_environment w) env"

definition wf_rank :: "workflow \<Rightarrow> nat" where
  "wf_rank w = (if env_is_wildcard (wf_environment w) then 0 else 4)
     + (if db_is_wildcard (wf_database w) then 0 else 2) + (if wf_operations w = [] then 0 else 1)"

lemma specificity_score_rank:
  assumes "wf_candidate w db env op"
  shows "unat (specificity_score w db env op) = wf_rank w"
  using assms
  by (auto simp: wf_candidate_def specificity_score_def scope_specificity_def wf_rank_def
      matches_operation_def matches_scope_def matches_scope_env_def Let_def)

lemma find_matching_workflow_None:
  "find_matching_workflow ws db env op = None \<longleftrightarrow> (\<forall>w \<in> set ws. \<not> wf_candidate w db env op)"
  by (auto simp: find_matching_workflow_def wf_candidate_def Let_def filter_empty_conv)

lemma find_matching_workflow_Some:
  assumes "find_matching_workflow ws db env op = Some w"
  shows "w \<in> set ws \<and> wf_candidate w db env op
    \<and> (\<forall>w' \<in> set ws. wf_candidate w' db env op \<longrightarrow> wf_rank w' \<le> wf_rank w)"
proof -
  let ?f = "\<lambda>w. specificity_score w db env op"
  let ?c = "filter (\<lambda>w. wf_candidate w db env op) ws"
  have c: "filter (\<lambda>w. matches_scope (wf_database w) db \<and> matches_scope_env (wf_environment w) env)
          (filter (\<lambda>w. matches_operation w op) ws) = ?c"
    by (simp add: wf_candidate_def conj_commute)
  have "max_by_key ?f ?c = Some w"
    using assms unfolding find_matching_workflow_def Let_def c by (simp split: if_splits)
  from max_by_key_Some [OF this]
  have m: "w \<in> set ?c" "\<forall>x \<in> set ?c. ?f x \<le> ?f w" by simp_all
  moreover have "wf_rank w' \<le> wf_rank w" if "w' \<in> set ?c" for w'
    using m that specificity_score_rank [of w' db env op] specificity_score_rank [of w db env op]
    by (auto simp: word_le_nat_alt)
  ultimately show ?thesis by auto
qed

text \<open>The workflow lookup is total and honours the documented priority: it returns a workflow
  exactly if some configured one covers the database, environment and operation, the result
  is such a workflow, and no other candidate is more specific, an exact environment weighing
  more than an exact database and that more than an explicit operation list.\<close>

theorem workflow_lookup_priority:
  "(find_matching_workflow ws db env op = None \<longleftrightarrow> (\<forall>w. w \<in> set ws \<longrightarrow> \<not> wf_candidate w db env op))
   \<and> (\<forall>w. find_matching_workflow ws db env op = Some w \<longrightarrow>
        w \<in> set ws \<and> wf_candidate w db env op
        \<and> (\<forall>w'. w' \<in> set ws \<and> wf_candidate w' db env op \<longrightarrow> wf_rank w' \<le> wf_rank w))"
  using find_matching_workflow_None find_matching_workflow_Some by blast

definition example_workflow :: "string \<Rightarrow> string \<Rightarrow> string \<Rightarrow> workflow" where
  "example_workflow i db env =
     \<lparr> wf_id = i, wf_database = DatabaseName db, wf_environment = Environment env,
       wf_operations = [], wf_auto_approve = None, wf_steps = [], wf_require_reason = False,
       wf_allow_self_approve = False, wf_allow_same_approver_across_steps = False,
       wf_explain = True, wf_pending_ttl_secs = None, wf_statement_timeout_secs = None,
       wf_approval_ttl_secs = None, wf_created_at = None, wf_updated_at = None \<rparr>"

theorem workflow_lookup_priority_witness:
  "find_matching_workflow
     [example_workflow ''a'' ''app'' ''*'', example_workflow ''b'' ''*'' ''prod'']
     (DatabaseName ''app'') (Environment ''prod'') ExecuteDml
   = Some (example_workflow ''b'' ''*'' ''prod'')
   \<and> wf_candidate (example_workflow ''b'' ''*'' ''prod'') (DatabaseName ''app'') (Environment ''prod'') ExecuteDml"
proof -
  have f: "find_matching_workflow
     [example_workflow ''a'' ''app'' ''*'', example_workflow ''b'' ''*'' ''prod'']
     (DatabaseName ''app'') (Environment ''prod'') ExecuteDml
   = Some (example_workflow ''b'' ''*'' ''prod'')"
    by (simp add: find_matching_workflow_def matches_operation_def matches_scope_def
        matches_scope_env_def specificity_score_def scope_specificity_def example_workflow_def
        db_is_wildcard_def env_is_wildcard_def)
  then show ?thesis
    using workflow_lookup_priority [of
      "[example_workflow ''a'' ''app'' ''*'', example_workflow ''b'' ''*'' ''prod'']"
      "DatabaseName ''app''" "Environment ''prod''" ExecuteDml] by blast
qed

subsection \<open>Auto-approval\<close>

definition evaluate_workflow :: "workflow \<Rightarrow> risk_level option \<Rightarrow> approval_decision" where
  "evaluate_workflow w risk =
     (case wf_auto_approve w of
        Some aa \<Rightarrow>
          (case aa_mode aa of
             Always \<Rightarrow> DecisionAutoApproved ReasonAlways
           | RiskBased \<Rightarrow>
               (case (aa_max_risk_level aa, risk) of
                  (Some max_level, Some level) \<Rightarrow>
                    if level \<noteq> Unknown \<and> level \<noteq> Unavailable \<and> level \<le> max_level
                    then DecisionAutoApproved ReasonRiskBased else NeedsApproval
                | _ \<Rightarrow> NeedsApproval))
      | None \<Rightarrow> NeedsApproval)"

text \<open>Auto-approval is fail-closed: a request escapes human approval only if the workflow says
  so unconditionally, or if it has a risk threshold, the risk was assessed, the level is a
  definite one and does not exceed the threshold.\<close>

theorem auto_approval_fail_closed:
  "\<not> needs_approval (evaluate_workflow w risk) \<longleftrightarrow>
   (\<exists>aa. wf_auto_approve w = Some aa
      \<and> (aa_mode aa = Always
         \<or> (\<exists>limit level. aa_max_risk_level aa = Some limit \<and> risk = Some level
              \<and> level \<in> {Low, Medium, High, Critical} \<and> level \<le> limit)))"
  by (auto simp: evaluate_workflow_def needs_approval_def
      split: option.splits auto_approve_mode.splits if_splits)
    (metis risk_level.exhaust)

subsection \<open>Step progression\<close>

definition group_count :: "approval list \<Rightarrow> approver_group \<Rightarrow> u32" where
  "group_count step_approvals ag =
     as_u32 (length (filter (\<lambda>a. ap_matched_selector a = selector_to_string (ag_selector ag))
       step_approvals))"

definition step_approvals_of :: "u32 \<Rightarrow> approval list \<Rightarrow> approval list" where
  "step_approvals_of step_index approvals =
     filter (\<lambda>a. ap_step_index a = step_index \<and> ap_action a = Approve) approvals"

definition is_step_satisfied :: "workflow_step \<Rightarrow> u32 \<Rightarrow> approval list \<Rightarrow> bool" where
  "is_step_satisfied step step_index approvals =
     (let step_approvals = step_approvals_of step_index approvals
      in case ws_mode step of
           ModeAll \<Rightarrow> list_all (\<lambda>ag. group_count step_approvals ag \<ge> ag_min ag) (ws_approvers step)
         | ModeAny \<Rightarrow> list_ex (\<lambda>ag. group_count step_approvals ag \<ge> ag_min ag) (ws_approvers step))"

fun find_current_step_from :: "nat \<Rightarrow> workflow_step list \<Rightarrow> approval list \<Rightarrow> u32" where
  "find_current_step_from i [] approvals = as_u32 i"
| "find_current_step_from i (step # steps) approvals =
     (if \<not> is_step_satisfied step (as_u32 i) approvals then as_u32 i
      else find_current_step_from (Suc i) steps approvals)"

definition find_current_step :: "workflow_step list \<Rightarrow> approval list \<Rightarrow> u32" where
  "find_current_step steps approvals = find_current_step_from 0 steps approvals"

definition all_steps_satisfied :: "workflow_step list \<Rightarrow> approval list \<Rightarrow> bool" where
  "all_steps_satisfied steps approvals =
     list_all (\<lambda>(i, step). is_step_satisfied step (as_u32 i) approvals)
       (zip [0..<length steps] steps)"

definition unsatisfied_groups :: "workflow_step \<Rightarrow> u32 \<Rightarrow> approval list \<Rightarrow> (approver_group \<times> u32) list" where
  "unsatisfied_groups step step_index approvals =
     (let step_approvals = step_approvals_of step_index approvals
      in case ws_mode step of
           ModeAll \<Rightarrow>
             map (\<lambda>ag. (ag, ag_min ag - group_count step_approvals ag))
               (filter (\<lambda>ag. group_count step_approvals ag < ag_min ag) (ws_approvers step))
         | ModeAny \<Rightarrow>
             if list_ex (\<lambda>ag. group_count step_approvals ag \<ge> ag_min ag) (ws_approvers step) then []
             else map (\<lambda>ag. (ag, ag_min ag - group_count step_approvals ag)) (ws_approvers step))"

lemma all_steps_satisfied_nth:
  "all_steps_satisfied steps approvals \<longleftrightarrow>
   (\<forall>i < length steps. is_step_satisfied (steps ! i) (as_u32 i) approvals)"
  by (auto simp: all_steps_satisfied_def list_all_length)

text \<open>The first open step at or after position \<open>i\<close>, as a natural number.\<close>

lemma find_current_step_from_nat:
  "\<exists>k \<ge> i. k \<le> i + length steps \<and> find_current_step_from i steps approvals = as_u32 k
     \<and> (\<forall>j. i \<le> j \<and> j < k \<longrightarrow> is_step_satisfied (steps ! (j - i)) (as_u32 j) approvals)
     \<and> (k < i + length steps \<longrightarrow> \<not> is_step_satisfied (steps ! (k - i)) (as_u32 k) approvals)"
proof (induction steps arbitrary: i)
  case Nil
  then show ?case by auto
next
  case (Cons step steps)
  show ?case
  proof (cases "is_step_satisfied step (as_u32 i) approvals")
    case False
    then show ?thesis by (intro exI [of _ i]) auto
  next
    case True
    obtain k where k: "Suc i \<le> k" "k \<le> Suc i + length steps"
      "find_current_step_from (Suc i) steps approvals = as_u32 k"
      "\<forall>j. Suc i \<le> j \<and> j < k \<longrightarrow> is_step_satisfied (steps ! (j - Suc i)) (as_u32 j) approvals"
      "k < Suc i + length steps \<longrightarrow> \<not> is_step_satisfied (steps ! (k - Suc i)) (as_u32 k) approvals"
      using Cons.IH by blast
    have "is_step_satisfied ((step # steps) ! (j - i)) (as_u32 j) approvals" if "i \<le> j" "j < k" for j
      using that True k(4) by (cases "j = i") (auto simp: nth_Cons')
    with k True show ?thesis by (intro exI [of _ k]) (auto simp: nth_Cons')
  qed
qed

lemma current_step_spec:
  assumes "length steps < 2 ^ 32"
  shows "unat (find_current_step steps approvals) \<le> length steps"
    and "j < unat (find_current_step steps approvals) \<Longrightarrow> is_step_satisfied (steps ! j) (as_u32 j) approvals"
    and "unat (find_current_step steps approvals) < length steps \<Longrightarrow>
         \<not> is_step_satisfied (steps ! unat (find_current_step steps approvals))
             (find_current_step steps approvals) approvals"
proof -
  from find_current_step_from_nat [of 0 steps approvals] obtain k where k:
    "k \<le> length steps" "find_current_step_from 0 steps approvals = as_u32 k"
    "\<forall>j. 0 \<le> j \<and> j < k \<longrightarrow> is_step_satisfied (steps ! (j - 0)) (as_u32 j) approvals"
    "k < length steps \<longrightarrow> \<not> is_step_satisfied (steps ! (k - 0)) (as_u32 k) approvals"
    by auto
  moreover have u: "unat (find_current_step steps approvals) = k"
    using k(1,2) assms by (simp add: find_current_step_def unat_as_u32_id)
  ultimately show "unat (find_current_step steps approvals) \<le> length steps"
    and "j < unat (find_current_step steps approvals) \<Longrightarrow> is_step_satisfied (steps ! j) (as_u32 j) approvals"
    and "unat (find_current_step steps approvals) < length steps \<Longrightarrow>
         \<not> is_step_satisfied (steps ! unat (find_current_step steps approvals))
             (find_current_step steps approvals) approvals"
    by (simp_all add: find_current_step_def)
qed

lemma as_u32_unat [simp]: "as_u32 (unat w) = w"
  by (simp add: as_u32_def)

lemma satisfied_prefix_le_current:
  assumes "length steps < 2 ^ 32" and "n \<le> length steps"
    and "\<forall>j < n. is_step_satisfied (steps ! j) (as_u32 j) approvals"
  shows "n \<le> unat (find_current_step steps approvals)"
proof (rule ccontr)
  let ?k = "unat (find_current_step steps approvals)"
  assume "\<not> n \<le> ?k"
  with assms(2) have k: "?k < n" "?k < length steps" by auto
  then have "is_step_satisfied (steps ! ?k) (as_u32 ?k) approvals" using assms(3) by blast
  with k show False using current_step_spec(3) [OF assms(1), of approvals] by simp
qed

lemma current_step_end_iff:
  assumes "length steps < 2 ^ 32"
  shows "find_current_step steps approvals = as_u32 (length steps) \<longleftrightarrow> all_steps_satisfied steps approvals"
proof
  assume "find_current_step steps approvals = as_u32 (length steps)"
  then have "unat (find_current_step steps approvals) = length steps"
    using assms by (simp add: unat_as_u32_id)
  then show "all_steps_satisfied steps approvals"
    using current_step_spec(2) [OF assms] by (simp add: all_steps_satisfied_nth)
next
  assume "all_steps_satisfied steps approvals"
  then have "length steps \<le> unat (find_current_step steps approvals)"
    using satisfied_prefix_le_current [OF assms, of "length steps"] by (simp add: all_steps_satisfied_nth)
  then have "unat (find_current_step steps approvals) = length steps"
    using current_step_spec(1) [OF assms, of approvals] by simp
  then show "find_current_step steps approvals = as_u32 (length steps)"
    by (metis as_u32_unat)
qed

text \<open>The current step is the first one whose approvals do not suffice: every earlier step is
  satisfied and the current one is not, and there is no current step exactly if all steps are
  satisfied, which is the condition under which the final approval is granted.\<close>

theorem current_step_first_open:
  assumes "length steps < 2 ^ 32"
  shows "unat (find_current_step steps approvals) \<le> length steps
    \<and> (\<forall>j. j < unat (find_current_step steps approvals) \<longrightarrow>
         is_step_satisfied (steps ! j) (as_u32 j) approvals)
    \<and> (unat (find_current_step steps approvals) < length steps \<longrightarrow>
         \<not> is_step_satisfied (steps ! unat (find_current_step steps approvals))
             (find_current_step steps approvals) approvals)
    \<and> (find_current_step steps approvals = as_u32 (length steps)
         \<longleftrightarrow> all_steps_satisfied steps approvals)"
  using current_step_spec [OF assms] current_step_end_iff [OF assms] by blast

definition one_step :: "workflow_step list" where
  "one_step = [\<lparr> ws_approvers = [\<lparr> ag_selector = Role ''dba'', ag_min = 1 \<rparr>], ws_mode = ModeAny \<rparr>]"

theorem current_step_first_open_witness:
  "length one_step < 2 ^ 32 \<and> unat (find_current_step one_step []) = 0
   \<and> (find_current_step one_step [] = as_u32 (length one_step) \<longleftrightarrow> all_steps_satisfied one_step [])"
  using current_step_first_open [of one_step "[]"]
  by (simp add: one_step_def find_current_step_def is_step_satisfied_def group_count_def
      step_approvals_of_def as_u32_def)

text \<open>Counting is monotone in the recorded approvals as long as the 32-bit counter holds them.\<close>

lemma group_count_append:
  assumes "length (xs @ ys) < 2 ^ 32"
  shows "group_count xs ag \<le> group_count (xs @ ys) ag"
proof -
  let ?P = "\<lambda>a. ap_matched_selector a = selector_to_string (ag_selector ag)"
  have l: "length (filter ?P (xs @ ys)) < 2 ^ 32"
    using assms length_filter_le [of ?P "xs @ ys"] by linarith
  moreover have "length (filter ?P xs) \<le> length (filter ?P (xs @ ys))" by simp
  moreover have "length (filter ?P xs) < 2 ^ 32" using l by simp
  ultimately show ?thesis by (simp add: group_count_def as_u32_le_iff)
qed

lemma step_approvals_of_append [simp]:
  "step_approvals_of i (xs @ ys) = step_approvals_of i xs @ step_approvals_of i ys"
  by (simp add: step_approvals_of_def)

lemma length_step_approvals_of: "length (step_approvals_of i xs) \<le> length xs"
  by (simp add: step_approvals_of_def)

lemma is_step_satisfied_mono:
  assumes "is_step_satisfied step i xs" and "length (xs @ ys) < 2 ^ 32"
  shows "is_step_satisfied step i (xs @ ys)"
proof -
  have "length (step_approvals_of i xs @ step_approvals_of i ys) < 2 ^ 32"
    using assms(2) length_step_approvals_of [of i xs] length_step_approvals_of [of i ys] by simp
  then have "group_count (step_approvals_of i xs) ag
      \<le> group_count (step_approvals_of i xs @ step_approvals_of i ys) ag" for ag
    by (rule group_count_append)
  with assms(1) show ?thesis
    by (force simp: is_step_satisfied_def Let_def list_all_iff list_ex_iff
        split: workflow_step_mode.splits intro: order_trans)
qed

text \<open>More approvals never move a request back: with additional records the current step index
  stays or grows, and a request whose steps are all satisfied stays so.\<close>

theorem approvals_monotone:
  assumes "length steps < 2 ^ 32" and "length (xs @ ys) < 2 ^ 32"
  shows "unat (find_current_step steps xs) \<le> unat (find_current_step steps (xs @ ys))
    \<and> (all_steps_satisfied steps xs \<longrightarrow> all_steps_satisfied steps (xs @ ys))"
proof -
  have "\<forall>j < unat (find_current_step steps xs). is_step_satisfied (steps ! j) (as_u32 j) (xs @ ys)"
    using current_step_spec(2) [OF assms(1)] is_step_satisfied_mono [OF _ assms(2)] by blast
  then have "unat (find_current_step steps xs) \<le> unat (find_current_step steps (xs @ ys))"
    using satisfied_prefix_le_current [OF assms(1)] current_step_spec(1) [OF assms(1)] by blast
  moreover have "all_steps_satisfied steps xs \<longrightarrow> all_steps_satisfied steps (xs @ ys)"
    using is_step_satisfied_mono [OF _ assms(2)] by (auto simp: all_steps_satisfied_nth)
  ultimately show ?thesis by simp
qed

definition one_approval :: "string \<Rightarrow> approval" where
  "one_approval who =
     \<lparr> ap_id = ''a1'', ap_request_id = ''r1'', ap_action = Approve, ap_actor_id = who,
       ap_matched_selector = ''role:dba'', ap_step_index = 0, ap_comment = None,
       ap_created_at = 0 \<rparr>"

theorem approvals_monotone_witness:
  "unat (find_current_step one_step []) \<le> unat (find_current_step one_step ([] @ [one_approval ''bob'']))
   \<and> find_current_step one_step [one_approval ''bob''] = 1"
  using approvals_monotone [of one_step "[]" "[one_approval ''bob'']"]
  by (simp add: one_step_def one_approval_def find_current_step_def is_step_satisfied_def
      group_count_def step_approvals_of_def as_u32_def)

text \<open>The list of open groups against the satisfaction test.\<close>

lemma unsatisfied_groups_counts:
  assumes "(ag, n) \<in> set (unsatisfied_groups step i approvals)"
  shows "ag \<in> set (ws_approvers step) \<and> 0 < n
    \<and> group_count (step_approvals_of i approvals) ag + n = ag_min ag
    \<and> group_count (step_approvals_of i approvals) ag < ag_min ag"
proof -
  have "ag \<in> set (ws_approvers step) \<and> group_count (step_approvals_of i approvals) ag < ag_min ag
    \<and> n = ag_min ag - group_count (step_approvals_of i approvals) ag"
    using assms
    by (auto simp: unsatisfied_groups_def Let_def list_ex_iff not_le
        split: workflow_step_mode.splits if_splits)
  then show ?thesis by (auto simp: word_gt_0)
qed

text \<open>The open approver groups reported for a step agree with the satisfaction test: for a step
  that names at least one group (which configuration validation demands), the list is empty
  exactly if the step is satisfied, and each entry names a group of the step together with
  the positive number of approvals that would complete it.\<close>

theorem unsatisfied_groups_agree:
  assumes "ws_approvers step \<noteq> []"
  shows "(unsatisfied_groups step i approvals = [] \<longleftrightarrow> is_step_satisfied step i approvals)
    \<and> (\<forall>ag n. (ag, n) \<in> set (unsatisfied_groups step i approvals) \<longrightarrow>
         ag \<in> set (ws_approvers step) \<and> 0 < n
         \<and> group_count (step_approvals_of i approvals) ag + n = ag_min ag)"
proof -
  have "unsatisfied_groups step i approvals = [] \<longleftrightarrow> is_step_satisfied step i approvals"
    using assms
    by (auto simp: unsatisfied_groups_def is_step_satisfied_def Let_def list_all_iff list_ex_iff
        filter_empty_conv not_less split: workflow_step_mode.splits)
  then show ?thesis using unsatisfied_groups_counts by blast
qed

theorem unsatisfied_groups_agree_witness:
  "ws_approvers (hd one_step) \<noteq> []
   \<and> unsatisfied_groups (hd one_step) 0 [] = [(\<lparr> ag_selector = Role ''dba'', ag_min = 1 \<rparr>, 1)]
   \<and> \<not> is_step_satisfied (hd one_step) 0 []"
  using unsatisfied_groups_agree [of "hd one_step" 0 "[]"]
  by (simp add: one_step_def unsatisfied_groups_def group_count_def step_approvals_of_def as_u32_def)

subsection \<open>Approver eligibility\<close>

definition is_approvable_by_attrs_inner ::
  "string \<Rightarrow> string list \<Rightarrow> string list \<Rightarrow> approver_group list \<Rightarrow> string list \<Rightarrow> bool \<Rightarrow> bool" where
  "is_approvable_by_attrs_inner user_id rnames groups approvers previous_approver_ids
       allow_same_approver_across_steps =
     (if \<not> allow_same_approver_across_steps \<and> user_id \<in> set previous_approver_ids then False
      else list_ex (\<lambda>ag. selector_matches (ag_selector ag) rnames groups user_id False) approvers)"

definition is_approvable_by_attrs ::
  "string \<Rightarrow> string list \<Rightarrow> string list \<Rightarrow> approver_group list \<Rightarrow> string \<Rightarrow> string list
     \<Rightarrow> bool \<Rightarrow> bool \<Rightarrow> bool" where
  "is_approvable_by_attrs user_id rnames groups approvers requester_id previous_approver_ids
       allow_self_approve allow_same_approver_across_steps =
     (if \<not> allow_self_approve \<and> user_id = requester_id then False
      else is_approvable_by_attrs_inner user_id rnames groups approvers previous_approver_ids
             allow_same_approver_across_steps)"

definition is_approvable_by ::
  "auth_user \<Rightarrow> approver_group list \<Rightarrow> string \<Rightarrow> string list \<Rightarrow> bool \<Rightarrow> bool \<Rightarrow> bool" where
  "is_approvable_by user approvers requester_id previous_approver_ids
       allow_self_approve allow_same_approver_across_steps =
     (if \<not> allow_self_approve \<and> au_subject_id user = requester_id then False
      else is_approvable_by_attrs_inner (au_subject_id user) (map rr_name (au_roles user))
             (au_groups user) approvers previous_approver_ids allow_same_approver_across_steps)"

definition matched_selectors_by_attrs ::
  "string list \<Rightarrow> string list \<Rightarrow> string \<Rightarrow> approver_group list \<Rightarrow> string list" where
  "matched_selectors_by_attrs rnames groups user_id approvers =
     map (\<lambda>ag. selector_to_string (ag_selector ag))
       (filter (\<lambda>ag. selector_matches (ag_selector ag) rnames groups user_id False) approvers)"

lemma matched_selectors_ne:
  "matched_selectors_by_attrs rns gs u ags \<noteq> [] \<longleftrightarrow>
   list_ex (\<lambda>ag. selector_matches (ag_selector ag) rns gs u False) ags"
  by (simp add: matched_selectors_by_attrs_def filter_empty_conv list_ex_iff)

lemma is_approvable_by_attrs_iff:
  "is_approvable_by_attrs u rns gs ags req prev self same \<longleftrightarrow>
   (self \<or> u \<noteq> req) \<and> (same \<or> u \<notin> set prev) \<and> matched_selectors_by_attrs rns gs u ags \<noteq> []"
  by (auto simp: is_approvable_by_attrs_def is_approvable_by_attrs_inner_def matched_selectors_ne)

text \<open>The eligibility test of the authorizer, on the authenticated user, and the one repeated
  inside the transaction, on that user's attributes, decide alike; an eligible user always
  has a matching selector to record, never is the requester unless the workflow allows
  self-approval, and never approved an earlier step unless the workflow allows it.\<close>

theorem eligibility_checks_agree:
  "is_approvable_by user ags req prev self same =
     is_approvable_by_attrs (au_subject_id user) (role_names user) (au_groups user) ags req prev self same
   \<and> (is_approvable_by user ags req prev self same \<longleftrightarrow>
        \<not> (\<not> self \<and> au_subject_id user = req) \<and> \<not> (\<not> same \<and> au_subject_id user \<in> set prev)
        \<and> matched_selectors_by_attrs (role_names user) (au_groups user) (au_subject_id user) ags \<noteq> [])"
proof -
  have "is_approvable_by user ags req prev self same =
     is_approvable_by_attrs (au_subject_id user) (role_names user) (au_groups user) ags req prev self same"
    by (simp add: is_approvable_by_def is_approvable_by_attrs_def role_names_def)
  then show ?thesis by (auto simp: is_approvable_by_attrs_iff)
qed

subsection \<open>Progress view\<close>

record approver_requirement =
  aq_selector :: selector
  aq_min :: u32
  aq_current :: u32

record approval_record =
  ar_user :: string
  ar_action :: approval_action
  ar_at :: timestamp
  ar_comment :: "string option"

record step_progress =
  sp_index :: u32
  sp_mode :: workflow_step_mode
  sp_satisfied :: bool
  sp_approvers_required :: "approver_requirement list"
  sp_approvals :: "approval_record list"

record approval_progress =
  pg_current_step :: u32
  pg_total_steps :: u32
  pg_steps :: "step_progress list"

definition build_step_progress :: "approval list \<Rightarrow> nat \<times> workflow_step \<Rightarrow> step_progress" where
  "build_step_progress approvals p =
     (let (i, step) = p; idx = as_u32 i;
          step_approvals = filter (\<lambda>a. ap_step_index a = idx) approvals
      in \<lparr> sp_index = idx, sp_mode = ws_mode step,
           sp_satisfied = is_step_satisfied step idx approvals,
           sp_approvers_required = map (\<lambda>ag.
             \<lparr> aq_selector = ag_selector ag, aq_min = ag_min ag,
               aq_current = as_u32 (length (filter (\<lambda>a. ap_action a = Approve
                 \<and> ap_matched_selector a = selector_to_string (ag_selector ag)) step_approvals)) \<rparr>)
             (ws_approvers step),
           sp_approvals = map (\<lambda>a. \<lparr> ar_user = ap_actor_id a, ar_action = ap_action a,
             ar_at = ap_created_at a, ar_comment = ap_comment a \<rparr>) step_approvals \<rparr>)"

definition build_progress :: "workflow_step list \<Rightarrow> approval list \<Rightarrow> approval_progress" where
  "build_progress steps approvals =
     \<lparr> pg_current_step = find_current_step steps approvals,
       pg_total_steps = as_u32 (length steps),
       pg_steps = map (build_step_progress approvals) (zip [0..<length steps] steps) \<rparr>"

definition requirement_met :: "approver_requirement \<Rightarrow> bool" where
  "requirement_met q \<longleftrightarrow> aq_current q \<ge> aq_min q"

lemma progress_satisfied_iff:
  "sp_satisfied (build_step_progress approvals p) \<longleftrightarrow>
   (case sp_mode (build_step_progress approvals p) of
      ModeAll \<Rightarrow> list_all requirement_met (sp_approvers_required (build_step_progress approvals p))
    | ModeAny \<Rightarrow> list_ex requirement_met (sp_approvers_required (build_step_progress approvals p)))"
  by (cases p)
    (auto simp: build_step_progress_def is_step_satisfied_def group_count_def requirement_met_def
      step_approvals_of_def conj_assoc list_all_iff list_ex_iff Let_def split: workflow_step_mode.splits)

text \<open>The progress view is consistent with itself and with the engine: it has one entry per
  step, the satisfied flag of an entry is what its shown counts say under its mode, and the
  current step it shows equals the number of steps exactly if every entry is satisfied.\<close>

theorem progress_consistent:
  assumes "length steps < 2 ^ 32"
  shows "length (pg_steps (build_progress steps approvals)) = length steps
    \<and> (\<forall>sp. sp \<in> set (pg_steps (build_progress steps approvals)) \<longrightarrow>
         (sp_satisfied sp \<longleftrightarrow>
            (case sp_mode sp of ModeAll \<Rightarrow> list_all requirement_met (sp_approvers_required sp)
             | ModeAny \<Rightarrow> list_ex requirement_met (sp_approvers_required sp))))
    \<and> (pg_current_step (build_progress steps approvals) = pg_total_steps (build_progress steps approvals)
         \<longleftrightarrow> list_all sp_satisfied (pg_steps (build_progress steps approvals)))"
proof -
  have "list_all sp_satisfied (pg_steps (build_progress steps approvals)) \<longleftrightarrow> all_steps_satisfied steps approvals"
    by (auto simp: build_progress_def all_steps_satisfied_def build_step_progress_def list_all_iff Let_def)
  then show ?thesis
    using current_step_end_iff [OF assms] progress_satisfied_iff
    by (auto simp: build_progress_def)
qed

theorem progress_consistent_witness:
  "length one_step < 2 ^ 32
   \<and> (pg_current_step (build_progress one_step []) = pg_total_steps (build_progress one_step [])
       \<longleftrightarrow> list_all sp_satisfied (pg_steps (build_progress one_step [])))"
  using progress_consistent [of one_step "[]"] by (simp add: one_step_def)

end
