(* ===== verification/Workflow_Validator.thy ===== *)
theory Workflow_Validator
  imports Workflow_Engine "HOL-Library.Countable"
begin

text \<open>
  Validation of configured workflow steps (\<open>services/workflow_validator.rs\<close>). The main lemma is
  that a workflow without an error-level issue is satisfiable: given enough members, there is
  a set of votes the approval rules admit that satisfies every step.
\<close>

subsection \<open>The checks\<close>

datatype severity = SevError | SevWarning

record issue =
  is_severity :: severity
  is_step_index :: "nat option"
  is_message :: string

definition step_tag :: "nat \<Rightarrow> string" where
  "step_tag i = ''step['' @ show_nat i @ '']: ''"

definition approver_issues :: "nat \<Rightarrow> approver_group \<Rightarrow> issue list" where
  "approver_issues i ag =
     (if ag_min ag = 0
      then [\<lparr> is_severity = SevError, is_step_index = Some i,
              is_message = step_tag i @ ''approver '' @ quoted (selector_to_string (ag_selector ag)) @
                '' has min=0 (must be >= 1)'' \<rparr>]
      else [])
     @ (if ag_selector ag = Requester
        then [\<lparr> is_severity = SevError, is_step_index = Some i,
                is_message = step_tag i @ quoted ''requester'' @ '' cannot be used as approver selector'' \<rparr>]
        else [])
     @ (if (case ag_selector ag of User _ \<Rightarrow> True | _ \<Rightarrow> False) \<and> ag_min ag > 1
        then [\<lparr> is_severity = SevError, is_step_index = Some i,
                is_message = step_tag i @ ''approver '' @ quoted (selector_to_string (ag_selector ag)) @
                  '' has min='' @ show_nat (unat (ag_min ag)) @
                  '' but a single user can only approve once per step'' \<rparr>]
        else [])"

text \<open>The loop over the approvers with the set of selectors seen so far.\<close>

fun duplicate_issues :: "nat \<Rightarrow> string list \<Rightarrow> approver_group list \<Rightarrow> issue list" where
  "duplicate_issues i seen [] = []"
| "duplicate_issues i seen (ag # ags) =
     (let key = selector_to_string (ag_selector ag)
      in if key \<in> set seen
         then \<lparr> is_severity = SevWarning, is_step_index = Some i,
                is_message = step_tag i @ ''duplicate selector '' @ quoted key @
                  '' (approvals collapse onto same counter)'' \<rparr> # duplicate_issues i seen ags
         else duplicate_issues i (key # seen) ags)"

definition empty_issue :: "nat \<Rightarrow> workflow_step_mode \<Rightarrow> issue" where
  "empty_issue i mode =
     \<lparr> is_severity = SevError, is_step_index = Some i,
       is_message =
         (case mode of
            ModeAny \<Rightarrow> step_tag i @ ''empty approvers with mode=any (permanently unsatisfiable)''
          | ModeAll \<Rightarrow> step_tag i @ ''empty approvers with mode=all (vacuously satisfied '' @
              [CHR 0xE2, CHR 0x80, CHR 0x94] @ '' use no steps for auto-approve)'') \<rparr>"

definition validate_step :: "nat \<Rightarrow> workflow_step \<Rightarrow> issue list" where
  "validate_step i step =
     concat (map (approver_issues i) (ws_approvers step))
     @ duplicate_issues i [] (ws_approvers step)
     @ (if ws_approvers step = [] then [empty_issue i (ws_mode step)] else [])"

text \<open>\<open>entry(k).or_default().push(i)\<close> on a map from keys to index lists. The source iterates a
  \<open>HashMap\<close>, in no fixed order; the model keeps the order of first insertion, and nothing
  below depends on it.\<close>

fun push_entry :: "'k \<Rightarrow> nat \<Rightarrow> ('k \<times> nat list) list \<Rightarrow> ('k \<times> nat list) list" where
  "push_entry k i [] = [(k, [i])]"
| "push_entry k i ((k', is) # m) = (if k' = k then (k', is @ [i]) # m else (k', is) # push_entry k i m)"

fun collect_step :: "(selector \<Rightarrow> string option) \<Rightarrow> nat \<Rightarrow> string list \<Rightarrow> approver_group list
    \<Rightarrow> (string \<times> nat list) list \<Rightarrow> (string \<times> nat list) list" where
  "collect_step keyf i seen [] m = m"
| "collect_step keyf i seen (ag # ags) m =
     (case keyf (ag_selector ag) of
        Some key \<Rightarrow> if key \<in> set seen then collect_step keyf i seen ags m
                    else collect_step keyf i (key # seen) ags (push_entry key i m)
      | None \<Rightarrow> collect_step keyf i seen ags m)"

definition collect_steps :: "(selector \<Rightarrow> string option) \<Rightarrow> workflow_step list \<Rightarrow> (string \<times> nat list) list" where
  "collect_steps keyf steps =
     fold (\<lambda>(i, step) m. collect_step keyf i [] (ws_approvers step) m) (zip [0..<length steps] steps) []"

fun user_key :: "selector \<Rightarrow> string option" where
  "user_key (User u) = Some u"
| "user_key _ = None"

fun shared_key :: "selector \<Rightarrow> string option" where
  "shared_key (Role r) = Some (selector_to_string (Role r))"
| "shared_key (Group g) = Some (selector_to_string (Group g))"
| "shared_key _ = None"

definition show_indices :: "nat list \<Rightarrow> string" where
  "show_indices is = ''['' @ join '', '' (map show_nat is) @ '']''"

definition check_cross_step_deadlock :: "workflow_step list \<Rightarrow> issue list" where
  "check_cross_step_deadlock steps =
     map (\<lambda>(user, is). \<lparr> is_severity = SevError, is_step_index = None,
            is_message = ''user '' @ quoted user @ '' appears in steps '' @ show_indices is @
              '' with allow_same_approver_across_steps=false (guaranteed deadlock)'' \<rparr>)
       (filter (\<lambda>(user, is). length is > 1) (collect_steps user_key steps))
     @ map (\<lambda>(sel, is). \<lparr> is_severity = SevWarning, is_step_index = None,
            is_message = quoted sel @ '' appears in steps '' @ show_indices is @
              '' with allow_same_approver_across_steps=false (deadlock if only one member exists)'' \<rparr>)
       (filter (\<lambda>(sel, is). length is > 1) (collect_steps shared_key steps))"

definition validate_steps :: "workflow_step list \<Rightarrow> bool \<Rightarrow> issue list" where
  "validate_steps steps allow_same_approver_across_steps =
     concat (map (\<lambda>(i, step). validate_step i step) (zip [0..<length steps] steps))
     @ (if \<not> allow_same_approver_across_steps then check_cross_step_deadlock steps else [])"

definition has_error :: "issue list \<Rightarrow> bool" where
  "has_error issues = list_ex (\<lambda>x. is_severity x = SevError) issues"

subsection \<open>What the checks establish\<close>

lemma has_error_append [simp]: "has_error (xs @ ys) \<longleftrightarrow> has_error xs \<or> has_error ys"
  by (simp add: has_error_def)

lemma has_error_Cons [simp]: "has_error (x # xs) \<longleftrightarrow> is_severity x = SevError \<or> has_error xs"
  by (simp add: has_error_def)

lemma has_error_Nil [simp]: "\<not> has_error []"
  by (simp add: has_error_def)

lemma has_error_concat: "has_error (concat xss) \<longleftrightarrow> (\<exists>xs \<in> set xss. has_error xs)"
  by (auto simp: has_error_def list_ex_iff)

lemma duplicate_issues_no_error [simp]: "\<not> has_error (duplicate_issues i seen ags)"
  by (induction i seen ags rule: duplicate_issues.induct) (auto simp: Let_def)

definition approver_ok :: "approver_group \<Rightarrow> bool" where
  "approver_ok ag \<longleftrightarrow> ag_min ag \<noteq> 0 \<and> ag_selector ag \<noteq> Requester
     \<and> (\<forall>u. ag_selector ag = User u \<longrightarrow> ag_min ag = 1)"

lemma word_one_cases: "(w :: u32) \<noteq> 0 \<Longrightarrow> \<not> 1 < w \<Longrightarrow> w = 1"
  by (metis One_nat_def le_zero_eq less_one linorder_not_less nat_less_le not_less_eq_eq
      unat_1 unat_eq_zero word_less_nat_alt word_unat_eq_iff)

lemma approver_issues_ok: "has_error (approver_issues i ag) \<longleftrightarrow> \<not> approver_ok ag"
  by (auto simp: approver_issues_def approver_ok_def word_one_cases split: selector.splits)

definition step_ok :: "workflow_step \<Rightarrow> bool" where
  "step_ok step \<longleftrightarrow> ws_approvers step \<noteq> [] \<and> (\<forall>ag \<in> set (ws_approvers step). approver_ok ag)"

lemma validate_step_ok: "has_error (validate_step i step) \<longleftrightarrow> \<not> step_ok step"
  by (auto simp: step_ok_def validate_step_def has_error_concat empty_issue_def approver_issues_ok)

lemma in_enumerate: "(i, x) \<in> set (zip [0..<length xs] xs) \<longleftrightarrow> i < length xs \<and> x = xs ! i"
  by (auto simp: in_set_zip intro: exI [of _ i])

lemma bex_enumerate:
  "(\<exists>p \<in> set (zip [0..<length xs] xs). P p) \<longleftrightarrow> (\<exists>i < length xs. P (i, xs ! i))"
  by (metis in_enumerate surj_pair)

lemma validate_steps_ok:
  "\<not> has_error (validate_steps steps same) \<longleftrightarrow>
   (\<forall>i < length steps. step_ok (steps ! i))
   \<and> (same \<or> (\<forall>(u, is) \<in> set (collect_steps user_key steps). length is \<le> 1))"
proof -
  have "has_error (map (\<lambda>(sel, is). \<lparr> is_severity = SevWarning, is_step_index = None,
      is_message = f sel is \<rparr>) xs) = False" for f :: "string \<Rightarrow> nat list \<Rightarrow> string" and xs
    by (induction xs) auto
  moreover have "has_error (map (\<lambda>(sel, is). \<lparr> is_severity = SevError, is_step_index = None,
      is_message = f sel is \<rparr>) xs) \<longleftrightarrow> xs \<noteq> []" for f :: "string \<Rightarrow> nat list \<Rightarrow> string" and xs
    by (induction xs) auto
  ultimately have "has_error (check_cross_step_deadlock steps) \<longleftrightarrow>
      (\<exists>(u, is) \<in> set (collect_steps user_key steps). length is > 1)"
    by (auto simp: check_cross_step_deadlock_def filter_empty_conv)
  moreover have "has_error (concat (map (\<lambda>(i, step). validate_step i step) (zip [0..<length steps] steps)))
      \<longleftrightarrow> (\<exists>i < length steps. has_error (validate_step i (steps ! i)))"
    by (simp add: has_error_concat bex_enumerate)
  ultimately have "has_error (validate_steps steps same) \<longleftrightarrow>
      (\<exists>i < length steps. has_error (validate_step i (steps ! i)))
      \<or> \<not> same \<and> (\<exists>(u, is) \<in> set (collect_steps user_key steps). \<not> length is \<le> 1)"
    by (simp add: validate_steps_def not_le)
  then show ?thesis by (auto simp: validate_step_ok)
qed

text \<open>The collected index lists count the steps that mention a key.\<close>

definition entry_len :: "'k \<Rightarrow> ('k \<times> nat list) list \<Rightarrow> nat" where
  "entry_len k m = (case map_of m k of None \<Rightarrow> 0 | Some is \<Rightarrow> length is)"

definition mentions :: "(selector \<Rightarrow> string option) \<Rightarrow> string \<Rightarrow> approver_group list \<Rightarrow> bool" where
  "mentions keyf k ags = list_ex (\<lambda>ag. keyf (ag_selector ag) = Some k) ags"

lemma entry_len_push: "entry_len k (push_entry k' i m) = entry_len k m + (if k = k' then 1 else 0)"
  by (induction k' i m rule: push_entry.induct) (auto simp: entry_len_def split: option.splits)

lemma entry_len_collect_step:
  "entry_len k (collect_step keyf i seen ags m) =
   entry_len k m + (if k \<notin> set seen \<and> mentions keyf k ags then 1 else 0)"
  by (induction keyf i seen ags m rule: collect_step.induct)
    (auto simp: entry_len_push mentions_def split: option.splits)

lemma entry_len_collect_fold:
  "entry_len k (fold (\<lambda>(i, step) m. collect_step keyf i [] (ws_approvers step) m) xs m) =
   entry_len k m + length (filter (\<lambda>(i, step). mentions keyf k (ws_approvers step)) xs)"
  by (induction xs arbitrary: m) (auto simp: entry_len_collect_step)

lemma two_in_filter:
  assumes "i < length xs" "j < length xs" "i \<noteq> j" "P (xs ! i)" "P (xs ! j)"
  shows "2 \<le> length (filter P xs)"
proof -
  have "{i, j} \<subseteq> {n. n < length xs \<and> P (xs ! n)}" using assms by auto
  then have "card {i, j} \<le> card {n. n < length xs \<and> P (xs ! n)}" by (intro card_mono) auto
  then show ?thesis using assms(3) by (simp add: length_filter_conv_card)
qed

lemma user_in_one_step:
  assumes "\<forall>(u, is) \<in> set (collect_steps user_key steps). length is \<le> 1"
    and "i < length steps" "j < length steps"
    and "ag \<in> set (ws_approvers (steps ! i))" "ag_selector ag = User u"
    and "ag' \<in> set (ws_approvers (steps ! j))" "ag_selector ag' = User u"
  shows "i = j"
proof (rule ccontr)
  assume "i \<noteq> j"
  let ?P = "\<lambda>(i :: nat, step). mentions user_key u (ws_approvers step)"
  have "?P (zip [0..<length steps] steps ! i)" "?P (zip [0..<length steps] steps ! j)"
    using assms(2-7) by (auto simp: mentions_def list_ex_iff intro!: bexI)
  then have "2 \<le> length (filter ?P (zip [0..<length steps] steps))"
    using two_in_filter [of i "zip [0..<length steps] steps" j ?P] \<open>i \<noteq> j\<close> assms(2,3) by simp
  then have "2 \<le> entry_len u (collect_steps user_key steps)"
    by (simp add: collect_steps_def entry_len_collect_fold)
  then show False
    using assms(1) by (auto simp: entry_len_def dest!: map_of_SomeD split: option.splits)
qed

subsection \<open>Satisfiability of validated workflows\<close>

text \<open>The votes the approval rules admit: nobody votes twice on a step, a vote that counts for a
  named user is that user's, and, unless the workflow allows it, nobody votes on two steps.\<close>

definition admissible :: "bool \<Rightarrow> approval list \<Rightarrow> bool" where
  "admissible same approvals \<longleftrightarrow>
     distinct (map (\<lambda>a. (ap_step_index a, ap_actor_id a)) approvals)
     \<and> (\<forall>a \<in> set approvals. ap_action a = Approve)
     \<and> (\<forall>a \<in> set approvals. \<forall>u. ap_matched_selector a = selector_to_string (User u) \<longrightarrow> ap_actor_id a = u)
     \<and> (same \<or> (\<forall>a \<in> set approvals. \<forall>b \<in> set approvals.
          ap_actor_id a = ap_actor_id b \<longrightarrow> ap_step_index a = ap_step_index b))"

text \<open>The electorate built for the proof: a named user votes in person, a role or group sends as
  many distinct members as the largest minimum asks for.\<close>

definition vote :: "(nat \<times> selector \<times> nat \<Rightarrow> string) \<Rightarrow> nat \<times> selector \<times> nat \<Rightarrow> approval" where
  "vote member x =
     (case x of (i, sel, k) \<Rightarrow>
       \<lparr> ap_id = [], ap_request_id = [], ap_action = Approve,
         ap_actor_id = (case sel of User u \<Rightarrow> u | _ \<Rightarrow> member x),
         ap_matched_selector = selector_to_string sel, ap_step_index = as_u32 i,
         ap_comment = None, ap_created_at = 0 \<rparr>)"

definition quorum :: "workflow_step \<Rightarrow> selector \<Rightarrow> nat" where
  "quorum step sel = Max ((\<lambda>ag. unat (ag_min ag)) ` {ag \<in> set (ws_approvers step). ag_selector ag = sel})"

definition ballots :: "nat \<Rightarrow> workflow_step \<Rightarrow> (nat \<times> selector \<times> nat) list" where
  "ballots i step =
     concat (map (\<lambda>sel. map (\<lambda>k. (i, sel, k)) [0..<quorum step sel])
       (remdups (map ag_selector (ws_approvers step))))"

definition all_ballots :: "workflow_step list \<Rightarrow> (nat \<times> selector \<times> nat) list" where
  "all_ballots steps = concat (map (\<lambda>i. ballots i (steps ! i)) [0..<length steps])"

lemma quorum_ge: "ag \<in> set (ws_approvers step) \<Longrightarrow> unat (ag_min ag) \<le> quorum step (ag_selector ag)"
  unfolding quorum_def by (rule Max_ge) auto

lemma quorum_in:
  assumes "sel \<in> ag_selector ` set (ws_approvers step)"
  shows "\<exists>ag. ag \<in> set (ws_approvers step) \<and> ag_selector ag = sel \<and> quorum step sel = unat (ag_min ag)"
proof -
  let ?S = "(\<lambda>ag. unat (ag_min ag)) ` {ag \<in> set (ws_approvers step). ag_selector ag = sel}"
  have "finite ?S" by simp
  moreover have "?S \<noteq> {}" using assms by auto
  ultimately have "Max ?S \<in> ?S" by (rule Max_in)
  then show ?thesis by (auto simp: quorum_def)
qed

lemma in_ballots:
  "(i', sel, k) \<in> set (ballots i step) \<longleftrightarrow>
   i' = i \<and> sel \<in> ag_selector ` set (ws_approvers step) \<and> k < quorum step sel"
  by (force simp: ballots_def image_iff)

lemma in_all_ballots:
  "(i, sel, k) \<in> set (all_ballots steps) \<longleftrightarrow>
   i < length steps \<and> sel \<in> ag_selector ` set (ws_approvers (steps ! i)) \<and> k < quorum (steps ! i) sel"
  by (auto simp: all_ballots_def in_ballots)

lemma distinct_concat_map:
  assumes "distinct xs" and "\<And>x. x \<in> set xs \<Longrightarrow> distinct (f x)"
    and "\<And>x y. x \<in> set xs \<Longrightarrow> y \<in> set xs \<Longrightarrow> x \<noteq> y \<Longrightarrow> set (f x) \<inter> set (f y) = {}"
  shows "distinct (concat (map f xs))"
  using assms
proof (induction xs)
  case Nil
  then show ?case by simp
next
  case (Cons x xs)
  have "set (f x) \<inter> set (f y) = {}" if "y \<in> set xs" for y
    using that Cons.prems(1,3) by auto
  moreover have "distinct (concat (map f xs))"
    using Cons.prems by (intro Cons.IH) auto
  ultimately show ?case using Cons.prems(2) by auto
qed

lemma distinct_all_ballots: "distinct (all_ballots steps)"
proof -
  have "distinct (ballots i step)" for i step
    unfolding ballots_def by (rule distinct_concat_map) (auto simp: distinct_map intro: inj_onI)
  then show ?thesis
    unfolding all_ballots_def by (intro distinct_concat_map) (auto simp: in_ballots)
qed

instance selector :: countable
  by countable_datatype

text \<open>Members that are nobody's named user: names longer than all of a finite set.\<close>

lemma fresh_members:
  assumes "finite U"
  obtains member :: "nat \<times> selector \<times> nat \<Rightarrow> string" where "inj member" "\<forall>x. member x \<notin> U"
proof -
  obtain N where N: "\<forall>u \<in> U. length u < N"
    using assms by (metis finite_imageI finite_nat_set_iff_bounded imageI)
  let ?m = "\<lambda>x. replicate (N + to_nat x) CHR ''x''"
  have "inj ?m" by (intro injI) simp
  moreover have "\<forall>x. ?m x \<notin> U" using N by force
  ultimately show thesis using that by blast
qed

definition user_names :: "workflow_step list \<Rightarrow> string set" where
  "user_names steps = {u. \<exists>step \<in> set steps. \<exists>ag \<in> set (ws_approvers step). ag_selector ag = User u}"

lemma finite_user_names: "finite (user_names steps)"
proof -
  have "user_names steps \<subseteq>
    (\<lambda>s. case s of User u \<Rightarrow> u | _ \<Rightarrow> []) ` (\<Union>step \<in> set steps. ag_selector ` set (ws_approvers step))"
    by (force simp: user_names_def image_iff)
  then show ?thesis by (rule finite_subset) simp
qed

lemma ballots_satisfy_group:
  assumes "length steps < 2 ^ 32" and "i < length steps" and "ag \<in> set (ws_approvers (steps ! i))"
  shows "ag_min ag \<le> group_count (step_approvals_of (as_u32 i) (map (vote member) (all_ballots steps))) ag"
proof -
  let ?sel = "ag_selector ag"
  let ?Q = "\<lambda>x. case x of (j, sel, k :: nat) \<Rightarrow> j = i \<and> sel = ?sel"
  let ?F = "filter ?Q (all_ballots steps)"
  have "length (filter (\<lambda>a. ap_matched_selector a = selector_to_string ?sel)
      (step_approvals_of (as_u32 i) (map (vote member) (all_ballots steps)))) = length ?F"
  proof -
    have "as_u32 j = as_u32 i \<longleftrightarrow> j = i" if "(j, sel, k) \<in> set (all_ballots steps)" for j sel k
      using that assms(1,2) by (intro as_u32_inject) (auto simp: in_all_ballots)
    then have "filter ((\<lambda>a. ap_step_index a = as_u32 i \<and> ap_action a = Approve
        \<and> ap_matched_selector a = selector_to_string ?sel) \<circ> vote member) (all_ballots steps) = ?F"
      by (intro filter_cong) (auto simp: vote_def)
    then show ?thesis by (simp add: step_approvals_of_def filter_map conj_assoc comp_def)
  qed
  moreover have "set ?F = (\<lambda>k. (i, ?sel, k)) ` {..<quorum (steps ! i) ?sel}"
    using assms(2,3) by (auto simp: in_all_ballots)
  then have "card (set ?F) = quorum (steps ! i) ?sel"
    by (simp add: card_image inj_on_def)
  then have "length ?F = quorum (steps ! i) ?sel"
    using distinct_card [OF distinct_filter [OF distinct_all_ballots]] by metis
  moreover have "quorum (steps ! i) ?sel < 2 ^ 32"
  proof -
    obtain ag' :: approver_group where "quorum (steps ! i) ?sel = unat (ag_min ag')"
      using quorum_in [OF imageI, OF assms(3)] by blast
    then show ?thesis using unsigned_less [of "ag_min ag'"] by simp
  qed
  ultimately show ?thesis
    using quorum_ge [OF assms(3)] by (simp add: group_count_def word_le_nat_alt unat_as_u32_id)
qed

lemma ballots_admissible:
  assumes ok: "\<not> has_error (validate_steps steps same)" and len: "length steps < 2 ^ 32"
    and inj: "inj member" and fresh: "\<forall>x. member x \<notin> user_names steps"
  shows "admissible same (map (vote member) (all_ballots steps))"
proof -
  let ?B = "set (all_ballots steps)"
  let ?act = "\<lambda>x. ap_actor_id (vote member x)"
  have act: "?act (i, sel, k) = (case sel of User u \<Rightarrow> u | _ \<Rightarrow> member (i, sel, k))" for i sel k
    by (simp add: vote_def)
  have name: "u \<in> user_names steps" if "(i, User u, k) \<in> ?B" for i u k
  proof -
    from that obtain ag where "i < length steps" "ag \<in> set (ws_approvers (steps ! i))" "ag_selector ag = User u"
      by (auto simp: in_all_ballots)
    then show ?thesis unfolding user_names_def using nth_mem by blast
  qed
  have once: "k = 0" if "(i, User u, k) \<in> ?B" for i u k
  proof -
    obtain ag where "ag \<in> set (ws_approvers (steps ! i))" "ag_selector ag = User u"
      "quorum (steps ! i) (User u) = unat (ag_min ag)"
      using quorum_in [of "User u" "steps ! i"] \<open>(i, User u, k) \<in> ?B\<close> by (auto simp: in_all_ballots)
    moreover have "approver_ok ag"
      using ok \<open>(i, User u, k) \<in> ?B\<close> calculation(1)
      by (auto simp: validate_steps_ok step_ok_def in_all_ballots)
    ultimately show ?thesis
      using \<open>(i, User u, k) \<in> ?B\<close> by (auto simp: in_all_ballots approver_ok_def)
  qed
  have same_actor: "sel = sel' \<and> k = k' \<and> (i = j \<or> (\<exists>u. sel = User u))"
    if b: "(i, sel, k) \<in> ?B" "(j, sel', k') \<in> ?B" and eq: "?act (i, sel, k) = ?act (j, sel', k')"
    for i j sel sel' k k'
    using eq name once b fresh inj
    by (cases sel; cases sel') (auto simp: act dest: injD, metis+)
  have idx: "as_u32 i = as_u32 j \<longleftrightarrow> i = j" if "(i, sel, k) \<in> ?B" "(j, sel', k') \<in> ?B" for i j sel sel' k k'
    using that len by (intro as_u32_inject) (auto simp: in_all_ballots)
  have "inj_on (\<lambda>x. (ap_step_index (vote member x), ?act x)) ?B"
    by (rule inj_onI) (use same_actor idx in \<open>force simp: vote_def\<close>)
  then have once_per_step:
    "distinct (map (\<lambda>a. (ap_step_index a, ap_actor_id a)) (map (vote member) (all_ballots steps)))"
    by (simp add: distinct_map distinct_all_ballots comp_def)
  have cross: "i = j" if "\<not> same" "(i, sel, k) \<in> ?B" "(j, sel', k') \<in> ?B" "?act (i, sel, k) = ?act (j, sel', k')"
    for i j sel sel' k k'
  proof -
    have "\<forall>(u, is) \<in> set (collect_steps user_key steps). length is \<le> 1"
      using ok that(1) by (simp add: validate_steps_ok)
    then show ?thesis
      using same_actor [OF that(2-4)] that(2,3) user_in_one_step [of steps i j]
      by (auto simp: in_all_ballots image_iff) metis
  qed
  have one_step_each: "ap_step_index (vote member x) = ap_step_index (vote member y)"
    if "\<not> same" "x \<in> ?B" "y \<in> ?B" "?act x = ?act y" for x y
  proof -
    obtain i sel k j sel' k' where xy: "x = (i, sel, k)" "y = (j, sel', k')"
      by (metis prod_cases3)
    then have "i = j" using cross that by blast
    then show ?thesis by (simp add: xy vote_def)
  qed
  have approves: "ap_action (vote member x) = Approve" for x
    by (cases x) (simp add: vote_def)
  have in_person: "ap_matched_selector (vote member x) = selector_to_string (User u) \<longrightarrow> ?act x = u" for x u
    by (cases x) (simp add: vote_def del: selector_to_string.simps)
  have "same \<or> (\<forall>x \<in> ?B. \<forall>y \<in> ?B. ?act x = ?act y \<longrightarrow>
      ap_step_index (vote member x) = ap_step_index (vote member y))"
    using one_step_each by blast
  with once_per_step show ?thesis
    unfolding admissible_def set_map ball_simps using approves in_person by blast
qed

text \<open>A workflow that passes validation can be completed: if no error-level issue is reported,
  there are votes that the approval rules admit (one vote per person and step, named users
  vote in person, and, unless allowed, nobody votes on two steps) and that satisfy all
  steps. So the reported errors cover every way in which the configuration alone blocks a
  request for ever.\<close>

theorem validated_workflow_satisfiable:
  assumes "\<not> has_error (validate_steps steps same)" and "length steps < 2 ^ 32"
  shows "\<exists>approvals. admissible same approvals \<and> all_steps_satisfied steps approvals"
proof -
  obtain member :: "nat \<times> selector \<times> nat \<Rightarrow> string"
    where "inj member" "\<forall>x. member x \<notin> user_names steps"
    using fresh_members [OF finite_user_names] by blast
  then have "admissible same (map (vote member) (all_ballots steps))"
    using ballots_admissible assms by blast
  moreover have "is_step_satisfied (steps ! i) (as_u32 i) (map (vote member) (all_ballots steps))"
    if "i < length steps" for i
  proof -
    have "ws_approvers (steps ! i) \<noteq> []"
      using assms(1) that by (simp add: validate_steps_ok step_ok_def)
    then show ?thesis
      using ballots_satisfy_group [OF assms(2) that]
      by (auto simp: is_step_satisfied_def Let_def list_all_iff list_ex_iff neq_Nil_conv
          split: workflow_step_mode.splits)
  qed
  ultimately show ?thesis by (auto simp: all_steps_satisfied_nth)
qed

theorem validated_workflow_satisfiable_witness:
  "\<not> has_error (validate_steps one_step False)
   \<and> (\<exists>approvals. admissible False approvals \<and> all_steps_satisfied one_step approvals)"
proof -
  have "\<not> has_error (validate_steps one_step False)"
    by (simp add: one_step_def validate_steps_def validate_step_def approver_issues_def
        check_cross_step_deadlock_def collect_steps_def)
  then show ?thesis
    using validated_workflow_satisfiable [of one_step False] by (simp add: one_step_def)
qed

text \<open>A user named in two steps that also offer an alternative approver: reported as a guaranteed
  deadlock, yet admissible votes complete the workflow.\<close>

definition shared_user_steps :: "workflow_step list" where
  "shared_user_steps =
     [\<lparr> ws_approvers = [\<lparr> ag_selector = User ''ann'', ag_min = 1 \<rparr>, \<lparr> ag_selector = Role ''dba'', ag_min = 1 \<rparr>],
        ws_mode = ModeAny \<rparr>,
      \<lparr> ws_approvers = [\<lparr> ag_selector = User ''ann'', ag_min = 1 \<rparr>], ws_mode = ModeAny \<rparr>]"

text \<open>The cross-step check also rejects workflows that can be completed: when a step offers an
  alternative to the shared user, an error-level issue (worded as a guaranteed deadlock) is
  reported although admissible votes satisfy every step.\<close>

theorem deadlock_check_overstrict:
  "has_error (validate_steps shared_user_steps False)
   \<and> (\<exists>approvals. admissible False approvals \<and> all_steps_satisfied shared_user_steps approvals)"
proof -
  let ?a = "[vote (\<lambda>_. ''bob'') (0, Role ''dba'', 0), vote (\<lambda>_. ''bob'') (1, User ''ann'', 0)]"
  have "has_error (validate_steps shared_user_steps False)"
    by (simp add: shared_user_steps_def validate_steps_def validate_step_def approver_issues_def
        check_cross_step_deadlock_def collect_steps_def numeral_2_eq_2 upt_rec)
  moreover have "admissible False ?a"
    by (auto simp: admissible_def vote_def as_u32_def)
  moreover have "all_steps_satisfied shared_user_steps ?a"
    by (simp add: shared_user_steps_def all_steps_satisfied_def is_step_satisfied_def group_count_def
        step_approvals_of_def vote_def as_u32_def upt_rec)
  ultimately show ?thesis by blast
qed

end
