(* ===== verification/Status_Machine.thy ===== *)
theory Status_Machine
  imports Entities
begin

text \<open>
  The request lifecycle (\<open>crates/dbward-domain/src/services/status_machine.rs\<close>): triggers, the
  pure transition function and the events it emits. The lemmas show which states are
  absorbing, who may enter the running state, and that no run from a request that needs
  approval reaches execution without the final approval.
\<close>

datatype request_trigger =
    TCreate bool bool
  | TApproveStep
  | TApproveFinal
  | TReject
  | TCancel
  | TDispatch
  | TClaim
  | TComplete bool
  | TLeaseExpired
  | TExpire
  | TDispatchTimeout

datatype event_metadata =
    MCreated string bool
  | MStepApproved u32 u32 "string option" string
  | MApproved "string option" string
  | MRejected "string option"
  | MCancelled "string option"
  | MDispatched
  | MClaimed string string
  | MCompleted bool string
  | MExecutionLost string
  | MExpired

record transition_context =
  tc_request_id :: string
  tc_actor_id :: string
  tc_actor_type :: subject_type
  tc_database :: database_name
  tc_environment :: environment
  tc_operation :: operation
  tc_timestamp :: timestamp
  tc_metadata :: event_metadata
  tc_requester_id :: string
  tc_audit_context :: audit_context
  tc_auth_token_id :: "string option"

record transition_event =
  te_request_id :: string
  te_previous_status :: request_status
  te_new_status :: request_status
  te_actor_id :: string
  te_actor_type :: subject_type
  te_database :: database_name
  te_environment :: environment
  te_operation :: operation
  te_timestamp :: timestamp
  te_metadata :: event_metadata
  te_requester_id :: string
  te_audit_context :: audit_context
  te_auth_token_id :: "string option"

record transition_result =
  tr_new_status :: request_status
  tr_event :: transition_event

datatype invalid_transition = InvalidTransition (it_current: request_status) (it_trigger: request_trigger)

fun show_bool :: "bool \<Rightarrow> string" where
  "show_bool True = ''true''"
| "show_bool False = ''false''"

text \<open>The \<open>Debug\<close> rendering of a trigger and the \<open>Display\<close> of the error.\<close>

fun trigger_debug :: "request_trigger \<Rightarrow> string" where
  "trigger_debug (TCreate e n) =
     ''Create { emergency: '' @ show_bool e @ '', needs_approval: '' @ show_bool n @ '' }''"
| "trigger_debug TApproveStep = ''ApproveStep''"
| "trigger_debug TApproveFinal = ''ApproveFinal''"
| "trigger_debug TReject = ''Reject''"
| "trigger_debug TCancel = ''Cancel''"
| "trigger_debug TDispatch = ''Dispatch''"
| "trigger_debug TClaim = ''Claim''"
| "trigger_debug (TComplete s) = ''Complete { success: '' @ show_bool s @ '' }''"
| "trigger_debug TLeaseExpired = ''LeaseExpired''"
| "trigger_debug TExpire = ''Expire''"
| "trigger_debug TDispatchTimeout = ''DispatchTimeout''"

definition invalid_transition_str :: "invalid_transition \<Rightarrow> string" where
  "invalid_transition_str e =
     ''invalid transition: '' @ status_as_str (it_current e) @ '' + '' @ trigger_debug (it_trigger e)"

subsection \<open>The transition function\<close>

text \<open>The arms of the source's \<open>match\<close> over (status, trigger), grouped by trigger; the last arm
  of each group is the source's catch-all.\<close>

fun compute_next_status :: "request_status \<Rightarrow> request_trigger \<Rightarrow> invalid_transition + request_status" where
  "compute_next_status s TApproveStep =
     (if s = Pending then Inr Pending else Inl (InvalidTransition s TApproveStep))"
| "compute_next_status s TApproveFinal =
     (if s = Pending then Inr Approved else Inl (InvalidTransition s TApproveFinal))"
| "compute_next_status s TReject =
     (if s = Pending then Inr Rejected else Inl (InvalidTransition s TReject))"
| "compute_next_status s TExpire =
     (if s = Pending then Inr Expired else if s = Approved then Inr Expired
      else Inl (InvalidTransition s TExpire))"
| "compute_next_status s TCancel =
     (if is_cancellable s then Inr Cancelled else Inl (InvalidTransition s TCancel))"
| "compute_next_status s TDispatch =
     (case s of Approved \<Rightarrow> Inr Dispatched | AutoApproved \<Rightarrow> Inr Dispatched
      | BreakGlass \<Rightarrow> Inr Dispatched | Executed \<Rightarrow> Inr Dispatched | Failed \<Rightarrow> Inr Dispatched
      | ExecutionLost \<Rightarrow> Inr Dispatched | _ \<Rightarrow> Inl (InvalidTransition s TDispatch))"
| "compute_next_status s TDispatchTimeout =
     (if s = Dispatched then Inr Approved else Inl (InvalidTransition s TDispatchTimeout))"
| "compute_next_status s TClaim =
     (if s = Dispatched then Inr Running else Inl (InvalidTransition s TClaim))"
| "compute_next_status s (TComplete success) =
     (case s of Running \<Rightarrow> Inr (if success then Executed else Failed)
      | Cancelled \<Rightarrow> Inr Cancelled
      | ExecutionLost \<Rightarrow> Inr (if success then Executed else Failed)
      | _ \<Rightarrow> Inl (InvalidTransition s (TComplete success)))"
| "compute_next_status s TLeaseExpired =
     (if s = Running then Inr ExecutionLost else Inl (InvalidTransition s TLeaseExpired))"
| "compute_next_status s (TCreate e n) = Inl (InvalidTransition s (TCreate e n))"

definition transition ::
  "request_status \<Rightarrow> request_trigger \<Rightarrow> transition_context \<Rightarrow> invalid_transition + transition_result" where
  "transition current trigger ctx =
     tryE (compute_next_status current trigger) (\<lambda>new_status.
       Inr \<lparr> tr_new_status = new_status,
             tr_event =
               \<lparr> te_request_id = tc_request_id ctx, te_previous_status = current,
                 te_new_status = new_status, te_actor_id = tc_actor_id ctx,
                 te_actor_type = tc_actor_type ctx, te_database = tc_database ctx,
                 te_environment = tc_environment ctx, te_operation = tc_operation ctx,
                 te_timestamp = tc_timestamp ctx, te_metadata = tc_metadata ctx,
                 te_requester_id = tc_requester_id ctx,
                 te_audit_context = tc_audit_context ctx,
                 te_auth_token_id = tc_auth_token_id ctx \<rparr> \<rparr>)"

definition initial_status :: "bool \<Rightarrow> bool \<Rightarrow> request_status" where
  "initial_status needs_approval emergency =
     (case (needs_approval, emergency) of
        (_, True) \<Rightarrow> BreakGlass
      | (True, False) \<Rightarrow> Pending
      | (False, False) \<Rightarrow> AutoApproved)"

definition create_event :: "request_status \<Rightarrow> transition_context \<Rightarrow> transition_result" where
  "create_event new_status ctx =
     \<lparr> tr_new_status = new_status,
       tr_event =
         \<lparr> te_request_id = tc_request_id ctx, te_previous_status = new_status,
           te_new_status = new_status, te_actor_id = tc_actor_id ctx,
           te_actor_type = tc_actor_type ctx, te_database = tc_database ctx,
           te_environment = tc_environment ctx, te_operation = tc_operation ctx,
           te_timestamp = tc_timestamp ctx, te_metadata = tc_metadata ctx,
           te_requester_id = tc_requester_id ctx, te_audit_context = tc_audit_context ctx,
           te_auth_token_id = tc_auth_token_id ctx \<rparr> \<rparr>"

lemma transition_Inr:
  "transition s t ctx = Inr r \<Longrightarrow> compute_next_status s t = Inr (tr_new_status r)"
  by (auto simp: transition_def res_simps)

lemma transition_event_status:
  assumes "transition s t ctx = Inr r"
  shows "te_previous_status (tr_event r) = s \<and> te_new_status (tr_event r) = tr_new_status r
    \<and> te_metadata (tr_event r) = tc_metadata ctx \<and> te_request_id (tr_event r) = tc_request_id ctx"
  using assms by (auto simp: transition_def res_simps)

subsection \<open>What the lifecycle guarantees\<close>

lemma cancel_accepted: "compute_next_status s TCancel = Inr t \<longleftrightarrow> is_cancellable s \<and> t = Cancelled"
  by (cases s) (auto simp: is_cancellable_def)

lemma dispatch_accepted:
  "compute_next_status s TDispatch = Inr t \<longleftrightarrow>
   (is_dispatchable s \<or> is_re_dispatchable s) \<and> t = Dispatched"
  by (cases s) (auto simp: is_dispatchable_def is_re_dispatchable_def)

lemma claim_accepted: "compute_next_status s TClaim = Inr t \<longleftrightarrow> s = Dispatched \<and> t = Running"
  by (cases s) auto

lemma complete_accepted:
  "compute_next_status s (TComplete ok) = Inr t \<longleftrightarrow>
   s \<in> {Running, ExecutionLost} \<and> t = (if ok then Executed else Failed)
   \<or> s = Cancelled \<and> t = Cancelled"
  by (cases s; cases ok) auto

lemma approve_final_accepted: "compute_next_status s TApproveFinal = Inr t \<longleftrightarrow> s = Pending \<and> t = Approved"
  by (cases s) auto

lemma reject_accepted: "compute_next_status s TReject = Inr t \<longleftrightarrow> s = Pending \<and> t = Rejected"
  by (cases s) auto

lemma expire_accepted: "compute_next_status s TExpire = Inr t \<longleftrightarrow> s \<in> {Pending, Approved} \<and> t = Expired"
  by (cases s) auto

lemma lease_expired_accepted:
  "compute_next_status s TLeaseExpired = Inr t \<longleftrightarrow> s = Running \<and> t = ExecutionLost"
  by (cases s) auto

lemma dispatch_timeout_accepted:
  "compute_next_status s TDispatchTimeout = Inr t \<longleftrightarrow> s = Dispatched \<and> t = Approved"
  by (cases s) auto

lemma step_approved_accepted: "compute_next_status s TApproveStep = Inr t \<longleftrightarrow> s = Pending \<and> t = Pending"
  by (cases s) auto

lemmas trigger_accepted = cancel_accepted dispatch_accepted claim_accepted complete_accepted
  approve_final_accepted reject_accepted expire_accepted lease_expired_accepted
  dispatch_timeout_accepted step_approved_accepted

text \<open>A rejected, expired or cancelled request stays as it is: every trigger it accepts (late
  completions of a cancelled one) leaves the status unchanged. Executed and failed requests,
  which \<open>is_terminal\<close> also lists, accept exactly one trigger, a new dispatch.\<close>

theorem terminal_states_absorbing:
  assumes "is_terminal s" and "compute_next_status s t = Inr s'"
  shows "s' = s \<and> s = Cancelled \<or> s \<in> {Executed, Failed} \<and> t = TDispatch \<and> s' = Dispatched"
  using assms by (cases s; cases t) (auto simp: is_terminal_def is_cancellable_def)

theorem terminal_states_absorbing_witness:
  "is_terminal Cancelled \<and> compute_next_status Cancelled (TComplete True) = Inr Cancelled
   \<and> (Cancelled = Cancelled \<and> Cancelled = Cancelled
      \<or> Cancelled \<in> {Executed, Failed} \<and> TComplete True = TDispatch \<and> Cancelled = Dispatched)"
  using terminal_states_absorbing [of Cancelled "TComplete True" Cancelled]
  by (simp add: is_terminal_def)

text \<open>Runs of triggers, from the status a request was created with.\<close>

fun run_triggers :: "request_status \<Rightarrow> request_trigger list \<Rightarrow> invalid_transition + request_status" where
  "run_triggers s [] = Inr s"
| "run_triggers s (t # ts) = tryE (compute_next_status s t) (\<lambda>s'. run_triggers s' ts)"

definition unapproved :: "request_status \<Rightarrow> bool" where
  "unapproved s \<longleftrightarrow> s \<in> {Pending, Rejected, Expired, Cancelled}"

lemma unapproved_step:
  "unapproved s \<Longrightarrow> t \<noteq> TApproveFinal \<Longrightarrow> compute_next_status s t = Inr s' \<Longrightarrow> unapproved s'"
  by (cases s; cases t) (auto simp: unapproved_def is_cancellable_def)

lemma unapproved_run:
  "unapproved s \<Longrightarrow> TApproveFinal \<notin> set ts \<Longrightarrow> run_triggers s ts = Inr s' \<Longrightarrow> unapproved s'"
  by (induction ts arbitrary: s) (auto simp: res_simps, metis unapproved_step)

text \<open>C16: A request created as needing approval (not an emergency) is never dispatched, running,
  executed, failed or lost unless its run contains the final approval, whatever the order of
  the other triggers.\<close>

theorem no_execution_without_final_approval:
  assumes "run_triggers (initial_status True False) ts = Inr s"
    and "s \<in> {Dispatched, Running, Executed, Failed, ExecutionLost}"
  shows "TApproveFinal \<in> set ts"
proof (rule ccontr)
  assume "TApproveFinal \<notin> set ts"
  moreover have "unapproved (initial_status True False)"
    by (simp add: unapproved_def initial_status_def)
  ultimately have "unapproved s"
    using unapproved_run assms(1) by blast
  with assms(2) show False by (auto simp: unapproved_def)
qed

theorem no_execution_without_final_approval_witness:
  "run_triggers (initial_status True False) [TApproveStep, TApproveFinal, TDispatch, TClaim] = Inr Running
   \<and> TApproveFinal \<in> set [TApproveStep, TApproveFinal, TDispatch, TClaim]"
  using no_execution_without_final_approval
    [of "[TApproveStep, TApproveFinal, TDispatch, TClaim]" Running]
  by (simp add: initial_status_def)

text \<open>A dispatch timeout puts every request into the approved state. For a request that was
  created as an emergency or auto-approved, the status then claims an approval although the
  run holds no approval trigger at all, and the request can now expire, which its original
  status does not allow.\<close>

theorem dispatch_timeout_forgets_origin:
  "run_triggers (initial_status na True) [TDispatch, TDispatchTimeout] = Inr Approved
   \<and> run_triggers (initial_status False False) [TDispatch, TDispatchTimeout] = Inr Approved
   \<and> run_triggers (initial_status na True) [TDispatch, TDispatchTimeout, TExpire] = Inr Expired
   \<and> (\<forall>s. compute_next_status (initial_status na True) TExpire \<noteq> Inr s)"
  by (cases na) (simp_all add: initial_status_def)

end
