(* ===== verification/Audit_Events.thy ===== *)
theory Audit_Events
  imports Status_Machine
begin

text \<open>
  Construction of audit and webhook events from transition events
  (\<open>crates/dbward-app/src/services/audit_event_builder.rs\<close>), and the record of the third-party
  functions the server uses (hashing, hex, time and JSON text), which are parameters
  throughout. The lemmas show what an audit event records of its transition and that a webhook
  never carries the text of a migration.
\<close>

subsection \<open>Third-party functions\<close>

text \<open>Bytes and strings are both lists of characters. \<open>x_workflow_read\<close> is \<open>serde_json::from_str\<close> at
  the type of workflows, \<open>x_json_read\<close> at the type of JSON values, \<open>x_serde_error\<close> the text of
  the error a failed reading gives.\<close>

record lib =
  x_sha256_hex :: "string \<Rightarrow> string"
  x_rfc3339 :: "timestamp \<Rightarrow> string"
  x_parse_rfc3339 :: "string \<Rightarrow> timestamp option"
  x_json_text :: "json \<Rightarrow> string"
  x_json_read :: "string \<Rightarrow> json option"
  x_workflow_read :: "string \<Rightarrow> workflow option"
  x_hex_encode :: "string \<Rightarrow> string"
  x_hex_decode :: "string \<Rightarrow> string option"
  x_serde_error :: "string \<Rightarrow> string"

text \<open>Indexing and accessors of JSON values.\<close>

fun json_index :: "json \<Rightarrow> string \<Rightarrow> json" where
  "json_index j k = (case json_get k j of Some v \<Rightarrow> v | None \<Rightarrow> JNull)"

fun json_as_str :: "json \<Rightarrow> string option" where
  "json_as_str (JStr s) = Some s"
| "json_as_str _ = None"

fun json_as_u64 :: "json \<Rightarrow> nat option" where
  "json_as_u64 (JNum n) = (if 0 \<le> n \<and> n < 2 ^ 64 then Some (nat n) else None)"
| "json_as_u64 _ = None"

fun json_as_array :: "json \<Rightarrow> json list option" where
  "json_as_array (JArr xs) = Some xs"
| "json_as_array _ = None"

subsection \<open>Audit events\<close>

datatype redaction_mode = RedactNone | RedactLiterals | RedactFull

definition default_redaction :: redaction_mode where
  "default_redaction = RedactLiterals"

definition event_type_and_category :: "transition_event \<Rightarrow> string \<times> string" where
  "event_type_and_category event =
     (case te_metadata event of
        MCreated detail emergency \<Rightarrow>
          if emergency then (''request.break_glass'', ''approval'')
          else if te_new_status event = AutoApproved then (''request.auto_approved'', ''approval'')
          else (''request.created'', ''approval'')
      | MStepApproved _ _ _ _ \<Rightarrow> (''step.approved'', ''approval'')
      | MApproved _ _ \<Rightarrow> (''request.approved'', ''approval'')
      | MRejected _ \<Rightarrow> (''request.rejected'', ''approval'')
      | MCancelled _ \<Rightarrow> (''request.cancelled'', ''approval'')
      | MDispatched \<Rightarrow> (''request.dispatched'', ''approval'')
      | MClaimed _ _ \<Rightarrow> (''execution.started'', ''execution'')
      | MCompleted success _ \<Rightarrow>
          if success then (''execution.completed'', ''execution'') else (''execution.failed'', ''execution'')
      | MExecutionLost _ \<Rightarrow> (''execution.lost'', ''agent'')
      | MExpired \<Rightarrow> (''request.expired'', ''approval''))"

definition parse_metadata_object :: "lib \<Rightarrow> string \<Rightarrow> json" where
  "parse_metadata_object lib s =
     (case x_json_read lib s of Some v \<Rightarrow> if is_object v then v else JObj [] | None \<Rightarrow> JObj [])"

definition noop_redact :: "string \<Rightarrow> string" where
  "noop_redact s = s"

definition set_opt :: "string \<Rightarrow> string option \<Rightarrow> json \<Rightarrow> json" where
  "set_opt k v meta = (case v of Some s \<Rightarrow> json_set k (JStr s) meta | None \<Rightarrow> meta)"

text \<open>The metadata column; \<open>step_index + 1\<close> is \<open>u32\<close> arithmetic.\<close>

definition event_metadata_json :: "lib \<Rightarrow> transition_event \<Rightarrow> string \<Rightarrow> string" where
  "event_metadata_json lib event base =
     (case te_metadata event of
        MApproved comment matched_selector \<Rightarrow>
          let meta = parse_metadata_object lib base;
              meta = set_opt ''approval_comment'' comment meta;
              meta = json_set ''matched_selector'' (JStr matched_selector) meta;
              meta = set_opt ''auth_token_id'' (te_auth_token_id event) meta
          in x_json_text lib meta
      | MStepApproved step_index total_steps comment matched_selector \<Rightarrow>
          let meta = parse_metadata_object lib base;
              meta = set_opt ''approval_comment'' comment meta;
              meta = json_set ''step_number'' (JNum (uint (step_index + 1))) meta;
              meta = json_set ''total_steps'' (JNum (uint total_steps)) meta;
              meta = json_set ''matched_selector'' (JStr matched_selector) meta;
              meta = set_opt ''auth_token_id'' (te_auth_token_id event) meta
          in x_json_text lib meta
      | _ \<Rightarrow>
          (case te_auth_token_id event of
             Some tid \<Rightarrow> x_json_text lib (json_set ''auth_token_id'' (JStr tid) (parse_metadata_object lib base))
           | None \<Rightarrow> base))"

definition event_resource_id :: "transition_event \<Rightarrow> string" where
  "event_resource_id event =
     (case te_metadata event of
        MClaimed execution_id _ \<Rightarrow> execution_id
      | MCompleted _ execution_id \<Rightarrow> execution_id
      | MExecutionLost execution_id \<Rightarrow> execution_id
      | _ \<Rightarrow> te_request_id event)"

definition build_audit_event ::
  "lib \<Rightarrow> transition_event \<Rightarrow> timestamp \<Rightarrow> redaction_mode \<Rightarrow> (string \<Rightarrow> string) \<Rightarrow> audit_event" where
  "build_audit_event lib event now mode redact_fn =
     (let (event_type, category) = event_type_and_category event;
          ev = audit_event_simple event_type category (te_actor_id event) (Some (te_request_id event))
                 now (te_audit_context event);
          ev = ev\<lparr> ae_request_id := Some (te_request_id event),
                   ae_database_name := Some (db_str (te_database event)),
                   ae_environment := Some (env_str (te_environment event)),
                   ae_operation := Some (operation_as_str (te_operation event)),
                   ae_resource_id := Some (event_resource_id event) \<rparr>;
          ev = (case te_metadata event of
              MCreated detail _ \<Rightarrow>
                let ev = ev\<lparr> ae_detail_fingerprint := Some (redact_fn detail) \<rparr> in
                (case mode of
                   RedactNone \<Rightarrow> ev\<lparr> ae_detail_raw := Some detail \<rparr>
                 | RedactLiterals \<Rightarrow> ev\<lparr> ae_detail_raw := Some (redact_fn detail) \<rparr>
                 | RedactFull \<Rightarrow> ev)
            | _ \<Rightarrow> ev);
          ev = (case te_metadata event of
              MRejected comment \<Rightarrow> ev\<lparr> ae_reason := comment \<rparr> | _ \<Rightarrow> ev)
      in ev\<lparr> ae_metadata_json := event_metadata_json lib event (ae_metadata_json ev) \<rparr>)"

subsection \<open>Webhook events\<close>

record webhook_event =
  wh_event_type :: string
  wh_request_id :: "string option"
  wh_database :: "string option"
  wh_environment :: "string option"
  wh_actor :: "string option"
  wh_detail :: "string option"
  wh_requester :: "string option"
  wh_operation :: "string option"
  wh_reason :: "string option"
  wh_redacted_detail :: "string option"
  wh_error_summary :: "string option"
  wh_approval_hint :: "string option"
  wh_step_index :: "u32 option"
  wh_total_steps :: "u32 option"
  wh_expires_at :: "string option"
  wh_approvers :: "string list option"
  wh_matched_selector :: "string option"

definition version_char :: "char \<Rightarrow> bool" where
  "version_char c \<longleftrightarrow> is_alnum c \<or> c = CHR ''_'' \<or> c = CHR ''-'' \<or> c = CHR ''.''"

definition sanitize_version :: "string \<Rightarrow> string" where
  "sanitize_version v =
     (if length v > 64 \<or> list_ex (\<lambda>c. \<not> version_char c) v
      then ''<invalid:'' @ show_nat (length v) @ ''>'' else v)"

definition summarize_migrate_detail :: "lib \<Rightarrow> string \<Rightarrow> string \<Rightarrow> string" where
  "summarize_migrate_detail lib op detail =
     (case x_json_read lib detail of
        Some v \<Rightarrow>
          let versions = (case json_as_array (json_index v ''versions'') of
                Some arr \<Rightarrow> join '','' (map sanitize_version (List.map_filter json_as_str arr))
              | None \<Rightarrow> [])
          in (case json_as_u64 (json_index v ''max_count'') of
                Some n \<Rightarrow> op @ '': versions=['' @ versions @ ''] max_count='' @ show_nat n
              | None \<Rightarrow> op @ '': versions=['' @ versions @ '']'')
      | None \<Rightarrow> op @ '': <parse error>'')"

definition redact_webhook_detail :: "lib \<Rightarrow> string \<Rightarrow> string \<Rightarrow> string" where
  "redact_webhook_detail lib op detail =
     (if op = ''migrate_up'' \<or> op = ''migrate_down'' then summarize_migrate_detail lib op detail else detail)"

definition build_webhook_event :: "lib \<Rightarrow> transition_event \<Rightarrow> webhook_event" where
  "build_webhook_event lib event =
     \<lparr> wh_event_type = fst (event_type_and_category event),
       wh_request_id = Some (te_request_id event),
       wh_database = Some (db_str (te_database event)),
       wh_environment = Some (env_str (te_environment event)),
       wh_actor = Some (te_actor_id event),
       wh_detail = None,
       wh_requester = Some (te_requester_id event),
       wh_operation = Some (operation_as_str (te_operation event)),
       wh_reason = (case te_metadata event of MRejected comment \<Rightarrow> comment | MCancelled reason \<Rightarrow> reason | _ \<Rightarrow> None),
       wh_redacted_detail = (case te_metadata event of
           MCreated detail _ \<Rightarrow> Some (redact_webhook_detail lib (operation_as_str (te_operation event)) detail)
         | _ \<Rightarrow> None),
       wh_error_summary = (case te_metadata event of
           MCompleted success execution_id \<Rightarrow>
             if success then None else Some (''execution '' @ execution_id @ '' failed'')
         | MExecutionLost execution_id \<Rightarrow> Some (''execution '' @ execution_id @ '' lost'')
         | _ \<Rightarrow> None),
       wh_approval_hint = None,
       wh_step_index = (case te_metadata event of MStepApproved i _ _ _ \<Rightarrow> Some i | _ \<Rightarrow> None),
       wh_total_steps = (case te_metadata event of MStepApproved _ n _ _ \<Rightarrow> Some n | _ \<Rightarrow> None),
       wh_expires_at = None, wh_approvers = None,
       wh_matched_selector = (case te_metadata event of
           MStepApproved _ _ _ s \<Rightarrow> Some s | MApproved _ s \<Rightarrow> Some s | _ \<Rightarrow> None) \<rparr>"

subsection \<open>What the events record\<close>

text \<open>Every transition leaves a complete trace: the audit event names the acting principal, the
  request, its database, environment and operation, the time, and as resource the execution
  for execution events and the request otherwise; its chain columns are left for the store,
  and in full redaction the statement text is not recorded.\<close>

theorem audit_event_traces_transition:
  "ae_actor_id (build_audit_event lib ev now mode f) = te_actor_id ev
   \<and> ae_request_id (build_audit_event lib ev now mode f) = Some (te_request_id ev)
   \<and> ae_database_name (build_audit_event lib ev now mode f) = Some (db_str (te_database ev))
   \<and> ae_environment (build_audit_event lib ev now mode f) = Some (env_str (te_environment ev))
   \<and> ae_operation (build_audit_event lib ev now mode f) = Some (operation_as_str (te_operation ev))
   \<and> ae_resource_id (build_audit_event lib ev now mode f) = Some (event_resource_id ev)
   \<and> ae_event_type (build_audit_event lib ev now mode f) = fst (event_type_and_category ev)
   \<and> ae_created_at (build_audit_event lib ev now mode f) = now
   \<and> ae_prev_hash (build_audit_event lib ev now mode f) = None
   \<and> ae_detail_raw (build_audit_event lib ev now RedactFull f) = None"
proof -
  obtain t c where tc: "event_type_and_category ev = (t, c)" by (cases "event_type_and_category ev")
  show ?thesis
    by (cases "te_metadata ev"; cases mode; cases "te_audit_context ev")
      (simp_all add: build_audit_event_def tc audit_event_simple_def Let_def)
qed

lemma sanitize_version_clean:
  "(\<forall>c \<in> set (sanitize_version v). version_char c) \<and> length (sanitize_version v) \<le> 64
   \<or> sanitize_version v = ''<invalid:'' @ show_nat (length v) @ ''>''"
  by (auto simp: sanitize_version_def list_ex_iff)

text \<open>The webhook of a migration request does not leak its statements: the announced event does
  not change when the payload is replaced by one with the same version list and maximal
  count, whatever SQL it contains.\<close>

theorem webhook_hides_migration_sql:
  assumes "te_operation ev = MigrateUp \<or> te_operation ev = MigrateDown" and "te_metadata ev = MCreated d e"
    and "x_json_read lib d = Some v" and "x_json_read lib d' = Some v'"
    and "json_index v ''versions'' = json_index v' ''versions''"
    and "json_index v ''max_count'' = json_index v' ''max_count''"
  shows "build_webhook_event lib (ev\<lparr> te_metadata := MCreated d' e \<rparr>) = build_webhook_event lib ev"
proof -
  have "summarize_migrate_detail lib op d' = summarize_migrate_detail lib op d" for op
    using assms(3-6) by (simp add: summarize_migrate_detail_def del: json_index.simps)
  then show ?thesis
    using assms(1,2)
    by (auto simp: build_webhook_event_def event_type_and_category_def redact_webhook_detail_def)
qed

text \<open>A concrete library, for examples.\<close>

definition example_lib :: lib where
  "example_lib =
     \<lparr> x_sha256_hex = (\<lambda>s. CHR ''h'' # s), x_rfc3339 = (\<lambda>t. show_nat (nat t)),
       x_parse_rfc3339 = (\<lambda>s. Some (int (read_nat s))), x_json_text = (\<lambda>_. ''{}''),
       x_json_read = (\<lambda>_. Some (JObj [])), x_workflow_read = (\<lambda>_. None),
       x_hex_encode = (\<lambda>s. s), x_hex_decode = Some,
       x_serde_error = (\<lambda>s. ''expected value'') \<rparr>"

definition example_event :: "event_metadata \<Rightarrow> transition_event" where
  "example_event m =
     \<lparr> te_request_id = ''r1'', te_previous_status = Pending, te_new_status = Pending,
       te_actor_id = ''ann'', te_actor_type = SubjUser, te_database = DatabaseName ''app'',
       te_environment = Environment ''prod'', te_operation = MigrateUp, te_timestamp = 0,
       te_metadata = m, te_requester_id = ''ann'', te_audit_context = CtxSystem,
       te_auth_token_id = None \<rparr>"

theorem webhook_hides_migration_sql_witness:
  "build_webhook_event example_lib ((example_event (MCreated ''secret'' False))\<lparr> te_metadata := MCreated ''other'' False \<rparr>)
   = build_webhook_event example_lib (example_event (MCreated ''secret'' False))"
  by (rule webhook_hides_migration_sql [where v = "JObj []" and v' = "JObj []"])
    (simp_all add: example_event_def example_lib_def)

end
