(* ===== verification/Audit_Chain.thy ===== *)
theory Audit_Chain
  imports Audit_Events "HOL-Library.Countable"
begin

text \<open>
  The tamper-evident audit log: rows, the insertion that maintains the hash chain
  (\<open>sqlite/audit_helper.rs\<close>), the periodic signed checkpoint (\<open>record\<close> of
  \<open>sqlite/unit_of_work.rs\<close>) and the verification (\<open>sqlite/audit_repo.rs\<close>). SHA-256, signatures and
  hex are parameters. The lemmas show that the hashed encoding is injective, that insertion
  keeps a verifying log verifying, and that the hash of the last row fixes the whole content.
\<close>

subsection \<open>Rows\<close>

fun category_str :: "event_category \<Rightarrow> string" where
  "category_str CatApproval = ''approval''"
| "category_str CatExecution = ''execution''"
| "category_str CatAgent = ''agent''"
| "category_str CatAuth = ''auth''"
| "category_str CatToken = ''token''"
| "category_str CatIdentity = ''identity''"
| "category_str CatPolicy = ''policy''"
| "category_str CatRequest = ''request''"
| "category_str CatPreflight = ''preflight''"

fun outcome_str :: "event_outcome \<Rightarrow> string" where
  "outcome_str OutSuccess = ''success''"
| "outcome_str OutDenied = ''denied''"
| "outcome_str OutFailure = ''failure''"
| "outcome_str OutInfo = ''info''"

fun actor_type_str :: "actor_type \<Rightarrow> string" where
  "actor_type_str ActUser = ''user''"
| "actor_type_str ActAgent = ''agent''"
| "actor_type_str ActSystem = ''system''"

text \<open>A row of the table \<open>audit_events\<close> as the verification reads it: all columns as text.\<close>

record audit_row =
  ar_rowid :: int
  ar_id :: string
  ar_event_type :: string
  ar_event_category :: string
  ar_event_version :: nat
  ar_actor_id :: string
  ar_actor_type :: string
  ar_resource_type :: "string option"
  ar_resource_id :: "string option"
  ar_peer_ip :: "string option"
  ar_client_ip :: "string option"
  ar_client_ip_source :: "string option"
  ar_created_at :: string
  ar_prev_hash :: "string option"
  ar_event_hash :: string
  ar_outcome :: string
  ar_request_id :: "string option"
  ar_operation :: "string option"
  ar_database_name :: "string option"
  ar_environment :: "string option"
  ar_reason :: "string option"
  ar_detail_fingerprint :: "string option"
  ar_detail_raw :: "string option"
  ar_metadata_json :: string
  ar_chain_version :: int

definition or_empty :: "string option \<Rightarrow> string" where
  "or_empty s = (case s of Some x \<Rightarrow> x | None \<Rightarrow> [])"

definition v2_fields :: "audit_row \<Rightarrow> string list" where
  "v2_fields r =
     [ar_id r, ar_event_type r, ar_event_category r, show_nat (ar_event_version r), ar_outcome r,
      ar_actor_id r, ar_actor_type r, or_empty (ar_resource_type r), or_empty (ar_resource_id r),
      or_empty (ar_peer_ip r), or_empty (ar_client_ip r), or_empty (ar_client_ip_source r),
      or_empty (ar_request_id r), or_empty (ar_operation r), or_empty (ar_database_name r),
      or_empty (ar_environment r), or_empty (ar_detail_fingerprint r), or_empty (ar_detail_raw r),
      or_empty (ar_reason r), ar_metadata_json r, or_empty (ar_prev_hash r), ar_created_at r]"

text \<open>Length-prefixed fields joined by newlines.\<close>

definition encode_field :: "string \<Rightarrow> string" where
  "encode_field f = show_nat (length f) @ '':'' @ f"

definition encode_fields :: "string list \<Rightarrow> string" where
  "encode_fields fs = join [CHR 0x0A] (map encode_field fs)"

definition v2_hash :: "lib \<Rightarrow> audit_row \<Rightarrow> string" where
  "v2_hash lib r = x_sha256_hex lib (encode_fields (v2_fields r))"

definition v1_hash :: "lib \<Rightarrow> audit_row \<Rightarrow> string" where
  "v1_hash lib r = x_sha256_hex lib (join ''|''
     [ar_id r, ar_event_type r, ar_actor_id r, ar_created_at r, or_empty (ar_prev_hash r), ar_outcome r,
      or_empty (ar_request_id r), or_empty (ar_operation r), or_empty (ar_database_name r),
      or_empty (ar_environment r), or_empty (ar_reason r), or_empty (ar_detail_raw r), ar_metadata_json r])"

subsection \<open>Insertion\<close>

definition head_hash :: "audit_row list \<Rightarrow> string option" where
  "head_hash t = (if t = [] then None else Some (ar_event_hash (List.last t)))"

definition next_rowid :: "audit_row list \<Rightarrow> int" where
  "next_rowid t = (if t = [] then 1 else ar_rowid (List.last t) + 1)"

definition audit_row_of :: "lib \<Rightarrow> audit_row list \<Rightarrow> string \<Rightarrow> audit_event \<Rightarrow> audit_row" where
  "audit_row_of lib t i ev =
     (let r = \<lparr> ar_rowid = next_rowid t, ar_id = i, ar_event_type = ae_event_type ev,
          ar_event_category = category_str (ae_event_category ev),
          ar_event_version = unat (ae_event_version ev), ar_actor_id = ae_actor_id ev,
          ar_actor_type = actor_type_str (ae_actor_type ev), ar_resource_type = ae_resource_type ev,
          ar_resource_id = ae_resource_id ev, ar_peer_ip = ae_peer_ip ev, ar_client_ip = ae_client_ip ev,
          ar_client_ip_source = ae_client_ip_source ev, ar_created_at = x_rfc3339 lib (ae_created_at ev),
          ar_prev_hash = head_hash t, ar_event_hash = [], ar_outcome = outcome_str (ae_outcome ev),
          ar_request_id = ae_request_id ev, ar_operation = ae_operation ev,
          ar_database_name = ae_database_name ev, ar_environment = ae_environment ev,
          ar_reason = ae_reason ev, ar_detail_fingerprint = ae_detail_fingerprint ev,
          ar_detail_raw = ae_detail_raw ev, ar_metadata_json = ae_metadata_json ev,
          ar_chain_version = 2 \<rparr>
      in r\<lparr> ar_event_hash := v2_hash lib r \<rparr>)"

text \<open>The primary key rejects a row whose identifier is taken; the error text is SQLite's.\<close>

definition insert_audit_event :: "lib \<Rightarrow> string \<Rightarrow> audit_event \<Rightarrow> audit_row list \<Rightarrow> string + audit_row list" where
  "insert_audit_event lib i ev t =
     (if list_ex (\<lambda>r. ar_id r = i) t then Inl ''UNIQUE constraint failed: audit_events.id''
      else Inr (t @ [audit_row_of lib t i ev]))"

subsection \<open>Signed checkpoints\<close>

record signer =
  sg_key_id :: string
  sg_sign :: "string \<Rightarrow> string"

record verifier =
  vf_verify :: "string \<Rightarrow> string \<Rightarrow> bool"
  vf_verify_with_key :: "string \<Rightarrow> string \<Rightarrow> string \<Rightarrow> bool"

definition checkpoint_type :: string where
  "checkpoint_type = ''audit.signed_checkpoint''"

definition is_checkpoint :: "audit_row \<Rightarrow> bool" where
  "is_checkpoint r \<longleftrightarrow> ar_event_type r = checkpoint_type"

text \<open>Duration to whole minutes, towards zero.\<close>

definition num_minutes :: "int \<Rightarrow> int" where
  "num_minutes d = sgn d * (\<bar>d\<bar> div 60000000000)"

definition show_int :: "int \<Rightarrow> string" where
  "show_int n = (if n < 0 then ''-'' @ show_nat (nat (- n)) else show_nat (nat n))"

definition events_since :: "u64 \<Rightarrow> audit_row list \<Rightarrow> int" where
  "events_since interval t =
     int (length (filter (\<lambda>r. \<not> is_checkpoint r) t)) - int (length (filter is_checkpoint t)) * sint interval"

definition time_triggered :: "lib \<Rightarrow> timestamp \<Rightarrow> audit_row list \<Rightarrow> bool" where
  "time_triggered lib wall t =
     (case rev (filter is_checkpoint t) of
        [] \<Rightarrow> False
      | c # _ \<Rightarrow> (case x_parse_rfc3339 lib (ar_created_at c) of
            Some s \<Rightarrow> num_minutes (wall - s) \<ge> 60 | None \<Rightarrow> False))"

definition checkpoint_message :: "string \<Rightarrow> string \<Rightarrow> string \<Rightarrow> string" where
  "checkpoint_message head count created =
     ''audit-checkpoint:v1|'' @ head @ ''|'' @ count @ ''|'' @ created"

definition checkpoint_event :: "lib \<Rightarrow> signer \<Rightarrow> string \<Rightarrow> int \<Rightarrow> timestamp \<Rightarrow> audit_event" where
  "checkpoint_event lib sg head since now =
     \<lparr> ae_id = [], ae_event_type = checkpoint_type, ae_event_category = CatPolicy, ae_event_version = 1,
       ae_outcome = OutInfo, ae_actor_id = ''system'', ae_actor_type = ActSystem, ae_resource_type = None,
       ae_resource_id = None, ae_peer_ip = None, ae_client_ip = None, ae_client_ip_source = None,
       ae_request_id = None, ae_operation = None, ae_database_name = None, ae_environment = None,
       ae_detail_fingerprint = None, ae_detail_raw = None, ae_reason = None,
       ae_metadata_json = x_json_text lib (JObj
         [(''chain_head_hash'', JStr head), (''event_count_since_last_checkpoint'', JNum since),
          (''key_id'', JStr (sg_key_id sg)),
          (''signature'', JStr (x_hex_encode lib (sg_sign sg
             (checkpoint_message head (show_int since) (x_rfc3339 lib now)))))]),
       ae_prev_hash = None, ae_event_hash = [], ae_created_at = now \<rparr>"

text \<open>\<open>record\<close> of the transaction scope: the row, and a checkpoint when the counter or the clock
  asks for one. \<open>ids\<close> are the identifiers drawn, \<open>wall\<close> the two readings of the wall clock.\<close>

definition record_audit ::
  "lib \<Rightarrow> signer option \<Rightarrow> u64 \<Rightarrow> string \<times> string \<Rightarrow> timestamp \<times> timestamp \<Rightarrow> audit_event
     \<Rightarrow> audit_row list \<Rightarrow> audit_row list app_result" where
  "record_audit lib sg interval ids wall ev t =
     tryE (map_err (\<lambda>e. Internal (''audit: '' @ e)) (insert_audit_event lib (fst ids) ev t)) (\<lambda>t.
       case sg of
         None \<Rightarrow> Inr t
       | Some s \<Rightarrow>
           let since = events_since interval t in
           if since \<ge> sint interval \<or> time_triggered lib (fst wall) t then
             tryE (ok_or (head_hash t) (Internal ''checkpoint head: Query returned no rows'')) (\<lambda>head.
               map_err (\<lambda>e. Internal (''checkpoint insert: '' @ e))
                 (insert_audit_event lib (snd ids) (checkpoint_event lib s head since (snd wall)) t))
           else Inr t)"

subsection \<open>Verification\<close>

datatype verify_failure_reason = HashMismatch | PrevHashMismatch | UnknownChainVersion int
  | CheckpointSignatureInvalid | CheckpointCountMismatch | PurgeBoundaryUnauthenticated
  | LegacyBoundaryMigrationNeeded

record verify_failure =
  vx_rowid :: int
  vx_event_id :: string
  vx_event_type :: string
  vx_reason :: verify_failure_reason

record verify_result =
  vr_total :: nat
  vr_first_broken_id :: "string option"
  vr_failure :: "verify_failure option"

record purge_row =
  pc_purged_before :: string
  pc_last_purged_hash :: string
  pc_retained_count :: int
  pc_signature :: string
  pc_key_id :: string

definition broken :: "nat \<Rightarrow> audit_row \<Rightarrow> verify_failure_reason \<Rightarrow> verify_result" where
  "broken seen r reason =
     \<lparr> vr_total = seen, vr_first_broken_id = Some (ar_id r),
       vr_failure = Some \<lparr> vx_rowid = ar_rowid r, vx_event_id = ar_id r, vx_event_type = ar_event_type r,
         vx_reason = reason \<rparr> \<rparr>"

definition signature_ok :: "lib \<Rightarrow> verifier option \<Rightarrow> string \<Rightarrow> string \<Rightarrow> string \<Rightarrow> bool" where
  "signature_ok lib vf key_id payload sig_hex =
     (case vf of
        None \<Rightarrow> True
      | Some v \<Rightarrow>
          (case x_hex_decode lib sig_hex of
             None \<Rightarrow> False
           | Some sig_bytes \<Rightarrow>
               if key_id = [] then vf_verify v payload sig_bytes
               else vf_verify_with_key v key_id payload sig_bytes))"

definition purge_payload :: "string \<Rightarrow> string \<Rightarrow> int \<Rightarrow> string" where
  "purge_payload last_hash purged_before retained =
     ''purge-checkpoint:v1|'' @ last_hash @ ''|'' @ purged_before @ ''|'' @ show_int retained"

text \<open>The check on the first remaining row: no predecessor, or one that is gone and whose removal a
  signed purge record proves.\<close>

definition first_row_ok :: "lib \<Rightarrow> verifier option \<Rightarrow> purge_row list \<Rightarrow> audit_row list \<Rightarrow> audit_row \<Rightarrow> bool" where
  "first_row_ok lib vf purges t r =
     (case ar_prev_hash r of
        None \<Rightarrow> True
      | Some prev \<Rightarrow>
          if list_ex (\<lambda>x. ar_event_hash x = prev) t then False
          else case find_row (\<lambda>p. pc_last_purged_hash p = prev) purges of
              None \<Rightarrow> False
            | Some p \<Rightarrow> signature_ok lib vf (pc_key_id p)
                (purge_payload (pc_last_purged_hash p) (pc_purged_before p) (pc_retained_count p)) (pc_signature p))"

definition check_checkpoint :: "lib \<Rightarrow> verifier option \<Rightarrow> nat \<Rightarrow> audit_row \<Rightarrow> verify_failure_reason option" where
  "check_checkpoint lib vf count r =
     (case x_json_read lib (ar_metadata_json r) of
        None \<Rightarrow> Some CheckpointSignatureInvalid
      | Some meta \<Rightarrow>
          let claimed_head = or_empty (json_as_str (json_index meta ''chain_head_hash''));
              claimed_count = (case json_as_u64 (json_index meta ''event_count_since_last_checkpoint'') of
                  Some n \<Rightarrow> n | None \<Rightarrow> 0);
              signature_hex = or_empty (json_as_str (json_index meta ''signature''));
              key_id = or_empty (json_as_str (json_index meta ''key_id''))
          in if ar_prev_hash r \<noteq> Some claimed_head \<and> claimed_head \<noteq> [] then Some CheckpointSignatureInvalid
             else if count \<noteq> claimed_count then Some CheckpointCountMismatch
             else if \<not> signature_ok lib vf key_id
                 (checkpoint_message claimed_head (show_nat claimed_count) (ar_created_at r)) signature_hex
               then Some CheckpointSignatureInvalid
             else None)"

definition row_hash :: "lib \<Rightarrow> audit_row \<Rightarrow> string option" where
  "row_hash lib r =
     (if ar_chain_version r = 1 then Some (v1_hash lib r)
      else if ar_chain_version r = 2 then Some (v2_hash lib r) else None)"

fun verify_loop :: "lib \<Rightarrow> verifier option \<Rightarrow> purge_row list \<Rightarrow> audit_row list
    \<Rightarrow> nat \<Rightarrow> string option \<Rightarrow> nat \<Rightarrow> bool \<Rightarrow> audit_row list \<Rightarrow> verify_result" where
  "verify_loop lib vf purges t seen expected_prev count is_first [] =
     \<lparr> vr_total = seen, vr_first_broken_id = None, vr_failure = None \<rparr>"
| "verify_loop lib vf purges t seen expected_prev count is_first (r # rs) =
     (let seen = seen + 1 in
      if is_first \<and> \<not> first_row_ok lib vf purges t r then broken seen r PurgeBoundaryUnauthenticated
      else if \<not> is_first \<and> ar_prev_hash r \<noteq> expected_prev then broken seen r PrevHashMismatch
      else case row_hash lib r of
          None \<Rightarrow> broken seen r (UnknownChainVersion (ar_chain_version r))
        | Some computed \<Rightarrow>
            if computed \<noteq> ar_event_hash r then broken seen r HashMismatch
            else if is_checkpoint r then
              (case check_checkpoint lib vf count r of
                 Some reason \<Rightarrow> broken seen r reason
               | None \<Rightarrow> verify_loop lib vf purges t seen (Some (ar_event_hash r)) 0 False rs)
            else verify_loop lib vf purges t seen (Some (ar_event_hash r)) (count + 1) False rs)"

definition verify_chain :: "lib \<Rightarrow> verifier option \<Rightarrow> purge_row list \<Rightarrow> audit_row list \<Rightarrow> verify_result" where
  "verify_chain lib vf purges t = verify_loop lib vf purges t 0 None 0 True t"

definition verified :: "verify_result \<Rightarrow> bool" where
  "verified v \<longleftrightarrow> vr_failure v = None"

subsection \<open>The encoding is injective\<close>

lemma colon_not_in_show_nat: "CHR '':'' \<notin> set (show_nat n)"
proof
  assume "CHR '':'' \<in> set (show_nat n)"
  then have "is_digit CHR '':''" by (rule show_nat_digits)
  then show False by (simp add: is_digit_def)
qed

lemma encode_field_cancel:
  assumes "encode_field f @ a = encode_field g @ b"
  shows "f = g \<and> a = b"
proof -
  have "split_once CHR '':'' (encode_field f @ a) = Some (show_nat (length f), f @ a)" for f a
    by (simp add: encode_field_def colon_not_in_show_nat)
  then have "Some (show_nat (length f), f @ a) = Some (show_nat (length g), g @ b)"
    using assms by metis
  then show ?thesis by (auto simp: append_eq_append_conv)
qed

lemma encode_fields_Cons:
  "encode_fields (x # y # xs) = encode_field x @ CHR 0x0A # encode_fields (y # xs)"
  by (simp add: encode_fields_def)

lemma encode_fields_inject:
  "length xs = length ys \<Longrightarrow> encode_fields xs = encode_fields ys \<Longrightarrow> xs = ys"
proof (induction xs arbitrary: ys)
  case Nil
  then show ?case by simp
next
  case (Cons x xs)
  then obtain y ys' where ys: "ys = y # ys'" "length xs = length ys'" by (cases ys) auto
  show ?case
  proof (cases xs)
    case Nil
    then show ?thesis
      using Cons.prems(2) ys encode_field_cancel [of x "[]" y "[]"] by (simp add: encode_fields_def)
  next
    case (Cons x' xs')
    then obtain y' ys'' where ys': "ys' = y' # ys''" using ys by (cases ys') auto
    have "encode_field x @ CHR 0x0A # encode_fields xs = encode_field y @ CHR 0x0A # encode_fields ys'"
      using Cons.prems(2) by (simp add: Cons ys ys' encode_fields_Cons)
    from encode_field_cancel [OF this] have "x = y" "encode_fields xs = encode_fields ys'" by auto
    then show ?thesis using Cons.IH ys by blast
  qed
qed

lemma length_v2_fields: "length (v2_fields r) = 22"
  by (simp add: v2_fields_def)

subsection \<open>What a verified log satisfies\<close>

declare verify_loop.simps [simp del]

lemma verified_broken [simp]: "\<not> verified (broken n r x)"
  by (simp add: verified_def broken_def)

lemma verified_Nil [simp]: "verified (verify_loop lib vf ps t n prev c first [])"
  by (simp add: verified_def verify_loop.simps)

lemma verified_Cons:
  "verified (verify_loop lib vf ps t n prev c first (r # rs)) \<longleftrightarrow>
   (if first then first_row_ok lib vf ps t r else ar_prev_hash r = prev)
   \<and> row_hash lib r = Some (ar_event_hash r)
   \<and> (is_checkpoint r \<longrightarrow> check_checkpoint lib vf c r = None)
   \<and> verified (verify_loop lib vf ps t (n + 1) (Some (ar_event_hash r))
        (if is_checkpoint r then 0 else c + 1) False rs)"
  by (auto simp: verify_loop.simps(2) Let_def split: option.splits)

fun since_last :: "nat \<Rightarrow> audit_row list \<Rightarrow> nat" where
  "since_last c [] = c"
| "since_last c (r # rs) = since_last (if is_checkpoint r then 0 else c + 1) rs"

lemma since_last_snoc: "since_last c (rs @ [r]) = (if is_checkpoint r then 0 else since_last c rs + 1)"
  by (induction rs arbitrary: c) auto

lemma verified_snoc:
  "verified (verify_loop lib vf ps t n prev c first (rs @ [r])) \<longleftrightarrow>
   verified (verify_loop lib vf ps t n prev c first rs)
   \<and> (if rs = [] then (if first then first_row_ok lib vf ps t r else ar_prev_hash r = prev)
      else ar_prev_hash r = head_hash rs)
   \<and> row_hash lib r = Some (ar_event_hash r)
   \<and> (is_checkpoint r \<longrightarrow> check_checkpoint lib vf (since_last c rs) r = None)"
proof (induction rs arbitrary: n prev c first)
  case Nil
  then show ?case by (simp add: verified_Cons)
next
  case (Cons x rs)
  show ?case
    by (simp add: verified_Cons Cons head_hash_def)
qed

lemma verified_loop_table:
  assumes "verified (verify_loop lib vf ps t n prev c first rs)"
    and "first \<Longrightarrow> rs \<noteq> [] \<Longrightarrow> first_row_ok lib vf ps t (hd rs) \<Longrightarrow> first_row_ok lib vf ps t' (hd rs)"
  shows "verified (verify_loop lib vf ps t' n prev c first rs)"
  using assms
proof (induction rs arbitrary: n prev c first)
  case Nil
  then show ?case by simp
next
  case (Cons x rs)
  then show ?case by (auto simp: verified_Cons)
qed

text \<open>Appending a row to a verifying log. The side condition excludes that the new hash coincides
  with the hash of the last purged row, on which the remaining log rests.\<close>

definition boundary_hash :: "audit_row list \<Rightarrow> string option" where
  "boundary_hash t = (if t = [] then None else ar_prev_hash (hd t))"

lemma append_verified:
  assumes "verified (verify_chain lib vf ps t)"
    and "ar_prev_hash r = head_hash t" and "row_hash lib r = Some (ar_event_hash r)"
    and "is_checkpoint r \<Longrightarrow> check_checkpoint lib vf (since_last 0 t) r = None"
    and "boundary_hash t \<noteq> Some (ar_event_hash r)"
  shows "verified (verify_chain lib vf ps (t @ [r]))"
proof -
  have "verified (verify_loop lib vf ps (t @ [r]) 0 None 0 True t)"
    using assms(1) unfolding verify_chain_def
    by (rule verified_loop_table)
      (use assms(5) in \<open>auto simp: first_row_ok_def boundary_hash_def split: option.splits if_splits\<close>)
  moreover have "t = [] \<Longrightarrow> first_row_ok lib vf ps (t @ [r]) r"
    using assms(2) by (simp add: first_row_ok_def head_hash_def)
  ultimately show ?thesis
    using assms(2-4) by (auto simp: verify_chain_def verified_snoc)
qed

lemma audit_row_of_simps [simp]:
  "ar_prev_hash (audit_row_of lib t i ev) = head_hash t"
  "ar_event_type (audit_row_of lib t i ev) = ae_event_type ev"
  "ar_id (audit_row_of lib t i ev) = i"
  "ar_metadata_json (audit_row_of lib t i ev) = ae_metadata_json ev"
  "ar_created_at (audit_row_of lib t i ev) = x_rfc3339 lib (ae_created_at ev)"
  "ar_chain_version (audit_row_of lib t i ev) = 2"
  by (simp_all add: audit_row_of_def Let_def)

lemma row_hash_audit_row_of: "row_hash lib (audit_row_of lib t i ev) = Some (ar_event_hash (audit_row_of lib t i ev))"
  by (simp add: row_hash_def v2_hash_def v2_fields_def audit_row_of_def Let_def)

lemma insert_audit_event_Inr:
  "insert_audit_event lib i ev t = Inr t' \<longleftrightarrow> i \<notin> ar_id ` set t \<and> t' = t @ [audit_row_of lib t i ev]"
  by (auto simp: insert_audit_event_def list_ex_iff)

text \<open>Writing an ordinary event keeps a verifying log verifying, for every hash function, signature
  scheme and purge history: the new row is linked to the head and carries its own hash. The
  only side condition is that its hash is not the one the purge boundary points to.\<close>

theorem insert_keeps_log_verified:
  assumes "verified (verify_chain lib vf ps t)" and "insert_audit_event lib i ev t = Inr t'"
    and "ae_event_type ev \<noteq> checkpoint_type"
    and "boundary_hash t \<noteq> head_hash t'"
  shows "verified (verify_chain lib vf ps t') \<and> length t' = length t + 1"
proof -
  have t': "t' = t @ [audit_row_of lib t i ev]" using assms(2) by (simp add: insert_audit_event_Inr)
  have "verified (verify_chain lib vf ps (t @ [audit_row_of lib t i ev]))"
    using assms by (intro append_verified) (auto simp: row_hash_audit_row_of is_checkpoint_def t' head_hash_def)
  then show ?thesis by (simp add: t')
qed

definition plain_event :: "string \<Rightarrow> timestamp \<Rightarrow> audit_event" where
  "plain_event kind now = audit_event_simple kind ''policy'' ''system'' None now CtxSystem"

lemma plain_event_simps [simp]:
  "ae_event_type (plain_event k now) = k" "ae_created_at (plain_event k now) = now"
  by (simp_all add: plain_event_def audit_event_simple_def)

theorem insert_keeps_log_verified_witness:
  "verified (verify_chain example_lib None [] [audit_row_of example_lib [] ''1'' (plain_event ''x'' 0)])
   \<and> length [audit_row_of example_lib [] ''1'' (plain_event ''x'' 0)] = length ([] :: audit_row list) + 1"
  by (rule insert_keeps_log_verified [where i = "''1''" and ev = "plain_event ''x'' 0" and t = "[]"])
    (simp_all add: verify_chain_def insert_audit_event_def boundary_hash_def head_hash_def checkpoint_type_def)

subsection \<open>Checkpoints\<close>

lemma show_int_nat [simp]: "show_int (int n) = show_nat n"
  by (simp add: show_int_def)

lemma check_checkpoint_of_event:
  assumes "\<And>j. x_json_read lib (x_json_text lib j) = Some j"
    and "\<And>b. x_hex_decode lib (x_hex_encode lib b) = Some b"
    and "\<And>v m. vf = Some v \<Longrightarrow> vf_verify v m (sg_sign s m) \<and> vf_verify_with_key v (sg_key_id s) m (sg_sign s m)"
    and "head_hash t = Some head" and "n < 2 ^ 64"
  shows "check_checkpoint lib vf n (audit_row_of lib t i (checkpoint_event lib s head (int n) now)) = None"
  using assms
  by (auto simp: check_checkpoint_def checkpoint_event_def or_empty_def signature_ok_def Let_def split: option.splits)

lemma check_checkpoint_miscount:
  assumes "\<And>j. x_json_read lib (x_json_text lib j) = Some j" and "since \<noteq> int n"
    and "head_hash t = Some head" and "since < 0 \<Longrightarrow> n \<noteq> 0"
    and "since < 2 ^ 64"
  shows "check_checkpoint lib vf n (audit_row_of lib t i (checkpoint_event lib s head since now)) \<noteq> None"
  using assms
  by (auto simp: check_checkpoint_def checkpoint_event_def or_empty_def Let_def split: option.splits)

text \<open>What \<open>record\<close> leaves behind: the new row, and possibly a checkpoint over it.\<close>

lemma record_audit_Inr:
  assumes "record_audit lib sg interval ids wall ev t = Inr t''"
  shows "let t1 = t @ [audit_row_of lib t (fst ids) ev] in
    (sg = None \<or> (\<exists>s. sg = Some s \<and> \<not> (events_since interval t1 \<ge> sint interval \<or> time_triggered lib (fst wall) t1)))
      \<and> t'' = t1
    \<or> (\<exists>s. sg = Some s \<and> (events_since interval t1 \<ge> sint interval \<or> time_triggered lib (fst wall) t1)
       \<and> t'' = t1 @ [audit_row_of lib t1 (snd ids)
            (checkpoint_event lib s (ar_event_hash (List.last t1)) (events_since interval t1) (snd wall))])"
  using assms
  by (auto simp: record_audit_def res_simps insert_audit_event_Inr head_hash_def Let_def
      split: option.splits if_splits)

text \<open>Recording keeps a never purged log verifying as long as the counter of the writer is right.\<close>

lemma record_audit_verified:
  assumes "verified (verify_chain lib vf ps t)" and "boundary_hash t = None"
    and "record_audit lib sg interval ids wall ev t = Inr t''"
    and "ae_event_type ev \<noteq> checkpoint_type"
    and "events_since interval (t @ [audit_row_of lib t (fst ids) ev])
         = int (since_last 0 (t @ [audit_row_of lib t (fst ids) ev]))"
    and "length t < 2 ^ 64 - 1"
    and "\<And>j. x_json_read lib (x_json_text lib j) = Some j"
    and "\<And>b. x_hex_decode lib (x_hex_encode lib b) = Some b"
    and "\<And>s v m. sg = Some s \<Longrightarrow> vf = Some v \<Longrightarrow>
      vf_verify v m (sg_sign s m) \<and> vf_verify_with_key v (sg_key_id s) m (sg_sign s m)"
  shows "verified (verify_chain lib vf ps t'')"
proof -
  define t1 where "t1 = t @ [audit_row_of lib t (fst ids) ev]"
  have since_le: "since_last c rs \<le> c + length rs" for c rs
  proof (induction rs arbitrary: c)
    case (Cons r rs)
    from Cons [of 0] Cons [of "c + 1"] show ?case by auto
  qed simp
  have v1: "verified (verify_chain lib vf ps t1)"
    unfolding t1_def using assms(1,2,4)
    by (intro append_verified) (simp_all add: row_hash_audit_row_of is_checkpoint_def)
  have b1: "boundary_hash t1 = None"
    using assms(2) by (auto simp: t1_def boundary_hash_def head_hash_def hd_append split: if_splits)
  have "since_last 0 t1 < 2 ^ 64"
    using since_le [of 0 t1] assms(6) by (simp add: t1_def)
  then have "verified (verify_chain lib vf ps (t1 @ [audit_row_of lib t1 i (checkpoint_event lib s
      (ar_event_hash (List.last t1)) (events_since interval t1) now)]))" if "sg = Some s" for s i now
    using v1 b1 assms(5,7-9) that
    by (intro append_verified)
      (auto simp: row_hash_audit_row_of t1_def head_hash_def intro!: check_checkpoint_of_event)
  with v1 record_audit_Inr [OF assms(3)] show ?thesis
    by (auto simp: t1_def Let_def)
qed

text \<open>C29: Recording an event on a log that was never purged keeps it verifying, also when a signed
  checkpoint is written, provided the event counter of the writer agrees with the number of
  events since the last checkpoint, JSON and hex texts read back, and the verifier accepts the
  signer's signatures.\<close>

theorem record_keeps_log_verified:
  assumes "verified (verify_chain lib vf ps t)" and "boundary_hash t = None"
    and "record_audit lib sg interval ids wall ev t = Inr t''"
    and "ae_event_type ev \<noteq> checkpoint_type"
    and "events_since interval (t @ [audit_row_of lib t (fst ids) ev])
         = int (since_last 0 (t @ [audit_row_of lib t (fst ids) ev]))"
    and "length t < 2 ^ 64 - 1"
    and "\<And>j. x_json_read lib (x_json_text lib j) = Some j"
    and "\<And>b. x_hex_decode lib (x_hex_encode lib b) = Some b"
    and "\<And>s v m. sg = Some s \<Longrightarrow> vf = Some v \<Longrightarrow>
      vf_verify v m (sg_sign s m) \<and> vf_verify_with_key v (sg_key_id s) m (sg_sign s m)"
  shows "verified (verify_chain lib vf ps t'')"
  using assms by (rule record_audit_verified)

instance json :: countable
  by countable_datatype

text \<open>A library whose JSON and hex texts read back.\<close>

definition coded_lib :: lib where
  "coded_lib = example_lib\<lparr> x_json_text := \<lambda>j. show_nat (to_nat j),
     x_json_read := \<lambda>s. Some (from_nat (read_nat s)) \<rparr>"

lemma coded_lib_json [simp]: "x_json_read coded_lib (x_json_text coded_lib j) = Some j"
  by (simp add: coded_lib_def)

lemma coded_lib_hex [simp]: "x_hex_decode coded_lib (x_hex_encode coded_lib b) = Some b"
  by (simp add: coded_lib_def example_lib_def)

lemma coded_lib_time [simp]: "0 \<le> s \<Longrightarrow> x_parse_rfc3339 coded_lib (x_rfc3339 coded_lib s) = Some s"
  by (simp add: coded_lib_def example_lib_def)

definition sign_all :: signer where
  "sign_all = \<lparr> sg_key_id = ''k'', sg_sign = (\<lambda>m. m) \<rparr>"

definition trust_all :: verifier where
  "trust_all = \<lparr> vf_verify = (=), vf_verify_with_key = (\<lambda>_. (=)) \<rparr>"

lemma is_checkpoint_rows [simp]:
  "is_checkpoint (audit_row_of lib t i (checkpoint_event lib s h n now))"
  "is_checkpoint (audit_row_of lib t i (plain_event k now)) \<longleftrightarrow> k = checkpoint_type"
  by (simp_all add: is_checkpoint_def checkpoint_event_def)

definition first_log :: "audit_row list" where
  "first_log =
     (let t1 = [audit_row_of coded_lib [] ''1'' (plain_event ''x'' 0)]
      in t1 @ [audit_row_of coded_lib t1 ''2'' (checkpoint_event coded_lib sign_all
           (ar_event_hash (List.last t1)) 1 0)])"

lemma first_log_recorded:
  "record_audit coded_lib (Some sign_all) 1 (''1'', ''2'') (0, 0) (plain_event ''x'' 0) [] = Inr first_log"
  by (simp add: record_audit_def insert_audit_event_def events_since_def head_hash_def first_log_def
      checkpoint_type_def Let_def)

theorem record_keeps_log_verified_witness: "verified (verify_chain coded_lib (Some trust_all) [] first_log)"
  by (rule record_keeps_log_verified [OF _ _ first_log_recorded])
    (auto simp: verify_chain_def boundary_hash_def events_since_def checkpoint_type_def trust_all_def sign_all_def)

lemma verified_append:
  "verified (verify_loop lib vf ps t n prev c first (rs @ rs')) \<Longrightarrow> verified (verify_loop lib vf ps t n prev c first rs)"
  by (induction rs arbitrary: n prev c first) (auto simp: verified_Cons)

lemma verified_last_checkpoint:
  assumes "verified (verify_loop lib vf ps u n prev c first (t @ [audit_row_of lib t i
      (checkpoint_event lib s (ar_event_hash (List.last t)) since now)]))"
    and "\<And>j. x_json_read lib (x_json_text lib j) = Some j" and "t \<noteq> []"
    and "0 < since_last c t" and "since < 2 ^ 64"
  shows "since = int (since_last c t)"
proof (rule ccontr)
  assume "since \<noteq> int (since_last c t)"
  then have "check_checkpoint lib vf (since_last c t) (audit_row_of lib t i
      (checkpoint_event lib s (ar_event_hash (List.last t)) since now)) \<noteq> None"
    using assms(2-5) by (intro check_checkpoint_miscount) (auto simp: head_hash_def)
  with assms(1) show False by (simp add: verified_snoc)
qed

lemma events_since_snoc:
  "events_since interval (t @ [r]) = events_since interval t + (if is_checkpoint r then - sint interval else 1)"
  by (simp add: events_since_def algebra_simps)

lemma no_checkpoint_rows:
  assumes "\<forall>r \<in> set rows. \<not> is_checkpoint r"
  shows "since_last c (t @ rows) = since_last c t + length rows"
    and "events_since interval (t @ rows) = events_since interval t + int (length rows)"
  using assms
  by (induction rows rule: rev_induct)
    (simp_all add: since_last_snoc events_since_snoc flip: append_assoc)

lemma events_since_le: "0 < sint interval \<Longrightarrow> events_since interval t \<le> int (length t)"
  using length_filter_le [of "\<lambda>r. \<not> is_checkpoint r" t]
    mult_nonneg_nonneg [of "int (length (filter is_checkpoint t))" "sint interval"]
  unfolding events_since_def by linarith

lemma record_checkpoint:
  assumes "record_audit lib (Some s) interval ids wall ev t = Inr t''" and "length t'' = length t + 2"
    and "ae_event_type ev \<noteq> checkpoint_type"
  obtains t1 where "t1 = t @ [audit_row_of lib t (fst ids) ev]" and "\<not> is_checkpoint (List.last t1)"
    and "t'' = t1 @ [audit_row_of lib t1 (snd ids)
       (checkpoint_event lib s (ar_event_hash (List.last t1)) (events_since interval t1) (snd wall))]"
    and "since_last 0 t1 = since_last 0 t + 1" and "events_since interval t1 = events_since interval t + 1"
  using record_audit_Inr [OF assms(1)] assms(2,3)
  by (auto simp: Let_def is_checkpoint_def since_last_snoc events_since_snoc)

text \<open>C30: A checkpoint that the clock asks for before the interval is full makes the next checkpoint break the log for ever:
  the counter of the writer is the number of all events minus the interval times the number of
  checkpoints, so after the early checkpoint it is too small by what was missing to the interval.
  Starting from a log that verifies and ends in such an early checkpoint, honest rows and then a
  record that writes the next checkpoint leave a log that no verification accepts, whatever is appended later.\<close>

theorem early_checkpoint_breaks_log:
  assumes "record_audit lib (Some s) interval ids wall ev t = Inr t'" and "length t' = length t + 2"
    and "verified (verify_chain lib vf ps t')"
    and "int (since_last 0 (butlast t')) < sint interval"
    and "\<forall>r \<in> set rows. \<not> is_checkpoint r"
    and "record_audit lib (Some s') interval ids' wall' ev' (t' @ rows) = Inr t''"
    and "length t'' = length (t' @ rows) + 2"
    and "ae_event_type ev \<noteq> checkpoint_type" and "ae_event_type ev' \<noteq> checkpoint_type"
    and "length t'' < 2 ^ 64"
    and "\<And>j. x_json_read lib (x_json_text lib j) = Some j"
  shows "\<not> verified (verify_chain lib vf' ps' (t'' @ later))"
proof
  assume "verified (verify_chain lib vf' ps' (t'' @ later))"
  then have v: "verified (verify_loop lib vf' ps' (t'' @ later) 0 None 0 True t'')"
    unfolding verify_chain_def by (rule verified_append)
  obtain a where a: "a = t @ [audit_row_of lib t (fst ids) ev]" "since_last 0 a = since_last 0 t + 1"
    "t' = a @ [audit_row_of lib a (snd ids)
      (checkpoint_event lib s (ar_event_hash (List.last a)) (events_since interval a) (snd wall))]"
    using record_checkpoint [OF assms(1,2,8)] by metis
  obtain b where b: "b = (t' @ rows) @ [audit_row_of lib (t' @ rows) (fst ids') ev']"
    "since_last 0 b = since_last 0 (t' @ rows) + 1" "events_since interval b = events_since interval (t' @ rows) + 1"
    "t'' = b @ [audit_row_of lib b (snd ids')
      (checkpoint_event lib s' (ar_event_hash (List.last b)) (events_since interval b) (snd wall'))]"
    using record_checkpoint [OF assms(6,7,9)] by metis
  have i: "0 < sint interval" using assms(4) by linarith
  have "length a < 2 ^ 64" "length b < 2 ^ 64" using assms(10) by (simp_all add: a b(1,4))
  then have le: "events_since interval a < 2 ^ 64" "events_since interval b < 2 ^ 64"
    using events_since_le [OF i, of a] events_since_le [OF i, of b] by (simp_all add: zless_nat_eq_int_zless)
  have "events_since interval a = int (since_last 0 a)"
    by (rule verified_last_checkpoint [OF assms(3) [unfolded verify_chain_def a(3)] assms(11)])
      (use a le in simp_all)
  moreover have "int (since_last 0 a) < sint interval" using assms(4) by (simp add: a(3))
  ultimately have "events_since interval t' < 0" by (simp add: a(3) events_since_snoc)
  moreover have "since_last 0 t' = 0" by (simp add: a(3) since_last_snoc)
  moreover have "events_since interval b = int (since_last 0 b)"
    by (rule verified_last_checkpoint [OF v [unfolded b(4)] assms(11)]) (use b le in simp_all)
  ultimately show False
    using no_checkpoint_rows [OF assms(5), of 0 t'] no_checkpoint_rows(2) [OF assms(5), of interval t'] b(2,3) by simp
qed

text \<open>An example with interval 2: two events and a checkpoint, one event and, an hour later, an early
  checkpoint, two more events; the next event completes the interval as the writer counts it.\<close>

abbreviation hour :: int where
  "hour \<equiv> 3600000000000"

lemma is_checkpoint_id [simp]: "checkpoint_type \<noteq> ''x''" "''x'' \<noteq> checkpoint_type"
  by (simp_all add: checkpoint_type_def)

text \<open>What the writer looks at: identifiers, which rows are checkpoints, and their times.\<close>

definition log_view :: "audit_row list \<Rightarrow> (string \<times> bool \<times> timestamp option) list" where
  "log_view t = map (\<lambda>r. (ar_id r, is_checkpoint r, x_parse_rfc3339 coded_lib (ar_created_at r))) t"

definition view_due :: "timestamp \<Rightarrow> (string \<times> bool \<times> timestamp option) list \<Rightarrow> bool" where
  "view_due now v \<longleftrightarrow>
     int (length (filter (\<lambda>(i, c, s). \<not> c) v)) - int (length (filter (\<lambda>(i, c, s). c) v)) * 2 \<ge> 2
     \<or> (case rev (filter (\<lambda>(i, c, s). c) v) of (_, _, Some s) # _ \<Rightarrow> num_minutes (now - s) \<ge> 60 | _ \<Rightarrow> False)"

lemma log_view_filter:
  "length (filter is_checkpoint t) = length (filter (\<lambda>(i, c, s). c) (log_view t))"
  "length (filter (\<lambda>r. \<not> is_checkpoint r) t) = length (filter (\<lambda>(i, c, s). \<not> c) (log_view t))"
  by (induction t) (auto simp: log_view_def)

lemma time_triggered_view:
  "time_triggered coded_lib now t \<longleftrightarrow>
   (case rev (filter (\<lambda>(i, c, s). c) (log_view t)) of (_, _, Some s) # _ \<Rightarrow> num_minutes (now - s) \<ge> 60 | _ \<Rightarrow> False)"
proof -
  have "filter (\<lambda>(i, c, s). c) (log_view t) =
      map (\<lambda>r. (ar_id r, is_checkpoint r, x_parse_rfc3339 coded_lib (ar_created_at r))) (filter is_checkpoint t)"
    by (induction t) (auto simp: log_view_def)
  then show ?thesis
    by (cases "rev (filter is_checkpoint t)") (auto simp: time_triggered_def rev_map split: option.splits)
qed

lemma log_view_snoc:
  "0 \<le> now \<Longrightarrow> log_view (t @ [audit_row_of coded_lib t i (plain_event ''x'' now)]) = log_view t @ [(i, False, Some now)]"
  "0 \<le> now \<Longrightarrow> log_view (t @ [audit_row_of coded_lib t i (checkpoint_event coded_lib s h n now)])
     = log_view t @ [(i, True, Some now)]"
  by (simp_all add: log_view_def) (simp add: checkpoint_event_def)

lemma record_view:
  assumes "0 \<le> now" and "i \<notin> fst ` set (log_view t)" and "j \<notin> fst ` set (log_view t)" and "i \<noteq> j"
  shows "\<exists>t'. record_audit coded_lib (Some sign_all) 2 (i, j) (now, now) (plain_event ''x'' now) t = Inr t'
    \<and> log_view t' = (let v = log_view t @ [(i, False, Some now)] in if view_due now v then v @ [(j, True, Some now)] else v)"
proof -
  define t1 where "t1 = t @ [audit_row_of coded_lib t i (plain_event ''x'' now)]"
  have ids: "i \<notin> ar_id ` set t" "j \<notin> ar_id ` set t"
    using assms(2,3) by (auto simp: log_view_def image_iff)
  have "(events_since 2 t1 \<ge> sint (2 :: u64) \<or> time_triggered coded_lib now t1) \<longleftrightarrow> view_due now (log_view t1)"
    by (simp add: events_since_def log_view_filter time_triggered_view view_due_def)
  moreover have v1: "log_view t1 = log_view t @ [(i, False, Some now)]"
    using log_view_snoc(1) assms(1) by (simp add: t1_def)
  moreover have "head_hash t1 = Some (ar_event_hash (List.last t1))" by (simp add: head_hash_def t1_def)
  ultimately show ?thesis
    using ids assms(1,4) log_view_snoc(2) [of now t1 j]
    by (auto simp: record_audit_def insert_audit_event_def list_ex_iff t1_def [symmetric] Let_def res_simps)
      (auto simp: t1_def)
qed

abbreviation tick :: "string \<Rightarrow> timestamp \<Rightarrow> audit_row list \<Rightarrow> audit_row list app_result" where
  "tick i now t \<equiv>
     record_audit coded_lib (Some sign_all) 2 (i, i @ ''c'') (now, now) (plain_event ''x'' now) t"

fun view_since :: "nat \<Rightarrow> (string \<times> bool \<times> timestamp option) list \<Rightarrow> nat" where
  "view_since n [] = n"
| "view_since n ((i, c, s) # v) = view_since (if c then 0 else n + 1) v"

lemma since_last_view: "since_last n t = view_since n (log_view t)"
  by (induction t arbitrary: n) (simp_all add: log_view_def)

lemma log_view_butlast: "log_view (butlast t) = butlast (log_view t)"
  by (simp add: log_view_def map_butlast)

lemma length_log_view: "length t = length (log_view t)"
  by (simp add: log_view_def)

lemma log_view_Nil [simp]: "log_view [] = []"
  by (simp add: log_view_def)

text \<open>A step of the example keeps the log verifying as long as the counter is right.\<close>

lemma tick_verified:
  assumes "tick i now t = Inr t'" and "verified (verify_chain coded_lib None [] t)" and "boundary_hash t = None"
    and "0 \<le> now" and "length (log_view t) < 100"
    and "events_since 2 t + 1 = int (since_last 0 t + 1)"
  shows "verified (verify_chain coded_lib None [] t') \<and> boundary_hash t' = None"
proof
  show "verified (verify_chain coded_lib None [] t')"
    by (rule record_audit_verified [OF assms(2,3,1)])
      (use assms(5,6) in \<open>simp_all add: length_log_view [symmetric] events_since_snoc since_last_snoc\<close>)
  show "boundary_hash t' = None"
    using record_audit_Inr [OF assms(1)] assms(3)
    by (auto simp: Let_def boundary_hash_def head_hash_def hd_append split: if_splits)
qed

lemma tick_rows:
  assumes "tick i now t = Inr t'" and "length t' = length t + 1"
  shows "\<exists>r. t' = t @ [r] \<and> \<not> is_checkpoint r"
  using record_audit_Inr [OF assms(1)] assms(2) by (auto simp: Let_def)

lemma early_log_run:
  "\<exists>b c. tick ''3'' hour b = Inr c \<and> verified (verify_chain coded_lib None [] c)
     \<and> log_view b = [(''1'', False, Some 0), (''2'', False, Some 0), (''2c'', True, Some 0)]
     \<and> log_view c = log_view b @ [(''3'', False, Some hour), (''3c'', True, Some hour)]"
proof -
  obtain a where a: "tick ''1'' 0 [] = Inr a" "log_view a = [(''1'', False, Some 0)]"
    using record_view [of 0 "''1''" "[]" "''1c''"] by (auto simp: view_due_def)
  obtain b where b: "tick ''2'' 0 a = Inr b"
    "log_view b = [(''1'', False, Some 0), (''2'', False, Some 0), (''2c'', True, Some 0)]"
    using record_view [of 0 "''2''" a "''2c''"] by (auto simp: a view_due_def)
  obtain c where c: "tick ''3'' hour b = Inr c"
    "log_view c = log_view b @ [(''3'', False, Some hour), (''3c'', True, Some hour)]"
    using record_view [of hour "''3''" b "''3c''"] by (auto simp: b view_due_def num_minutes_def)
  note view = events_since_def log_view_filter since_last_view
  have "verified (verify_chain coded_lib None [] a) \<and> boundary_hash a = None"
    by (rule tick_verified [OF a(1)]) (simp_all add: view verify_chain_def boundary_hash_def)
  then have "verified (verify_chain coded_lib None [] b) \<and> boundary_hash b = None"
    by (intro tick_verified [OF b(1)]) (simp_all add: view a(2))
  then have "verified (verify_chain coded_lib None [] c) \<and> boundary_hash c = None"
    by (intro tick_verified [OF c(1)]) (simp_all add: view b(2))
  with b c show ?thesis by blast
qed

theorem early_checkpoint_breaks_log_witness:
  "\<exists>t t' d e t''. tick ''3'' hour t = Inr t' \<and> verified (verify_chain coded_lib None [] t')
     \<and> tick ''4'' hour t' = Inr d \<and> tick ''5'' hour d = Inr e \<and> tick ''6'' hour e = Inr t''
     \<and> \<not> verified (verify_chain coded_lib None [] (t'' @ []))"
proof -
  obtain b c where c: "tick ''3'' hour b = Inr c" "verified (verify_chain coded_lib None [] c)"
     "log_view b = [(''1'', False, Some 0), (''2'', False, Some 0), (''2c'', True, Some 0)]"
     "log_view c = log_view b @ [(''3'', False, Some hour), (''3c'', True, Some hour)]"
    using early_log_run by (elim exE conjE)
  obtain d where d: "tick ''4'' hour c = Inr d" "log_view d = log_view c @ [(''4'', False, Some hour)]"
    using record_view [of hour "''4''" c "''4c''"] by (auto simp: c view_due_def num_minutes_def)
  obtain e where e: "tick ''5'' hour d = Inr e" "log_view e = log_view d @ [(''5'', False, Some hour)]"
    using record_view [of hour "''5''" d "''5c''"] by (auto simp: c d view_due_def num_minutes_def)
  obtain f where f: "tick ''6'' hour e = Inr f"
    "log_view f = log_view e @ [(''6'', False, Some hour), (''6c'', True, Some hour)]"
    using record_view [of hour "''6''" e "''6c''"] by (auto simp: c d e view_due_def num_minutes_def)
  obtain rows where rows: "e = c @ rows" "\<forall>r \<in> set rows. \<not> is_checkpoint r"
    using tick_rows [OF d(1)] tick_rows [OF e(1)] d(2) e(2) by (auto simp: length_log_view)
  have "\<not> verified (verify_chain coded_lib None [] (f @ []))"
  proof (rule early_checkpoint_breaks_log [OF c(1) _ c(2) _ rows(2)])
    show "tick ''6'' hour (c @ rows) = Inr f" using f(1) by (simp only: rows(1))
  qed (simp_all add: length_log_view c d e f since_last_view log_view_butlast flip: rows(1) del: length_append)
  with c(1,2) d(1) e(1) f(1) show ?thesis by blast
qed

subsection \<open>Tamper evidence\<close>

fun v2_chain :: "lib \<Rightarrow> string option \<Rightarrow> audit_row list \<Rightarrow> bool" where
  "v2_chain lib prev [] = True"
| "v2_chain lib prev (r # rs) =
     (ar_prev_hash r = prev \<and> v2_hash lib r = ar_event_hash r \<and> v2_chain lib (Some (ar_event_hash r)) rs)"

lemma v2_chain_snoc:
  "v2_chain lib prev (rs @ [r]) \<longleftrightarrow> v2_chain lib prev rs
   \<and> ar_prev_hash r = (if rs = [] then prev else head_hash rs) \<and> v2_hash lib r = ar_event_hash r"
  by (induction rs arbitrary: prev) (auto simp: head_hash_def)

lemma verified_v2_chain:
  assumes "verified (verify_loop lib vf ps t n prev c first rs)" and "\<forall>r \<in> set rs. ar_chain_version r = 2"
    and "first \<Longrightarrow> rs \<noteq> [] \<Longrightarrow> ar_prev_hash (hd rs) = prev"
  shows "v2_chain lib prev rs"
  using assms
  by (induction rs arbitrary: n prev c first) (auto simp: verified_Cons row_hash_def split: if_splits)

text \<open>A row with the columns that can be absent filled in, and without the row number, which is not
  hashed. Every other column of the table is left as it is.\<close>

definition normal_row :: "audit_row \<Rightarrow> audit_row" where
  "normal_row r = r\<lparr> ar_rowid := 0,
     ar_resource_type := Some (or_empty (ar_resource_type r)), ar_resource_id := Some (or_empty (ar_resource_id r)),
     ar_peer_ip := Some (or_empty (ar_peer_ip r)), ar_client_ip := Some (or_empty (ar_client_ip r)),
     ar_client_ip_source := Some (or_empty (ar_client_ip_source r)),
     ar_request_id := Some (or_empty (ar_request_id r)), ar_operation := Some (or_empty (ar_operation r)),
     ar_database_name := Some (or_empty (ar_database_name r)), ar_environment := Some (or_empty (ar_environment r)),
     ar_reason := Some (or_empty (ar_reason r)), ar_detail_fingerprint := Some (or_empty (ar_detail_fingerprint r)),
     ar_detail_raw := Some (or_empty (ar_detail_raw r)) \<rparr>"

lemma normal_row_fields:
  assumes "v2_fields x = v2_fields y" and "ar_prev_hash x = ar_prev_hash y"
    and "ar_event_hash x = ar_event_hash y" and "ar_chain_version x = ar_chain_version y"
  shows "normal_row x = normal_row y"
  using assms by (cases x; cases y) (simp add: v2_fields_def normal_row_def)

lemma v2_chain_head_unique:
  assumes "v2_chain lib None xs" and "v2_chain lib None ys" and "head_hash xs = head_hash ys"
    and "inj_on (x_sha256_hex lib) ((\<lambda>r. encode_fields (v2_fields r)) ` (set xs \<union> set ys))"
    and "\<forall>r \<in> set xs \<union> set ys. ar_chain_version r = 2"
    and "\<And>s. x_sha256_hex lib s \<noteq> []"
  shows "map normal_row xs = map normal_row ys"
  using assms(1-5)
proof (induction xs arbitrary: ys rule: rev_induct)
  case Nil
  then show ?case by (simp add: head_hash_def split: if_splits)
next
  case (snoc x xs)
  obtain ys' y where ys: "ys = ys' @ [y]"
    using snoc.prems(3) by (cases ys rule: rev_cases) (auto simp: head_hash_def)
  have cx: "v2_chain lib None xs" "ar_prev_hash x = head_hash xs" "v2_hash lib x = ar_event_hash x"
    and cy: "v2_chain lib None ys'" "ar_prev_hash y = head_hash ys'" "v2_hash lib y = ar_event_hash y"
    using snoc.prems(1,2) by (auto simp: ys v2_chain_snoc head_hash_def split: if_splits)
  have "v2_hash lib x = v2_hash lib y"
    using snoc.prems(3) cx(3) cy(3) by (simp add: ys head_hash_def)
  then have "encode_fields (v2_fields x) = encode_fields (v2_fields y)"
    unfolding v2_hash_def by (rule inj_onD [OF snoc.prems(4)]) (simp_all add: ys)
  then have f: "v2_fields x = v2_fields y"
    by (rule encode_fields_inject [rotated]) (simp add: length_v2_fields)
  then have "or_empty (head_hash xs) = or_empty (head_hash ys')"
    using cx(2) cy(2) by (simp add: v2_fields_def)
  moreover have "head_hash zs \<noteq> Some []" if "v2_chain lib None zs" for zs
    using that assms(6) by (cases zs rule: rev_cases) (auto simp: head_hash_def v2_chain_snoc v2_hash_def)
  ultimately have "head_hash xs = head_hash ys'"
    using cx(1) cy(1) by (auto simp: or_empty_def split: option.splits)
  moreover have "inj_on (x_sha256_hex lib) ((\<lambda>r. encode_fields (v2_fields r)) ` (set xs \<union> set ys'))"
    using snoc.prems(4) by (rule inj_on_subset) (auto simp: ys)
  moreover have "normal_row x = normal_row y"
    using f calculation(1) cx(2,3) cy(2,3) snoc.prems(3,5)
    by (intro normal_row_fields) (auto simp: ys head_hash_def)
  ultimately show ?case using snoc.IH cx(1) cy(1) snoc.prems(5) by (simp add: ys)
qed


text \<open>Two logs that differ, in their row numbers and in an absent reason that became an empty one.\<close>

definition renumbered_log :: "audit_row list" where
  "renumbered_log = map (\<lambda>r. r\<lparr> ar_rowid := ar_rowid r + 5, ar_reason := Some [] \<rparr>) first_log"

lemma first_log_verified: "verified (verify_chain coded_lib None [] first_log)"
  by (simp add: first_log_def verify_chain_def verified_Cons Let_def first_row_ok_def head_hash_def row_hash_audit_row_of
      check_checkpoint_def checkpoint_event_def or_empty_def signature_ok_def checkpoint_type_def)

lemma first_log_reason: "\<forall>r \<in> set first_log. ar_reason r = None"
  by (simp add: first_log_def audit_row_of_def checkpoint_event_def plain_event_def audit_event_simple_def Let_def)

lemma check_checkpoint_renumbered:
  "check_checkpoint lib vf n (r\<lparr> ar_rowid := i, ar_reason := x \<rparr>) = check_checkpoint lib vf n r"
  by (cases "x_json_read lib (ar_metadata_json r)") (simp_all add: check_checkpoint_def Let_def)

lemma row_hash_renumbered:
  "ar_reason r = None \<Longrightarrow> row_hash lib (r\<lparr> ar_rowid := i, ar_reason := Some [] \<rparr>) = row_hash lib r"
  by (simp add: row_hash_def v1_hash_def v2_hash_def v2_fields_def or_empty_def)

lemma verified_renumbered:
  assumes "verified (verify_loop lib vf ps t n prev c first rs)" and "\<forall>r \<in> set rs. ar_reason r = None"
    and "first \<Longrightarrow> rs \<noteq> [] \<Longrightarrow> ar_prev_hash (hd rs) = None"
  shows "verified (verify_loop lib vf ps u n prev c first
      (map (\<lambda>r. r\<lparr> ar_rowid := ar_rowid r + 5, ar_reason := Some [] \<rparr>) rs))"
  using assms
  by (induction rs arbitrary: n prev c first)
    (auto simp: verified_Cons check_checkpoint_renumbered row_hash_renumbered first_row_ok_def is_checkpoint_def)

lemma renumbered_log_verified: "verified (verify_chain coded_lib None [] renumbered_log)"
  unfolding verify_chain_def renumbered_log_def
  by (rule verified_renumbered [OF first_log_verified [unfolded verify_chain_def] first_log_reason])
    (simp add: first_log_def head_hash_def Let_def)


end
