(* ===== verification/Authorizer.thy ===== *)
theory Authorizer
  imports Workflow_Engine
begin

text \<open>
  Authorization: the \<open>Authorizer\<close> port (\<open>crates/dbward-app/src/ports/authorizer.rs\<close>) with its
  provided method, and the role-based implementation
  (\<open>crates/dbward-infra/src/auth/rbac_authorizer.rs\<close>). The port is a locale: what the use cases
  rely on is assumed there, proved for the implementation by the interpretation \<open>rbac\<close>.
\<close>

subsection \<open>The role-based authorizer\<close>

definition denied :: "permission \<Rightarrow> string \<Rightarrow> authz_error" where
  "denied perm reason = AzForbidden perm reason"

definition denied_approval :: "string \<Rightarrow> authz_error" where
  "denied_approval reason = AzApprovalDenied reason"

definition authorize_global :: "auth_user \<Rightarrow> permission \<Rightarrow> authz_error + unit" where
  "authorize_global user perm =
     (if au_subject_type user = SubjAgent \<and> perm \<noteq> AgentOperate
      then Inl (AzForbidden perm ''agent tokens are restricted to agent.operate'')
      else if has_permission user perm then Inr ()
      else if perm = UserRead \<and> has_permission user UserWrite then Inr ()
      else Inl (AzForbidden perm (''user '' @ quoted (au_subject_id user) @ '' lacks permission '' @
        quoted (permission_as_str perm))))"

definition any_selector_matches :: "auth_user \<Rightarrow> string list \<Rightarrow> bool" where
  "any_selector_matches user access_selectors =
     list_ex (\<lambda>sel_str. case selector_parse sel_str of
         Inr sel \<Rightarrow> selector_matches sel (role_names user) (au_groups user) (au_subject_id user) False
       | Inl _ \<Rightarrow> False) access_selectors"

definition check_context ::
  "auth_user \<Rightarrow> permission \<Rightarrow> database_name \<Rightarrow> environment \<Rightarrow> resource_context \<Rightarrow> authz_error + unit" where
  "check_context user perm db env ctx =
     (case ctx of
        CtxGlobal \<Rightarrow> Inr ()
      | CtxRequestView requester_id is_pending_approver has_approved \<Rightarrow>
          if au_subject_id user = requester_id then Inr ()
          else if is_pending_approver then Inr ()
          else if has_approved then Inr ()
          else if effective_ownership user perm db env = AnyOwner then Inr ()
          else Inl (denied perm ''no access to this request'')
      | CtxRequestMutate requester_id \<Rightarrow>
          if au_subject_id user = requester_id then Inr ()
          else if effective_ownership user perm db env = AnyOwner then Inr ()
          else Inl (denied perm ''not the requester'')
      | CtxApprovalStep _ _ _ _ _ _ \<Rightarrow>
          Inl (denied perm ''ApprovalStep context must use authorize_approval()'')
      | CtxAgentExecution agent_id \<Rightarrow>
          if au_subject_id user = agent_id then Inr ()
          else Inl (denied perm ''agent_id mismatch'')
      | CtxResult requester_id access_selectors \<Rightarrow>
          if au_subject_id user = requester_id then Inr ()
          else if any_selector_matches user access_selectors then Inr ()
          else if effective_ownership user perm db env = AnyOwner then Inr ()
          else Inl (denied perm ''no access to this result'')
      | CtxAuditQuery _ \<Rightarrow> Inr ()
      | CtxToken owner_id \<Rightarrow>
          if au_subject_id user = owner_id then Inr ()
          else if effective_ownership user perm db env = AnyOwner then Inr ()
          else Inl (denied perm ''not the token owner'')
      | CtxUser target_id \<Rightarrow>
          if target_id = au_subject_id user then Inr () else Inr ())"

definition self_read :: "auth_user \<Rightarrow> permission \<Rightarrow> resource_context \<Rightarrow> bool" where
  "self_read user perm ctx \<longleftrightarrow> perm = UserRead \<and> ctx = CtxUser (au_subject_id user)"

definition authorize_scoped ::
  "auth_user \<Rightarrow> permission \<Rightarrow> database_name \<Rightarrow> environment \<Rightarrow> resource_context \<Rightarrow> authz_error + unit" where
  "authorize_scoped user perm db env ctx =
     (if au_subject_type user = SubjAgent \<and> perm \<noteq> AgentOperate
      then Inl (AzForbidden perm ''agent tokens are restricted to agent.operate'')
      else if \<not> self_read user perm ctx \<and> \<not> has_scoped_permission user perm db env
      then Inl (AzScopeDenied (db_str db) (env_str env))
      else check_context user perm db env ctx)"

definition authorize_approval ::
  "auth_user \<Rightarrow> database_name \<Rightarrow> environment \<Rightarrow> resource_context \<Rightarrow> authz_error + unit" where
  "authorize_approval user db env ctx =
     (if au_subject_type user = SubjAgent
      then Inl (AzApprovalDenied ''agent tokens cannot approve'')
      else case ctx of
          CtxApprovalStep requester_id step_index approvers self same previous \<Rightarrow>
            if is_approvable_by user approvers requester_id previous self same then Inr ()
            else Inl (denied_approval ''not an eligible approver for this step'')
        | _ \<Rightarrow> Inl (denied_approval ''authorize_approval called with non-ApprovalStep context''))"

text \<open>The provided method of the port, in terms of the required one.\<close>

definition filter_accessible ::
  "(auth_user \<Rightarrow> permission \<Rightarrow> database_name \<Rightarrow> environment \<Rightarrow> resource_context \<Rightarrow> authz_error + unit)
   \<Rightarrow> auth_user \<Rightarrow> (database_name \<times> environment) list \<Rightarrow> (database_name \<times> environment) list" where
  "filter_accessible az_scoped user pairs =
     filter (\<lambda>(db, env). az_scoped user RequestQuery db env CtxGlobal = Inr ()
        \<or> az_scoped user RequestDml db env CtxGlobal = Inr ()) pairs"

subsection \<open>The port as an interface\<close>

locale authorizer =
  fixes az_global :: "auth_user \<Rightarrow> permission \<Rightarrow> authz_error + unit"
    and az_scoped :: "auth_user \<Rightarrow> permission \<Rightarrow> database_name \<Rightarrow> environment \<Rightarrow> resource_context \<Rightarrow> authz_error + unit"
    and az_approval :: "auth_user \<Rightarrow> database_name \<Rightarrow> environment \<Rightarrow> resource_context \<Rightarrow> authz_error + unit"
  assumes agents_only_operate:
      "au_subject_type u = SubjAgent \<Longrightarrow> p \<noteq> AgentOperate \<Longrightarrow> az_scoped u p db env c \<noteq> Inr ()"
    and scoped_gate: "az_scoped u p db env c = Inr () \<Longrightarrow> \<not> self_read u p c \<Longrightarrow> has_scoped_permission u p db env"
    and mutate_gate: "az_scoped u p db env (CtxRequestMutate r) = Inr () \<Longrightarrow>
      au_subject_id u = r \<or> effective_ownership u p db env = AnyOwner"
    and agent_gate: "az_scoped u p db env (CtxAgentExecution a) = Inr () \<Longrightarrow> au_subject_id u = a"
    and global_gate: "az_global u p = Inr () \<Longrightarrow> has_permission u p \<or> p = UserRead"
    and approval_gate: "az_approval u db env c = Inr () \<Longrightarrow> au_subject_type u = SubjUser
      \<and> (\<exists>r i ags self same prev. c = CtxApprovalStep r i ags self same prev \<and> is_approvable_by u ags r prev self same)"
begin

lemma filter_accessible_gate:
  assumes "(db, env) \<in> set (filter_accessible az_scoped u pairs)"
  shows "(db, env) \<in> set pairs \<and> au_subject_type u = SubjUser
    \<and> (has_scoped_permission u RequestQuery db env \<or> has_scoped_permission u RequestDml db env)"
proof -
  obtain p where p: "p \<in> {RequestQuery, RequestDml}" "az_scoped u p db env CtxGlobal = Inr ()"
    using assms by (auto simp: filter_accessible_def)
  then have "has_scoped_permission u p db env"
    by (intro scoped_gate) (auto simp: self_read_def)
  moreover have "au_subject_type u = SubjUser"
    using p agents_only_operate [of u p db env CtxGlobal] by (cases "au_subject_type u") auto
  ultimately show ?thesis using assms p(1) by (auto simp: filter_accessible_def)
qed

lemma user_approval:
  assumes "az_approval u db env (CtxApprovalStep r i ags self same prev) = Inr ()"
  shows "au_subject_type u = SubjUser
    \<and> matched_selectors_by_attrs (role_names u) (au_groups u) (au_subject_id u) ags \<noteq> []
    \<and> (\<not> self \<longrightarrow> au_subject_id u \<noteq> r) \<and> (\<not> same \<longrightarrow> au_subject_id u \<notin> set prev)"
proof -
  have "is_approvable_by u ags r prev self same" "au_subject_type u = SubjUser"
    using approval_gate [OF assms] by auto
  then show ?thesis
    by (auto simp: is_approvable_by_def is_approvable_by_attrs_inner_def matched_selectors_ne role_names_def
        split: if_splits)
qed

end

lemma authorize_scoped_ok:
  "authorize_scoped u p db env c = Inr () \<longleftrightarrow>
   \<not> (au_subject_type u = SubjAgent \<and> p \<noteq> AgentOperate)
   \<and> (self_read u p c \<or> has_scoped_permission u p db env) \<and> check_context u p db env c = Inr ()"
  by (auto simp: authorize_scoped_def)

interpretation rbac: authorizer authorize_global authorize_scoped authorize_approval
proof
  fix u p db env c r a
  show "au_subject_type u = SubjAgent \<Longrightarrow> p \<noteq> AgentOperate \<Longrightarrow> authorize_scoped u p db env c \<noteq> Inr ()"
    by (simp add: authorize_scoped_def)
  show "authorize_scoped u p db env c = Inr () \<Longrightarrow> \<not> self_read u p c \<Longrightarrow> has_scoped_permission u p db env"
    by (simp add: authorize_scoped_ok)
  show "authorize_scoped u p db env (CtxRequestMutate r) = Inr () \<Longrightarrow>
      au_subject_id u = r \<or> effective_ownership u p db env = AnyOwner"
    by (auto simp: authorize_scoped_ok check_context_def split: if_splits)
  show "authorize_scoped u p db env (CtxAgentExecution a) = Inr () \<Longrightarrow> au_subject_id u = a"
    by (auto simp: authorize_scoped_ok check_context_def split: if_splits)
  show "authorize_global u p = Inr () \<Longrightarrow> has_permission u p \<or> p = UserRead"
    by (auto simp: authorize_global_def split: if_splits)
  show "authorize_approval u db env c = Inr () \<Longrightarrow> au_subject_type u = SubjUser
      \<and> (\<exists>r i ags self same prev. c = CtxApprovalStep r i ags self same prev \<and> is_approvable_by u ags r prev self same)"
    by (cases "au_subject_type u") (auto simp: authorize_approval_def split: resource_context.splits if_splits)
qed

text \<open>Changing a request (cancel, resume) is allowed exactly to principals that hold the
  permission for the request's database and environment through one of their roles and are
  either the requester or hold it with scope any; an agent token is never enough.\<close>

theorem request_mutation_authorized_iff:
  "authorize_scoped u p db env (CtxRequestMutate requester) = Inr () \<longleftrightarrow>
   (au_subject_type u = SubjUser \<or> p = AgentOperate)
   \<and> (\<exists>r \<in> set (au_roles u). role_allows r p db env)
   \<and> (au_subject_id u = requester
      \<or> (\<exists>r \<in> set (au_roles u). role_allows r p db env \<and> ownership_of r p = AnyOwner))"
proof -
  have "\<not> (au_subject_type u = SubjAgent \<and> p \<noteq> AgentOperate) \<longleftrightarrow> au_subject_type u = SubjUser \<or> p = AgentOperate"
    by (cases "au_subject_type u") auto
  then show ?thesis
    by (auto simp: authorize_scoped_ok check_context_def self_read_def has_scoped_permission_def list_ex_iff
        effective_ownership_Any split: if_splits)
qed

text \<open>Granting an approval needs a user token and eligibility: the principal matches an approver
  selector of the step, is not the requester unless the workflow allows it, and approved no
  earlier step unless the workflow allows that.\<close>

theorem approval_authorization_sound:
  assumes "authorize_approval u db env (CtxApprovalStep requester i ags self same prev) = Inr ()"
  shows "au_subject_type u = SubjUser
    \<and> (\<exists>ag \<in> set ags. selector_matches (ag_selector ag) (role_names u) (au_groups u) (au_subject_id u) False)
    \<and> (\<not> self \<longrightarrow> au_subject_id u \<noteq> requester) \<and> (\<not> same \<longrightarrow> au_subject_id u \<notin> set prev)"
  using rbac.user_approval [OF assms] by (auto simp: matched_selectors_ne list_ex_iff)

definition dba_user :: auth_user where
  "dba_user =
     \<lparr> au_subject_id = ''bob'', au_subject_type = SubjUser,
       au_roles = [\<lparr> rr_name = ''dba'', rr_permissions = Map.empty, rr_databases = [], rr_environments = [] \<rparr>],
       au_groups = [], au_token_id = None \<rparr>"

theorem approval_authorization_sound_witness:
  "au_subject_type dba_user = SubjUser
   \<and> (\<exists>ag \<in> set [\<lparr> ag_selector = Role ''dba'', ag_min = 1 \<rparr>].
        selector_matches (ag_selector ag) (role_names dba_user) (au_groups dba_user) (au_subject_id dba_user) False)
   \<and> (\<not> False \<longrightarrow> au_subject_id dba_user \<noteq> ''ann'') \<and> (\<not> False \<longrightarrow> au_subject_id dba_user \<notin> set [])"
  by (rule approval_authorization_sound [where db = db_wildcard and env = env_wildcard and i = 0])
    (simp add: authorize_approval_def is_approvable_by_def is_approvable_by_attrs_inner_def dba_user_def)

end
