(* ===== verification/Store.thy ===== *)
theory Store
  imports Audit_Chain Authorizer
begin

text \<open>
  The embedded store: the tables of \<open>crates/dbward-infra/src/sqlite/schema.rs\<close> that the request
  lifecycle uses, the operations of the transaction scope and of the repositories
  (\<open>sqlite/unit_of_work.rs\<close>, \<open>sqlite/request_repo\<close>, \<open>sqlite/agent_repo.rs\<close>) with their
  constraints, and the unit of work that runs a transaction body atomically. Rows are the
  typed entities: the status and time columns are their printed forms, which read back
  (\<open>parse_status_as_str\<close>) and sort as the values do. The lemmas show that every operation keeps
  the keys, foreign keys and unique indexes, and that the guarded updates implement the status
  machine.
\<close>

subsection \<open>Tables and transactions\<close>

record store =
  st_databases :: "string list"
  st_requests :: "request list"
  st_approvals :: "approval list"
  st_pending :: "(string \<times> string \<times> u32) list"
  st_executions :: "execution list"
  st_results :: "execution_result list"
  st_access :: "result_access list"
  st_audit :: "audit_row list"

text \<open>A transaction body: the closure over a \<open>TxScope\<close>. \<open>thenT\<close> sequences two of them, \<open>liftT\<close>
  embeds a pure result, \<open>checkT\<close> an early return.\<close>

type_synonym ('s, 'a) txn = "'s \<Rightarrow> app_error + ('a \<times> 's)"

type_synonym 'a tx = "(store, 'a) txn"

definition thenT :: "('s, 'a) txn \<Rightarrow> ('a \<Rightarrow> ('s, 'b) txn) \<Rightarrow> ('s, 'b) txn" where
  "thenT m k = (\<lambda>s. tryE (m s) (\<lambda>p. k (fst p) (snd p)))"

definition doneT :: "'a \<Rightarrow> ('s, 'a) txn" where
  "doneT x = (\<lambda>s. Inr (x, s))"

definition liftT :: "'a app_result \<Rightarrow> ('s, 'a) txn" where
  "liftT r = (\<lambda>s. tryE r (\<lambda>x. Inr (x, s)))"

definition checkT :: "bool \<Rightarrow> app_error \<Rightarrow> ('s, unit) txn" where
  "checkT c e = liftT (guardE c e)"

named_theorems tx_simps \<open>inversion of transaction bodies\<close>

lemma thenT_Inr [tx_simps]:
  "thenT m k s = Inr p \<longleftrightarrow> (\<exists>x s'. m s = Inr (x, s') \<and> k x s' = Inr p)"
  by (auto simp: thenT_def res_simps)

lemma doneT_Inr [tx_simps]: "doneT x s = Inr p \<longleftrightarrow> p = (x, s)"
  by (auto simp: doneT_def)

lemma liftT_Inr [tx_simps]: "liftT r s = Inr p \<longleftrightarrow> r = Inr (fst p) \<and> s = snd p"
  by (cases p) (auto simp: liftT_def res_simps)

lemma checkT_Inr [tx_simps]: "checkT c e s = Inr p \<longleftrightarrow> c \<and> s = snd p"
  by (auto simp: checkT_def tx_simps res_simps)

lemma tx_eval [simp]:
  "doneT x s = Inr (x, s)"
  "liftT (Inl e) s = Inl e"
  "liftT (Inr x) s = Inr (x, s)"
  "checkT True e s = Inr ((), s)"
  "checkT False e s = Inl e"
  by (simp_all add: doneT_def liftT_def checkT_def)

lemma thenT_eval:
  "m s = Inr (x, s') \<Longrightarrow> thenT m k s = k x s'"
  "m s = Inl e \<Longrightarrow> thenT m k s = Inl e"
  by (simp_all add: thenT_def)

text \<open>\<open>run_in_tx\<close>: the outcomes of the three SQL commands are parameters. The state is the
  committed database; a failed rollback leaves the connection, not the database, in doubt.\<close>

record tx_faults =
  tf_begin :: "string option"
  tf_commit :: "string option"
  tf_rollback :: "string option"

definition no_faults :: tx_faults where
  "no_faults = \<lparr> tf_begin = None, tf_commit = None, tf_rollback = None \<rparr>"

definition run_in_tx :: "tx_faults \<Rightarrow> ('s, 'a) txn \<Rightarrow> 's \<Rightarrow> 'a app_result \<times> 's" where
  "run_in_tx faults f s =
     (case tf_begin faults of
        Some e \<Rightarrow> (Inl (Internal (''begin: '' @ e)), s)
      | None \<Rightarrow>
          (case f s of
             Inr (val, s') \<Rightarrow>
               (case tf_commit faults of
                  None \<Rightarrow> (Inr val, s')
                | Some e \<Rightarrow>
                    (if tf_rollback faults \<noteq> None
                     then (Inl (Internal ''commit and rollback both failed; connection may be poisoned''), s)
                     else (Inl (Internal (''commit: '' @ e)), s)))
           | Inl e \<Rightarrow> (Inl e, s)))"

text \<open>What the use cases rely on: a transaction either fails and leaves the database as it was, or
  is exactly its body.\<close>

locale unit_of_work =
  fixes run :: "tx_faults \<Rightarrow> ('s, 'a) txn \<Rightarrow> 's \<Rightarrow> 'a app_result \<times> 's"
  assumes fails: "run faults f s = (Inl e, s') \<Longrightarrow> s' = s"
    and commits: "run faults f s = (Inr x, s') \<Longrightarrow> f s = Inr (x, s')"
    and clean: "run no_faults f s = (case f s of Inr p \<Rightarrow> (Inr (fst p), snd p) | Inl e \<Rightarrow> (Inl e, s))"
begin

lemma keeps:
  assumes "P s" and "\<And>x s'. f s = Inr (x, s') \<Longrightarrow> P s'"
  shows "P (snd (run faults f s))"
proof (cases "run faults f s")
  case (Pair r s')
  then show ?thesis
    using assms fails [of faults f s] commits [of faults f s] by (cases r) auto
qed

lemma outcome:
  "snd (run faults f s) = s \<or> (\<exists>x. f s = Inr (x, snd (run faults f s)) \<and> fst (run faults f s) = Inr x)"
  using fails [of faults f s] commits [of faults f s]
  by (cases "run faults f s"; cases "fst (run faults f s)") auto

end

interpretation uow: unit_of_work run_in_tx
  by unfold_locales
    (auto simp: run_in_tx_def no_faults_def split: option.splits sum.splits if_splits)

subsection \<open>Reading\<close>

definition get_request :: "store \<Rightarrow> string \<Rightarrow> request option" where
  "get_request s i = find_row (\<lambda>r. rq_id r = i) (st_requests s)"

definition get_request_state :: "string \<Rightarrow> (request_status \<times> timestamp option) option tx" where
  "get_request_state i = (\<lambda>s.
     Inr (map_option (\<lambda>r. (rq_status r, rq_expires_at r)) (get_request s i), s))"

text \<open>\<open>ORDER BY created_at\<close>; rows of equal time keep their insertion order.\<close>

definition approvals_of :: "store \<Rightarrow> string \<Rightarrow> approval list" where
  "approvals_of s i = sort_key ap_created_at (filter (\<lambda>a. ap_request_id a = i) (st_approvals s))"

definition get_approvals :: "string \<Rightarrow> approval list tx" where
  "get_approvals i = (\<lambda>s. Inr (approvals_of s i, s))"

definition get_execution :: "store \<Rightarrow> string \<Rightarrow> execution option" where
  "get_execution s i = find_row (\<lambda>e. ex_id e = i) (st_executions s)"

definition find_by_idempotency_key :: "store \<Rightarrow> string \<Rightarrow> string \<Rightarrow> request option" where
  "find_by_idempotency_key s requester key =
     find_row (\<lambda>r. rq_idempotency_key r = Some key \<and> rq_requester r = requester) (st_requests s)"

definition count_executions :: "store \<Rightarrow> string \<Rightarrow> u32" where
  "count_executions s i = as_u32 (length (filter (\<lambda>e. ex_request_id e = i) (st_executions s)))"

definition count_completed_executions :: "store \<Rightarrow> string \<Rightarrow> u32" where
  "count_completed_executions s i =
     as_u32 (length (remdups (map ex_id (filter
       (\<lambda>e. ex_request_id e = i \<and> list_ex (\<lambda>r. er_execution_id r = ex_id e) (st_results s))
       (st_executions s)))))"

definition database_id :: "database_name \<Rightarrow> environment \<Rightarrow> string" where
  "database_id db env = db_str db @ '':'' @ env_str env"

definition parse_database_id :: "string \<Rightarrow> (database_name \<times> environment) app_result" where
  "parse_database_id i =
     tryE (ok_or (split_once CHR '':'' i) (Internal (''invalid database_id: '' @ i))) (\<lambda>(name, env).
     tryE (map_err (\<lambda>e. Internal (''invalid database name: '' @ e)) (DatabaseName_new name)) (\<lambda>db.
     tryE (map_err (\<lambda>e. Internal (''invalid environment: '' @ e)) (Environment_new env)) (\<lambda>env.
     Inr (db, env))))"

definition rq_database_id :: "request \<Rightarrow> string" where
  "rq_database_id r = database_id (rq_database r) (rq_environment r)"

text \<open>The operation column is compared as text with the three names.\<close>

definition has_running_migration :: "store \<Rightarrow> database_name \<Rightarrow> environment \<Rightarrow> string \<Rightarrow> bool" where
  "has_running_migration s db env exclude_request_id =
     list_ex (\<lambda>r. rq_status r \<in> {Dispatched, Running}
       \<and> operation_as_str (rq_operation r) \<in> {''migrate_up'', ''migrate_down'', ''migrate_repair''}
       \<and> rq_database_id r = database_id db env \<and> rq_id r \<noteq> exclude_request_id) (st_requests s)"

definition find_dispatched_jobs :: "store \<Rightarrow> (database_name \<times> environment) list \<Rightarrow> request list" where
  "find_dispatched_jobs s databases =
     (if databases = [] then []
      else filter (\<lambda>r. rq_status r = Dispatched
             \<and> rq_database_id r \<in> set (map (\<lambda>(db, env). database_id db env) databases)) (st_requests s))"

definition build_selectors :: "string \<Rightarrow> string list \<Rightarrow> string list \<Rightarrow> string list" where
  "build_selectors user_id groups rnames =
     (''user:'' @ user_id) # map (\<lambda>g. ''group:'' @ g) groups @ map (\<lambda>r. ''role:'' @ r) rnames"

definition is_pending_approver :: "store \<Rightarrow> string \<Rightarrow> string \<Rightarrow> string list \<Rightarrow> string list \<Rightarrow> bool" where
  "is_pending_approver s request_id user_id groups rnames =
     list_ex (\<lambda>(rid, sel, _). rid = request_id \<and> sel \<in> set (build_selectors user_id groups rnames)
       \<and> list_ex (\<lambda>r. rq_id r = rid \<and> rq_status r = Pending) (st_requests s)) (st_pending s)"

text \<open>\<open>datetime(a) < datetime(b)\<close> compares whole seconds.\<close>

definition datetime_less :: "timestamp \<Rightarrow> timestamp \<Rightarrow> bool" where
  "datetime_less a b \<longleftrightarrow> a div 1000000000 < b div 1000000000"

definition find_expired_leases :: "store \<Rightarrow> timestamp \<Rightarrow> (string \<times> string) list" where
  "find_expired_leases s now =
     map (\<lambda>e. (ex_id e, ex_request_id e)) (filter (\<lambda>e. ex_status e \<in> {ExClaimed, ExRunning, ExCompleting}
       \<and> datetime_less (ex_lease_expires_at e) now) (st_executions s))"

definition find_expired_pending :: "store \<Rightarrow> timestamp \<Rightarrow> string list" where
  "find_expired_pending s now =
     map rq_id (filter (\<lambda>r. rq_status r = Pending
       \<and> (case rq_expires_at r of None \<Rightarrow> False | Some t \<Rightarrow> datetime_less t now)) (st_requests s))"

text \<open>The lifetime \<open>json_extract\<close> reads from the snapshot: missing or null gives the default, text
  that is no number makes the comparison null, malformed JSON fails the query.\<close>

definition approval_ttl :: "lib \<Rightarrow> request \<Rightarrow> string + int option" where
  "approval_ttl lib r =
     (case rq_workflow_snapshot_json r of
        None \<Rightarrow> Inr (Some 86400)
      | Some js \<Rightarrow>
          (case x_json_read lib js of
             None \<Rightarrow> Inl ''malformed JSON''
           | Some v \<Rightarrow>
               (case json_index v ''approval_ttl_secs'' of
                  JNull \<Rightarrow> Inr (Some 86400) | JNum n \<Rightarrow> Inr (Some n) | _ \<Rightarrow> Inr None)))"

fun filter_expired_approved :: "lib \<Rightarrow> timestamp \<Rightarrow> request list \<Rightarrow> string + string list" where
  "filter_expired_approved lib now [] = Inr []"
| "filter_expired_approved lib now (r # rs) =
     (case (rq_status r, rq_resolved_at r) of
        (Approved, Some t) \<Rightarrow>
          tryE (approval_ttl lib r) (\<lambda>ttl. tryE (filter_expired_approved lib now rs) (\<lambda>ids.
            Inr (case ttl of
                   Some n \<Rightarrow> if datetime_less (t + seconds n) now then rq_id r # ids else ids
                 | None \<Rightarrow> ids)))
      | _ \<Rightarrow> filter_expired_approved lib now rs)"

definition find_expired_approved :: "lib \<Rightarrow> store \<Rightarrow> timestamp \<Rightarrow> string list app_result" where
  "find_expired_approved lib s now =
     map_err (\<lambda>e. Internal (''request: find_expired_approved: '' @ e))
       (filter_expired_approved lib now (st_requests s))"

definition find_dispatched_older_than :: "store \<Rightarrow> timestamp \<Rightarrow> string list" where
  "find_dispatched_older_than s cutoff =
     map rq_id (filter (\<lambda>r. rq_status r = Dispatched \<and> datetime_less (rq_updated_at r) cutoff)
       (st_requests s))"

subsection \<open>Requests\<close>

text \<open>\<open>UPDATE requests SET .. WHERE id = ? AND ..\<close>, returning whether a row was changed.\<close>

definition update_request :: "string \<Rightarrow> (request \<Rightarrow> bool) \<Rightarrow> (request \<Rightarrow> request) \<Rightarrow> bool tx" where
  "update_request i P f = (\<lambda>s.
     Inr (0 < affected (\<lambda>r. rq_id r = i \<and> P r) (st_requests s),
          s\<lparr> st_requests := upd_where (\<lambda>r. rq_id r = i \<and> P r) f (st_requests s) \<rparr>))"

definition update_status_guarded :: "string \<Rightarrow> request_status \<Rightarrow> request_status list \<Rightarrow> timestamp \<Rightarrow> bool tx" where
  "update_status_guarded i status valid_from now =
     update_request i (\<lambda>r. rq_status r \<in> set valid_from)
       (\<lambda>r. r\<lparr> rq_status := status, rq_updated_at := now \<rparr>)"

definition mark_dispatched :: "string \<Rightarrow> timestamp \<Rightarrow> bool tx" where
  "mark_dispatched i now =
     update_status_guarded i Dispatched
       [Approved, AutoApproved, BreakGlass, Executed, Failed, ExecutionLost] now"

definition not_expired :: "timestamp \<Rightarrow> request \<Rightarrow> bool" where
  "not_expired now r \<longleftrightarrow> (case rq_expires_at r of None \<Rightarrow> True | Some t \<Rightarrow> t > now)"

definition mark_approved :: "string \<Rightarrow> timestamp \<Rightarrow> bool tx" where
  "mark_approved i now =
     update_request i (\<lambda>r. rq_status r = Pending \<and> not_expired now r)
       (\<lambda>r. r\<lparr> rq_status := Approved, rq_updated_at := now, rq_resolved_at := Some now \<rparr>)"

definition mark_rejected :: "string \<Rightarrow> timestamp \<Rightarrow> bool tx" where
  "mark_rejected i now =
     update_request i (\<lambda>r. rq_status r = Pending \<and> not_expired now r)
       (\<lambda>r. r\<lparr> rq_status := Rejected, rq_updated_at := now, rq_resolved_at := Some now \<rparr>)"

definition mark_running :: "string \<Rightarrow> timestamp \<Rightarrow> bool tx" where
  "mark_running i now = update_status_guarded i Running [Dispatched] now"

definition cancellable_states :: "request_status list" where
  "cancellable_states = [Pending, Approved, Dispatched, Running, AutoApproved, BreakGlass, ExecutionLost]"

definition cancel_row :: "string \<Rightarrow> string option \<Rightarrow> timestamp \<Rightarrow> request \<Rightarrow> request" where
  "cancel_row cancelled_by reason now r =
     r\<lparr> rq_status := Cancelled, rq_cancelled_by := Some cancelled_by, rq_cancel_reason := reason,
        rq_updated_at := now, rq_resolved_at := Some now \<rparr>"

definition mark_cancelled :: "string \<Rightarrow> string \<Rightarrow> string option \<Rightarrow> timestamp \<Rightarrow> bool tx" where
  "mark_cancelled i cancelled_by reason now =
     update_request i (\<lambda>r. rq_status r \<in> set cancellable_states) (cancel_row cancelled_by reason now)"

definition mark_executed :: "string \<Rightarrow> bool \<Rightarrow> timestamp \<Rightarrow> bool tx" where
  "mark_executed i success now =
     update_request i (\<lambda>r. rq_status r \<in> {Running, ExecutionLost})
       (\<lambda>r. r\<lparr> rq_status := (if success then Executed else Failed), rq_updated_at := now,
              rq_resolved_at := Some now \<rparr>)"

definition mark_expired :: "string \<Rightarrow> timestamp \<Rightarrow> bool tx" where
  "mark_expired i now =
     update_request i (\<lambda>r. rq_status r \<in> {Pending, Approved})
       (\<lambda>r. r\<lparr> rq_status := Expired, rq_updated_at := now, rq_resolved_at := Some now \<rparr>)"

definition mark_execution_lost :: "string \<Rightarrow> timestamp \<Rightarrow> bool tx" where
  "mark_execution_lost i now =
     update_request i (\<lambda>r. rq_status r = Running)
       (\<lambda>r. r\<lparr> rq_status := ExecutionLost, rq_updated_at := now \<rparr>)"

definition mark_approved_from_dispatched :: "string \<Rightarrow> timestamp \<Rightarrow> bool tx" where
  "mark_approved_from_dispatched i now =
     update_request i (\<lambda>r. rq_status r = Dispatched)
       (\<lambda>r. r\<lparr> rq_status := Approved, rq_updated_at := now \<rparr>)"

fun cancel_each :: "string list \<Rightarrow> string \<Rightarrow> string option \<Rightarrow> timestamp \<Rightarrow> unit tx" where
  "cancel_each [] cancelled_by reason now = doneT ()"
| "cancel_each (i # is) cancelled_by reason now =
     thenT (mark_cancelled i cancelled_by reason now) (\<lambda>_. cancel_each is cancelled_by reason now)"

definition cancel_all_for_user :: "string \<Rightarrow> string \<Rightarrow> string option \<Rightarrow> timestamp \<Rightarrow> string list tx" where
  "cancel_all_for_user user_id cancelled_by reason now = (\<lambda>s.
     let ids = map rq_id (filter (\<lambda>r. rq_requester r = user_id \<and> rq_status r \<in> set cancellable_states)
                 (st_requests s))
     in thenT (cancel_each ids cancelled_by reason now) (\<lambda>_. doneT ids) s)"

text \<open>\<open>INSERT OR IGNORE\<close> of the selectors of one step, after deleting the old rows.\<close>

fun insert_or_ignore :: "'a \<Rightarrow> 'a list \<Rightarrow> 'a list" where
  "insert_or_ignore x xs = (if x \<in> set xs then xs else xs @ [x])"

definition populate_pending_approvers :: "lib \<Rightarrow> string \<Rightarrow> string option \<Rightarrow> u32 \<Rightarrow> unit tx" where
  "populate_pending_approvers lib request_id snapshot step_index = (\<lambda>s.
     let rest = filter (\<lambda>(rid, _). rid \<noteq> request_id) (st_pending s);
         sels = (case snapshot of
             None \<Rightarrow> []
           | Some js \<Rightarrow>
               (case x_workflow_read lib js of
                  None \<Rightarrow> []
                | Some w \<Rightarrow>
                    if unat step_index < length (wf_steps w)
                    then map (\<lambda>g. selector_to_string (ag_selector g)) (ws_approvers (wf_steps w ! unat step_index))
                    else []))
     in Inr ((), s\<lparr> st_pending := fold (\<lambda>sel. insert_or_ignore (request_id, sel, step_index)) sels rest \<rparr>))"

text \<open>The row with its constraints: primary key, the unique index on (requester, idempotency key),
  where NULL keys are pairwise distinct, and the reference to the database.\<close>

definition insert_request_row :: "request \<Rightarrow> store \<Rightarrow> string + store" where
  "insert_request_row req s =
     (if list_ex (\<lambda>r. rq_id r = rq_id req) (st_requests s)
      then Inl ''UNIQUE constraint failed: requests.id''
      else if rq_idempotency_key req \<noteq> None
        \<and> list_ex (\<lambda>r. rq_requester r = rq_requester req
              \<and> rq_idempotency_key r = rq_idempotency_key req) (st_requests s)
      then Inl ''UNIQUE constraint failed: requests.requester, requests.idempotency_key''
      else if rq_database_id req \<notin> set (st_databases s)
      then Inl ''FOREIGN KEY constraint failed''
      else Inr (s\<lparr> st_requests := st_requests s @ [req] \<rparr>))"

definition contains :: "string \<Rightarrow> string \<Rightarrow> bool" where
  "contains s t \<longleftrightarrow> list_ex (\<lambda>u. take (length t) u = t) (suffixes s)"

definition map_request_insert_error :: "string + store \<Rightarrow> request \<Rightarrow> string \<Rightarrow> store app_result" where
  "map_request_insert_error result req context =
     (case result of
        Inr s \<Rightarrow> Inr s
      | Inl msg \<Rightarrow>
          if rq_idempotency_key req \<noteq> None \<and> contains msg ''idempotency''
          then Inl (Conflict ''idempotency_key'')
          else Inl (Internal (context @ '': '' @ msg)))"

definition insert_request :: "lib \<Rightarrow> request \<Rightarrow> unit tx" where
  "insert_request lib req = (\<lambda>s.
     tryE (map_request_insert_error (insert_request_row req s) req ''tx: insert_request'') (\<lambda>s.
       if rq_status req = Pending
       then populate_pending_approvers lib (rq_id req) (rq_workflow_snapshot_json req) 0 s
       else Inr ((), s)))"

subsection \<open>Approvals\<close>

definition insert_approval_row :: "approval \<Rightarrow> store \<Rightarrow> string + store" where
  "insert_approval_row a s =
     (if list_ex (\<lambda>b. ap_id b = ap_id a) (st_approvals s)
      then Inl ''UNIQUE constraint failed: approvals.id''
      else if ap_action a = Approve
        \<and> list_ex (\<lambda>b. ap_action b = Approve \<and> ap_request_id b = ap_request_id a
              \<and> ap_actor_id b = ap_actor_id a \<and> ap_step_index b = ap_step_index a) (st_approvals s)
      then Inl ''UNIQUE constraint failed: approvals.request_id, approvals.actor_id, approvals.step_index''
      else if \<not> list_ex (\<lambda>r. rq_id r = ap_request_id a) (st_requests s)
      then Inl ''FOREIGN KEY constraint failed''
      else Inr (s\<lparr> st_approvals := st_approvals s @ [a] \<rparr>))"

definition current_step_of_snapshot :: "lib \<Rightarrow> string option \<Rightarrow> approval list \<Rightarrow> u32 app_result" where
  "current_step_of_snapshot lib snapshot all_approvals =
     (case snapshot of
        Some js \<Rightarrow>
          tryE (ok_or (x_workflow_read lib js)
                 (Internal (''corrupt workflow_snapshot: '' @ x_serde_error lib js))) (\<lambda>w.
            Inr (find_current_step (wf_steps w) all_approvals))
      | None \<Rightarrow> Inr 0)"

definition insert_approval :: "lib \<Rightarrow> approval \<Rightarrow> unit tx" where
  "insert_approval lib a = (\<lambda>s.
     tryE (map_err (\<lambda>e. Internal (''tx: insert_approval: '' @ e)) (insert_approval_row a s)) (\<lambda>s.
       let snapshot = Option.bind (get_request s (ap_request_id a)) rq_workflow_snapshot_json in
       tryE (current_step_of_snapshot lib snapshot (approvals_of s (ap_request_id a))) (\<lambda>step.
         populate_pending_approvers lib (ap_request_id a) snapshot step s)))"

subsection \<open>Executions, results, audit\<close>

definition update_execution :: "string \<Rightarrow> (execution \<Rightarrow> bool) \<Rightarrow> (execution \<Rightarrow> execution) \<Rightarrow> bool tx" where
  "update_execution i P f = (\<lambda>s.
     Inr (0 < affected (\<lambda>e. ex_id e = i \<and> P e) (st_executions s),
          s\<lparr> st_executions := upd_where (\<lambda>e. ex_id e = i \<and> P e) f (st_executions s) \<rparr>))"

definition insert_execution :: "execution \<Rightarrow> unit tx" where
  "insert_execution ex = (\<lambda>s.
     map_err (\<lambda>e. Internal (''tx: insert_execution: '' @ e))
       (if list_ex (\<lambda>e. ex_id e = ex_id ex) (st_executions s)
        then Inl ''UNIQUE constraint failed: executions.id''
        else if list_ex (\<lambda>e. ex_request_id e = ex_request_id ex \<and> ex_status e = ExClaimed) (st_executions s)
        then Inl ''UNIQUE constraint failed: executions.request_id''
        else if \<not> list_ex (\<lambda>r. rq_id r = ex_request_id ex) (st_requests s)
        then Inl ''FOREIGN KEY constraint failed''
        else Inr ((), s\<lparr> st_executions := st_executions s @ [ex\<lparr> ex_status := ExClaimed \<rparr>] \<rparr>)))"

definition mark_completed_from_completing :: "string \<Rightarrow> bool \<Rightarrow> timestamp \<Rightarrow> bool tx" where
  "mark_completed_from_completing i success now =
     update_execution i (\<lambda>e. ex_status e = ExCompleting)
       (\<lambda>e. e\<lparr> ex_status := (if success then ExCompleted else ExFailed), ex_finished_at := Some now \<rparr>)"

definition mark_failed_lease_expired :: "string \<Rightarrow> timestamp \<Rightarrow> bool tx" where
  "mark_failed_lease_expired i now =
     update_execution i (\<lambda>e. ex_status e \<in> {ExClaimed, ExRunning, ExCompleting})
       (\<lambda>e. e\<lparr> ex_status := ExFailed, ex_finished_at := Some now \<rparr>)"

definition extend_lease :: "string \<Rightarrow> timestamp \<Rightarrow> bool tx" where
  "extend_lease i new_expiry =
     update_execution i (\<lambda>e. ex_status e = ExClaimed) (\<lambda>e. e\<lparr> ex_lease_expires_at := new_expiry \<rparr>)"

text \<open>A late completion without a new lease is a panic in the source (\<open>expect\<close>); no caller does it.
  The statement on an execution in state failed would violate no index.\<close>

definition acquire_completing :: "string \<Rightarrow> bool \<Rightarrow> timestamp option \<Rightarrow> bool tx" where
  "acquire_completing i is_late_completion new_lease_expires_at =
     (if is_late_completion then
        case new_lease_expires_at of
          None \<Rightarrow> (\<lambda>s. Inl (Internal ''new_lease_expires_at required for late-completion''))
        | Some expiry \<Rightarrow>
            update_execution i (\<lambda>e. ex_status e = ExFailed)
              (\<lambda>e. e\<lparr> ex_status := ExCompleting, ex_lease_expires_at := expiry,
                     ex_finished_at := None, ex_error_message := None \<rparr>)
      else
        case new_lease_expires_at of
          Some expiry \<Rightarrow>
            update_execution i (\<lambda>e. ex_status e \<in> {ExClaimed, ExRunning})
              (\<lambda>e. e\<lparr> ex_status := ExCompleting, ex_lease_expires_at := expiry \<rparr>)
        | None \<Rightarrow>
            update_execution i (\<lambda>e. ex_status e \<in> {ExClaimed, ExRunning})
              (\<lambda>e. e\<lparr> ex_status := ExCompleting \<rparr>))"

text \<open>Back to the claimed state the unique index on claimed executions applies again.\<close>

definition revert_completing ::
  "string \<Rightarrow> execution_status \<Rightarrow> timestamp option \<Rightarrow> timestamp \<Rightarrow> string option \<Rightarrow> bool tx" where
  "revert_completing i target original_finished_at original_lease original_error = (\<lambda>s.
     if target = ExClaimed
       \<and> list_ex (\<lambda>e. ex_id e = i \<and> ex_status e = ExCompleting
            \<and> list_ex (\<lambda>d. ex_request_id d = ex_request_id e \<and> ex_status d = ExClaimed) (st_executions s))
            (st_executions s)
     then Inl (Internal ''agent: revert_completing: UNIQUE constraint failed: executions.request_id'')
     else update_execution i (\<lambda>e. ex_status e = ExCompleting)
       (\<lambda>e. e\<lparr> ex_status := target, ex_finished_at := original_finished_at,
              ex_lease_expires_at := original_lease, ex_error_message := original_error \<rparr>) s)"

definition insert_result :: "execution_result \<Rightarrow> unit tx" where
  "insert_result rm = (\<lambda>s.
     map_err (\<lambda>e. Internal (''tx: insert_result: '' @ e))
       (if list_ex (\<lambda>r. er_id r = er_id rm) (st_results s)
        then Inl ''UNIQUE constraint failed: results.id''
        else if \<not> list_ex (\<lambda>r. rq_id r = er_request_id rm) (st_requests s)
             \<or> \<not> list_ex (\<lambda>e. ex_id e = er_execution_id rm) (st_executions s)
        then Inl ''FOREIGN KEY constraint failed''
        else Inr ((), s\<lparr> st_results := st_results s @ [rm\<lparr> er_status := Stored \<rparr>] \<rparr>)))"

fun insert_result_access :: "result_access list \<Rightarrow> unit tx" where
  "insert_result_access [] s = Inr ((), s)"
| "insert_result_access (ra # access) s =
     (if list_ex (\<lambda>r. ra_id r = ra_id ra) (st_access s)
      then Inl (Internal ''tx: insert_result_access: UNIQUE constraint failed: result_access.id'')
      else if \<not> list_ex (\<lambda>r. er_id r = ra_result_id ra) (st_results s)
      then Inl (Internal ''tx: insert_result_access: FOREIGN KEY constraint failed'')
      else insert_result_access access (s\<lparr> st_access := st_access s @ [ra] \<rparr>))"

text \<open>\<open>record\<close> on the audit table; \<open>audit_env\<close> are the signer, the interval and what one call draws
  from the generator of identifiers and the clock.\<close>

record audit_env =
  au_signer :: "signer option"
  au_interval :: u64
  au_ids :: "string \<times> string"
  au_wall :: "timestamp \<times> timestamp"

definition record_event :: "lib \<Rightarrow> audit_env \<Rightarrow> audit_event \<Rightarrow> unit tx" where
  "record_event lib env ev = (\<lambda>s.
     tryE (record_audit lib (au_signer env) (au_interval env) (au_ids env) (au_wall env) ev (st_audit s))
       (\<lambda>t. Inr ((), s\<lparr> st_audit := t \<rparr>)))"

text \<open>\<open>purge_old_requests\<close>: finished requests last touched before the cutoff, with their children in
  the order of the foreign keys; a result kept for an execution that goes makes the deletion
  fail. The tables of dry runs, request contexts and chat messages
  are not part of the model.\<close>

definition purgeable :: "timestamp \<Rightarrow> request \<Rightarrow> bool" where
  "purgeable before r \<longleftrightarrow>
     rq_status r \<in> {Executed, Failed, Rejected, Expired, Cancelled} \<and> rq_updated_at r < before"

definition purge_old_requests :: "timestamp \<Rightarrow> u32 tx" where
  "purge_old_requests before = (\<lambda>s.
     let ids = map rq_id (filter (purgeable before) (st_requests s));
         rids = map er_id (filter (\<lambda>r. er_request_id r \<in> set ids) (st_results s))
     in if list_ex (\<lambda>r. er_request_id r \<notin> set ids
              \<and> list_ex (\<lambda>e. ex_id e = er_execution_id r \<and> ex_request_id e \<in> set ids) (st_executions s)) (st_results s)
        then Inl (Internal ''request: purge_old_requests: FOREIGN KEY constraint failed'')
        else Inr (as_u32 (affected (\<lambda>r. rq_id r \<in> set ids) (st_requests s)),
          s\<lparr> st_access := filter (\<lambda>a. ra_result_id a \<notin> set rids) (st_access s),
             st_results := filter (\<lambda>r. er_request_id r \<notin> set ids) (st_results s),
             st_executions := filter (\<lambda>e. ex_request_id e \<notin> set ids) (st_executions s),
             st_approvals := filter (\<lambda>a. ap_request_id a \<notin> set ids) (st_approvals s),
             st_pending := filter (\<lambda>(rid, _). rid \<notin> set ids) (st_pending s),
             st_requests := filter (\<lambda>r. rq_id r \<notin> set ids) (st_requests s) \<rparr>))"

end
