(* ===== verification/Store_Invariants.thy ===== *)
theory Store_Invariants
  imports Store
begin

text \<open>
  Laws of the store: the invariant made of primary keys, foreign keys and unique indexes, and
  that every operation keeps it; that the guarded updates implement the status machine; that
  transactions are atomic. \<open>keeps_inv\<close> with its introduction rules is how the use-case theories
  derive invariants of a transaction body from those of its operations.
\<close>

subsection \<open>Invariants of transaction bodies\<close>

definition keeps_inv :: "('s \<Rightarrow> bool) \<Rightarrow> ('s, 'a) txn \<Rightarrow> bool" where
  "keeps_inv P m \<longleftrightarrow> (\<forall>s x s'. P s \<longrightarrow> m s = Inr (x, s') \<longrightarrow> P s')"

named_theorems keeps_intros \<open>introduction rules for invariants of transaction bodies\<close>

lemma keeps_invI: "(\<And>s x s'. P s \<Longrightarrow> m s = Inr (x, s') \<Longrightarrow> P s') \<Longrightarrow> keeps_inv P m"
  by (auto simp: keeps_inv_def)

lemma keeps_invD: "keeps_inv P m \<Longrightarrow> P s \<Longrightarrow> m s = Inr (x, s') \<Longrightarrow> P s'"
  by (auto simp: keeps_inv_def)

lemma keeps_thenT [keeps_intros]:
  assumes "keeps_inv P m" and "\<And>x. keeps_inv P (k x)"
  shows "keeps_inv P (thenT m k)"
proof (rule keeps_invI)
  fix s y s''
  assume "P s" and "thenT m k s = Inr (y, s'')"
  then obtain x s' where "m s = Inr (x, s')" and "k x s' = Inr (y, s'')"
    by (auto simp: thenT_Inr)
  with \<open>P s\<close> show "P s''" using assms keeps_invD by metis
qed

lemma keeps_doneT [keeps_intros]: "keeps_inv P (doneT x)"
  by (auto simp: keeps_inv_def)

lemma keeps_liftT [keeps_intros]: "keeps_inv P (liftT r)"
  by (auto simp: keeps_inv_def tx_simps)

lemma keeps_checkT [keeps_intros]: "keeps_inv P (checkT c e)"
  by (auto simp: keeps_inv_def tx_simps)

lemma keeps_fail [keeps_intros]: "keeps_inv P (\<lambda>s. Inl e)"
  by (auto simp: keeps_inv_def)

lemma keeps_if [keeps_intros]:
  "keeps_inv P m \<Longrightarrow> keeps_inv P n \<Longrightarrow> keeps_inv P (if c then m else n)"
  by simp

lemma keeps_case_option [keeps_intros]:
  "keeps_inv P m \<Longrightarrow> (\<And>x. keeps_inv P (k x)) \<Longrightarrow> keeps_inv P (case v of None \<Rightarrow> m | Some x \<Rightarrow> k x)"
  by (cases v) auto

lemma keeps_case_prod [keeps_intros]:
  "(\<And>a b. keeps_inv P (k a b)) \<Longrightarrow> keeps_inv P (case p of (a, b) \<Rightarrow> k a b)"
  by (cases p) auto

lemma keeps_Let [keeps_intros]: "(\<And>x. keeps_inv P (k x)) \<Longrightarrow> keeps_inv P (let x = v in k x)"
  by simp

lemma keeps_read [keeps_intros]:
  "keeps_inv P (get_request_state i)" "keeps_inv P (get_approvals i)"
  by (auto simp: keeps_inv_def get_request_state_def get_approvals_def)

lemma keeps_conj: "keeps_inv P m \<Longrightarrow> keeps_inv Q m \<Longrightarrow> keeps_inv (\<lambda>s. P s \<and> Q s) m"
  by (auto simp: keeps_inv_def)

subsection \<open>What an update leaves alone\<close>

text \<open>The columns no statement changes after the insertion, as a row with the others erased.\<close>

definition rq_core :: "request \<Rightarrow> request" where
  "rq_core r = r\<lparr> rq_status := Pending, rq_cancel_reason := None, rq_cancelled_by := None,
                  rq_updated_at := 0, rq_resolved_at := None \<rparr>"

definition ex_core :: "execution \<Rightarrow> string \<times> string \<times> string \<times> string" where
  "ex_core e = (ex_id e, ex_request_id e, ex_agent_id e, ex_token e)"

lemma rq_core_upd [simp]:
  "rq_core (r\<lparr> rq_status := a \<rparr>) = rq_core r" "rq_core (r\<lparr> rq_updated_at := t \<rparr>) = rq_core r"
  "rq_core (r\<lparr> rq_resolved_at := u \<rparr>) = rq_core r" "rq_core (r\<lparr> rq_cancelled_by := c \<rparr>) = rq_core r"
  "rq_core (r\<lparr> rq_cancel_reason := d \<rparr>) = rq_core r"
  by (simp_all add: rq_core_def)

lemma rq_core_cancel [simp]: "rq_core (cancel_row by reason now r) = rq_core r"
  by (simp add: cancel_row_def)

lemma rq_core_sel [simp]:
  "rq_id (rq_core r) = rq_id r" "rq_requester (rq_core r) = rq_requester r"
  "rq_database (rq_core r) = rq_database r" "rq_environment (rq_core r) = rq_environment r"
  "rq_operation (rq_core r) = rq_operation r" "rq_detail (rq_core r) = rq_detail r"
  "rq_idempotency_key (rq_core r) = rq_idempotency_key r"
  "rq_workflow_snapshot_json (rq_core r) = rq_workflow_snapshot_json r"
  "rq_emergency (rq_core r) = rq_emergency r" "rq_expires_at (rq_core r) = rq_expires_at r"
  "rq_created_at (rq_core r) = rq_created_at r"
  by (simp_all add: rq_core_def)

lemma rq_core_fields:
  assumes "rq_core r = rq_core q"
  shows "rq_id r = rq_id q" "rq_requester r = rq_requester q" "rq_database r = rq_database q"
    "rq_environment r = rq_environment q" "rq_operation r = rq_operation q"
    "rq_idempotency_key r = rq_idempotency_key q" "rq_workflow_snapshot_json r = rq_workflow_snapshot_json q"
    "rq_emergency r = rq_emergency q" "rq_expires_at r = rq_expires_at q"
    "rq_database_id r = rq_database_id q"
  using assms unfolding rq_database_id_def by (metis rq_core_sel)+

lemma ex_core_fields:
  assumes "ex_core e = ex_core d"
  shows "ex_id e = ex_id d" "ex_request_id e = ex_request_id d" "ex_agent_id e = ex_agent_id d"
    "ex_token e = ex_token d"
  using assms by (simp_all add: ex_core_def)

subsection \<open>The store invariant\<close>

definition keys_ok :: "store \<Rightarrow> bool" where
  "keys_ok s \<longleftrightarrow>
     distinct (map rq_id (st_requests s)) \<and> distinct (map ap_id (st_approvals s))
     \<and> distinct (map ex_id (st_executions s)) \<and> distinct (map er_id (st_results s))
     \<and> distinct (map ra_id (st_access s)) \<and> distinct (st_pending s)"

definition refs_ok :: "store \<Rightarrow> bool" where
  "refs_ok s \<longleftrightarrow>
     rq_database_id ` set (st_requests s) \<subseteq> set (st_databases s)
     \<and> ap_request_id ` set (st_approvals s) \<subseteq> rq_id ` set (st_requests s)
     \<and> fst ` set (st_pending s) \<subseteq> rq_id ` set (st_requests s)
     \<and> ex_request_id ` set (st_executions s) \<subseteq> rq_id ` set (st_requests s)
     \<and> er_request_id ` set (st_results s) \<subseteq> rq_id ` set (st_requests s)
     \<and> er_execution_id ` set (st_results s) \<subseteq> ex_id ` set (st_executions s)
     \<and> ra_result_id ` set (st_access s) \<subseteq> er_id ` set (st_results s)"

definition idempotency_unique :: "request list \<Rightarrow> bool" where
  "idempotency_unique t \<longleftrightarrow>
     distinct (map (\<lambda>r. (rq_requester r, rq_idempotency_key r)) (filter (\<lambda>r. rq_idempotency_key r \<noteq> None) t))"

definition approve_unique :: "approval list \<Rightarrow> bool" where
  "approve_unique t \<longleftrightarrow>
     distinct (map (\<lambda>a. (ap_request_id a, ap_actor_id a, ap_step_index a)) (filter (\<lambda>a. ap_action a = Approve) t))"

definition claim_unique :: "execution list \<Rightarrow> bool" where
  "claim_unique t \<longleftrightarrow> distinct (map ex_request_id (filter (\<lambda>e. ex_status e = ExClaimed) t))"

definition store_ok :: "store \<Rightarrow> bool" where
  "store_ok s \<longleftrightarrow> keys_ok s \<and> refs_ok s \<and> idempotency_unique (st_requests s)
     \<and> approve_unique (st_approvals s) \<and> claim_unique (st_executions s)"

interpretation requests: keyed_table st_requests rq_id store_ok
  by unfold_locales (simp add: store_ok_def keys_ok_def)

interpretation executions: keyed_table st_executions ex_id store_ok
  by unfold_locales (simp add: store_ok_def keys_ok_def)

interpretation approvals: keyed_table st_approvals ap_id store_ok
  by unfold_locales (simp add: store_ok_def keys_ok_def)

lemma image_upd_where:
  assumes "\<And>r. g (f r) = g r"
  shows "g ` set (upd_where P f t) = g ` set t"
  using map_upd_where [of g f P t] assms by (metis list.set_map)

lemma filter_upd_where:
  assumes "\<And>r. Q (f r) = Q r" and "\<And>r. g (f r) = g r"
  shows "map g (filter Q (upd_where P f t)) = map g (filter Q t)"
  using assms by (induction t) (auto simp: upd_where_def)

lemma update_request_ok:
  assumes "\<And>r. rq_core (f r) = rq_core r"
  shows "keeps_inv store_ok (update_request i P f)"
proof (rule keeps_invI)
  fix s x s'
  assume s: "store_ok s" and e: "update_request i P f s = Inr (x, s')"
  note same = rq_core_fields [OF assms]
  from e have s': "s' = s\<lparr> st_requests := upd_where (\<lambda>r. rq_id r = i \<and> P r) f (st_requests s) \<rparr>"
    by (simp add: update_request_def)
  from s show "store_ok s'"
    by (simp add: s' store_ok_def keys_ok_def refs_ok_def idempotency_unique_def same
        map_upd_where image_upd_where filter_upd_where)
qed

lemma distinct_filter_upd:
  assumes "\<And>r. g (f r) = g r" and "\<And>r. Q (f r) \<Longrightarrow> Q r"
    and "distinct (map g (filter Q t))"
  shows "distinct (map g (filter Q (upd_where P f t)))"
proof -
  have "set (map g (filter Q (upd_where P f t))) \<subseteq> set (map g (filter Q t))
    \<and> distinct (map g (filter Q (upd_where P f t)))"
    using assms(3)
  proof (induction t)
    case Nil
    then show ?case by (simp add: upd_where_def)
  next
    case (Cons r t)
    with assms(1,2) show ?case by (auto simp: upd_where_def)
  qed
  then show ?thesis by simp
qed

lemma update_execution_ok:
  assumes "\<And>e. ex_core (f e) = ex_core e" and "\<And>e. ex_status (f e) = ExClaimed \<Longrightarrow> ex_status e = ExClaimed"
  shows "keeps_inv store_ok (update_execution i P f)"
proof (rule keeps_invI)
  fix s x s'
  assume s: "store_ok s" and e: "update_execution i P f s = Inr (x, s')"
  note same = ex_core_fields [OF assms(1)]
  from e have s': "s' = s\<lparr> st_executions := upd_where (\<lambda>e. ex_id e = i \<and> P e) f (st_executions s) \<rparr>"
    by (simp add: update_execution_def)
  from s assms(2) show "store_ok s'"
    by (simp add: s' store_ok_def keys_ok_def refs_ok_def claim_unique_def same
        map_upd_where image_upd_where distinct_filter_upd)
qed

lemmas mark_defs = update_status_guarded_def mark_dispatched_def mark_approved_def mark_rejected_def
  mark_running_def mark_cancelled_def mark_executed_def mark_expired_def mark_execution_lost_def
  mark_approved_from_dispatched_def

lemma mark_ok [keeps_intros]:
  "keeps_inv store_ok (mark_dispatched i now)" "keeps_inv store_ok (mark_approved i now)"
  "keeps_inv store_ok (mark_rejected i now)" "keeps_inv store_ok (mark_running i now)"
  "keeps_inv store_ok (mark_cancelled i by reason now)" "keeps_inv store_ok (mark_executed i ok now)"
  "keeps_inv store_ok (mark_expired i now)" "keeps_inv store_ok (mark_execution_lost i now)"
  "keeps_inv store_ok (mark_approved_from_dispatched i now)"
  unfolding mark_defs by (rule update_request_ok, simp)+

lemma execution_mark_ok [keeps_intros]:
  "keeps_inv store_ok (mark_completed_from_completing i ok now)"
  "keeps_inv store_ok (mark_failed_lease_expired i now)"
  "keeps_inv store_ok (extend_lease i t)"
  "keeps_inv store_ok (acquire_completing i late lease)"
  unfolding mark_completed_from_completing_def mark_failed_lease_expired_def extend_lease_def
    acquire_completing_def
  by (intro update_execution_ok keeps_intros; simp add: ex_core_def split: if_splits)+

lemma cancel_all_ok [keeps_intros]: "keeps_inv store_ok (cancel_all_for_user u by reason now)"
proof -
  have "keeps_inv store_ok (cancel_each is by reason now)" for "is"
    by (induction "is") (simp_all only: cancel_each.simps keeps_doneT keeps_thenT mark_ok)
  then have "keeps_inv store_ok (thenT (cancel_each is by reason now) (\<lambda>_. doneT is))" for "is"
    by (intro keeps_intros)
  then show ?thesis
    unfolding cancel_all_for_user_def Let_def by (blast intro: keeps_invI dest: keeps_invD)
qed

lemma fold_insert_or_ignore:
  "distinct xs \<Longrightarrow> distinct (fold (\<lambda>y. insert_or_ignore (g y)) ys xs)"
  "set (fold (\<lambda>y. insert_or_ignore (g y)) ys xs) = set xs \<union> g ` set ys"
  by (induction ys arbitrary: xs) auto

lemma populate_Inr:
  assumes "populate_pending_approvers lib i snap step s = Inr (x, s')"
  obtains p where "s' = s\<lparr> st_pending := p \<rparr>" and "distinct (st_pending s) \<Longrightarrow> distinct p"
    and "fst ` set p \<subseteq> insert i (fst ` set (st_pending s))"
proof -
  obtain sels where s': "s' = s\<lparr> st_pending :=
      fold (\<lambda>sel. insert_or_ignore (i, sel, step)) sels (filter (\<lambda>(rid, _). rid \<noteq> i) (st_pending s)) \<rparr>"
    using assms by (auto simp: populate_pending_approvers_def Let_def)
  show thesis
    by (rule that [OF s']) (auto simp: fold_insert_or_ignore)
qed

lemma populate_ok:
  assumes "store_ok s" and "populate_pending_approvers lib i snap step s = Inr (x, s')"
    and "i \<in> rq_id ` set (st_requests s)"
  shows "store_ok s'"
proof -
  obtain p where s': "s' = s\<lparr> st_pending := p \<rparr>" and d: "distinct (st_pending s) \<Longrightarrow> distinct p"
    and sub: "fst ` set p \<subseteq> insert i (fst ` set (st_pending s))"
    using populate_Inr [OF assms(2)] by blast
  have "fst ` set (st_pending s) \<subseteq> rq_id ` set (st_requests s)" "distinct (st_pending s)"
    using assms(1) by (simp_all add: store_ok_def refs_ok_def keys_ok_def)
  with sub d assms(3) have "fst ` set p \<subseteq> rq_id ` set (st_requests s)" "distinct p" by auto
  with s'   show ?thesis
    using assms(1) by (simp add: store_ok_def keys_ok_def refs_ok_def)
qed

lemma insert_request_ok [keeps_intros]: "keeps_inv store_ok (insert_request lib req)"
proof (rule keeps_invI)
  fix s x s'
  assume ok: "store_ok s" and ins: "insert_request lib req s = Inr (x, s')"
  define s1 where "s1 = s\<lparr> st_requests := st_requests s @ [req] \<rparr>"
  from ins have row: "insert_request_row req s = Inr s1"
    and next_: "(if rq_status req = Pending
       then populate_pending_approvers lib (rq_id req) (rq_workflow_snapshot_json req) 0 s1
       else Inr ((), s1)) = Inr (x, s')"
    by (auto simp: insert_request_def map_request_insert_error_def insert_request_row_def s1_def
        res_simps split: sum.splits if_splits)
  from ok row have "store_ok s1"
    by (auto simp: s1_def insert_request_row_def store_ok_def keys_ok_def refs_ok_def list_ex_iff
        idempotency_unique_def split: if_splits)
  with next_ show "store_ok s'"
    by (auto simp: s1_def split: if_splits intro: populate_ok)
qed

lemma insert_approval_row_Inr:
  "insert_approval_row a s = Inr s' \<longleftrightarrow>
   s' = s\<lparr> st_approvals := st_approvals s @ [a] \<rparr>
   \<and> (\<forall>b \<in> set (st_approvals s). ap_id b \<noteq> ap_id a)
   \<and> (\<exists>r \<in> set (st_requests s). rq_id r = ap_request_id a)
   \<and> \<not> (ap_action a = Approve \<and> (\<exists>b \<in> set (st_approvals s). ap_action b = Approve
        \<and> ap_request_id b = ap_request_id a \<and> ap_actor_id b = ap_actor_id a \<and> ap_step_index b = ap_step_index a))"
  unfolding insert_approval_row_def list_ex_iff by (cases "ap_action a") auto

lemma insert_approval_ok [keeps_intros]: "keeps_inv store_ok (insert_approval lib a)"
proof (rule keeps_invI)
  fix s x s'
  assume ok: "store_ok s" and ins: "insert_approval lib a s = Inr (x, s')"
  then obtain s1 where row: "insert_approval_row a s = Inr s1"
    and "\<exists>snap step. populate_pending_approvers lib (ap_request_id a) snap step s1 = Inr (x, s')"
    by (auto simp: insert_approval_def res_simps Let_def)
  moreover from ok row have "store_ok s1"
    by (auto simp: insert_approval_row_Inr store_ok_def keys_ok_def refs_ok_def approve_unique_def
        intro: rev_image_eqI [OF _ sym])
  moreover from row have "ap_request_id a \<in> rq_id ` set (st_requests s1)"
    by (auto simp: insert_approval_row_Inr intro: rev_image_eqI [OF _ sym])
  ultimately show "store_ok s'" by (blast intro: populate_ok)
qed

lemma insert_execution_Inr:
  "insert_execution ex s = Inr p \<longleftrightarrow>
   p = ((), s\<lparr> st_executions := st_executions s @ [ex\<lparr> ex_status := ExClaimed \<rparr>] \<rparr>)
   \<and> (\<forall>e \<in> set (st_executions s). ex_id e \<noteq> ex_id ex
        \<and> \<not> (ex_request_id e = ex_request_id ex \<and> ex_status e = ExClaimed))
   \<and> (\<exists>r \<in> set (st_requests s). rq_id r = ex_request_id ex)"
  unfolding insert_execution_def list_ex_iff by (cases p) (simp add: res_simps, blast)

lemma insert_execution_ok [keeps_intros]: "keeps_inv store_ok (insert_execution ex)"
  by (rule keeps_invI)
    (auto simp: insert_execution_Inr store_ok_def keys_ok_def refs_ok_def claim_unique_def
      intro: rev_image_eqI [OF _ sym])

lemma insert_result_Inr:
  "insert_result rm s = Inr p \<longleftrightarrow>
   p = ((), s\<lparr> st_results := st_results s @ [rm\<lparr> er_status := Stored \<rparr>] \<rparr>)
   \<and> (\<forall>r \<in> set (st_results s). er_id r \<noteq> er_id rm)
   \<and> (\<exists>r \<in> set (st_requests s). rq_id r = er_request_id rm)
   \<and> (\<exists>e \<in> set (st_executions s). ex_id e = er_execution_id rm)"
  unfolding insert_result_def list_ex_iff by (cases p) (simp add: res_simps, blast)

lemma insert_result_ok [keeps_intros]: "keeps_inv store_ok (insert_result rm)"
  by (rule keeps_invI) (auto simp: insert_result_Inr store_ok_def keys_ok_def refs_ok_def
      intro: rev_image_eqI [OF _ sym])

lemma insert_result_access_ok [keeps_intros]: "keeps_inv store_ok (insert_result_access access)"
proof (rule keeps_invI)
  fix s x s'
  assume "store_ok s" and "insert_result_access access s = Inr (x, s')"
  then show "store_ok s'"
  proof (induction access arbitrary: s)
    case Nil
    then show ?case by simp
  next
    case (Cons ra access)
    define s1 where "s1 = s\<lparr> st_access := st_access s @ [ra] \<rparr>"
    from Cons.prems(2) have new: "\<forall>r \<in> set (st_access s). ra_id r \<noteq> ra_id ra"
      "\<exists>r \<in> set (st_results s). er_id r = ra_result_id ra"
      and rest: "insert_result_access access s1 = Inr (x, s')"
      by (auto simp: list_ex_iff s1_def split: if_splits)
    from new Cons.prems(1) have "store_ok s1"
      by (auto simp: s1_def store_ok_def keys_ok_def refs_ok_def intro: rev_image_eqI [OF _ sym])
    then show ?case using rest by (rule Cons.IH)
  qed
qed

lemma audit_update_ok: "store_ok (s\<lparr> st_audit := t \<rparr>) = store_ok s"
  by (simp add: store_ok_def keys_ok_def refs_ok_def)

lemma record_event_ok [keeps_intros]: "keeps_inv store_ok (record_event lib env ev)"
  by (rule keeps_invI) (auto simp: record_event_def res_simps audit_update_ok)

lemma distinct_filter_upd_one:
  assumes "distinct (map k t)" and "distinct (map g (filter Q t))"
    and "\<And>r. k (f r) = k r" and "\<And>r. g (f r) = g r"
    and "\<And>r. r \<in> set t \<Longrightarrow> k r = i \<and> P r \<Longrightarrow> \<forall>d \<in> set (filter Q t). g d \<noteq> g r"
  shows "distinct (map g (filter Q (upd_where (\<lambda>r. k r = i \<and> P r) f t)))"
  using assms(1,2,5)
proof (induction t)
  case Nil
  then show ?case by (simp add: upd_where_def)
next
  case (Cons r t)
  show ?case
  proof (cases "k r = i \<and> P r")
    case True
    then have "upd_where (\<lambda>r. k r = i \<and> P r) f t = t"
      using Cons.prems(1) by (intro upd_where_none) (auto simp: image_iff)
    moreover have "\<forall>d \<in> set (filter Q t). g d \<noteq> g (f r)"
      using True Cons.prems(3) [of r] assms(4) by auto
    ultimately show ?thesis
      using Cons.prems True by (auto simp: upd_where_def split: if_splits)
  next
    case False
    have "g ` set (filter Q (upd_where (\<lambda>r. k r = i \<and> P r) f t))
        \<subseteq> g ` set (filter Q t) \<union> g ` {r \<in> set t. k r = i \<and> P r}"
      using assms(4) by (force simp: upd_where_def)
    moreover have "Q r \<Longrightarrow> g r \<notin> g ` {r \<in> set t. k r = i \<and> P r}"
      using Cons.prems(3) by auto
    ultimately show ?thesis
      using Cons False by (auto simp: upd_where_def split: if_splits)
  qed
qed

lemma revert_completing_ok [keeps_intros]: "keeps_inv store_ok (revert_completing i target fin lease err)"
proof (rule keeps_invI)
  fix s x s'
  assume ok: "store_ok s" and rev: "revert_completing i target fin lease err s = Inr (x, s')"
  let ?f = "\<lambda>e. e\<lparr> ex_status := target, ex_finished_at := fin, ex_lease_expires_at := lease, ex_error_message := err \<rparr>"
  let ?t = "upd_where (\<lambda>e. ex_id e = i \<and> ex_status e = ExCompleting) ?f (st_executions s)"
  from rev have s': "s' = s\<lparr> st_executions := ?t \<rparr>"
    and free: "target = ExClaimed \<Longrightarrow> e \<in> set (st_executions s) \<Longrightarrow> ex_id e = i \<and> ex_status e = ExCompleting
      \<Longrightarrow> d \<in> set (st_executions s) \<Longrightarrow> ex_status d = ExClaimed \<Longrightarrow> ex_request_id d \<noteq> ex_request_id e" for e d
    by (auto simp: revert_completing_def update_execution_def list_ex_iff split: if_splits)
  have "claim_unique ?t"
  proof (cases "target = ExClaimed")
    case True
    then show ?thesis
      using ok free unfolding claim_unique_def
      by (intro distinct_filter_upd_one) (auto simp: store_ok_def keys_ok_def claim_unique_def)
  next
    case False
    then show ?thesis
      using ok unfolding claim_unique_def
      by (intro distinct_filter_upd) (auto simp: store_ok_def claim_unique_def)
  qed
  with ok show "store_ok s'"
    by (simp add: s' store_ok_def keys_ok_def refs_ok_def map_upd_where image_upd_where)
qed

lemma distinct_map_filter_sub: "distinct (map g t) \<Longrightarrow> distinct (map g (filter Q t))"
  by (induction t) auto

lemma distinct_map_filter2:
  "distinct (map g (filter Q t)) \<Longrightarrow> distinct (map g (filter Q (filter R t)))"
  by (induction t) auto

definition purge_ids :: "timestamp \<Rightarrow> store \<Rightarrow> string list" where
  "purge_ids before s = map rq_id (filter (purgeable before) (st_requests s))"

lemma purge_Inr:
  assumes "purge_old_requests before s = Inr (x, s')"
  shows "st_requests s' = filter (\<lambda>r. rq_id r \<notin> set (purge_ids before s)) (st_requests s)"
    and "st_approvals s' = filter (\<lambda>a. ap_request_id a \<notin> set (purge_ids before s)) (st_approvals s)"
    and "st_pending s' = filter (\<lambda>(rid, _). rid \<notin> set (purge_ids before s)) (st_pending s)"
    and "st_executions s' = filter (\<lambda>e. ex_request_id e \<notin> set (purge_ids before s)) (st_executions s)"
    and "st_results s' = filter (\<lambda>r. er_request_id r \<notin> set (purge_ids before s)) (st_results s)"
    and "st_access s' = filter (\<lambda>a. ra_result_id a \<notin>
           set (map er_id (filter (\<lambda>r. er_request_id r \<in> set (purge_ids before s)) (st_results s)))) (st_access s)"
    and "st_databases s' = st_databases s" and "st_audit s' = st_audit s"
    and "r \<in> set (st_results s) \<Longrightarrow> er_request_id r \<notin> set (purge_ids before s) \<Longrightarrow> e \<in> set (st_executions s)
      \<Longrightarrow> ex_id e = er_execution_id r \<Longrightarrow> ex_request_id e \<notin> set (purge_ids before s)"
  using assms unfolding purge_old_requests_def Let_def purge_ids_def [symmetric] list_ex_iff
  by (auto split: if_splits)

lemma purge_refs:
  assumes "refs_ok s" and p: "purge_old_requests before s = Inr (x, s')"
  shows "refs_ok s'"
proof -
  define ids where "ids = set (purge_ids before s)"
  define rids where "rids = er_id ` {r \<in> set (st_results s). er_request_id r \<in> ids}"
  have s': "set (st_requests s') = {r \<in> set (st_requests s). rq_id r \<notin> ids}"
    "set (st_approvals s') = {a \<in> set (st_approvals s). ap_request_id a \<notin> ids}"
    "set (st_pending s') = {p \<in> set (st_pending s). fst p \<notin> ids}"
    "set (st_executions s') = {e \<in> set (st_executions s). ex_request_id e \<notin> ids}"
    "set (st_results s') = {r \<in> set (st_results s). er_request_id r \<notin> ids}"
    "set (st_access s') = {a \<in> set (st_access s). ra_result_id a \<notin> rids}"
    "st_databases s' = st_databases s"
    by (auto simp: purge_Inr(1-7) [OF p] ids_def rids_def)
  have fk: "\<forall>r \<in> set (st_results s). er_request_id r \<notin> ids \<longrightarrow>
      (\<forall>e \<in> set (st_executions s). ex_id e = er_execution_id r \<longrightarrow> ex_request_id e \<notin> ids)"
    using purge_Inr(9) [OF p] by (auto simp: ids_def)
  have old: "rq_database_id ` set (st_requests s) \<subseteq> set (st_databases s)"
    "ap_request_id ` set (st_approvals s) \<subseteq> rq_id ` set (st_requests s)"
    "fst ` set (st_pending s) \<subseteq> rq_id ` set (st_requests s)"
    "ex_request_id ` set (st_executions s) \<subseteq> rq_id ` set (st_requests s)"
    "er_request_id ` set (st_results s) \<subseteq> rq_id ` set (st_requests s)"
    "er_execution_id ` set (st_results s) \<subseteq> ex_id ` set (st_executions s)"
    "ra_result_id ` set (st_access s) \<subseteq> er_id ` set (st_results s)"
    using assms(1) by (simp_all add: refs_ok_def)
  have kept: "g ` {x \<in> A. g x \<notin> ids} \<subseteq> rq_id ` {r \<in> set (st_requests s). rq_id r \<notin> ids}"
    if "g ` A \<subseteq> rq_id ` set (st_requests s)" for g :: "'b \<Rightarrow> string" and A
    using that by (auto simp: subset_iff image_iff) metis
  have "er_execution_id ` {r \<in> set (st_results s). er_request_id r \<notin> ids}
      \<subseteq> ex_id ` {e \<in> set (st_executions s). ex_request_id e \<notin> ids}"
    using old(6) fk by (auto simp: subset_iff image_iff) metis
  moreover have "ra_result_id ` {a \<in> set (st_access s). ra_result_id a \<notin> rids}
      \<subseteq> er_id ` {r \<in> set (st_results s). er_request_id r \<notin> ids}"
    using old(7) by (auto simp: subset_iff image_iff rids_def)
  moreover have "rq_database_id ` {r \<in> set (st_requests s). rq_id r \<notin> ids} \<subseteq> set (st_databases s)"
    using old(1) by auto
  ultimately show ?thesis
    using kept [OF old(2)] kept [OF old(3)] kept [OF old(4)] kept [OF old(5)]
    unfolding refs_ok_def s' by simp
qed

lemma purge_ok [keeps_intros]: "keeps_inv store_ok (purge_old_requests before)"
proof (rule keeps_invI)
  fix s x s'
  assume ok: "store_ok s" and p: "purge_old_requests before s = Inr (x, s')"
  have "refs_ok s'"
    using purge_refs [OF _ p] ok by (simp add: store_ok_def)
  with ok show "store_ok s'"
    by (simp add: store_ok_def keys_ok_def idempotency_unique_def approve_unique_def claim_unique_def
        purge_Inr [OF p] distinct_map_filter_sub distinct_map_filter2 del: filter_filter)
qed

subsection \<open>Properties\<close>

text \<open>Every operation of the store, whatever its arguments, keeps the primary keys unique, the
  foreign keys resolved, idempotency keys unique per requester, approvals unique per request,
  actor and step, and at most one claimed execution per request.\<close>

theorem store_operations_keep_constraints:
  "keeps_inv store_ok (insert_request lib req) \<and> keeps_inv store_ok (insert_approval lib a)
   \<and> keeps_inv store_ok (insert_execution ex) \<and> keeps_inv store_ok (insert_result rm)
   \<and> keeps_inv store_ok (insert_result_access access) \<and> keeps_inv store_ok (record_event lib env ev)
   \<and> keeps_inv store_ok (mark_dispatched i now) \<and> keeps_inv store_ok (mark_approved i now)
   \<and> keeps_inv store_ok (mark_rejected i now) \<and> keeps_inv store_ok (mark_running i now)
   \<and> keeps_inv store_ok (mark_cancelled i by reason now) \<and> keeps_inv store_ok (mark_executed i ok now)
   \<and> keeps_inv store_ok (mark_expired i now) \<and> keeps_inv store_ok (mark_execution_lost i now)
   \<and> keeps_inv store_ok (mark_approved_from_dispatched i now)
   \<and> keeps_inv store_ok (cancel_all_for_user u by reason now)
   \<and> keeps_inv store_ok (mark_completed_from_completing i ok now)
   \<and> keeps_inv store_ok (mark_failed_lease_expired i now) \<and> keeps_inv store_ok (extend_lease i now)
   \<and> keeps_inv store_ok (acquire_completing i late lease)
   \<and> keeps_inv store_ok (revert_completing i target fin t err)
   \<and> keeps_inv store_ok (purge_old_requests now)"
  by (intro conjI keeps_intros)

text \<open>A transaction either reports an error and leaves the database as it was, or it was begun and
  committed and the database is what the body made of it.\<close>

theorem transaction_atomic:
  "(\<exists>e. run_in_tx faults f s = (Inl e, s))
   \<or> (\<exists>x s'. run_in_tx faults f s = (Inr x, s') \<and> f s = Inr (x, s')
        \<and> tf_begin faults = None \<and> tf_commit faults = None)"
  by (auto simp: run_in_tx_def split: option.splits sum.splits)

text \<open>\<open>implements t live i m\<close>: on request \<open>i\<close>, the update \<open>m\<close> is the trigger \<open>t\<close> of the status machine,
  restricted to rows that satisfy \<open>live\<close>; it answers whether the status changed and touches
  nothing else.\<close>

definition accepts :: "request_trigger \<Rightarrow> (request \<Rightarrow> bool) \<Rightarrow> request \<Rightarrow> bool" where
  "accepts t live r \<longleftrightarrow>
     (case compute_next_status (rq_status r) t of Inr st \<Rightarrow> st \<noteq> rq_status r \<and> live r | Inl _ \<Rightarrow> False)"

definition implements :: "request_trigger \<Rightarrow> (request \<Rightarrow> bool) \<Rightarrow> string \<Rightarrow> bool tx \<Rightarrow> bool" where
  "implements t live i m \<longleftrightarrow> (\<forall>s. store_ok s \<longrightarrow>
     (case get_request s i of
        None \<Rightarrow> m s = Inr (False, s)
      | Some r \<Rightarrow>
          if accepts t live r then
            \<exists>r' q. m s = Inr (True, s\<lparr> st_requests := q \<rparr>) \<and> get_request (s\<lparr> st_requests := q \<rparr>) i = Some r'
              \<and> compute_next_status (rq_status r) t = Inr (rq_status r') \<and> rq_core r' = rq_core r
              \<and> (\<forall>j. j \<noteq> i \<longrightarrow> get_request (s\<lparr> st_requests := q \<rparr>) j = get_request s j)
          else m s = Inr (False, s)))"

lemma update_request_none:
  assumes "store_ok s" and "\<And>r. get_request s i = Some r \<Longrightarrow> \<not> P r"
  shows "update_request i P f s = Inr (False, s)"
proof -
  have none: "\<not> (rq_id r = i \<and> P r)" if "r \<in> set (st_requests s)" for r
    using that assms requests.lookup_iff [OF assms(1)] by (auto simp: get_request_def)
  then have "affected (\<lambda>r. rq_id r = i \<and> P r) (st_requests s) = 0"
    by (simp add: affected_zero)
  with none show ?thesis
    by (simp add: update_request_def upd_where_none)
qed

lemma update_request_hit:
  assumes "store_ok s" and "get_request s i = Some r" and "P r" and "\<And>r. rq_id (f r) = rq_id r"
  shows "\<exists>q. update_request i P f s = Inr (True, s\<lparr> st_requests := q \<rparr>)
     \<and> (\<forall>j. get_request (s\<lparr> st_requests := q \<rparr>) j = (if j = i then Some (f r) else get_request s j))"
proof -
  have lookup: "find_row (\<lambda>r. rq_id r = j) (upd_where (\<lambda>r. rq_id r = i \<and> P r) f (st_requests s))
      = (if j = i then Some (f r) else find_row (\<lambda>r. rq_id r = j) (st_requests s))" for j
  proof -
    have "find_row (\<lambda>r. rq_id r = j) (upd_where (\<lambda>r. rq_id r = i \<and> P r) f (st_requests s)) =
        map_option (\<lambda>r. if rq_id r = i \<and> P r then f r else r) (find_row (\<lambda>r. rq_id r = j) (st_requests s))"
      by (rule find_row_upd) (rule assms(4))
    moreover have "find_row (\<lambda>r. rq_id r = j) (st_requests s) = None \<or>
        (\<exists>q. find_row (\<lambda>r. rq_id r = j) (st_requests s) = Some q \<and> rq_id q = j)"
      by (cases "find_row (\<lambda>r. rq_id r = j) (st_requests s)") (auto dest: find_row_Some)
    moreover have "j = i \<Longrightarrow> find_row (\<lambda>r. rq_id r = j) (st_requests s) = Some r"
      using assms(2) by (simp add: get_request_def)
    ultimately show ?thesis using assms(3) by (cases "j = i") auto
  qed
  have "0 < affected (\<lambda>r. rq_id r = i \<and> P r) (st_requests s)"
    using assms(2,3) requests.affected_key [OF assms(1), of i P] by (auto simp: get_request_def)
  then show ?thesis
    using lookup by (auto simp: update_request_def get_request_def)
qed

lemma update_request_True:
  assumes "store_ok s" and "update_request i P f s = Inr (True, s')" and "\<And>r. rq_id (f r) = rq_id r"
  shows "\<exists>r q. s' = s\<lparr> st_requests := q \<rparr> \<and> get_request s i = Some r \<and> P r
    \<and> (\<forall>j. get_request s' j = (if j = i then Some (f r) else get_request s j))"
proof -
  obtain r where r: "get_request s i = Some r" "P r"
    using assms(2) update_request_none [OF assms(1), of i P f] by auto
  with update_request_hit [OF assms(1) r(1), of P f] assms(2,3) show ?thesis by auto
qed

lemma update_request_implements:
  assumes "\<And>r. rq_core (f r) = rq_core r" and "\<And>r. P r \<longleftrightarrow> accepts t live r"
    and "\<And>r. P r \<Longrightarrow> compute_next_status (rq_status r) t = Inr (rq_status (f r))"
  shows "implements t live i (update_request i P f)"
proof -
  have ident: "rq_id (f r) = rq_id r" for r
    using assms(1) rq_core_fields(1) by blast
  show ?thesis
    unfolding implements_def
  proof (intro allI impI)
    fix s
    assume ok: "store_ok s"
    show "case get_request s i of None \<Rightarrow> update_request i P f s = Inr (False, s)
      | Some r \<Rightarrow> if accepts t live r then
            \<exists>r' q. update_request i P f s = Inr (True, s\<lparr> st_requests := q \<rparr>)
              \<and> get_request (s\<lparr> st_requests := q \<rparr>) i = Some r'
              \<and> compute_next_status (rq_status r) t = Inr (rq_status r') \<and> rq_core r' = rq_core r
              \<and> (\<forall>j. j \<noteq> i \<longrightarrow> get_request (s\<lparr> st_requests := q \<rparr>) j = get_request s j)
          else update_request i P f s = Inr (False, s)"
    proof (cases "get_request s i")
      case None
      then show ?thesis using update_request_none [OF ok, of i P f] by simp
    next
      case (Some r)
      show ?thesis
      proof (cases "P r")
        case True
        then obtain q where "update_request i P f s = Inr (True, s\<lparr> st_requests := q \<rparr>)"
          and "\<And>j. get_request (s\<lparr> st_requests := q \<rparr>) j = (if j = i then Some (f r) else get_request s j)"
          using update_request_hit [OF ok Some, of P f] ident by auto
        with True Some assms show ?thesis
          by (simp, intro exI [of _ "f r"] exI [of _ q]) simp
      next
        case False
        then show ?thesis using Some assms(2) update_request_none [OF ok, of i P f] by auto
      qed
    qed
  qed
qed

text \<open>C5: Each guarded \<open>UPDATE\<close> of the request status is exactly one trigger of the status machine:
  it succeeds on the statuses from which the trigger changes the status (for approvals and
  rejections only before the expiry time), writes the status the machine computes, keeps the
  immutable columns and all other requests, and otherwise changes nothing.\<close>

theorem guarded_updates_implement_status_machine:
  "implements TDispatch (\<lambda>_. True) i (mark_dispatched i now)
   \<and> implements TApproveFinal (not_expired now) i (mark_approved i now)
   \<and> implements TReject (not_expired now) i (mark_rejected i now)
   \<and> implements TClaim (\<lambda>_. True) i (mark_running i now)
   \<and> implements TCancel (\<lambda>_. True) i (mark_cancelled i by reason now)
   \<and> implements (TComplete ok) (\<lambda>_. True) i (mark_executed i ok now)
   \<and> implements TExpire (\<lambda>_. True) i (mark_expired i now)
   \<and> implements TLeaseExpired (\<lambda>_. True) i (mark_execution_lost i now)
   \<and> implements TDispatchTimeout (\<lambda>_. True) i (mark_approved_from_dispatched i now)"
proof -
  have acc: "accepts t live r \<longleftrightarrow>
      (\<exists>st. compute_next_status (rq_status r) t = Inr st \<and> st \<noteq> rq_status r \<and> live r)" for t live r
    by (auto simp: accepts_def split: sum.splits)
  have live: "s \<in> set cancellable_states \<longleftrightarrow> is_cancellable s" for s
    by (cases s) (simp_all add: cancellable_states_def is_cancellable_def)
  show ?thesis
    unfolding mark_defs live
    by (intro conjI update_request_implements;
        auto simp: acc trigger_accepted is_cancellable_def is_dispatchable_def is_re_dispatchable_def
          cancel_row_def simp del: compute_next_status.simps)
qed

end
