(* ===== verification/UC_Approval.thy ===== *)
theory UC_Approval
  imports Store_Invariants "HOL-Library.Multiset"
begin

text \<open>
  The use cases that decide on a pending request: approving, rejecting and cancelling
  (\<open>crates/dbward-app/src/use_cases/approve_request.rs\<close>, \<open>reject_request.rs\<close>,
  \<open>cancel_request.rs\<close>). Each has checks on a first reading of the store and one transaction;
  the transaction body is a definition of its own, because another client may run in between.
  What a call takes from its ports (clock readings, identifiers, transaction faults) are
  arguments, and the webhook events it hands to the notifier are part of its result.
\<close>

record call_env =
  ce_lib :: lib
  ce_audit :: audit_env
  ce_faults :: tx_faults
  ce_now :: timestamp
  ce_tx_now :: timestamp
  ce_id :: string

type_synonym 'a outcome = "'a app_result \<times> store \<times> webhook_event list"

text \<open>An error before the transaction.\<close>

definition refused :: "app_error \<Rightarrow> store \<Rightarrow> 'a outcome" where
  "refused e s = (Inl e, s, [])"

definition expired_at :: "timestamp \<Rightarrow> timestamp option \<Rightarrow> bool" where
  "expired_at now expires_at \<longleftrightarrow> (case expires_at of None \<Rightarrow> False | Some t \<Rightarrow> now \<ge> t)"

definition too_long :: "string option \<Rightarrow> bool" where
  "too_long c \<longleftrightarrow> (case c of None \<Rightarrow> False | Some t \<Rightarrow> length t > 1024)"

definition expired_hint :: string where
  "expired_hint = ''request has expired. Hint: set pending_ttl_secs in your workflow configuration to increase the approval window''"

definition read_workflow :: "lib \<Rightarrow> string option \<Rightarrow> workflow option app_result" where
  "read_workflow lib snapshot =
     (case snapshot of
        None \<Rightarrow> Inr None
      | Some js \<Rightarrow>
          (case x_workflow_read lib js of
             Some w \<Rightarrow> Inr (Some w)
           | None \<Rightarrow> Inl (Internal (''corrupt workflow snapshot: '' @ x_serde_error lib js))))"

definition previous_approver_ids :: "u32 \<Rightarrow> approval list \<Rightarrow> string list" where
  "previous_approver_ids current approvals =
     map ap_actor_id (filter (\<lambda>a. ap_step_index a < current \<and> ap_action a = Approve) approvals)"

definition already_approved :: "u32 \<Rightarrow> string \<Rightarrow> approval list \<Rightarrow> bool" where
  "already_approved current user_id approvals =
     list_ex (\<lambda>a. ap_step_index a = current \<and> ap_actor_id a = user_id \<and> ap_action a = Approve) approvals"

definition event_context ::
  "request \<Rightarrow> auth_user \<Rightarrow> audit_context \<Rightarrow> timestamp \<Rightarrow> event_metadata \<Rightarrow> transition_context" where
  "event_context req user ctx now metadata =
     \<lparr> tc_request_id = rq_id req, tc_actor_id = au_subject_id user, tc_actor_type = au_subject_type user,
       tc_database = rq_database req, tc_environment = rq_environment req,
       tc_operation = rq_operation req, tc_timestamp = now, tc_metadata = metadata,
       tc_requester_id = rq_requester req, tc_audit_context = ctx, tc_auth_token_id = None \<rparr>"

definition transition_or_conflict ::
  "request_status \<Rightarrow> request_trigger \<Rightarrow> transition_context \<Rightarrow> transition_result app_result" where
  "transition_or_conflict status trigger ctx =
     map_err (\<lambda>e. Conflict (invalid_transition_str e)) (transition status trigger ctx)"

definition audit_of :: "lib \<Rightarrow> transition_event \<Rightarrow> timestamp \<Rightarrow> audit_event" where
  "audit_of lib event now = build_audit_event lib event now default_redaction noop_redact"

subsection \<open>Approving\<close>

record approve_input =
  ai_request_id :: string
  ai_comment :: "string option"
  ai_selector :: "string option"

record approve_output =
  ao_id :: string
  ao_status :: request_status
  ao_approved_by :: string
  ao_matched_selector :: string
  ao_step_completed :: u32
  ao_current_step :: u32
  ao_total_steps :: u32

definition selector_count :: "u32 \<Rightarrow> string \<Rightarrow> approval list \<Rightarrow> u32" where
  "selector_count current sel approvals =
     as_u32 (length (filter (\<lambda>a. ap_step_index a = current \<and> ap_action a = Approve
       \<and> ap_matched_selector a = sel) approvals))"

definition selector_required :: "workflow_step \<Rightarrow> string \<Rightarrow> u32" where
  "selector_required step sel =
     (case find (\<lambda>g. selector_to_string (ag_selector g) = sel) (ws_approvers step) of
        Some g \<Rightarrow> ag_min g | None \<Rightarrow> 1)"

definition choose_selector ::
  "string option \<Rightarrow> string list \<Rightarrow> workflow_step \<Rightarrow> u32 \<Rightarrow> approval list \<Rightarrow> string app_result" where
  "choose_selector requested_selector all_matched step current approvals =
     (case requested_selector of
        Some requested \<Rightarrow>
          if requested \<notin> set all_matched
          then Inl (Validation (''you do not match selector '' @ quoted requested))
          else
            let count = selector_count current requested approvals;
                required = selector_required step requested
            in if count \<ge> required
               then Inl (Conflict (''selector '' @ quoted requested @ '' is already satisfied for this step (''
                      @ show_nat (unat count) @ ''/'' @ show_nat (unat required) @ '')''))
               else Inr requested
      | None \<Rightarrow>
          if all_matched = []
          then Inl (Forbidden (AzApprovalDenied ''not eligible to approve this step''))
          else
            (case filter (\<lambda>sel. selector_count current sel approvals < selector_required step sel) all_matched of
               [] \<Rightarrow> Inl (Conflict ''all approver groups you match are already satisfied'')
             | [sel] \<Rightarrow> Inr sel
             | unsatisfied \<Rightarrow>
                 Inl (Validation (''ambiguous: you match multiple unsatisfied approver groups: ''
                   @ join '', '' unsatisfied @ ''. Specify '' @ quoted ''selector'' @ '' parameter to choose.''))))"

definition approval_row ::
  "call_env \<Rightarrow> request \<Rightarrow> auth_user \<Rightarrow> approve_input \<Rightarrow> string \<Rightarrow> u32 \<Rightarrow> approval" where
  "approval_row env request user input matched_selector current =
     \<lparr> ap_id = ce_id env, ap_request_id = rq_id request, ap_action = Approve,
       ap_actor_id = au_subject_id user, ap_matched_selector = matched_selector, ap_step_index = current,
       ap_comment = ai_comment input, ap_created_at = ce_tx_now env \<rparr>"

definition approve_tx ::
  "call_env \<Rightarrow> request \<Rightarrow> workflow \<Rightarrow> auth_user \<Rightarrow> audit_context \<Rightarrow> approve_input
     \<Rightarrow> (request_status \<times> string \<times> u32 \<times> u32 \<times> transition_event) tx" where
  "approve_tx env request w user ctx input =
     (let now = ce_tx_now env; lib = ce_lib env; request_id = rq_id request; steps = wf_steps w;
          user_id = au_subject_id user
      in
      thenT (get_request_state request_id) (\<lambda>state.
      thenT (liftT (ok_or state (NotFound ''request not found''))) (\<lambda>(status, expires_at).
      thenT (checkT (status = Pending)
               (Conflict (''request is '' @ status_as_str status @ '', expected pending''))) (\<lambda>_.
      thenT (checkT (\<not> expired_at now expires_at) (Gone ''request has expired'')) (\<lambda>_.
      thenT (get_approvals request_id) (\<lambda>approvals.
      let current = find_current_step steps approvals;
          total_steps = as_u32 (length steps)
      in
      thenT (checkT (current < total_steps) (Conflict ''all steps already satisfied'')) (\<lambda>_.
      let step = steps ! unat current in
      thenT (checkT (is_approvable_by_attrs user_id (role_names user) (au_groups user) (ws_approvers step)
                (rq_requester request) (previous_approver_ids current approvals)
                (wf_allow_self_approve w) (wf_allow_same_approver_across_steps w))
              (Forbidden (AzApprovalDenied ''not eligible to approve this step (recheck)''))) (\<lambda>_.
      thenT (checkT (\<not> already_approved current user_id approvals)
              (Conflict ''already approved this step'')) (\<lambda>_.
      thenT (liftT (choose_selector (ai_selector input)
              (matched_selectors_by_attrs (role_names user) (au_groups user) user_id (ws_approvers step))
              step current approvals)) (\<lambda>matched_selector.
      let approval = approval_row env request user input matched_selector current;
          all_approvals = approvals @ [approval];
          all_satisfied = all_steps_satisfied steps all_approvals;
          step_completed = (if all_satisfied then total_steps else find_current_step steps all_approvals);
          trigger = (if all_satisfied then TApproveFinal else TApproveStep);
          metadata = (if all_satisfied then MApproved (ai_comment input) matched_selector
            else MStepApproved current total_steps (ai_comment input) matched_selector)
      in
      thenT (liftT (transition_or_conflict status trigger (event_context request user ctx now metadata))) (\<lambda>result.
      thenT (insert_approval lib approval) (\<lambda>_.
      thenT (if all_satisfied
             then thenT (mark_approved request_id now) (\<lambda>ok.
                    checkT ok (Conflict ''concurrent status change or expired''))
             else doneT ()) (\<lambda>_.
      thenT (record_event lib (ce_audit env) (audit_of lib (tr_event result) now)) (\<lambda>_.
      doneT (tr_new_status result, matched_selector, step_completed, total_steps, tr_event result)))))))))))))))"

definition approve_checks ::
  "call_env \<Rightarrow> approve_input \<Rightarrow> auth_user \<Rightarrow> store \<Rightarrow> (request \<times> workflow) app_result" where
  "approve_checks env input user s =
     tryE (guardE (\<not> too_long (ai_comment input)) (Validation ''comment too long (max 1024 bytes)'')) (\<lambda>_.
     tryE (ok_or (get_request s (ai_request_id input)) (NotFound ''request not found'')) (\<lambda>request.
     tryE (guardE (rq_status request = Pending)
            (Conflict (''request is '' @ status_as_str (rq_status request) @ '', expected pending''))) (\<lambda>_.
     tryE (guardE (\<not> expired_at (ce_now env) (rq_expires_at request)) (Gone expired_hint)) (\<lambda>_.
     tryE (read_workflow (ce_lib env) (rq_workflow_snapshot_json request)) (\<lambda>wo.
     tryE (ok_or wo (Conflict ''request has no approval workflow'')) (\<lambda>w.
     let approvals = approvals_of s (rq_id request);
         current = find_current_step (wf_steps w) approvals
     in
     tryE (guardE (current < as_u32 (length (wf_steps w))) (Conflict ''all steps already satisfied'')) (\<lambda>_.
     tryE (map_err Forbidden (authorize_approval user (rq_database request) (rq_environment request)
             (CtxApprovalStep (rq_requester request) current (ws_approvers (wf_steps w ! unat current))
               (wf_allow_self_approve w) (wf_allow_same_approver_across_steps w)
               (previous_approver_ids current approvals)))) (\<lambda>_.
     tryE (guardE (\<not> already_approved current (au_subject_id user) approvals)
            (Conflict ''already approved this step'')) (\<lambda>_.
     Inr (request, w))))))))))"

definition approve_request ::
  "call_env \<Rightarrow> approve_input \<Rightarrow> auth_user \<Rightarrow> audit_context \<Rightarrow> store \<Rightarrow> approve_output outcome" where
  "approve_request env input user ctx s =
     (case approve_checks env input user s of
        Inl e \<Rightarrow> refused e s
      | Inr (request, w) \<Rightarrow>
          (case run_in_tx (ce_faults env) (approve_tx env request w user ctx input) s of
             (Inl e, s') \<Rightarrow> refused e s'
           | (Inr (new_status, matched_selector, step_completed, total_steps, event), s') \<Rightarrow>
               (Inr \<lparr> ao_id = rq_id request, ao_status = new_status, ao_approved_by = au_subject_id user,
                      ao_matched_selector = matched_selector, ao_step_completed = step_completed,
                      ao_current_step = step_completed, ao_total_steps = total_steps \<rparr>,
                s', [build_webhook_event (ce_lib env) event])))"

subsection \<open>Rejecting\<close>

record reject_input =
  rj_request_id :: string
  rj_comment :: "string option"

record status_output =
  so_id :: string
  so_status :: request_status

definition reject_selector :: "auth_user \<Rightarrow> request \<Rightarrow> workflow_step \<Rightarrow> string" where
  "reject_selector user request step =
     (if au_subject_id user = rq_requester request then ''requester''
      else case find (\<lambda>g. selector_matches (ag_selector g) (role_names user) (au_groups user)
                        (au_subject_id user) False) (ws_approvers step) of
             Some g \<Rightarrow> selector_to_string (ag_selector g)
           | None \<Rightarrow> ''unknown'')"

text \<open>The checks end with the approval row and the event the transaction will write.\<close>

definition reject_checks ::
  "call_env \<Rightarrow> reject_input \<Rightarrow> auth_user \<Rightarrow> audit_context \<Rightarrow> store
     \<Rightarrow> (request \<times> approval \<times> transition_event) app_result" where
  "reject_checks env input user ctx s =
     tryE (guardE (\<not> too_long (rj_comment input)) (Validation ''comment too long (max 1024 bytes)'')) (\<lambda>_.
     tryE (ok_or (get_request s (rj_request_id input)) (NotFound ''request not found'')) (\<lambda>request.
     tryE (read_workflow (ce_lib env) (rq_workflow_snapshot_json request)) (\<lambda>wo.
     let approvals = approvals_of s (rq_id request);
         current = (case wo of Some w \<Rightarrow> find_current_step (wf_steps w) approvals | None \<Rightarrow> 0)
     in
     tryE (ok_or wo (Conflict ''request has no workflow snapshot'')) (\<lambda>w.
     tryE (guardE (current < as_u32 (length (wf_steps w))) (Conflict ''all steps already satisfied'')) (\<lambda>_.
     let step = wf_steps w ! unat current in
     tryE (map_err Forbidden (authorize_approval user (rq_database request) (rq_environment request)
             (CtxApprovalStep (rq_requester request) current (ws_approvers step)
               (wf_allow_self_approve w) (wf_allow_same_approver_across_steps w)
               (previous_approver_ids current approvals)))) (\<lambda>_.
     tryE (guardE (\<not> expired_at (ce_now env) (rq_expires_at request)) (Gone expired_hint)) (\<lambda>_.
     tryE (transition_or_conflict (rq_status request) TReject
             (event_context request user ctx (ce_now env) (MRejected (rj_comment input)))) (\<lambda>result.
     Inr (request,
          \<lparr> ap_id = ce_id env, ap_request_id = rq_id request, ap_action = Reject,
            ap_actor_id = au_subject_id user, ap_matched_selector = reject_selector user request step,
            ap_step_index = current, ap_comment = rj_comment input, ap_created_at = ce_now env \<rparr>,
          tr_event result)))))))))"

definition reject_tx :: "call_env \<Rightarrow> string \<Rightarrow> approval \<Rightarrow> transition_event \<Rightarrow> unit tx" where
  "reject_tx env request_id approval event =
     thenT (insert_approval (ce_lib env) approval) (\<lambda>_.
     thenT (mark_rejected request_id (ce_now env)) (\<lambda>ok.
     thenT (checkT ok (Conflict ''concurrent status change'')) (\<lambda>_.
     record_event (ce_lib env) (ce_audit env) (audit_of (ce_lib env) event (ce_now env)))))"

definition reject_request ::
  "call_env \<Rightarrow> reject_input \<Rightarrow> auth_user \<Rightarrow> audit_context \<Rightarrow> store \<Rightarrow> status_output outcome" where
  "reject_request env input user ctx s =
     (case reject_checks env input user ctx s of
        Inl e \<Rightarrow> refused e s
      | Inr (request, approval, event) \<Rightarrow>
          (case run_in_tx (ce_faults env) (reject_tx env (rq_id request) approval event) s of
             (Inl e, s') \<Rightarrow> refused e s'
           | (Inr _, s') \<Rightarrow>
               (Inr \<lparr> so_id = rq_id request, so_status = Rejected \<rparr>, s', [build_webhook_event (ce_lib env) event])))"

subsection \<open>Cancelling\<close>

record cancel_input =
  ki_request_id :: string
  ki_reason :: "string option"

definition cancel_checks ::
  "call_env \<Rightarrow> cancel_input \<Rightarrow> auth_user \<Rightarrow> audit_context \<Rightarrow> store \<Rightarrow> (request \<times> transition_event) app_result" where
  "cancel_checks env input user ctx s =
     tryE (guardE (\<not> too_long (ki_reason input)) (Validation ''reason too long (max 1024 bytes)'')) (\<lambda>_.
     tryE (ok_or (get_request s (ki_request_id input)) (NotFound ''request not found'')) (\<lambda>request.
     tryE (map_err Forbidden (authorize_scoped user RequestCancel (rq_database request) (rq_environment request)
             (CtxRequestMutate (rq_requester request)))) (\<lambda>_.
     tryE (guardE (\<not> (au_subject_id user \<noteq> rq_requester request \<and> ki_reason input = None))
            (Validation ''reason required for non-owner cancel'')) (\<lambda>_.
     tryE (transition_or_conflict (rq_status request) TCancel
             (event_context request user ctx (ce_now env) (MCancelled (ki_reason input)))) (\<lambda>result.
     Inr (request, tr_event result))))))"

definition cancel_tx :: "call_env \<Rightarrow> redaction_mode \<Rightarrow> string \<Rightarrow> string \<Rightarrow> string option \<Rightarrow> transition_event \<Rightarrow> unit tx" where
  "cancel_tx env mode request_id subject_id reason event =
     thenT (mark_cancelled request_id subject_id reason (ce_now env)) (\<lambda>ok.
     thenT (checkT ok (Conflict ''concurrent status change'')) (\<lambda>_.
     record_event (ce_lib env) (ce_audit env)
       (build_audit_event (ce_lib env) event (ce_now env) mode noop_redact)))"

definition cancel_request ::
  "call_env \<Rightarrow> redaction_mode \<Rightarrow> cancel_input \<Rightarrow> auth_user \<Rightarrow> audit_context \<Rightarrow> store \<Rightarrow> status_output outcome" where
  "cancel_request env mode input user ctx s =
     (case cancel_checks env input user ctx s of
        Inl e \<Rightarrow> refused e s
      | Inr (request, event) \<Rightarrow>
          (case run_in_tx (ce_faults env)
                 (cancel_tx env mode (rq_id request) (au_subject_id user) (ki_reason input) event) s of
             (Inl e, s') \<Rightarrow> refused e s'
           | (Inr _, s') \<Rightarrow>
               (Inr \<lparr> so_id = rq_id request, so_status = Cancelled \<rparr>, s', [build_webhook_event (ce_lib env) event])))"

subsection \<open>Effects of the operations\<close>

text \<open>Satisfaction of the steps depends on which votes there are, not on their order.\<close>

lemma length_filter_mset: "mset xs = mset ys \<Longrightarrow> length (filter P xs) = length (filter P ys)"
  by (metis mset_filter size_mset)

lemma is_step_satisfied_mset:
  assumes "mset xs = mset ys"
  shows "is_step_satisfied step i xs = is_step_satisfied step i ys"
proof -
  have "group_count (step_approvals_of i xs) = group_count (step_approvals_of i ys)"
    by (rule ext) (simp add: group_count_def step_approvals_of_def length_filter_mset [OF assms])
  then show ?thesis by (simp only: is_step_satisfied_def Let_def)
qed

lemma all_steps_satisfied_mset:
  assumes "mset xs = mset ys"
  shows "all_steps_satisfied steps xs = all_steps_satisfied steps ys"
  by (simp only: all_steps_satisfied_nth is_step_satisfied_mset [OF assms])

lemma mset_approvals_of: "mset (approvals_of s i) = mset (filter (\<lambda>a. ap_request_id a = i) (st_approvals s))"
  by (simp add: approvals_of_def)

lemma set_approvals_of: "set (approvals_of s i) = {a \<in> set (st_approvals s). ap_request_id a = i}"
  by (simp add: approvals_of_def)

lemma insert_approval_Inr:
  assumes "insert_approval lib a s = Inr (x, s')"
  obtains p where "s' = s\<lparr> st_approvals := st_approvals s @ [a], st_pending := p \<rparr>"
    and "insert_approval_row a s = Inr (s\<lparr> st_approvals := st_approvals s @ [a] \<rparr>)"
proof -
  from assms obtain s1 snap step where row: "insert_approval_row a s = Inr s1"
    and pop: "populate_pending_approvers lib (ap_request_id a) snap step s1 = Inr (x, s')"
    by (auto simp: insert_approval_def res_simps Let_def)
  from row have s1: "s1 = s\<lparr> st_approvals := st_approvals s @ [a] \<rparr>"
    by (simp add: insert_approval_row_Inr)
  from pop obtain p where "s' = s1\<lparr> st_pending := p \<rparr>"
    by (rule populate_Inr)
  with s1 row that show thesis by simp
qed

lemma record_event_Inr:
  assumes "record_event lib env ev s = Inr (x, s')"
  obtains t rest where "s' = s\<lparr> st_audit := t \<rparr>"
    and "t = st_audit s @ audit_row_of lib (st_audit s) (fst (au_ids env)) ev # rest" and "length rest \<le> 1"
proof -
  from assms obtain t where s': "s' = s\<lparr> st_audit := t \<rparr>" and
    r: "record_audit lib (au_signer env) (au_interval env) (au_ids env) (au_wall env) ev (st_audit s) = Inr t"
    by (auto simp: record_event_def res_simps)
  from record_audit_Inr [OF r] have
    "\<exists>rest. t = st_audit s @ audit_row_of lib (st_audit s) (fst (au_ids env)) ev # rest \<and> length rest \<le> 1"
    by (auto simp: Let_def)
  with s' that show thesis by blast
qed

lemma get_request_cong: "st_requests s = st_requests t \<Longrightarrow> get_request s i = get_request t i"
  by (simp add: get_request_def)

lemma mark_approved_Inr:
  assumes "store_ok s" and "mark_approved i now s = Inr (True, s')"
  obtains r q where "s' = s\<lparr> st_requests := q \<rparr>" and "get_request s i = Some r"
    and "rq_status r = Pending" and "not_expired now r"
    and "\<And>j. get_request s' j = (if j = i
          then Some (r\<lparr> rq_status := Approved, rq_updated_at := now, rq_resolved_at := Some now \<rparr>) else get_request s j)"
  using update_request_True [OF assms(1) assms(2) [unfolded mark_approved_def]] that by auto

subsection \<open>What an approval transaction did\<close>

lemma transition_or_conflict_Inr [res_simps]:
  "transition_or_conflict st t ctx = Inr r \<longleftrightarrow> transition st t ctx = Inr r"
  by (simp add: transition_or_conflict_def res_simps)

text \<open>The vote the transaction records, as a relation between the stores before and after.\<close>

definition approval_effect ::
  "call_env \<Rightarrow> request \<Rightarrow> workflow \<Rightarrow> auth_user \<Rightarrow> approve_input \<Rightarrow> string \<Rightarrow> transition_event
     \<Rightarrow> store \<Rightarrow> store \<Rightarrow> bool" where
  "approval_effect env request w user input sel ev s s' \<longleftrightarrow>
     (let i = rq_id request; votes = approvals_of s i; current = find_current_step (wf_steps w) votes;
          step = wf_steps w ! unat current; a = approval_row env request user input sel current
      in (\<exists>r. get_request s i = Some r \<and> rq_status r = Pending \<and> \<not> expired_at (ce_tx_now env) (rq_expires_at r))
         \<and> current < as_u32 (length (wf_steps w))
         \<and> is_approvable_by_attrs (au_subject_id user) (role_names user) (au_groups user) (ws_approvers step)
              (rq_requester request) (previous_approver_ids current votes)
              (wf_allow_self_approve w) (wf_allow_same_approver_across_steps w)
         \<and> \<not> already_approved current (au_subject_id user) votes
         \<and> choose_selector (ai_selector input)
              (matched_selectors_by_attrs (role_names user) (au_groups user) (au_subject_id user) (ws_approvers step))
              step current votes = Inr sel
         \<and> te_request_id ev = i
         \<and> (\<exists>s1 s2. insert_approval (ce_lib env) a s = Inr ((), s1)
              \<and> (if all_steps_satisfied (wf_steps w) (votes @ [a])
                 then mark_approved i (ce_tx_now env) s1 = Inr (True, s2) else s2 = s1)
              \<and> record_event (ce_lib env) (ce_audit env) (audit_of (ce_lib env) ev (ce_tx_now env)) s2 = Inr ((), s')))"

lemma approve_tx_Inr:
  assumes "approve_tx env request w user ctx input s = Inr ((st, sel, fin, n, ev), s')"
  shows "approval_effect env request w user input sel ev s s'
    \<and> st = (if all_steps_satisfied (wf_steps w) (approvals_of s (rq_id request) @
           [approval_row env request user input sel (find_current_step (wf_steps w) (approvals_of s (rq_id request)))])
         then Approved else Pending)"
proof -
  have new: "transition Pending TApproveFinal c = Inr r \<Longrightarrow> tr_new_status r = Approved"
    "transition Pending TApproveStep c = Inr r \<Longrightarrow> tr_new_status r = Pending" for c r
    using transition_Inr [of Pending _ c r] by force+
  have ident: "te_request_id (tr_event r) = rq_id request"
    if "transition Pending trig (event_context request user ctx t m) = Inr r" for trig t m r
    using transition_event_status [OF that] by (simp add: event_context_def)
  show ?thesis
    using assms unfolding approve_tx_def Let_def approval_effect_def
    by (auto simp: thenT_Inr doneT_Inr liftT_Inr checkT_Inr get_approvals_def get_request_state_def res_simps
        dest: new ident split: if_splits)
qed

lemma audit_of_fields:
  "ae_request_id (audit_of lib ev now) = Some (te_request_id ev)"
  "ae_event_type (audit_of lib ev now) = fst (event_type_and_category ev)"
  by (auto simp: audit_of_def build_audit_event_def Let_def audit_event_simple_def default_redaction_def
      split: prod.splits event_metadata.splits)

lemma audit_row_fields [simp]:
  "ar_request_id (audit_row_of lib t i ev) = ae_request_id ev"
  "ar_event_type (audit_row_of lib t i ev) = ae_event_type ev"
  by (simp_all add: audit_row_of_def Let_def)

text \<open>The approved row, or the row as it was.\<close>

definition decided_row :: "bool \<Rightarrow> timestamp \<Rightarrow> request \<Rightarrow> request" where
  "decided_row fin now r =
     (if fin then r\<lparr> rq_status := Approved, rq_updated_at := now, rq_resolved_at := Some now \<rparr> else r)"

lemma approval_effect_store:
  assumes "store_ok s" and "approval_effect env request w user input sel ev s s'"
  defines "i \<equiv> rq_id request"
  defines "a \<equiv> approval_row env request user input sel (find_current_step (wf_steps w) (approvals_of s i))"
  obtains r rest where "get_request s i = Some r" and "rq_status r = Pending"
    and "st_approvals s' = st_approvals s @ [a]"
    and "st_executions s' = st_executions s"
    and "st_audit s' = st_audit s @
       audit_row_of (ce_lib env) (st_audit s) (fst (au_ids (ce_audit env))) (audit_of (ce_lib env) ev (ce_tx_now env)) # rest"
    and "\<And>j. get_request s' j = (if j = i
       then Some (decided_row (all_steps_satisfied (wf_steps w) (approvals_of s' i)) (ce_tx_now env) r) else get_request s j)"
proof -
  let ?fin = "all_steps_satisfied (wf_steps w) (approvals_of s i @ [a])"
  from assms(2) obtain r s1 s2 where r: "get_request s i = Some r" "rq_status r = Pending"
    and ins: "insert_approval (ce_lib env) a s = Inr ((), s1)"
    and mk: "if ?fin then mark_approved i (ce_tx_now env) s1 = Inr (True, s2) else s2 = s1"
    and rec: "record_event (ce_lib env) (ce_audit env) (audit_of (ce_lib env) ev (ce_tx_now env)) s2 = Inr ((), s')"
    unfolding approval_effect_def Let_def i_def a_def by blast
  obtain p where s1: "s1 = s\<lparr> st_approvals := st_approvals s @ [a], st_pending := p \<rparr>"
    using ins by (rule insert_approval_Inr)
  have ok1: "store_ok s1"
    using keeps_invD [OF insert_approval_ok assms(1) ins] .
  have g1: "get_request s1 j = get_request s j" for j
    by (simp add: s1 get_request_def)
  obtain q where s2: "s2 = s1\<lparr> st_requests := q \<rparr>"
    and g2: "\<And>j. get_request s2 j = (if j = i then Some (decided_row ?fin (ce_tx_now env) r) else get_request s j)"
  proof (cases ?fin)
    case True
    with mk have "mark_approved i (ce_tx_now env) s1 = Inr (True, s2)" by simp
    from mark_approved_Inr [OF ok1 this] that True r(1) g1 show thesis
      by (metis decided_row_def option.inject)
  next
    case False
    with mk have "s2 = s1\<lparr> st_requests := st_requests s1 \<rparr>" by simp
    with that False r(1) g1 show thesis by (metis decided_row_def old.unit.exhaust mk)
  qed
  obtain t rest where s': "s' = s2\<lparr> st_audit := t \<rparr>"
    and t: "t = st_audit s2 @ audit_row_of (ce_lib env) (st_audit s2) (fst (au_ids (ce_audit env)))
      (audit_of (ce_lib env) ev (ce_tx_now env)) # rest"
    using rec by (rule record_event_Inr)
  have "mset (approvals_of s' i) = mset (approvals_of s i @ [a])"
    by (simp add: mset_approvals_of s' s2 s1 a_def approval_row_def i_def)
  then have fin: "all_steps_satisfied (wf_steps w) (approvals_of s' i) = ?fin"
    by (rule all_steps_satisfied_mset)
  have "get_request s' j = get_request s2 j" for j
    by (simp add: s' get_request_def)
  with g2 fin have "get_request s' j = (if j = i
       then Some (decided_row (all_steps_satisfied (wf_steps w) (approvals_of s' i)) (ce_tx_now env) r) else get_request s j)" for j
    by simp
  with r t that show thesis by (simp add: s' s2 s1)
qed

subsection \<open>Properties\<close>

lemma approve_checks_Inr:
  assumes "approve_checks env input user s = Inr (request, w)"
  shows "get_request s (ai_request_id input) = Some request" and "rq_status request = Pending"
    and "read_workflow (ce_lib env) (rq_workflow_snapshot_json request) = Inr (Some w)"
    and "au_subject_type user = SubjUser" and "rq_id request = ai_request_id input"
proof -
  show req: "get_request s (ai_request_id input) = Some request" and "rq_status request = Pending"
    and "read_workflow (ce_lib env) (rq_workflow_snapshot_json request) = Inr (Some w)"
    using assms by (auto simp: approve_checks_def res_simps Let_def)
  show "au_subject_type user = SubjUser"
    using assms rbac.approval_gate by (auto simp: approve_checks_def res_simps Let_def)
  show "rq_id request = ai_request_id input"
    using req find_row_Some unfolding get_request_def by fastforce
qed

lemma approve_request_Inr:
  assumes "approve_request env input user ctx s = (Inr out, s', hooks)"
  obtains request w fin n ev where "approve_checks env input user s = Inr (request, w)"
    and "approve_tx env request w user ctx input s = Inr ((ao_status out, ao_matched_selector out, fin, n, ev), s')"
    and "hooks = [build_webhook_event (ce_lib env) ev]" and "ao_step_completed out = fin"
    and "ao_approved_by out = au_subject_id user"
  using assms uow.commits
  by (fastforce simp: approve_request_def refused_def split: sum.splits prod.splits)

lemma choose_selector_matched:
  "choose_selector req matched step current votes = Inr sel \<Longrightarrow>
   sel \<in> set matched \<and> selector_count current sel votes < selector_required step sel"
  by (auto simp: choose_selector_def Let_def not_le filter_eq_Cons_iff
      split: option.splits if_splits list.splits)

text \<open>C2: A successful approval came from a user token, on a pending request, at its current step; the
  voter is not the requester and approved no earlier step, unless the workflow allows it, had
  not yet voted on this step, and the recorded selector is one the voter matches whose quota
  was still open. The call adds exactly this vote and one audit entry that names the request
  (perhaps followed by a checkpoint), and the request becomes approved exactly if the votes
  now stored satisfy every step of its workflow.\<close>

theorem approve_request_sound:
  assumes "store_ok s" and "approve_request env input user ctx s = (Inr out, s', hooks)"
  defines "i \<equiv> ai_request_id input"
  shows "\<exists>r w row rest. get_request s i = Some r \<and> rq_status r = Pending
     \<and> read_workflow (ce_lib env) (rq_workflow_snapshot_json r) = Inr (Some w)
     \<and> au_subject_type user = SubjUser
     \<and> (let current = find_current_step (wf_steps w) (approvals_of s i); step = wf_steps w ! unat current in
          (wf_allow_self_approve w \<or> au_subject_id user \<noteq> rq_requester r)
        \<and> (wf_allow_same_approver_across_steps w
             \<or> au_subject_id user \<notin> set (previous_approver_ids current (approvals_of s i)))
        \<and> \<not> already_approved current (au_subject_id user) (approvals_of s i)
        \<and> ao_matched_selector out \<in> set (matched_selectors_by_attrs (role_names user) (au_groups user)
              (au_subject_id user) (ws_approvers step))
        \<and> selector_count current (ao_matched_selector out) (approvals_of s i)
             < selector_required step (ao_matched_selector out)
        \<and> st_approvals s' = st_approvals s @ [approval_row env r user input (ao_matched_selector out) current])
     \<and> st_audit s' = st_audit s @ row # rest \<and> ar_request_id row = Some i
     \<and> ao_status out = (if all_steps_satisfied (wf_steps w) (approvals_of s' i) then Approved else Pending)
     \<and> (\<exists>r'. get_request s' i = Some r' \<and> rq_status r' = ao_status out \<and> rq_core r' = rq_core r)
     \<and> (\<forall>j. j \<noteq> i \<longrightarrow> get_request s' j = get_request s j)"
proof -
  obtain r w fin n ev where chk: "approve_checks env input user s = Inr (r, w)"
    and tx: "approve_tx env r w user ctx input s = Inr ((ao_status out, ao_matched_selector out, fin, n, ev), s')"
    using approve_request_Inr [OF assms(2)] by metis
  note c = approve_checks_Inr [OF chk]
  have i: "rq_id r = i" using c(5) by (simp add: i_def)
  from approve_tx_Inr [OF tx] have eff: "approval_effect env r w user input (ao_matched_selector out) ev s s'"
    by blast
  then have effs: "is_approvable_by_attrs (au_subject_id user) (role_names user) (au_groups user)
       (ws_approvers (wf_steps w ! unat (find_current_step (wf_steps w) (approvals_of s i)))) (rq_requester r)
       (previous_approver_ids (find_current_step (wf_steps w) (approvals_of s i)) (approvals_of s i))
       (wf_allow_self_approve w) (wf_allow_same_approver_across_steps w)"
     "\<not> already_approved (find_current_step (wf_steps w) (approvals_of s i)) (au_subject_id user) (approvals_of s i)"
     "choose_selector (ai_selector input) (matched_selectors_by_attrs (role_names user) (au_groups user)
        (au_subject_id user) (ws_approvers (wf_steps w ! unat (find_current_step (wf_steps w) (approvals_of s i)))))
        (wf_steps w ! unat (find_current_step (wf_steps w) (approvals_of s i)))
        (find_current_step (wf_steps w) (approvals_of s i)) (approvals_of s i) = Inr (ao_matched_selector out)"
     "te_request_id ev = i"
    unfolding approval_effect_def Let_def i by blast+
  obtain r0 rest where sto: "get_request s i = Some r0"
    "st_approvals s' = st_approvals s @ [approval_row env r user input (ao_matched_selector out)
        (find_current_step (wf_steps w) (approvals_of s i))]"
    "st_audit s' = st_audit s @ audit_row_of (ce_lib env) (st_audit s) (fst (au_ids (ce_audit env)))
        (audit_of (ce_lib env) ev (ce_tx_now env)) # rest"
    "\<And>j. get_request s' j = (if j = i then Some (decided_row (all_steps_satisfied (wf_steps w) (approvals_of s' i))
        (ce_tx_now env) r0) else get_request s j)"
    using approval_effect_store [OF assms(1) eff] unfolding i by metis
  have r0: "r0 = r" using sto(1) c(1) by (simp add: i_def)
  have "mset (approvals_of s' i) = mset (approvals_of s i @ [approval_row env r user input (ao_matched_selector out)
        (find_current_step (wf_steps w) (approvals_of s i))])"
    by (simp add: mset_approvals_of sto(2) approval_row_def i)
  with approve_tx_Inr [OF tx] have st: "ao_status out =
      (if all_steps_satisfied (wf_steps w) (approvals_of s' i) then Approved else Pending)"
    unfolding i using all_steps_satisfied_mset by metis
  have "\<exists>r'. get_request s' i = Some r' \<and> rq_status r' = ao_status out \<and> rq_core r' = rq_core r"
    using sto(4) [of i] c(2) st by (auto simp: r0 decided_row_def)
  moreover have "\<forall>j. j \<noteq> i \<longrightarrow> get_request s' j = get_request s j"
    using sto(4) by simp
  ultimately show ?thesis
    using c(1-4) effs choose_selector_matched [OF effs(3)] sto(2,3) st
    unfolding i_def [symmetric] Let_def is_approvable_by_attrs_iff by (fastforce simp: audit_of_fields)
qed

text \<open>A small installation: one database, one pending request of ann, one step for the role dba.\<close>

definition demo_workflow :: workflow where
  "demo_workflow =
     \<lparr> wf_id = ''w1'', wf_database = DatabaseName ''app'', wf_environment = Environment ''prod'',
       wf_operations = [], wf_auto_approve = None, wf_steps = one_step, wf_require_reason = False,
       wf_allow_self_approve = False, wf_allow_same_approver_across_steps = False, wf_explain = False,
       wf_pending_ttl_secs = None, wf_statement_timeout_secs = None, wf_approval_ttl_secs = None,
       wf_created_at = None, wf_updated_at = None \<rparr>"

definition demo_lib :: lib where
  "demo_lib = example_lib\<lparr> x_workflow_read := \<lambda>_. Some demo_workflow \<rparr>"

definition demo_request :: "request_status \<Rightarrow> request" where
  "demo_request st =
     \<lparr> rq_id = ''r1'', rq_requester = ''ann'', rq_database = DatabaseName ''app'',
       rq_environment = Environment ''prod'', rq_operation = ExecuteDml, rq_detail = ''UPDATE t SET x = 1'',
       rq_status = st, rq_emergency = False, rq_reason = None, rq_idempotency_key = None,
       rq_idempotency_fingerprint = None, rq_metadata_json = ''{}'', rq_share_with = [],
       rq_no_result_store = False, rq_workflow_snapshot_json = Some ''w'', rq_decision_trace_json = None,
       rq_execution_plan_json = None, rq_cancel_reason = None, rq_cancelled_by = None, rq_created_at = 0,
       rq_updated_at = 0, rq_resolved_at = None, rq_expires_at = None \<rparr>"

definition demo_store :: "request_status \<Rightarrow> store" where
  "demo_store st =
     \<lparr> st_databases = [''app:prod''], st_requests = [demo_request st], st_approvals = [], st_pending = [],
       st_executions = [], st_results = [], st_access = [], st_audit = [] \<rparr>"

definition demo_env :: call_env where
  "demo_env =
     \<lparr> ce_lib = demo_lib,
       ce_audit = \<lparr> au_signer = None, au_interval = 100, au_ids = (''e1'', ''e2''), au_wall = (1, 1) \<rparr>,
       ce_faults = no_faults, ce_now = 1, ce_tx_now = 1, ce_id = ''a1'' \<rparr>"

definition demo_vote :: approve_input where
  "demo_vote = \<lparr> ai_request_id = ''r1'', ai_comment = None, ai_selector = None \<rparr>"

lemma demo_store_ok: "store_ok (demo_store st)"
  by (simp add: store_ok_def keys_ok_def refs_ok_def demo_store_def demo_request_def rq_database_id_def
      database_id_def idempotency_unique_def approve_unique_def claim_unique_def)

lemmas demo_defs = demo_workflow_def demo_lib_def demo_request_def demo_store_def demo_env_def demo_vote_def
  dba_user_def one_step_def example_lib_def no_faults_def

lemma demo_vote_passes:
  "approve_checks demo_env demo_vote dba_user (demo_store Pending) = Inr (demo_request Pending, demo_workflow)"
  by (simp add: demo_defs approve_checks_def too_long_def get_request_def find_row_def expired_at_def
      read_workflow_def approvals_of_def find_current_step_def is_step_satisfied_def group_count_def
      step_approvals_of_def as_u32_def authorize_approval_def is_approvable_by_def
      is_approvable_by_attrs_inner_def already_approved_def previous_approver_ids_def Let_def)

text \<open>When the operations of the transaction succeed.\<close>

definition audit_ids_fresh :: "audit_env \<Rightarrow> store \<Rightarrow> bool" where
  "audit_ids_fresh env s \<longleftrightarrow>
     fst (au_ids env) \<noteq> snd (au_ids env)
     \<and> list_all (\<lambda>r. ar_id r \<noteq> fst (au_ids env) \<and> ar_id r \<noteq> snd (au_ids env)) (st_audit s)"

lemma audit_row_of_id [simp]: "ar_id (audit_row_of lib t i ev) = i"
  by (simp add: audit_row_of_def Let_def)

lemma record_event_succeeds:
  assumes "audit_ids_fresh env s"
  shows "\<exists>t. record_event lib env ev s = Inr ((), s\<lparr> st_audit := t \<rparr>)"
proof -
  have "insert_audit_event lib (fst (au_ids env)) ev (st_audit s)
      = Inr (st_audit s @ [audit_row_of lib (st_audit s) (fst (au_ids env)) ev])"
    using assms by (auto simp: insert_audit_event_def audit_ids_fresh_def list_ex_iff list_all_iff)
  moreover have "insert_audit_event lib (snd (au_ids env)) cp (st_audit s @ [audit_row_of lib (st_audit s) (fst (au_ids env)) ev])
      \<noteq> Inl e" for cp e
    using assms by (auto simp: insert_audit_event_def audit_ids_fresh_def list_ex_iff list_all_iff)
  ultimately show ?thesis
    by (cases "au_signer env")
      (auto simp: record_event_def record_audit_def head_hash_def Let_def map_err_def split: sum.splits)
qed

lemma populate_total: "\<exists>p. populate_pending_approvers lib i snap step s = Inr ((), s\<lparr> st_pending := p \<rparr>)"
  unfolding populate_pending_approvers_def Let_def by (intro exI) (rule refl)

lemma insert_approval_succeeds:
  assumes "get_request s (ap_request_id a) = Some r" and "\<forall>b \<in> set (st_approvals s). ap_id b \<noteq> ap_id a"
    and "\<not> already_approved (ap_step_index a) (ap_actor_id a) (approvals_of s (ap_request_id a))"
    and "read_workflow lib (rq_workflow_snapshot_json r) = Inr (Some w)"
  shows "\<exists>p. insert_approval lib a s = Inr ((), s\<lparr> st_approvals := st_approvals s @ [a], st_pending := p \<rparr>)"
proof -
  have "insert_approval_row a s = Inr (s\<lparr> st_approvals := st_approvals s @ [a] \<rparr>)"
    using assms(1-3) find_row_Some [of "\<lambda>q. rq_id q = ap_request_id a" "st_requests s" r]
    by (auto simp: insert_approval_row_Inr get_request_def already_approved_def list_ex_iff set_approvals_of)
  moreover obtain js where "rq_workflow_snapshot_json r = Some js" and "x_workflow_read lib js = Some w"
    using assms(4) by (auto simp: read_workflow_def split: option.splits)
  moreover have "get_request (s\<lparr> st_approvals := q \<rparr>) j = get_request s j" for q j
    by (simp add: get_request_def)
  moreover obtain p where "populate_pending_approvers lib (ap_request_id a) (Some js)
      (find_current_step (wf_steps w) (approvals_of (s\<lparr> st_approvals := st_approvals s @ [a] \<rparr>) (ap_request_id a)))
      (s\<lparr> st_approvals := st_approvals s @ [a] \<rparr>) = Inr ((), s\<lparr> st_approvals := st_approvals s @ [a], st_pending := p \<rparr>)"
    using populate_total [where s = "s\<lparr> st_approvals := st_approvals s @ [a] \<rparr>"] by blast
  ultimately show ?thesis
    using assms(1)
    by (intro exI [of _ p]) (simp add: insert_approval_def current_step_of_snapshot_def Let_def)
qed

lemma vote_succeeds:
  assumes "store_ok s" and chk: "approve_checks env input user s = Inr (request, w)"
    and "\<not> expired_at (ce_tx_now env) (rq_expires_at request)"
    and "choose_selector (ai_selector input)
       (matched_selectors_by_attrs (role_names user) (au_groups user) (au_subject_id user)
         (ws_approvers (wf_steps w ! unat (find_current_step (wf_steps w) (approvals_of s (rq_id request))))))
       (wf_steps w ! unat (find_current_step (wf_steps w) (approvals_of s (rq_id request))))
       (find_current_step (wf_steps w) (approvals_of s (rq_id request))) (approvals_of s (rq_id request)) = Inr sel"
    and "\<forall>b \<in> set (st_approvals s). ap_id b \<noteq> ce_id env" and "audit_ids_fresh (ce_audit env) s"
    and "ce_faults env = no_faults"
  shows "\<exists>out s' hook. approve_request env input user ctx s = (Inr out, s', [hook])"
proof -
  let ?i = "rq_id request" and ?votes = "approvals_of s (rq_id request)"
  let ?current = "find_current_step (wf_steps w) ?votes"
  let ?a = "approval_row env request user input sel ?current"
  note c = approve_checks_Inr [OF chk]
  have more: "?current < as_u32 (length (wf_steps w))" "\<not> already_approved ?current (au_subject_id user) ?votes"
    "is_approvable_by user (ws_approvers (wf_steps w ! unat ?current)) (rq_requester request)
       (previous_approver_ids ?current ?votes) (wf_allow_self_approve w) (wf_allow_same_approver_across_steps w)"
    using chk c(4) by (auto simp: approve_checks_def res_simps Let_def authorize_approval_def split: if_splits)
  then have appr: "is_approvable_by_attrs (au_subject_id user) (role_names user) (au_groups user)
       (ws_approvers (wf_steps w ! unat ?current)) (rq_requester request)
       (previous_approver_ids ?current ?votes) (wf_allow_self_approve w) (wf_allow_same_approver_across_steps w)"
    by (simp add: is_approvable_by_def is_approvable_by_attrs_def role_names_def)
  have req: "get_request s ?i = Some request" using c(1,5) by simp
  obtain p where ins: "insert_approval (ce_lib env) ?a s
      = Inr ((), s\<lparr> st_approvals := st_approvals s @ [?a], st_pending := p \<rparr>)" (is "_ = Inr ((), ?s1)")
    using insert_approval_succeeds [of s ?a request "ce_lib env" w] req c(3) assms(5) more(2)
    by (auto simp: approval_row_def)
  have ok1: "store_ok ?s1" using keeps_invD [OF insert_approval_ok assms(1) ins] .
  have req1: "get_request ?s1 ?i = Some request" using req by (simp add: get_request_def)
  have "not_expired (ce_tx_now env) request"
    using assms(3) by (auto simp: expired_at_def not_expired_def split: option.splits)
  then obtain q where mk: "mark_approved ?i (ce_tx_now env) ?s1 = Inr (True, ?s1\<lparr> st_requests := q \<rparr>)"
    using update_request_hit [OF ok1 req1, of "\<lambda>r. rq_status r = Pending \<and> not_expired (ce_tx_now env) r"
        "\<lambda>r. r\<lparr> rq_status := Approved, rq_updated_at := ce_tx_now env, rq_resolved_at := Some (ce_tx_now env) \<rparr>"] c(2)
    by (auto simp: mark_approved_def)
  have fresh: "audit_ids_fresh (ce_audit env) ?s1" "audit_ids_fresh (ce_audit env) (?s1\<lparr> st_requests := q \<rparr>)"
    using assms(6) by (simp_all add: audit_ids_fresh_def)
  note recs = record_event_succeeds [OF fresh(1), of "ce_lib env"] record_event_succeeds [OF fresh(2), of "ce_lib env"]
  let ?fin = "all_steps_satisfied (wf_steps w) (?votes @ [?a])"
  define m where "m = (if ?fin then MApproved (ai_comment input) sel
     else MStepApproved ?current (as_u32 (length (wf_steps w))) (ai_comment input) sel)"
  obtain res where tr: "transition_or_conflict Pending (if ?fin then TApproveFinal else TApproveStep)
      (event_context request user ctx (ce_tx_now env) m) = Inr res"
    by (cases ?fin) (simp_all add: transition_or_conflict_def transition_def)
  let ?ev = "audit_of (ce_lib env) (tr_event res) (ce_tx_now env)"
  obtain t1 t2 where rec: "record_event (ce_lib env) (ce_audit env) ?ev ?s1 = Inr ((), t1)"
    "record_event (ce_lib env) (ce_audit env) ?ev (?s1\<lparr> st_requests := q \<rparr>) = Inr ((), t2)"
    using recs by metis
  have "\<exists>x s'. approve_tx env request w user ctx input s = Inr (x, s')"
    using tr assms(3,4) c(2) more(1,2) appr req ins mk rec
    by (cases ?fin)
      (simp_all add: approve_tx_def Let_def thenT_def get_request_state_def get_approvals_def m_def)
  then show ?thesis
    using chk assms(7) by (auto simp: approve_request_def uow.clean)
qed

lemma demo_vote_succeeds:
  "\<exists>out s' hook. approve_request demo_env demo_vote dba_user CtxSystem (demo_store Pending) = (Inr out, s', [hook])"
  by (rule vote_succeeds [OF demo_store_ok demo_vote_passes, where sel = "''role:dba''"])
    (simp_all add: demo_defs expired_at_def approvals_of_def find_current_step_def is_step_satisfied_def
      group_count_def step_approvals_of_def as_u32_def choose_selector_def matched_selectors_by_attrs_def
      role_names_def selector_count_def selector_required_def audit_ids_fresh_def Let_def)

theorem approve_request_sound_witness:
  "\<exists>out s' hooks r w row rest. approve_request demo_env demo_vote dba_user CtxSystem (demo_store Pending) = (Inr out, s', hooks)
     \<and> get_request (demo_store Pending) ''r1'' = Some r \<and> rq_status r = Pending
     \<and> read_workflow demo_lib (rq_workflow_snapshot_json r) = Inr (Some w)
     \<and> au_subject_id dba_user \<noteq> rq_requester r
     \<and> st_audit s' = row # rest \<and> ar_request_id row = Some ''r1''
     \<and> ao_status out = (if all_steps_satisfied (wf_steps w) (approvals_of s' ''r1'') then Approved else Pending)"
proof -
  obtain out s' hook where run: "approve_request demo_env demo_vote dba_user CtxSystem (demo_store Pending) = (Inr out, s', [hook])"
    using demo_vote_succeeds by blast
  have w: "wf_allow_self_approve w \<longleftrightarrow> False" if "read_workflow demo_lib (rq_workflow_snapshot_json r) = Inr (Some w)" for r :: request and w
    using that by (auto simp: read_workflow_def demo_lib_def demo_workflow_def split: option.splits)
  have e: "ai_request_id demo_vote = ''r1''" "ce_lib demo_env = demo_lib" "st_audit (demo_store Pending) = []"
    by (simp_all add: demo_vote_def demo_env_def demo_store_def)
  obtain r w row rest where h: "get_request (demo_store Pending) ''r1'' = Some r" "rq_status r = Pending"
    "read_workflow demo_lib (rq_workflow_snapshot_json r) = Inr (Some w)"
    "wf_allow_self_approve w \<or> au_subject_id dba_user \<noteq> rq_requester r"
    "st_audit s' = row # rest" "ar_request_id row = Some ''r1''"
    "ao_status out = (if all_steps_satisfied (wf_steps w) (approvals_of s' ''r1'') then Approved else Pending)"
    using approve_request_sound [OF demo_store_ok run] unfolding e Let_def append_Nil
    by (elim exE conjE) (rule that; assumption)
  then have "au_subject_id dba_user \<noteq> rq_requester r" using w [OF h(3)] by simp
  then show ?thesis
    using h run by (intro exI conjI) assumption+
qed

text \<open>Who may vote, said without the checks of the code: the votes of a selector in a step, when a step is complete, whom a
  selector means, and which selectors of a step are still open to a user.\<close>

definition votes_for :: "store \<Rightarrow> string \<Rightarrow> nat \<Rightarrow> string \<Rightarrow> nat" where
  "votes_for s i k sel =
     length (filter (\<lambda>a. ap_request_id a = i \<and> ap_step_index a = as_u32 k \<and> ap_action a = Approve
       \<and> ap_matched_selector a = sel) (st_approvals s))"

definition step_complete :: "store \<Rightarrow> string \<Rightarrow> nat \<Rightarrow> workflow_step \<Rightarrow> bool" where
  "step_complete s i k step \<longleftrightarrow>
     (case ws_mode step of
        ModeAll \<Rightarrow> \<forall>g \<in> set (ws_approvers step). unat (ag_min g) \<le> votes_for s i k (selector_to_string (ag_selector g))
      | ModeAny \<Rightarrow> \<exists>g \<in> set (ws_approvers step). unat (ag_min g) \<le> votes_for s i k (selector_to_string (ag_selector g)))"

fun means :: "selector \<Rightarrow> auth_user \<Rightarrow> bool" where
  "means Requester user = False"
| "means (Role r) user = (r \<in> rr_name ` set (au_roles user))"
| "means (Group g) user = (g \<in> set (au_groups user))"
| "means (User u) user = (u = au_subject_id user)"

definition open_selector :: "store \<Rightarrow> string \<Rightarrow> nat \<Rightarrow> workflow_step \<Rightarrow> auth_user \<Rightarrow> string \<Rightarrow> bool" where
  "open_selector s i k step user sel \<longleftrightarrow>
     (\<exists>g \<in> set (ws_approvers step). means (ag_selector g) user \<and> selector_to_string (ag_selector g) = sel
        \<and> votes_for s i k sel < unat (ag_min g))"

definition voted :: "store \<Rightarrow> string \<Rightarrow> nat \<Rightarrow> string \<Rightarrow> bool" where
  "voted s i k who \<longleftrightarrow>
     (\<exists>a \<in> set (st_approvals s). ap_request_id a = i \<and> ap_step_index a = as_u32 k \<and> ap_action a = Approve \<and> ap_actor_id a = who)"

lemma means_matches: "selector_matches sel (role_names user) (au_groups user) (au_subject_id user) False \<longleftrightarrow> means sel user"
  by (cases sel) (auto simp: role_names_def list_ex_iff)

lemma length_filter_approvals:
  "length (filter P (approvals_of s i)) = length (filter (\<lambda>a. ap_request_id a = i \<and> P a) (st_approvals s))"
  by (simp add: approvals_of_def filter_sort conj_commute)

lemma votes_count:
  assumes "length (st_approvals s) < 2 ^ 32"
  shows "unat (selector_count (as_u32 k) sel (approvals_of s i)) = votes_for s i k sel"
    and "unat (group_count (step_approvals_of (as_u32 k) (approvals_of s i)) g) = votes_for s i k (selector_to_string (ag_selector g))"
proof -
  have small: "votes_for s i k x < 2 ^ 32" for x
    unfolding votes_for_def by (rule le_less_trans [OF length_filter_le assms])
  then show "unat (selector_count (as_u32 k) sel (approvals_of s i)) = votes_for s i k sel"
    by (simp add: selector_count_def length_filter_approvals votes_for_def [symmetric] unat_as_u32_id)
  show "unat (group_count (step_approvals_of (as_u32 k) (approvals_of s i)) g) = votes_for s i k (selector_to_string (ag_selector g))"
    using small [of "selector_to_string (ag_selector g)"]
    by (simp add: group_count_def step_approvals_of_def length_filter_approvals conj_ac)
      (simp add: votes_for_def unat_as_u32_id conj_ac)
qed

lemma step_complete_iff:
  assumes "length (st_approvals s) < 2 ^ 32"
  shows "is_step_satisfied step (as_u32 k) (approvals_of s i) \<longleftrightarrow> step_complete s i k step"
  by (simp add: is_step_satisfied_def step_complete_def Let_def list_all_iff list_ex_iff word_le_nat_alt votes_count [OF assms]
      split: workflow_step_mode.split)

lemma current_step_is:
  assumes "length (wf_steps w) < 2 ^ 32" and "length (st_approvals s) < 2 ^ 32" and "k < length (wf_steps w)"
    and "\<forall>j < k. step_complete s i j (wf_steps w ! j)" and "\<not> step_complete s i k (wf_steps w ! k)"
  shows "find_current_step (wf_steps w) (approvals_of s i) = as_u32 k"
proof -
  let ?c = "find_current_step (wf_steps w) (approvals_of s i)"
  note spec = current_step_spec [OF assms(1), where approvals = "approvals_of s i"]
  have "\<not> k < unat ?c" using spec(2) [of k] step_complete_iff [OF assms(2)] assms(5) by blast
  moreover have "\<not> unat ?c < k"
    using spec(3) step_complete_iff [OF assms(2), of "wf_steps w ! unat ?c" "unat ?c" i] assms(3,4) by auto
  ultimately have "unat ?c = k" by linarith
  then show ?thesis by (metis as_u32_unat)
qed

lemma find_distinct: "distinct (map f xs) \<Longrightarrow> x \<in> set xs \<Longrightarrow> find (\<lambda>y. f y = f x) xs = Some x"
  by (induction xs) (auto intro: rev_image_eqI)

lemma distinct_singleton_list: "distinct xs \<Longrightarrow> set xs = {x} \<Longrightarrow> xs = [x]"
  by (cases xs) (auto simp: subset_singleton_iff)

lemma open_selector_chosen:
  assumes "length (st_approvals s) < 2 ^ 32"
    and "distinct (map (\<lambda>g. selector_to_string (ag_selector g)) (ws_approvers step))"
    and "open_selector s i k step user sel"
    and "ai_selector input = Some sel \<or> ai_selector input = None \<and> (\<forall>x. open_selector s i k step user x \<longrightarrow> x = sel)"
  shows "choose_selector (ai_selector input)
     (matched_selectors_by_attrs (role_names user) (au_groups user) (au_subject_id user) (ws_approvers step))
     step (as_u32 k) (approvals_of s i) = Inr sel"
proof -
  let ?all = "matched_selectors_by_attrs (role_names user) (au_groups user) (au_subject_id user) (ws_approvers step)"
  let ?free = "\<lambda>x. selector_count (as_u32 k) x (approvals_of s i) < selector_required step x"
  have req: "selector_required step (selector_to_string (ag_selector g)) = ag_min g" if "g \<in> set (ws_approvers step)" for g
    using find_distinct [OF assms(2) that] by (simp add: selector_required_def)
  have free: "x \<in> set ?all \<and> ?free x \<longleftrightarrow> open_selector s i k step user x" for x
    unfolding open_selector_def matched_selectors_by_attrs_def
    by (auto simp: means_matches req word_less_nat_alt votes_count [OF assms(1)])
  have "distinct ?all"
    using assms(2) unfolding matched_selectors_by_attrs_def by (rule distinct_map_filter)
  then have "filter ?free ?all = [sel]" if "\<forall>x. open_selector s i k step user x \<longrightarrow> x = sel"
  proof -
    have "set (filter ?free ?all) = {x. open_selector s i k step user x}" by (simp only: set_filter free)
    also have "\<dots> = {sel}" using that assms(3) by blast
    finally have "set (filter ?free ?all) = {sel}" .
    moreover have "distinct (filter ?free ?all)" using \<open>distinct ?all\<close> by (rule distinct_filter)
    ultimately show ?thesis by (rule distinct_singleton_list [rotated])
  qed
  moreover have "sel \<in> set ?all" "?free sel" using assms(3) free by blast+
  ultimately show ?thesis
    using assms(4) by (auto simp: choose_selector_def Let_def not_le)
qed

text \<open>C24: An eligible vote is not lost. Let a request be pending and not expired, its stored workflow readable, and the step with
  number k its first incomplete one. A user token of somebody whom an approver group of this step means, who is not the requester
  (unless the workflow allows it), has approved no earlier step (unless it allows it) and not yet this one, votes
  with a comment of at most 1024 bytes, naming a group that still lacks votes, or none if only one such group is open to the
  voter. Then the approval succeeds, adds this vote to the step under this group, and one notification goes out,
  provided the identifiers drawn are fresh, no approver group of the step is listed twice, and SQLite reports no fault.\<close>

theorem eligible_vote_accepted:
  assumes "store_ok s" and "get_request s (ai_request_id input) = Some r" and "rq_status r = Pending"
    and "\<forall>c. ai_comment input = Some c \<longrightarrow> length c \<le> 1024"
    and "\<forall>t. rq_expires_at r = Some t \<longrightarrow> ce_now env < t \<and> ce_tx_now env < t"
    and "rq_workflow_snapshot_json r = Some js" and "x_workflow_read (ce_lib env) js = Some w"
    and "length (wf_steps w) < 2 ^ 32" and "length (st_approvals s) < 2 ^ 32"
    and "k < length (wf_steps w)" and "\<forall>j < k. step_complete s (rq_id r) j (wf_steps w ! j)"
    and "\<not> step_complete s (rq_id r) k (wf_steps w ! k)"
    and "au_subject_type user = SubjUser" and "wf_allow_self_approve w \<or> au_subject_id user \<noteq> rq_requester r"
    and "wf_allow_same_approver_across_steps w \<or> (\<forall>j < k. \<not> voted s (rq_id r) j (au_subject_id user))"
    and "\<not> voted s (rq_id r) k (au_subject_id user)"
    and "distinct (map (\<lambda>g. selector_to_string (ag_selector g)) (ws_approvers (wf_steps w ! k)))"
    and "open_selector s (rq_id r) k (wf_steps w ! k) user sel"
    and "ai_selector input = Some sel
      \<or> ai_selector input = None \<and> (\<forall>x. open_selector s (rq_id r) k (wf_steps w ! k) user x \<longrightarrow> x = sel)"
    and "\<forall>b \<in> set (st_approvals s). ap_id b \<noteq> ce_id env" and "audit_ids_fresh (ce_audit env) s"
    and "ce_faults env = no_faults"
  shows "\<exists>out s' hook a. approve_request env input user ctx s = (Inr out, s', [hook])
     \<and> st_approvals s' = st_approvals s @ [a] \<and> ap_request_id a = rq_id r \<and> ap_action a = Approve
     \<and> ap_actor_id a = au_subject_id user \<and> ap_step_index a = as_u32 k \<and> ap_matched_selector a = sel"
proof -
  let ?i = "rq_id r" and ?u = "au_subject_id user" and ?step = "wf_steps w ! k"
  let ?cur = "find_current_step (wf_steps w) (approvals_of s ?i)"
  have cur: "?cur = as_u32 k" by (rule current_step_is [OF assms(8-12)])
  have k: "unat (as_u32 k) = k" using assms(8,10) by (simp add: unat_as_u32_id)
  note sel = open_selector_chosen [OF assms(9,17-19)]
  have open_ne: "matched_selectors_by_attrs (role_names user) (au_groups user) ?u (ws_approvers ?step) \<noteq> []"
    using assms(18) by (auto simp: open_selector_def matched_selectors_by_attrs_def filter_empty_conv means_matches)
  have small: "x = as_u32 (unat x)" for x by simp
  have prev: "?u \<notin> set (previous_approver_ids (as_u32 k) (approvals_of s ?i))" if "\<forall>j < k. \<not> voted s ?i j ?u"
  proof
    assume "?u \<in> set (previous_approver_ids (as_u32 k) (approvals_of s ?i))"
    then obtain a where "a \<in> set (st_approvals s)" "ap_request_id a = ?i" "ap_step_index a < as_u32 k" "ap_action a = Approve" "ap_actor_id a = ?u"
      by (auto simp: previous_approver_ids_def set_approvals_of)
    then have "unat (ap_step_index a) < k \<and> voted s ?i (unat (ap_step_index a)) ?u"
      by (auto simp: voted_def word_less_nat_alt k)
    with that show False by blast
  qed
  then have "is_approvable_by user (ws_approvers ?step) (rq_requester r) (previous_approver_ids (as_u32 k) (approvals_of s ?i))
      (wf_allow_self_approve w) (wf_allow_same_approver_across_steps w)"
    using assms(14,15) open_ne
    by (auto simp: is_approvable_by_def is_approvable_by_attrs_inner_def role_names_def matched_selectors_ne)
  moreover have "\<not> already_approved (as_u32 k) ?u (approvals_of s ?i)"
    using assms(16) by (auto simp: already_approved_def voted_def list_ex_iff set_approvals_of)
  moreover have "as_u32 k < as_u32 (length (wf_steps w))"
    using assms(8,10) by (simp add: word_less_nat_alt unat_as_u32_id)
  ultimately have chk: "approve_checks env input user s = Inr (r, w)"
    using assms(2-7,13) cur k
    by (auto simp: approve_checks_def too_long_def expired_at_def read_workflow_def authorize_approval_def Let_def guardE_def
        split: option.split)
  have "\<not> expired_at (ce_tx_now env) (rq_expires_at r)"
    using assms(5) by (auto simp: expired_at_def split: option.split)
  from vote_succeeds [OF assms(1) chk this _ assms(20-22)] sel obtain out s' hook
    where run: "approve_request env input user ctx s = (Inr out, s', [hook])"
    unfolding cur k by blast
  obtain fin n ev where "approve_tx env r w user ctx input s = Inr ((ao_status out, ao_matched_selector out, fin, n, ev), s')"
    using approve_request_Inr [OF run] chk by (metis Inr_inject Pair_inject)
  then have eff: "approval_effect env r w user input (ao_matched_selector out) ev s s'" using approve_tx_Inr by blast
  then have "ao_matched_selector out = sel"
    using sel unfolding approval_effect_def Let_def cur k by (metis Inr_inject)
  moreover have "st_approvals s' = st_approvals s @ [approval_row env r user input (ao_matched_selector out) ?cur]"
    using approval_effect_store [OF assms(1) eff] by blast
  ultimately show ?thesis using run by (auto simp: approval_row_def cur)
qed

lemma demo_no_votes [simp]: "votes_for (demo_store st) i k sel = 0" "\<not> voted (demo_store st) i k who"
  by (simp_all add: votes_for_def voted_def demo_store_def)

theorem eligible_vote_accepted_witness:
  "\<exists>out s' hook a. approve_request demo_env demo_vote dba_user CtxSystem (demo_store Pending) = (Inr out, s', [hook])
     \<and> st_approvals s' = st_approvals (demo_store Pending) @ [a] \<and> ap_request_id a = rq_id (demo_request Pending) \<and> ap_action a = Approve
     \<and> ap_actor_id a = au_subject_id dba_user \<and> ap_step_index a = as_u32 0 \<and> ap_matched_selector a = ''role:dba''"
proof (rule eligible_vote_accepted [OF demo_store_ok])
  have step: "ws_approvers (wf_steps demo_workflow ! 0) = [\<lparr> ag_selector = Role ''dba'', ag_min = 1 \<rparr>]"
    "ws_mode (wf_steps demo_workflow ! 0) = ModeAny" "length (wf_steps demo_workflow) = 1"
    by (simp_all add: demo_workflow_def one_step_def)
  show "get_request (demo_store Pending) (ai_request_id demo_vote) = Some (demo_request Pending)"
    by (simp add: demo_defs get_request_def find_row_def)
  show "rq_workflow_snapshot_json (demo_request Pending) = Some ''w''" "x_workflow_read (ce_lib demo_env) ''w'' = Some demo_workflow"
    by (simp_all add: demo_defs)
  show "open_selector (demo_store Pending) (rq_id (demo_request Pending)) 0 (wf_steps demo_workflow ! 0) dba_user ''role:dba''"
    by (simp add: open_selector_def step) (simp add: dba_user_def)
  show "ai_selector demo_vote = Some ''role:dba'' \<or> ai_selector demo_vote = None \<and>
      (\<forall>x. open_selector (demo_store Pending) (rq_id (demo_request Pending)) 0 (wf_steps demo_workflow ! 0) dba_user x \<longrightarrow> x = ''role:dba'')"
    by (simp add: open_selector_def step demo_vote_def)
  show "\<not> step_complete (demo_store Pending) (rq_id (demo_request Pending)) 0 (wf_steps demo_workflow ! 0)"
    by (simp add: step_complete_def step)
  show "distinct (map (\<lambda>g. selector_to_string (ag_selector g)) (ws_approvers (wf_steps demo_workflow ! 0)))" by (simp add: step)
  show "\<not> voted (demo_store Pending) (rq_id (demo_request Pending)) 0 (au_subject_id dba_user)" by simp
qed (simp_all add: demo_defs audit_ids_fresh_def)

lemma decision_tx_ok [keeps_intros]:
  "keeps_inv store_ok (approve_tx env request w user ctx input)"
  "keeps_inv store_ok (reject_tx env i a ev)" "keeps_inv store_ok (cancel_tx env mode i u reason ev)"
  unfolding approve_tx_def reject_tx_def cancel_tx_def by (intro keeps_intros)+

lemma reject_request_Inr:
  assumes "reject_request env input user ctx s = (Inr out, s', hooks)"
  obtains request a ev where "reject_checks env input user ctx s = Inr (request, a, ev)"
    and "reject_tx env (rq_id request) a ev s = Inr ((), s')" and "hooks = [build_webhook_event (ce_lib env) ev]"
  using assms uow.commits
  by (fastforce simp: reject_request_def refused_def split: sum.splits prod.splits)

lemma reject_checks_Inr:
  assumes "reject_checks env input user ctx s = Inr (r, a, ev)"
  shows "get_request s (rj_request_id input) = Some r \<and> rq_id r = rj_request_id input
    \<and> au_subject_type user = SubjUser
    \<and> ap_action a = Reject \<and> ap_actor_id a = au_subject_id user \<and> ap_request_id a = rq_id r
    \<and> te_request_id ev = rq_id r \<and> te_metadata ev = MRejected (rj_comment input)"
proof -
  have req: "get_request s (rj_request_id input) = Some r"
    using assms by (auto simp: reject_checks_def res_simps Let_def)
  have ev: "te_request_id (tr_event res) = rq_id r \<and> te_metadata (tr_event res) = MRejected (rj_comment input)"
    if "transition (rq_status r) TReject (event_context r user ctx (ce_now env) (MRejected (rj_comment input))) = Inr res" for res
    using transition_event_status [OF that] by (simp add: event_context_def)
  have "rq_id r = rj_request_id input"
    using req find_row_Some unfolding get_request_def by fastforce
  moreover have "au_subject_type user = SubjUser"
    using assms rbac.approval_gate by (auto simp: reject_checks_def res_simps Let_def)
  moreover have "ap_action a = Reject \<and> ap_actor_id a = au_subject_id user \<and> ap_request_id a = rq_id r
    \<and> te_request_id ev = rq_id r \<and> te_metadata ev = MRejected (rj_comment input)"
    using assms ev by (auto simp: reject_checks_def res_simps Let_def)
  ultimately show ?thesis using req by blast
qed

text \<open>A successful rejection came from a user token and turned a pending, unexpired request into
  a rejected one; it added one rejection to the votes and one audit entry that names the request
  and carries the comment as its reason.\<close>

theorem reject_request_sound:
  assumes "store_ok s" and "reject_request env input user ctx s = (Inr out, s', hooks)"
  defines "i \<equiv> rj_request_id input"
  shows "\<exists>r r' a row rest. get_request s i = Some r \<and> rq_status r = Pending \<and> not_expired (ce_now env) r
     \<and> au_subject_type user = SubjUser
     \<and> get_request s' i = Some r' \<and> rq_status r' = Rejected \<and> rq_core r' = rq_core r
     \<and> st_approvals s' = st_approvals s @ [a] \<and> ap_action a = Reject \<and> ap_actor_id a = au_subject_id user
     \<and> st_audit s' = st_audit s @ row # rest \<and> ar_request_id row = Some i \<and> ar_event_type row = ''request.rejected''"
proof -
  obtain r a ev where chk: "reject_checks env input user ctx s = Inr (r, a, ev)"
    and tx: "reject_tx env (rq_id r) a ev s = Inr ((), s')"
    using reject_request_Inr [OF assms(2)] by metis
  note c = reject_checks_Inr [OF chk]
  from tx obtain s1 s2 where ins: "insert_approval (ce_lib env) a s = Inr ((), s1)"
    and mk: "mark_rejected (rq_id r) (ce_now env) s1 = Inr (True, s2)"
    and rec: "record_event (ce_lib env) (ce_audit env) (audit_of (ce_lib env) ev (ce_now env)) s2 = Inr ((), s')"
    by (auto simp: reject_tx_def tx_simps)
  obtain p where s1: "s1 = s\<lparr> st_approvals := st_approvals s @ [a], st_pending := p \<rparr>"
    using ins by (rule insert_approval_Inr)
  have ok1: "store_ok s1" using keeps_invD [OF insert_approval_ok assms(1) ins] .
  obtain r0 q where s2: "s2 = s1\<lparr> st_requests := q \<rparr>" and r0: "get_request s1 (rq_id r) = Some r0"
    "rq_status r0 = Pending \<and> not_expired (ce_now env) r0"
    and g2: "get_request s2 (rq_id r) = Some (r0\<lparr> rq_status := Rejected, rq_updated_at := ce_now env,
      rq_resolved_at := Some (ce_now env) \<rparr>)"
    using update_request_True [OF ok1 mk [unfolded mark_rejected_def]] by auto
  obtain t rest where s': "s' = s2\<lparr> st_audit := t \<rparr>"
    and t: "t = st_audit s2 @ audit_row_of (ce_lib env) (st_audit s2) (fst (au_ids (ce_audit env)))
      (audit_of (ce_lib env) ev (ce_now env)) # rest"
    using rec by (rule record_event_Inr)
  let ?row = "audit_row_of (ce_lib env) (st_audit s) (fst (au_ids (ce_audit env))) (audit_of (ce_lib env) ev (ce_now env))"
  have r0': "r0 = r" using c r0(1) by (simp add: s1 get_request_def)
  have tables: "st_approvals s' = st_approvals s @ [a]" "st_audit s' = st_audit s @ ?row # rest"
    by (simp_all add: s' s2 s1 t)
  have row: "ar_request_id ?row = Some i" "ar_event_type ?row = ''request.rejected''"
    using c by (simp_all add: audit_of_fields event_type_and_category_def i_def)
  have "get_request s' i = Some (r\<lparr> rq_status := Rejected, rq_updated_at := ce_now env, rq_resolved_at := Some (ce_now env) \<rparr>)"
    using g2 c by (simp add: s' get_request_def r0' i_def)
  then show ?thesis
    using c r0(2) tables row unfolding i_def r0'
    by (intro exI [of _ r] exI [of _ "r\<lparr> rq_status := Rejected, rq_updated_at := ce_now env, rq_resolved_at := Some (ce_now env) \<rparr>"]
        exI [of _ a] exI [of _ ?row] exI [of _ rest]) simp
qed

definition demo_reject :: reject_input where
  "demo_reject = \<lparr> rj_request_id = ''r1'', rj_comment = None \<rparr>"

lemmas demo_eval = demo_defs too_long_def get_request_def find_row_def expired_at_def
  read_workflow_def approvals_of_def find_current_step_def is_step_satisfied_def group_count_def
  step_approvals_of_def as_u32_def authorize_approval_def is_approvable_by_def
  is_approvable_by_attrs_inner_def already_approved_def previous_approver_ids_def Let_def
  transition_or_conflict_def transition_def event_context_def run_in_tx_def thenT_def checkT_def liftT_def
  insert_approval_def insert_approval_row_def current_step_of_snapshot_def populate_pending_approvers_def
  mark_rejected_def mark_cancelled_def update_request_def affected_def upd_where_def not_expired_def
  record_event_def record_audit_def insert_audit_event_def

lemma demo_reject_succeeds:
  "\<exists>out s' hooks. reject_request demo_env demo_reject dba_user CtxSystem (demo_store Pending) = (Inr out, s', hooks)"
  by (simp add: reject_request_def reject_checks_def reject_tx_def demo_reject_def demo_eval)

theorem reject_request_sound_witness:
  "\<exists>s' r r' row rest. get_request (demo_store Pending) ''r1'' = Some r \<and> rq_status r = Pending
     \<and> get_request s' ''r1'' = Some r' \<and> rq_status r' = Rejected
     \<and> st_audit s' = st_audit (demo_store Pending) @ row # rest \<and> ar_request_id row = Some ''r1''"
proof -
  obtain out s' hooks where run: "reject_request demo_env demo_reject dba_user CtxSystem (demo_store Pending) = (Inr out, s', hooks)"
    using demo_reject_succeeds by blast
  have i: "rj_request_id demo_reject = ''r1''" by (simp add: demo_reject_def)
  show ?thesis
    using reject_request_sound [OF demo_store_ok run] unfolding i by blast
qed

text \<open>A successful cancellation came from the requester, or from someone with ownership of all
  requests in that scope who gave a reason; the request was in a cancellable state and is now
  cancelled, with the actor and the reason recorded, and one audit entry names it.\<close>

theorem cancel_request_sound:
  assumes "store_ok s" and "cancel_request env mode input user ctx s = (Inr out, s', hooks)"
  defines "i \<equiv> ki_request_id input"
  shows "\<exists>r row rest. get_request s i = Some r \<and> is_cancellable (rq_status r)
     \<and> (au_subject_id user = rq_requester r
        \<or> effective_ownership user RequestCancel (rq_database r) (rq_environment r) = AnyOwner
          \<and> ki_reason input \<noteq> None)
     \<and> get_request s' i = Some (cancel_row (au_subject_id user) (ki_reason input) (ce_now env) r)
     \<and> st_approvals s' = st_approvals s
     \<and> st_audit s' = st_audit s @ row # rest \<and> ar_request_id row = Some i"
proof -
  obtain r ev where chk: "cancel_checks env input user ctx s = Inr (r, ev)"
    and tx: "cancel_tx env mode (rq_id r) (au_subject_id user) (ki_reason input) ev s = Inr ((), s')"
    using assms(2) uow.commits
    by (fastforce simp: cancel_request_def refused_def split: sum.splits prod.splits)
  have req: "get_request s i = Some r"
    and reason: "\<not> (au_subject_id user \<noteq> rq_requester r \<and> ki_reason input = None)"
    and auth: "authorize_scoped user RequestCancel (rq_database r) (rq_environment r) (CtxRequestMutate (rq_requester r)) = Inr ()"
    and "\<exists>res. transition (rq_status r) TCancel (event_context r user ctx (ce_now env) (MCancelled (ki_reason input))) = Inr res
      \<and> ev = tr_event res"
    using chk by (auto simp: cancel_checks_def res_simps i_def)
  then have ev: "te_request_id ev = rq_id r"
    using transition_event_status by (fastforce simp: event_context_def)
  have i: "rq_id r = i" using req find_row_Some unfolding get_request_def by fastforce
  from tx obtain s1 where mk: "mark_cancelled i (au_subject_id user) (ki_reason input) (ce_now env) s = Inr (True, s1)"
    and rec: "record_event (ce_lib env) (ce_audit env) (build_audit_event (ce_lib env) ev (ce_now env) mode noop_redact) s1 = Inr ((), s')"
    by (auto simp: cancel_tx_def tx_simps i)
  obtain r0 q where s1: "s1 = s\<lparr> st_requests := q \<rparr>" and r0: "get_request s i = Some r0"
    "rq_status r0 \<in> set cancellable_states"
    and g1: "get_request s1 i = Some (cancel_row (au_subject_id user) (ki_reason input) (ce_now env) r0)"
    using update_request_True [OF assms(1) mk [unfolded mark_cancelled_def]] by (auto simp: cancel_row_def)
  obtain t rest where s': "s' = s1\<lparr> st_audit := t \<rparr>"
    and t: "t = st_audit s1 @ audit_row_of (ce_lib env) (st_audit s1) (fst (au_ids (ce_audit env)))
      (build_audit_event (ce_lib env) ev (ce_now env) mode noop_redact) # rest"
    using rec by (rule record_event_Inr)
  have ae: "ae_request_id (build_audit_event (ce_lib env) ev (ce_now env) mode noop_redact) = Some (te_request_id ev)"
    by (auto simp: build_audit_event_def Let_def audit_event_simple_def
        split: prod.splits event_metadata.splits redaction_mode.splits)
  have "is_cancellable (rq_status r)"
    using r0 req by (auto simp: is_cancellable_def cancellable_states_def)
  moreover have "get_request s' i = get_request s1 i" by (simp add: s' get_request_def)
  ultimately show ?thesis
    using req r0(1) g1 t reason rbac.mutate_gate [OF auth] ev ae i
    by (intro exI conjI) (auto simp: s' s1)
qed

definition demo_cancel :: cancel_input where
  "demo_cancel = \<lparr> ki_request_id = ''r1'', ki_reason = None \<rparr>"

definition demo_owner :: auth_user where
  "demo_owner =
     \<lparr> au_subject_id = ''ann'', au_subject_type = SubjUser,
       au_roles = [\<lparr> rr_name = ''requester'', rr_permissions = [RequestCancel \<mapsto> Own],
         rr_databases = [db_wildcard], rr_environments = [env_wildcard] \<rparr>],
       au_groups = [], au_token_id = None \<rparr>"

lemma demo_cancel_succeeds:
  "\<exists>out s' hooks. cancel_request demo_env RedactFull demo_cancel demo_owner CtxSystem (demo_store Running) = (Inr out, s', hooks)"
  by (simp add: cancel_request_def cancel_checks_def cancel_tx_def demo_cancel_def demo_owner_def demo_eval
      authorize_scoped_def check_context_def self_read_def has_scoped_permission_def role_allows_def
      role_has_permission_def covers_database_def covers_environment_def db_wildcard_def env_wildcard_def
      is_cancellable_def cancellable_states_def)

theorem cancel_request_sound_witness:
  "\<exists>s' r row rest. get_request (demo_store Running) ''r1'' = Some r \<and> is_cancellable (rq_status r)
     \<and> get_request s' ''r1'' = Some (cancel_row ''ann'' None 1 r)
     \<and> st_audit s' = st_audit (demo_store Running) @ row # rest \<and> ar_request_id row = Some ''r1''"
proof -
  obtain out s' hooks where run: "cancel_request demo_env RedactFull demo_cancel demo_owner CtxSystem (demo_store Running) = (Inr out, s', hooks)"
    using demo_cancel_succeeds by blast
  have e: "ki_request_id demo_cancel = ''r1''" "ki_reason demo_cancel = None" "au_subject_id demo_owner = ''ann''"
    "ce_now demo_env = 1"
    by (simp_all add: demo_cancel_def demo_owner_def demo_env_def)
  show ?thesis
    using cancel_request_sound [OF demo_store_ok run] unfolding e by blast
qed

text \<open>A decision that fails, at whatever point, leaves the store as it was and sends no
  notification; notifications follow a commit only.\<close>

theorem failed_decision_leaves_no_trace:
  "(case approve_request env input user ctx s of (Inl e, s', hooks) \<Rightarrow> s' = s \<and> hooks = [] | _ \<Rightarrow> True)
   \<and> (case reject_request env rinput user ctx s of (Inl e, s', hooks) \<Rightarrow> s' = s \<and> hooks = [] | _ \<Rightarrow> True)
   \<and> (case cancel_request env mode kinput user ctx s of (Inl e, s', hooks) \<Rightarrow> s' = s \<and> hooks = [] | _ \<Rightarrow> True)"
  by (auto simp: approve_request_def reject_request_def cancel_request_def refused_def
      dest: uow.fails split: sum.splits prod.splits)

end
