(* ===== verification/UC_Execution.thy ===== *)
theory UC_Execution
  imports UC_Approval "HOL-Library.Char_ord" "HOL-Library.List_Lexorder"
begin

text \<open>
  The use cases around execution: dispatching an approved request
  (\<open>crates/dbward-app/src/use_cases/resume_request.rs\<close>), the agent's claim (\<open>agent_claim.rs\<close>),
  heartbeat (\<open>agent_heartbeat.rs\<close>) and submission of a result (\<open>agent_submit_result.rs\<close>). The
  readings of the clock in a call are \<open>clk 0\<close>, \<open>clk 1\<close>, \dots in the order of the source; other
  ports (policies, agents, users, the token signer, the result storage) are parameters.
\<close>

record result_summary =
  rs_execution_id :: string
  rs_success :: bool
  rs_rows_affected :: "u64 option"
  rs_truncated :: bool
  rs_error_message :: "string option"
  rs_result_data :: "string option"

datatype effect =
    Webhook webhook_event
  | CreateSlot string
  | StorePut string string timestamp
  | StoreDelete string
  | Publish string result_summary

type_synonym 'a run = "'a app_result \<times> store \<times> effect list"

definition stopped :: "app_error \<Rightarrow> store \<Rightarrow> 'a run" where
  "stopped e s = (Inl e, s, [])"

subsection \<open>Dispatching\<close>

record resume_input =
  su_request_id :: string
  su_reason :: "string option"

text \<open>\<open>(now - t).num_seconds().max(0) as u64 > limit\<close>.\<close>

definition elapsed_exceeds :: "timestamp \<Rightarrow> timestamp \<Rightarrow> u64 \<Rightarrow> bool" where
  "elapsed_exceeds now t limit \<longleftrightarrow> max (num_seconds (now - t)) 0 > uint limit"

definition check_approval_ttl :: "lib \<Rightarrow> timestamp \<Rightarrow> request \<Rightarrow> unit app_result" where
  "check_approval_ttl lib now request =
     (case (rq_resolved_at request, rq_workflow_snapshot_json request) of
        (Some resolved_at, Some js) \<Rightarrow>
          tryE (ok_or (x_workflow_read lib js) (Internal (''corrupt workflow snapshot: '' @ x_serde_error lib js))) (\<lambda>w.
            case wf_approval_ttl_secs w of
              Some ttl \<Rightarrow> guardE (\<not> elapsed_exceeds now resolved_at ttl) (Gone ''approval expired'')
            | None \<Rightarrow> Inr ())
      | _ \<Rightarrow> Inr ())"

definition check_re_dispatch :: "timestamp \<Rightarrow> request \<Rightarrow> execution_policy \<Rightarrow> unit app_result" where
  "check_re_dispatch now request exec_policy =
     (if rq_status request \<in> {Executed, Failed, ExecutionLost} then
        tryE (case rq_resolved_at request of
                Some resolved_at \<Rightarrow>
                  guardE (\<not> elapsed_exceeds now resolved_at (ep_execution_window_secs exec_policy))
                    (Gone ''execution window expired'')
              | None \<Rightarrow> Inr ()) (\<lambda>_.
          guardE (\<not> (\<not> ep_retry_on_failure exec_policy \<and> rq_status request = Failed))
            (Conflict ''retry on failure disabled''))
      else Inr ())"

definition resume_checks ::
  "call_env \<Rightarrow> (nat \<Rightarrow> timestamp) \<Rightarrow> (database_name \<Rightarrow> environment \<Rightarrow> execution_policy app_result)
     \<Rightarrow> resume_input \<Rightarrow> auth_user \<Rightarrow> audit_context \<Rightarrow> store \<Rightarrow> (request \<times> transition_event) app_result" where
  "resume_checks env clk get_execution_policy input user ctx s =
     tryE (ok_or (get_request s (su_request_id input)) (NotFound ''request not found'')) (\<lambda>request.
     tryE (map_err Forbidden (authorize_scoped user RequestResume (rq_database request) (rq_environment request)
             (CtxRequestMutate (rq_requester request)))) (\<lambda>_.
     tryE (guardE (\<not> (au_subject_id user \<noteq> rq_requester request \<and> su_reason input = None))
            (Validation ''reason required for non-owner resume'')) (\<lambda>_.
     tryE (transition_or_conflict (rq_status request) TDispatch
             (event_context request user ctx (clk 0) MDispatched)) (\<lambda>result.
     tryE (check_approval_ttl (ce_lib env) (clk 1) request) (\<lambda>_.
     tryE (get_execution_policy (rq_database request) (rq_environment request)) (\<lambda>exec_policy.
     tryE (guardE (count_completed_executions s (rq_id request) < ep_max_executions exec_policy)
            (Conflict ''max executions reached'')) (\<lambda>_.
     tryE (check_re_dispatch (clk 2) request exec_policy) (\<lambda>_.
     Inr (request, tr_event result)))))))))"

definition resume_tx :: "call_env \<Rightarrow> timestamp \<Rightarrow> string \<Rightarrow> transition_event \<Rightarrow> unit tx" where
  "resume_tx env now request_id event =
     thenT (mark_dispatched request_id now) (\<lambda>ok.
     thenT (checkT ok (Conflict ''concurrent status change'')) (\<lambda>_.
     record_event (ce_lib env) (ce_audit env) (audit_of (ce_lib env) event now)))"

definition resume_request ::
  "call_env \<Rightarrow> (nat \<Rightarrow> timestamp) \<Rightarrow> (database_name \<Rightarrow> environment \<Rightarrow> execution_policy app_result)
     \<Rightarrow> resume_input \<Rightarrow> auth_user \<Rightarrow> audit_context \<Rightarrow> store \<Rightarrow> status_output run" where
  "resume_request env clk get_execution_policy input user ctx s =
     (case resume_checks env clk get_execution_policy input user ctx s of
        Inl e \<Rightarrow> stopped e s
      | Inr (request, event) \<Rightarrow>
          (case run_in_tx (ce_faults env) (resume_tx env (clk 0) (rq_id request) event) s of
             (Inl e, s') \<Rightarrow> stopped e s'
           | (Inr _, s') \<Rightarrow>
               (Inr \<lparr> so_id = rq_id request, so_status = Dispatched \<rparr>, s',
                [CreateSlot (rq_id request), Webhook (build_webhook_event (ce_lib env) event)])))"

subsection \<open>Claiming\<close>

record token_claims =
  tk_request_id :: string
  tk_operation :: string
  tk_database :: string
  tk_environment :: string
  tk_detail_hash :: string
  tk_requester :: string
  tk_requester_role :: string

record claim_ports =
  cp_policy :: "database_name \<Rightarrow> environment \<Rightarrow> execution_policy app_result"
  cp_agent :: "string \<Rightarrow> agent option app_result"
  cp_user_groups :: "string \<Rightarrow> string list option app_result"
  cp_resolve_roles :: "string \<Rightarrow> subject_type \<Rightarrow> string list \<Rightarrow> resolved_role list app_result"
  cp_sign :: "token_claims \<Rightarrow> string"
  cp_plan_read :: "string \<Rightarrow> string list option"

record claim_input =
  cl_request_id :: string
  cl_agent_id :: string
  cl_databases :: "database_capability list"

record claim_output =
  co_execution_id :: string
  co_request_id :: string
  co_execution_token :: string
  co_operation :: string
  co_database :: string
  co_environment :: string
  co_detail :: string
  co_statement_timeout_secs :: u32
  co_max_rows :: "u32 option"
  co_lease_expires_at :: timestamp
  co_execution_plan :: "string list option"
  co_execution_plan_json :: "string option"

lemma size_json_field: "(k, v) \<in> set kvs \<Longrightarrow> size v < Suc (size_list (size_prod (\<lambda>_. 0) size) kvs)"
  by (induction kvs) auto

lemma size_json_item: "v \<in> set vs \<Longrightarrow> size v < Suc (size_list size vs)"
  by (induction vs) auto

text \<open>Object keys are sorted recursively; \<open>sort_by\<close> is stable.\<close>

function sort_value :: "json \<Rightarrow> json" where
  "sort_value (JObj kvs) = JObj (map (\<lambda>(k, v). (k, sort_value v)) (sort_key fst kvs))"
| "sort_value (JArr vs) = JArr (map sort_value vs)"
| "sort_value JNull = JNull"
| "sort_value (JBool b) = JBool b"
| "sort_value (JNum n) = JNum n"
| "sort_value (JStr t) = JStr t"
  by pat_completeness auto

termination
  by (relation "measure size") (auto dest: size_json_field size_json_item)

definition canonicalize_json :: "lib \<Rightarrow> string \<Rightarrow> string" where
  "canonicalize_json lib input =
     (case x_json_read lib input of
        Some v \<Rightarrow> x_json_text lib (sort_value v)
      | None \<Rightarrow> input)"

text \<open>What the execution token commits to: the plan when there is one, otherwise the detail.\<close>

definition canonical_detail :: "lib \<Rightarrow> request \<Rightarrow> string" where
  "canonical_detail lib request =
     (case rq_execution_plan_json request of
        Some plan_json \<Rightarrow> plan_json
      | None \<Rightarrow>
          if is_migration_mutation (rq_operation request) then canonicalize_json lib (rq_detail request)
          else rq_detail request)"

definition has_capability :: "database_capability list \<Rightarrow> request \<Rightarrow> bool" where
  "has_capability caps request =
     list_ex (\<lambda>cap. (db_is_wildcard (dc_database cap) \<or> dc_database cap = rq_database request)
       \<and> (env_is_wildcard (dc_environment cap) \<or> dc_environment cap = rq_environment request)) caps"

definition op_supported :: "database_capability list \<Rightarrow> request \<Rightarrow> bool" where
  "op_supported caps request =
     (if rq_operation request \<in> {MigrateUp, MigrateDown, MigrateRepair}
      then list_ex (\<lambda>cap. dc_database cap = rq_database request \<or> db_is_wildcard (dc_database cap)) caps
      else True)"

definition requester_role_of :: "claim_ports \<Rightarrow> string \<Rightarrow> string list \<Rightarrow> string" where
  "requester_role_of ports requester groups =
     (case cp_resolve_roles ports requester SubjUser groups of
        Inr (r # _) \<Rightarrow> rr_name r
      | _ \<Rightarrow> ''unknown'')"

definition claims_of :: "lib \<Rightarrow> request \<Rightarrow> string \<Rightarrow> token_claims" where
  "claims_of lib request role =
     \<lparr> tk_request_id = rq_id request, tk_operation = operation_as_str (rq_operation request),
       tk_database = db_str (rq_database request), tk_environment = env_str (rq_environment request),
       tk_detail_hash = x_sha256_hex lib (canonical_detail lib request),
       tk_requester = rq_requester request, tk_requester_role = role \<rparr>"

definition claim_checks ::
  "call_env \<Rightarrow> claim_ports \<Rightarrow> claim_input \<Rightarrow> auth_user \<Rightarrow> audit_context \<Rightarrow> store
     \<Rightarrow> (request \<times> execution \<times> transition_event \<times> execution_policy) app_result" where
  "claim_checks env ports input user ctx s =
     (let now = ce_now env; execution_id = ce_id env in
     tryE (map_err Forbidden (authorize_global user AgentOperate)) (\<lambda>_.
     tryE (ok_or (get_request s (cl_request_id input)) (NotFound ''request not found'')) (\<lambda>request.
     tryE (transition_or_conflict (rq_status request) TClaim
             (event_context request user ctx now (MClaimed execution_id (cl_agent_id input)))) (\<lambda>result.
     tryE (guardE (has_capability (cl_databases input) request)
            (Forbidden (AzForbidden AgentOperate ''agent lacks capability for this database/environment''))) (\<lambda>_.
     tryE (cp_agent ports (cl_agent_id input)) (\<lambda>agent_entity.
     tryE (guardE (agent_entity \<noteq> None \<longrightarrow> op_supported (cl_databases input) request)
            (Forbidden (AzForbidden AgentOperate ''agent.capability_mismatch: operation not supported''))) (\<lambda>_.
     tryE (guardE (\<not> (rq_operation request \<in> {MigrateUp, MigrateDown, MigrateRepair}
              \<and> has_running_migration s (rq_database request) (rq_environment request) (rq_id request)))
            (Conflict ''migration already running for this database'')) (\<lambda>_.
     tryE (map_err Forbidden (authorize_scoped user AgentOperate (rq_database request) (rq_environment request)
             (CtxAgentExecution (cl_agent_id input)))) (\<lambda>_.
     tryE (cp_policy ports (rq_database request) (rq_environment request)) (\<lambda>exec_policy.
     tryE (cp_user_groups ports (rq_requester request)) (\<lambda>groups.
     let role = requester_role_of ports (rq_requester request) (case groups of Some g \<Rightarrow> g | None \<Rightarrow> []);
         token = cp_sign ports (claims_of (ce_lib env) request role);
         lease = now + seconds (lease_duration_for_operation exec_policy (rq_operation request))
     in
     Inr (request,
          \<lparr> ex_id = execution_id, ex_request_id = rq_id request, ex_agent_id = cl_agent_id input,
            ex_status = ExClaimed, ex_token = token, ex_lease_expires_at = lease, ex_started_at = Some now,
            ex_finished_at = None, ex_error_message = None, ex_created_at = now \<rparr>,
          tr_event result, exec_policy))))))))))))"

definition claim_tx :: "call_env \<Rightarrow> string \<Rightarrow> execution \<Rightarrow> transition_event \<Rightarrow> unit tx" where
  "claim_tx env request_id execution event =
     thenT (insert_execution execution) (\<lambda>_.
     thenT (mark_running request_id (ce_now env)) (\<lambda>ok.
     thenT (checkT ok (Conflict ''concurrent status change'')) (\<lambda>_.
     record_event (ce_lib env) (ce_audit env) (audit_of (ce_lib env) event (ce_now env)))))"

text \<open>The plan is parsed only after the commit: a corrupted plan leaves a claimed execution behind.\<close>

definition agent_claim ::
  "call_env \<Rightarrow> claim_ports \<Rightarrow> claim_input \<Rightarrow> auth_user \<Rightarrow> audit_context \<Rightarrow> store \<Rightarrow> claim_output run" where
  "agent_claim env ports input user ctx s =
     (case claim_checks env ports input user ctx s of
        Inl e \<Rightarrow> stopped e s
      | Inr (request, execution, event, exec_policy) \<Rightarrow>
          (case run_in_tx (ce_faults env) (claim_tx env (rq_id request) execution event) s of
             (Inl e, s') \<Rightarrow> stopped e s'
           | (Inr _, s') \<Rightarrow>
               (tryE (case rq_execution_plan_json request of
                        Some j \<Rightarrow>
                          tryE (ok_or (cp_plan_read ports j)
                            (Internal (''corrupted execution_plan_json: '' @ x_serde_error (ce_lib env) j))) (\<lambda>p. Inr (Some p))
                      | None \<Rightarrow> Inr None) (\<lambda>plan.
                  Inr \<lparr> co_execution_id = ex_id execution, co_request_id = rq_id request,
                        co_execution_token = ex_token execution,
                        co_operation = operation_as_str (rq_operation request),
                        co_database = db_str (rq_database request),
                        co_environment = env_str (rq_environment request), co_detail = rq_detail request,
                        co_statement_timeout_secs = effective_statement_timeout exec_policy (rq_operation request),
                        co_max_rows = ep_max_rows exec_policy,
                        co_lease_expires_at = ex_lease_expires_at execution, co_execution_plan = plan,
                        co_execution_plan_json = rq_execution_plan_json request \<rparr>),
                s', [Webhook (build_webhook_event (ce_lib env) event)])))"

subsection \<open>Heartbeat\<close>

text \<open>\<open>extend_lease\<close> is a statement of its own (no unit of work).\<close>

definition agent_heartbeat ::
  "timestamp \<Rightarrow> (database_name \<Rightarrow> environment \<Rightarrow> execution_policy app_result) \<Rightarrow> string \<Rightarrow> auth_user \<Rightarrow> bool tx" where
  "agent_heartbeat now get_execution_policy execution_id user = (\<lambda>s.
     tryE (map_err Forbidden (authorize_global user AgentOperate)) (\<lambda>_.
     tryE (ok_or (get_execution s execution_id) (NotFound ''execution not found'')) (\<lambda>execution.
     tryE (map_err Forbidden (authorize_scoped user AgentOperate db_wildcard env_wildcard
             (CtxAgentExecution (ex_agent_id execution)))) (\<lambda>_.
     tryE (guardE (ex_status execution = ExClaimed)
            (Conflict ''execution is not in a heartbeatable state'')) (\<lambda>_.
     case get_request s (ex_request_id execution) of
       None \<Rightarrow> Inr (True, s)
     | Some r \<Rightarrow>
         tryE (get_execution_policy (rq_database r) (rq_environment r)) (\<lambda>exec_policy.
         let new_expiry = now + seconds (lease_duration_for_operation exec_policy (rq_operation r)) in
         tryE (extend_lease (ex_id execution) new_expiry s) (\<lambda>(extended, s').
         if \<not> extended then Inr (True, s') else Inr (rq_status r = Cancelled, s'))))))))"

subsection \<open>Submitting a result\<close>

record submit_input =
  sb_execution_id :: string
  sb_success :: bool
  sb_result_data :: "string option"
  sb_error_message :: "string option"
  sb_rows_affected :: "u64 option"
  sb_duration_ms :: "u64 option"

record submit_ports =
  sp_max_persist_bytes :: nat
  sp_result_policy :: "database_name \<Rightarrow> environment \<Rightarrow> result_policy option app_result"
  sp_storage_backend :: string
  sp_put :: "string \<Rightarrow> string \<Rightarrow> app_error option"
  sp_utf8_lossy :: "string \<Rightarrow> string"

text \<open>\<open>truncate_utf8\<close>: back to a character boundary. A byte starts a character unless it is a
  continuation byte (bits 10xxxxxx); the end of the string is a boundary.\<close>

definition is_char_boundary :: "string \<Rightarrow> nat \<Rightarrow> bool" where
  "is_char_boundary s i \<longleftrightarrow>
     i = 0 \<or> i = length s \<or> (i < length s \<and> \<not> (128 \<le> (of_char (s ! i) :: nat) \<and> (of_char (s ! i) :: nat) < 192))"

fun boundary_before :: "string \<Rightarrow> nat \<Rightarrow> nat" where
  "boundary_before s 0 = 0"
| "boundary_before s (Suc n) = (if is_char_boundary s (Suc n) then Suc n else boundary_before s n)"

definition truncate_utf8 :: "string \<Rightarrow> nat \<Rightarrow> string" where
  "truncate_utf8 s max_bytes =
     (if length s \<le> max_bytes then s else take (boundary_before s max_bytes) s)"

definition parse_selector_for_access :: "string \<Rightarrow> selector_type \<times> string" where
  "parse_selector_for_access sel =
     (case strip_prefix ''role:'' sel of Some v \<Rightarrow> (SelRole, v)
      | None \<Rightarrow> (case strip_prefix ''group:'' sel of Some v \<Rightarrow> (SelGroup, v)
        | None \<Rightarrow> (case strip_prefix ''user:'' sel of Some v \<Rightarrow> (SelUser, v)
          | None \<Rightarrow> (SelUser, sel))))"

definition share_records :: "execution_result \<Rightarrow> string list \<Rightarrow> selector list \<Rightarrow> result_access list" where
  "share_records rm share_with policy_access =
     map (\<lambda>(i, sel). case parse_selector_for_access sel of (st, sv) \<Rightarrow>
            \<lparr> ra_id = er_id rm @ ''-ra-'' @ show_nat i, ra_result_id = er_id rm, ra_selector_type = st, ra_selector_value = sv \<rparr>)
       (zip [0..<length share_with] share_with)
     @ map (\<lambda>(i, sel). case parse_selector_for_access (selector_to_string sel) of (st, sv) \<Rightarrow>
            \<lparr> ra_id = er_id rm @ ''-pa-'' @ show_nat (length share_with + i), ra_result_id = er_id rm,
              ra_selector_type = st, ra_selector_value = sv \<rparr>)
       (zip [0..<length policy_access] policy_access)"

text \<open>\<open>promote_migrate_result\<close> on the metadata text.\<close>

definition promote_migrate_result :: "lib \<Rightarrow> string \<Rightarrow> string \<Rightarrow> string" where
  "promote_migrate_result lib metadata data =
     (case x_json_read lib data of
        None \<Rightarrow> metadata
      | Some v \<Rightarrow>
          let meta = parse_metadata_object lib metadata in
          if length data > 4096 then
            let meta = (case Option.bind (json_get ''applied'' v) json_as_array of
                          Some arr \<Rightarrow> json_set ''applied_count'' (JNum (int (length arr))) meta | None \<Rightarrow> meta);
                meta = (case Option.bind (json_get ''reverted'' v) json_as_array of
                          Some arr \<Rightarrow> json_set ''reverted_count'' (JNum (int (length arr))) meta | None \<Rightarrow> meta)
            in x_json_text lib meta
          else
            let meta = (case json_get ''applied'' v of Some a \<Rightarrow> json_set ''applied'' a meta | None \<Rightarrow> meta);
                meta = (case json_get ''reverted'' v of Some r \<Rightarrow> json_set ''reverted'' r meta | None \<Rightarrow> meta)
            in x_json_text lib meta)"

definition submit_metadata :: "lib \<Rightarrow> submit_input \<Rightarrow> request \<Rightarrow> string \<Rightarrow> string" where
  "submit_metadata lib input request base =
     (let rows = (if sb_success input then sb_rows_affected input else None);
          md = (if rows \<noteq> None \<or> sb_duration_ms input \<noteq> None then
              let meta = parse_metadata_object lib base;
                  meta = (case rows of Some n \<Rightarrow> json_set ''rows_affected'' (JNum (uint n)) meta | None \<Rightarrow> meta);
                  meta = (case sb_duration_ms input of Some d \<Rightarrow> json_set ''duration_ms'' (JNum (uint d)) meta | None \<Rightarrow> meta)
              in x_json_text lib meta
            else base)
      in case sb_result_data input of
           Some data \<Rightarrow>
             if sb_success input \<and> is_migration_mutation (rq_operation request)
             then promote_migrate_result lib md data else md
         | None \<Rightarrow> md)"

definition submit_audit_event ::
  "lib \<Rightarrow> submit_input \<Rightarrow> request \<Rightarrow> execution \<Rightarrow> auth_user \<Rightarrow> audit_context \<Rightarrow> timestamp \<Rightarrow> audit_event" where
  "submit_audit_event lib input request execution user ctx now =
     (let ev = audit_event_simple (if sb_success input then ''execution.completed'' else ''execution.failed'')
            ''execution'' (au_subject_id user) (Some (ex_id execution)) now ctx
      in ev\<lparr> ae_database_name := Some (db_str (rq_database request)),
             ae_environment := Some (env_str (rq_environment request)),
             ae_operation := Some (operation_as_str (rq_operation request)),
             ae_request_id := Some (ex_request_id execution),
             ae_metadata_json := submit_metadata lib input request (ae_metadata_json ev) \<rparr>)"

definition is_late_completion :: "execution \<Rightarrow> request \<Rightarrow> bool" where
  "is_late_completion execution request \<longleftrightarrow>
     ex_status execution = ExFailed \<and> rq_status request = ExecutionLost"

definition check_submittable :: "execution \<Rightarrow> request \<Rightarrow> unit app_result" where
  "check_submittable execution request =
     (case ex_status execution of
        ExClaimed \<Rightarrow> Inr ()
      | ExRunning \<Rightarrow> Inr ()
      | ExFailed \<Rightarrow>
          if is_late_completion execution request then Inr ()
          else Inl (Conflict ''execution is not in a submittable state'')
      | ExCompleting \<Rightarrow> Inl (Conflict ''execution is already being completed'')
      | ExCompleted \<Rightarrow> Inl (Conflict ''execution is not in a submittable state''))"

definition submit_checks ::
  "submit_ports \<Rightarrow> timestamp \<Rightarrow> submit_input \<Rightarrow> auth_user \<Rightarrow> audit_context \<Rightarrow> store
     \<Rightarrow> (execution \<times> request \<times> transition_result \<times> result_policy option) app_result" where
  "submit_checks ports now input user ctx s =
     tryE (map_err Forbidden (authorize_global user AgentOperate)) (\<lambda>_.
     tryE (ok_or (get_execution s (sb_execution_id input)) (NotFound ''execution not found'')) (\<lambda>execution.
     tryE (map_err Forbidden (authorize_scoped user AgentOperate db_wildcard env_wildcard
             (CtxAgentExecution (ex_agent_id execution)))) (\<lambda>_.
     tryE (ok_or (get_request s (ex_request_id execution)) (Internal ''request not found for execution'')) (\<lambda>request.
     tryE (check_submittable execution request) (\<lambda>_.
     tryE (case sb_result_data input of
             Some data \<Rightarrow> guardE (\<not> (\<not> rq_no_result_store request \<and> length data > sp_max_persist_bytes ports))
               (PayloadTooLarge (''result size '' @ show_nat (length data) @ '' exceeds limit ''
                  @ show_nat (sp_max_persist_bytes ports)))
           | None \<Rightarrow> Inr ()) (\<lambda>_.
     tryE (transition_or_conflict (rq_status request) (TComplete (sb_success input))
             (event_context request user ctx now (MCompleted (sb_success input) (ex_id execution)))) (\<lambda>result.
     tryE (sp_result_policy ports (rq_database request) (rq_environment request)) (\<lambda>policy.
     Inr (execution, request, result, policy)))))))))"

text \<open>The storage phase: the object to write, if any, and the row that describes it. In delivery mode
  stream a successful result is described but not written, with an empty key.\<close>

definition storage_key :: "execution \<Rightarrow> string" where
  "storage_key execution = ex_request_id execution @ ''/'' @ ex_id execution"

definition retention_of :: "result_policy option \<Rightarrow> u32" where
  "retention_of policy = (case policy of Some p \<Rightarrow> rp_retention_days p | None \<Rightarrow> 30)"

definition days :: "u32 \<Rightarrow> int" where
  "days n = seconds (86400 * uint n)"

definition should_store :: "result_policy option \<Rightarrow> submit_input \<Rightarrow> bool" where
  "should_store policy input \<longleftrightarrow>
     \<not> (case policy of Some p \<Rightarrow> rp_delivery_mode p = Stream | None \<Rightarrow> False) \<or> \<not> sb_success input"

definition manifest ::
  "lib \<Rightarrow> submit_ports \<Rightarrow> execution \<Rightarrow> string \<Rightarrow> string \<Rightarrow> u32 \<Rightarrow> timestamp \<Rightarrow> execution_result" where
  "manifest lib ports execution key data retention stored_at =
     \<lparr> er_id = ''res-'' @ ex_id execution, er_request_id = ex_request_id execution,
       er_execution_id = ex_id execution, er_storage_backend = sp_storage_backend ports, er_storage_key = key,
       er_content_length = length data, er_checksum_sha256 = x_sha256_hex lib data,
       er_retention_days = retention, er_status = Stored, er_truncated = False, er_truncation_reason = None,
       er_stored_at = stored_at, er_expires_at = stored_at + days retention \<rparr>"

definition error_bytes :: "lib \<Rightarrow> submit_input \<Rightarrow> string" where
  "error_bytes lib input =
     x_json_text lib (JObj [(''success'', JBool False),
       (''error'', JStr (truncate_utf8 (case sb_error_message input of Some m \<Rightarrow> m | None \<Rightarrow> ''unknown error'') 4096))])"

definition store_result ::
  "lib \<Rightarrow> submit_ports \<Rightarrow> (nat \<Rightarrow> timestamp) \<Rightarrow> submit_input \<Rightarrow> execution \<Rightarrow> request \<Rightarrow> result_policy option
     \<Rightarrow> app_error option \<times> execution_result option \<times> effect list" where
  "store_result lib ports clk input execution request policy =
     (let key = storage_key execution; retention = retention_of policy;
          has_result_data = (\<not> rq_no_result_store request \<and> sb_result_data input \<noteq> None)
      in
      if (sb_success input \<or> has_result_data) \<and> \<not> rq_no_result_store request then
        (case sb_result_data input of
           Some data \<Rightarrow>
             if should_store policy input then
               (case sp_put ports key data of
                  Some e \<Rightarrow> (Some e, None, [])
                | None \<Rightarrow> (None, Some (manifest lib ports execution key data retention (clk 4)),
                           [StorePut key data (clk 3 + days retention)]))
             else (None, Some (manifest lib ports execution [] data retention (clk 4)), [])
         | None \<Rightarrow> (None, None, []))
      else if \<not> sb_success input then
        (let data = error_bytes lib input in
         case sp_put ports key data of
           Some e \<Rightarrow> (Some e, None, [])
         | None \<Rightarrow> (None, Some (manifest lib ports execution key data retention (clk 3)),
                    [StorePut key data (clk 3 + days retention)]))
      else (None, None, []))"

definition completing_lease :: "timestamp \<Rightarrow> execution \<Rightarrow> request \<Rightarrow> timestamp option" where
  "completing_lease now execution request =
     (let floor = now + seconds 300 in
      if is_late_completion execution request \<or> ex_lease_expires_at execution < floor then Some floor else None)"

definition complete_tx ::
  "call_env \<Rightarrow> timestamp \<Rightarrow> execution \<Rightarrow> bool \<Rightarrow> execution_result option \<Rightarrow> result_access list \<Rightarrow> audit_event \<Rightarrow> bool tx" where
  "complete_tx env now execution success rm access audit_event =
     thenT (mark_completed_from_completing (ex_id execution) success now) (\<lambda>exec_updated.
     thenT (checkT exec_updated (Conflict ''execution already completed'')) (\<lambda>_.
     thenT (mark_executed (ex_request_id execution) success now) (\<lambda>updated.
     thenT (case rm of
              Some m \<Rightarrow> thenT (insert_result m) (\<lambda>_. insert_result_access access)
            | None \<Rightarrow> doneT ()) (\<lambda>_.
     thenT (record_event (ce_lib env) (ce_audit env) audit_event) (\<lambda>_.
     doneT updated)))))"

text \<open>The best-effort return to the state before; its failure is only logged.\<close>

definition try_revert :: "execution \<Rightarrow> timestamp \<Rightarrow> store \<Rightarrow> store" where
  "try_revert execution revert_lease s =
     (case revert_completing (ex_id execution) (ex_status execution) (ex_finished_at execution) revert_lease
             (ex_error_message execution) s of
        Inr (_, s') \<Rightarrow> s' | Inl _ \<Rightarrow> s)"

definition compensation :: "submit_input \<Rightarrow> execution \<Rightarrow> execution_result option \<Rightarrow> effect list" where
  "compensation input execution rm =
     (case rm of
        Some m \<Rightarrow> if er_storage_key m \<noteq> [] then [StoreDelete (er_storage_key m)] else []
      | None \<Rightarrow> if \<not> sb_success input then [StoreDelete (storage_key execution)] else [])"

definition summary_of :: "submit_ports \<Rightarrow> submit_input \<Rightarrow> execution \<Rightarrow> result_summary" where
  "summary_of ports input execution =
     \<lparr> rs_execution_id = ex_id execution, rs_success = sb_success input,
       rs_rows_affected = (if sb_success input then sb_rows_affected input else None),
       rs_truncated = False, rs_error_message = sb_error_message input,
       rs_result_data = (if sb_success input then map_option (sp_utf8_lossy ports) (sb_result_data input) else None) \<rparr>"

definition agent_submit_result ::
  "call_env \<Rightarrow> submit_ports \<Rightarrow> (nat \<Rightarrow> timestamp) \<Rightarrow> submit_input \<Rightarrow> auth_user \<Rightarrow> audit_context \<Rightarrow> store
     \<Rightarrow> status_output run" where
  "agent_submit_result env ports clk input user ctx s =
     (case submit_checks ports (clk 0) input user ctx s of
        Inl e \<Rightarrow> stopped e s
      | Inr (execution, request, result, policy) \<Rightarrow>
          let lib = ce_lib env;
              revert_lease = max (ex_lease_expires_at execution) (clk 2 + seconds 60)
          in
          (case acquire_completing (sb_execution_id input) (is_late_completion execution request)
                  (completing_lease (clk 1) execution request) s of
             Inl e \<Rightarrow> stopped e s
           | Inr (acquired, s1) \<Rightarrow>
               if \<not> acquired then stopped (Conflict ''execution is already being completed'') s1
               else
                 (case store_result lib ports clk input execution request policy of
                    (Some e, _, effs) \<Rightarrow> (Inl e, try_revert execution revert_lease s1, effs)
                  | (None, rm, effs) \<Rightarrow>
                      let access = (case rm of
                            Some m \<Rightarrow> share_records m (rq_share_with request)
                              (case policy of Some p \<Rightarrow> rp_access p | None \<Rightarrow> [])
                          | None \<Rightarrow> []);
                          ev = submit_audit_event lib input request execution user ctx (clk 5)
                      in
                      (case run_in_tx (ce_faults env)
                              (complete_tx env (clk 5) execution (sb_success input) rm access ev) s1 of
                         (Inr updated, s2) \<Rightarrow>
                           if updated then
                             (Inr \<lparr> so_id = ex_request_id execution, so_status = tr_new_status result \<rparr>, s2,
                              effs @ [Publish (ex_request_id execution) (summary_of ports input execution),
                                      Webhook (build_webhook_event lib (tr_event result))])
                           else (Inr \<lparr> so_id = ex_request_id execution, so_status = Cancelled \<rparr>, s2, effs)
                       | (Inl (Conflict _), s2) \<Rightarrow>
                           (Inl (Conflict ''execution already completed''), s2,
                            effs @ (case rm of
                               Some m \<Rightarrow> if er_storage_key m \<noteq> [] then [StoreDelete (er_storage_key m)] else []
                             | None \<Rightarrow> []))
                       | (Inl e, s2) \<Rightarrow>
                           (Inl e, try_revert execution revert_lease s2, effs @ compensation input execution rm)))))"

subsection \<open>Effects of the operations\<close>

lemma execution_tx_ok [keeps_intros]:
  "keeps_inv store_ok (resume_tx env now i ev)" "keeps_inv store_ok (claim_tx env i ex ev)"
  "keeps_inv store_ok (complete_tx env now ex success rm access ev')"
  unfolding resume_tx_def claim_tx_def complete_tx_def by (intro keeps_intros)+

lemma update_execution_hit:
  assumes "store_ok s" and "get_execution s i = Some e" and "P e" and "\<And>e. ex_id (f e) = ex_id e"
  shows "\<exists>q. update_execution i P f s = Inr (True, s\<lparr> st_executions := q \<rparr>)
     \<and> get_execution (s\<lparr> st_executions := q \<rparr>) i = Some (f e)"
proof -
  have "find_row (\<lambda>e. ex_id e = i) (upd_where (\<lambda>e. ex_id e = i \<and> P e) f (st_executions s)) =
      map_option (\<lambda>e. if ex_id e = i \<and> P e then f e else e) (find_row (\<lambda>e. ex_id e = i) (st_executions s))"
    by (rule find_row_upd) (rule assms(4))
  moreover have "ex_id e = i"
    using assms(2) find_row_Some [of "\<lambda>e. ex_id e = i" "st_executions s" e] by (simp add: get_execution_def)
  moreover have "0 < affected (\<lambda>e. ex_id e = i \<and> P e) (st_executions s)"
    using assms(2,3) executions.affected_key [OF assms(1), of i P] by (auto simp: get_execution_def)
  ultimately show ?thesis
    using assms(2,3) by (auto simp: update_execution_def get_execution_def)
qed

lemma update_execution_none:
  assumes "store_ok s" and "\<And>e. get_execution s i = Some e \<Longrightarrow> \<not> P e"
  shows "update_execution i P f s = Inr (False, s)"
proof -
  have none: "\<not> (ex_id e = i \<and> P e)" if "e \<in> set (st_executions s)" for e
    using that assms executions.lookup_iff [OF assms(1)] by (auto simp: get_execution_def)
  then have "affected (\<lambda>e. ex_id e = i \<and> P e) (st_executions s) = 0"
    by (simp add: affected_zero)
  with none show ?thesis
    by (simp add: update_execution_def upd_where_none)
qed

lemma update_execution_True:
  assumes "store_ok s" and "update_execution i P f s = Inr (True, s')" and "\<And>e. ex_id (f e) = ex_id e"
  shows "\<exists>e q. s' = s\<lparr> st_executions := q \<rparr> \<and> get_execution s i = Some e \<and> P e \<and> get_execution s' i = Some (f e)"
proof -
  obtain e where e: "get_execution s i = Some e" "P e"
    using assms(2) update_execution_none [OF assms(1), of i P f] by auto
  with update_execution_hit [OF assms(1) e(1), of P f] assms(2,3) show ?thesis by auto
qed

lemma get_execution_id: "get_execution s i = Some e \<Longrightarrow> ex_id e = i"
  unfolding get_execution_def by (auto dest: find_row_Some)

lemma get_request_id: "get_request s i = Some r \<Longrightarrow> rq_id r = i"
  unfolding get_request_def by (auto dest: find_row_Some)

subsection \<open>Properties of dispatching\<close>

lemma resume_checks_Inr:
  assumes "resume_checks env clk pol input user ctx s = Inr (r, ev)"
  obtains p where "get_request s (su_request_id input) = Some r" "rq_id r = su_request_id input"
    "authorize_scoped user RequestResume (rq_database r) (rq_environment r) (CtxRequestMutate (rq_requester r)) = Inr ()"
    "au_subject_id user = rq_requester r \<or> su_reason input \<noteq> None"
    "check_approval_ttl (ce_lib env) (clk 1) r = Inr ()" "pol (rq_database r) (rq_environment r) = Inr p"
    "count_completed_executions s (rq_id r) < ep_max_executions p" "check_re_dispatch (clk 2) r p = Inr ()"
    "te_request_id ev = rq_id r"
proof -
  obtain p res where h: "get_request s (su_request_id input) = Some r"
    "authorize_scoped user RequestResume (rq_database r) (rq_environment r) (CtxRequestMutate (rq_requester r)) = Inr ()"
    "\<not> (au_subject_id user \<noteq> rq_requester r \<and> su_reason input = None)"
    "transition (rq_status r) TDispatch (event_context r user ctx (clk 0) MDispatched) = Inr res" "ev = tr_event res"
    "check_approval_ttl (ce_lib env) (clk 1) r = Inr ()" "pol (rq_database r) (rq_environment r) = Inr p"
    "count_completed_executions s (rq_id r) < ep_max_executions p" "check_re_dispatch (clk 2) r p = Inr ()"
    using assms by (auto simp: resume_checks_def res_simps)
  then show thesis
    using that get_request_id transition_event_status [OF h(4)] by (auto simp: event_context_def)
qed

text \<open>The executions of a request that left a result on record.\<close>

definition recorded_executions :: "store \<Rightarrow> string \<Rightarrow> string set" where
  "recorded_executions s i =
     {ex_id e | e. e \<in> set (st_executions s) \<and> ex_request_id e = i \<and> (\<exists>x \<in> set (st_results s). er_execution_id x = ex_id e)}"

lemma recorded_executions_count:
  assumes "length (st_executions s) < 2 ^ 32"
  shows "unat (count_completed_executions s i) = card (recorded_executions s i)"
proof -
  let ?ids = "remdups (map ex_id (filter (\<lambda>e. ex_request_id e = i \<and> list_ex (\<lambda>r. er_execution_id r = ex_id e) (st_results s)) (st_executions s)))"
  have "length ?ids \<le> length (st_executions s)"
    by (metis (no_types, lifting) length_filter_le length_map length_remdups_leq order_trans)
  with assms have "length ?ids < 2 ^ 32" by linarith
  moreover have "set ?ids = recorded_executions s i" by (auto simp: recorded_executions_def list_ex_iff)
  moreover have "length ?ids = card (set ?ids)" by (simp only: length_remdups_card_conv set_remdups)
  ultimately show ?thesis
    by (simp add: count_completed_executions_def unat_as_u32_id)
qed


definition demo_resumer :: auth_user where
  "demo_resumer = demo_owner\<lparr> au_roles := [\<lparr> rr_name = ''requester'', rr_permissions = [RequestResume \<mapsto> Own],
     rr_databases = [db_wildcard], rr_environments = [env_wildcard] \<rparr>] \<rparr>"

definition demo_resume :: resume_input where
  "demo_resume = \<lparr> su_request_id = ''r1'', su_reason = None \<rparr>"

lemma demo_resume_succeeds:
  "\<exists>out s' effs. resume_request demo_env (\<lambda>_. 1) (\<lambda>_ _. Inr default_execution_policy) demo_resume demo_resumer CtxSystem
     (demo_store Approved) = (Inr out, s', effs)"
  by (simp add: resume_request_def resume_checks_def resume_tx_def demo_resume_def demo_resumer_def demo_owner_def
      demo_eval authorize_scoped_def check_context_def self_read_def has_scoped_permission_def role_allows_def
      role_has_permission_def covers_database_def covers_environment_def db_wildcard_def env_wildcard_def
      check_approval_ttl_def check_re_dispatch_def count_completed_executions_def default_execution_policy_def
      mark_dispatched_def update_status_guarded_def)


subsection \<open>Properties of claiming\<close>

lemma claim_checks_Inr:
  assumes "claim_checks env ports input user ctx s = Inr (r, ex, ev, p)"
  shows "get_request s (cl_request_id input) = Some r" and "rq_id r = cl_request_id input"
    and "au_subject_id user = cl_agent_id input" and "has_capability (cl_databases input) r"
    and "has_scoped_permission user AgentOperate (rq_database r) (rq_environment r)"
    and "\<not> (is_migration_mutation (rq_operation r)
            \<and> has_running_migration s (rq_database r) (rq_environment r) (rq_id r))"
    and "ex_id ex = ce_id env" and "ex_request_id ex = rq_id r" and "ex_agent_id ex = cl_agent_id input"
    and "ex_lease_expires_at ex = ce_now env + seconds (lease_duration_for_operation p (rq_operation r))"
    and "\<exists>role. ex_token ex = cp_sign ports (claims_of (ce_lib env) r role)"
    and "cp_policy ports (rq_database r) (rq_environment r) = Inr p"
    and "te_request_id ev = rq_id r"
proof -
  obtain res where h: "get_request s (cl_request_id input) = Some r"
    "transition (rq_status r) TClaim (event_context r user ctx (ce_now env) (MClaimed (ce_id env) (cl_agent_id input))) = Inr res"
    "ev = tr_event res"
    and auth: "authorize_scoped user AgentOperate (rq_database r) (rq_environment r) (CtxAgentExecution (cl_agent_id input)) = Inr ()"
    using assms by (auto simp: claim_checks_def res_simps Let_def)
  show "get_request s (cl_request_id input) = Some r" "rq_id r = cl_request_id input"
    using h(1) get_request_id by auto
  show "au_subject_id user = cl_agent_id input" using rbac.agent_gate [OF auth] .
  show "has_scoped_permission user AgentOperate (rq_database r) (rq_environment r)"
    using rbac.scoped_gate [OF auth] by (simp add: self_read_def)
  show "te_request_id ev = rq_id r"
    using transition_event_status [OF h(2)] h(3) by (simp add: event_context_def)
  have mig: "is_migration_mutation op \<Longrightarrow> op \<in> {MigrateUp, MigrateDown, MigrateRepair}" for op
    by (cases op) auto
  show "\<not> (is_migration_mutation (rq_operation r) \<and> has_running_migration s (rq_database r) (rq_environment r) (rq_id r))"
    using assms mig [of "rq_operation r"] by (auto simp: claim_checks_def res_simps Let_def)
  show "has_capability (cl_databases input) r" "ex_id ex = ce_id env" "ex_request_id ex = rq_id r"
    "ex_agent_id ex = cl_agent_id input"
    "ex_lease_expires_at ex = ce_now env + seconds (lease_duration_for_operation p (rq_operation r))"
    "\<exists>role. ex_token ex = cp_sign ports (claims_of (ce_lib env) r role)"
    "cp_policy ports (rq_database r) (rq_environment r) = Inr p"
    using assms by (auto simp: claim_checks_def res_simps Let_def)
qed

text \<open>C19: A successful claim was made by the agent itself, with a capability and a permission for the
  database and environment of the request, which was dispatched and is now running; the only
  new execution is a claimed one with a lease of the policy's length, there is no other claimed
  execution of the request, and for a migration no other migration was in flight on that
  database when the checks ran. The token the agent receives is the signature over the request,
  its scope and the hash of exactly the detail or plan handed out with it.\<close>

theorem agent_claim_sound:
  assumes "store_ok s" and "agent_claim env ports input user ctx s = (Inr out, s', effs)"
  defines "i \<equiv> cl_request_id input"
  shows "\<exists>r p ex role. get_request s i = Some r \<and> rq_status r = Dispatched
     \<and> au_subject_id user = cl_agent_id input \<and> has_capability (cl_databases input) r
     \<and> has_scoped_permission user AgentOperate (rq_database r) (rq_environment r)
     \<and> \<not> (is_migration_mutation (rq_operation r) \<and> has_running_migration s (rq_database r) (rq_environment r) i)
     \<and> get_request s' i = Some (r\<lparr> rq_status := Running, rq_updated_at := ce_now env \<rparr>)
     \<and> st_executions s' = st_executions s @ [ex] \<and> ex_status ex = ExClaimed \<and> ex_request_id ex = i
     \<and> ex_agent_id ex = au_subject_id user
     \<and> (\<forall>e \<in> set (st_executions s). \<not> (ex_request_id e = i \<and> ex_status e = ExClaimed))
     \<and> cp_policy ports (rq_database r) (rq_environment r) = Inr p
     \<and> co_lease_expires_at out = ce_now env + seconds (lease_duration_for_operation p (rq_operation r))
     \<and> co_execution_token out = cp_sign ports (claims_of (ce_lib env) r role)
     \<and> tk_detail_hash (claims_of (ce_lib env) r role) = x_sha256_hex (ce_lib env)
          (case co_execution_plan_json out of Some j \<Rightarrow> j
           | None \<Rightarrow> if is_migration_mutation (rq_operation r) then canonicalize_json (ce_lib env) (co_detail out)
                     else co_detail out)"
proof -
  obtain r ex ev p where chk: "claim_checks env ports input user ctx s = Inr (r, ex, ev, p)"
    and tx: "claim_tx env (rq_id r) ex ev s = Inr ((), s')"
    and out: "co_execution_token out = ex_token ex" "co_lease_expires_at out = ex_lease_expires_at ex"
      "co_execution_plan_json out = rq_execution_plan_json r" "co_detail out = rq_detail r"
    using assms(2) uow.commits
    by (fastforce simp: agent_claim_def stopped_def res_simps split: sum.splits prod.splits option.splits)
  note c = claim_checks_Inr [OF chk]
  have i: "rq_id r = i" using c(2) by (simp add: i_def)
  from tx obtain s1 s2 where ins: "insert_execution ex s = Inr ((), s1)"
    and mk: "mark_running i (ce_now env) s1 = Inr (True, s2)"
    and rec: "record_event (ce_lib env) (ce_audit env) (audit_of (ce_lib env) ev (ce_now env)) s2 = Inr ((), s')"
    by (auto simp: claim_tx_def tx_simps i)
  have s1: "s1 = s\<lparr> st_executions := st_executions s @ [ex\<lparr> ex_status := ExClaimed \<rparr>] \<rparr>"
    and free: "\<forall>e \<in> set (st_executions s). \<not> (ex_request_id e = i \<and> ex_status e = ExClaimed)"
    using ins c(8) by (auto simp: insert_execution_Inr i)
  have ok1: "store_ok s1" using keeps_invD [OF insert_execution_ok assms(1) ins] .
  obtain r0 q where s2: "s2 = s1\<lparr> st_requests := q \<rparr>" and r0: "get_request s1 i = Some r0" "rq_status r0 = Dispatched"
    and g2: "get_request s2 i = Some (r0\<lparr> rq_status := Running, rq_updated_at := ce_now env \<rparr>)"
    using update_request_True [OF ok1 mk [unfolded mark_running_def update_status_guarded_def]] by auto
  obtain t where s': "s' = s2\<lparr> st_audit := t \<rparr>"
    using rec by (rule record_event_Inr)
  have r0': "r0 = r" using c(1) r0(1) by (simp add: s1 get_request_def i_def)
  have post: "get_request s' i = Some (r\<lparr> rq_status := Running, rq_updated_at := ce_now env \<rparr>)"
    "st_executions s' = st_executions s @ [ex\<lparr> ex_status := ExClaimed \<rparr>]"
    using g2 by (simp_all add: s' s2 s1 get_request_def r0')
  obtain role where role: "ex_token ex = cp_sign ports (claims_of (ce_lib env) r role)" using c(11) by blast
  have hash: "tk_detail_hash (claims_of (ce_lib env) r role) = x_sha256_hex (ce_lib env)
          (case co_execution_plan_json out of Some j \<Rightarrow> j
           | None \<Rightarrow> if is_migration_mutation (rq_operation r) then canonicalize_json (ce_lib env) (co_detail out)
                     else co_detail out)"
    by (simp add: claims_of_def canonical_detail_def out split: option.splits)
  show ?thesis
    using c post free r0(2) role i out(1,2) hash
    by (intro exI [of _ r] exI [of _ p] exI [of _ "ex\<lparr> ex_status := ExClaimed \<rparr>"] exI [of _ role])
      (simp add: r0' i_def del: option.case_eq_if)
qed

definition demo_agent :: auth_user where
  "demo_agent =
     \<lparr> au_subject_id = ''agent-1'', au_subject_type = SubjAgent,
       au_roles = [\<lparr> rr_name = ''agent-default'', rr_permissions = [AgentOperate \<mapsto> AnyOwner],
         rr_databases = [db_wildcard], rr_environments = [env_wildcard] \<rparr>],
       au_groups = [], au_token_id = None \<rparr>"

definition demo_claim :: claim_input where
  "demo_claim = \<lparr> cl_request_id = ''r1'', cl_agent_id = ''agent-1'',
     cl_databases = [\<lparr> dc_database = DatabaseName ''app'', dc_environment = Environment ''prod'' \<rparr>] \<rparr>"

definition demo_claim_ports :: claim_ports where
  "demo_claim_ports =
     \<lparr> cp_policy = (\<lambda>_ _. Inr default_execution_policy), cp_agent = (\<lambda>_. Inr None),
       cp_user_groups = (\<lambda>_. Inr None), cp_resolve_roles = (\<lambda>_ _ _. Inr []),
       cp_sign = tk_detail_hash, cp_plan_read = (\<lambda>_. None) \<rparr>"

lemma demo_claim_succeeds:
  "\<exists>out s' effs. agent_claim demo_env demo_claim_ports demo_claim demo_agent CtxSystem (demo_store Dispatched)
     = (Inr out, s', effs)"
  by (simp add: agent_claim_def claim_checks_def claim_tx_def demo_claim_def demo_agent_def demo_claim_ports_def
      demo_eval authorize_global_def authorize_scoped_def check_context_def self_read_def has_permission_def
      has_scoped_permission_def role_allows_def role_has_permission_def covers_database_def
      covers_environment_def db_wildcard_def env_wildcard_def has_capability_def insert_execution_def
      mark_running_def update_status_guarded_def)

theorem agent_claim_sound_witness:
  "\<exists>s' r ex. get_request (demo_store Dispatched) ''r1'' = Some r \<and> rq_status r = Dispatched
     \<and> get_request s' ''r1'' = Some (r\<lparr> rq_status := Running, rq_updated_at := 1 \<rparr>)
     \<and> st_executions s' = st_executions (demo_store Dispatched) @ [ex] \<and> ex_status ex = ExClaimed"
proof -
  obtain out s' effs where run: "agent_claim demo_env demo_claim_ports demo_claim demo_agent CtxSystem
      (demo_store Dispatched) = (Inr out, s', effs)"
    using demo_claim_succeeds by blast
  have i: "cl_request_id demo_claim = ''r1''" "ce_now demo_env = 1" by (simp_all add: demo_claim_def demo_env_def)
  show ?thesis
    using agent_claim_sound [OF demo_store_ok run] unfolding i by blast
qed

end
