(* ===== verification/Execution_Token.thy ===== *)
theory Execution_Token
  imports UC_Execution
begin

text \<open>
  Execution tokens: the signature the server hands to an agent with a claimed job
  (\<open>crates/dbward-infra/src/token_signer.rs\<close>) and the check the agent makes before it runs anything
  (\<open>crates/dbward-agent/src/executor/token.rs\<close>, \<open>executor/mod.rs\<close>, \<open>executor/handlers.rs\<close>).
  Ed25519, the JSON library and the database driver are parameters. The theorems say what the
  check guarantees about the statements that reach the database, and where it guarantees nothing.
\<close>

record execution_token =
  et_request_id :: string
  et_operation :: string
  et_environment :: string
  et_database :: string
  et_detail_hash :: string
  et_expires_at :: string
  et_signature :: string
  et_requester_role :: string
  et_requester_subject_id :: string

record claim_response =
  cr_execution_id :: string
  cr_request_id :: string
  cr_operation :: string
  cr_environment :: string
  cr_database :: string
  cr_detail :: string
  cr_execution_token :: string
  cr_statement_timeout_secs :: "u64 option"
  cr_max_rows :: "u32 option"
  cr_lease_expires_at :: "string option"
  cr_execution_plan :: "string list option"
  cr_execution_plan_json :: "string option"

text \<open>\<open>tl_read\<close> is \<open>serde_json::from_str\<close> at the type of tokens, \<open>tl_error\<close> the text of a library error;
  \<open>tl_verify\<close> is the verification with the server's public key.\<close>

record token_lib =
  tl_read :: "string \<Rightarrow> execution_token option"
  tl_sign :: "string \<Rightarrow> string"
  tl_verify :: "string \<Rightarrow> string \<Rightarrow> bool"
  tl_error :: "string \<Rightarrow> string"

datatype agent_error = AgHttp string bool | AgConfig string | AgTokenVerification string | AgDriver string
  | AgMigration string | AgIo string | AgDrainTimeout | AgServerError nat string | AgAlreadyClaimed
  | AgUnsupportedOperation string

subsection \<open>Signing\<close>

definition token_message :: "string list \<Rightarrow> string" where
  "token_message parts = join ''|'' parts"

definition claims_fields :: "token_claims \<Rightarrow> string \<Rightarrow> string list" where
  "claims_fields c expires_at =
     [tk_request_id c, tk_operation c, tk_environment c, tk_database c, tk_detail_hash c, expires_at,
      tk_requester_role c, tk_requester c]"

definition token_json :: "token_claims \<Rightarrow> string \<Rightarrow> string \<Rightarrow> string \<Rightarrow> json" where
  "token_json c issued_at expires_at signature =
     JObj [(''request_id'', JStr (tk_request_id c)), (''operation'', JStr (tk_operation c)),
       (''environment'', JStr (tk_environment c)), (''database'', JStr (tk_database c)),
       (''detail_hash'', JStr (tk_detail_hash c)), (''issued_at'', JStr issued_at),
       (''expires_at'', JStr expires_at), (''signature'', JStr signature),
       (''requester_role'', JStr (tk_requester_role c)), (''requester_subject_id'', JStr (tk_requester c))]"

text \<open>The two readings of the clock are arguments.\<close>

definition sign_token :: "lib \<Rightarrow> token_lib \<Rightarrow> timestamp \<Rightarrow> timestamp \<Rightarrow> token_claims \<Rightarrow> string" where
  "sign_token lib kl now1 now2 c =
     (let issued_at = x_rfc3339 lib now1;
          expires_at = x_rfc3339 lib (now2 + seconds 300);
          signature = tl_sign kl (token_message (claims_fields c expires_at))
      in x_json_text lib (token_json c issued_at expires_at (x_hex_encode lib signature)))"

subsection \<open>Verification by the agent\<close>

definition agent_canonical_detail :: "lib \<Rightarrow> claim_response \<Rightarrow> string" where
  "agent_canonical_detail lib claim =
     (case cr_execution_plan_json claim of
        Some plan_json \<Rightarrow> plan_json
      | None \<Rightarrow>
          if cr_operation claim = ''migrate_up'' \<or> cr_operation claim = ''migrate_down''
            \<or> cr_operation claim = ''migrate_repair''
          then canonicalize_json lib (cr_detail claim)
          else cr_detail claim)"

definition parse_token :: "token_lib \<Rightarrow> string \<Rightarrow> agent_error + execution_token" where
  "parse_token kl raw = ok_or (tl_read kl raw) (AgTokenVerification (''invalid token JSON: '' @ tl_error kl raw))"

definition verified_fields :: "execution_token \<Rightarrow> claim_response \<Rightarrow> string list" where
  "verified_fields t claim =
     [cr_request_id claim, cr_operation claim, cr_environment claim, cr_database claim, et_detail_hash t,
      et_expires_at t, et_requester_role t, et_requester_subject_id t]"

definition verify_token ::
  "lib \<Rightarrow> token_lib \<Rightarrow> timestamp \<Rightarrow> execution_token \<Rightarrow> claim_response \<Rightarrow> agent_error + unit" where
  "verify_token lib kl now t claim = map_err AgTokenVerification (
     tryE (ok_or (x_parse_rfc3339 lib (et_expires_at t))
            (''invalid expires_at: '' @ tl_error kl (et_expires_at t))) (\<lambda>exp.
     tryE (guardE (\<not> now > exp) ''token expired'') (\<lambda>_.
     tryE (guardE (et_request_id t = cr_request_id claim) ''request_id mismatch'') (\<lambda>_.
     tryE (guardE (et_operation t = cr_operation claim) ''operation mismatch'') (\<lambda>_.
     tryE (guardE (et_database t = cr_database claim) ''database mismatch'') (\<lambda>_.
     tryE (guardE (et_environment t = cr_environment claim) ''environment mismatch'') (\<lambda>_.
     let actual_hash = x_sha256_hex lib (agent_canonical_detail lib claim) in
     tryE (guardE (actual_hash = et_detail_hash t) ''detail_hash mismatch'') (\<lambda>_.
     tryE (ok_or (x_hex_decode lib (et_signature t))
            (''invalid signature hex: '' @ tl_error kl (et_signature t))) (\<lambda>sig_bytes.
     tryE (guardE (length sig_bytes = 64) (''invalid signature: '' @ tl_error kl sig_bytes)) (\<lambda>_.
     guardE (tl_verify kl (token_message (verified_fields t claim)) sig_bytes)
       (''signature invalid: '' @ tl_error kl sig_bytes)))))))))))"

subsection \<open>From the claim to the database\<close>

text \<open>What an operation hands to the driver or the migration runner.\<close>

datatype job_input = RunQuery string | RunExecute string | RunUp string | RunDown string | RunStatus
  | RepairMarkApplied string | RepairRemove string

definition plan_sql ::
  "token_lib \<Rightarrow> (string \<Rightarrow> string list option) \<Rightarrow> claim_response \<Rightarrow> agent_error + string" where
  "plan_sql kl plan_read claim =
     (case cr_execution_plan_json claim of
        Some js \<Rightarrow>
          tryE (ok_or (plan_read js) (AgTokenVerification (''malformed execution_plan_json: '' @ tl_error kl js))) (\<lambda>stmts.
          Inr (join ('';'' @ [CHR 0x0A]) stmts))
      | None \<Rightarrow> Inr (cr_detail claim))"

definition repair_input :: "lib \<Rightarrow> token_lib \<Rightarrow> string \<Rightarrow> agent_error + job_input" where
  "repair_input lib kl detail =
     tryE (ok_or (x_json_read lib detail) (AgConfig (''invalid repair detail: '' @ tl_error kl detail))) (\<lambda>parsed.
     let action = or_empty (json_as_str (json_index parsed ''action''));
         version = or_empty (json_as_str (json_index parsed ''version''))
     in tryE (guardE (version \<noteq> []) (AgConfig (''repair detail must contain '' @ quoted ''version''))) (\<lambda>_.
        if action = ''mark_applied'' then Inr (RepairMarkApplied version)
        else if action = ''remove'' then Inr (RepairRemove version)
        else Inl (AgConfig (''unknown repair action '' @ quoted action @ ''. Valid: mark_applied, remove''))))"

definition operation_input ::
  "lib \<Rightarrow> token_lib \<Rightarrow> (string \<Rightarrow> string list option) \<Rightarrow> operation \<Rightarrow> claim_response \<Rightarrow> agent_error + job_input" where
  "operation_input lib kl plan_read op claim =
     (case op of
        ExecuteSelect \<Rightarrow> tryE (plan_sql kl plan_read claim) (\<lambda>sql. Inr (RunQuery sql))
      | ExecuteDml \<Rightarrow> tryE (plan_sql kl plan_read claim) (\<lambda>sql. Inr (RunExecute sql))
      | MigrateUp \<Rightarrow> Inr (RunUp (cr_detail claim))
      | MigrateDown \<Rightarrow> Inr (RunDown (cr_detail claim))
      | MigrateStatus \<Rightarrow> Inr RunStatus
      | MigrateRepair \<Rightarrow> repair_input lib kl (cr_detail claim))"

text \<open>\<open>execute_claimed\<close> up to the call of the driver: verification, connection pool, operation.\<close>

definition execute_claimed ::
  "lib \<Rightarrow> token_lib \<Rightarrow> timestamp \<Rightarrow> (string \<Rightarrow> string list option) \<Rightarrow> (string \<times> string) list
     \<Rightarrow> claim_response \<Rightarrow> agent_error + job_input" where
  "execute_claimed lib kl now plan_read pools claim =
     tryE (parse_token kl (cr_execution_token claim)) (\<lambda>token.
     tryE (verify_token lib kl now token claim) (\<lambda>_.
     tryE (guardE ((cr_database claim, cr_environment claim) \<in> set pools)
            (AgConfig (''no pool for database='' @ cr_database claim @ '' environment='' @ cr_environment claim))) (\<lambda>_.
     tryE (map_err (\<lambda>_. AgUnsupportedOperation (cr_operation claim))
            (operation_from_str (cr_operation claim))) (\<lambda>op.
     operation_input lib kl plan_read op claim))))"

text \<open>The response of the server to a claim, as the agent reads it.\<close>

definition claim_response_of :: "lib \<Rightarrow> claim_output \<Rightarrow> claim_response" where
  "claim_response_of lib out =
     \<lparr> cr_execution_id = co_execution_id out, cr_request_id = co_request_id out, cr_operation = co_operation out,
       cr_environment = co_environment out, cr_database = co_database out, cr_detail = co_detail out,
       cr_execution_token = co_execution_token out,
       cr_statement_timeout_secs = Some (ucast (co_statement_timeout_secs out)), cr_max_rows = co_max_rows out,
       cr_lease_expires_at = Some (x_rfc3339 lib (co_lease_expires_at out)),
       cr_execution_plan = co_execution_plan out, cr_execution_plan_json = co_execution_plan_json out \<rparr>"

subsection \<open>Messages determine their parts\<close>

lemma count_join:
  "xs \<noteq> [] \<Longrightarrow> count_list (join [c] xs) c = length xs - 1 + sum_list (map (\<lambda>x. count_list x c) xs)"
  by (induction "[c]" xs rule: join.induct) auto

lemma join_inject_free:
  assumes "join [c] xs = join [c] ys" and "length xs = length ys"
    and "\<forall>x \<in> set xs. c \<notin> set x" and "\<forall>y \<in> set ys. c \<notin> set y"
  shows "xs = ys"
  using assms
proof (induction "[c]" xs arbitrary: ys rule: join.induct)
  case (2 x)
  then show ?case by (cases ys) auto
next
  case (3 x y xs)
  then obtain u v ws where ys: "ys = u # v # ws" by (cases ys; cases "List.tl ys") auto
  have "split_once c (x @ c # join [c] (y # xs)) = split_once c (u @ c # join [c] (v # ws))"
    using 3(2) by (simp add: ys)
  then have "x = u" "join [c] (y # xs) = join [c] (v # ws)"
    using 3(4,5) by (simp_all add: ys del: join.simps)
  with 3 show ?case by (simp add: ys)
qed simp

text \<open>If one side has no separators in its parts, neither has the other.\<close>

lemma token_message_inject:
  assumes "token_message xs = token_message ys" and "length xs = length ys"
    and "\<forall>y \<in> set ys. CHR ''|'' \<notin> set y"
  shows "xs = ys"
proof (cases "xs = []")
  case False
  with assms(2) have "ys \<noteq> []" by auto
  have "sum_list (map (\<lambda>x. count_list x CHR ''|'') xs) = sum_list (map (\<lambda>y. count_list y CHR ''|'') ys)"
    using count_join [OF False, of "CHR ''|''"] count_join [OF \<open>ys \<noteq> []\<close>, of "CHR ''|''"] assms(1,2)
    by (simp add: token_message_def)
  also have "\<dots> = 0"
    using assms(3) by (auto simp: count_list_0_iff)
  finally have "sum_list (map (\<lambda>x. count_list x CHR ''|'') xs) = 0" .
  then have "\<forall>x \<in> set xs. CHR ''|'' \<notin> set x"
    by (auto simp: count_list_0_iff)
  with assms show ?thesis
    unfolding token_message_def by (intro join_inject_free) auto
qed (use assms(2) in simp)

subsection \<open>What the check guarantees\<close>

lemma verify_token_ok:
  "verify_token lib kl now t claim = Inr () \<longleftrightarrow>
   (\<exists>exp sig_bytes. x_parse_rfc3339 lib (et_expires_at t) = Some exp \<and> now \<le> exp
     \<and> et_request_id t = cr_request_id claim \<and> et_operation t = cr_operation claim
     \<and> et_database t = cr_database claim \<and> et_environment t = cr_environment claim
     \<and> x_sha256_hex lib (agent_canonical_detail lib claim) = et_detail_hash t
     \<and> x_hex_decode lib (et_signature t) = Some sig_bytes \<and> length sig_bytes = 64
     \<and> tl_verify kl (token_message (verified_fields t claim)) sig_bytes)"
  by (auto simp: verify_token_def res_simps Let_def not_less)

lemma execute_claimed_Inr:
  assumes "execute_claimed lib kl now plan_read pools claim = Inr inp"
  obtains t op where "tl_read kl (cr_execution_token claim) = Some t" "verify_token lib kl now t claim = Inr ()"
    "(cr_database claim, cr_environment claim) \<in> set pools" "operation_from_str (cr_operation claim) = Inr op"
    "operation_input lib kl plan_read op claim = Inr inp"
  using assms by (auto simp: execute_claimed_def parse_token_def res_simps)

text \<open>C10: An agent runs a job only on the server's word. Assume that a signature can be verified only for
  messages the server has signed (each for a request, a role name and an expiry time whose parts
  contain no separator), and that SHA-256 has no collision among the texts in question. If the
  agent gets as far as handing something to the database, then the server signed a token for
  exactly that request, operation, database and environment, the token has not expired, the
  text the agent has hashed is the one the server signed for, and for queries and data changes
  that come with the plan of the request the statements run are those of the stored request.\<close>

theorem agent_runs_only_signed:
  assumes "execute_claimed lib kl now plan_read pools claim = Inr inp"
    and unforgeable: "\<And>m sg. tl_verify kl m sg \<Longrightarrow>
        \<exists>r role exp. (r, role, exp) \<in> issued \<and> m = token_message (claims_fields (claims_of lib r role) exp)"
    and separators: "\<And>r role exp y. (r, role, exp) \<in> issued \<Longrightarrow> y \<in> set (claims_fields (claims_of lib r role) exp) \<Longrightarrow>
        CHR ''|'' \<notin> set y"
    and collisions: "inj_on (x_sha256_hex lib)
        (insert (agent_canonical_detail lib claim) ((\<lambda>(r, _, _). canonical_detail lib r) ` issued))"
  shows "\<exists>r role exp t. (r, role, exp) \<in> issued \<and> x_parse_rfc3339 lib exp = Some t \<and> now \<le> t
     \<and> cr_request_id claim = rq_id r \<and> cr_operation claim = operation_as_str (rq_operation r)
     \<and> cr_database claim = db_str (rq_database r) \<and> cr_environment claim = env_str (rq_environment r)
     \<and> agent_canonical_detail lib claim = canonical_detail lib r
     \<and> (\<not> is_migration_mutation (rq_operation r) \<and> cr_execution_plan_json claim = rq_execution_plan_json r \<longrightarrow>
          operation_input lib kl plan_read (rq_operation r) (claim\<lparr> cr_detail := rq_detail r \<rparr>) = Inr inp)"
proof -
  obtain t op where ver: "verify_token lib kl now t claim = Inr ()"
    and op: "operation_from_str (cr_operation claim) = Inr op"
    and inp: "operation_input lib kl plan_read op claim = Inr inp"
    by (rule execute_claimed_Inr [OF assms(1)])
  then obtain exp sig_bytes where v: "x_parse_rfc3339 lib (et_expires_at t) = Some exp" "now \<le> exp"
    "x_sha256_hex lib (agent_canonical_detail lib claim) = et_detail_hash t"
    "tl_verify kl (token_message (verified_fields t claim)) sig_bytes"
    unfolding verify_token_ok by blast
  obtain r role expires where i: "(r, role, expires) \<in> issued"
    and m: "token_message (verified_fields t claim) = token_message (claims_fields (claims_of lib r role) expires)"
    using unforgeable [OF v(4)] by blast
  have "verified_fields t claim = claims_fields (claims_of lib r role) expires"
    by (rule token_message_inject [OF m])
      (use separators [OF i] in \<open>auto simp: verified_fields_def claims_fields_def\<close>)
  then have f: "cr_request_id claim = rq_id r" "cr_operation claim = operation_as_str (rq_operation r)"
    "cr_environment claim = env_str (rq_environment r)" "cr_database claim = db_str (rq_database r)"
    "et_detail_hash t = x_sha256_hex lib (canonical_detail lib r)" "et_expires_at t = expires"
    by (simp_all add: verified_fields_def claims_fields_def claims_of_def)
  have "canonical_detail lib r \<in> (\<lambda>(r, _, _). canonical_detail lib r) ` issued"
    using i by force
  then have canon: "agent_canonical_detail lib claim = canonical_detail lib r"
    using v(3) f(5) inj_onD [OF collisions, of "agent_canonical_detail lib claim" "canonical_detail lib r"] by simp
  have ops: "op = rq_operation r"
    using op f(2) operation_from_as_str by simp
  have "operation_input lib kl plan_read (rq_operation r) (claim\<lparr> cr_detail := rq_detail r \<rparr>) = Inr inp"
    if "\<not> is_migration_mutation (rq_operation r)" "cr_execution_plan_json claim = rq_execution_plan_json r"
    using that inp canon f(2) ops
    by (cases "rq_operation r"; cases "rq_execution_plan_json r")
      (auto simp: operation_input_def plan_sql_def agent_canonical_detail_def canonical_detail_def)
  with i v(1,2) f canon show ?thesis by blast
qed

text \<open>C40: For migrations the check can be bypassed. The agent hashes the plan when the claim carries one,
  but a migration is run from the detail. So from any accepted migration claim without a plan
  another accepted claim is made by moving the signed text into the plan and putting any text
  whatsoever into the detail, which is then run.\<close>

theorem migration_detail_unauthenticated:
  assumes "execute_claimed lib kl now plan_read pools claim = Inr inp"
    and "cr_operation claim = ''migrate_up''" and "cr_execution_plan_json claim = None"
  shows "execute_claimed lib kl now plan_read pools (claim\<lparr> cr_detail := injected,
      cr_execution_plan_json := Some (canonicalize_json lib (cr_detail claim)) \<rparr>) = Inr (RunUp injected)"
proof -
  obtain t op where h: "tl_read kl (cr_execution_token claim) = Some t" "verify_token lib kl now t claim = Inr ()"
    "(cr_database claim, cr_environment claim) \<in> set pools"
    by (rule execute_claimed_Inr [OF assms(1)])
  let ?c = "claim\<lparr> cr_detail := injected, cr_execution_plan_json := Some (canonicalize_json lib (cr_detail claim)) \<rparr>"
  have "agent_canonical_detail lib ?c = agent_canonical_detail lib claim"
    by (simp add: agent_canonical_detail_def assms(2,3))
  then have "verify_token lib kl now t ?c = Inr ()"
    using h(2) unfolding verify_token_ok by (simp add: verified_fields_def)
  moreover have "operation_from_str ''migrate_up'' = Inr MigrateUp"
    using operation_from_as_str [of MigrateUp] by simp
  ultimately show ?thesis
    using h(1,3) by (simp add: execute_claimed_def parse_token_def assms(2) operation_input_def)
qed

subsection \<open>Signed claims are accepted\<close>

lemma agent_claim_response:
  assumes "agent_claim env ports input user ctx s = (Inr out, s', effs)"
  obtains r role where "get_request s (cl_request_id input) = Some r" "co_request_id out = rq_id r"
    "co_operation out = operation_as_str (rq_operation r)" "co_database out = db_str (rq_database r)"
    "co_environment out = env_str (rq_environment r)" "co_detail out = rq_detail r"
    "co_execution_plan_json out = rq_execution_plan_json r"
    "co_execution_token out = cp_sign ports (claims_of (ce_lib env) r role)"
proof -
  obtain r ex ev p where chk: "claim_checks env ports input user ctx s = Inr (r, ex, ev, p)"
    and out: "co_request_id out = rq_id r" "co_operation out = operation_as_str (rq_operation r)"
      "co_database out = db_str (rq_database r)" "co_environment out = env_str (rq_environment r)"
      "co_detail out = rq_detail r" "co_execution_plan_json out = rq_execution_plan_json r"
      "co_execution_token out = ex_token ex"
    using assms
    by (fastforce simp: agent_claim_def stopped_def res_simps split: sum.splits prod.splits option.splits)
  then show thesis
    using claim_checks_Inr(1,11) [OF chk] that by auto
qed

lemma agent_canonical_detail_of_claim:
  assumes "cr_operation claim = operation_as_str (rq_operation r)" and "cr_detail claim = rq_detail r"
    and "cr_execution_plan_json claim = rq_execution_plan_json r"
  shows "agent_canonical_detail lib claim = canonical_detail lib r"
  using assms by (cases "rq_operation r") (simp_all add: agent_canonical_detail_def canonical_detail_def split: option.splits)

text \<open>C37: What the server signs, the agent accepts: the token of a successful claim passes the agent's check
  of the server's response until five minutes after the signing, given that the libraries undo
  their own encodings and that a signature of the server's key verifies. In particular both
  sides canonicalise the detail alike.\<close>

theorem claimed_token_accepted:
  assumes claim: "agent_claim env ports input user ctx s = (Inr out, s', effs)"
    and signer: "cp_sign ports = sign_token (ce_lib env) kl now1 now2"
    and read: "\<And>c i e sg. tl_read kl (x_json_text (ce_lib env) (token_json c i e sg)) =
      Some \<lparr> et_request_id = tk_request_id c, et_operation = tk_operation c, et_environment = tk_environment c,
        et_database = tk_database c, et_detail_hash = tk_detail_hash c, et_expires_at = e, et_signature = sg,
        et_requester_role = tk_requester_role c, et_requester_subject_id = tk_requester c \<rparr>"
    and hex: "\<And>b. x_hex_decode (ce_lib env) (x_hex_encode (ce_lib env) b) = Some b"
    and clock: "\<And>t. x_parse_rfc3339 (ce_lib env) (x_rfc3339 (ce_lib env) t) = Some t"
    and sign: "\<And>m. tl_verify kl m (tl_sign kl m) \<and> length (tl_sign kl m) = 64"
    and time: "now \<le> now2 + seconds 300"
  shows "\<exists>t. parse_token kl (cr_execution_token (claim_response_of (ce_lib env) out)) = Inr t
     \<and> verify_token (ce_lib env) kl now t (claim_response_of (ce_lib env) out) = Inr ()"
proof -
  let ?lib = "ce_lib env" and ?resp = "claim_response_of (ce_lib env) out"
  obtain r role where o: "co_request_id out = rq_id r" "co_operation out = operation_as_str (rq_operation r)"
    "co_database out = db_str (rq_database r)" "co_environment out = env_str (rq_environment r)"
    "co_detail out = rq_detail r" "co_execution_plan_json out = rq_execution_plan_json r"
    "co_execution_token out = cp_sign ports (claims_of ?lib r role)"
    by (rule agent_claim_response [OF claim])
  have sel: "cr_request_id ?resp = rq_id r" "cr_operation ?resp = operation_as_str (rq_operation r)"
    "cr_database ?resp = db_str (rq_database r)" "cr_environment ?resp = env_str (rq_environment r)"
    "cr_execution_token ?resp = cp_sign ports (claims_of ?lib r role)"
    by (simp_all add: claim_response_of_def o)
  have canon: "agent_canonical_detail ?lib ?resp = canonical_detail ?lib r"
    by (rule agent_canonical_detail_of_claim) (simp_all add: claim_response_of_def o)
  show ?thesis
    by (simp add: parse_token_def verify_token_ok canon sel signer sign_token_def Let_def read hex
        clock sign time claims_of_def verified_fields_def claims_fields_def)
qed

subsection \<open>Field order\<close>

text \<open>Values that differ in the order of object fields only; \<open>serde_json\<close> objects have distinct keys.\<close>

inductive same_json :: "json \<Rightarrow> json \<Rightarrow> bool" where
  "same_json JNull JNull"
| "same_json (JBool b) (JBool b)"
| "same_json (JNum n) (JNum n)"
| "same_json (JStr s) (JStr s)"
| "list_all2 same_json vs ws \<Longrightarrow> same_json (JArr vs) (JArr ws)"
| "distinct (map fst kvs) \<Longrightarrow> distinct (map fst lws) \<Longrightarrow> fst ` set kvs = fst ` set lws
   \<Longrightarrow> (\<And>k v w. (k, v) \<in> set kvs \<Longrightarrow> (k, w) \<in> set lws \<Longrightarrow> same_json v w)
   \<Longrightarrow> same_json (JObj kvs) (JObj lws)"

lemma sorted_fields_agree:
  fixes kvs lws :: "(string \<times> json) list"
  assumes "distinct (map fst kvs)" and "distinct (map fst lws)" and "fst ` set kvs = fst ` set lws"
    and "\<And>k v w. (k, v) \<in> set kvs \<Longrightarrow> (k, w) \<in> set lws \<Longrightarrow> f v = f w"
  shows "map (\<lambda>(k, v). (k, f v)) (sort_key fst kvs) = map (\<lambda>(k, v). (k, f v)) (sort_key fst lws)"
proof -
  have keys: "map fst (sort_key fst kvs) = map fst (sort_key fst lws)"
  proof (rule sorted_distinct_set_unique)
    show "distinct (map fst (sort_key fst kvs))" "distinct (map fst (sort_key fst lws))"
      using assms(1,2) by (simp_all add: distinct_map)
  qed (simp_all add: assms(3))
  show ?thesis
  proof (rule nth_equalityI)
    show "length (map (\<lambda>(k, v). (k, f v)) (sort_key fst kvs)) = length (map (\<lambda>(k, v). (k, f v)) (sort_key fst lws))"
      using arg_cong [OF keys, of length] by simp
    fix i
    assume "i < length (map (\<lambda>(k, v). (k, f v)) (sort_key fst kvs))"
    then have i: "i < length kvs" "i < length lws" using arg_cong [OF keys, of length] by simp_all
    obtain k v l w where p: "sort_key fst kvs ! i = (k, v)" "sort_key fst lws ! i = (l, w)"
      by (cases "sort_key fst kvs ! i"; cases "sort_key fst lws ! i") blast
    have "(k, v) \<in> set (sort_key fst kvs)" "(l, w) \<in> set (sort_key fst lws)"
      using i p by (metis length_sort nth_mem)+
    moreover have "k = l" using arg_cong [OF keys, of "\<lambda>xs. xs ! i"] i p by simp
    ultimately show "map (\<lambda>(k, v). (k, f v)) (sort_key fst kvs) ! i = map (\<lambda>(k, v). (k, f v)) (sort_key fst lws) ! i"
      using i p assms(4) by simp
  qed
qed

text \<open>The canonical form does not depend on the order of the fields: texts that read as values
  differing only in that order are hashed alike, so reformatting a migration on its way does not
  invalidate its token.\<close>

theorem canonical_form_ignores_field_order:
  assumes "x_json_read lib a = Some v" and "x_json_read lib b = Some w" and "same_json v w"
  shows "canonicalize_json lib a = canonicalize_json lib b"
proof -
  have "sort_value v = sort_value w"
    using assms(3)
  proof (induction rule: same_json.induct)
    case (5 vs ws)
    then have "map sort_value vs = map sort_value ws"
      by (auto simp: list_all2_conv_all_nth intro: nth_equalityI)
    then show ?case by simp
  next
    case (6 kvs lws)
    then show ?case using sorted_fields_agree [of kvs lws sort_value] by simp
  qed simp_all
  with assms(1,2) show ?thesis by (simp add: canonicalize_json_def)
qed

subsection \<open>Examples\<close>

definition signed_request :: "operation \<Rightarrow> request" where
  "signed_request op = (demo_request Dispatched)\<lparr> rq_operation := op \<rparr>"

definition fixed_token :: "request \<Rightarrow> execution_token" where
  "fixed_token r =
     \<lparr> et_request_id = rq_id r, et_operation = operation_as_str (rq_operation r),
       et_environment = env_str (rq_environment r), et_database = db_str (rq_database r),
       et_detail_hash = x_sha256_hex example_lib (canonical_detail example_lib r), et_expires_at = ''9'',
       et_signature = replicate 64 CHR ''s'', et_requester_role = ''dev'', et_requester_subject_id = rq_requester r \<rparr>"

definition fixed_claim :: "request \<Rightarrow> claim_response" where
  "fixed_claim r =
     \<lparr> cr_execution_id = ''x1'', cr_request_id = rq_id r, cr_operation = operation_as_str (rq_operation r),
       cr_environment = env_str (rq_environment r), cr_database = db_str (rq_database r), cr_detail = rq_detail r,
       cr_execution_token = [], cr_statement_timeout_secs = None, cr_max_rows = None, cr_lease_expires_at = None,
       cr_execution_plan = None, cr_execution_plan_json = rq_execution_plan_json r \<rparr>"

definition fixed_keys :: "request \<Rightarrow> token_lib" where
  "fixed_keys r =
     \<lparr> tl_read = (\<lambda>_. Some (fixed_token r)), tl_sign = (\<lambda>_. replicate 64 CHR ''s''),
       tl_verify = (\<lambda>m _. m = token_message (claims_fields (claims_of example_lib r ''dev'') ''9'')),
       tl_error = (\<lambda>_. []) \<rparr>"

lemma fixed_token_ok: "verify_token example_lib (fixed_keys r) 1 (fixed_token r) (fixed_claim r) = Inr ()"
proof -
  have "agent_canonical_detail example_lib (fixed_claim r) = canonical_detail example_lib r"
    by (rule agent_canonical_detail_of_claim) (simp_all add: fixed_claim_def)
  moreover have "x_parse_rfc3339 example_lib ''9'' = Some 9"
    by (simp add: example_lib_def read_nat_def digit_val_def)
  ultimately show ?thesis
    by (simp add: verify_token_ok fixed_token_def fixed_claim_def fixed_keys_def verified_fields_def claims_fields_def
        claims_of_def) (simp add: example_lib_def)
qed

lemma signed_claim_runs:
  "execute_claimed example_lib (fixed_keys (signed_request ExecuteDml)) 1 (\<lambda>_. None) [(''app'', ''prod'')]
     (fixed_claim (signed_request ExecuteDml)) = Inr (RunExecute ''UPDATE t SET x = 1'')"
  "execute_claimed example_lib (fixed_keys (signed_request MigrateUp)) 1 (\<lambda>_. None) [(''app'', ''prod'')]
     (fixed_claim (signed_request MigrateUp)) = Inr (RunUp ''UPDATE t SET x = 1'')"
proof -
  have "tl_read (fixed_keys r) x = Some (fixed_token r)" for r x by (simp add: fixed_keys_def)
  then show "execute_claimed example_lib (fixed_keys (signed_request ExecuteDml)) 1 (\<lambda>_. None) [(''app'', ''prod'')]
     (fixed_claim (signed_request ExecuteDml)) = Inr (RunExecute ''UPDATE t SET x = 1'')"
  "execute_claimed example_lib (fixed_keys (signed_request MigrateUp)) 1 (\<lambda>_. None) [(''app'', ''prod'')]
     (fixed_claim (signed_request MigrateUp)) = Inr (RunUp ''UPDATE t SET x = 1'')"
    by (simp_all add: execute_claimed_def parse_token_def fixed_token_ok)
      (simp_all add: fixed_claim_def signed_request_def demo_request_def operation_from_str_def operation_input_def plan_sql_def)
qed

theorem agent_runs_only_signed_witness:
  "\<exists>r role exp t. (r, role, exp) \<in> {(signed_request ExecuteDml, ''dev'', ''9'')}
     \<and> x_parse_rfc3339 example_lib exp = Some t \<and> 1 \<le> t \<and> cr_request_id (fixed_claim (signed_request ExecuteDml)) = rq_id r
     \<and> agent_canonical_detail example_lib (fixed_claim (signed_request ExecuteDml)) = canonical_detail example_lib r"
  using agent_runs_only_signed [OF signed_claim_runs(1), of "{(signed_request ExecuteDml, ''dev'', ''9'')}"]
  by (fastforce simp: fixed_keys_def claims_fields_def claims_of_def signed_request_def demo_request_def canonical_detail_def
      example_lib_def inj_on_def)

theorem migration_detail_unauthenticated_witness:
  "execute_claimed example_lib (fixed_keys (signed_request MigrateUp)) 1 (\<lambda>_. None) [(''app'', ''prod'')]
     ((fixed_claim (signed_request MigrateUp))\<lparr> cr_detail := ''DROP DATABASE app'',
        cr_execution_plan_json := Some (canonicalize_json example_lib (cr_detail (fixed_claim (signed_request MigrateUp)))) \<rparr>)
   = Inr (RunUp ''DROP DATABASE app'')"
  by (rule migration_detail_unauthenticated [OF signed_claim_runs(2)])
    (simp_all add: fixed_claim_def signed_request_def demo_request_def)

theorem canonical_form_ignores_field_order_witness:
  "canonicalize_json coded_lib (x_json_text coded_lib (JObj [(''a'', JNull), (''b'', JNull)])) =
   canonicalize_json coded_lib (x_json_text coded_lib (JObj [(''b'', JNull), (''a'', JNull)]))"
  by (rule canonical_form_ignores_field_order [OF coded_lib_json coded_lib_json])
    (auto intro!: same_json.intros)

text \<open>Libraries that undo their encodings.\<close>

definition round_lib :: lib where
  "round_lib = coded_lib\<lparr> x_rfc3339 := \<lambda>t. show_nat (to_nat t), x_parse_rfc3339 := \<lambda>s. Some (from_nat (read_nat s)),
     x_workflow_read := \<lambda>_. Some demo_workflow \<rparr>"

definition token_of_json :: "json \<Rightarrow> execution_token" where
  "token_of_json v =
     (let f = (\<lambda>k. or_empty (json_as_str (json_index v k))) in
      \<lparr> et_request_id = f ''request_id'', et_operation = f ''operation'', et_environment = f ''environment'',
        et_database = f ''database'', et_detail_hash = f ''detail_hash'', et_expires_at = f ''expires_at'',
        et_signature = f ''signature'', et_requester_role = f ''requester_role'',
        et_requester_subject_id = f ''requester_subject_id'' \<rparr>)"

definition round_keys :: token_lib where
  "round_keys = \<lparr> tl_read = (\<lambda>s. map_option token_of_json (x_json_read round_lib s)),
     tl_sign = (\<lambda>m. replicate 64 CHR ''s''), tl_verify = (\<lambda>m s. s = replicate 64 CHR ''s''), tl_error = (\<lambda>_. []) \<rparr>"

lemma round_claim_succeeds:
  "\<exists>out s' effs. agent_claim (demo_env\<lparr> ce_lib := round_lib \<rparr>)
     (demo_claim_ports\<lparr> cp_sign := sign_token round_lib round_keys 0 0 \<rparr>) demo_claim demo_agent CtxSystem (demo_store Dispatched)
     = (Inr out, s', effs)"
  by (simp add: agent_claim_def claim_checks_def claim_tx_def demo_claim_def demo_agent_def demo_claim_ports_def
      demo_eval authorize_global_def authorize_scoped_def check_context_def self_read_def has_permission_def
      has_scoped_permission_def role_allows_def role_has_permission_def covers_database_def
      covers_environment_def db_wildcard_def env_wildcard_def has_capability_def insert_execution_def
      mark_running_def update_status_guarded_def)

theorem claimed_token_accepted_witness:
  "\<exists>out t. parse_token round_keys (cr_execution_token (claim_response_of round_lib out)) = Inr t
     \<and> verify_token round_lib round_keys 100 t (claim_response_of round_lib out) = Inr ()"
proof -
  obtain out s' effs where run: "agent_claim (demo_env\<lparr> ce_lib := round_lib \<rparr>)
     (demo_claim_ports\<lparr> cp_sign := sign_token round_lib round_keys 0 0 \<rparr>) demo_claim demo_agent CtxSystem (demo_store Dispatched)
     = (Inr out, s', effs)" using round_claim_succeeds by blast
  have lib: "ce_lib (demo_env\<lparr> ce_lib := round_lib \<rparr>) = round_lib" by simp
  have json: "x_json_read round_lib (x_json_text round_lib j) = Some j" for j
    by (simp add: round_lib_def coded_lib_def)
  have "\<exists>t. parse_token round_keys (cr_execution_token (claim_response_of round_lib out)) = Inr t
     \<and> verify_token round_lib round_keys 100 t (claim_response_of round_lib out) = Inr ()"
    by (rule claimed_token_accepted [OF run, unfolded lib])
      (simp_all add: round_keys_def json token_of_json_def token_json_def or_empty_def Let_def,
       simp_all add: round_lib_def coded_lib_def example_lib_def seconds_def)
  then show ?thesis by blast
qed

end
