(* ===== verification/Agent_Runner.thy ===== *)
theory Agent_Runner
  imports Execution_Token
begin

text \<open>
  The agent's submission loop (\<open>crates/dbward-agent/src/executor/mod.rs\<close>): which errors are retried,
  the growing pause and the deadline. The outcomes of the attempts and their durations are
  parameters, times are in nanoseconds. The loop is a partial function; that it returns is a theorem.
\<close>

definition is_retryable :: "agent_error \<Rightarrow> bool" where
  "is_retryable err =
     (case err of
        AgServerError status _ \<Rightarrow> status \<ge> 500 \<or> status = 429
      | AgHttp _ retryable \<Rightarrow> retryable
      | _ \<Rightarrow> False)"

abbreviation secs :: "nat \<Rightarrow> nat" where
  "secs n \<equiv> n * 1000000000"

text \<open>\<open>k\<close> counts the attempts made so far; the result is their total and the last outcome.\<close>

partial_function (option) submit_loop ::
  "(nat \<Rightarrow> agent_error option) \<Rightarrow> (nat \<Rightarrow> nat) \<Rightarrow> nat \<Rightarrow> nat \<Rightarrow> nat \<Rightarrow> nat \<Rightarrow> (nat \<times> agent_error option) option" where
  "submit_loop outcome latency deadline k now delay =
     (let now = now + latency k in
      case outcome k of
        None \<Rightarrow> Some (Suc k, None)
      | Some e \<Rightarrow>
          if \<not> is_retryable e then Some (Suc k, Some e)
          else if now + delay > deadline then Some (Suc k, Some e)
          else submit_loop outcome latency deadline (Suc k) (now + delay) (min (delay * 2) (secs 15)))"

definition submit_with_retry ::
  "(nat \<Rightarrow> agent_error option) \<Rightarrow> (nat \<Rightarrow> nat) \<Rightarrow> nat \<Rightarrow> (nat \<times> agent_error option) option" where
  "submit_with_retry outcome latency start = submit_loop outcome latency (start + secs 300) 0 start (secs 1)"

subsection \<open>Termination\<close>

text \<open>From attempt \<open>k\<close> on the loop ends with at most \<open>bound\<close> further attempts.\<close>

definition ends :: "(nat \<Rightarrow> agent_error option) \<Rightarrow> (nat \<Rightarrow> nat) \<Rightarrow> nat \<Rightarrow> nat \<Rightarrow> nat \<Rightarrow> nat \<Rightarrow> nat \<Rightarrow> bool" where
  "ends outcome latency deadline k now delay bound \<longleftrightarrow>
     (\<exists>n r. submit_loop outcome latency deadline k now delay = Some (Suc n, r) \<and> k \<le> n \<and> n \<le> k + bound
        \<and> r = outcome n \<and> (\<forall>j. k \<le> j \<and> j < n \<longrightarrow> (\<exists>e. outcome j = Some e \<and> is_retryable e)))"

lemma ends_round:
  assumes "\<And>now'. now + delay \<le> now' \<Longrightarrow> now' \<le> deadline \<Longrightarrow>
      0 < bound \<and> ends outcome latency deadline (Suc k) now' (min (delay * 2) (secs 15)) (bound - 1)"
  shows "ends outcome latency deadline k now delay bound"
proof (cases "\<exists>e. outcome k = Some e \<and> is_retryable e \<and> now + latency k + delay \<le> deadline")
  case True
  then obtain e where e: "outcome k = Some e" "is_retryable e" "now + latency k + delay \<le> deadline" by blast
  then have loop: "submit_loop outcome latency deadline k now delay =
      submit_loop outcome latency deadline (Suc k) (now + latency k + delay) (min (delay * 2) (secs 15))"
    by (simp add: submit_loop.simps [of outcome latency deadline k] Let_def)
  from assms [of "now + latency k + delay"] e(3) obtain n r where b: "0 < bound" and
    n: "submit_loop outcome latency deadline (Suc k) (now + latency k + delay) (min (delay * 2) (secs 15)) = Some (Suc n, r)"
      "Suc k \<le> n" "n \<le> Suc k + (bound - 1)" "r = outcome n"
      "\<forall>j. Suc k \<le> j \<and> j < n \<longrightarrow> (\<exists>e. outcome j = Some e \<and> is_retryable e)"
    by (auto simp: ends_def)
  have "\<forall>j. k \<le> j \<and> j < n \<longrightarrow> (\<exists>e. outcome j = Some e \<and> is_retryable e)"
    using n(5) e by (metis Suc_leI le_neq_implies_less)
  with n b show ?thesis unfolding ends_def loop by (intro exI [of _ n] exI [of _ r]) auto
next
  case False
  then have "submit_loop outcome latency deadline k now delay = Some (Suc k, outcome k)"
    by (auto simp: submit_loop.simps [of outcome latency deadline k] Let_def split: option.splits)
  then show ?thesis by (auto simp: ends_def)
qed

text \<open>With the full pause the remaining time bounds the number of attempts.\<close>

lemma ends_full_pause: "ends outcome latency deadline k now (secs 15) ((deadline - now) div secs 15)"
proof (induction "deadline - now" arbitrary: k now rule: less_induct)
  case less
  show ?case
  proof (rule ends_round)
    fix now'
    assume h: "now + secs 15 \<le> now'" "now' \<le> deadline"
    have le: "Suc ((deadline - now') div secs 15) \<le> (deadline - now) div secs 15"
      using h div_le_mono [of "secs 15 + (deadline - now')" "deadline - now" "secs 15"] by simp
    have "ends outcome latency deadline (Suc k) now' (secs 15) ((deadline - now') div secs 15)"
      using h by (intro less.hyps) simp
    then show "0 < (deadline - now) div secs 15
      \<and> ends outcome latency deadline (Suc k) now' (min (secs 15 * 2) (secs 15)) ((deadline - now) div secs 15 - 1)"
      using le by (auto simp: ends_def)
  qed
qed

lemma ends_mono: "ends outcome latency deadline k now delay b \<Longrightarrow> b \<le> c \<Longrightarrow> ends outcome latency deadline k now delay c"
  by (fastforce simp: ends_def)

text \<open>C38: The submission of a result ends: whatever the outcomes and however long the attempts take, the loop
  returns after at most 24 attempts, with the outcome of the last one, and every earlier attempt
  failed with an error that is worth a retry.\<close>

theorem submission_retries_end:
  "\<exists>n. submit_with_retry outcome latency start = Some (Suc n, outcome n) \<and> Suc n \<le> 24
     \<and> (\<forall>j < n. \<exists>e. outcome j = Some e \<and> is_retryable e)"
proof -
  let ?ends = "ends outcome latency (start + secs 300)"
  have full: "?ends k now (secs 15) 19" if "start + secs 15 \<le> now" for k now
    using that div_le_mono [of "start + secs 300 - now" "secs 285" "secs 15"]
    by (intro ends_mono [OF ends_full_pause]) simp
  have s8: "?ends k now (secs 8) 20" if "start + secs 7 \<le> now" for k now
    using that by (intro ends_round) (simp add: full [simplified])
  have s4: "?ends k now (secs 4) 21" if "start + secs 3 \<le> now" for k now
    using that by (intro ends_round) (simp add: s8 [simplified])
  have s2: "?ends k now (secs 2) 22" if "start + secs 1 \<le> now" for k now
    using that by (intro ends_round) (simp add: s4 [simplified])
  have "?ends 0 start (secs 1) 23"
    by (intro ends_round) (simp add: s2 [simplified])
  then show ?thesis by (auto simp: ends_def submit_with_retry_def)
qed

theorem submission_retries_end_witness:
  "\<exists>n. submit_with_retry (\<lambda>_. Some (AgServerError 503 [])) (\<lambda>_. 0) 0 = Some (Suc n, Some (AgServerError 503 []))
     \<and> Suc n \<le> 24"
  using submission_retries_end [of "\<lambda>_. Some (AgServerError 503 [])" "\<lambda>_. 0" 0] by blast

end
