(* ===== verification/UC_Submit.thy ===== *)
theory UC_Submit
  imports UC_Execution
begin

text \<open>
  Properties of the submission of results
  (\<open>crates/dbward-app/src/use_cases/agent_submit_result.rs\<close>, modelled in \<open>UC_Execution\<close>): what a
  successful submission stores, that a failed one can be retried, and which executions are
  counted against the execution limit.
\<close>

subsection \<open>One row of a table\<close>

context keyed_table
begin

lemma upd_row:
  assumes "ok s" and "find_row (\<lambda>r. key r = k) (rows s) = Some r0" and "P r0"
  shows "upd_where (\<lambda>r. key r = k \<and> P r) f (rows s) = upd_where (\<lambda>r. key r = k) (\<lambda>_. f r0) (rows s)"
  using assms unique [OF assms(1)] lookup_iff [OF assms(1)] by (auto simp: upd_where_def)

end

lemma upd_where_twice:
  assumes "key y = k"
  shows "upd_where (\<lambda>r. key r = k) (\<lambda>_. z) (upd_where (\<lambda>r. key r = k) (\<lambda>_. y) t) = upd_where (\<lambda>r. key r = k) (\<lambda>_. z) t"
  using assms by (simp add: upd_where_def)

text \<open>The store with the row of one execution replaced.\<close>

definition with_execution :: "string \<Rightarrow> execution \<Rightarrow> store \<Rightarrow> store" where
  "with_execution i e s = s\<lparr> st_executions := upd_where (\<lambda>x. ex_id x = i) (\<lambda>_. e) (st_executions s) \<rparr>"

subsection \<open>Acquiring and giving back\<close>

lemma submit_checks_Inr:
  assumes "submit_checks ports now input user ctx s = Inr (e, r, res, policy)"
  shows "get_execution s (sb_execution_id input) = Some e" "ex_id e = sb_execution_id input"
    "au_subject_id user = ex_agent_id e" "has_permission user AgentOperate"
    "get_request s (ex_request_id e) = Some r" "rq_id r = ex_request_id e" "check_submittable e r = Inr ()"
    "transition (rq_status r) (TComplete (sb_success input))
       (event_context r user ctx now (MCompleted (sb_success input) (ex_id e))) = Inr res"
    "sp_result_policy ports (rq_database r) (rq_environment r) = Inr policy"
proof -
  show g: "get_execution s (sb_execution_id input) = Some e" and q: "get_request s (ex_request_id e) = Some r"
    and "check_submittable e r = Inr ()"
    and "transition (rq_status r) (TComplete (sb_success input))
       (event_context r user ctx now (MCompleted (sb_success input) (ex_id e))) = Inr res"
    and "sp_result_policy ports (rq_database r) (rq_environment r) = Inr policy"
    using assms by (auto simp: submit_checks_def res_simps)
  show "ex_id e = sb_execution_id input" "rq_id r = ex_request_id e"
    using g q by (simp_all add: get_execution_id get_request_id)
  have "authorize_scoped user AgentOperate db_wildcard env_wildcard (CtxAgentExecution (ex_agent_id e)) = Inr ()"
    "authorize_global user AgentOperate = Inr ()"
    using assms by (auto simp: submit_checks_def res_simps)
  then show "au_subject_id user = ex_agent_id e" "has_permission user AgentOperate"
    by (auto simp: authorize_scoped_def check_context_def authorize_global_def split: if_splits)
qed

lemma acquire_submittable:
  assumes "store_ok s" and "get_execution s i = Some e" and "check_submittable e r = Inr ()"
  obtains l f m where "acquire_completing i (is_late_completion e r) (completing_lease now e r) s =
      Inr (True, s\<lparr> st_executions := upd_where (\<lambda>x. ex_id x = i)
        (\<lambda>_. e\<lparr> ex_status := ExCompleting, ex_lease_expires_at := l, ex_finished_at := f, ex_error_message := m \<rparr>)
        (st_executions s) \<rparr>)"
proof -
  note find = assms(2) [unfolded get_execution_def]
  have upd: "update_execution i P g s =
      Inr (True, s\<lparr> st_executions := upd_where (\<lambda>x. ex_id x = i) (\<lambda>_. g e) (st_executions s) \<rparr>)" if "P e" for P g
    using that find executions.upd_row [where P = P, OF assms(1) find that] executions.affected_key [OF assms(1), of i P]
    by (auto simp: update_execution_def)
  show thesis
  proof (cases "is_late_completion e r")
    case True
    then have "ex_status e = ExFailed" by (simp add: is_late_completion_def)
    with True show thesis
      using that [where l = "now + seconds 300" and f = None and m = None]
      by (simp add: acquire_completing_def completing_lease_def upd)
  next
    case False
    then have "ex_status e \<in> {ExClaimed, ExRunning}"
      using assms(3) by (cases "ex_status e") (auto simp: check_submittable_def)
    with False show thesis
      using that [where l = "now + seconds 300" and f = "ex_finished_at e" and m = "ex_error_message e"]
        that [where l = "ex_lease_expires_at e" and f = "ex_finished_at e" and m = "ex_error_message e"]
      by (cases "ex_lease_expires_at e < now + seconds 300")
        (simp_all add: acquire_completing_def completing_lease_def Let_def upd del: insert_iff)
  qed
qed

text \<open>Giving the execution back always succeeds: while it was being completed nobody else could claim
  the request, as far as the statements of this call go.\<close>

lemma revert_after_acquire:
  fixes e :: execution
  assumes "store_ok s" and "get_execution s i = Some e" and "ex_status c = ExCompleting"
    and "ex_id c = i" and "ex_core c = ex_core e"
    and "c = e\<lparr> ex_status := ExCompleting, ex_lease_expires_at := l, ex_finished_at := f, ex_error_message := m \<rparr>"
    and "store_ok (s\<lparr> st_executions := upd_where (\<lambda>x. ex_id x = i) (\<lambda>_. c) (st_executions s) \<rparr>)"
  shows "try_revert e lease (s\<lparr> st_executions := upd_where (\<lambda>x. ex_id x = i) (\<lambda>_. c) (st_executions s) \<rparr>) =
     s\<lparr> st_executions := upd_where (\<lambda>x. ex_id x = i) (\<lambda>_. e\<lparr> ex_lease_expires_at := lease \<rparr>) (st_executions s) \<rparr>"
proof -
  let ?s1 = "s\<lparr> st_executions := upd_where (\<lambda>x. ex_id x = i) (\<lambda>_. c) (st_executions s) \<rparr>"
  have ei: "ex_id e = i" "e \<in> set (st_executions s)"
    using assms(2) executions.lookup_iff [OF assms(1)] by (auto simp: get_execution_def)
  have no_other: "ex_status d \<noteq> ExClaimed"
    if "ex_status e = ExClaimed" "d \<in> set (st_executions ?s1)" "ex_request_id d = ex_request_id e" for d
  proof
    assume "ex_status d = ExClaimed"
    with that(2) assms(3) have d: "d \<in> set (st_executions s)" "ex_id d \<noteq> i"
      by (auto simp: set_upd_where split: if_splits)
    have "distinct (map ex_request_id (filter (\<lambda>e. ex_status e = ExClaimed) (st_executions s)))"
      using assms(1) by (simp add: store_ok_def claim_unique_def)
    then have "d = e"
      using d ei that \<open>ex_status d = ExClaimed\<close> by (auto simp: distinct_map inj_on_def)
    with d ei show False by simp
  qed
  have g: "find_row (\<lambda>x. ex_id x = i) (st_executions ?s1) = Some c"
    using executions.lookup_iff [OF assms(7), of i c] assms(4) ei by (auto simp: set_upd_where)
  have free: "\<not> (ex_status e = ExClaimed \<and> list_ex (\<lambda>x. ex_id x = i \<and> ex_status x = ExCompleting
      \<and> list_ex (\<lambda>d. ex_request_id d = ex_request_id x \<and> ex_status d = ExClaimed) (st_executions ?s1)) (st_executions ?s1))"
  proof
    assume h: "ex_status e = ExClaimed \<and> list_ex (\<lambda>x. ex_id x = i \<and> ex_status x = ExCompleting
      \<and> list_ex (\<lambda>d. ex_request_id d = ex_request_id x \<and> ex_status d = ExClaimed) (st_executions ?s1)) (st_executions ?s1)"
    then obtain x d where "x \<in> set (st_executions ?s1)" "ex_id x = i" "d \<in> set (st_executions ?s1)"
      "ex_request_id d = ex_request_id x" "ex_status d = ExClaimed" by (auto simp: list_ex_iff)
    moreover from this have "x = c"
      using executions.lookup_iff [OF assms(7), of i x] g by auto
    ultimately show False using h no_other [of d] assms(5) by (simp add: ex_core_def)
  qed
  have "update_execution i (\<lambda>e. ex_status e = ExCompleting) h ?s1 =
     Inr (True, ?s1\<lparr> st_executions := upd_where (\<lambda>x. ex_id x = i) (\<lambda>_. h c) (st_executions ?s1) \<rparr>)" for h
    using executions.upd_row [where P = "\<lambda>e. ex_status e = ExCompleting", OF assms(7) g assms(3)]
      executions.affected_key [OF assms(7), of i "\<lambda>e. ex_status e = ExCompleting"] g assms(3)
    by (auto simp: update_execution_def)
  then have "revert_completing (ex_id e) (ex_status e) fin lease err ?s1 =
     Inr (True, ?s1\<lparr> st_executions := upd_where (\<lambda>x. ex_id x = i) (\<lambda>_. c\<lparr> ex_status := ex_status e,
       ex_finished_at := fin, ex_lease_expires_at := lease, ex_error_message := err \<rparr>) (st_executions ?s1) \<rparr>)" for fin err
    unfolding revert_completing_def ei(1) if_not_P [OF free] by simp
  then show ?thesis
    using ei(1) assms(4) by (simp add: try_revert_def upd_where_twice) (simp add: assms(6))
qed

lemma submit_acquired:
  assumes "store_ok s" and "submit_checks ports now input user ctx s = Inr (e, r, res, policy)"
  obtains c where "acquire_completing (sb_execution_id input) (is_late_completion e r) (completing_lease now' e r) s =
      Inr (True, with_execution (sb_execution_id input) c s)"
    "store_ok (with_execution (sb_execution_id input) c s)"
    "get_execution (with_execution (sb_execution_id input) c s) (sb_execution_id input) = Some c"
    "ex_status c = ExCompleting" "ex_core c = ex_core e"
    "\<And>lease. try_revert e lease (with_execution (sb_execution_id input) c s) =
       with_execution (sb_execution_id input) (e\<lparr> ex_lease_expires_at := lease \<rparr>) s"
proof -
  let ?i = "sb_execution_id input"
  note chk = submit_checks_Inr [OF assms(2)]
  obtain l f m where acq: "acquire_completing ?i (is_late_completion e r) (completing_lease now' e r) s =
      Inr (True, s\<lparr> st_executions := upd_where (\<lambda>x. ex_id x = ?i)
        (\<lambda>_. e\<lparr> ex_status := ExCompleting, ex_lease_expires_at := l, ex_finished_at := f, ex_error_message := m \<rparr>)
        (st_executions s) \<rparr>)"
    by (rule acquire_submittable [OF assms(1) chk(1,7)])
  define c where "c = e\<lparr> ex_status := ExCompleting, ex_lease_expires_at := l, ex_finished_at := f, ex_error_message := m \<rparr>"
  have acq1: "acquire_completing ?i (is_late_completion e r) (completing_lease now' e r) s = Inr (True, with_execution ?i c s)"
    by (simp add: acq c_def with_execution_def)
  have ok1: "store_ok (with_execution ?i c s)"
    by (rule keeps_invD [OF execution_mark_ok(4) assms(1) acq1])
  have c: "ex_status c = ExCompleting" "ex_core c = ex_core e" "ex_id c = ?i"
    using chk(2) by (simp_all add: c_def ex_core_def)
  have "get_execution (with_execution ?i c s) ?i = Some c"
    using executions.lookup_iff [OF ok1, of ?i c] executions.lookup_iff [OF assms(1), of ?i e] chk(1) c(3)
    by (auto simp: get_execution_def with_execution_def set_upd_where)
  with acq1 ok1 c show thesis
    using that revert_after_acquire [OF assms(1) chk(1) c(1,3,2) c_def] unfolding with_execution_def by blast
qed

subsection \<open>Errors of the completing transaction\<close>

definition is_internal :: "app_error \<Rightarrow> bool" where
  "is_internal e \<longleftrightarrow> (\<exists>m. e = Internal m)"

lemma insert_result_access_Inl: "insert_result_access access s = Inl e \<Longrightarrow> is_internal e"
  by (induction access s rule: insert_result_access.induct) (auto simp: is_internal_def split: if_splits)

lemma insert_result_Inl: "insert_result m s = Inl e \<Longrightarrow> is_internal e"
  by (auto simp: insert_result_def is_internal_def map_err_def split: if_splits)

lemma record_event_Inl: "record_event lib env ev s = Inl e \<Longrightarrow> is_internal e"
  by (auto simp: record_event_def record_audit_def is_internal_def tryE_def map_err_def ok_or_def Let_def
      split: sum.splits option.splits if_splits)

lemma complete_tx_Inl:
  assumes "store_ok s" and "get_execution s (ex_id e) = Some c" and "ex_status c = ExCompleting"
    and "complete_tx env now e success rm access ev s = Inl err"
  shows "is_internal err"
proof -
  obtain q where q: "mark_completed_from_completing (ex_id e) success now s = Inr (True, s\<lparr> st_executions := q \<rparr>)"
    using update_execution_hit [OF assms(1,2), of "\<lambda>e. ex_status e = ExCompleting"
        "\<lambda>e. e\<lparr> ex_status := (if success then ExCompleted else ExFailed), ex_finished_at := Some now \<rparr>"] assms(3)
    by (auto simp: mark_completed_from_completing_def)
  obtain u s2 where u: "mark_executed (ex_request_id e) success now (s\<lparr> st_executions := q \<rparr>) = Inr (u, s2)"
    by (simp add: mark_executed_def update_request_def)
  have "(\<exists>m. rm = Some m \<and> (insert_result m s2 = Inl err \<or> (\<exists>s3. insert_result_access access s3 = Inl err)))
      \<or> (\<exists>s3. record_event (ce_lib env) (ce_audit env) ev s3 = Inl err)"
    using assms(4) by (auto simp: complete_tx_def thenT_def q u tryE_Inl split: option.splits)
  then show ?thesis
    using insert_result_Inl insert_result_access_Inl record_event_Inl by blast
qed

lemma run_in_tx_Inl: "run_in_tx faults f s = (Inl e, s') \<Longrightarrow> is_internal e \<or> f s = Inl e"
  by (auto simp: run_in_tx_def is_internal_def split: option.splits sum.splits if_splits)

subsection \<open>Failed submissions\<close>

lemma store_result_error: "store_result lib ports clk input e r policy = (Some err, rm, effs) \<Longrightarrow> effs = []"
  by (auto simp: store_result_def Let_def split: if_splits option.splits)

lemma store_result_put:
  assumes "store_result lib ports clk input e r policy = (None, rm, effs)" and "StorePut k d t \<in> set effs"
  shows "k = storage_key e \<and> (\<exists>m. rm = Some m \<and> er_storage_key m = k)"
  using assms by (auto simp: store_result_def manifest_def Let_def split: if_splits option.splits)

lemma storage_key_ne [simp]: "storage_key e \<noteq> []" "[] \<noteq> storage_key e"
  by (simp_all add: storage_key_def)

text \<open>A submission that fails can be repeated. Whatever went wrong (a check, the storage, a
  statement, the commit), the database is as before, or only the lease of the execution has
  changed, to the later of its old value and one minute after the attempt; the execution is
  never left in the state completing. And no object stays behind in the result storage: each one
  written by the attempt is deleted again.\<close>

theorem failed_submission_can_be_repeated:
  assumes "store_ok s" and "agent_submit_result env ports clk input user ctx s = (Inl err, s', effs)"
  shows "(s' = s \<or> (\<exists>e. get_execution s (sb_execution_id input) = Some e \<and>
           s' = with_execution (sb_execution_id input)
             (e\<lparr> ex_lease_expires_at := max (ex_lease_expires_at e) (clk 2 + seconds 60) \<rparr>) s))
     \<and> (\<forall>k d t. StorePut k d t \<in> set effs \<longrightarrow> StoreDelete k \<in> set effs)"
proof (cases "submit_checks ports (clk 0) input user ctx s")
  case (Inl a)
  with assms(2) show ?thesis by (auto simp: agent_submit_result_def stopped_def)
next
  case (Inr p)
  obtain e r res policy where p: "p = (e, r, res, policy)" by (cases p)
  note chk = submit_checks_Inr [OF Inr [unfolded p]]
  let ?i = "sb_execution_id input" and ?lib = "ce_lib env"
  obtain c where c: "acquire_completing ?i (is_late_completion e r) (completing_lease (clk 1) e r) s =
      Inr (True, with_execution ?i c s)"
    and ok: "store_ok (with_execution ?i c s)" "get_execution (with_execution ?i c s) ?i = Some c" "ex_status c = ExCompleting" "ex_core c = ex_core e"
    and rev: "\<And>lease. try_revert e lease (with_execution ?i c s) = with_execution ?i (e\<lparr> ex_lease_expires_at := lease \<rparr>) s"
    using submit_acquired [OF assms(1) Inr [unfolded p], of "clk 1"] by blast
  obtain se rm effs0 where st: "store_result ?lib ports clk input e r policy = (se, rm, effs0)"
    by (cases "store_result ?lib ports clk input e r policy")
  show ?thesis
  proof (cases se)
    case (Some x)
    have "agent_submit_result env ports clk input user ctx s = (Inl x,
        with_execution ?i (e\<lparr> ex_lease_expires_at := max (ex_lease_expires_at e) (clk 2 + seconds 60) \<rparr>) s, effs0)"
      by (simp add: agent_submit_result_def Inr p c st Some rev Let_def del: One_nat_def)
    then show ?thesis
      using assms(2) chk(1) store_result_error [OF st [unfolded Some]] by auto
  next
    case None
    let ?access = "case rm of Some m \<Rightarrow> share_records m (rq_share_with r) (case policy of Some p \<Rightarrow> rp_access p | None \<Rightarrow> []) | None \<Rightarrow> []"
    let ?tx = "complete_tx env (clk 5) e (sb_success input) rm ?access (submit_audit_event ?lib input r e user ctx (clk 5))"
    obtain x s2 where tx: "run_in_tx (ce_faults env) ?tx (with_execution ?i c s) = (x, s2)"
      by (cases "run_in_tx (ce_faults env) ?tx (with_execution ?i c s)")
    then obtain e0 where e0: "x = Inl e0"
      using assms(2) by (cases x) (auto simp: agent_submit_result_def Inr p c st None Let_def simp del: One_nat_def split: if_splits)
    have s2: "s2 = with_execution ?i c s"
      using uow.fails [OF tx [unfolded e0]] .
    have "get_execution (with_execution ?i c s) (ex_id e) = Some c" using ok(2) chk(2) by simp
    from complete_tx_Inl [OF ok(1) this ok(3)] have "is_internal e0"
      using run_in_tx_Inl [OF tx [unfolded e0]] by blast
    then show ?thesis
      using assms(2) chk(1)
      by (auto simp: agent_submit_result_def Inr p c st None Let_def tx e0 s2 rev is_internal_def compensation_def
          simp del: One_nat_def dest!: store_result_put [OF st [unfolded None]] split: option.splits)
  qed
qed

subsection \<open>Successful submissions\<close>

lemma insert_result_access_Inr: "insert_result_access access s = Inr (x, s') \<Longrightarrow> \<exists>a. s' = s\<lparr> st_access := a \<rparr>"
proof (induction access s rule: insert_result_access.induct)
  case (1 s)
  then show ?case by (auto intro: exI [of _ "st_access s"])
next
  case (2 ra access s)
  from 2(2) have "insert_result_access access (s\<lparr> st_access := st_access s @ [ra] \<rparr>) = Inr (x, s')"
    and "\<not> list_ex (\<lambda>r. ra_id r = ra_id ra) (st_access s)" "list_ex (\<lambda>r. er_id r = ra_result_id ra) (st_results s)"
    by (simp_all split: if_splits)
  with 2(1) show ?case by fastforce
qed

definition completed_row :: "bool \<Rightarrow> timestamp \<Rightarrow> request \<Rightarrow> request" where
  "completed_row success now r =
     (if rq_status r = Cancelled then r
      else r\<lparr> rq_status := (if success then Executed else Failed), rq_updated_at := now, rq_resolved_at := Some now \<rparr>)"

lemma mark_executed_effect:
  assumes "store_ok s" and "get_request s i = Some r" and "rq_status r \<in> {Running, ExecutionLost, Cancelled}"
  shows "\<exists>q. mark_executed i success now s = Inr (rq_status r \<noteq> Cancelled, s\<lparr> st_requests := q \<rparr>)
     \<and> get_request (s\<lparr> st_requests := q \<rparr>) i = Some (completed_row success now r)"
proof (cases "rq_status r = Cancelled")
  case True
  then have "mark_executed i success now s = Inr (False, s)"
    unfolding mark_executed_def using assms(2) by (intro update_request_none [OF assms(1)]) auto
  with True assms(2) show ?thesis by (auto simp: completed_row_def intro!: exI [of _ "st_requests s"])
next
  case False
  then show ?thesis
    using update_request_hit [OF assms(1,2), of "\<lambda>r. rq_status r \<in> {Running, ExecutionLost}"
      "\<lambda>r. r\<lparr> rq_status := (if success then Executed else Failed), rq_updated_at := now, rq_resolved_at := Some now \<rparr>"] assms(3)
    by (auto simp: mark_executed_def completed_row_def)
qed

lemma complete_tx_Inr:
  assumes "store_ok s" and "get_execution s (ex_id e) = Some c" and "ex_status c = ExCompleting"
    and "get_request s (ex_request_id e) = Some r" and "rq_status r \<in> {Running, ExecutionLost, Cancelled}"
    and "complete_tx env now e success rm access ev s = Inr (u, s')"
  shows "u \<longleftrightarrow> rq_status r \<noteq> Cancelled"
    and "get_execution s' (ex_id e) =
      Some (c\<lparr> ex_status := (if success then ExCompleted else ExFailed), ex_finished_at := Some now \<rparr>)"
    and "get_request s' (ex_request_id e) = Some (completed_row success now r)"
    and "st_results s' = st_results s @ (case rm of Some m \<Rightarrow> [m\<lparr> er_status := Stored \<rparr>] | None \<Rightarrow> [])"
    and "map ex_core (st_executions s') = map ex_core (st_executions s)"
    and "\<exists>row rest. st_audit s' = st_audit s @ row # rest \<and> ar_request_id row = ae_request_id ev
           \<and> ar_event_type row = ae_event_type ev"
proof -
  let ?f = "\<lambda>e. e\<lparr> ex_status := (if success then ExCompleted else ExFailed), ex_finished_at := Some now \<rparr>"
  obtain q where q: "mark_completed_from_completing (ex_id e) success now s = Inr (True, s\<lparr> st_executions := q \<rparr>)"
    "get_execution (s\<lparr> st_executions := q \<rparr>) (ex_id e) = Some (?f c)"
    using update_execution_hit [OF assms(1,2), of "\<lambda>e. ex_status e = ExCompleting" ?f] assms(3)
    by (auto simp: mark_completed_from_completing_def)
  have "s\<lparr> st_executions := upd_where (\<lambda>x. ex_id x = ex_id e \<and> ex_status x = ExCompleting) ?f (st_executions s) \<rparr> =
      s\<lparr> st_executions := q \<rparr>"
    using q(1) by (simp add: mark_completed_from_completing_def update_execution_def)
  from arg_cong [OF this, of st_executions]
  have "q = upd_where (\<lambda>x. ex_id x = ex_id e \<and> ex_status x = ExCompleting) ?f (st_executions s)" by simp
  then have cores: "map ex_core q = map ex_core (st_executions s)"
    using map_upd_where [of ex_core ?f] by (simp add: ex_core_def)
  let ?s1 = "s\<lparr> st_executions := q \<rparr>"
  have ok1: "store_ok ?s1" using keeps_invD [OF execution_mark_ok(1) assms(1) q(1)] .
  have "get_request ?s1 (ex_request_id e) = Some r" using assms(4) by (simp add: get_request_def)
  then obtain p where p: "mark_executed (ex_request_id e) success now ?s1 = Inr (rq_status r \<noteq> Cancelled, ?s1\<lparr> st_requests := p \<rparr>)"
    "get_request (?s1\<lparr> st_requests := p \<rparr>) (ex_request_id e) = Some (completed_row success now r)"
    using mark_executed_effect [OF ok1 _ assms(5)] by blast
  let ?s2 = "?s1\<lparr> st_requests := p \<rparr>"
  obtain s3 where s3: "record_event (ce_lib env) (ce_audit env) ev s3 = Inr ((), s')"
    and u: "u \<longleftrightarrow> rq_status r \<noteq> Cancelled"
    and rm: "case rm of Some m \<Rightarrow> \<exists>a. s3 = ?s2\<lparr> st_results := st_results s @ [m\<lparr> er_status := Stored \<rparr>], st_access := a \<rparr> | None \<Rightarrow> s3 = ?s2"
    using assms(6) insert_result_access_Inr
    by (auto simp: complete_tx_def thenT_eval q(1) p(1) tx_simps insert_result_Inr split: option.splits) blast
  show "u \<longleftrightarrow> rq_status r \<noteq> Cancelled" by (fact u)
  obtain t rest where s': "s' = s3\<lparr> st_audit := t \<rparr>"
    and t: "t = st_audit s3 @ audit_row_of (ce_lib env) (st_audit s3) (fst (au_ids (ce_audit env))) ev # rest"
    using s3 by (rule record_event_Inr)
  have fields: "st_executions s3 = q" "st_requests s3 = p" "st_audit s3 = st_audit s"
    "st_results s3 = st_results s @ (case rm of Some m \<Rightarrow> [m\<lparr> er_status := Stored \<rparr>] | None \<Rightarrow> [])"
    using rm by (auto split: option.splits)
  then show "get_execution s' (ex_id e) = Some (?f c)" "get_request s' (ex_request_id e) = Some (completed_row success now r)"
    "st_results s' = st_results s @ (case rm of Some m \<Rightarrow> [m\<lparr> er_status := Stored \<rparr>] | None \<Rightarrow> [])"
    "map ex_core (st_executions s') = map ex_core (st_executions s)"
    using q(2) p(2) cores by (simp_all add: s' get_execution_def get_request_def)
  show "\<exists>row rest. st_audit s' = st_audit s @ row # rest \<and> ar_request_id row = ae_request_id ev
           \<and> ar_event_type row = ae_event_type ev"
    unfolding s' t fields(3)
    by (rule exI [of _ "audit_row_of (ce_lib env) (st_audit s) (fst (au_ids (ce_audit env))) ev"], rule exI [of _ rest]) simp
qed

text \<open>What a successful call has done.\<close>

lemma submit_success:
  assumes "store_ok s" and "agent_submit_result env ports clk input user ctx s = (Inr out, s', effs)"
  obtains e r res policy c rm effs0 u where
    "submit_checks ports (clk 0) input user ctx s = Inr (e, r, res, policy)"
    "store_result (ce_lib env) ports clk input e r policy = (None, rm, effs0)"
    "u \<longleftrightarrow> rq_status r \<noteq> Cancelled" "rq_status r \<in> {Running, ExecutionLost, Cancelled}"
    "get_execution s' (sb_execution_id input) =
       Some (c\<lparr> ex_status := (if sb_success input then ExCompleted else ExFailed), ex_finished_at := Some (clk 5) \<rparr>)"
    "ex_core c = ex_core e"
    "get_request s' (ex_request_id e) = Some (completed_row (sb_success input) (clk 5) r)"
    "st_results s' = st_results s @ (case rm of Some m \<Rightarrow> [m\<lparr> er_status := Stored \<rparr>] | None \<Rightarrow> [])"
    "map ex_core (st_executions s') = map ex_core (st_executions s)"
    "\<exists>row rest. st_audit s' = st_audit s @ row # rest \<and> ar_request_id row = Some (ex_request_id e)
       \<and> ar_event_type row = (if sb_success input then ''execution.completed'' else ''execution.failed'')"
    "out = \<lparr> so_id = ex_request_id e, so_status = (if u then tr_new_status res else Cancelled) \<rparr>"
    "effs = effs0 @ (if u then [Publish (ex_request_id e) (summary_of ports input e),
       Webhook (build_webhook_event (ce_lib env) (tr_event res))] else [])"
proof -
  obtain e r res policy where sc: "submit_checks ports (clk 0) input user ctx s = Inr (e, r, res, policy)"
    using assms(2) by (cases "submit_checks ports (clk 0) input user ctx s")
      (auto simp: agent_submit_result_def stopped_def)
  note chk = submit_checks_Inr [OF sc]
  let ?i = "sb_execution_id input" and ?lib = "ce_lib env"
  obtain c where c: "acquire_completing ?i (is_late_completion e r) (completing_lease (clk 1) e r) s =
      Inr (True, with_execution ?i c s)"
    and ok: "store_ok (with_execution ?i c s)" "get_execution (with_execution ?i c s) ?i = Some c" "ex_status c = ExCompleting" "ex_core c = ex_core e"
    using submit_acquired [OF assms(1) sc, of "clk 1"] by blast
  obtain se rm effs0 where st: "store_result ?lib ports clk input e r policy = (se, rm, effs0)"
    by (cases "store_result ?lib ports clk input e r policy")
  have se: "se = None"
    using assms(2) by (cases se) (auto simp: agent_submit_result_def sc c st Let_def simp del: One_nat_def)
  let ?access = "case rm of Some m \<Rightarrow> share_records m (rq_share_with r) (case policy of Some p \<Rightarrow> rp_access p | None \<Rightarrow> []) | None \<Rightarrow> []"
  let ?ev = "submit_audit_event ?lib input r e user ctx (clk 5)"
  let ?tx = "complete_tx env (clk 5) e (sb_success input) rm ?access ?ev"
  obtain x s2 where tx: "run_in_tx (ce_faults env) ?tx (with_execution ?i c s) = (x, s2)"
    by (cases "run_in_tx (ce_faults env) ?tx (with_execution ?i c s)")
  then obtain u where u: "x = Inr u" "s' = s2"
    "out = \<lparr> so_id = ex_request_id e, so_status = (if u then tr_new_status res else Cancelled) \<rparr>"
    "effs = effs0 @ (if u then [Publish (ex_request_id e) (summary_of ports input e),
       Webhook (build_webhook_event (ce_lib env) (tr_event res))] else [])"
    using assms(2) by (cases x) (auto simp: agent_submit_result_def sc c st se Let_def simp del: One_nat_def
      split: if_splits app_error.splits)
  have body: "?tx (with_execution ?i c s) = Inr (u, s')"
    using uow.commits [OF tx [unfolded u(1)]] u(2) by simp
  have g: "get_execution (with_execution ?i c s) (ex_id e) = Some c"
    "get_request (with_execution ?i c s) (ex_request_id e) = Some r"
    using ok(2) chk(2,5) by (simp_all add: with_execution_def get_request_def)
  have rs: "rq_status r \<in> {Running, ExecutionLost, Cancelled}"
    using transition_Inr [OF chk(8)] unfolding complete_accepted by auto
  note eff = complete_tx_Inr [OF ok(1) g(1) ok(3) g(2) rs body]
  have "ex_core x = ex_core c" if "x \<in> set (st_executions s)" "ex_id x = ?i" for x
    using that chk(1) ok(4) executions.lookup_iff [OF assms(1), of ?i x] by (simp add: get_execution_def)
  then have "map ex_core (st_executions (with_execution ?i c s)) = map ex_core (st_executions s)"
    by (simp add: with_execution_def upd_where_def)
  moreover have "ae_request_id ?ev = Some (ex_request_id e)"
    "ae_event_type ?ev = (if sb_success input then ''execution.completed'' else ''execution.failed'')"
    by (simp_all add: submit_audit_event_def audit_event_simple_def Let_def split: prod.splits)
  ultimately show thesis
    using that [OF sc st [unfolded se] eff(1) rs _ ok(4) eff(3)] eff(2,4,5,6) u(3,4) chk(2)
    by (simp add: with_execution_def)
qed

text \<open>A successful submission was made by the agent that holds the execution, while the execution was
  active, or had lost its lease together with its request. In one transaction the execution is
  finished, the request is executed or failed unless it had been cancelled meanwhile, the
  description of the result is stored and the completion is audited; a waiting client is
  informed exactly if the request was not cancelled.\<close>

theorem submit_result_sound:
  assumes "store_ok s" and "agent_submit_result env ports clk input user ctx s = (Inr out, s', effs)"
  defines "i \<equiv> sb_execution_id input" and "success \<equiv> sb_success input"
  shows "\<exists>e r d. get_execution s i = Some e \<and> au_subject_id user = ex_agent_id e
     \<and> get_request s (ex_request_id e) = Some r
     \<and> (ex_status e \<in> {ExClaimed, ExRunning} \<or> ex_status e = ExFailed \<and> rq_status r = ExecutionLost)
     \<and> get_execution s' i = Some d \<and> ex_core d = ex_core e
     \<and> ex_status d = (if success then ExCompleted else ExFailed) \<and> ex_finished_at d = Some (clk 5)
     \<and> get_request s' (ex_request_id e) = Some (completed_row success (clk 5) r)
     \<and> rq_status r \<in> {Running, ExecutionLost, Cancelled}
     \<and> (\<exists>row rest. st_audit s' = st_audit s @ row # rest \<and> ar_request_id row = Some (ex_request_id e))
     \<and> so_status out = (if rq_status r = Cancelled then Cancelled else if success then Executed else Failed)
     \<and> ((\<exists>j sm. Publish j sm \<in> set effs) \<longleftrightarrow> rq_status r \<noteq> Cancelled)"
proof -
  obtain e r res policy c rm effs0 u where h:
    "submit_checks ports (clk 0) input user ctx s = Inr (e, r, res, policy)"
    "store_result (ce_lib env) ports clk input e r policy = (None, rm, effs0)"
    "u \<longleftrightarrow> rq_status r \<noteq> Cancelled" "rq_status r \<in> {Running, ExecutionLost, Cancelled}"
    "get_execution s' i = Some (c\<lparr> ex_status := (if success then ExCompleted else ExFailed), ex_finished_at := Some (clk 5) \<rparr>)"
    "ex_core c = ex_core e"
    "get_request s' (ex_request_id e) = Some (completed_row success (clk 5) r)"
    "st_results s' = st_results s @ (case rm of Some m \<Rightarrow> [m\<lparr> er_status := Stored \<rparr>] | None \<Rightarrow> [])"
    "map ex_core (st_executions s') = map ex_core (st_executions s)"
    "\<exists>row rest. st_audit s' = st_audit s @ row # rest \<and> ar_request_id row = Some (ex_request_id e)
       \<and> ar_event_type row = (if success then ''execution.completed'' else ''execution.failed'')"
    "out = \<lparr> so_id = ex_request_id e, so_status = (if u then tr_new_status res else Cancelled) \<rparr>"
    "effs = effs0 @ (if u then [Publish (ex_request_id e) (summary_of ports input e),
       Webhook (build_webhook_event (ce_lib env) (tr_event res))] else [])"
    by (rule submit_success [OF assms(1,2), folded i_def success_def])
  note chk = submit_checks_Inr [OF h(1)]
  have eff0: "Publish j sm \<notin> set effs0" for j sm
    using h(2) by (auto simp: store_result_def Let_def split: if_splits option.splits)
  have act: "ex_status e \<in> {ExClaimed, ExRunning} \<or> ex_status e = ExFailed \<and> rq_status r = ExecutionLost"
    using chk(7) by (cases "ex_status e") (auto simp: check_submittable_def is_late_completion_def split: if_splits)
  have new: "tr_new_status res = (if success then Executed else Failed)" if "rq_status r \<noteq> Cancelled"
    using transition_Inr [OF chk(8)] that unfolding complete_accepted success_def by auto
  have pub: "(\<exists>j sm. Publish j sm \<in> set effs) \<longleftrightarrow> rq_status r \<noteq> Cancelled"
    using eff0 by (auto simp: h(3,12))
  let ?d = "c\<lparr> ex_status := (if success then ExCompleted else ExFailed), ex_finished_at := Some (clk 5) \<rparr>"
  have "ex_core ?d = ex_core e" using h(6) by (simp add: ex_core_def)
  moreover have "so_status out = (if rq_status r = Cancelled then Cancelled else if success then Executed else Failed)"
    using new by (simp add: h(3,11))
  moreover have "\<exists>row rest. st_audit s' = st_audit s @ row # rest \<and> ar_request_id row = Some (ex_request_id e)"
    using h(10) by blast
  ultimately show ?thesis
    using chk(1,3,5) h(4,5,7) act pub unfolding i_def
    by (intro exI [of _ e] exI [of _ r] exI [of _ ?d] conjI) simp_all
qed

subsection \<open>The execution limit\<close>

lemma count_completed_cong:
  assumes "map ex_core (st_executions s') = map ex_core (st_executions s)" and "st_results s' = st_results s"
  shows "count_completed_executions s' j = count_completed_executions s j"
proof -
  have count: "map ex_id (filter (\<lambda>e. ex_request_id e = j \<and> Q (ex_id e)) t) =
      map fst (filter (\<lambda>p. fst (snd p) = j \<and> Q (fst p)) (map ex_core t))" for Q t
    by (induction t) (auto simp: ex_core_def)
  show ?thesis
    using count [of "\<lambda>x. list_ex (\<lambda>r. er_execution_id r = x) (st_results s)"] assms
    by (simp add: count_completed_executions_def)
qed

text \<open>A successful execution whose result is not stored (the request opts out of result storage, or
  the agent sends no data) does not count against the execution limit: the number the dispatch
  compares with \<open>max_executions\<close> is the same as before, for every request.\<close>

lemma unstored_success_not_counted:
  assumes "store_ok s" and "agent_submit_result env ports clk input user ctx s = (Inr out, s', effs)"
    and "get_execution s (sb_execution_id input) = Some e" and "get_request s (ex_request_id e) = Some r"
    and "rq_no_result_store r \<or> sb_result_data input = None" and "sb_success input"
  shows "count_completed_executions s' j = count_completed_executions s j"
proof -
  have "\<exists>e' r' res policy rm effs0.
      submit_checks ports (clk 0) input user ctx s = Inr (e', r', res, policy)
    \<and> store_result (ce_lib env) ports clk input e' r' policy = (None, rm, effs0)
    \<and> st_results s' = st_results s @ (case rm of Some m \<Rightarrow> [m\<lparr> er_status := Stored \<rparr>] | None \<Rightarrow> [])
    \<and> map ex_core (st_executions s') = map ex_core (st_executions s)"
    by (rule submit_success [OF assms(1,2)], (intro exI conjI; assumption))
  then obtain e' r' res policy rm effs0 where h:
    "submit_checks ports (clk 0) input user ctx s = Inr (e', r', res, policy)"
    "store_result (ce_lib env) ports clk input e' r' policy = (None, rm, effs0)"
    "st_results s' = st_results s @ (case rm of Some m \<Rightarrow> [m\<lparr> er_status := Stored \<rparr>] | None \<Rightarrow> [])"
    "map ex_core (st_executions s') = map ex_core (st_executions s)"
    by blast
  have "r' = r"
    using submit_checks_Inr(1,5) [OF h(1)] assms(3,4) by simp
  then have "rm = None"
    using h(2) assms(5,6) by (auto simp: store_result_def Let_def split: if_splits option.splits)
  then show ?thesis using h(3,4) by (intro count_completed_cong) simp_all
qed

lemma submit_keeps_ok:
  assumes "store_ok s" and "agent_submit_result env ports clk input user ctx s = (Inr out, s', effs)"
  shows "store_ok s'"
proof -
  obtain e r res policy where sc: "submit_checks ports (clk 0) input user ctx s = Inr (e, r, res, policy)"
    using assms(2) by (cases "submit_checks ports (clk 0) input user ctx s")
      (auto simp: agent_submit_result_def stopped_def)
  let ?i = "sb_execution_id input"
  obtain c where c: "acquire_completing ?i (is_late_completion e r) (completing_lease (clk 1) e r) s =
      Inr (True, with_execution ?i c s)" and ok: "store_ok (with_execution ?i c s)"
    using submit_acquired [OF assms(1) sc, of "clk 1"] by blast
  obtain se rm effs0 where st: "store_result (ce_lib env) ports clk input e r policy = (se, rm, effs0)"
    by (cases "store_result (ce_lib env) ports clk input e r policy")
  have se: "se = None"
    using assms(2) by (cases se) (auto simp: agent_submit_result_def sc c st Let_def simp del: One_nat_def)
  let ?tx = "complete_tx env (clk 5) e (sb_success input) rm
     (case rm of Some m \<Rightarrow> share_records m (rq_share_with r) (case policy of Some p \<Rightarrow> rp_access p | None \<Rightarrow> []) | None \<Rightarrow> [])
     (submit_audit_event (ce_lib env) input r e user ctx (clk 5))"
  obtain x s2 where tx: "run_in_tx (ce_faults env) ?tx (with_execution ?i c s) = (x, s2)"
    by (cases "run_in_tx (ce_faults env) ?tx (with_execution ?i c s)")
  then obtain u where u: "x = Inr u" "s' = s2"
    using assms(2) by (cases x) (auto simp: agent_submit_result_def sc c st se Let_def simp del: One_nat_def
      split: if_splits app_error.splits)
  have "?tx (with_execution ?i c s) = Inr (u, s')"
    using uow.commits [OF tx [unfolded u(1)]] u(2) by simp
  then show ?thesis by (rule keeps_invD [OF execution_tx_ok(3) ok])
qed

text \<open>When a dispatch by the requester succeeds.\<close>

lemma resume_succeeds:
  assumes "store_ok s" and "get_request s (su_request_id input) = Some r"
    and "rq_status r \<in> {Approved, AutoApproved, BreakGlass, Executed, Failed, ExecutionLost}"
    and "au_subject_id user = rq_requester r" "au_subject_type user = SubjUser"
      "has_scoped_permission user RequestResume (rq_database r) (rq_environment r)"
    and "check_approval_ttl (ce_lib env) (clk 1) r = Inr ()" and "pol (rq_database r) (rq_environment r) = Inr p"
    and "count_completed_executions s (rq_id r) < ep_max_executions p" and "check_re_dispatch (clk 2) r p = Inr ()"
    and "audit_ids_fresh (ce_audit env) s" and "ce_faults env = no_faults"
  shows "\<exists>out s' effs. resume_request env clk pol input user ctx s = (Inr out, s', effs) \<and> so_status out = Dispatched
    \<and> st_executions s' = st_executions s \<and> st_results s' = st_results s"
proof -
  obtain res where res: "transition (rq_status r) TDispatch (event_context r user ctx (clk 0) MDispatched) = Inr res"
    using assms(3) by (auto simp: transition_def)
  have "authorize_scoped user RequestResume (rq_database r) (rq_environment r) (CtxRequestMutate (rq_requester r)) = Inr ()"
    using assms(4-6) by (simp add: authorize_scoped_ok check_context_def)
  then have chk: "resume_checks env clk pol input user ctx s = Inr (r, tr_event res)"
    using assms(2,4,7-10) res by (simp add: resume_checks_def transition_or_conflict_def)
  have i: "get_request s (rq_id r) = Some r" using assms(2) get_request_id by fastforce
  obtain q where mk: "mark_dispatched (rq_id r) (clk 0) s = Inr (True, s\<lparr> st_requests := q \<rparr>)"
    using update_request_hit [OF assms(1) i, where f = "\<lambda>r. r\<lparr> rq_status := Dispatched, rq_updated_at := clk 0 \<rparr>"
        and P = "\<lambda>r. rq_status r \<in> {Approved, AutoApproved, BreakGlass, Executed, Failed, ExecutionLost}"] assms(3)
    by (auto simp: mark_dispatched_def update_status_guarded_def)
  have "audit_ids_fresh (ce_audit env) (s\<lparr> st_requests := q \<rparr>)" using assms(11) by (simp add: audit_ids_fresh_def)
  then obtain t where "record_event (ce_lib env) (ce_audit env) (audit_of (ce_lib env) (tr_event res) (clk 0)) (s\<lparr> st_requests := q \<rparr>)
      = Inr ((), s\<lparr> st_requests := q, st_audit := t \<rparr>)"
    using record_event_succeeds by fastforce
  with mk have tx: "resume_tx env (clk 0) (rq_id r) (tr_event res) s = Inr ((), s\<lparr> st_requests := q, st_audit := t \<rparr>)"
    by (simp add: resume_tx_def thenT_def)
  show ?thesis
    using chk tx assms(12) by (auto simp: resume_request_def uow.clean)
qed

text \<open>C18: The limit on executions does not hold for executions without a stored result: after a successful execution whose
  result is not stored, because the request opts out of result storage or the agent sends no data, the requester can
  dispatch the request again, within the execution window and the lifetime of the approval, even if the policy allows one execution only, and
  the count the limit is compared with is afterwards what it was before the execution, so this can be repeated.\<close>

theorem unstored_execution_repeatable:
  assumes ok: "store_ok s" and run: "agent_submit_result env ports clk input agent ctx s = (Inr out, s', effs)"
    and unstored: "sb_success input" "rq_no_result_store r \<or> sb_result_data input = None"
    and request: "get_request s' (so_id out) = Some r" "rq_status r = Executed"
    and policy: "pol (rq_database r) (rq_environment r) = Inr p" "count_completed_executions s (so_id out) < ep_max_executions p"
    and requester: "au_subject_id user = rq_requester r" "au_subject_type user = SubjUser"
      "has_scoped_permission user RequestResume (rq_database r) (rq_environment r)"
    and window: "\<And>t. rq_resolved_at r = Some t \<Longrightarrow> num_seconds (clk' 2 - t) \<le> uint (ep_execution_window_secs p)"
    and lifetime: "\<And>t js. rq_resolved_at r = Some t \<Longrightarrow> rq_workflow_snapshot_json r = Some js \<Longrightarrow>
      \<exists>w. x_workflow_read (ce_lib env') js = Some w \<and> (\<forall>ttl. wf_approval_ttl_secs w = Some ttl \<longrightarrow> num_seconds (clk' 1 - t) \<le> uint ttl)"
    and env: "audit_ids_fresh (ce_audit env') s'" "ce_faults env' = no_faults"
  shows "\<exists>out' s'' effs'. resume_request env' clk' pol \<lparr> su_request_id = so_id out, su_reason = None \<rparr> user ctx' s' = (Inr out', s'', effs')
    \<and> so_status out' = Dispatched
    \<and> count_completed_executions s'' (so_id out) = count_completed_executions s (so_id out)"
proof -
  have "\<exists>e r0 res policy. submit_checks ports (clk 0) input agent ctx s = Inr (e, r0, res, policy) \<and> so_id out = ex_request_id e
      \<and> get_request s' (ex_request_id e) = Some (completed_row (sb_success input) (clk 5) r0)"
    by (rule submit_success [OF ok run]) (intro exI conjI; simp)
  then obtain e r0 res policy where h: "submit_checks ports (clk 0) input agent ctx s = Inr (e, r0, res, policy)" "so_id out = ex_request_id e"
    "r = completed_row (sb_success input) (clk 5) r0"
    using request(1) by auto
  have count: "count_completed_executions s' j = count_completed_executions s j" for j
    by (rule unstored_success_not_counted [OF ok run submit_checks_Inr(1,5) [OF h(1)]])
      (use unstored h(3) in \<open>auto simp: completed_row_def split: if_splits\<close>)
  have i: "rq_id r = so_id out" using request(1) by (rule get_request_id)
  have ttl: "check_approval_ttl (ce_lib env') (clk' 1) r = Inr ()"
  proof (cases "rq_resolved_at r")
    case (Some t)
    show ?thesis
    proof (cases "rq_workflow_snapshot_json r")
      case (Some js)
      obtain w where "x_workflow_read (ce_lib env') js = Some w"
        "\<forall>ttl. wf_approval_ttl_secs w = Some ttl \<longrightarrow> num_seconds (clk' 1 - t) \<le> uint ttl"
        using lifetime [OF \<open>rq_resolved_at r = Some t\<close> Some] by blast
      then show ?thesis
        by (auto simp: less_max_iff_disj check_approval_ttl_def Some \<open>rq_resolved_at r = Some t\<close> elapsed_exceeds_def guardE_def split: option.split)
    qed (simp add: check_approval_ttl_def Some)
  qed (simp add: check_approval_ttl_def)
  have again: "check_re_dispatch (clk' 2) r p = Inr ()"
    using window request(2) by (auto simp: less_max_iff_disj check_re_dispatch_def elapsed_exceeds_def guardE_def split: option.split)
  have "\<exists>out' s'' effs'. resume_request env' clk' pol \<lparr> su_request_id = so_id out, su_reason = None \<rparr> user ctx' s' = (Inr out', s'', effs')
      \<and> so_status out' = Dispatched \<and> st_executions s'' = st_executions s' \<and> st_results s'' = st_results s'"
    by (rule resume_succeeds [where clk = clk' and pol = pol, OF submit_keeps_ok [OF ok run] _ _ requester ttl policy(1) _ again env])
      (simp_all add: request policy(2) count i)
  then show ?thesis using count by (fastforce simp: count_completed_executions_def)
qed

text \<open>A running request of the small installation, with its execution.\<close>

definition demo_execution :: execution where
  "demo_execution =
     \<lparr> ex_id = ''x1'', ex_request_id = ''r1'', ex_agent_id = ''agent-1'', ex_status = ExClaimed, ex_token = ''t'',
       ex_lease_expires_at = 0, ex_started_at = Some 0, ex_finished_at = None, ex_error_message = None,
       ex_created_at = 0 \<rparr>"

definition demo_running :: "bool \<Rightarrow> store" where
  "demo_running no_store =
     (demo_store Running)\<lparr> st_requests := [(demo_request Running)\<lparr> rq_no_result_store := no_store \<rparr>],
        st_executions := [demo_execution] \<rparr>"

definition demo_submit :: submit_input where
  "demo_submit =
     \<lparr> sb_execution_id = ''x1'', sb_success = True, sb_result_data = Some ''[]'', sb_error_message = None,
       sb_rows_affected = None, sb_duration_ms = None \<rparr>"

definition demo_ports :: "app_error option \<Rightarrow> submit_ports" where
  "demo_ports put_error =
     \<lparr> sp_max_persist_bytes = 100, sp_result_policy = (\<lambda>_ _. Inr None), sp_storage_backend = ''local'',
       sp_put = (\<lambda>_ _. put_error), sp_utf8_lossy = id \<rparr>"

lemma demo_running_ok: "store_ok (demo_running b)"
  by (simp add: store_ok_def keys_ok_def refs_ok_def demo_running_def demo_execution_def demo_store_def demo_request_def
      rq_database_id_def database_id_def idempotency_unique_def approve_unique_def claim_unique_def)

lemmas submit_eval = agent_submit_result_def submit_checks_def complete_tx_def demo_submit_def demo_ports_def
  demo_running_def demo_execution_def demo_agent_def demo_eval get_execution_def authorize_global_def
  authorize_scoped_def check_context_def self_read_def has_permission_def has_scoped_permission_def role_allows_def
  role_has_permission_def covers_database_def covers_environment_def db_wildcard_def env_wildcard_def
  check_submittable_def is_late_completion_def acquire_completing_def completing_lease_def update_execution_def
  store_result_def should_store_def manifest_def share_records_def

lemma demo_submit_succeeds:
  "\<exists>out s' effs. agent_submit_result demo_env (demo_ports None) (\<lambda>_. 1) demo_submit demo_agent CtxSystem (demo_running b)
     = (Inr out, s', effs)"
  by (cases b; simp add: submit_eval mark_completed_from_completing_def mark_executed_def
      insert_result_def)

lemma demo_submit_fails:
  "\<exists>s' effs. agent_submit_result demo_env (demo_ports (Some (Internal ''disk full''))) (\<lambda>_. 1) demo_submit demo_agent
     CtxSystem (demo_running False) = (Inl (Internal ''disk full''), s', effs)"
  by (simp add: submit_eval)

theorem submit_result_sound_witness:
  "\<exists>s' e r d. get_execution (demo_running False) ''x1'' = Some e \<and> get_execution s' ''x1'' = Some d
     \<and> ex_status d = ExCompleted \<and> get_request (demo_running False) (ex_request_id e) = Some r
     \<and> get_request s' (ex_request_id e) = Some (completed_row True 1 r)"
proof -
  obtain out s' effs where run: "agent_submit_result demo_env (demo_ports None) (\<lambda>_. 1) demo_submit demo_agent
      CtxSystem (demo_running False) = (Inr out, s', effs)"
    using demo_submit_succeeds by blast
  have i: "sb_execution_id demo_submit = ''x1''" "sb_success demo_submit = True" by (simp_all add: demo_submit_def)
  show ?thesis
    using submit_result_sound [OF demo_running_ok run] unfolding i if_True by blast
qed

theorem failed_submission_can_be_repeated_witness:
  "\<exists>s' effs. (s' = demo_running False \<or> (\<exists>e. get_execution (demo_running False) ''x1'' = Some e
     \<and> s' = with_execution ''x1'' (e\<lparr> ex_lease_expires_at := max (ex_lease_expires_at e) (1 + seconds 60) \<rparr>)
          (demo_running False)))
   \<and> (\<forall>k d t. StorePut k d t \<in> set effs \<longrightarrow> StoreDelete k \<in> set effs)"
proof -
  obtain s' effs where run: "agent_submit_result demo_env (demo_ports (Some (Internal ''disk full''))) (\<lambda>_. 1) demo_submit
      demo_agent CtxSystem (demo_running False) = (Inl (Internal ''disk full''), s', effs)"
    using demo_submit_fails by blast
  have i: "sb_execution_id demo_submit = ''x1''" by (simp add: demo_submit_def)
  show ?thesis
    using failed_submission_can_be_repeated [OF demo_running_ok run] unfolding i by blast
qed

definition demo_env_again :: call_env where
  "demo_env_again = demo_env\<lparr> ce_audit := (ce_audit demo_env)\<lparr> au_ids := (''e3'', ''e4'') \<rparr> \<rparr>"

lemma demo_unstored_run:
  "\<exists>out s' effs r. agent_submit_result demo_env (demo_ports None) (\<lambda>_. 1) demo_submit demo_agent CtxSystem (demo_running True)
     = (Inr out, s', effs) \<and> so_id out = ''r1'' \<and> get_request s' (so_id out) = Some r \<and> rq_status r = Executed \<and> rq_requester r = ''ann''
     \<and> rq_no_result_store r \<and> audit_ids_fresh (ce_audit demo_env_again) s'
     \<and> (\<forall>t. rq_resolved_at r = Some t \<longrightarrow> t = 1) \<and> count_completed_executions (demo_running True) ''r1'' = 0"
  by (simp add: submit_eval mark_completed_from_completing_def mark_executed_def insert_result_def demo_env_again_def
      audit_ids_fresh_def count_completed_executions_def as_u32_def)

theorem unstored_execution_repeatable_witness:
  "\<exists>s' out' s'' effs'. resume_request demo_env_again (\<lambda>_. 1) (\<lambda>_ _. Inr default_execution_policy)
       \<lparr> su_request_id = ''r1'', su_reason = None \<rparr> demo_resumer CtxSystem s' = (Inr out', s'', effs')
     \<and> so_status out' = Dispatched
     \<and> count_completed_executions s'' ''r1'' = count_completed_executions (demo_running True) ''r1''"
proof -
  obtain out s' effs r where run: "agent_submit_result demo_env (demo_ports None) (\<lambda>_. 1) demo_submit demo_agent CtxSystem (demo_running True)
     = (Inr out, s', effs)" and out: "so_id out = ''r1''" and r: "get_request s' (so_id out) = Some r" "rq_status r = Executed"
    "rq_requester r = ''ann''" "rq_no_result_store r" "audit_ids_fresh (ce_audit demo_env_again) s'"
    "\<And>t. rq_resolved_at r = Some t \<Longrightarrow> t = 1" "count_completed_executions (demo_running True) ''r1'' = 0"
    using demo_unstored_run by (elim exE conjE) (rule that; blast)
  have "\<exists>out' s'' effs'. resume_request demo_env_again (\<lambda>_. 1) (\<lambda>_ _. Inr default_execution_policy)
       \<lparr> su_request_id = so_id out, su_reason = None \<rparr> demo_resumer CtxSystem s' = (Inr out', s'', effs')
     \<and> so_status out' = Dispatched \<and> count_completed_executions s'' (so_id out) = count_completed_executions (demo_running True) (so_id out)"
  proof (rule unstored_execution_repeatable [OF demo_running_ok run _ _ r(1,2)])
    show "has_scoped_permission demo_resumer RequestResume (rq_database r) (rq_environment r)"
      by (simp add: demo_resumer_def has_scoped_permission_def role_allows_def role_has_permission_def covers_database_def
          covers_environment_def db_wildcard_def env_wildcard_def)
    show "count_completed_executions (demo_running True) (so_id out) < ep_max_executions default_execution_policy"
      by (simp add: out r(7) default_execution_policy_def)
    show "\<exists>w. x_workflow_read (ce_lib demo_env_again) js = Some w \<and> (\<forall>ttl. wf_approval_ttl_secs w = Some ttl \<longrightarrow> num_seconds (1 - t) \<le> uint ttl)" for t js
      by (simp add: demo_env_again_def demo_env_def demo_lib_def demo_workflow_def)
  qed (use r in \<open>simp_all add: demo_submit_def demo_resumer_def demo_owner_def demo_env_again_def demo_env_def num_seconds_def\<close>)
  then show ?thesis unfolding out by blast
qed

end
