(* ===== verification/Background.thy ===== *)
theory Background
  imports UC_Submit
begin

text \<open>
  The background tasks that move requests without a user (\<open>crates/dbward-server/src/background\<close>):
  reclaiming executions whose lease has run out, expiring pending and approved requests, returning
  undelivered dispatches, and deleting old records. A task queries once and then handles each row
  in a transaction of its own, so a row may have changed in between; a tick here is the sequence of
  these transactions. What a transaction draws from its environment is given per identifier.
\<close>

record bg_env =
  bg_lib :: lib
  bg_now :: timestamp
  bg_event_now :: "string \<Rightarrow> timestamp"
  bg_audit :: "string \<Rightarrow> audit_env"
  bg_faults :: "string \<Rightarrow> tx_faults"

record tick_result =
  tr_processed :: u32
  tr_failed :: u32

definition no_ticks :: tick_result where
  "no_ticks = \<lparr> tr_processed = 0, tr_failed = 0 \<rparr>"

type_synonym tick = "tick_result \<times> store \<times> webhook_event list"

definition make_audit_event :: "string \<Rightarrow> event_category \<Rightarrow> string \<Rightarrow> timestamp \<Rightarrow> store \<Rightarrow> audit_event" where
  "make_audit_event event_type category request_id now s =
     (let ev = audit_event_simple event_type ''approval'' ''system'' (Some request_id) now CtxSystem;
          ev = ev\<lparr> ae_actor_type := ActSystem, ae_request_id := Some request_id, ae_outcome := OutSuccess,
                   ae_event_category := category \<rparr>
      in case get_request s request_id of
           Some req \<Rightarrow> ev\<lparr> ae_database_name := Some (db_str (rq_database req)),
               ae_environment := Some (env_str (rq_environment req)),
               ae_operation := Some (operation_as_str (rq_operation req)) \<rparr>
         | None \<Rightarrow> ev)"

definition emit_webhook :: "string \<Rightarrow> string \<Rightarrow> store \<Rightarrow> webhook_event" where
  "emit_webhook event_type request_id s =
     (let req = get_request s request_id in
      \<lparr> wh_event_type = event_type, wh_request_id = Some request_id,
        wh_database = map_option (\<lambda>r. db_str (rq_database r)) req,
        wh_environment = map_option (\<lambda>r. env_str (rq_environment r)) req, wh_actor = Some ''system'',
        wh_detail = None, wh_requester = map_option rq_requester req,
        wh_operation = map_option (\<lambda>r. operation_as_str (rq_operation r)) req, wh_reason = None,
        wh_redacted_detail = None, wh_error_summary = None, wh_approval_hint = None, wh_step_index = None,
        wh_total_steps = None, wh_expires_at = None, wh_approvers = None, wh_matched_selector = None \<rparr>)"

definition count_processed :: "tick_result \<Rightarrow> tick_result" where
  "count_processed t = t\<lparr> tr_processed := tr_processed t + 1 \<rparr>"

definition count_failed :: "tick_result \<Rightarrow> tick_result" where
  "count_failed t = t\<lparr> tr_failed := tr_failed t + 1 \<rparr>"

subsection \<open>Lease reclaim\<close>

text \<open>The transaction returns whether the loss is to be announced.\<close>

definition lease_tx :: "bg_env \<Rightarrow> string \<Rightarrow> string \<Rightarrow> audit_event \<Rightarrow> bool tx" where
  "lease_tx env exec_id req_id audit =
     thenT (mark_failed_lease_expired exec_id (bg_now env)) (\<lambda>exec_updated.
     if \<not> exec_updated then doneT False
     else thenT (mark_execution_lost req_id (bg_now env)) (\<lambda>req_updated.
       if \<not> req_updated then doneT False
       else thenT (record_event (bg_lib env) (bg_audit env exec_id) audit) (\<lambda>_. doneT True)))"

definition reclaim_one :: "bg_env \<Rightarrow> string \<times> string \<Rightarrow> tick \<Rightarrow> tick" where
  "reclaim_one env ids acc =
     (case (ids, acc) of ((exec_id, req_id), (result, s, hooks)) \<Rightarrow>
        let audit = (make_audit_event ''execution.lost'' CatAgent req_id (bg_event_now env exec_id) s)
              \<lparr> ae_resource_id := Some exec_id \<rparr>
        in (case run_in_tx (bg_faults env exec_id) (lease_tx env exec_id req_id audit) s of
              (Inr notify, s') \<Rightarrow>
                (count_processed result, s',
                 hooks @ (if notify then [emit_webhook ''execution.lost'' req_id s'] else []))
            | (Inl e, s') \<Rightarrow> (count_failed result, s', hooks)))"

definition run_lease_reclaim_once :: "bg_env \<Rightarrow> store \<Rightarrow> tick" where
  "run_lease_reclaim_once env s =
     fold (reclaim_one env) (find_expired_leases s (bg_now env)) (no_ticks, s, [])"

subsection \<open>Dispatch timeout\<close>

definition dispatch_timeout_secs :: int where
  "dispatch_timeout_secs = 300"

definition dispatch_tx :: "bg_env \<Rightarrow> string \<Rightarrow> audit_event \<Rightarrow> bool tx" where
  "dispatch_tx env i audit =
     thenT (mark_approved_from_dispatched i (bg_now env)) (\<lambda>updated.
     if updated then thenT (record_event (bg_lib env) (bg_audit env i) audit) (\<lambda>_. doneT True)
     else doneT False)"

definition timeout_one :: "bg_env \<Rightarrow> string \<Rightarrow> tick \<Rightarrow> tick" where
  "timeout_one env i acc =
     (case acc of (result, s, hooks) \<Rightarrow>
        let audit = make_audit_event ''request.dispatch_timeout'' CatApproval i (bg_event_now env i) s
        in (case run_in_tx (bg_faults env i) (dispatch_tx env i audit) s of
              (Inl e, s') \<Rightarrow> (count_failed result, s', hooks)
            | (Inr updated, s') \<Rightarrow>
                if updated then (count_processed result, s', hooks @ [emit_webhook ''request.dispatch_timeout'' i s'])
                else (result, s', hooks)))"

definition run_dispatch_timeout_once :: "bg_env \<Rightarrow> store \<Rightarrow> tick" where
  "run_dispatch_timeout_once env s =
     fold (timeout_one env) (find_dispatched_older_than s (bg_now env - seconds dispatch_timeout_secs))
       (no_ticks, s, [])"

subsection \<open>Expiry\<close>

definition expire_tx :: "bg_env \<Rightarrow> string \<Rightarrow> audit_event \<Rightarrow> unit tx" where
  "expire_tx env i audit =
     thenT (mark_expired i (bg_now env)) (\<lambda>updated.
     if \<not> updated then doneT () else record_event (bg_lib env) (bg_audit env i) audit)"

definition expire_one :: "bg_env \<Rightarrow> string \<Rightarrow> tick \<Rightarrow> tick" where
  "expire_one env i acc =
     (case acc of (result, s, hooks) \<Rightarrow>
        let audit = make_audit_event ''request.expired'' CatApproval i (bg_event_now env i) s
        in (case run_in_tx (bg_faults env i) (expire_tx env i audit) s of
              (Inr _, s') \<Rightarrow> (count_processed result, s', hooks @ [emit_webhook ''request.expired'' i s'])
            | (Inl e, s') \<Rightarrow> (count_failed result, s', hooks)))"

definition run_ttl_expiry_once :: "bg_env \<Rightarrow> store \<Rightarrow> tick" where
  "run_ttl_expiry_once env s =
     (let (result, s1, hooks) = (case find_expired_approved (bg_lib env) s (bg_now env) of
            Inr ids \<Rightarrow> fold (expire_one env) ids (no_ticks, s, [])
          | Inl _ \<Rightarrow> (count_failed no_ticks, s, []))
      in fold (expire_one env) (find_expired_pending s1 (bg_now env)) (result, s1, hooks))"

subsection \<open>Expired results\<close>

definition find_expired_results :: "store \<Rightarrow> timestamp \<Rightarrow> (string \<times> string) list" where
  "find_expired_results s now =
     map (\<lambda>r. (er_id r, er_storage_key r)) (filter (\<lambda>r. datetime_less (er_expires_at r) now) (st_results s))"

definition delete_result :: "string \<Rightarrow> store \<Rightarrow> store" where
  "delete_result result_id s =
     s\<lparr> st_access := filter (\<lambda>a. ra_result_id a \<noteq> result_id) (st_access s),
        st_results := filter (\<lambda>r. er_id r \<noteq> result_id) (st_results s) \<rparr>"

text \<open>\<open>storage_delete\<close> tells whether the result storage deleted the object. The result lists the keys
  deleted.\<close>

definition purge_result_one ::
  "(string \<Rightarrow> bool) \<Rightarrow> string \<times> string \<Rightarrow> tick_result \<times> store \<times> string list \<Rightarrow> tick_result \<times> store \<times> string list" where
  "purge_result_one storage_delete row acc =
     (case (row, acc) of ((result_id, okey), (result, s, deleted)) \<Rightarrow>
        if okey = [] then (count_processed result, delete_result result_id s, deleted)
        else if storage_delete okey
        then (count_processed result, delete_result result_id s, deleted @ [okey])
        else (count_failed result, s, deleted))"

definition purge_expired_results ::
  "(string \<Rightarrow> bool) \<Rightarrow> timestamp \<Rightarrow> store \<Rightarrow> tick_result \<times> store \<times> string list" where
  "purge_expired_results storage_delete now s =
     fold (purge_result_one storage_delete) (find_expired_results s now) (no_ticks, s, [])"

subsection \<open>The loops\<close>

text \<open>The contract of one round of a background loop, for the part \<open>view\<close> of the store the task is
  about: the round fails, counts the failure and leaves the store as it was, or does \<open>f\<close> to the
  view; the store invariant is kept either way. The counter of failures has 32 bits.\<close>

locale tick_loop =
  fixes round :: "'i \<Rightarrow> tick \<Rightarrow> tick" and view :: "store \<Rightarrow> 'v" and f :: "'i \<Rightarrow> 'v \<Rightarrow> 'v"
  assumes round_cases: "round i (t, s, h) = (t', s', h') \<Longrightarrow> store_ok s \<Longrightarrow>
       store_ok s' \<and> (t' = count_failed t \<and> s' = s \<or> tr_failed t' = tr_failed t \<and> view s' = f i (view s))"
begin

lemma loop_keeps: "fold round is (t, s, h) = (t', s', h') \<Longrightarrow> store_ok s \<Longrightarrow> store_ok s'"
proof (induction "is" arbitrary: t s h)
  case Nil
  then show ?case by simp
next
  case (Cons i "is")
  obtain t1 s1 h1 where r: "round i (t, s, h) = (t1, s1, h1)" by (cases "round i (t, s, h)") auto
  with Cons.prems(1) have "fold round is (t1, s1, h1) = (t', s', h')" by simp
  from Cons.IH [OF this] show ?case using round_cases [OF r Cons.prems(2)] by blast
qed

lemma loop_view:
  assumes "fold round is (t, s, h) = (t', s', h')" and "store_ok s" and "P (view s)"
    and "\<And>i v. P v \<Longrightarrow> P (f i v)"
  shows "P (view s')"
  using assms(1-3)
proof (induction "is" arbitrary: t s h)
  case Nil
  then show ?case by simp
next
  case (Cons i "is")
  obtain t1 s1 h1 where r: "round i (t, s, h) = (t1, s1, h1)" by (cases "round i (t, s, h)") auto
  with Cons.prems(1) have rest: "fold round is (t1, s1, h1) = (t', s', h')" by simp
  note c = round_cases [OF r Cons.prems(2)]
  then have "P (view s1)" using assms(4) [OF Cons.prems(3), of i] Cons.prems(3) by auto
  with Cons.IH [OF rest] c show ?case by blast
qed

lemma failures_grow:
  assumes "fold round is (t, s, h) = (t', s', h')" and "store_ok s"
    and "unat (tr_failed t) + length is < 2 ^ 32"
  shows "unat (tr_failed t) \<le> unat (tr_failed t')"
  using assms
proof (induction "is" arbitrary: t s h)
  case Nil
  then show ?case by simp
next
  case (Cons i "is")
  obtain t1 s1 h1 where r: "round i (t, s, h) = (t1, s1, h1)" by (cases "round i (t, s, h)") auto
  then have rest: "fold round is (t1, s1, h1) = (t', s', h')" using Cons.prems(1) by simp
  note c = round_cases [OF r Cons.prems(2)]
  have "unat (tr_failed t + 1) = unat (tr_failed t) + 1"
    using Cons.prems(3) by (simp add: unat_plus_if')
  then have "unat (tr_failed t) \<le> unat (tr_failed t1) \<and> unat (tr_failed t1) + length is < 2 ^ 32"
    using c Cons.prems(3) by (auto simp: count_failed_def)
  then show ?case using Cons.IH [OF rest] c by fastforce
qed

lemma failures_le:
  assumes "fold round is (t, s, h) = (t', s', h')" and "store_ok s"
    and "unat (tr_failed t) + length is < 2 ^ 32"
  shows "unat (tr_failed t') \<le> unat (tr_failed t) + length is"
  using assms
proof (induction "is" arbitrary: t s h)
  case Nil
  then show ?case by simp
next
  case (Cons i "is")
  obtain t1 s1 h1 where r: "round i (t, s, h) = (t1, s1, h1)" by (cases "round i (t, s, h)") auto
  then have rest: "fold round is (t1, s1, h1) = (t', s', h')" using Cons.prems(1) by simp
  note c = round_cases [OF r Cons.prems(2)]
  have "unat (tr_failed t + 1) = unat (tr_failed t) + 1"
    using Cons.prems(3) by (simp add: unat_plus_if')
  then have "unat (tr_failed t1) \<le> unat (tr_failed t) + 1 \<and> unat (tr_failed t1) + length is < 2 ^ 32"
    using c Cons.prems(3) by (auto simp: count_failed_def)
  then show ?case using Cons.IH [OF rest] c by fastforce
qed

lemma loop_exact:
  assumes "fold round is (t, s, h) = (t', s', h')" and "store_ok s" and "tr_failed t = 0"
    and "tr_failed t' = 0" and "length is < 2 ^ 32"
  shows "view s' = fold f is (view s)"
  using assms
proof (induction "is" arbitrary: t s h)
  case Nil
  then show ?case by simp
next
  case (Cons i "is")
  obtain t1 s1 h1 where r: "round i (t, s, h) = (t1, s1, h1)" by (cases "round i (t, s, h)") auto
  then have rest: "fold round is (t1, s1, h1) = (t', s', h')" using Cons.prems(1) by simp
  note c = round_cases [OF r Cons.prems(2)]
  have "unat (tr_failed t1) \<le> 0"
  proof (cases "t1 = count_failed t")
    case True
    then have one: "unat (tr_failed t1) = 1" using Cons.prems(3) by (simp add: count_failed_def)
    then show ?thesis using failures_grow [OF rest] c Cons.prems(4,5) by simp
  next
    case False
    then show ?thesis using c Cons.prems(3) by simp
  qed
  then have z: "tr_failed t1 = 0" by (simp add: unat_eq_zero)
  moreover have "view s1 = f i (view s)"
    using c z Cons.prems(3) by (auto simp: count_failed_def)
  ultimately show ?case
    using Cons.IH [OF rest] c Cons.prems(4,5) by simp
qed

end

lemma background_tx_ok [keeps_intros]:
  "keeps_inv store_ok (lease_tx env e i audit)" "keeps_inv store_ok (dispatch_tx env i audit)"
  "keeps_inv store_ok (expire_tx env i audit)"
  unfolding lease_tx_def dispatch_tx_def expire_tx_def by (intro keeps_intros)+

lemma run_in_tx_cases:
  assumes "run_in_tx faults m s = (r, s')" and "keeps_inv store_ok m" and "store_ok s"
  shows "store_ok s' \<and> (case r of Inl e \<Rightarrow> s' = s | Inr x \<Rightarrow> m s = Inr (x, s'))"
  using assms uow.fails [of faults m s] uow.commits [of faults m s] keeps_invD [of store_ok m s]
  by (cases r) auto

lemma record_event_view:
  assumes "record_event lib env ev s = Inr (x, s')"
  shows "st_requests s' = st_requests s \<and> st_executions s' = st_executions s"
proof -
  obtain u where "s' = s\<lparr> st_audit := u \<rparr>" using record_event_Inr [OF assms] by blast
  then show ?thesis by simp
qed

text \<open>The reclaim of one lease on the two tables.\<close>

definition live_execution :: "execution \<Rightarrow> bool" where
  "live_execution e \<longleftrightarrow> ex_status e \<in> {ExClaimed, ExRunning, ExCompleting}"

definition failed_row :: "timestamp \<Rightarrow> execution \<Rightarrow> execution" where
  "failed_row now e = e\<lparr> ex_status := ExFailed, ex_finished_at := Some now \<rparr>"

definition lost_row :: "timestamp \<Rightarrow> request \<Rightarrow> request" where
  "lost_row now r = r\<lparr> rq_status := ExecutionLost, rq_updated_at := now \<rparr>"

definition lease_view ::
  "timestamp \<Rightarrow> string \<times> string \<Rightarrow> execution list \<times> request list \<Rightarrow> execution list \<times> request list" where
  "lease_view now ids v =
     (upd_where (\<lambda>e. ex_id e = fst ids \<and> live_execution e) (failed_row now) (fst v),
      if \<exists>e \<in> set (fst v). ex_id e = fst ids \<and> live_execution e
      then upd_where (\<lambda>r. rq_id r = snd ids \<and> rq_status r = Running) (lost_row now) (snd v) else snd v)"

lemma lease_tx_view:
  assumes "lease_tx env eid rid audit s = Inr (x, s')"
  shows "(st_executions s', st_requests s') = lease_view (bg_now env) (eid, rid) (st_executions s, st_requests s)"
proof -
  have live: "(\<lambda>e. ex_id e = eid \<and> ex_status e \<in> {ExClaimed, ExRunning, ExCompleting}) = (\<lambda>e. ex_id e = eid \<and> live_execution e)"
    by (simp add: live_execution_def)
  have rows: "(\<lambda>e. e\<lparr> ex_status := ExFailed, ex_finished_at := Some (bg_now env) \<rparr>) = failed_row (bg_now env)"
    "(\<lambda>r. r\<lparr> rq_status := ExecutionLost, rq_updated_at := bg_now env \<rparr>) = lost_row (bg_now env)"
    by (simp_all add: failed_row_def lost_row_def fun_eq_iff)
  show ?thesis
    using assms unfolding lease_tx_def mark_failed_lease_expired_def mark_execution_lost_def
      update_execution_def update_request_def live rows
    by (auto simp: tx_simps lease_view_def affected_pos record_event_view upd_where_none split: if_splits)
qed

lemma reclaim_round:
  assumes "reclaim_one env ids (t, s, h) = (t', s', h')" and "store_ok s"
  shows "store_ok s' \<and> (t' = count_failed t \<and> s' = s
     \<or> tr_failed t' = tr_failed t
       \<and> (st_executions s', st_requests s') = lease_view (bg_now env) ids (st_executions s, st_requests s))"
proof -
  obtain eid rid where ids: "ids = (eid, rid)" by (cases ids)
  define audit where "audit = (make_audit_event ''execution.lost'' CatAgent rid (bg_event_now env eid) s)
              \<lparr> ae_resource_id := Some eid \<rparr>"
  obtain r s1 where run: "run_in_tx (bg_faults env eid) (lease_tx env eid rid audit) s = (r, s1)"
    by (cases "run_in_tx (bg_faults env eid) (lease_tx env eid rid audit) s")
  have "s' = s1 \<and> (case r of Inl e \<Rightarrow> t' = count_failed t | Inr x \<Rightarrow> tr_failed t' = tr_failed t)"
    using assms(1) run by (auto simp: reclaim_one_def ids audit_def [symmetric] count_processed_def split: sum.splits)
  with run_in_tx_cases [OF run background_tx_ok(1) assms(2)] lease_tx_view ids show ?thesis
    by (auto split: sum.splits)
qed

interpretation lease: tick_loop "reclaim_one env" "\<lambda>s. (st_executions s, st_requests s)" "lease_view (bg_now env)" for env
  by unfold_locales (rule reclaim_round)

text \<open>The other two tasks change requests only.\<close>

definition timeout_view :: "timestamp \<Rightarrow> string \<Rightarrow> request list \<Rightarrow> request list" where
  "timeout_view now i = upd_where (\<lambda>r. rq_id r = i \<and> rq_status r = Dispatched)
     (\<lambda>r. r\<lparr> rq_status := Approved, rq_updated_at := now \<rparr>)"

definition expire_view :: "timestamp \<Rightarrow> string \<Rightarrow> request list \<Rightarrow> request list" where
  "expire_view now i = upd_where (\<lambda>r. rq_id r = i \<and> rq_status r \<in> {Pending, Approved})
     (\<lambda>r. r\<lparr> rq_status := Expired, rq_updated_at := now, rq_resolved_at := Some now \<rparr>)"

lemma dispatch_tx_view:
  "dispatch_tx env i audit s = Inr (x, s') \<Longrightarrow> st_requests s' = timeout_view (bg_now env) i (st_requests s)"
  unfolding dispatch_tx_def mark_approved_from_dispatched_def update_request_def timeout_view_def
  by (auto simp: tx_simps record_event_view split: if_splits)

lemma expire_tx_view:
  "expire_tx env i audit s = Inr (x, s') \<Longrightarrow> st_requests s' = expire_view (bg_now env) i (st_requests s)"
  unfolding expire_tx_def mark_expired_def update_request_def expire_view_def
  by (auto simp: tx_simps record_event_view split: if_splits)

lemma timeout_round:
  assumes "timeout_one env i (t, s, h) = (t', s', h')" and "store_ok s"
  shows "store_ok s' \<and> (t' = count_failed t \<and> s' = s
     \<or> tr_failed t' = tr_failed t \<and> st_requests s' = timeout_view (bg_now env) i (st_requests s))"
proof -
  define audit where "audit = make_audit_event ''request.dispatch_timeout'' CatApproval i (bg_event_now env i) s"
  obtain r s1 where run: "run_in_tx (bg_faults env i) (dispatch_tx env i audit) s = (r, s1)"
    by (cases "run_in_tx (bg_faults env i) (dispatch_tx env i audit) s")
  have "s' = s1 \<and> (case r of Inl e \<Rightarrow> t' = count_failed t | Inr x \<Rightarrow> tr_failed t' = tr_failed t)"
    using assms(1) run by (auto simp: timeout_one_def audit_def [symmetric] count_processed_def split: sum.splits if_splits)
  with run_in_tx_cases [OF run background_tx_ok(2) assms(2)] dispatch_tx_view show ?thesis
    by (fastforce split: sum.splits)
qed

interpretation timeout: tick_loop "timeout_one env" st_requests "timeout_view (bg_now env)" for env
  by unfold_locales (rule timeout_round)

lemma expire_round:
  assumes "expire_one env i (t, s, h) = (t', s', h')" and "store_ok s"
  shows "store_ok s' \<and> (t' = count_failed t \<and> s' = s
     \<or> tr_failed t' = tr_failed t \<and> st_requests s' = expire_view (bg_now env) i (st_requests s))"
proof -
  define audit where "audit = make_audit_event ''request.expired'' CatApproval i (bg_event_now env i) s"
  obtain r s1 where run: "run_in_tx (bg_faults env i) (expire_tx env i audit) s = (r, s1)"
    by (cases "run_in_tx (bg_faults env i) (expire_tx env i audit) s")
  have "s' = s1 \<and> (case r of Inl e \<Rightarrow> t' = count_failed t | Inr x \<Rightarrow> tr_failed t' = tr_failed t)"
    using assms(1) run by (auto simp: expire_one_def audit_def [symmetric] count_processed_def split: sum.splits)
  with run_in_tx_cases [OF run background_tx_ok(3) assms(2)] expire_tx_view show ?thesis
    by (fastforce split: sum.splits)
qed

interpretation expiry: tick_loop "expire_one env" st_requests "expire_view (bg_now env)" for env
  by unfold_locales (rule expire_round)

lemma fold_upd_where:
  assumes "\<And>r. key (g r) = key r" and "\<And>r. Q r \<Longrightarrow> \<not> Q (g r)"
  shows "fold (\<lambda>i. upd_where (\<lambda>r. key r = i \<and> Q r) g) is t = upd_where (\<lambda>r. key r \<in> set is \<and> Q r) g t"
proof (induction "is" arbitrary: t)
  case Nil
  then show ?case by (simp add: upd_where_def)
next
  case (Cons i "is")
  then show ?case using assms by (auto simp: upd_where_def)
qed

lemma fold_lease_view:
  assumes "distinct (map fst ids)" and "\<And>i. i \<in> fst ` set ids \<Longrightarrow> \<exists>e \<in> set E. ex_id e = i \<and> live_execution e"
  shows "fold (lease_view now) ids (E, R) =
     (upd_where (\<lambda>e. ex_id e \<in> fst ` set ids \<and> live_execution e) (failed_row now) E,
      upd_where (\<lambda>r. rq_id r \<in> snd ` set ids \<and> rq_status r = Running) (lost_row now) R)"
  using assms
proof (induction ids arbitrary: E R)
  case Nil
  then show ?case by (simp add: upd_where_def)
next
  case (Cons p ids)
  let ?E = "upd_where (\<lambda>e. ex_id e = fst p \<and> live_execution e) (failed_row now) E"
  let ?R = "upd_where (\<lambda>r. rq_id r = snd p \<and> rq_status r = Running) (lost_row now) R"
  have one: "lease_view now p (E, R) = (?E, ?R)"
    using Cons.prems(2) [of "fst p"] by (simp add: lease_view_def)
  have still: "\<exists>e \<in> set ?E. ex_id e = i \<and> live_execution e" if i: "i \<in> fst ` set ids" for i
  proof -
    from i Cons.prems obtain e where e: "e \<in> set E" "ex_id e = i" "live_execution e" by auto
    have "fst p \<notin> fst ` set ids" using Cons.prems(1) by simp
    with i have "i \<noteq> fst p" by blast
    with e show ?thesis by (force simp: set_upd_where)
  qed
  have row: "ex_id (failed_row now e) = ex_id e" "\<not> live_execution (failed_row now e)"
    "rq_id (lost_row now r) = rq_id r" "rq_status (lost_row now r) = ExecutionLost" for e r
    by (simp_all add: failed_row_def lost_row_def live_execution_def)
  have "fold (lease_view now) (p # ids) (E, R) = fold (lease_view now) ids (?E, ?R)"
    by (simp add: one)
  also have "\<dots> = (upd_where (\<lambda>e. ex_id e \<in> fst ` set ids \<and> live_execution e) (failed_row now) ?E,
      upd_where (\<lambda>r. rq_id r \<in> snd ` set ids \<and> rq_status r = Running) (lost_row now) ?R)"
    using Cons.prems(1) still by (intro Cons.IH) auto
  finally show ?case by (auto simp: upd_where_def row)
qed

subsection \<open>Properties\<close>

definition demo_bg :: bg_env where
  "demo_bg =
     \<lparr> bg_lib = demo_lib, bg_now = seconds 10, bg_event_now = (\<lambda>_. seconds 10),
       bg_audit = (\<lambda>_. \<lparr> au_signer = None, au_interval = 100, au_ids = (''e1'', ''e2''), au_wall = (1, 1) \<rparr>),
       bg_faults = (\<lambda>_. no_faults) \<rparr>"

lemmas background_eval = demo_bg_def demo_defs get_request_def find_row_def run_in_tx_def thenT_def
  update_request_def update_execution_def affected_def upd_where_def record_event_def record_audit_def
  insert_audit_event_def datetime_less_def seconds_def no_ticks_def count_processed_def count_failed_def Let_def

text \<open>C39: A tick of the lease task that reports no failure does exactly what it is for: every execution
  that was live with a lease that had run out is failed, every running request of such an
  execution is marked as lost, and no other execution or request changes.\<close>

theorem lease_reclaim_exact:
  assumes "store_ok s" and "run_lease_reclaim_once env s = (t, s', hooks)" and "tr_failed t = 0"
    and "length (find_expired_leases s (bg_now env)) < 2 ^ 32"
  defines "stale e \<equiv> live_execution e \<and> datetime_less (ex_lease_expires_at e) (bg_now env)"
  shows "store_ok s'
    \<and> st_executions s' = map (\<lambda>e. if stale e then failed_row (bg_now env) e else e) (st_executions s)
    \<and> st_requests s' = map (\<lambda>r. if rq_status r = Running \<and> (\<exists>e \<in> set (st_executions s). stale e \<and> ex_request_id e = rq_id r)
         then lost_row (bg_now env) r else r) (st_requests s)"
proof -
  let ?ids = "find_expired_leases s (bg_now env)"
  have ids: "?ids = map (\<lambda>e. (ex_id e, ex_request_id e)) (filter stale (st_executions s))"
    unfolding find_expired_leases_def by (rule arg_cong [where f = "map _"], rule filter_cong)
      (simp_all add: stale_def live_execution_def)
  have fsts: "fst ` set ?ids = ex_id ` {e \<in> set (st_executions s). stale e}"
    by (force simp: ids)
  have dist: "distinct (map ex_id (st_executions s))"
    using assms(1) by (simp add: store_ok_def keys_ok_def)
  then have "distinct (map fst ?ids)"
    by (simp add: ids comp_def distinct_map_filter)
  moreover have "\<exists>e \<in> set (st_executions s). ex_id e = i \<and> live_execution e" if "i \<in> fst ` set ?ids" for i
    using that by (auto simp: ids stale_def)
  ultimately have rows: "(st_executions s', st_requests s') =
     (upd_where (\<lambda>e. ex_id e \<in> fst ` set ?ids \<and> live_execution e) (failed_row (bg_now env)) (st_executions s),
      upd_where (\<lambda>r. rq_id r \<in> snd ` set ?ids \<and> rq_status r = Running) (lost_row (bg_now env)) (st_requests s))"
    using lease.loop_exact [OF assms(2) [unfolded run_lease_reclaim_once_def] assms(1) _ assms(3,4)]
    by (simp add: no_ticks_def fold_lease_view)
  have sel: "ex_id e \<in> fst ` set ?ids \<and> live_execution e \<longleftrightarrow> stale e" if "e \<in> set (st_executions s)" for e
    using that executions.unique [OF assms(1), of e] unfolding fsts image_iff stale_def by blast
  have owner: "rq_id r \<in> snd ` set ?ids \<longleftrightarrow> (\<exists>e \<in> set (st_executions s). stale e \<and> ex_request_id e = rq_id r)" for r
    by (force simp: ids)
  have "st_requests s' = upd_where (\<lambda>r. rq_id r \<in> snd ` set ?ids \<and> rq_status r = Running) (lost_row (bg_now env)) (st_requests s)"
    using rows by simp
  then have "st_requests s' = map (\<lambda>r. if rq_status r = Running \<and> (\<exists>e \<in> set (st_executions s). stale e \<and> ex_request_id e = rq_id r)
         then lost_row (bg_now env) r else r) (st_requests s)"
    unfolding owner by (simp add: upd_where_def conj_commute)
  moreover have "st_executions s' = map (\<lambda>e. if stale e then failed_row (bg_now env) e else e) (st_executions s)"
    using rows sel by (simp add: upd_where_def cong: map_cong)
  ultimately show ?thesis
    using lease.loop_keeps [OF assms(2) [unfolded run_lease_reclaim_once_def] assms(1)] by simp
qed

lemma demo_reclaim:
  "\<exists>t s' h. run_lease_reclaim_once demo_bg (demo_running False) = (t, s', h) \<and> tr_failed t = 0"
  by (simp add: run_lease_reclaim_once_def reclaim_one_def lease_tx_def find_expired_leases_def
      mark_failed_lease_expired_def mark_execution_lost_def demo_running_def demo_execution_def background_eval)

theorem lease_reclaim_exact_witness:
  "\<exists>t s' h. run_lease_reclaim_once demo_bg (demo_running False) = (t, s', h)
     \<and> map ex_status (st_executions s') = [ExFailed] \<and> map rq_status (st_requests s') = [ExecutionLost]"
proof -
  obtain t s' h where run: "run_lease_reclaim_once demo_bg (demo_running False) = (t, s', h)" "tr_failed t = 0"
    using demo_reclaim by blast
  have "length (find_expired_leases (demo_running False) (bg_now demo_bg)) < 2 ^ 32"
    by (simp add: find_expired_leases_def demo_running_def demo_execution_def)
  from lease_reclaim_exact [OF demo_running_ok run this]
  have "map ex_status (st_executions s') = [ExFailed] \<and> map rq_status (st_requests s') = [ExecutionLost]"
    by (simp add: demo_running_def demo_execution_def demo_bg_def demo_defs live_execution_def datetime_less_def
        seconds_def failed_row_def lost_row_def)
  with run(1) show ?thesis by (intro exI [of _ t] exI [of _ s'] exI [of _ h]) (rule conjI)
qed

text \<open>Which requests are overdue.\<close>

definition pending_overdue :: "timestamp \<Rightarrow> request \<Rightarrow> bool" where
  "pending_overdue now r \<longleftrightarrow> rq_status r = Pending \<and> (\<exists>t. rq_expires_at r = Some t \<and> datetime_less t now)"

definition approval_overdue :: "lib \<Rightarrow> timestamp \<Rightarrow> request \<Rightarrow> bool" where
  "approval_overdue lib now r \<longleftrightarrow> rq_status r = Approved
     \<and> (\<exists>t n. rq_resolved_at r = Some t \<and> approval_ttl lib r = Inr (Some n) \<and> datetime_less (t + seconds n) now)"

definition expired_row :: "timestamp \<Rightarrow> request \<Rightarrow> request" where
  "expired_row now r = r\<lparr> rq_status := Expired, rq_updated_at := now, rq_resolved_at := Some now \<rparr>"

lemma expired_done: "\<not> pending_overdue t (expired_row now r)"
  by (simp add: pending_overdue_def expired_row_def)

lemma filter_expired_approved_Inr:
  "filter_expired_approved lib now rs = Inr ids \<Longrightarrow> ids = map rq_id (filter (approval_overdue lib now) rs)"
proof (induction rs arbitrary: ids)
  case Nil
  then show ?case by simp
next
  case (Cons r rs)
  show ?case
  proof (cases "rq_status r = Approved \<and> rq_resolved_at r \<noteq> None")
    case True
    then obtain t where a: "rq_status r = Approved" "rq_resolved_at r = Some t" by auto
    then obtain ttl ids' where ttl: "approval_ttl lib r = Inr ttl"
      and rest: "filter_expired_approved lib now rs = Inr ids'"
      and ids: "ids = (case ttl of Some n \<Rightarrow> if datetime_less (t + seconds n) now then rq_id r # ids' else ids' | None \<Rightarrow> ids')"
      using Cons.prems by (auto simp: res_simps)
    with Cons.IH [OF rest] a show ?thesis
      by (auto simp: approval_overdue_def split: option.splits)
  next
    case False
    then have "filter_expired_approved lib now rs = Inr ids"
      using Cons.prems by (cases "rq_status r"; cases "rq_resolved_at r") auto
    with Cons.IH False show ?thesis by (auto simp: approval_overdue_def)
  qed
qed

lemma fold_expire_view:
  "fold (expire_view now) is t = upd_where (\<lambda>r. rq_id r \<in> set is \<and> rq_status r \<in> {Pending, Approved}) (expired_row now) t"
proof -
  have "expire_view now = (\<lambda>i. upd_where (\<lambda>r. rq_id r = i \<and> rq_status r \<in> {Pending, Approved}) (expired_row now))"
    by (simp add: fun_eq_iff expire_view_def expired_row_def [abs_def])
  then show ?thesis
    by (simp only:) (rule fold_upd_where; simp add: expired_row_def)
qed

text \<open>Rows selected by their identifiers are the rows selected.\<close>

lemma upd_selected:
  assumes "distinct (map rq_id t)" and "\<And>r. P r \<Longrightarrow> Q r"
  shows "upd_where (\<lambda>r. rq_id r \<in> set (map rq_id (filter P t)) \<and> Q r) g t = map (\<lambda>r. if P r then g r else r) t"
proof -
  have "rq_id r \<in> set (map rq_id (filter P t)) \<longleftrightarrow> P r" if "r \<in> set t" for r
    using assms(1) that by (auto simp: distinct_map inj_on_def)
  with assms(2) show ?thesis by (auto simp: upd_where_def)
qed

text \<open>A tick of the expiry task that reports no failure expires exactly the overdue requests, the
  pending ones whose deadline has passed and the approved ones whose approval has outlived its
  lifetime, and leaves every other request as it was.\<close>

theorem ttl_expiry_exact:
  assumes "store_ok s" and "run_ttl_expiry_once env s = (t, s', hooks)" and "tr_failed t = 0"
    and "length (st_requests s) < 2 ^ 31"
  shows "store_ok s' \<and> st_requests s' =
     map (\<lambda>r. if pending_overdue (bg_now env) r \<or> approval_overdue (bg_lib env) (bg_now env) r
              then expired_row (bg_now env) r else r) (st_requests s)"
proof -
  let ?now = "bg_now env" and ?late = "approval_overdue (bg_lib env) (bg_now env)"
  have dist: "distinct (map rq_id (st_requests s))"
    using assms(1) by (simp add: store_ok_def keys_ok_def)
  obtain t1 s1 h1 where first: "(case find_expired_approved (bg_lib env) s ?now of
            Inr ids \<Rightarrow> fold (expire_one env) ids (no_ticks, s, []) | Inl _ \<Rightarrow> (count_failed no_ticks, s, [])) = (t1, s1, h1)"
    by (cases "case find_expired_approved (bg_lib env) s ?now of
            Inr ids \<Rightarrow> fold (expire_one env) ids (no_ticks, s, []) | Inl _ \<Rightarrow> (count_failed no_ticks, s, [])")
  then have second: "fold (expire_one env) (find_expired_pending s1 ?now) (t1, s1, h1) = (t, s', hooks)"
    using assms(2) by (simp add: run_ttl_expiry_once_def)
  have few: "length (map rq_id (filter P q)) < 2 ^ 31" if "length q < 2 ^ 31" for P and q :: "request list"
    using that by (simp add: order_le_less_trans [OF length_filter_le])
  have bound: "store_ok s1 \<and> unat (tr_failed t1) < 2 ^ 31 \<and> length (st_requests s1) < 2 ^ 31
    \<and> (tr_failed t1 = 0 \<longrightarrow> st_requests s1 = map (\<lambda>r. if ?late r then expired_row ?now r else r) (st_requests s))"
  proof (cases "find_expired_approved (bg_lib env) s ?now")
    case (Inl e)
    with first assms show ?thesis by (auto simp: count_failed_def no_ticks_def)
  next
    case (Inr ids)
    then have ids: "ids = map rq_id (filter ?late (st_requests s))"
      by (simp add: find_expired_approved_def res_simps filter_expired_approved_Inr)
    from first Inr have loop: "fold (expire_one env) ids (no_ticks, s, []) = (t1, s1, h1)" by simp
    have len: "length ids < 2 ^ 31" unfolding ids using assms(4) by (rule few)
    then have "unat (tr_failed t1) \<le> length ids"
      using expiry.failures_le [OF loop assms(1)] by (simp add: no_ticks_def)
    moreover have "length (st_requests s1) = length (st_requests s)"
      by (rule expiry.loop_view [OF loop assms(1)]) (simp_all add: expire_view_def)
    moreover have "st_requests s1 = map (\<lambda>r. if ?late r then expired_row ?now r else r) (st_requests s)" if "tr_failed t1 = 0"
      using expiry.loop_exact [OF loop assms(1) _ that] len
        upd_selected [OF dist, of ?late "\<lambda>r. rq_status r \<in> {Pending, Approved}"]
      by (simp add: no_ticks_def fold_expire_view ids approval_overdue_def)
    ultimately show ?thesis
      using expiry.loop_keeps [OF loop assms(1)] len assms(4) by simp
  qed
  have pend: "find_expired_pending s1 ?now = map rq_id (filter (pending_overdue ?now) (st_requests s1))"
    unfolding find_expired_pending_def
    by (rule arg_cong [where f = "map _"], rule filter_cong) (auto simp: pending_overdue_def split: option.splits)
  have len2: "length (find_expired_pending s1 ?now) < 2 ^ 31"
    unfolding pend using bound by (intro few) simp
  have "tr_failed t1 = 0"
    using expiry.failures_grow [OF second] bound len2 assms(3) by (simp add: unat_eq_zero)
  then have s1: "st_requests s1 = map (\<lambda>r. if ?late r then expired_row ?now r else r) (st_requests s)"
    using bound by simp
  have "st_requests s' = map (\<lambda>r. if pending_overdue ?now r then expired_row ?now r else r) (st_requests s1)"
    using expiry.loop_exact [OF second _ \<open>tr_failed t1 = 0\<close> assms(3)] bound len2
      upd_selected [of "st_requests s1" "pending_overdue ?now" "\<lambda>r. rq_status r \<in> {Pending, Approved}"]
    by (simp add: fold_expire_view pend pending_overdue_def store_ok_def keys_ok_def)
  moreover have "(let q = (if ?late r then expired_row ?now r else r) in if pending_overdue ?now q then expired_row ?now q else q)
      = (if pending_overdue ?now r \<or> ?late r then expired_row ?now r else r)" for r
    using expired_done [of ?now ?now r] by (simp add: Let_def)
  ultimately show ?thesis
    using expiry.loop_keeps [OF second] bound by (simp add: s1 comp_def Let_def)
qed

definition demo_overdue :: store where
  "demo_overdue = (demo_store Pending)\<lparr> st_requests := [(demo_request Pending)\<lparr> rq_expires_at := Some 0 \<rparr>] \<rparr>"

lemma demo_overdue_ok: "store_ok demo_overdue"
  by (simp add: store_ok_def keys_ok_def refs_ok_def demo_overdue_def demo_store_def demo_request_def rq_database_id_def
      database_id_def idempotency_unique_def approve_unique_def claim_unique_def)

lemma demo_expiry: "\<exists>t s' h. run_ttl_expiry_once demo_bg demo_overdue = (t, s', h) \<and> tr_failed t = 0"
  by (simp add: run_ttl_expiry_once_def expire_one_def expire_tx_def find_expired_approved_def find_expired_pending_def
      mark_expired_def demo_overdue_def background_eval)

theorem ttl_expiry_exact_witness:
  "\<exists>t s' h. run_ttl_expiry_once demo_bg demo_overdue = (t, s', h) \<and> map rq_status (st_requests s') = [Expired]"
proof -
  obtain t s' h where run: "run_ttl_expiry_once demo_bg demo_overdue = (t, s', h)" "tr_failed t = 0"
    using demo_expiry by blast
  have "length (st_requests demo_overdue) < 2 ^ 31" by (simp add: demo_overdue_def)
  from ttl_expiry_exact [OF demo_overdue_ok run this] have "map rq_status (st_requests s') = [Expired]"
    by (simp add: demo_overdue_def demo_bg_def demo_request_def pending_overdue_def datetime_less_def seconds_def
        expired_row_def)
  with run(1) show ?thesis by (intro exI [of _ t] exI [of _ s'] exI [of _ h]) (rule conjI)
qed

text \<open>When a request leaves the pending and approved states between the query and its transaction,
  the expiry task changes nothing and records nothing, but still announces the expiry.\<close>

theorem stale_expiry_announced:
  assumes "store_ok s" and "get_request s i = Some r" and "rq_status r \<notin> {Pending, Approved}"
    and "bg_faults env i = no_faults"
  shows "expire_one env i (t, s, hooks) = (count_processed t, s, hooks @ [emit_webhook ''request.expired'' i s])"
proof -
  have "mark_expired i (bg_now env) s = Inr (False, s)"
    unfolding mark_expired_def using assms(2,3) by (intro update_request_none [OF assms(1)]) auto
  then have "expire_tx env i audit s = Inr ((), s)" for audit
    by (simp add: expire_tx_def thenT_def)
  then show ?thesis
    by (simp add: expire_one_def assms(4) uow.clean)
qed

theorem stale_expiry_announced_witness:
  "expire_one demo_bg ''r1'' (no_ticks, demo_store Cancelled, [])
     = (count_processed no_ticks, demo_store Cancelled, [emit_webhook ''request.expired'' ''r1'' (demo_store Cancelled)])"
  using stale_expiry_announced [OF demo_store_ok, of Cancelled "''r1''" "demo_request Cancelled" demo_bg no_ticks "[]"]
  by (simp add: get_request_def find_row_def demo_store_def demo_request_def demo_bg_def)

end
