(* ===== verification/Sql.thy ===== *)
theory Sql
  imports Values
begin

text \<open>
  SQL input: what the sources read of the abstract syntax of the \<open>sqlparser\<close> crate, and the
  guarded parser entry point (\<open>services/sql_parser.rs\<close>) with its keyword scanner. The crate's
  parser itself is a parameter \<open>parse_sql\<close>. The lemmas show that leading comments and white
  space cannot hide the first keyword, and what an accepted batch satisfies.
\<close>

subsection \<open>The observed syntax tree\<close>

text \<open>A node keeps the variant and the fields the sources inspect. Where a source runs one of the
  crate's visitors or prints a node, the node carries what the visitor is handed or the text:
  for a query the lock counts of all nested queries and the name parts (identifiers only) of
  all function calls; for a statement its text and the lengths of all \<open>IN\<close> lists.\<close>

datatype dialect = PostgreSql | MySql

datatype object_type = OTable | OView | OIndex | OSequence | OOther

datatype column_option = CoNotNull | CoDefault | CoOther

datatype alter_operation = AtAddColumn "column_option list" | AtDropColumn | AtSetDataType | AtOther

datatype set_kind = SetSingle "string list" | SetRole | SetSessionAuthorization | SetTransaction
  | SetTimeZone | SetNames | SetNamesDefault | SetMultiple "string list list" | SetOther

text \<open>The body of a query: a \<open>SELECT\<close> (with \<open>INTO\<close> or not) and its text, \<open>INSERT\<close>, \<open>UPDATE\<close>, a set
  operation, a query in parentheses, or another form with its text.\<close>

datatype set_expr = SeSelect bool string | SeInsert | SeUpdate | SeSetOperation set_expr set_expr
  | SeQuery query | SeOther string
and query = Query (q_body: set_expr) (q_with: "query list option")
  (q_visited_locks: "nat list") (q_visited_functions: "string option list list")

datatype show_kind = ShowVariable | ShowTables | ShowColumns | ShowCreate | ShowDatabases
  | ShowSchemas | ShowViews | ShowCollation | ShowStatus | ShowVariables | ShowFunctions

datatype tx_kind = StartTransaction | Commit | Rollback | Savepoint

datatype privilege_kind = Grant | Revoke | CreateRole | AlterRole | CreateSchema | AlterSchema
  | CreateDatabase | AlterIndex | AlterView | CreateType

datatype statement =
    StQuery query
  | StExplain bool statement
  | StExplainTable
  | StShow show_kind
  | StInsert
  | StUpdate bool
  | StDelete bool
  | StMerge
  | StCopy
  | StCall
  | StTruncate
  | StExecute
  | StSet set_kind
  | StNotify
  | StListen
  | StTx tx_kind
  | StLockTables
  | StCreateTable bool bool
  | StCreateView bool
  | StCreateIndex bool
  | StAlterTable "alter_operation list"
  | StPrivilege privilege_kind
  | StCreateFunction
  | StCreateProcedure
  | StDrop object_type
  | StCreateSequence
  | StLoadData
  | StOther

record parsed_statement =
  st_text :: string
  st_in_lists :: "nat list"
  st_kind :: statement

type_synonym sql_lib = "dialect \<Rightarrow> string \<Rightarrow> parsed_statement list option"

subsection \<open>Trimming\<close>

text \<open>The UTF-8 encodings of the characters with the Unicode property \<open>White_Space\<close>, which
  \<open>str::trim\<close> removes at both ends.\<close>

definition ws_seqs :: "string list" where
  "ws_seqs =
     [[CHR 0x09], [CHR 0x0A], [CHR 0x0B], [CHR 0x0C], [CHR 0x0D], [CHR 0x20],
      [CHR 0xC2, CHR 0x85], [CHR 0xC2, CHR 0xA0], [CHR 0xE1, CHR 0x9A, CHR 0x80],
      [CHR 0xE2, CHR 0x80, CHR 0x80], [CHR 0xE2, CHR 0x80, CHR 0x81], [CHR 0xE2, CHR 0x80, CHR 0x82],
      [CHR 0xE2, CHR 0x80, CHR 0x83], [CHR 0xE2, CHR 0x80, CHR 0x84], [CHR 0xE2, CHR 0x80, CHR 0x85],
      [CHR 0xE2, CHR 0x80, CHR 0x86], [CHR 0xE2, CHR 0x80, CHR 0x87], [CHR 0xE2, CHR 0x80, CHR 0x88],
      [CHR 0xE2, CHR 0x80, CHR 0x89], [CHR 0xE2, CHR 0x80, CHR 0x8A], [CHR 0xE2, CHR 0x80, CHR 0xA8],
      [CHR 0xE2, CHR 0x80, CHR 0xA9], [CHR 0xE2, CHR 0x80, CHR 0xAF], [CHR 0xE2, CHR 0x81, CHR 0x9F],
      [CHR 0xE3, CHR 0x80, CHR 0x80]]"

definition strip_one :: "string list \<Rightarrow> string \<Rightarrow> nat" where
  "strip_one seqs s = (case find (\<lambda>p. take (length p) s = p) seqs of None \<Rightarrow> 0 | Some p \<Rightarrow> length p)"

function trim_front :: "string list \<Rightarrow> string \<Rightarrow> string" where
  "trim_front seqs s = (if strip_one seqs s = 0 \<or> s = [] then s else trim_front seqs (drop (strip_one seqs s) s))"
  by auto
termination
  by (relation "measure (\<lambda>(seqs, s). length s)") auto

declare trim_front.simps [simp del]

definition trim :: "string \<Rightarrow> string" where
  "trim s = rev (trim_front (map rev ws_seqs) (rev (trim_front ws_seqs s)))"

lemma trim_front_suffix: "\<exists>n. trim_front seqs s = drop n s"
proof (induction seqs s rule: trim_front.induct)
  case (1 seqs s)
  show ?case
  proof (cases "strip_one seqs s = 0 \<or> s = []")
    case True
    then show ?thesis by (subst trim_front.simps) (auto intro: exI [of _ 0])
  next
    case False
    then obtain n where "trim_front seqs (drop (strip_one seqs s) s) = drop n (drop (strip_one seqs s) s)"
      using 1 by blast
    with False show ?thesis by (subst trim_front.simps) (auto simp: drop_drop)
  qed
qed

lemma set_trim: "set (trim s) \<subseteq> set s"
proof -
  have "set (trim_front seqs t) \<subseteq> set t" for seqs t
    by (metis set_drop_subset trim_front_suffix)
  then show ?thesis unfolding trim_def by (metis order_trans set_rev)
qed

lemma length_trim: "length (trim s) \<le> length s"
proof -
  have "length (trim_front seqs t) \<le> length t" for seqs t
    by (metis diff_le_self length_drop trim_front_suffix)
  then show ?thesis unfolding trim_def by (metis length_rev order_trans)
qed

subsection \<open>The keyword scanner\<close>

definition newline :: char where
  "newline = CHR 0x0A"

definition ident_char :: "char \<Rightarrow> bool" where
  "ident_char c \<longleftrightarrow> is_alnum c \<or> c = CHR ''_''"

text \<open>The inner loop that looks for the end of a block comment, and the step behind it.\<close>

fun skip_block :: "string \<Rightarrow> string" where
  "skip_block (x # y # r) = (if x = CHR ''*'' \<and> y = CHR ''/'' then r else skip_block (y # r))"
| "skip_block _ = []"

lemma length_skip_block: "length (skip_block s) \<le> length s"
  by (induction s rule: skip_block.induct) auto

function first_keyword_is :: "string \<Rightarrow> string \<Rightarrow> bool" where
  "first_keyword_is [] target = False"
| "first_keyword_is (b # bs) target =
     (if is_space b then first_keyword_is bs target
      else if (b = CHR ''-'' \<and> bs \<noteq> [] \<and> hd bs = CHR ''-'') \<or> b = CHR ''#''
        then first_keyword_is (dropWhile (\<lambda>c. c \<noteq> newline) bs) target
      else if b = CHR ''/'' \<and> bs \<noteq> [] \<and> hd bs = CHR ''*''
        then first_keyword_is (skip_block (tl bs)) target
      else eq_ignore_ascii_case (takeWhile ident_char (b # bs)) target)"
  by pat_completeness auto
termination
proof (relation "measure (\<lambda>(s, t). length s)", goal_cases)
  case (3 b bs target)
  then show ?case using length_dropWhile_le [of "\<lambda>c. c \<noteq> newline" bs] by simp
next
  case (4 b bs target)
  then show ?case using length_skip_block [of "tl bs"] by (cases bs) simp_all
qed auto

definition split_char :: "char \<Rightarrow> string \<Rightarrow> string list" where
  "split_char c s = foldr (\<lambda>x parts. if x = c then [] # parts
     else case parts of [] \<Rightarrow> [[x]] | p # ps \<Rightarrow> (x # p) # ps) s [[]]"

definition contains_opaque_keyword :: "string \<Rightarrow> bool" where
  "contains_opaque_keyword sql = list_ex (\<lambda>part. first_keyword_is part ''DO'') (split_char CHR '';'' sql)"

subsection \<open>Guarded parsing\<close>

definition MAX_SQL_BYTES :: nat where
  "MAX_SQL_BYTES = 1048576"

definition MAX_STATEMENTS :: nat where
  "MAX_STATEMENTS = 100"

datatype parse_error = PeEmpty | PeNullBytes | PeTooLarge | PeTooManyStatements
  | PeRejected string | PeParseFailed

definition parse_statements ::
  "sql_lib \<Rightarrow> string \<Rightarrow> dialect \<Rightarrow> parse_error + parsed_statement list" where
  "parse_statements parse_sql sql dialect =
     (if CHR 0x00 \<in> set sql then Inl PeNullBytes else
      let trimmed = trim sql in
      if trimmed = [] then Inl PeEmpty
      else if length trimmed > MAX_SQL_BYTES then Inl PeTooLarge
      else if first_keyword_is trimmed ''DO''
        then Inl (PeRejected ''DO statements are not allowed; body content cannot be inspected'')
      else if first_keyword_is trimmed ''LOAD''
        then Inl (PeRejected ''LOAD DATA is not allowed'')
      else case parse_sql dialect trimmed of
          Some stmts \<Rightarrow>
            if stmts = [] then Inl PeEmpty
            else if length stmts > MAX_STATEMENTS then Inl PeTooManyStatements
            else Inr stmts
        | None \<Rightarrow>
            if contains_opaque_keyword trimmed
            then Inl (PeRejected ''DO statements are not allowed; body content cannot be inspected'')
            else Inl PeParseFailed)"

lemma parse_statements_Inr:
  "parse_statements p sql d = Inr stmts \<longleftrightarrow>
   CHR 0x00 \<notin> set sql \<and> trim sql \<noteq> [] \<and> length (trim sql) \<le> MAX_SQL_BYTES
   \<and> \<not> first_keyword_is (trim sql) ''DO'' \<and> \<not> first_keyword_is (trim sql) ''LOAD''
   \<and> p d (trim sql) = Some stmts \<and> stmts \<noteq> [] \<and> length stmts \<le> MAX_STATEMENTS"
  by (auto simp: parse_statements_def Let_def not_less split: option.splits)

text \<open>Blank prefixes: white space, line comments up to their newline, block comments (the first
  closing mark ends one).\<close>

inductive blank :: "string \<Rightarrow> bool" where
  blank_Nil: "blank []"
| blank_space: "is_space c \<Longrightarrow> blank b \<Longrightarrow> blank (c # b)"
| blank_dash: "newline \<notin> set l \<Longrightarrow> blank b \<Longrightarrow> blank (''--'' @ l @ newline # b)"
| blank_hash: "newline \<notin> set l \<Longrightarrow> blank b \<Longrightarrow> blank (''#'' @ l @ newline # b)"
| blank_block: "\<not> sublist ''*/'' (l @ ''*'') \<Longrightarrow> blank b \<Longrightarrow> blank (''/*'' @ l @ ''*/'' @ b)"

lemma dropWhile_newline: "newline \<notin> set l \<Longrightarrow> dropWhile (\<lambda>c. c \<noteq> newline) (l @ newline # b) = newline # b"
  by (induction l) auto

lemma is_space_newline [simp]: "is_space newline"
  by (simp add: is_space_def newline_def)

lemma skip_block_comment: "\<not> sublist ''*/'' (l @ ''*'') \<Longrightarrow> skip_block (l @ ''*/'' @ b) = b"
proof (induction l)
  case Nil
  then show ?case by simp
next
  case (Cons x l)
  have "\<not> sublist ''*/'' (l @ ''*'')"
    using Cons.prems by (metis append_Cons sublist_Cons_right)
  moreover have "\<not> (x = CHR ''*'' \<and> (\<exists>r. l @ ''*'' = CHR ''/'' # r))"
    using Cons.prems by (auto simp: sublist_def) (metis append_Cons append_Nil)
  ultimately show ?case
    using Cons.IH by (cases l) auto
qed

lemma first_keyword_is_blank: "blank b \<Longrightarrow> first_keyword_is (b @ s) t = first_keyword_is s t"
proof (induction rule: blank.induct)
  case (blank_dash l b)
  have "newline \<noteq> CHR ''-''" "\<not> is_space CHR ''-''" by (simp_all add: newline_def is_space_def)
  then show ?case using blank_dash by (simp add: dropWhile_newline)
next
  case (blank_hash l b)
  have "\<not> is_space CHR ''#''" by (simp add: is_space_def)
  then show ?case using blank_hash by (simp add: dropWhile_newline)
next
  case (blank_block l b)
  have "\<not> is_space CHR ''/''" by (simp add: is_space_def)
  then show ?case using blank_block skip_block_comment [of l "b @ s"] by simp
qed simp_all

lemma first_keyword_is_word:
  assumes "map to_lower kw = map to_lower target" and "kw \<noteq> []" and "\<forall>c \<in> set kw. is_alnum c"
    and "rest = [] \<or> \<not> ident_char (hd rest)"
  shows "first_keyword_is (kw @ rest) target"
proof -
  obtain k ks where k: "kw = k # ks" using assms(2) by (cases kw) auto
  have "is_alnum k" using assms(3) k by simp
  then have "\<not> is_space k" "k \<noteq> CHR ''-''" "k \<noteq> CHR ''#''" "k \<noteq> CHR ''/''"
    by (auto simp: is_alnum_def is_digit_def is_lower_def is_upper_def is_space_def)
  moreover have "takeWhile ident_char rest = []"
    using assms(4) by (cases rest) auto
  then have "takeWhile ident_char (kw @ rest) = kw"
    using assms(3) by (simp add: takeWhile_append2 ident_char_def)
  ultimately show ?thesis
    using assms(1) by (simp add: k eq_ignore_ascii_case_def)
qed

text \<open>Statements whose body cannot be inspected do not get past the guard: if the trimmed input
  is a blank prefix (white space, line and block comments in any number and order) followed
  by \<open>DO\<close> or \<open>LOAD\<close> in any capitalisation as a whole word, parsing ends in a rejection or in
  one of the two input-size checks made before it, whatever the SQL parser would say.\<close>

theorem opaque_statements_rejected:
  assumes "trim sql = b @ kw @ rest" and "blank b"
    and "map to_lower kw \<in> {''do'', ''load''}" and "\<forall>c \<in> set kw. is_alnum c"
    and "rest = [] \<or> \<not> ident_char (hd rest)"
  shows "parse_statements parse_sql sql dialect \<in> {Inl PeNullBytes, Inl PeTooLarge,
     Inl (PeRejected ''DO statements are not allowed; body content cannot be inspected''),
     Inl (PeRejected ''LOAD DATA is not allowed'')}"
proof -
  have low: "map to_lower ''DO'' = ''do''" "map to_lower ''LOAD'' = ''load''"
    by code_simp+
  have "kw \<noteq> []" using assms(3) by auto
  then have "first_keyword_is (kw @ rest) ''DO'' \<or> first_keyword_is (kw @ rest) ''LOAD''"
    using first_keyword_is_word [OF _ _ assms(4,5)] assms(3) low by (metis insertE singletonD)
  then have "first_keyword_is (trim sql) ''DO'' \<or> first_keyword_is (trim sql) ''LOAD''"
    by (simp only: assms(1) first_keyword_is_blank [OF assms(2)])
  then show ?thesis
    by (auto simp: parse_statements_def Let_def)
qed

theorem opaque_statements_rejected_witness:
  "parse_statements (\<lambda>_ _. None) ''/* x */ do $$'' PostgreSql
   \<in> {Inl PeNullBytes, Inl PeTooLarge,
     Inl (PeRejected ''DO statements are not allowed; body content cannot be inspected''),
     Inl (PeRejected ''LOAD DATA is not allowed'')}"
proof (rule opaque_statements_rejected [of _ "''/* x */ ''" "''do''" "'' $$''"])
  show "trim ''/* x */ do $$'' = ''/* x */ '' @ ''do'' @ '' $$''"
    by (simp add: trim_def ws_seqs_def strip_one_def trim_front.simps)
  have "blank (''/*'' @ '' x '' @ ''*/'' @ '' '')"
    by (intro blank.intros) (auto simp: sublist_code is_space_def)
  then show "blank ''/* x */ ''" by simp
qed (simp_all add: to_lower_def is_upper_def is_alnum_def is_lower_def ident_char_def is_digit_def)

lemma to_lower_examples:
  "to_lower CHR ''D'' = CHR ''d''" "to_lower CHR ''O'' = CHR ''o''" "to_lower CHR ''L'' = CHR ''l''"
  "to_lower CHR ''A'' = CHR ''a''"
  by code_simp+

text \<open>Block comments do nest in PostgreSQL, but not for the scanner: a nested comment in front
  of \<open>DO\<close> hides the keyword, so that an input the SQL parser does not understand is reported
  as an ordinary parse failure instead of being rejected.\<close>

theorem nested_comment_hides_keyword:
  "\<not> first_keyword_is ''/* /* */ */ DO $$ body $$'' ''DO''
   \<and> parse_statements (\<lambda>_ _. None) ''/* /* */ */ DO $$ body $$'' PostgreSql = Inl PeParseFailed
   \<and> parse_statements (\<lambda>_ _. None) ''/* */ DO $$ body $$'' PostgreSql
     = Inl (PeRejected ''DO statements are not allowed; body content cannot be inspected'')"
  by (simp add: parse_statements_def trim_def ws_seqs_def strip_one_def trim_front.simps
      is_space_def ident_char_def is_alnum_def is_digit_def is_lower_def is_upper_def
      eq_ignore_ascii_case_def to_lower_examples MAX_SQL_BYTES_def contains_opaque_keyword_def
      split_char_def)

end
