(* ===== verification/Sql_Classifier.thy ===== *)
theory Sql_Classifier
  imports Sql
begin

text \<open>
  Classification of SQL batches (\<open>services/classification.rs\<close>, \<open>services/sql_classifier.rs\<close>):
  the class of a statement, the escalation over a batch, the restriction on multi-statement
  reads, and the categories of the break-glass bypass. The lemmas relate the classes to an
  independent description of read-only statements and the categories to the classes.
\<close>

subsection \<open>Result types\<close>

datatype dml_reason = DrStatement | DrDdl | DrDestructiveDdl | DrDangerousFunction
  | DrSemanticEscalation | DrUnknownStatement | DrParseFailure

record classification =
  cl_operation :: operation
  cl_dml_reason :: "dml_reason option"
  cl_statement_count :: nat
  cl_statements :: "string list"
  cl_is_ddl_only :: bool
  cl_contains_ddl :: bool

datatype classify_error = CeRejected string | CeEmpty

datatype statement_category = CatReadOnly | CatDml | CatSafeDdl | CatBreakGlassDdl
  | CatPrivilegeDdl | CatTxControl | CatSecurityBoundary | CatCodeExecution | CatUnknown

definition is_break_glass_eligible :: "statement_category \<Rightarrow> bool" where
  "is_break_glass_eligible c \<longleftrightarrow> c = CatBreakGlassDdl \<or> c = CatSafeDdl"

subsection \<open>Classes and escalation\<close>

datatype internal_class = IcSelect | IcDml dml_reason | IcRejected string

fun is_rejected :: "internal_class \<Rightarrow> bool" where
  "is_rejected (IcRejected _) = True"
| "is_rejected _ = False"

definition escalate :: "internal_class \<Rightarrow> internal_class \<Rightarrow> internal_class" where
  "escalate a b =
     (if is_rejected a then a else if is_rejected b then b
      else if a = IcDml DrStatement then a else if b = IcDml DrStatement then b
      else if a = IcDml DrDangerousFunction then a else if b = IcDml DrDangerousFunction then b
      else if a = IcDml DrSemanticEscalation then a else if b = IcDml DrSemanticEscalation then b
      else if a = IcDml DrUnknownStatement then a else if b = IcDml DrUnknownStatement then b
      else if a = IcDml DrParseFailure then a else if b = IcDml DrParseFailure then b
      else if a = IcDml DrDestructiveDdl then a else if b = IcDml DrDestructiveDdl then b
      else if a = IcDml DrDdl then a else if b = IcDml DrDdl then b
      else a)"

definition SAFE_SET_VARIABLES :: "string list" where
  "SAFE_SET_VARIABLES =
     [''statement_timeout'', ''lock_timeout'', ''idle_in_transaction_session_timeout'', ''timezone'',
      ''datestyle'', ''client_encoding'', ''application_name'', ''extra_float_digits'', ''autocommit'',
      ''sql_mode'', ''character_set_client'', ''wait_timeout'']"

definition DANGEROUS_FUNCTIONS :: "string list" where
  "DANGEROUS_FUNCTIONS =
     [''dblink'', ''dblink_exec'', ''dblink_connect'', ''lo_export'', ''lo_import'', ''lo_unlink'',
      ''lo_create'', ''lo_creat'', ''lo_from_bytea'', ''lo_put'', ''lo_truncate'', ''lo_truncate64'',
      ''lowrite'', ''pg_read_file'', ''pg_read_binary_file'', ''pg_ls_dir'',
      ''pg_execute_server_program'', ''copy_to'', ''copy_from'', ''set_config'',
      ''pg_cancel_backend'', ''pg_terminate_backend'', ''pg_sleep'', ''pg_advisory_lock'',
      ''pg_advisory_xact_lock'', ''pg_notify'', ''nextval'', ''setval'', ''sys_exec'', ''sys_eval'',
      ''load_file'', ''sleep'', ''benchmark'', ''get_lock'', ''release_lock'', ''release_all_locks'',
      ''is_free_lock'', ''is_used_lock'']"

text \<open>Case mapping is the ASCII one; the listed names are ASCII.\<close>

definition set_var_name :: "string list \<Rightarrow> string" where
  "set_var_name parts = join ''.'' (map (map to_lower) parts)"

definition safe_set_variable :: "string \<Rightarrow> bool" where
  "safe_set_variable var_name = list_ex (\<lambda>s. eq_ignore_ascii_case s var_name) SAFE_SET_VARIABLES"

definition starts_with_dml :: "string \<Rightarrow> bool" where
  "starts_with_dml s =
     (let u = map to_upper s
      in prefix ''DELETE'' u \<or> prefix ''INSERT'' u \<or> prefix ''UPDATE'' u)"

text \<open>A query in parentheses prints with its opening parenthesis first, so no text test applies to it.\<close>

fun set_expr_contains_dml :: "set_expr \<Rightarrow> bool" where
  "set_expr_contains_dml SeInsert = True"
| "set_expr_contains_dml SeUpdate = True"
| "set_expr_contains_dml (SeSetOperation l r) = (set_expr_contains_dml l \<or> set_expr_contains_dml r)"
| "set_expr_contains_dml (SeSelect i s) = starts_with_dml s"
| "set_expr_contains_dml (SeQuery q) = False"
| "set_expr_contains_dml (SeOther s) = starts_with_dml s"

definition query_contains_dml :: "query \<Rightarrow> bool" where
  "query_contains_dml q =
     (case q_body q of
        SeInsert \<Rightarrow> True
      | SeUpdate \<Rightarrow> True
      | SeSetOperation l r \<Rightarrow> set_expr_contains_dml l \<or> set_expr_contains_dml r
      | SeSelect i s \<Rightarrow> starts_with_dml s
      | SeQuery _ \<Rightarrow> False
      | SeOther s \<Rightarrow> starts_with_dml s)"

definition function_name :: "string option list \<Rightarrow> string" where
  "function_name parts =
     (if parts = [] then [] else case List.last parts of None \<Rightarrow> [] | Some v \<Rightarrow> map to_lower v)"

definition query_has_dangerous_function :: "query \<Rightarrow> bool" where
  "query_has_dangerous_function q =
     list_ex (\<lambda>parts. function_name parts \<in> set DANGEROUS_FUNCTIONS) (q_visited_functions q)"

definition query_has_lock_clause :: "query \<Rightarrow> bool" where
  "query_has_lock_clause q = list_ex (\<lambda>n. n \<noteq> 0) (q_visited_locks q)"

definition select_into :: "set_expr \<Rightarrow> bool" where
  "select_into e = (case e of SeSelect i s \<Rightarrow> i | _ \<Rightarrow> False)"

definition classify_query_node :: "query \<Rightarrow> internal_class" where
  "classify_query_node q =
     (let result = IcSelect;
          result = (if select_into (q_body q) then escalate result (IcDml DrSemanticEscalation) else result);
          result = (case q_with q of
              Some ctes \<Rightarrow> if list_ex query_contains_dml ctes
                then escalate result (IcDml DrSemanticEscalation) else result
            | None \<Rightarrow> result);
          result = (if query_has_dangerous_function q
                    then escalate result (IcDml DrDangerousFunction) else result);
          result = (if query_has_lock_clause q
                    then escalate result (IcDml DrSemanticEscalation) else result)
      in result)"

definition rejected_set_variable :: "string \<Rightarrow> internal_class" where
  "rejected_set_variable var_name =
     IcRejected (''SET '' @ var_name @ '' is not allowed. Allowed: '' @ join '', '' SAFE_SET_VARIABLES)"

fun classify_assignments :: "string list list \<Rightarrow> internal_class" where
  "classify_assignments [] = IcSelect"
| "classify_assignments (a # as) =
     (let var_name = set_var_name a
      in if \<not> safe_set_variable var_name then rejected_set_variable var_name
         else classify_assignments as)"

fun classify_set :: "set_kind \<Rightarrow> internal_class" where
  "classify_set (SetSingle variable) =
     (let var_name = set_var_name variable
      in if safe_set_variable var_name then IcSelect else rejected_set_variable var_name)"
| "classify_set SetRole = IcRejected ''SET ROLE is not allowed''"
| "classify_set SetSessionAuthorization = IcRejected ''SET SESSION AUTHORIZATION is not allowed''"
| "classify_set SetTransaction = IcRejected ''SET TRANSACTION is not allowed''"
| "classify_set SetTimeZone = IcSelect"
| "classify_set SetNames = IcSelect"
| "classify_set SetNamesDefault = IcSelect"
| "classify_set (SetMultiple assignments) = classify_assignments assignments"
| "classify_set SetOther = IcRejected ''unsupported SET variant''"

definition ddl_rejected :: internal_class where
  "ddl_rejected = IcRejected
     (''DDL statements (GRANT, REVOKE, CREATE ROLE/FUNCTION/DATABASE/SCHEMA) are not allowed. Use '' @
      quoted ''dbward migrate create <name>'' @ '' to generate a migration file, then '' @
      quoted ''dbward migrate up'' @ ''.'')"

definition drop_rejected :: internal_class where
  "drop_rejected = IcRejected
     (''DDL statements (DROP SCHEMA/DATABASE/ROLE, GRANT, REVOKE, CREATE ROLE/FUNCTION) are not allowed. Use '' @
      quoted ''dbward migrate create <name>'' @ '' to generate a migration file, then '' @
      quoted ''dbward migrate up'' @ ''.'')"

fun tx_rejected :: "tx_kind \<Rightarrow> internal_class" where
  "tx_rejected StartTransaction = IcRejected
     ''transaction control (BEGIN) is not allowed; each request is an independent execution unit''"
| "tx_rejected Commit = IcRejected ''transaction control (COMMIT) is not allowed''"
| "tx_rejected Rollback = IcRejected ''transaction control (ROLLBACK) is not allowed''"
| "tx_rejected Savepoint = IcRejected ''transaction control (SAVEPOINT) is not allowed''"

definition destructive_object :: "object_type \<Rightarrow> bool" where
  "destructive_object t \<longleftrightarrow> t \<in> {OTable, OView, OIndex, OSequence}"

fun classify_statement :: "statement \<Rightarrow> internal_class" where
  "classify_statement (StQuery q) = classify_query_node q"
| "classify_statement (StExplain analyze s) = (if analyze then classify_statement s else IcSelect)"
| "classify_statement StExplainTable = IcSelect"
| "classify_statement (StShow _) = IcSelect"
| "classify_statement StInsert = IcDml DrStatement"
| "classify_statement (StUpdate _) = IcDml DrStatement"
| "classify_statement (StDelete _) = IcDml DrStatement"
| "classify_statement StMerge = IcDml DrStatement"
| "classify_statement StCopy = IcDml DrStatement"
| "classify_statement StCall = IcDml DrStatement"
| "classify_statement StTruncate = IcDml DrDestructiveDdl"
| "classify_statement StExecute = IcDml DrUnknownStatement"
| "classify_statement (StSet k) = classify_set k"
| "classify_statement StNotify = IcDml DrStatement"
| "classify_statement StListen = IcDml DrStatement"
| "classify_statement (StTx k) = tx_rejected k"
| "classify_statement StLockTables = IcRejected ''LOCK TABLE is not allowed''"
| "classify_statement (StCreateTable _ _) = IcDml DrDdl"
| "classify_statement (StCreateView _) = IcDml DrDdl"
| "classify_statement (StCreateIndex _) = IcDml DrDdl"
| "classify_statement (StAlterTable _) = IcDml DrDdl"
| "classify_statement (StPrivilege _) = ddl_rejected"
| "classify_statement StCreateFunction = ddl_rejected"
| "classify_statement StCreateProcedure = ddl_rejected"
| "classify_statement (StDrop t) = (if destructive_object t then IcDml DrDestructiveDdl else drop_rejected)"
| "classify_statement StCreateSequence = IcDml DrDestructiveDdl"
| "classify_statement StLoadData = IcRejected ''LOAD DATA is not allowed''"
| "classify_statement StOther = IcDml DrUnknownStatement"

fun is_result_producing :: "statement \<Rightarrow> bool" where
  "is_result_producing (StQuery _) = True"
| "is_result_producing (StShow _) = True"
| "is_result_producing StExplainTable = True"
| "is_result_producing (StExplain _ _) = True"
| "is_result_producing _ = False"

subsection \<open>Batches\<close>

fun check_result_sets :: "bool \<Rightarrow> parsed_statement list \<Rightarrow> classify_error + unit" where
  "check_result_sets found [] = Inr ()"
| "check_result_sets found (s # ss) =
     (if is_result_producing (st_kind s) then
        if found
        then Inl (CeRejected (''multi-statement queries with multiple result sets are not '' @
          ''supported; submit each query separately''))
        else check_result_sets True ss
      else if found
        then Inl (CeRejected (''in a multi-statement batch, only SET statements are allowed '' @
          ''before the query; no statements may follow it''))
      else check_result_sets found ss)"

definition is_ddl_class :: "internal_class \<Rightarrow> bool" where
  "is_ddl_class c \<longleftrightarrow> c = IcDml DrDdl \<or> c = IcDml DrDestructiveDdl"

definition worst_class :: "parsed_statement list \<Rightarrow> internal_class" where
  "worst_class stmts = foldl (\<lambda>worst s. escalate worst (classify_statement (st_kind s))) IcSelect stmts"

definition classify_statements :: "parsed_statement list \<Rightarrow> classify_error + classification" where
  "classify_statements stmts =
     (let stmt_strings = map st_text stmts;
          worst = worst_class stmts;
          has_ddl = list_ex (\<lambda>s. is_ddl_class (classify_statement (st_kind s))) stmts
      in tryE (if worst = IcSelect \<and> length stmts > 1 then check_result_sets False stmts else Inr ()) (\<lambda>_.
         case worst of
           IcSelect \<Rightarrow> Inr \<lparr> cl_operation = ExecuteSelect, cl_dml_reason = None,
             cl_statement_count = length stmt_strings, cl_statements = stmt_strings,
             cl_is_ddl_only = False, cl_contains_ddl = False \<rparr>
         | IcDml reason \<Rightarrow> Inr \<lparr> cl_operation = ExecuteDml, cl_dml_reason = Some reason,
             cl_statement_count = length stmt_strings, cl_statements = stmt_strings,
             cl_is_ddl_only = (reason = DrDdl \<or> reason = DrDestructiveDdl), cl_contains_ddl = has_ddl \<rparr>
         | IcRejected reason \<Rightarrow> Inl (CeRejected reason)))"

definition parse_failure_classification :: "string \<Rightarrow> classification" where
  "parse_failure_classification sql =
     \<lparr> cl_operation = ExecuteDml, cl_dml_reason = Some DrParseFailure, cl_statement_count = 1,
       cl_statements = [trim sql], cl_is_ddl_only = False, cl_contains_ddl = False \<rparr>"

definition too_large_message :: string where
  "too_large_message = ''query exceeds maximum size of 1048576 bytes''"

definition too_many_message :: string where
  "too_many_message = ''query exceeds maximum of 100 statements''"

definition classify :: "sql_lib \<Rightarrow> string \<Rightarrow> dialect \<Rightarrow> classify_error + classification" where
  "classify parse_sql sql dialect =
     (case parse_statements parse_sql sql dialect of
        Inr stmts \<Rightarrow> classify_statements stmts
      | Inl PeEmpty \<Rightarrow> Inl CeEmpty
      | Inl PeNullBytes \<Rightarrow> Inl (CeRejected ''query contains null bytes'')
      | Inl PeTooLarge \<Rightarrow> Inl (CeRejected too_large_message)
      | Inl PeTooManyStatements \<Rightarrow> Inl (CeRejected too_many_message)
      | Inl (PeRejected reason) \<Rightarrow> Inl (CeRejected reason)
      | Inl PeParseFailed \<Rightarrow> Inr (parse_failure_classification sql))"

subsection \<open>Break-glass categories\<close>

fun categorize_assignments :: "string list list \<Rightarrow> statement_category" where
  "categorize_assignments [] = CatReadOnly"
| "categorize_assignments (a # as) =
     (if \<not> safe_set_variable (set_var_name a) then CatSecurityBoundary else categorize_assignments as)"

fun categorize_set :: "set_kind \<Rightarrow> statement_category" where
  "categorize_set (SetSingle variable) =
     (if safe_set_variable (set_var_name variable) then CatReadOnly else CatSecurityBoundary)"
| "categorize_set SetRole = CatSecurityBoundary"
| "categorize_set SetSessionAuthorization = CatSecurityBoundary"
| "categorize_set SetTransaction = CatSecurityBoundary"
| "categorize_set SetTimeZone = CatReadOnly"
| "categorize_set SetNames = CatReadOnly"
| "categorize_set SetNamesDefault = CatReadOnly"
| "categorize_set (SetMultiple assignments) = categorize_assignments assignments"
| "categorize_set SetOther = CatSecurityBoundary"

fun categorize_statement :: "statement \<Rightarrow> statement_category" where
  "categorize_statement (StQuery _) = CatReadOnly"
| "categorize_statement (StExplain analyze s) = (if analyze then categorize_statement s else CatReadOnly)"
| "categorize_statement StExplainTable = CatReadOnly"
| "categorize_statement (StShow _) = CatReadOnly"
| "categorize_statement StInsert = CatDml"
| "categorize_statement (StUpdate _) = CatDml"
| "categorize_statement (StDelete _) = CatDml"
| "categorize_statement StMerge = CatDml"
| "categorize_statement StCopy = CatDml"
| "categorize_statement StCall = CatDml"
| "categorize_statement StTruncate = CatBreakGlassDdl"
| "categorize_statement StExecute = CatDml"
| "categorize_statement (StSet k) = categorize_set k"
| "categorize_statement StNotify = CatDml"
| "categorize_statement StListen = CatDml"
| "categorize_statement (StTx _) = CatTxControl"
| "categorize_statement StLockTables = CatSecurityBoundary"
| "categorize_statement (StCreateTable _ _) = CatSafeDdl"
| "categorize_statement (StCreateView _) = CatSafeDdl"
| "categorize_statement (StCreateIndex _) = CatSafeDdl"
| "categorize_statement (StAlterTable _) = CatSafeDdl"
| "categorize_statement (StPrivilege _) = CatPrivilegeDdl"
| "categorize_statement StCreateFunction = CatCodeExecution"
| "categorize_statement StCreateProcedure = CatCodeExecution"
| "categorize_statement (StDrop t) = (if destructive_object t then CatBreakGlassDdl else CatPrivilegeDdl)"
| "categorize_statement StCreateSequence = CatBreakGlassDdl"
| "categorize_statement StLoadData = CatCodeExecution"
| "categorize_statement StOther = CatUnknown"

record classify_result =
  cr_classification :: "classify_error + classification"
  cr_parsed_statements :: "parsed_statement list option"
  cr_categories :: "statement_category list"

definition classify_failed :: "classify_error + classification \<Rightarrow> classify_result" where
  "classify_failed c = \<lparr> cr_classification = c, cr_parsed_statements = None, cr_categories = [] \<rparr>"

definition classify_full :: "sql_lib \<Rightarrow> string \<Rightarrow> dialect \<Rightarrow> classify_result" where
  "classify_full parse_sql sql dialect =
     (case parse_statements parse_sql sql dialect of
        Inr stmts \<Rightarrow>
          \<lparr> cr_classification = classify_statements stmts, cr_parsed_statements = Some stmts,
            cr_categories = map (\<lambda>s. categorize_statement (st_kind s)) stmts \<rparr>
      | Inl PeEmpty \<Rightarrow> classify_failed (Inl CeEmpty)
      | Inl PeParseFailed \<Rightarrow> classify_failed (Inr (parse_failure_classification sql))
      | Inl PeNullBytes \<Rightarrow> classify_failed (Inl (CeRejected ''query contains null bytes''))
      | Inl PeTooLarge \<Rightarrow> classify_failed (Inl (CeRejected too_large_message))
      | Inl PeTooManyStatements \<Rightarrow> classify_failed (Inl (CeRejected too_many_message))
      | Inl (PeRejected reason) \<Rightarrow> classify_failed (Inl (CeRejected reason)))"

fun is_add_column :: "alter_operation \<Rightarrow> bool" where
  "is_add_column (AtAddColumn _) = True"
| "is_add_column _ = False"

fun is_safe_ddl_statement :: "statement \<Rightarrow> dialect option \<Rightarrow> bool" where
  "is_safe_ddl_statement (StCreateTable or_replace has_query) d = (\<not> or_replace \<and> \<not> has_query)"
| "is_safe_ddl_statement (StCreateIndex concurrently) d = (d = Some PostgreSql \<and> concurrently)"
| "is_safe_ddl_statement (StCreateView or_replace) d = (\<not> or_replace)"
| "is_safe_ddl_statement (StAlterTable ops) d = (d = Some PostgreSql \<and> list_all is_add_column ops)"
| "is_safe_ddl_statement _ d = False"

subsection \<open>Escalation picks the gravest class\<close>

fun class_rank :: "internal_class \<Rightarrow> nat" where
  "class_rank IcSelect = 0"
| "class_rank (IcDml DrDdl) = 1"
| "class_rank (IcDml DrDestructiveDdl) = 2"
| "class_rank (IcDml DrParseFailure) = 3"
| "class_rank (IcDml DrUnknownStatement) = 4"
| "class_rank (IcDml DrSemanticEscalation) = 5"
| "class_rank (IcDml DrDangerousFunction) = 6"
| "class_rank (IcDml DrStatement) = 7"
| "class_rank (IcRejected _) = 8"

lemma escalate_rank: "escalate a b = (if class_rank a < class_rank b then b else a)"
  by (cases a rule: class_rank.cases; cases b rule: class_rank.cases) (simp_all add: escalate_def)

lemma class_rank_zero [simp]: "class_rank c = 0 \<longleftrightarrow> c = IcSelect"
  by (cases c rule: class_rank.cases) simp_all

lemma worst_foldl:
  "foldl (\<lambda>w s. escalate w (f s)) a ss \<in> insert a (f ` set ss)
   \<and> (\<forall>c \<in> insert a (f ` set ss). class_rank c \<le> class_rank (foldl (\<lambda>w s. escalate w (f s)) a ss))"
proof (induction ss arbitrary: a)
  case Nil
  then show ?case by simp
next
  case (Cons s ss)
  from Cons.IH [of "escalate a (f s)"] show ?case
    by (auto simp: escalate_rank split: if_splits intro: order_trans less_imp_le)
qed

lemma worst_class_rank: "s \<in> set stmts \<Longrightarrow> class_rank (classify_statement (st_kind s)) \<le> class_rank (worst_class stmts)"
  unfolding worst_class_def using worst_foldl [of "\<lambda>s. classify_statement (st_kind s)" IcSelect stmts] by blast

lemma worst_class_in: "worst_class stmts \<noteq> IcSelect \<Longrightarrow> \<exists>s \<in> set stmts. worst_class stmts = classify_statement (st_kind s)"
  unfolding worst_class_def using worst_foldl [of "\<lambda>s. classify_statement (st_kind s)" IcSelect stmts] by blast

lemma worst_class_Select: "worst_class stmts = IcSelect \<longleftrightarrow> (\<forall>s \<in> set stmts. classify_statement (st_kind s) = IcSelect)"
  by (metis class_rank_zero le_zero_eq worst_class_in worst_class_rank)

lemma classify_statements_Dml:
  assumes "classify_statements stmts = Inr c" and "cl_dml_reason c = Some reason"
  shows "worst_class stmts = IcDml reason"
  using assms by (auto simp: classify_statements_def Let_def res_simps split: internal_class.splits)

lemma worst_class_rejected:
  assumes "s \<in> set stmts" and "is_rejected (classify_statement (st_kind s))"
  shows "\<exists>r. worst_class stmts = IcRejected r"
proof -
  have "8 \<le> class_rank (worst_class stmts)"
    using worst_class_rank [OF assms(1)] assms(2) by (cases "classify_statement (st_kind s)") auto
  then show ?thesis by (cases "worst_class stmts" rule: class_rank.cases) auto
qed

text \<open>The verdict on a batch is its gravest statement, whatever the order: a rejected statement
  anywhere rejects the batch with the reason of a rejected statement, and otherwise the
  reported reason of a modifying batch is the reason of one of its statements, and no
  statement has a graver one.\<close>

theorem classification_is_gravest:
  "((\<exists>s. s \<in> set stmts \<and> is_rejected (classify_statement (st_kind s))) \<longrightarrow>
     (\<exists>s r. s \<in> set stmts \<and> classify_statement (st_kind s) = IcRejected r
        \<and> classify_statements stmts = Inl (CeRejected r)))
   \<and> (classify_statements stmts = Inr c \<and> cl_dml_reason c = Some reason \<longrightarrow>
     (\<exists>s. s \<in> set stmts \<and> classify_statement (st_kind s) = IcDml reason)
     \<and> (\<forall>s. s \<in> set stmts \<longrightarrow> class_rank (classify_statement (st_kind s)) \<le> class_rank (IcDml reason)))"
proof (intro conjI impI)
  assume "\<exists>s. s \<in> set stmts \<and> is_rejected (classify_statement (st_kind s))"
  then obtain r where r: "worst_class stmts = IcRejected r" using worst_class_rejected by blast
  moreover obtain s where "s \<in> set stmts" "classify_statement (st_kind s) = IcRejected r"
    using worst_class_in [of stmts] r by auto
  moreover have "classify_statements stmts = Inl (CeRejected r)"
    using r by (simp add: classify_statements_def)
  ultimately show "\<exists>s r. s \<in> set stmts \<and> classify_statement (st_kind s) = IcRejected r
        \<and> classify_statements stmts = Inl (CeRejected r)" by blast
next
  assume "classify_statements stmts = Inr c \<and> cl_dml_reason c = Some reason"
  then have w: "worst_class stmts = IcDml reason" using classify_statements_Dml by blast
  then show "\<exists>s. s \<in> set stmts \<and> classify_statement (st_kind s) = IcDml reason"
    using worst_class_in [of stmts] by auto
  show "\<forall>s. s \<in> set stmts \<longrightarrow> class_rank (classify_statement (st_kind s)) \<le> class_rank (IcDml reason)"
    using worst_class_rank [of _ stmts] w by auto
qed

definition example_stmt :: "statement \<Rightarrow> parsed_statement" where
  "example_stmt k = \<lparr> st_text = ''x'', st_in_lists = [], st_kind = k \<rparr>"

theorem classification_is_gravest_witness:
  "\<exists>r. classify_statements [example_stmt StInsert, example_stmt StCreateFunction, example_stmt StTruncate]
     = Inl (CeRejected r)"
proof -
  let ?b = "[example_stmt StInsert, example_stmt StCreateFunction, example_stmt StTruncate]"
  have "example_stmt StCreateFunction \<in> set ?b
    \<and> is_rejected (classify_statement (st_kind (example_stmt StCreateFunction)))"
    by (simp add: example_stmt_def ddl_rejected_def)
  then show ?thesis using classification_is_gravest [of ?b] by blast
qed

subsection \<open>Read-only batches\<close>

text \<open>What counts as a read, described on the syntax tree and without the classifier. A query writes if
  its body is a modification, creates a table by \<open>INTO\<close> (also as an arm of a set operation), or is
  a writing query in parentheses, or if one of its common table expressions writes. Modifications
  other than \<open>INSERT\<close> and \<open>UPDATE\<close> are known by the verb their text begins with.\<close>

definition begins_with :: "string set \<Rightarrow> string \<Rightarrow> bool" where
  "begins_with verbs s \<longleftrightarrow> (\<exists>v rest. s = v @ rest \<and> map to_upper v \<in> verbs)"

inductive writes_body :: "set_expr \<Rightarrow> bool" and writes_query :: "query \<Rightarrow> bool" where
  writes_insert: "writes_body SeInsert"
| writes_update: "writes_body SeUpdate"
| writes_verb: "begins_with {''DELETE'', ''INSERT'', ''UPDATE'', ''MERGE''} s \<Longrightarrow> writes_body (SeOther s)"
| writes_into: "writes_body (SeSelect True s)"
| writes_left: "writes_body l \<Longrightarrow> writes_body (SeSetOperation l r)"
| writes_right: "writes_body r \<Longrightarrow> writes_body (SeSetOperation l r)"
| writes_parens: "writes_query q \<Longrightarrow> writes_body (SeQuery q)"
| writes_own: "writes_body (q_body q) \<Longrightarrow> writes_query q"
| writes_cte: "q_with q = Some ctes \<Longrightarrow> c \<in> set ctes \<Longrightarrow> writes_query c \<Longrightarrow> writes_query q"

inductive_simps writes_body_simps: "writes_body SeInsert" "writes_body SeUpdate" "writes_body (SeOther s)"
  "writes_body (SeSelect i s)" "writes_body (SeSetOperation l r)" "writes_body (SeQuery q)"

inductive_simps writes_query_iff: "writes_query q"

text \<open>Functions with effects beyond reading rows, by what they touch.\<close>

definition remote_functions :: "string set" where
  "remote_functions = {''dblink'', ''dblink_exec'', ''dblink_connect''}"

definition large_object_functions :: "string set" where
  "large_object_functions = {''lo_export'', ''lo_import'', ''lo_unlink'', ''lo_create'', ''lo_creat'',
     ''lo_from_bytea'', ''lo_put'', ''lo_truncate'', ''lo_truncate64'', ''lowrite''}"

definition host_functions :: "string set" where
  "host_functions = {''pg_read_file'', ''pg_read_binary_file'', ''pg_ls_dir'', ''pg_execute_server_program'',
     ''copy_to'', ''copy_from'', ''sys_exec'', ''sys_eval'', ''load_file''}"

definition session_functions :: "string set" where
  "session_functions = {''set_config'', ''pg_cancel_backend'', ''pg_terminate_backend'', ''pg_notify''}"

definition waiting_functions :: "string set" where
  "waiting_functions = {''pg_sleep'', ''sleep'', ''benchmark''}"

definition lock_functions :: "string set" where
  "lock_functions = {''pg_advisory_lock'', ''pg_advisory_xact_lock'', ''get_lock'', ''release_lock'',
     ''release_all_locks'', ''is_free_lock'', ''is_used_lock''}"

definition sequence_functions :: "string set" where
  "sequence_functions = {''nextval'', ''setval''}"

lemmas effectful_defs = remote_functions_def large_object_functions_def host_functions_def session_functions_def
  waiting_functions_def lock_functions_def sequence_functions_def

definition effectful :: "string set" where
  "effectful = remote_functions \<union> large_object_functions \<union> host_functions \<union> session_functions
     \<union> waiting_functions \<union> lock_functions \<union> sequence_functions"

text \<open>A call, perhaps qualified, of a function in any spelling of its name.\<close>

definition calls :: "query \<Rightarrow> string \<Rightarrow> bool" where
  "calls q f \<longleftrightarrow> (\<exists>qualifier v. qualifier @ [Some v] \<in> set (q_visited_functions q) \<and> map to_lower v = f)"

definition harmless :: "query \<Rightarrow> bool" where
  "harmless q \<longleftrightarrow> (\<forall>f \<in> effectful. \<not> calls q f) \<and> (\<forall>n \<in> set (q_visited_locks q). n = 0)"

text \<open>The session settings a request may change, as an unqualified name in any spelling.\<close>

definition settable :: "string set" where
  "settable = {''statement_timeout'', ''lock_timeout'', ''idle_in_transaction_session_timeout'', ''timezone'',
     ''datestyle'', ''client_encoding'', ''application_name'', ''extra_float_digits'', ''autocommit'',
     ''sql_mode'', ''character_set_client'', ''wait_timeout''}"

definition setting :: "string list \<Rightarrow> bool" where
  "setting parts \<longleftrightarrow> (\<exists>v. parts = [v] \<and> map to_lower v \<in> settable)"

inductive reads :: "statement \<Rightarrow> bool" where
  reads_query: "\<not> writes_query q \<Longrightarrow> harmless q \<Longrightarrow> reads (StQuery q)"
| reads_plan: "reads (StExplain False s)"
| reads_analyze: "reads s \<Longrightarrow> reads (StExplain True s)"
| reads_describe: "reads StExplainTable"
| reads_show: "reads (StShow k)"
| reads_set: "setting v \<Longrightarrow> reads (StSet (SetSingle v))"
| reads_set_many: "\<forall>v \<in> set vs. setting v \<Longrightarrow> reads (StSet (SetMultiple vs))"
| reads_set_session: "k \<in> {SetTimeZone, SetNames, SetNamesDefault} \<Longrightarrow> reads (StSet k)"

inductive_cases reads_cases: "reads s"

inductive_simps reads_StQuery: "reads (StQuery q)"

inductive_simps reads_StExplain: "reads (StExplain a s)"

inductive_simps reads_StSet: "reads (StSet k)"

text \<open>The places where the classifier looks for a modification: the body of a query may write only as a
  plain \<open>SELECT INTO\<close>, and the bodies of its common table expressions are set operations over
  \<open>SELECT\<close>, \<open>INSERT\<close>, \<open>UPDATE\<close> and other texts, without parentheses, \<open>INTO\<close>, \<open>MERGE\<close> and common
  table expressions of their own.\<close>

fun simple_body :: "set_expr \<Rightarrow> bool" where
  "simple_body (SeSelect i s) = (\<not> i \<and> \<not> begins_with {''DELETE'', ''INSERT'', ''UPDATE''} s)"
| "simple_body (SeOther s) = (\<not> begins_with {''MERGE''} s)"
| "simple_body (SeSetOperation l r) = (simple_body l \<and> simple_body r)"
| "simple_body (SeQuery _) = False"
| "simple_body SeInsert = True"
| "simple_body SeUpdate = True"

definition simple_ctes :: "query \<Rightarrow> bool" where
  "simple_ctes q \<longleftrightarrow> (\<forall>ctes c. q_with q = Some ctes \<and> c \<in> set ctes \<longrightarrow> simple_body (q_body c) \<and> q_with c = None)"

definition simple_query :: "query \<Rightarrow> bool" where
  "simple_query q \<longleftrightarrow> simple_ctes q \<and> (writes_body (q_body q) \<longrightarrow> (\<exists>s. q_body q = SeSelect True s))"

fun simple_statement :: "statement \<Rightarrow> bool" where
  "simple_statement (StQuery q) = simple_query q"
| "simple_statement (StExplain analyze s) = (analyze \<longrightarrow> simple_statement s)"
| "simple_statement _ = True"

lemma begins_with_iff: "begins_with verbs s \<longleftrightarrow> (\<exists>v \<in> verbs. prefix v (map to_upper s))"
proof
  assume "begins_with verbs s"
  then obtain v rest where "s = v @ rest" "map to_upper v \<in> verbs" by (auto simp: begins_with_def)
  then show "\<exists>v \<in> verbs. prefix v (map to_upper s)" by (intro bexI [of _ "map to_upper v"]) simp_all
next
  assume "\<exists>v \<in> verbs. prefix v (map to_upper s)"
  then obtain v where "v \<in> verbs" "prefix v (map to_upper s)" by blast
  then have "map to_upper (take (length v) s) = v" by (auto simp: prefix_def take_map [symmetric])
  with \<open>v \<in> verbs\<close> show "begins_with verbs s"
    unfolding begins_with_def by (intro exI [of _ "take (length v) s"] exI [of _ "drop (length v) s"]) simp
qed

lemma starts_with_dml_iff: "starts_with_dml s \<longleftrightarrow> begins_with {''DELETE'', ''INSERT'', ''UPDATE''} s"
  by (auto simp: starts_with_dml_def begins_with_iff Let_def)

lemma simple_body_dml: "simple_body e \<Longrightarrow> set_expr_contains_dml e \<longleftrightarrow> writes_body e"
  by (induction e rule: simple_body.induct) (auto simp: writes_body_simps starts_with_dml_iff begins_with_iff)

lemma query_contains_dml_body: "query_contains_dml q \<longleftrightarrow> set_expr_contains_dml (q_body q)"
  by (cases "q_body q") (simp_all add: query_contains_dml_def)

lemma simple_ctes_dml:
  assumes "simple_ctes q"
  shows "(\<exists>ctes. q_with q = Some ctes \<and> list_ex query_contains_dml ctes) \<or> writes_body (q_body q) \<longleftrightarrow> writes_query q"
proof -
  have "query_contains_dml c \<longleftrightarrow> writes_query c" if "q_with q = Some ctes" "c \<in> set ctes" for ctes c
    using that assms simple_body_dml [of "q_body c"]
    by (auto simp: simple_ctes_def query_contains_dml_body writes_query_iff [of c])
  then show ?thesis by (auto simp: writes_query_iff [of q] list_ex_iff)
qed

lemma effectful_dangerous: "effectful = set DANGEROUS_FUNCTIONS"
  by (auto simp: effectful_def effectful_defs DANGEROUS_FUNCTIONS_def)

lemma function_name_calls:
  assumes "f \<noteq> []"
  shows "function_name parts = f \<longleftrightarrow> (\<exists>qualifier v. parts = qualifier @ [Some v] \<and> map to_lower v = f)"
  using assms by (cases parts rule: rev_cases) (auto simp: function_name_def split: option.splits)

lemma dangerous_calls: "query_has_dangerous_function q \<longleftrightarrow> (\<exists>f \<in> effectful. calls q f)"
proof -
  have "[] \<notin> effectful" by (simp add: effectful_def effectful_defs)
  then have "function_name parts \<in> effectful \<longleftrightarrow>
      (\<exists>f \<in> effectful. \<exists>qualifier v. parts = qualifier @ [Some v] \<and> map to_lower v = f)" for parts
    using function_name_calls [of _ parts] by metis
  then show ?thesis
    by (auto simp: query_has_dangerous_function_def list_ex_iff calls_def simp flip: effectful_dangerous)
qed

lemma harmless_iff: "harmless q \<longleftrightarrow> \<not> query_has_dangerous_function q \<and> \<not> query_has_lock_clause q"
  by (auto simp: harmless_def dangerous_calls query_has_lock_clause_def list_ex_iff)

lemma classify_query_Select:
  "classify_query_node q = IcSelect \<longleftrightarrow> (\<forall>s. q_body q \<noteq> SeSelect True s)
     \<and> \<not> (\<exists>ctes. q_with q = Some ctes \<and> list_ex query_contains_dml ctes) \<and> harmless q"
proof -
  have "select_into (q_body q) \<longleftrightarrow> (\<exists>s. q_body q = SeSelect True s)"
    by (cases "q_body q") (simp_all add: select_into_def)
  then show ?thesis
    by (auto simp: classify_query_node_def harmless_iff escalate_rank Let_def split: option.splits)
qed

lemma simple_query_Select:
  assumes "simple_query q"
  shows "classify_query_node q = IcSelect \<longleftrightarrow> \<not> writes_query q \<and> harmless q"
  using assms simple_ctes_dml [of q]
  by (auto simp: classify_query_Select simple_query_def writes_body_simps)

lemma safe_set_variable_iff: "safe_set_variable (set_var_name parts) \<longleftrightarrow> setting parts"
proof -
  have set: "set SAFE_SET_VARIABLES = settable" by (auto simp: SAFE_SET_VARIABLES_def settable_def)
  have low: "map to_lower s = s" "CHR ''.'' \<notin> set s" "s \<noteq> []" if "s \<in> settable" for s
    using that by (auto simp: settable_def to_lower_def is_upper_def)
  have idem: "to_lower \<circ> to_lower = to_lower" by (auto simp: fun_eq_iff to_lower_def is_upper_def)
  consider "parts = []" | v where "parts = [v]" | v w vs where "parts = v # w # vs"
    by (metis list.exhaust)
  then show ?thesis
  proof cases
    case 3
    have "map to_lower (set_var_name parts) \<noteq> s" if "s \<in> settable" for s
    proof
      assume "map to_lower (set_var_name parts) = s"
      moreover have "CHR ''.'' \<in> set (map to_lower (set_var_name parts))"
        by (auto simp: 3 set_var_name_def to_lower_def is_upper_def intro!: rev_image_eqI)
      ultimately show False using low(2) [OF that] by blast
    qed
    then show ?thesis
      using low(1) by (auto simp: safe_set_variable_def list_ex_iff eq_ignore_ascii_case_def set setting_def 3)
  qed (use low idem in \<open>auto simp: safe_set_variable_def list_ex_iff eq_ignore_ascii_case_def set setting_def set_var_name_def\<close>)
qed

lemma classify_assignments_Select:
  "classify_assignments as = IcSelect \<longleftrightarrow> (\<forall>a \<in> set as. setting a)"
  by (induction as) (auto simp: Let_def rejected_set_variable_def safe_set_variable_iff)

lemma classify_set_Select: "classify_set k = IcSelect \<longleftrightarrow> reads (StSet k)"
  by (cases k) (auto simp: classify_assignments_Select rejected_set_variable_def Let_def safe_set_variable_iff reads_StSet)

lemma tx_rejected_not_Select [simp]: "tx_rejected k \<noteq> IcSelect" "tx_rejected k \<noteq> IcDml r"
  by (cases k; simp)+

lemma classify_statement_Select:
  "simple_statement s \<Longrightarrow> classify_statement s = IcSelect \<longleftrightarrow> reads s"
proof (induction s)
  case (StQuery q)
  then show ?case by (simp add: simple_query_Select reads_StQuery)
next
  case (StExplain analyze s)
  then show ?case by (auto simp: reads_StExplain)
next
  case (StSet k)
  then show ?case by (simp add: classify_set_Select)
qed (auto simp: ddl_rejected_def drop_rejected_def intro: reads.intros elim: reads_cases)

lemma check_result_sets_ok:
  "check_result_sets found ss = Inr () \<longleftrightarrow>
   (if found then ss = [] else (\<forall>s \<in> set (butlast ss). \<not> is_result_producing (st_kind s)))"
proof (induction ss arbitrary: found)
  case Nil
  then show ?case by simp
next
  case (Cons s ss)
  then show ?case by (cases ss) auto
qed

lemma classified_select_iff:
  "(\<exists>c. classify_statements stmts = Inr c \<and> cl_operation c = ExecuteSelect) \<longleftrightarrow>
   (\<forall>s \<in> set stmts. classify_statement (st_kind s) = IcSelect)
   \<and> (\<forall>s \<in> set (butlast stmts). \<not> is_result_producing (st_kind s))"
proof -
  have "length stmts \<le> 1 \<Longrightarrow> butlast stmts = []" by (cases stmts) auto
  then show ?thesis
    by (auto simp: classify_statements_def Let_def res_simps check_result_sets_ok
        simp flip: worst_class_Select split: internal_class.splits if_splits)
qed


text \<open>A common table expression that deletes, and one that does not.\<close>

definition cte_query :: "set_expr \<Rightarrow> set_expr \<Rightarrow> query" where
  "cte_query e body = Query body (Some [Query e None [0] []]) [0, 0] [[Some ''COUNT'']]"

definition select_body :: set_expr where
  "select_body = SeSelect False ''SELECT count(*) FROM x''"

definition delete_body :: set_expr where
  "delete_body = SeOther ''DELETE FROM users''"

lemma example_bodies [simp]:
  "\<not> writes_body select_body" "writes_body delete_body" "simple_body select_body" "simple_body delete_body"
  by (simp_all add: select_body_def delete_body_def writes_body_simps begins_with_iff to_upper_def is_lower_def)

lemma harmless_cte_query [simp]: "harmless (cte_query e b)"
proof -
  have "map to_lower ''COUNT'' = ''count''" by code_simp
  then show ?thesis by (auto simp: harmless_def cte_query_def calls_def effectful_def effectful_defs)
qed

lemma cte_query_simps [simp]:
  "writes_query (cte_query e b) \<longleftrightarrow> writes_body e \<or> writes_body b"
  "simple_ctes (cte_query e b) \<longleftrightarrow> simple_body e" "q_body (cte_query e b) = b"
  by (simp add: cte_query_def writes_query_iff [of "Query b _ _ _"] writes_query_iff [of "Query e _ _ _"], blast)
    (auto simp: cte_query_def simple_ctes_def)


text \<open>C31: A query whose body itself changes data is classified as a read, and so is run without the
  approval a modification needs: \<open>DELETE\<close>, \<open>INSERT\<close>, \<open>UPDATE\<close> or \<open>MERGE\<close> behind a \<open>WITH\<close> clause, which
  the SQL parser hands over as a query with that body, \<open>INTO\<close> in an arm of a set operation, and a writing
  query in parentheses. This holds for every such query other than a plain \<open>SELECT INTO\<close> whose
  common table expressions only read, which calls no function with effects and takes no lock.\<close>

theorem with_prefixed_dml_classified_read:
  assumes "writes_body (q_body q)" and "\<forall>s. q_body q \<noteq> SeSelect True s"
    and "simple_ctes q" and "\<forall>ctes c. q_with q = Some ctes \<and> c \<in> set ctes \<longrightarrow> \<not> writes_query c"
    and "harmless q" and "st_kind s = StQuery q"
  shows "\<not> reads (st_kind s) \<and> (\<exists>c. classify_statements [s] = Inr c \<and> cl_operation c = ExecuteSelect)"
proof
  show "\<not> reads (st_kind s)" using assms(1,6) by (auto simp: reads_StQuery intro: writes_own)
  have "\<not> (\<exists>ctes. q_with q = Some ctes \<and> list_ex query_contains_dml ctes)"
    using assms(3,4) simple_body_dml writes_own
    by (fastforce simp: list_ex_iff query_contains_dml_body simple_ctes_def)
  with assms(2,5,6) show "\<exists>c. classify_statements [s] = Inr c \<and> cl_operation c = ExecuteSelect"
    by (simp add: classified_select_iff classify_query_Select)
qed

theorem with_prefixed_dml_classified_read_witness:
  "\<not> reads (st_kind (example_stmt (StQuery (cte_query select_body delete_body))))
   \<and> (\<exists>c. classify_statements [example_stmt (StQuery (cte_query select_body delete_body))] = Inr c
      \<and> cl_operation c = ExecuteSelect)"
proof (rule with_prefixed_dml_classified_read [of "cte_query select_body delete_body"])
  have "\<not> writes_query (Query select_body None [0] [])" by (subst writes_query_iff) simp
  then show "\<forall>ctes c. q_with (cte_query select_body delete_body) = Some ctes \<and> c \<in> set ctes \<longrightarrow> \<not> writes_query c"
    by (auto simp: cte_query_def)
qed (simp_all add: example_stmt_def, simp add: delete_body_def)

subsection \<open>The break-glass bypass and the two entry points\<close>

lemma categorize_assignments_ineligible [simp]: "\<not> is_break_glass_eligible (categorize_assignments as)"
  by (induction as) (auto simp: is_break_glass_eligible_def)

lemma categorize_set_ineligible [simp]: "\<not> is_break_glass_eligible (categorize_set k)"
proof (cases k)
  case (SetMultiple as)
  then show ?thesis by simp
qed (simp_all add: is_break_glass_eligible_def)

lemma classify_query_not_ddl [simp]: "\<not> is_ddl_class (classify_query_node q)"
  by (auto simp: classify_query_node_def is_ddl_class_def escalate_rank Let_def split: option.splits)

lemma classify_assignments_not_dml [simp]: "classify_assignments as \<noteq> IcDml r"
  by (induction as) (auto simp: Let_def rejected_set_variable_def)

lemma classify_set_not_dml [simp]: "classify_set k \<noteq> IcDml r"
  by (cases k) (auto simp: Let_def rejected_set_variable_def)

lemma eligible_iff_ddl: "is_break_glass_eligible (categorize_statement s) \<longleftrightarrow> is_ddl_class (classify_statement s)"
proof (induction s)
  case (StQuery q)
  then show ?case by (simp add: is_break_glass_eligible_def)
next
  case (StSet k)
  then show ?case by (simp add: is_ddl_class_def)
qed (auto simp: is_break_glass_eligible_def is_ddl_class_def ddl_rejected_def drop_rejected_def)

text \<open>The emergency bypass for schema changes covers exactly the statements classified as
  schema changes; in particular no statement that the classifier rejects (privilege changes,
  transaction control, \<open>SET ROLE\<close>, code execution, locks) and no data modification or query
  is ever eligible for it.\<close>

theorem break_glass_eligibility_exact:
  "(is_break_glass_eligible (categorize_statement s) \<longleftrightarrow>
      classify_statement s \<in> {IcDml DrDdl, IcDml DrDestructiveDdl})
   \<and> \<not> (is_rejected (classify_statement s) \<and> is_break_glass_eligible (categorize_statement s))"
  using eligible_iff_ddl [of s] by (cases "classify_statement s") (auto simp: is_ddl_class_def)

text \<open>The two entry points agree: the extended classification returns the verdict of the plain
  one, its statement list is present exactly if parsing succeeded, and it has one category
  per parsed statement.\<close>

theorem classify_full_agrees:
  "cr_classification (classify_full p sql d) = classify p sql d
   \<and> (cr_parsed_statements (classify_full p sql d) =
        (case parse_statements p sql d of Inr stmts \<Rightarrow> Some stmts | Inl _ \<Rightarrow> None))
   \<and> length (cr_categories (classify_full p sql d)) =
        (case parse_statements p sql d of Inr stmts \<Rightarrow> length stmts | Inl _ \<Rightarrow> 0)"
  by (auto simp: classify_full_def classify_def classify_failed_def split: sum.splits parse_error.splits)

lemma classify_unparsed_never_select:
  assumes "parse_statements p sql d = Inl e" and "classify p sql d = Inr c"
  shows "e = PeParseFailed \<and> cl_operation c = ExecuteDml \<and> cl_dml_reason c = Some DrParseFailure"
  using assms by (auto simp: classify_def parse_failure_classification_def split: parse_error.splits)

lemma safe_ddl_class: "is_safe_ddl_statement s d \<Longrightarrow> classify_statement s = IcDml DrDdl"
  by (cases s) auto

end
