(* ===== verification/Risk.thy ===== *)
theory Risk
  imports Sql_Classifier Policies
begin

text \<open>
  SQL review and risk scoring (\<open>services/sql_reviewer.rs\<close>, \<open>services/risk_scorer.rs\<close>,
  \<open>services/fix_hints.rs\<close>). The lemmas characterise what the review reports and blocks, and
  give the exact level of the risk assessment.
\<close>

subsection \<open>Review rules\<close>

datatype rule_action = RaBlock | RaWarn | RaOff

datatype rule_id = NoWhereDelete | NoWhereUpdate | DropTable | DropColumn | DropIndex | DropView
  | DropSequence | RuleCreateSequence | NotNullWithoutDefault | CreateIndexNotConcurrently
  | AlterColumnType | Truncate | MixedDdlDml | LargeInList | ParseFailure

fun is_break_glass_bypassable :: "rule_id \<Rightarrow> bool" where
  "is_break_glass_bypassable NoWhereDelete = False"
| "is_break_glass_bypassable NoWhereUpdate = False"
| "is_break_glass_bypassable LargeInList = False"
| "is_break_glass_bypassable MixedDdlDml = False"
| "is_break_glass_bypassable ParseFailure = False"
| "is_break_glass_bypassable _ = True"

record finding =
  fd_rule :: rule_id
  fd_action :: rule_action
  fd_message :: string
  fd_statement_index :: nat

record review_result =
  rv_findings :: "finding list"
  rv_blocked :: bool

record review_rules =
  ru_no_where_delete :: rule_action
  ru_no_where_update :: rule_action
  ru_drop_table :: rule_action
  ru_drop_column :: rule_action
  ru_drop_index :: rule_action
  ru_drop_view :: rule_action
  ru_drop_sequence :: rule_action
  ru_create_sequence :: rule_action
  ru_not_null_without_default :: rule_action
  ru_create_index_not_concurrently :: rule_action
  ru_alter_column_type :: rule_action
  ru_truncate :: rule_action
  ru_mixed_ddl_dml :: rule_action
  ru_large_in_list :: rule_action

definition default_review_rules :: review_rules where
  "default_review_rules =
     \<lparr> ru_no_where_delete = RaBlock, ru_no_where_update = RaBlock, ru_drop_table = RaBlock,
       ru_drop_column = RaWarn, ru_drop_index = RaWarn, ru_drop_view = RaWarn,
       ru_drop_sequence = RaWarn, ru_create_sequence = RaOff, ru_not_null_without_default = RaWarn,
       ru_create_index_not_concurrently = RaWarn, ru_alter_column_type = RaWarn,
       ru_truncate = RaBlock, ru_mixed_ddl_dml = RaWarn, ru_large_in_list = RaWarn \<rparr>"

text \<open>The shape shared by the checks: nothing if the rule is off, one finding if the condition
  holds.\<close>

definition report_if :: "bool \<Rightarrow> rule_id \<Rightarrow> rule_action \<Rightarrow> string \<Rightarrow> nat \<Rightarrow> finding list" where
  "report_if c rule action msg idx =
     (if action = RaOff then [] else if c
      then [\<lparr> fd_rule = rule, fd_action = action, fd_message = msg, fd_statement_index = idx \<rparr>] else [])"

definition check_no_where_delete :: "statement \<Rightarrow> nat \<Rightarrow> rule_action \<Rightarrow> finding list" where
  "check_no_where_delete s idx action =
     report_if (s = StDelete False) NoWhereDelete action ''DELETE without WHERE clause'' idx"

definition check_no_where_update :: "statement \<Rightarrow> nat \<Rightarrow> rule_action \<Rightarrow> finding list" where
  "check_no_where_update s idx action =
     report_if (s = StUpdate False) NoWhereUpdate action ''UPDATE without WHERE clause'' idx"

definition check_drop_table :: "statement \<Rightarrow> nat \<Rightarrow> rule_action \<Rightarrow> finding list" where
  "check_drop_table s idx action = report_if (s = StDrop OTable) DropTable action ''DROP TABLE detected'' idx"

definition alter_ops :: "statement \<Rightarrow> alter_operation list" where
  "alter_ops s = (case s of StAlterTable ops \<Rightarrow> ops | _ \<Rightarrow> [])"

definition check_drop_column :: "statement \<Rightarrow> nat \<Rightarrow> rule_action \<Rightarrow> finding list" where
  "check_drop_column s idx action =
     report_if (list_ex (\<lambda>op. op = AtDropColumn) (alter_ops s)) DropColumn action ''DROP COLUMN detected'' idx"

definition check_drop_index :: "statement \<Rightarrow> nat \<Rightarrow> rule_action \<Rightarrow> finding list" where
  "check_drop_index s idx action = report_if (s = StDrop OIndex) DropIndex action ''DROP INDEX detected'' idx"

definition check_drop_view :: "statement \<Rightarrow> nat \<Rightarrow> rule_action \<Rightarrow> finding list" where
  "check_drop_view s idx action = report_if (s = StDrop OView) DropView action ''DROP VIEW detected'' idx"

definition check_drop_sequence :: "statement \<Rightarrow> nat \<Rightarrow> rule_action \<Rightarrow> finding list" where
  "check_drop_sequence s idx action =
     report_if (s = StDrop OSequence) DropSequence action ''DROP SEQUENCE detected'' idx"

definition check_create_sequence :: "statement \<Rightarrow> nat \<Rightarrow> rule_action \<Rightarrow> finding list" where
  "check_create_sequence s idx action =
     report_if (s = StCreateSequence) RuleCreateSequence action ''CREATE SEQUENCE detected'' idx"

fun not_null_without_default :: "alter_operation \<Rightarrow> bool" where
  "not_null_without_default (AtAddColumn options) = (CoNotNull \<in> set options \<and> CoDefault \<notin> set options)"
| "not_null_without_default _ = False"

definition check_not_null_without_default :: "statement \<Rightarrow> nat \<Rightarrow> rule_action \<Rightarrow> finding list" where
  "check_not_null_without_default s idx action =
     report_if (list_ex not_null_without_default (alter_ops s)) NotNullWithoutDefault action
       ''ADD COLUMN NOT NULL without DEFAULT'' idx"

definition check_create_index_not_concurrently :: "statement \<Rightarrow> nat \<Rightarrow> rule_action \<Rightarrow> finding list" where
  "check_create_index_not_concurrently s idx action =
     report_if (s = StCreateIndex False) CreateIndexNotConcurrently action
       ''CREATE INDEX without CONCURRENTLY'' idx"

definition check_alter_column_type :: "statement \<Rightarrow> nat \<Rightarrow> rule_action \<Rightarrow> finding list" where
  "check_alter_column_type s idx action =
     report_if (list_ex (\<lambda>op. op = AtSetDataType) (alter_ops s)) AlterColumnType action
       ''ALTER COLUMN TYPE detected'' idx"

definition check_truncate :: "statement \<Rightarrow> nat \<Rightarrow> rule_action \<Rightarrow> finding list" where
  "check_truncate s idx action = report_if (s = StTruncate) Truncate action ''TRUNCATE detected'' idx"

definition check_large_in_list :: "parsed_statement \<Rightarrow> nat \<Rightarrow> rule_action \<Rightarrow> finding list" where
  "check_large_in_list s idx action =
     concat (map (\<lambda>n. report_if (n > 100) LargeInList action
       (''IN list with '' @ show_nat n @ '' elements (>100)'') idx) (st_in_lists s))"

fun is_ddl :: "statement \<Rightarrow> bool" where
  "is_ddl (StCreateTable _ _) = True"
| "is_ddl (StCreateIndex _) = True"
| "is_ddl (StAlterTable _) = True"
| "is_ddl StTruncate = True"
| "is_ddl (StCreateView _) = True"
| "is_ddl StCreateSequence = True"
| "is_ddl (StDrop t) = (t \<in> {OTable, OView, OIndex, OSequence})"
| "is_ddl _ = False"

fun is_dml :: "statement \<Rightarrow> bool" where
  "is_dml StInsert = True"
| "is_dml (StUpdate _) = True"
| "is_dml (StDelete _) = True"
| "is_dml _ = False"

definition review_statement ::
  "dialect option \<Rightarrow> review_rules \<Rightarrow> nat \<times> parsed_statement \<Rightarrow> finding list" where
  "review_statement dialect rules p =
     (let (idx, ps) = p; s = st_kind ps in
        check_no_where_delete s idx (ru_no_where_delete rules)
      @ check_no_where_update s idx (ru_no_where_update rules)
      @ check_drop_table s idx (ru_drop_table rules)
      @ check_drop_column s idx (ru_drop_column rules)
      @ check_drop_index s idx (ru_drop_index rules)
      @ check_drop_view s idx (ru_drop_view rules)
      @ check_drop_sequence s idx (ru_drop_sequence rules)
      @ check_create_sequence s idx (ru_create_sequence rules)
      @ check_not_null_without_default s idx (ru_not_null_without_default rules)
      @ (if dialect = Some PostgreSql
         then check_create_index_not_concurrently s idx (ru_create_index_not_concurrently rules) else [])
      @ check_alter_column_type s idx (ru_alter_column_type rules)
      @ check_truncate s idx (ru_truncate rules)
      @ check_large_in_list ps idx (ru_large_in_list rules))"

definition review_statements ::
  "parsed_statement list \<Rightarrow> dialect option \<Rightarrow> review_rules \<Rightarrow> review_result" where
  "review_statements statements dialect rules =
     (let findings = concat (map (review_statement dialect rules) (zip [0..<length statements] statements));
          has_ddl = list_ex (\<lambda>s. is_ddl (st_kind s)) statements;
          has_dml = list_ex (\<lambda>s. is_dml (st_kind s)) statements;
          findings = (if has_ddl \<and> has_dml \<and> ru_mixed_ddl_dml rules \<noteq> RaOff
            then findings @ [\<lparr> fd_rule = MixedDdlDml, fd_action = ru_mixed_ddl_dml rules,
              fd_message = ''DDL and DML mixed in same batch'', fd_statement_index = 0 \<rparr>]
            else findings)
      in \<lparr> rv_findings = findings,
           rv_blocked = list_ex (\<lambda>f. fd_action f = RaBlock) findings \<rparr>)"

definition review :: "sql_lib \<Rightarrow> string \<Rightarrow> dialect option \<Rightarrow> review_rules \<Rightarrow> review_result" where
  "review parse_sql sql dialect rules =
     (case parse_statements parse_sql sql (case dialect of None \<Rightarrow> PostgreSql | Some d \<Rightarrow> d) of
        Inr statements \<Rightarrow> review_statements statements dialect rules
      | Inl _ \<Rightarrow> \<lparr> rv_findings = [\<lparr> fd_rule = ParseFailure, fd_action = RaBlock,
            fd_message = ''SQL could not be parsed; cannot verify safety rules'', fd_statement_index = 0 \<rparr>],
          rv_blocked = True \<rparr>)"

subsection \<open>Risk scoring\<close>

datatype risk_factor = FReadOnly | FSafeDdl | FCascadeDelete "string list" | FLargeTable int
  | FDropOperation | FMultiStatement | FManyWarnings nat | FSchemaNotSynced

fun risk_factor_name :: "risk_factor \<Rightarrow> string" where
  "risk_factor_name FReadOnly = ''read_only''"
| "risk_factor_name FSafeDdl = ''safe_ddl''"
| "risk_factor_name (FCascadeDelete _) = ''cascade_delete''"
| "risk_factor_name (FLargeTable _) = ''large_table''"
| "risk_factor_name FDropOperation = ''drop_operation''"
| "risk_factor_name FMultiStatement = ''multi_statement''"
| "risk_factor_name (FManyWarnings _) = ''many_warnings''"
| "risk_factor_name FSchemaNotSynced = ''schema_not_synced''"

datatype schema_status = SchemaReady | SchemaFailed | SchemaNotSynced

record cascade_child_info =
  cc_table_name :: string
  cc_schema_name :: "string option"
  cc_estimated_rows :: int
  cc_depth :: u8

record table_risk_info =
  ti_name :: string
  ti_estimated_rows :: int
  ti_has_cascade_fk :: bool
  ti_cascade_targets :: "string list"
  ti_cascade_children :: "cascade_child_info list"
  ti_cascade_children_truncated :: bool

record risk_input =
  ri_operation :: operation
  ri_findings :: "finding list"
  ri_schema_status :: schema_status
  ri_tables :: "table_risk_info list"
  ri_statement_count :: nat
  ri_has_dml :: bool
  ri_has_delete_stmt :: bool
  ri_allow_read_only :: bool
  ri_safe_ddl :: bool
  ri_max_estimated_rows :: int

record risk_assessment =
  rk_level :: risk_level
  rk_factors :: "risk_factor list"

definition is_drop_rule :: "rule_id \<Rightarrow> bool" where
  "is_drop_rule r \<longleftrightarrow> r \<in> {DropTable, Truncate, DropIndex, DropView, DropSequence}"

definition cascade_target :: "cascade_child_info \<Rightarrow> string" where
  "cascade_target c =
     (case cc_schema_name c of
        Some s \<Rightarrow> if s \<noteq> ''public'' then s @ ''.'' @ cc_table_name c else cc_table_name c
      | None \<Rightarrow> cc_table_name c)"

definition max_child_rows :: "cascade_child_info list \<Rightarrow> int" where
  "max_child_rows cs = (case map cc_estimated_rows cs of [] \<Rightarrow> 0 | x # xs \<Rightarrow> foldl max x xs)"

text \<open>One round of the loop over the tables: level and factors so far, updated.\<close>

definition table_risk ::
  "risk_input \<Rightarrow> table_risk_info \<Rightarrow> risk_level \<times> risk_factor list \<Rightarrow> risk_level \<times> risk_factor list" where
  "table_risk input table st =
     (let (level, factors) = st; limit = ri_max_estimated_rows input in
      if ri_has_delete_stmt input \<and> ti_cascade_children table \<noteq> [] then
        let base_level = (if max_child_rows (ti_cascade_children table) > limit
                             \<or> ti_estimated_rows table > limit then High else Medium);
            final_level = (if ti_cascade_children_truncated table then max base_level High else base_level);
            factors = factors @ [FCascadeDelete (map cascade_target (ti_cascade_children table))];
            level = max level final_level
        in (level, if ti_estimated_rows table > limit
                   then factors @ [FLargeTable (ti_estimated_rows table)] else factors)
      else if ti_estimated_rows table > limit
        then (max level Medium, factors @ [FLargeTable (ti_estimated_rows table)])
      else (level, factors))"

text \<open>Level and factors before the loop over the tables.\<close>

definition batch_risk :: "risk_input \<Rightarrow> risk_level \<times> risk_factor list" where
  "batch_risk input =
     (let st = (Low, []);
          st = (if ri_statement_count input > 1 \<and> ri_has_dml input
                then (max (fst st) High, snd st @ [FMultiStatement]) else st);
          warn_count = length (ri_findings input);
          st = (if warn_count \<ge> 3 then (max (fst st) High, snd st @ [FManyWarnings warn_count])
                else if warn_count > 0 then (max (fst st) Medium, snd st) else st);
          st = (if list_ex (\<lambda>f. is_drop_rule (fd_rule f)) (ri_findings input)
                then (max (fst st) High, snd st @ [FDropOperation]) else st)
      in st)"

definition evaluate_risk :: "risk_input \<Rightarrow> risk_assessment" where
  "evaluate_risk input =
     (if ri_operation input = ExecuteSelect \<and> ri_allow_read_only input
      then \<lparr> rk_level = Low, rk_factors = [FReadOnly] \<rparr>
      else if ri_safe_ddl input then \<lparr> rk_level = Low, rk_factors = [FSafeDdl] \<rparr>
      else if ri_schema_status input \<noteq> SchemaReady
        then \<lparr> rk_level = Unknown, rk_factors = [FSchemaNotSynced] \<rparr>
      else let st = fold (table_risk input) (ri_tables input) (batch_risk input)
        in \<lparr> rk_level = fst st, rk_factors = snd st \<rparr>)"

subsection \<open>Fix hints\<close>

fun hint_for_rule :: "rule_id \<Rightarrow> string" where
  "hint_for_rule NoWhereDelete = ''Add a WHERE clause to limit the rows affected by DELETE''"
| "hint_for_rule NoWhereUpdate = ''Add a WHERE clause using an indexed column to limit the rows affected by UPDATE''"
| "hint_for_rule DropTable = ''Confirm table removal is intentional; consider renaming instead of dropping''"
| "hint_for_rule DropColumn = ''Verify no application code references this column before dropping''"
| "hint_for_rule DropIndex = ''Verify no queries depend on this index for performance before dropping''"
| "hint_for_rule DropView = ''Verify no application code or other views reference this view before dropping''"
| "hint_for_rule DropSequence = ''Verify no columns use this sequence as a default value before dropping''"
| "hint_for_rule RuleCreateSequence =
     ''Ensure the sequence name follows naming conventions and does not conflict with existing objects''"
| "hint_for_rule NotNullWithoutDefault =
     ''Add a DEFAULT value or make the column nullable to avoid blocking writes''"
| "hint_for_rule CreateIndexNotConcurrently =
     ''Use CREATE INDEX CONCURRENTLY to avoid locking the table during index creation''"
| "hint_for_rule AlterColumnType =
     ''Prefer adding a new column + migrating data over altering the type in-place''"
| "hint_for_rule Truncate =
     ''Consider using DELETE with a WHERE clause for selective removal instead of TRUNCATE''"
| "hint_for_rule MixedDdlDml = ''Split DDL and DML into separate statements to avoid implicit commits''"
| "hint_for_rule LargeInList =
     ''Replace large IN list with a JOIN against a temporary table or use a subquery''"
| "hint_for_rule ParseFailure = ''Fix SQL syntax errors; the statement could not be parsed''"

definition generate_hints :: "finding list \<Rightarrow> risk_level \<Rightarrow> string list" where
  "generate_hints findings risk_level =
     (let hints = map (\<lambda>f. hint_for_rule (fd_rule f)) findings;
          hints = (case risk_level of
              Critical \<Rightarrow> hints @ [''For production writes, include --reason with expected impact'']
            | High \<Rightarrow> hints @ [''For production writes, include --reason with expected impact'']
            | Unknown \<Rightarrow>
                hints @ [''Schema information is unavailable; verify table existence before submitting'']
            | _ \<Rightarrow> hints)
      in remdups_adj hints)"

subsection \<open>What the review reports\<close>

lemma in_report_if:
  "f \<in> set (report_if c rule action msg idx) \<longleftrightarrow>
   c \<and> action \<noteq> RaOff \<and> f = \<lparr> fd_rule = rule, fd_action = action, fd_message = msg, fd_statement_index = idx \<rparr>"
  by (auto simp: report_if_def)

lemmas check_defs = check_no_where_delete_def check_no_where_update_def check_drop_table_def
  check_drop_column_def check_drop_index_def check_drop_view_def check_drop_sequence_def
  check_create_sequence_def check_not_null_without_default_def
  check_create_index_not_concurrently_def check_alter_column_type_def check_truncate_def
  check_large_in_list_def

lemma review_statement_finding:
  "f \<in> set (review_statement d rules (i, ps)) \<Longrightarrow> fd_action f \<noteq> RaOff \<and> fd_statement_index f = i"
  by (auto simp: review_statement_def check_defs in_report_if Let_def split: if_splits)

lemma review_statement_default_block:
  "(\<exists>f \<in> set (review_statement d default_review_rules (i, ps)). fd_action f = RaBlock) \<longleftrightarrow>
   st_kind ps \<in> {StDelete False, StUpdate False, StDrop OTable, StTruncate}"
  by (auto simp: review_statement_def check_defs in_report_if bex_Un default_review_rules_def Let_def)

lemma blocked_iff: "rv_blocked (review_statements ss d rules) \<longleftrightarrow>
   (\<exists>f \<in> set (rv_findings (review_statements ss d rules)). fd_action f = RaBlock)"
  by (simp add: review_statements_def list_ex_iff Let_def)

lemma in_review_findings:
  "f \<in> set (rv_findings (review_statements ss d rules)) \<longleftrightarrow>
   (\<exists>i < length ss. f \<in> set (review_statement d rules (i, ss ! i)))
   \<or> ((\<exists>s \<in> set ss. is_ddl (st_kind s)) \<and> (\<exists>s \<in> set ss. is_dml (st_kind s)) \<and> ru_mixed_ddl_dml rules \<noteq> RaOff
       \<and> f = \<lparr> fd_rule = MixedDdlDml, fd_action = ru_mixed_ddl_dml rules,
              fd_message = ''DDL and DML mixed in same batch'', fd_statement_index = 0 \<rparr>)"
proof -
  have "(\<exists>p \<in> set (zip [0..<length ss] ss). f \<in> set (review_statement d rules p)) \<longleftrightarrow>
      (\<exists>i < length ss. f \<in> set (review_statement d rules (i, ss ! i)))"
    by (force simp: in_set_zip)
  then show ?thesis by (auto simp: review_statements_def list_ex_iff Let_def)
qed

text \<open>With the default rules the review stops exactly the dangerous inputs: it blocks an input
  that cannot be parsed, and otherwise blocks if and only if some statement is a \<open>DELETE\<close> or
  \<open>UPDATE\<close> without \<open>WHERE\<close>, a \<open>DROP TABLE\<close> or a \<open>TRUNCATE\<close>.\<close>

theorem default_review_blocks:
  "rv_blocked (review p sql dialect default_review_rules) \<longleftrightarrow>
   (case parse_statements p sql (case dialect of None \<Rightarrow> PostgreSql | Some d \<Rightarrow> d) of
      Inl _ \<Rightarrow> True
    | Inr ss \<Rightarrow> list_ex (\<lambda>s. st_kind s \<in> {StDelete False, StUpdate False, StDrop OTable, StTruncate}) ss)"
proof -
  have "(\<exists>f \<in> set (rv_findings (review_statements ss dialect default_review_rules)). fd_action f = RaBlock)
     \<longleftrightarrow> (\<exists>i < length ss. st_kind (ss ! i) \<in> {StDelete False, StUpdate False, StDrop OTable, StTruncate})" for ss
  proof -
    have "ru_mixed_ddl_dml default_review_rules = RaWarn" by (simp add: default_review_rules_def)
    then have "(\<exists>f \<in> set (rv_findings (review_statements ss dialect default_review_rules)). fd_action f = RaBlock)
      \<longleftrightarrow> (\<exists>i < length ss. \<exists>f \<in> set (review_statement dialect default_review_rules (i, ss ! i)). fd_action f = RaBlock)"
      unfolding Bex_def in_review_findings by auto
    then show ?thesis by (simp only: review_statement_default_block)
  qed
  then show ?thesis
    by (auto simp: review_def blocked_iff list_ex_length split: sum.splits)
qed

lemma review_findings_wf:
  "f \<in> set (rv_findings (review_statements ss d rules)) \<Longrightarrow>
   fd_action f \<noteq> RaOff \<and> fd_statement_index f < length ss"
  by (auto simp: in_review_findings dest: review_statement_finding)

subsection \<open>The exact risk level\<close>

definition cascade_hit :: "risk_input \<Rightarrow> table_risk_info \<Rightarrow> bool" where
  "cascade_hit input tb \<longleftrightarrow> ri_has_delete_stmt input \<and> ti_cascade_children tb \<noteq> []"

definition table_level :: "risk_input \<Rightarrow> table_risk_info \<Rightarrow> risk_level" where
  "table_level input tb =
     (if cascade_hit input tb \<and> ((\<exists>c \<in> set (ti_cascade_children tb). cc_estimated_rows c > ri_max_estimated_rows input)
          \<or> ti_estimated_rows tb > ri_max_estimated_rows input \<or> ti_cascade_children_truncated tb) then High
      else if cascade_hit input tb \<or> ti_estimated_rows tb > ri_max_estimated_rows input then Medium
      else Low)"

lemma foldl_max_gt: "(l :: int) < foldl max x xs \<longleftrightarrow> l < x \<or> (\<exists>y \<in> set xs. l < y)"
  by (induction xs arbitrary: x) (auto simp: less_max_iff_disj)

lemma max_child_rows_gt:
  "cs \<noteq> [] \<Longrightarrow> l < max_child_rows cs \<longleftrightarrow> (\<exists>c \<in> set cs. l < cc_estimated_rows c)"
  by (cases cs) (auto simp: max_child_rows_def foldl_max_gt)

lemma risk_max: "max (a :: risk_level) b = (if risk_rank a \<le> risk_rank b then b else a)"
  by (simp add: max_def risk_order_defs)

lemma max_Low [simp]: "max l Low = l"
  by (cases l) (simp_all add: risk_max)

lemma table_risk_level: "fst (table_risk input tb st) = max (fst st) (table_level input tb)"
proof -
  have m: "max Medium High = High" "max High High = High" by (simp_all add: risk_max)
  show ?thesis
  proof (cases "cascade_hit input tb")
    case True
    then have "ti_cascade_children tb \<noteq> []" by (simp add: cascade_hit_def)
    with True show ?thesis
      by (auto simp: table_risk_def table_level_def cascade_hit_def max_child_rows_gt m Let_def
          split: prod.splits)
  next
    case False
    then show ?thesis
      by (auto simp: table_risk_def table_level_def cascade_hit_def Let_def split: prod.splits)
  qed
qed

lemma fold_table_level:
  "l \<le> fst (fold (table_risk input) tbs st) \<longleftrightarrow> l \<le> fst st \<or> (\<exists>tb \<in> set tbs. l \<le> table_level input tb)"
  by (induction tbs arbitrary: st) (auto simp: table_risk_level le_max_iff_disj)

lemma fold_table_level_le:
  "fst st \<le> High \<Longrightarrow> fst (fold (table_risk input) tbs st) \<le> High"
proof (induction tbs arbitrary: st)
  case (Cons tb tbs)
  have "table_level input tb \<le> High" by (simp add: table_level_def risk_order_defs)
  with Cons show ?case by (simp add: table_risk_level)
qed simp

definition high_risk :: "risk_input \<Rightarrow> bool" where
  "high_risk i \<longleftrightarrow> ri_statement_count i > 1 \<and> ri_has_dml i \<or> length (ri_findings i) \<ge> 3
     \<or> (\<exists>f \<in> set (ri_findings i). is_drop_rule (fd_rule f)) \<or> (\<exists>tb \<in> set (ri_tables i). table_level i tb = High)"

definition medium_risk :: "risk_input \<Rightarrow> bool" where
  "medium_risk i \<longleftrightarrow> ri_findings i \<noteq> [] \<or> (\<exists>tb \<in> set (ri_tables i). table_level i tb = Medium)"

lemma level_by_bounds:
  "l \<le> High \<Longrightarrow> l = (if High \<le> l then High else if Medium \<le> l then Medium else Low)"
  by (cases l) (simp_all add: risk_order_defs)

text \<open>The risk level is fully determined: reads (where allowed) and safe schema additions are low,
  an unknown schema gives unknown, and otherwise the level is high, medium or low according to
  the listed triggers. The levels critical and unavailable are never assigned.\<close>

theorem risk_level_exact:
  "rk_level (evaluate_risk i) =
     (if ri_operation i = ExecuteSelect \<and> ri_allow_read_only i \<or> ri_safe_ddl i then Low
      else if ri_schema_status i \<noteq> SchemaReady then Unknown
      else if high_risk i then High else if medium_risk i then Medium else Low)
   \<and> rk_level (evaluate_risk i) \<notin> {Critical, Unavailable}"
proof -
  let ?fast = "ri_operation i = ExecuteSelect \<and> ri_allow_read_only i \<or> ri_safe_ddl i"
  have "rk_level (evaluate_risk i) =
      (if high_risk i then High else if medium_risk i then Medium else Low)"
    if "\<not> ?fast" "ri_schema_status i = SchemaReady"
  proof -
    have ev: "rk_level (evaluate_risk i) = fst (fold (table_risk i) (ri_tables i) (batch_risk i))"
      using that by (auto simp: evaluate_risk_def Let_def)
    have st: "fst (batch_risk i) = (if ri_statement_count i > 1 \<and> ri_has_dml i \<or> length (ri_findings i) \<ge> 3
          \<or> (\<exists>f \<in> set (ri_findings i). is_drop_rule (fd_rule f)) then High
        else if ri_findings i \<noteq> [] then Medium else Low)"
      by (auto simp: batch_risk_def Let_def list_ex_iff risk_max)
    let ?l = "rk_level (evaluate_risk i)"
    have le: "?l \<le> High" unfolding ev by (rule fold_table_level_le) (simp add: st risk_order_defs)
    have hi: "High \<le> ?l \<longleftrightarrow> high_risk i" and me: "Medium \<le> ?l \<longleftrightarrow> high_risk i \<or> medium_risk i"
      unfolding ev fold_table_level st high_risk_def medium_risk_def
      by (auto simp: risk_order_defs table_level_def split: if_splits)
    show ?thesis using level_by_bounds [OF le] hi me by auto
  qed
  then show ?thesis
    by (cases ?fast; cases "ri_schema_status i = SchemaReady") (auto simp: evaluate_risk_def)
qed

end
