(* ===== verification/Risk_Analysis.thy ===== *)
theory Risk_Analysis
  imports Risk Audit_Events "HOL-Library.Char_ord" "HOL-Library.List_Lexorder" "HOL-Library.Product_Lexorder"
    "HOL-Library.Option_ord"
begin

text \<open>
  What request creation derives from a schema snapshot
  (\<open>crates/dbward-app/src/use_cases/risk_analysis.rs\<close>): the parameters of risk scoring, the risk
  facts of the referenced tables, and the tables a \<open>DELETE\<close> reaches through cascading foreign
  keys, found by a breadth-first search of bounded depth. The lemmas show that the search ends
  and finds exactly the tables within that distance. \<open>lower\<close> is Rust's \<open>str::to_lowercase\<close>.
\<close>

record table_ref =
  tb_schema :: "string option"
  tb_name :: string

subsection \<open>Parameters of risk scoring\<close>

definition compute_allow_read_only :: "operation \<Rightarrow> workflow \<Rightarrow> bool" where
  "compute_allow_read_only op w \<longleftrightarrow>
     is_read_only op \<and> (case wf_auto_approve w of Some aa \<Rightarrow> aa_allow_read_only aa | None \<Rightarrow> False)"

definition compute_safe_ddl :: "workflow \<Rightarrow> bool \<Rightarrow> bool \<Rightarrow> bool" where
  "compute_safe_ddl w all_stmts_safe_ddl findings_empty \<longleftrightarrow>
     (case wf_auto_approve w of Some aa \<Rightarrow> aa_allow_safe_ddl aa | None \<Rightarrow> False)
     \<and> all_stmts_safe_ddl \<and> findings_empty"

definition max_estimated_rows :: "workflow \<Rightarrow> int" where
  "max_estimated_rows w = (case wf_auto_approve w of Some aa \<Rightarrow> aa_max_estimated_rows aa | None \<Rightarrow> 1000)"

subsection \<open>Risk facts of the referenced tables\<close>

fun json_as_i64 :: "json \<Rightarrow> int option" where
  "json_as_i64 (JNum n) = (if - (2 ^ 63) \<le> n \<and> n < 2 ^ 63 then Some n else None)"
| "json_as_i64 _ = None"

definition json_field :: "(json \<Rightarrow> 'a option) \<Rightarrow> string \<Rightarrow> json \<Rightarrow> 'a option" where
  "json_field as_type k j = Option.bind (json_get k j) as_type"

definition or_else :: "'a option \<Rightarrow> 'a \<Rightarrow> 'a" where
  "or_else m d = (case m of Some x \<Rightarrow> x | None \<Rightarrow> d)"

definition is_cascade :: "json \<Rightarrow> bool" where
  "is_cascade c \<longleftrightarrow> json_field json_as_str ''on_delete'' c = Some ''CASCADE''"

definition table_risk_info_of :: "json \<Rightarrow> table_risk_info" where
  "table_risk_info_of t =
     (let cs = or_else (json_field json_as_array ''constraints'' t) [] in
      \<lparr> ti_name = or_else (json_field json_as_str ''name'' t) [],
        ti_estimated_rows = or_else (json_field json_as_i64 ''estimated_rows'' t) 0,
        ti_has_cascade_fk = list_ex is_cascade cs,
        ti_cascade_targets = List.map_filter (json_field json_as_str ''referenced_table'') (filter is_cascade cs),
        ti_cascade_children = [], ti_cascade_children_truncated = False \<rparr>)"

definition parse_table_risk_info :: "lib \<Rightarrow> string \<Rightarrow> table_risk_info list" where
  "parse_table_risk_info lib js =
     (case x_json_read lib js of Some (JArr arr) \<Rightarrow> map table_risk_info_of arr | _ \<Rightarrow> [])"

text \<open>The entries of the snapshot for the referenced tables; a bare name that more than one schema has
  gives none.\<close>

definition table_matches :: "table_ref list \<Rightarrow> json \<Rightarrow> bool" where
  "table_matches tables t =
     (let name = or_else (json_field json_as_str ''name'' t) [];
          schema = or_else (json_field json_as_str ''schema_name'' t) []
      in list_ex (\<lambda>r. case tb_schema r of Some s \<Rightarrow> s = schema \<and> tb_name r = name | None \<Rightarrow> tb_name r = name) tables)"

definition extract_tables_from_snapshot_json :: "lib \<Rightarrow> string \<Rightarrow> table_ref list \<Rightarrow> string option" where
  "extract_tables_from_snapshot_json lib snapshot_json tables =
     Option.bind (x_json_read lib snapshot_json) (\<lambda>full.
     Option.bind (json_field json_as_array ''tables'' full) (\<lambda>all_tables.
     let matched = filter (table_matches tables) all_tables in
     if list_ex (\<lambda>r. length (filter (\<lambda>t. json_field json_as_str ''name'' t = Some (tb_name r)) matched) > 1)
          (filter (\<lambda>r. tb_schema r = None) tables) then None
     else if matched = [] then None
     else Some (x_json_text lib (JArr matched))))"

subsection \<open>The cascade graph\<close>

definition MAX_CASCADE_DEPTH :: u8 where
  "MAX_CASCADE_DEPTH = 3"

definition canonical_key :: "(string \<Rightarrow> string) \<Rightarrow> string \<Rightarrow> string \<Rightarrow> string" where
  "canonical_key lower schema name = lower schema @ ''.'' @ lower name"

text \<open>A child of a cascading foreign key: name, schema, estimated rows. The map from a parent to the
  vector of its children is the list of the insertions, looked up by \<open>kids_of\<close>.\<close>

type_synonym kid = "string \<times> string \<times> int"

definition constraint_edge :: "(string \<Rightarrow> string) \<Rightarrow> kid \<Rightarrow> json \<Rightarrow> (string \<times> kid) list" where
  "constraint_edge lower kid c =
     (if json_as_str (json_index c ''on_delete'') \<noteq> Some ''CASCADE'' then []
      else case json_as_str (json_index c ''referenced_table'') of
        None \<Rightarrow> []
      | Some ref_table \<Rightarrow>
          let ref_schema = or_else (json_field json_as_str ''referenced_schema'' c) (fst (snd kid))
          in [(canonical_key lower ref_schema ref_table, kid)])"

definition table_edges :: "(string \<Rightarrow> string) \<Rightarrow> json \<Rightarrow> (string \<times> kid) list" where
  "table_edges lower table =
     (let child_name = or_else (json_as_str (json_index table ''name'')) [];
          child_schema = or_else (json_as_str (json_index table ''schema_name'')) ''public'';
          child_rows = or_else (json_as_i64 (json_index table ''estimated_rows'')) 0
      in case json_as_array (json_index table ''constraints'') of
           None \<Rightarrow> []
         | Some constraints \<Rightarrow> concat (map (constraint_edge lower (child_name, child_schema, child_rows)) constraints))"

definition reverse_map :: "(string \<Rightarrow> string) \<Rightarrow> json list \<Rightarrow> (string \<times> kid) list" where
  "reverse_map lower all_tables = concat (map (table_edges lower) all_tables)"

definition kids_of :: "(string \<times> kid) list \<Rightarrow> string \<Rightarrow> kid list" where
  "kids_of edges k = map snd (filter (\<lambda>e. fst e = k) edges)"

definition kid_key :: "(string \<Rightarrow> string) \<Rightarrow> kid \<Rightarrow> string" where
  "kid_key lower kid = canonical_key lower (fst (snd kid)) (fst kid)"

definition child_info :: "kid \<Rightarrow> u8 \<Rightarrow> cascade_child_info" where
  "child_info kid depth =
     \<lparr> cc_table_name = fst kid, cc_schema_name = Some (fst (snd kid)), cc_estimated_rows = snd (snd kid),
       cc_depth = depth \<rparr>"

subsection \<open>The search\<close>

record search =
  se_visited :: "string list"
  se_queue :: "(string \<times> u8) list"
  se_children :: "cascade_child_info list"
  se_truncated :: bool

text \<open>The body of the loop over the children of one table.\<close>

definition visit_kid :: "(string \<Rightarrow> string) \<Rightarrow> string \<Rightarrow> u8 \<Rightarrow> kid \<Rightarrow> search \<Rightarrow> search" where
  "visit_kid lower target_key depth kid st =
     (let child_key = kid_key lower kid in
      if child_key = target_key
      then (if depth = 0 then st\<lparr> se_children := se_children st @ [child_info kid 1] \<rparr> else st)
      else if child_key \<in> set (se_visited st) then st
      else st\<lparr> se_visited := child_key # se_visited st,
               se_children := se_children st @ [child_info kid (depth + 1)],
               se_queue := se_queue st @ [(child_key, depth + 1)] \<rparr>)"

text \<open>The body of the loop over the queue, after \<open>pop_front\<close>.\<close>

definition visit_table ::
  "(string \<Rightarrow> string) \<Rightarrow> (string \<times> kid) list \<Rightarrow> string \<Rightarrow> string \<times> u8 \<Rightarrow> search \<Rightarrow> search" where
  "visit_table lower edges target_key item st =
     (let (current_key, depth) = item in
      if depth \<ge> MAX_CASCADE_DEPTH
      then (if list_ex (\<lambda>kid. kid_key lower kid \<noteq> target_key \<and> kid_key lower kid \<notin> set (se_visited st))
                 (kids_of edges current_key)
            then st\<lparr> se_truncated := True \<rparr> else st)
      else fold (visit_kid lower target_key depth) (kids_of edges current_key) st)"

definition open_keys :: "(string \<Rightarrow> string) \<Rightarrow> (string \<times> kid) list \<Rightarrow> search \<Rightarrow> string set" where
  "open_keys lower edges st = (\<lambda>e. kid_key lower (snd e)) ` set edges - set (se_visited st)"

definition search_measure :: "(string \<Rightarrow> string) \<Rightarrow> (string \<times> kid) list \<Rightarrow> search \<Rightarrow> nat" where
  "search_measure lower edges st = 2 * card (open_keys lower edges st) + length (se_queue st)"

lemma visit_kid_measure:
  assumes "kid \<in> snd ` set edges"
  shows "search_measure lower edges (visit_kid lower t d kid st) \<le> search_measure lower edges st"
proof (cases "kid_key lower kid = t \<or> kid_key lower kid \<in> set (se_visited st)")
  case True
  then show ?thesis
    by (auto simp: visit_kid_def Let_def search_measure_def open_keys_def)
next
  case False
  let ?k = "kid_key lower kid"
  let ?st = "visit_kid lower t d kid st"
  have fin: "finite (open_keys lower edges st)" by (simp add: open_keys_def)
  have mem: "?k \<in> open_keys lower edges st"
    using False assms by (auto simp: open_keys_def)
  have "open_keys lower edges ?st = open_keys lower edges st - {?k}"
    using False by (auto simp: visit_kid_def Let_def open_keys_def)
  then have "card (open_keys lower edges ?st) = card (open_keys lower edges st) - 1"
    using mem by simp
  moreover have "0 < card (open_keys lower edges st)"
    using fin mem card_gt_0_iff by blast
  moreover have "length (se_queue ?st) = length (se_queue st) + 1"
    using False by (simp add: visit_kid_def Let_def)
  ultimately show ?thesis by (simp add: search_measure_def)
qed

lemma visit_table_measure:
  "search_measure lower edges (visit_table lower edges t item st) \<le> search_measure lower edges st"
proof -
  have kids: "search_measure lower edges (fold (visit_kid lower t d) ks st) \<le> search_measure lower edges st"
    if "set ks \<subseteq> snd ` set edges" for d ks
    using that
  proof (induction ks arbitrary: st)
    case Nil
    then show ?case by simp
  next
    case (Cons k ks)
    then have "search_measure lower edges (fold (visit_kid lower t d) ks (visit_kid lower t d k st))
        \<le> search_measure lower edges (visit_kid lower t d k st)" by simp
    also have "\<dots> \<le> search_measure lower edges st" using Cons.prems by (intro visit_kid_measure) simp
    finally show ?case by simp
  qed
  have "set (kids_of edges k) \<subseteq> snd ` set edges" for k by (auto simp: kids_of_def)
  from kids [OF this] show ?thesis
    by (auto simp: visit_table_def search_measure_def open_keys_def split: prod.splits)
qed

function search_loop ::
  "(string \<Rightarrow> string) \<Rightarrow> (string \<times> kid) list \<Rightarrow> string \<Rightarrow> search \<Rightarrow> search" where
  "search_loop lower edges target_key st =
     (case se_queue st of
        [] \<Rightarrow> st
      | item # rest \<Rightarrow> search_loop lower edges target_key
          (visit_table lower edges target_key item (st\<lparr> se_queue := rest \<rparr>)))"
  by pat_completeness auto
termination
proof (relation "measure (\<lambda>(lower, edges, t, st). search_measure lower edges st)", goal_cases)
  case 1
  then show ?case by simp
next
  case (2 lower edges t st item rest)
  have "search_measure lower edges (visit_table lower edges t item (st\<lparr> se_queue := rest \<rparr>))
      \<le> search_measure lower edges (st\<lparr> se_queue := rest \<rparr>)"
    by (rule visit_table_measure)
  also have "\<dots> < search_measure lower edges st"
    using 2 by (simp add: search_measure_def open_keys_def)
  finally show ?case by simp
qed

declare search_loop.simps [simp del]

definition search_from :: "(string \<Rightarrow> string) \<Rightarrow> (string \<times> kid) list \<Rightarrow> string \<Rightarrow> search" where
  "search_from lower edges target_key =
     search_loop lower edges target_key
       \<lparr> se_visited = [target_key], se_queue = [(target_key, 0)], se_children = [], se_truncated = False \<rparr>"

text \<open>\<open>Vec::dedup_by\<close>: an element equal to the last one kept is dropped.\<close>

fun dedup_by :: "('a \<Rightarrow> 'a \<Rightarrow> bool) \<Rightarrow> 'a list \<Rightarrow> 'a list" where
  "dedup_by eq (x # y # zs) = (if eq y x then dedup_by eq (x # zs) else x # dedup_by eq (y # zs))"
| "dedup_by eq [x] = [x]"
| "dedup_by eq [] = []"

definition child_name :: "cascade_child_info \<Rightarrow> string option \<times> string" where
  "child_name c = (cc_schema_name c, cc_table_name c)"

definition cascade_children :: "(string \<Rightarrow> string) \<Rightarrow> (string \<times> kid) list \<Rightarrow> string \<Rightarrow> cascade_child_info list \<times> bool" where
  "cascade_children lower edges target_key =
     (let st = search_from lower edges target_key
      in (dedup_by (\<lambda>a b. child_name a = child_name b) (sort_key child_name (se_children st)), se_truncated st))"

definition target_key_of :: "(string \<Rightarrow> string) \<Rightarrow> json list \<Rightarrow> table_ref \<Rightarrow> string option" where
  "target_key_of lower all_tables target =
     (case tb_schema target of
        Some s \<Rightarrow> Some (canonical_key lower s (tb_name target))
      | None \<Rightarrow>
          let candidates = List.map_filter (\<lambda>t. json_as_str (json_index t ''schema_name''))
                (filter (\<lambda>t. map_option lower (json_as_str (json_index t ''name'')) = Some (lower (tb_name target))) all_tables)
          in (case candidates of [schema] \<Rightarrow> Some (canonical_key lower schema (tb_name target)) | _ \<Rightarrow> None))"

definition build_cascade_graph ::
  "lib \<Rightarrow> (string \<Rightarrow> string) \<Rightarrow> string \<Rightarrow> table_ref list \<Rightarrow> (string \<times> cascade_child_info list \<times> bool) list" where
  "build_cascade_graph lib lower snapshot_json delete_targets =
     (case Option.bind (x_json_read lib snapshot_json) (json_field json_as_array ''tables'') of
        None \<Rightarrow> []
      | Some all_tables \<Rightarrow>
          let edges = reverse_map lower all_tables in
          fold (\<lambda>target result.
              case target_key_of lower all_tables target of
                None \<Rightarrow> result
              | Some k \<Rightarrow> upd_assoc k (cascade_children lower edges k) result)
            delete_targets [])"

definition enrich_one ::
  "(string \<Rightarrow> string) \<Rightarrow> json list \<Rightarrow> (string \<times> cascade_child_info list \<times> bool) list \<Rightarrow> table_risk_info \<Rightarrow> table_risk_info" where
  "enrich_one lower entries cascade_map info =
     (let matching = List.map_filter (\<lambda>e. json_as_str (json_index e ''schema_name''))
            (filter (\<lambda>e. case json_as_str (json_index e ''name'') of
                Some n \<Rightarrow> eq_ignore_ascii_case n (ti_name info) | None \<Rightarrow> False) entries);
          schema = (case matching of [m] \<Rightarrow> m | _ \<Rightarrow> ''public'')
      in case map_of cascade_map (canonical_key lower schema (ti_name info)) of
           Some (children, trunc) \<Rightarrow>
             info\<lparr> ti_cascade_children := children, ti_cascade_children_truncated := trunc \<rparr>
         | None \<Rightarrow> info)"

definition enrich_with_cascade_children ::
  "lib \<Rightarrow> (string \<Rightarrow> string) \<Rightarrow> table_risk_info list \<Rightarrow> string
     \<Rightarrow> (string \<times> cascade_child_info list \<times> bool) list \<Rightarrow> table_risk_info list" where
  "enrich_with_cascade_children lib lower infos tables_raw_json cascade_map =
     (let entries = (case x_json_read lib tables_raw_json of Some (JArr es) \<Rightarrow> es | _ \<Rightarrow> [])
      in map (enrich_one lower entries cascade_map) infos)"

subsection \<open>What the search finds\<close>

definition cascade_edges :: "(string \<Rightarrow> string) \<Rightarrow> (string \<times> kid) list \<Rightarrow> (string \<times> string) set" where
  "cascade_edges lower edges = (\<lambda>e. (fst e, kid_key lower (snd e))) ` set edges"

text \<open>The tables within \<open>n\<close> edges of \<open>t\<close>, and those at distance exactly \<open>n\<close>.\<close>

fun within :: "('a \<times> 'a) set \<Rightarrow> 'a \<Rightarrow> nat \<Rightarrow> 'a set" where
  "within E t 0 = {t}"
| "within E t (Suc n) = within E t n \<union> E `` within E t n"

fun level :: "('a \<times> 'a) set \<Rightarrow> 'a \<Rightarrow> nat \<Rightarrow> 'a set" where
  "level E t 0 = {t}"
| "level E t (Suc n) = within E t (Suc n) - within E t n"

lemma root_within [simp]: "t \<in> within E t n"
  by (induction n) auto

lemma level_within: "level E t n \<subseteq> within E t n"
  by (cases n) auto

text \<open>A level has all edges that leave the tables within its distance.\<close>

lemma within_level: "within E t n \<union> E `` level E t n = within E t (Suc n)"
proof (cases n)
  case 0
  then show ?thesis by simp
next
  case (Suc m)
  have "E `` within E t m \<subseteq> within E t n" by (auto simp: Suc)
  moreover have "E `` within E t n \<subseteq> E `` within E t m \<union> E `` level E t n" by (auto simp: Suc)
  moreover have "E `` level E t n \<subseteq> E `` within E t n" by (rule Image_mono [OF subset_refl level_within])
  ultimately show ?thesis unfolding within.simps by blast
qed

lemma level_Suc_image: "E `` level E t n - within E t n = level E t (Suc n)"
  using within_level [of E t n] by auto

lemma level_pos: "0 < n \<Longrightarrow> level E t n = within E t n - within E t (n - 1)"
  by (cases n) auto

lemma within_mono: "m \<le> n \<Longrightarrow> within E t m \<subseteq> within E t n"
  by (induction n) (auto simp: le_Suc_eq)

lemma level_disjoint: "m < n \<Longrightarrow> level E t m \<inter> level E t n = {}"
  using level_within [of E t m] within_mono [of m "n - 1" E t] by (cases n) auto

lemma level_unique: "k \<in> level E t m \<Longrightarrow> k \<in> level E t n \<Longrightarrow> m = n"
  using level_disjoint [of m n E t] level_disjoint [of n m E t] by (cases m n rule: linorder_cases) auto

definition child_key :: "(string \<Rightarrow> string) \<Rightarrow> cascade_child_info \<Rightarrow> string" where
  "child_key lower c = canonical_key lower (or_else (cc_schema_name c) []) (cc_table_name c)"

definition found :: "(string \<Rightarrow> string) \<Rightarrow> search \<Rightarrow> (string \<times> u8) set" where
  "found lower st = (\<lambda>c. (child_key lower c, cc_depth c)) ` set (se_children st)"

text \<open>The effect of visiting the tables \<open>X\<close> from depth \<open>d\<close>.\<close>

definition advance :: "(string \<Rightarrow> string) \<Rightarrow> string \<Rightarrow> u8 \<Rightarrow> string set \<Rightarrow> search \<Rightarrow> search \<Rightarrow> bool" where
  "advance lower t d X st st' \<longleftrightarrow>
     (\<exists>B. se_queue st' = se_queue st @ map (\<lambda>k. (k, d + 1)) B \<and> set B = X - set (se_visited st))
     \<and> set (se_visited st') = set (se_visited st) \<union> X
     \<and> found lower st' = found lower st \<union> (\<lambda>k. (k, d + 1)) ` (X - set (se_visited st))
          \<union> (if d = 0 \<and> t \<in> X then {(t, 1)} else {})
     \<and> se_truncated st' = se_truncated st"

lemma advance_refl: "advance lower t d {} st st"
  by (simp add: advance_def)

lemma advance_trans:
  assumes "advance lower t d X st st1" and "advance lower t d Y st1 st2"
  shows "advance lower t d (X \<union> Y) st st2"
proof -
  obtain B B' where q: "se_queue st1 = se_queue st @ map (\<lambda>k. (k, d + 1)) B" "set B = X - set (se_visited st)"
    "se_queue st2 = se_queue st1 @ map (\<lambda>k. (k, d + 1)) B'" "set B' = Y - set (se_visited st1)"
    using assms unfolding advance_def by metis
  have "se_queue st2 = se_queue st @ map (\<lambda>k. (k, d + 1)) (B @ B')"
    "set (B @ B') = (X \<union> Y) - set (se_visited st)"
    using q assms by (auto simp: advance_def)
  then show ?thesis
    using assms unfolding advance_def by (intro conjI exI [of _ "B @ B'"]) auto
qed

lemma child_key_info [simp]: "child_key lower (child_info kid d) = kid_key lower kid"
  by (simp add: child_key_def child_info_def kid_key_def or_else_def)

lemma cc_depth_info [simp]: "cc_depth (child_info kid d) = d"
  by (simp add: child_info_def)

lemma visit_kid_advance:
  assumes "t \<in> set (se_visited st)"
  shows "advance lower t d {kid_key lower kid} st (visit_kid lower t d kid st)"
proof (cases "kid_key lower kid = t \<or> kid_key lower kid \<in> set (se_visited st)")
  case True
  then show ?thesis
    using assms by (auto simp: advance_def visit_kid_def Let_def found_def)
next
  case False
  then show ?thesis
    unfolding advance_def
    by (intro conjI exI [of _ "[kid_key lower kid]"]) (auto simp: visit_kid_def Let_def found_def)
qed

lemma advance_visited: "advance lower t d X st st' \<Longrightarrow> t \<in> set (se_visited st) \<Longrightarrow> t \<in> set (se_visited st')"
  by (simp add: advance_def)

lemma fold_visit_advance:
  assumes "t \<in> set (se_visited st)"
  shows "advance lower t d (kid_key lower ` set ks) st (fold (visit_kid lower t d) ks st)"
  using assms
proof (induction ks arbitrary: st)
  case Nil
  then show ?case by (simp add: advance_refl)
next
  case (Cons k ks)
  note one = visit_kid_advance [OF Cons.prems, of lower d k]
  from Cons.IH [OF advance_visited [OF one Cons.prems]]
  have "advance lower t d ({kid_key lower k} \<union> kid_key lower ` set ks) st
      (fold (visit_kid lower t d) ks (visit_kid lower t d k st))"
    using advance_trans [OF one] by blast
  then show ?case by simp
qed

lemma kids_edges: "kid_key lower ` set (kids_of edges k) = cascade_edges lower edges `` {k}"
  by (force simp: kids_of_def cascade_edges_def)

lemma visit_table_advance:
  assumes "t \<in> set (se_visited st)" and "d < MAX_CASCADE_DEPTH"
  shows "advance lower t d (cascade_edges lower edges `` {k}) st (visit_table lower edges t (k, d) st)"
proof -
  have "\<not> MAX_CASCADE_DEPTH \<le> d" using assms(2) by simp
  then show ?thesis
    using fold_visit_advance [OF assms(1), of lower d "kids_of edges k"]
    by (simp add: visit_table_def kids_edges)
qed

lemma advance_queue:
  assumes "advance lower t d X (st\<lparr> se_queue := P @ Q \<rparr>) st1"
  obtains Q' where "se_queue st1 = P @ Q'" and "advance lower t d X (st\<lparr> se_queue := Q \<rparr>) (st1\<lparr> se_queue := Q' \<rparr>)"
proof -
  obtain B where B: "se_queue st1 = P @ Q @ map (\<lambda>k. (k, d + 1)) B" "set B = X - set (se_visited st)"
    using assms by (auto simp: advance_def)
  show thesis
  proof (rule that)
    show "se_queue st1 = P @ (Q @ map (\<lambda>k. (k, d + 1)) B)" using B(1) by simp
    show "advance lower t d X (st\<lparr> se_queue := Q \<rparr>) (st1\<lparr> se_queue := Q @ map (\<lambda>k. (k, d + 1)) B \<rparr>)"
      using assms B(2) by (auto simp: advance_def found_def)
  qed
qed

text \<open>One level of the search.\<close>

lemma level_pass:
  assumes "t \<in> set (se_visited st)" and "d < MAX_CASCADE_DEPTH" and "se_queue st = map (\<lambda>k. (k, d)) A @ Q"
  shows "\<exists>st'. search_loop lower edges t st = search_loop lower edges t st'
    \<and> advance lower t d (cascade_edges lower edges `` set A) (st\<lparr> se_queue := Q \<rparr>) st'"
  using assms(1,3)
proof (induction A arbitrary: st Q)
  case Nil
  then have "st\<lparr> se_queue := Q \<rparr> = st" by simp
  then show ?case by (metis Image_empty2 advance_refl list.set(1))
next
  case (Cons a A)
  let ?st = "st\<lparr> se_queue := map (\<lambda>k. (k, d)) A @ Q \<rparr>"
  let ?st1 = "visit_table lower edges t (a, d) ?st"
  have loop: "search_loop lower edges t st = search_loop lower edges t ?st1"
    using Cons.prems(2) by (subst search_loop.simps) simp
  have adv: "advance lower t d (cascade_edges lower edges `` {a}) ?st ?st1"
    using Cons.prems(1) by (intro visit_table_advance assms(2)) simp
  from adv obtain Q' where Q': "se_queue ?st1 = map (\<lambda>k. (k, d)) A @ Q'"
    and adv1: "advance lower t d (cascade_edges lower edges `` {a}) (st\<lparr> se_queue := Q \<rparr>) (?st1\<lparr> se_queue := Q' \<rparr>)"
    by (rule advance_queue)
  have "t \<in> set (se_visited ?st1)" using advance_visited [OF adv] Cons.prems(1) by simp
  from Cons.IH [OF this Q'] obtain st' where
    st': "search_loop lower edges t ?st1 = search_loop lower edges t st'"
    "advance lower t d (cascade_edges lower edges `` set A) (?st1\<lparr> se_queue := Q' \<rparr>) st'" by blast
  have "cascade_edges lower edges `` set (a # A) = cascade_edges lower edges `` {a} \<union> cascade_edges lower edges `` set A"
    by auto
  with advance_trans [OF adv1 st'(2)] loop st'(1) show ?case by metis
qed

text \<open>The state of the search before level \<open>n\<close>.\<close>

definition at_level :: "(string \<Rightarrow> string) \<Rightarrow> (string \<times> string) set \<Rightarrow> string \<Rightarrow> nat \<Rightarrow> search \<Rightarrow> bool" where
  "at_level lower E t n st \<longleftrightarrow>
     (\<exists>A. se_queue st = map (\<lambda>k. (k, of_nat n)) A \<and> set A = level E t n)
     \<and> set (se_visited st) = within E t n
     \<and> found lower st = (\<Union>m \<in> {1..n}. (\<lambda>k. (k, of_nat m)) ` level E t m) \<union> (if 0 < n \<and> (t, t) \<in> E then {(t, 1)} else {})
     \<and> \<not> se_truncated st"

lemma next_level:
  assumes "at_level lower (cascade_edges lower edges) t n st" and "n < 3"
  shows "\<exists>st'. search_loop lower edges t st = search_loop lower edges t st'
    \<and> at_level lower (cascade_edges lower edges) t (Suc n) st'"
proof -
  let ?E = "cascade_edges lower edges"
  have d: "(of_nat n :: u8) < MAX_CASCADE_DEPTH" "of_nat n = (0 :: u8) \<longleftrightarrow> n = 0"
    "(of_nat n + 1 :: u8) = of_nat (Suc n)"
    using assms(2) by (auto simp: MAX_CASCADE_DEPTH_def less_Suc_eq numeral_3_eq_3)
  obtain A where A: "se_queue st = map (\<lambda>k. (k, of_nat n)) A @ []" "set A = level ?E t n"
    using assms(1) by (auto simp: at_level_def)
  have vis: "set (se_visited st) = within ?E t n" using assms(1) by (simp add: at_level_def)
  then have "t \<in> set (se_visited st)" by simp
  from level_pass [OF this d(1) A(1)] obtain st' where
    loop: "search_loop lower edges t st = search_loop lower edges t st'" and
    adv: "advance lower t (of_nat n) (?E `` level ?E t n) (st\<lparr> se_queue := [] \<rparr>) st'"
    unfolding A(2) by blast
  have self: "n = 0 \<and> t \<in> ?E `` level ?E t n \<longleftrightarrow> n = 0 \<and> (t, t) \<in> ?E" by auto
  have "at_level lower ?E t (Suc n) st'"
    unfolding at_level_def
  proof (intro conjI)
    show "\<exists>A. se_queue st' = map (\<lambda>k. (k, of_nat (Suc n))) A \<and> set A = level ?E t (Suc n)"
      using adv vis by (auto simp: advance_def d(3) level_Suc_image simp del: level.simps of_nat_Suc)
    show "set (se_visited st') = within ?E t (Suc n)"
      using adv vis by (simp add: advance_def within_level del: within.simps)
    show "\<not> se_truncated st'" using adv assms(1) by (simp add: advance_def at_level_def)
    have "{1..Suc n} = insert (Suc n) {1..n}" by auto
    then show "found lower st' = (\<Union>m \<in> {1..Suc n}. (\<lambda>k. (k, of_nat m)) ` level ?E t m)
        \<union> (if 0 < Suc n \<and> (t, t) \<in> ?E then {(t, 1)} else {})"
      using adv assms(1) vis self
      by (auto simp: advance_def at_level_def d(2,3) level_Suc_image found_def simp del: level.simps of_nat_Suc)
  qed
  with loop show ?thesis by blast
qed

lemma last_pass:
  assumes "se_queue st = map (\<lambda>k. (k, MAX_CASCADE_DEPTH)) A" and "t \<in> set (se_visited st)"
  shows "se_children (search_loop lower edges t st) = se_children st
    \<and> (se_truncated (search_loop lower edges t st) \<longleftrightarrow>
        se_truncated st \<or> \<not> cascade_edges lower edges `` set A \<subseteq> set (se_visited st))"
  using assms
proof (induction A arbitrary: st)
  case Nil
  then show ?case by (subst (1 2) search_loop.simps) simp
next
  case (Cons a A)
  let ?st = "st\<lparr> se_queue := map (\<lambda>k. (k, MAX_CASCADE_DEPTH)) A \<rparr>"
  let ?st1 = "visit_table lower edges t (a, MAX_CASCADE_DEPTH) ?st"
  have loop: "search_loop lower edges t st = search_loop lower edges t ?st1"
    using Cons.prems(1) by (subst search_loop.simps) simp
  have "list_ex (\<lambda>kid. kid_key lower kid \<noteq> t \<and> kid_key lower kid \<notin> set (se_visited st)) (kids_of edges a)
      \<longleftrightarrow> \<not> cascade_edges lower edges `` {a} \<subseteq> set (se_visited st)"
    using Cons.prems(2) unfolding kids_edges [symmetric] list_ex_iff by auto
  then have st1: "?st1 = ?st\<lparr> se_truncated := se_truncated st \<or> \<not> cascade_edges lower edges `` {a} \<subseteq> set (se_visited st) \<rparr>"
    by (simp add: visit_table_def)
  have "cascade_edges lower edges `` set (a # A) = cascade_edges lower edges `` {a} \<union> cascade_edges lower edges `` set A"
    by auto
  with Cons.IH [of ?st1] Cons.prems(2) show ?case
    unfolding loop st1 by auto
qed

lemma dedup_by_set:
  assumes "\<And>x y. x \<in> set xs \<Longrightarrow> y \<in> set xs \<Longrightarrow> eq x y \<Longrightarrow> g x = g y"
  shows "g ` set (dedup_by eq xs) = g ` set xs"
  using assms
proof (induction eq xs rule: dedup_by.induct)
  case (1 eq x y zs)
  show ?case
  proof (cases "eq y x")
    case True
    then have "g y = g x" using "1.prems" by simp
    moreover have "g ` set (dedup_by eq (x # zs)) = g ` set (x # zs)"
      using True "1.prems" by (intro "1.IH"(1)) auto
    ultimately show ?thesis using True by auto
  next
    case False
    then have "g ` set (dedup_by eq (y # zs)) = g ` set (y # zs)"
      using "1.prems" by (intro "1.IH"(2)) auto
    with False show ?thesis by simp
  qed
qed simp_all

lemma dedup_by_names: "map f (dedup_by (\<lambda>a b. f a = f b) xs) = remdups_adj (map f xs)"
  by (induction "\<lambda>a b. f a = f b" xs rule: dedup_by.induct) (auto simp: eq_commute)

lemma distinct_remdups_sorted: "sorted xs \<Longrightarrow> distinct (remdups_adj xs)"
proof (induction xs rule: remdups_adj.induct)
  case (3 x y xs)
  then show ?case by (cases "x = y") (auto simp: remdups_adj_set)
qed simp_all

text \<open>C21: For a table that rows are deleted from, the search through the cascading foreign keys of a
  snapshot lists exactly the tables at distance one, two and three with that distance, and the
  table itself at distance one if it references itself, each name once; the result is marked as
  truncated exactly if some further table is at distance four.\<close>

theorem cascade_search_exact:
  fixes lower :: "string \<Rightarrow> string" and edges :: "(string \<times> kid) list" and t :: string
  defines "E \<equiv> cascade_edges lower edges"
  shows "(\<lambda>c. (child_key lower c, cc_depth c)) ` set (fst (cascade_children lower edges t))
       = {(k, of_nat n) | k n. n \<in> {1..3} \<and> k \<in> within E t n - within E t (n - 1)}
         \<union> (if (t, t) \<in> E then {(t, 1)} else {})
     \<and> (snd (cascade_children lower edges t) \<longleftrightarrow> within E t 4 \<noteq> within E t 3)
     \<and> distinct (map child_name (fst (cascade_children lower edges t)))"
proof -
  define st0 where "st0 = \<lparr> se_visited = [t], se_queue = [(t, 0)], se_children = [], se_truncated = False \<rparr>"
  have "at_level lower E t 0 st0"
    by (auto simp: at_level_def st0_def found_def intro: exI [of _ "[t]"])
  then obtain st1 where 1: "search_loop lower edges t st0 = search_loop lower edges t st1" "at_level lower E t 1 st1"
    using next_level [of lower edges t 0 st0] unfolding E_def by auto
  then obtain st2 where 2: "search_loop lower edges t st1 = search_loop lower edges t st2" "at_level lower E t 2 st2"
    using next_level [of lower edges t 1 st1] unfolding E_def numeral_2_eq_2 by auto
  then obtain st3 where 3: "search_loop lower edges t st2 = search_loop lower edges t st3" "at_level lower E t 3 st3"
    using next_level [of lower edges t 2 st2] unfolding E_def by auto
  let ?st = "search_loop lower edges t st3"
  obtain A where A: "se_queue st3 = map (\<lambda>k. (k, MAX_CASCADE_DEPTH)) A" "set A = level E t 3"
    using 3(2) by (auto simp: at_level_def MAX_CASCADE_DEPTH_def)
  have vis: "set (se_visited st3) = within E t 3" using 3(2) by (simp add: at_level_def)
  from last_pass [OF A(1), of t lower edges] vis 3(2)
  have fin: "se_children ?st = se_children st3" "se_truncated ?st \<longleftrightarrow> \<not> E `` level E t 3 \<subseteq> within E t 3"
    unfolding A(2) E_def [symmetric] by (simp_all add: at_level_def)
  let ?pair = "\<lambda>c. (child_key lower c, cc_depth c)" and ?cs = "se_children st3"
  have found: "?pair ` set ?cs = (\<Union>m \<in> {1..3}. (\<lambda>k. (k, of_nat m)) ` level E t m) \<union> (if (t, t) \<in> E then {(t, 1)} else {})"
    using 3(2) by (simp add: at_level_def found_def)
  have same: "?pair x = ?pair y" if "x \<in> set ?cs" "y \<in> set ?cs" "child_name x = child_name y" for x y
  proof -
    have k: "child_key lower x = child_key lower y" using that(3) by (simp add: child_key_def child_name_def)
    have depth: "child_key lower c = t \<and> cc_depth c = 1 \<or> (\<exists>m > 0. child_key lower c \<in> level E t m \<and> cc_depth c = of_nat m)"
      if "c \<in> set ?cs" for c
    proof -
      have "?pair c \<in> ?pair ` set ?cs" using that by blast
      then show ?thesis unfolding found by (auto split: if_splits)
    qed
    have root: "t \<notin> level E t m" if "0 < m" for m using that by (simp add: level_pos)
    have "cc_depth x = cc_depth y"
      using depth [OF that(1)] depth [OF that(2)] root level_unique unfolding k by metis
    with k show ?thesis by simp
  qed
  have "Suc 3 = 4" by simp
  then have four: "within E t 4 = within E t 3 \<union> E `` level E t 3" using within_level [of E t 3] by metis
  have res: "fst (cascade_children lower edges t) = dedup_by (\<lambda>a b. child_name a = child_name b) (sort_key child_name ?cs)"
    "snd (cascade_children lower edges t) = se_truncated ?st"
    using 1(1) 2(1) 3(1) fin(1) by (simp_all add: cascade_children_def search_from_def st0_def Let_def)
  have "?pair ` set (fst (cascade_children lower edges t)) = ?pair ` set (sort_key child_name ?cs)"
    unfolding res by (rule dedup_by_set, rule same; simp)
  also have "\<dots> = ?pair ` set ?cs" by simp
  also have "\<dots> = {(k, of_nat n) | k n. n \<in> {1..3} \<and> k \<in> within E t n - within E t (n - 1)}
         \<union> (if (t, t) \<in> E then {(t, 1)} else {})"
    unfolding found by (auto simp: level_pos)
  moreover have "snd (cascade_children lower edges t) \<longleftrightarrow> within E t 4 \<noteq> within E t 3"
    using fin(2) unfolding res four by blast
  moreover have "distinct (map child_name (fst (cascade_children lower edges t)))"
    unfolding res dedup_by_names by (intro distinct_remdups_sorted) simp
  ultimately show ?thesis by simp
qed

end
