(* ===== verification/UC_Create.thy ===== *)
theory UC_Create
  imports UC_Execution Risk_Analysis
begin

text \<open>
  Request creation (\<open>crates/dbward-app/src/use_cases/create_request.rs\<close>): input checks,
  classification of the SQL with the break-glass bypass, review and risk assessment, permissions,
  idempotency, the workflow decision with its trace (\<open>decision_trace.rs\<close>), and the transaction
  that stores the request, at once dispatched where no approval is needed. Steps before the
  transaction can fail after an effect (a metric, an audit entry about blocked SQL), so they run
  in a state monad whose errors keep the state.
\<close>

subsection \<open>Input, output, effects\<close>

datatype request_channel = ChCli | ChApi | ChMcp | ChSlack

definition is_restricted :: "request_channel \<Rightarrow> bool" where
  "is_restricted c \<longleftrightarrow> c = ChMcp \<or> c = ChSlack"

record create_input =
  ni_database :: database_name
  ni_environment :: environment
  ni_operation :: operation
  ni_detail :: string
  ni_reason :: "string option"
  ni_emergency :: bool
  ni_allow_ddl :: bool
  ni_idempotency_key :: "string option"
  ni_share_with :: "string list"
  ni_no_result_store :: bool
  ni_metadata_json :: string
  ni_channel :: request_channel

record create_output =
  no_id :: string
  no_status :: request_status
  no_operation :: operation
  no_is_existing :: bool
  no_expires_at :: "timestamp option"
  no_approvers :: "string list"

datatype break_glass_denial = RequiresEmergency | RestrictedChannel | MissingAllowDdl string
  | NonBypassableStatement string | NonBypassableReviewRule "string list"

fun into_app_error :: "break_glass_denial \<Rightarrow> app_error" where
  "into_app_error RequiresEmergency = Validation ''--allow-ddl requires --emergency''"
| "into_app_error RestrictedChannel = Validation ''--allow-ddl is not allowed via MCP/Slack''"
| "into_app_error (MissingAllowDdl original_reason) =
     Validation (original_reason @ ''. Hint: add --allow-ddl to bypass in emergency mode'')"
| "into_app_error (NonBypassableStatement reason) = Validation reason"
| "into_app_error (NonBypassableReviewRule reasons) =
     Validation (''SQL blocked by review (not bypassable): '' @ join ''; '' reasons)"

datatype metric = DdlAttempted | DdlDenied | DdlAllowed | AuditWriteFailure

text \<open>The columns of a dry-run job that are not null.\<close>

record dry_run_job =
  dj_id :: string
  dj_request_id :: string
  dj_database_name :: string
  dj_environment :: string
  dj_sql_text :: string
  dj_status :: string
  dj_created_at :: string

record request_context =
  rc_request_id :: string
  rc_status :: string
  rc_schema_snapshot_collected_at :: "string option"
  rc_tables_json :: "string option"
  rc_sql_review_json :: "string option"
  rc_risk_json :: "string option"
  rc_explain_json :: "string option"
  rc_created_at :: string
  rc_updated_at :: string

datatype create_effect = FxMetric metric | FxWebhook webhook_event | FxDryRun "dry_run_job list"
  | FxContext request_context

text \<open>A step: the database and the effects so far; an error keeps both.\<close>

type_synonym 'a act = "store \<times> create_effect list \<Rightarrow> 'a app_result \<times> store \<times> create_effect list"

definition thenA :: "'a act \<Rightarrow> ('a \<Rightarrow> 'b act) \<Rightarrow> 'b act" where
  "thenA m k = (\<lambda>st. case m st of (Inl e, st') \<Rightarrow> (Inl e, st') | (Inr x, st') \<Rightarrow> k x st')"

definition liftA :: "'a app_result \<Rightarrow> 'a act" where
  "liftA r = (\<lambda>st. (r, st))"

definition emitA :: "create_effect \<Rightarrow> unit act" where
  "emitA fx = (\<lambda>(s, fxs). (Inr (), s, fxs @ [fx]))"

definition readA :: "(store \<Rightarrow> 'a app_result) \<Rightarrow> 'a act" where
  "readA f = (\<lambda>(s, fxs). (f s, s, fxs))"

definition storeA :: "(store \<Rightarrow> store) \<Rightarrow> unit act" where
  "storeA f = (\<lambda>(s, fxs). (Inr (), f s, fxs))"

subsection \<open>Ports\<close>

record schema_snapshot =
  sn_status :: string
  sn_snapshot_json :: "string option"
  sn_collected_at :: string

record sql_review_policy =
  sv_id :: string
  sv_rules :: review_rules

datatype trace_schema_status = TsReady | TsNotSynced | TsFailed | TsUnavailable

datatype trace_outcome = ToAutoApproved | ToNeedsApproval

datatype decision_reason = ExplicitAlways | RiskBelowThreshold | ReasonBreakGlass | RiskAboveThreshold
  | NoAutoApproveRule | RiskUnavailable

record decision_trace =
  dt_version :: nat
  dt_resolved_operation :: operation
  dt_policy_id :: "string option"
  dt_findings_count :: nat
  dt_parse_failed :: bool
  dt_level :: risk_level
  dt_factors :: "string list"
  dt_schema_status :: trace_schema_status
  dt_matched :: "(string \<times> string \<times> string \<times> nat) option"
  dt_outcome :: trace_outcome
  dt_reasons :: "decision_reason list"
  dt_auto_approve_threshold :: "risk_level option"

text \<open>The readings of the clock and the identifiers drawn are numbered in the order of the source.
  The table extractor and the redactor of the domain crate walk the syntax tree of the parser
  crate and are given by what they return; the two serialisers are \<open>serde_json\<close>.\<close>

record create_ports =
  pt_lib :: lib
  pt_lower :: "string \<Rightarrow> string"
  pt_parse_sql :: sql_lib
  pt_dialect :: "database_name \<Rightarrow> environment \<Rightarrow> string option app_result"
  pt_workflow :: "database_name \<Rightarrow> environment \<Rightarrow> operation \<Rightarrow> workflow option app_result"
  pt_review_policy :: "database_name \<Rightarrow> environment \<Rightarrow> sql_review_policy app_result"
  pt_snapshot :: "database_name \<Rightarrow> environment \<Rightarrow> schema_snapshot option app_result"
  pt_tables :: "parsed_statement list \<Rightarrow> table_ref list"
  pt_has_delete :: "parsed_statement list \<Rightarrow> bool"
  pt_delete_targets :: "parsed_statement list \<Rightarrow> table_ref list"
  pt_exists_active :: "database_name \<Rightarrow> environment \<Rightarrow> bool app_result"
  pt_list_active :: "(database_name \<times> environment) list app_result"
  pt_redact :: "string \<Rightarrow> string"
  pt_workflow_text :: "workflow \<Rightarrow> string + string"
  pt_trace_text :: "decision_trace \<Rightarrow> string + string"
  pt_clock :: "nat \<Rightarrow> timestamp"
  pt_id :: "nat \<Rightarrow> string"
  pt_log_id :: string
  pt_audit :: "nat \<Rightarrow> audit_env"
  pt_faults :: tx_faults
  pt_default_approval_ttl_secs :: "u64 option"

definition MAX_QUERY_BYTES :: nat where
  "MAX_QUERY_BYTES = 100000"

definition MAX_REASON_BYTES :: nat where
  "MAX_REASON_BYTES = 1024"

definition check_input :: "create_input \<Rightarrow> unit app_result" where
  "check_input input =
     tryE (guardE (\<not> length (ni_detail input) > MAX_QUERY_BYTES) (Validation ''query too long (max 100KB)'')) (\<lambda>_.
     tryE (guardE (\<not> (case ni_reason input of Some reason \<Rightarrow> length reason > MAX_REASON_BYTES | None \<Rightarrow> False))
            (Validation ''reason too long (max 1KB)'')) (\<lambda>_.
     tryE (guardE (\<not> (ni_allow_ddl input \<and> \<not> ni_emergency input)) (into_app_error RequiresEmergency)) (\<lambda>_.
     guardE (\<not> (ni_allow_ddl input \<and> is_restricted (ni_channel input))) (into_app_error RestrictedChannel))))"

definition dialect_of :: "string option \<Rightarrow> dialect" where
  "dialect_of d = (if d = Some ''mysql'' then MySql else PostgreSql)"

subsection \<open>The operation\<close>

definition all_eligible :: "parsed_statement list option \<Rightarrow> bool" where
  "all_eligible parsed =
     (case parsed of
        Some stmts \<Rightarrow> stmts \<noteq> [] \<and> list_all (\<lambda>s. is_break_glass_eligible (categorize_statement (st_kind s))) stmts
      | None \<Rightarrow> False)"

definition bypass_classification :: "parsed_statement list \<Rightarrow> classification" where
  "bypass_classification stmts =
     \<lparr> cl_operation = ExecuteDml, cl_dml_reason = Some DrDestructiveDdl, cl_statement_count = length stmts,
       cl_statements = map st_text stmts, cl_is_ddl_only = True, cl_contains_ddl = True \<rparr>"

text \<open>The operation, the classification and the statements, and whether the classifier's rejection was
  bypassed.\<close>

definition resolve_operation ::
  "create_ports \<Rightarrow> create_input \<Rightarrow> dialect
     \<Rightarrow> (operation \<times> classification option \<times> parsed_statement list option \<times> bool) act" where
  "resolve_operation ports input dialect =
     (if ni_operation input \<in> {MigrateUp, MigrateDown, MigrateStatus, MigrateRepair}
      then liftA (Inr (ni_operation input, None, None, False))
      else
        let result = classify_full (pt_parse_sql ports) (ni_detail input) dialect;
            parsed = cr_parsed_statements result
        in case cr_classification result of
             Inr c \<Rightarrow> liftA (Inr (cl_operation c, Some c, parsed, False))
           | Inl CeEmpty \<Rightarrow> liftA (Inl (Validation ''empty query''))
           | Inl (CeRejected reason) \<Rightarrow>
               if ni_emergency input \<and> ni_allow_ddl input then
                 (if all_eligible parsed
                  then liftA (Inr (ExecuteDml, map_option bypass_classification parsed, parsed, True))
                  else thenA (emitA (FxMetric DdlDenied)) (\<lambda>_. liftA (Inl (into_app_error (NonBypassableStatement reason)))))
               else if ni_emergency input \<and> \<not> ni_allow_ddl input then
                 (if all_eligible parsed then liftA (Inl (into_app_error (MissingAllowDdl reason)))
                  else liftA (Inl (Validation reason)))
               else liftA (Inl (Validation reason)))"

subsection \<open>Review\<close>

definition blocking :: "review_result \<Rightarrow> finding list" where
  "blocking rv = filter (\<lambda>f. fd_action f = RaBlock) (rv_findings rv)"

definition blocked_event ::
  "create_ports \<Rightarrow> create_input \<Rightarrow> auth_user \<Rightarrow> audit_context \<Rightarrow> operation \<Rightarrow> (string \<times> json) list \<Rightarrow> audit_event" where
  "blocked_event ports input user ctx op metadata =
     (audit_event_simple ''request.blocked_by_review'' ''approval'' (au_subject_id user) None (pt_clock ports 0) ctx)
       \<lparr> ae_database_name := Some (db_str (ni_database input)), ae_environment := Some (env_str (ni_environment input)),
         ae_operation := Some (operation_as_str op),
         ae_detail_fingerprint := Some (truncate_utf8 (pt_redact ports (ni_detail input)) 1024),
         ae_metadata_json := x_json_text (pt_lib ports) (JObj metadata) \<rparr>"

text \<open>\<open>audit_logger.record\<close>: a transaction of its own whose error is only logged.\<close>

definition log_audit :: "create_ports \<Rightarrow> audit_event \<Rightarrow> store \<Rightarrow> store" where
  "log_audit ports ev s =
     (case insert_audit_event (pt_lib ports) (pt_log_id ports) ev (st_audit s) of
        Inr t \<Rightarrow> s\<lparr> st_audit := t \<rparr> | Inl _ \<Rightarrow> s)"

text \<open>Whether the reviewer's block was bypassed.\<close>

definition review_gate ::
  "create_ports \<Rightarrow> create_input \<Rightarrow> auth_user \<Rightarrow> audit_context \<Rightarrow> operation \<Rightarrow> parsed_statement list
     \<Rightarrow> review_result \<Rightarrow> bool act" where
  "review_gate ports input user ctx op stmts rv =
     (let reasons = map fd_message (blocking rv);
          names = (''blocked_rules'', JArr (map JStr reasons))
      in
      if \<not> rv_blocked rv then liftA (Inr False)
      else if ni_emergency input \<and> ni_allow_ddl input then
        (if \<not> all_eligible (Some stmts) \<or> list_ex (\<lambda>f. \<not> is_break_glass_bypassable (fd_rule f)) (blocking rv)
         then
           thenA (storeA (log_audit ports (blocked_event ports input user ctx op
                    [names, (''break_glass_attempted'', JBool True)]))) (\<lambda>_.
           thenA (emitA (FxMetric DdlDenied)) (\<lambda>_.
           liftA (Inl (into_app_error (NonBypassableReviewRule reasons)))))
         else liftA (Inr True))
      else
        thenA (storeA (log_audit ports (blocked_event ports input user ctx op [names]))) (\<lambda>_.
        let base_msg = ''SQL blocked by review: '' @ join ''; '' reasons in
        liftA (Inl (Validation
          (if list_all (\<lambda>f. is_break_glass_bypassable (fd_rule f)) (blocking rv)
              \<and> ni_emergency input \<and> \<not> is_restricted (ni_channel input)
           then base_msg @ ''. Hint: add --allow-ddl to bypass in emergency mode''
           else base_msg)))))"

subsection \<open>Risk assessment\<close>

record assessment =
  as_risk_level :: "risk_level option"
  as_review_json :: "string option"
  as_risk_json :: "string option"
  as_stmt_texts :: "string list option"
  as_tables_json :: "string option"
  as_schema_collected_at :: "string option"
  as_findings_count :: nat
  as_risk_factors :: "string list"
  as_schema_status :: trace_schema_status
  as_policy_id :: "string option"

definition unavailable :: assessment where
  "unavailable =
     \<lparr> as_risk_level = None, as_review_json = None, as_risk_json = None, as_stmt_texts = None,
       as_tables_json = None, as_schema_collected_at = None, as_findings_count = 0, as_risk_factors = [],
       as_schema_status = TsUnavailable, as_policy_id = None \<rparr>"

text \<open>The \<open>Debug\<close> names of levels and rules.\<close>

fun risk_level_debug :: "risk_level \<Rightarrow> string" where
  "risk_level_debug Low = ''Low''"
| "risk_level_debug Medium = ''Medium''"
| "risk_level_debug High = ''High''"
| "risk_level_debug Critical = ''Critical''"
| "risk_level_debug Unknown = ''Unknown''"
| "risk_level_debug Unavailable = ''Unavailable''"

fun rule_debug :: "rule_id \<Rightarrow> string" where
  "rule_debug NoWhereDelete = ''NoWhereDelete''"
| "rule_debug NoWhereUpdate = ''NoWhereUpdate''"
| "rule_debug DropTable = ''DropTable''"
| "rule_debug DropColumn = ''DropColumn''"
| "rule_debug DropIndex = ''DropIndex''"
| "rule_debug DropView = ''DropView''"
| "rule_debug DropSequence = ''DropSequence''"
| "rule_debug RuleCreateSequence = ''CreateSequence''"
| "rule_debug NotNullWithoutDefault = ''NotNullWithoutDefault''"
| "rule_debug CreateIndexNotConcurrently = ''CreateIndexNotConcurrently''"
| "rule_debug AlterColumnType = ''AlterColumnType''"
| "rule_debug Truncate = ''Truncate''"
| "rule_debug MixedDdlDml = ''MixedDdlDml''"
| "rule_debug LargeInList = ''LargeInList''"
| "rule_debug ParseFailure = ''ParseFailure''"

fun factor_json :: "risk_factor \<Rightarrow> json" where
  "factor_json (FCascadeDelete targets) =
     JObj [(''name'', JStr (risk_factor_name (FCascadeDelete targets))), (''targets'', JArr (map JStr targets))]"
| "factor_json (FLargeTable rows) =
     JObj [(''name'', JStr (risk_factor_name (FLargeTable rows))), (''rows'', JNum rows)]"
| "factor_json (FManyWarnings n) =
     JObj [(''name'', JStr (risk_factor_name (FManyWarnings n))), (''count'', JNum (int n))]"
| "factor_json f = JObj [(''name'', JStr (risk_factor_name f))]"

definition serialize_factors :: "risk_factor list \<Rightarrow> json list" where
  "serialize_factors factors = map factor_json factors"

definition opt_json :: "string option \<Rightarrow> json" where
  "opt_json m = (case m of Some s \<Rightarrow> JStr s | None \<Rightarrow> JNull)"

definition child_json :: "cascade_child_info \<Rightarrow> json" where
  "child_json c =
     JObj [(''table_name'', JStr (cc_table_name c)), (''schema_name'', opt_json (cc_schema_name c)),
           (''estimated_rows'', JNum (cc_estimated_rows c)), (''depth'', JNum (uint (cc_depth c)))]"

text \<open>The snapshot entries shown to approvers, with the cascade children added.\<close>

definition enrich_entry :: "json \<times> table_risk_info \<Rightarrow> json" where
  "enrich_entry p =
     (let (entry, info) = p in
      if ti_cascade_children info \<noteq> []
      then json_set ''cascade_children_truncated'' (JBool (ti_cascade_children_truncated info))
             (json_set ''cascade_children'' (JArr (map child_json (ti_cascade_children info))) entry)
      else entry)"

definition enrich_entries :: "json list \<Rightarrow> table_risk_info list \<Rightarrow> json list" where
  "enrich_entries arr infos = map enrich_entry (zip arr infos) @ drop (length infos) arr"

definition table_ref_text :: "table_ref \<Rightarrow> string" where
  "table_ref_text t = (case tb_schema t of Some s \<Rightarrow> s @ ''.'' @ tb_name t | None \<Rightarrow> tb_name t)"

definition tables_json_of ::
  "lib \<Rightarrow> table_ref list \<Rightarrow> string option \<Rightarrow> table_risk_info list \<Rightarrow> string option" where
  "tables_json_of lib tables raw infos =
     (let shown = (if list_ex (\<lambda>t. ti_cascade_children t \<noteq> []) infos then
            (case Option.bind raw (x_json_read lib) of
               Some (JArr arr) \<Rightarrow> Some (x_json_text lib (JArr (enrich_entries arr infos)))
             | _ \<Rightarrow> raw)
          else raw)
      in case shown of
           Some t \<Rightarrow> Some t
         | None \<Rightarrow> Some (x_json_text lib (JArr (map (\<lambda>t. JStr (table_ref_text t)) tables))))"

definition schema_status_of :: "schema_snapshot option \<Rightarrow> schema_status \<times> string option" where
  "schema_status_of snapshot =
     (case snapshot of
        Some s \<Rightarrow> (if sn_status s = ''ready'' then SchemaReady else SchemaFailed, Some (sn_collected_at s))
      | None \<Rightarrow> (SchemaNotSynced, None))"

definition ready_json :: "schema_snapshot option \<Rightarrow> string option" where
  "ready_json snapshot =
     (case snapshot of Some s \<Rightarrow> if sn_status s = ''ready'' then sn_snapshot_json s else None | None \<Rightarrow> None)"

fun trace_schema_status_of :: "schema_status \<Rightarrow> trace_schema_status" where
  "trace_schema_status_of SchemaReady = TsReady"
| "trace_schema_status_of SchemaFailed = TsFailed"
| "trace_schema_status_of SchemaNotSynced = TsNotSynced"

definition table_facts ::
  "create_ports \<Rightarrow> parsed_statement list \<Rightarrow> schema_snapshot option \<Rightarrow> string option \<Rightarrow> table_risk_info list" where
  "table_facts ports stmts snapshot raw =
     (let infos = (case raw of Some js \<Rightarrow> parse_table_risk_info (pt_lib ports) js | None \<Rightarrow> []);
          targets = pt_delete_targets ports stmts
      in case (ready_json snapshot, raw) of
           (Some snap_json, Some js) \<Rightarrow>
             if pt_has_delete ports stmts \<and> targets \<noteq> []
             then enrich_with_cascade_children (pt_lib ports) (pt_lower ports) infos js
                    (build_cascade_graph (pt_lib ports) (pt_lower ports) snap_json targets)
             else infos
         | _ \<Rightarrow> infos)"

definition assessed_risk ::
  "create_ports \<Rightarrow> operation \<Rightarrow> dialect \<Rightarrow> workflow option \<Rightarrow> parsed_statement list \<Rightarrow> review_result
     \<Rightarrow> schema_status \<Rightarrow> table_risk_info list \<Rightarrow> risk_assessment" where
  "assessed_risk ports op dialect early_workflow stmts rv schema_status infos =
     (let all_stmts_safe_ddl = (length stmts = 1
            \<and> list_all (\<lambda>s. is_safe_ddl_statement (st_kind s) (Some dialect)) stmts)
      in evaluate_risk
        \<lparr> ri_operation = op, ri_findings = rv_findings rv, ri_schema_status = schema_status, ri_tables = infos,
          ri_statement_count = length stmts, ri_has_dml = (op = ExecuteDml),
          ri_has_delete_stmt = pt_has_delete ports stmts,
          ri_allow_read_only = (case early_workflow of Some w \<Rightarrow> compute_allow_read_only op w | None \<Rightarrow> False),
          ri_safe_ddl = (case early_workflow of
              Some w \<Rightarrow> compute_safe_ddl w all_stmts_safe_ddl (rv_findings rv = []) | None \<Rightarrow> False),
          ri_max_estimated_rows = (case early_workflow of Some w \<Rightarrow> max_estimated_rows w | None \<Rightarrow> 1000) \<rparr>)"

text \<open>The assessment of statements that passed the review.\<close>

definition assess ::
  "create_ports \<Rightarrow> create_input \<Rightarrow> operation \<Rightarrow> dialect \<Rightarrow> workflow option \<Rightarrow> sql_review_policy
     \<Rightarrow> parsed_statement list \<Rightarrow> review_result \<Rightarrow> assessment" where
  "assess ports input op dialect early_workflow policy stmts rv =
     (let lib = pt_lib ports; tables = pt_tables ports stmts;
          snapshot = (case pt_snapshot ports (ni_database input) (ni_environment input) of Inr m \<Rightarrow> m | Inl _ \<Rightarrow> None);
          (schema_status, collected_at) = schema_status_of snapshot;
          raw = Option.bind (ready_json snapshot) (\<lambda>js. extract_tables_from_snapshot_json lib js tables);
          infos = table_facts ports stmts snapshot raw;
          risk = assessed_risk ports op dialect early_workflow stmts rv schema_status infos
      in \<lparr> as_risk_level = Some (rk_level risk),
           as_review_json = Some (x_json_text lib (JObj
             [(''findings'', JArr (map (\<lambda>f. JObj [(''rule'', JStr (rule_debug (fd_rule f))),
                (''message'', JStr (fd_message f))]) (rv_findings rv))),
              (''blocked'', JBool (rv_blocked rv))])),
           as_risk_json = Some (x_json_text lib (JObj
             [(''level'', JStr (risk_level_debug (rk_level risk))), (''factors'', JArr (serialize_factors (rk_factors risk)))])),
           as_stmt_texts = Some (map st_text stmts), as_tables_json = tables_json_of lib tables raw infos,
           as_schema_collected_at = collected_at, as_findings_count = length (rv_findings rv),
           as_risk_factors = map risk_factor_name (rk_factors risk),
           as_schema_status = trace_schema_status_of schema_status, as_policy_id = Some (sv_id policy) \<rparr>)"

text \<open>The assessment with the review before it, and whether the review was bypassed.\<close>

definition review_and_assess ::
  "create_ports \<Rightarrow> create_input \<Rightarrow> auth_user \<Rightarrow> audit_context \<Rightarrow> operation \<Rightarrow> dialect \<Rightarrow> workflow option
     \<Rightarrow> classification option \<Rightarrow> parsed_statement list option \<Rightarrow> (assessment \<times> bool) act" where
  "review_and_assess ports input user ctx op dialect early_workflow classification parsed =
     (case parsed of
        Some stmts \<Rightarrow>
          if stmts = [] then liftA (Inr (unavailable, False))
          else
            thenA (liftA (pt_review_policy ports (ni_database input) (ni_environment input))) (\<lambda>policy.
            let rv = review_statements stmts (Some dialect) (sv_rules policy) in
            thenA (review_gate ports input user ctx op stmts rv) (\<lambda>bypassed.
            liftA (Inr (assess ports input op dialect early_workflow policy stmts rv, bypassed))))
      | None \<Rightarrow>
          (case classification of
             Some c \<Rightarrow>
               if cl_dml_reason c = Some DrParseFailure
               then liftA (Inl (Validation ''SQL blocked by review: SQL could not be parsed; cannot verify safety rules''))
               else liftA (Inr (unavailable, False))
           | None \<Rightarrow> liftA (Inr (unavailable, False))))"

subsection \<open>Permissions and preconditions\<close>

definition required_permission :: "create_input \<Rightarrow> operation \<Rightarrow> classification option \<Rightarrow> permission" where
  "required_permission input op classification =
     (if ni_emergency input then (if op = ExecuteSelect then RequestBreakGlassQuery else RequestBreakGlassDml)
      else if op = ExecuteSelect then RequestQuery
      else if (case classification of Some c \<Rightarrow> cl_is_ddl_only c | None \<Rightarrow> False) then RequestDdl
      else RequestDml)"

definition require :: "auth_user \<Rightarrow> create_input \<Rightarrow> permission \<Rightarrow> unit app_result" where
  "require user input perm =
     map_err Forbidden (authorize_scoped user perm (ni_database input) (ni_environment input) CtxGlobal)"

definition create_authorize :: "create_input \<Rightarrow> auth_user \<Rightarrow> operation \<Rightarrow> classification option \<Rightarrow> unit app_result" where
  "create_authorize input user op classification =
     tryE (require user input (required_permission input op classification)) (\<lambda>_.
     tryE (if (case classification of Some c \<Rightarrow> \<not> cl_is_ddl_only c \<and> cl_contains_ddl c | None \<Rightarrow> False)
           then require user input RequestDdl else Inr ()) (\<lambda>_.
     if ni_allow_ddl input then require user input RequestBreakGlassDdl else Inr ()))"

fun selector_parse_error_str :: "selector_parse_error \<Rightarrow> string" where
  "selector_parse_error_str (SelectorParseError m) = ''invalid selector: '' @ m"

fun check_selectors :: "string list \<Rightarrow> unit app_result" where
  "check_selectors [] = Inr ()"
| "check_selectors (sel # sels) =
     tryE (map_err (\<lambda>e. Validation (''invalid share_with selector '' @ quoted sel @ '': '' @ selector_parse_error_str e))
            (selector_parse sel)) (\<lambda>_. check_selectors sels)"

definition not_registered_message :: "create_input \<Rightarrow> (database_name \<times> environment) list app_result \<Rightarrow> string" where
  "not_registered_message input active =
     (let msg = ''database '' @ quoted (db_str (ni_database input)) @ '' not registered in environment ''
            @ quoted (env_str (ni_environment input))
      in case active of
           Inl _ \<Rightarrow> msg
         | Inr pairs \<Rightarrow>
             let envs = map (\<lambda>p. env_str (snd p)) (filter (\<lambda>p. fst p = ni_database input) pairs) in
             if envs \<noteq> [] \<and> length envs \<le> 5
             then msg @ ''. Available environments: '' @ join '', '' envs @ ''. Use --environment to specify''
             else if envs = [] then msg @ ''. Register it with: dbward database register''
             else msg @ ''. Use --environment to specify the correct environment'')"

definition create_preconditions :: "create_ports \<Rightarrow> create_input \<Rightarrow> operation \<Rightarrow> unit app_result" where
  "create_preconditions ports input op =
     tryE (check_selectors (ni_share_with input)) (\<lambda>_.
     tryE (guardE (\<not> (ni_emergency input \<and> ni_reason input = None))
            (Validation ''reason is required for emergency requests'')) (\<lambda>_.
     tryE (guardE (\<not> (op = MigrateRepair \<and> \<not> ni_emergency input))
            (Validation ''migrate_repair requires emergency flag (break-glass)'')) (\<lambda>_.
     tryE (guardE (\<not> (ni_emergency input \<and> is_restricted (ni_channel input)))
            (Validation ''emergency requests are not allowed via MCP/Slack'')) (\<lambda>_.
     tryE (pt_exists_active ports (ni_database input) (ni_environment input)) (\<lambda>active.
     guardE active (Validation (not_registered_message input (pt_list_active ports))))))))"

subsection \<open>Idempotency\<close>

text \<open>The approvers of the step listed for a pending request.\<close>

definition pending_approvers_for :: "store \<Rightarrow> request \<Rightarrow> string list" where
  "pending_approvers_for s req =
     (if rq_status req \<noteq> Pending then []
      else map (\<lambda>(_, sel, _). sel) (filter (\<lambda>(rid, _). rid = rq_id req) (st_pending s)))"

definition existing_output :: "store \<Rightarrow> request \<Rightarrow> create_output" where
  "existing_output s existing =
     \<lparr> no_id = rq_id existing, no_status = rq_status existing, no_operation = rq_operation existing,
       no_is_existing = True, no_expires_at = rq_expires_at existing,
       no_approvers = pending_approvers_for s existing \<rparr>"

definition find_existing :: "create_ports \<Rightarrow> create_input \<Rightarrow> auth_user \<Rightarrow> store \<Rightarrow> create_output option app_result" where
  "find_existing ports input user s =
     (case Option.bind (ni_idempotency_key input) (find_by_idempotency_key s (au_subject_id user)) of
        None \<Rightarrow> Inr None
      | Some existing \<Rightarrow>
          (case rq_idempotency_fingerprint existing of
             Some fp \<Rightarrow>
               if fp \<noteq> x_sha256_hex (pt_lib ports) (ni_detail input)
               then Inl (Conflict ''idempotency key conflict: same key used with different SQL'')
               else Inr (Some (existing_output s existing))
           | None \<Rightarrow> Inr (Some (existing_output s existing))))"

subsection \<open>The decision\<close>

definition decide ::
  "create_ports \<Rightarrow> create_input \<Rightarrow> operation \<Rightarrow> workflow option \<Rightarrow> assessment
     \<Rightarrow> (workflow option \<times> approval_decision) app_result" where
  "decide ports input op early_workflow asmt =
     tryE (if early_workflow \<noteq> None then Inr early_workflow
           else pt_workflow ports (ni_database input) (ni_environment input) op) (\<lambda>workflow.
     tryE (case workflow of
             Some w \<Rightarrow> Inr (evaluate_workflow w (as_risk_level asmt))
           | None \<Rightarrow>
               if ni_emergency input then Inr (DecisionAutoApproved ReasonAlways)
               else Inl (Validation (''no workflow configured for '' @ db_str (ni_database input) @ ''/''
                      @ env_str (ni_environment input)))) (\<lambda>decision.
     tryE (guardE (\<not> (case workflow of Some w \<Rightarrow> wf_require_reason w \<and> ni_reason input = None | None \<Rightarrow> False))
            (Validation ''reason_required'')) (\<lambda>_.
     Inr (workflow, decision))))"

definition trace_reasons :: "approval_decision \<Rightarrow> workflow option \<Rightarrow> assessment \<Rightarrow> decision_reason list" where
  "trace_reasons decision workflow asmt =
     (case decision of
        DecisionAutoApproved ReasonAlways \<Rightarrow> [ExplicitAlways]
      | DecisionAutoApproved ReasonRiskBased \<Rightarrow> [RiskBelowThreshold]
      | NeedsApproval \<Rightarrow>
          if Option.bind workflow wf_auto_approve = None then [NoAutoApproveRule]
          else if as_risk_level asmt = None \<or> as_risk_level asmt = Some Unknown then [RiskUnavailable]
          else [RiskAboveThreshold])"

definition trace_of ::
  "create_input \<Rightarrow> operation \<Rightarrow> workflow option \<Rightarrow> approval_decision \<Rightarrow> assessment \<Rightarrow> decision_trace" where
  "trace_of input op workflow decision asmt =
     (let parse_failed = (as_stmt_texts asmt = None) in
      \<lparr> dt_version = 1, dt_resolved_operation = op, dt_policy_id = as_policy_id asmt,
        dt_findings_count = as_findings_count asmt, dt_parse_failed = parse_failed,
        dt_level = or_else (as_risk_level asmt) Unavailable,
        dt_factors = (if parse_failed then [] else as_risk_factors asmt),
        dt_schema_status = (if parse_failed then TsUnavailable else as_schema_status asmt),
        dt_matched = map_option (\<lambda>w. (wf_id w, db_str (wf_database w), env_str (wf_environment w), length (wf_steps w))) workflow,
        dt_outcome = (if ni_emergency input \<or> \<not> needs_approval decision then ToAutoApproved else ToNeedsApproval),
        dt_reasons = (if ni_emergency input then [ReasonBreakGlass] else trace_reasons decision workflow asmt),
        dt_auto_approve_threshold = Option.bind (Option.bind workflow wf_auto_approve) aa_max_risk_level \<rparr>)"

subsection \<open>The request and its transaction\<close>

text \<open>\<open>secs as i64\<close> reinterprets the bits.\<close>

definition pending_expiry :: "create_ports \<Rightarrow> request_status \<Rightarrow> workflow option \<Rightarrow> timestamp \<Rightarrow> timestamp option" where
  "pending_expiry ports status workflow now =
     (if status = Pending then
        map_option (\<lambda>secs. now + seconds (sint secs))
          (case Option.bind workflow wf_pending_ttl_secs of
             Some secs \<Rightarrow> Some secs | None \<Rightarrow> pt_default_approval_ttl_secs ports)
      else None)"

definition new_request ::
  "create_ports \<Rightarrow> create_input \<Rightarrow> auth_user \<Rightarrow> operation \<Rightarrow> classification option \<Rightarrow> workflow option
     \<Rightarrow> request_status \<Rightarrow> string option \<Rightarrow> string \<Rightarrow> request" where
  "new_request ports input user op classification workflow status snapshot_json trace_json =
     (let now = pt_clock ports 0 in
      \<lparr> rq_id = pt_id ports 0, rq_requester = au_subject_id user, rq_database = ni_database input,
        rq_environment = ni_environment input, rq_operation = op, rq_detail = ni_detail input,
        rq_status = status, rq_emergency = ni_emergency input, rq_reason = ni_reason input,
        rq_idempotency_key = ni_idempotency_key input,
        rq_idempotency_fingerprint =
          map_option (\<lambda>_. x_sha256_hex (pt_lib ports) (ni_detail input)) (ni_idempotency_key input),
        rq_metadata_json = ni_metadata_json input, rq_share_with = ni_share_with input,
        rq_no_result_store = ni_no_result_store input, rq_workflow_snapshot_json = snapshot_json,
        rq_decision_trace_json = Some trace_json,
        rq_execution_plan_json =
          (case classification of
             Some c \<Rightarrow> if cl_dml_reason c = Some DrParseFailure then None
               else Some (x_json_text (pt_lib ports) (JArr (map JStr (cl_statements c))))
           | None \<Rightarrow> None),
        rq_cancel_reason = None, rq_cancelled_by = None, rq_created_at = now, rq_updated_at = now,
        rq_resolved_at = None, rq_expires_at = pending_expiry ports status workflow now \<rparr>)"

definition creation_context ::
  "request \<Rightarrow> auth_user \<Rightarrow> audit_context \<Rightarrow> event_metadata \<Rightarrow> transition_context" where
  "creation_context req user ctx metadata =
     \<lparr> tc_request_id = rq_id req, tc_actor_id = au_subject_id user, tc_actor_type = au_subject_type user,
       tc_database = rq_database req, tc_environment = rq_environment req, tc_operation = rq_operation req,
       tc_timestamp = rq_created_at req, tc_metadata = metadata, tc_requester_id = au_subject_id user,
       tc_audit_context = ctx, tc_auth_token_id = None \<rparr>"

definition bypass_event ::
  "create_ports \<Rightarrow> request \<Rightarrow> auth_user \<Rightarrow> audit_context \<Rightarrow> classification option \<Rightarrow> bool \<Rightarrow> bool \<Rightarrow> audit_event" where
  "bypass_event ports req user ctx classification classifier_bypassed reviewer_bypassed =
     (audit_event_simple ''ddl.break_glass_bypass'' ''request'' (au_subject_id user) (Some (rq_id req)) (pt_clock ports 1) ctx)
       \<lparr> ae_database_name := Some (db_str (rq_database req)), ae_environment := Some (env_str (rq_environment req)),
         ae_metadata_json := x_json_text (pt_lib ports) (JObj
           [(''request_id'', JStr (rq_id req)), (''sql_redacted'', JStr (pt_redact ports (rq_detail req))),
            (''statement_count'', JNum (case classification of Some c \<Rightarrow> int (cl_statement_count c) | None \<Rightarrow> 0)),
            (''reason'', JStr (or_else (rq_reason req) [])), (''classifier_bypassed'', JBool classifier_bypassed),
            (''reviewer_bypassed'', JBool reviewer_bypassed)]) \<rparr>"

definition create_pending_tx :: "create_ports \<Rightarrow> request \<Rightarrow> audit_event \<Rightarrow> unit tx" where
  "create_pending_tx ports req create_audit =
     thenT (insert_request (pt_lib ports) req) (\<lambda>_.
     record_event (pt_lib ports) (pt_audit ports 0) create_audit)"

text \<open>The answer of \<open>mark_dispatched\<close> is not looked at. The third audit entry is the one about a bypass.\<close>

definition create_dispatched_tx ::
  "create_ports \<Rightarrow> request \<Rightarrow> audit_event \<Rightarrow> audit_event \<Rightarrow> audit_event option \<Rightarrow> unit tx" where
  "create_dispatched_tx ports req create_audit dispatch_audit ddl_event =
     thenT (insert_request (pt_lib ports) req) (\<lambda>_.
     thenT (mark_dispatched (rq_id req) (rq_created_at req)) (\<lambda>_.
     thenT (record_event (pt_lib ports) (pt_audit ports 0) create_audit) (\<lambda>_.
     thenT (record_event (pt_lib ports) (pt_audit ports 1) dispatch_audit) (\<lambda>_.
     case ddl_event of
       Some ev \<Rightarrow> record_event (pt_lib ports) (pt_audit ports 2) ev
     | None \<Rightarrow> doneT ()))))"

text \<open>The outcome of the transaction: stored, or the request that won the race for the key.\<close>

definition lost_race :: "app_error \<Rightarrow> bool" where
  "lost_race e =
     (case e of Conflict msg \<Rightarrow> contains msg ''idempotency_key'' \<or> contains msg ''UNIQUE constraint'' | _ \<Rightarrow> False)"

definition persist :: "create_ports \<Rightarrow> request \<Rightarrow> bool \<Rightarrow> unit tx \<Rightarrow> create_output option act" where
  "persist ports req bypassed body = (\<lambda>(s, fxs).
     case run_in_tx (pt_faults ports) body s of
       (Inr _, s') \<Rightarrow> (Inr None, s', fxs)
     | (Inl e, s') \<Rightarrow>
         if lost_race e then
           (case Option.bind (rq_idempotency_key req) (find_by_idempotency_key s' (rq_requester req)) of
              Some existing \<Rightarrow> (Inr (Some (existing_output s' existing)), s', fxs)
            | None \<Rightarrow> (Inl (Conflict ''idempotency_key''), s', fxs))
         else (Inl e, s', if bypassed then fxs @ [FxMetric AuditWriteFailure] else fxs))"

subsection \<open>Dry runs and context\<close>

definition explains :: "workflow option \<Rightarrow> operation \<Rightarrow> bool" where
  "explains workflow op \<longleftrightarrow>
     (case workflow of Some w \<Rightarrow> wf_explain w | None \<Rightarrow> True) \<and> op \<in> {ExecuteSelect, ExecuteDml}"

definition dry_run_jobs :: "create_ports \<Rightarrow> request \<Rightarrow> assessment \<Rightarrow> dry_run_job list" where
  "dry_run_jobs ports req asmt =
     (let sql_texts = (case as_stmt_texts asmt of Some texts \<Rightarrow> texts | None \<Rightarrow> [rq_detail req]) in
      map (\<lambda>(i, sql).
          \<lparr> dj_id = pt_id ports (Suc i), dj_request_id = rq_id req, dj_database_name = db_str (rq_database req),
            dj_environment = env_str (rq_environment req), dj_sql_text = sql, dj_status = ''pending'',
            dj_created_at = x_rfc3339 (pt_lib ports) (rq_created_at req) \<rparr>)
        (zip [0..<length sql_texts] sql_texts))"

definition context_record :: "create_ports \<Rightarrow> request \<Rightarrow> workflow option \<Rightarrow> assessment \<Rightarrow> request_context" where
  "context_record ports req workflow asmt =
     (let now_str = x_rfc3339 (pt_lib ports) (rq_created_at req) in
      \<lparr> rc_request_id = rq_id req,
        rc_status = (if explains workflow (rq_operation req) then ''collecting'' else ''ready''),
        rc_schema_snapshot_collected_at = as_schema_collected_at asmt, rc_tables_json = as_tables_json asmt,
        rc_sql_review_json = as_review_json asmt, rc_risk_json = as_risk_json asmt, rc_explain_json = None,
        rc_created_at = now_str, rc_updated_at = now_str \<rparr>)"

definition follow_up :: "create_ports \<Rightarrow> request \<Rightarrow> workflow option \<Rightarrow> assessment \<Rightarrow> unit act" where
  "follow_up ports req workflow asmt =
     (if rq_no_result_store req then liftA (Inr ())
      else
        thenA (if explains workflow (rq_operation req) then emitA (FxDryRun (dry_run_jobs ports req asmt)) else liftA (Inr ())) (\<lambda>_.
        emitA (FxContext (context_record ports req workflow asmt))))"

subsection \<open>Creating a request\<close>

definition first_approvers :: "workflow option \<Rightarrow> string list" where
  "first_approvers workflow =
     (case workflow of
        Some w \<Rightarrow> (case wf_steps w of
            step # _ \<Rightarrow> map (\<lambda>a. selector_to_string (ag_selector a)) (ws_approvers step) | [] \<Rightarrow> [])
      | None \<Rightarrow> [])"

definition created_output :: "request \<Rightarrow> workflow option \<Rightarrow> request_status \<Rightarrow> create_output" where
  "created_output req workflow final_status =
     \<lparr> no_id = rq_id req, no_status = final_status, no_operation = rq_operation req, no_is_existing = False,
       no_expires_at = rq_expires_at req,
       no_approvers = (if final_status = Pending then first_approvers workflow else []) \<rparr>"

definition creation_event :: "request \<Rightarrow> auth_user \<Rightarrow> audit_context \<Rightarrow> transition_event" where
  "creation_event req user ctx =
     tr_event (create_event (rq_status req)
       (creation_context req user ctx (MCreated (rq_detail req) (rq_emergency req))))"

definition create_and_dispatch ::
  "create_ports \<Rightarrow> request \<Rightarrow> auth_user \<Rightarrow> audit_context \<Rightarrow> workflow option \<Rightarrow> assessment
     \<Rightarrow> classification option \<Rightarrow> bool \<Rightarrow> bool \<Rightarrow> create_output act" where
  "create_and_dispatch ports req user ctx workflow asmt classification classifier_bypassed reviewer_bypassed =
     (let now = rq_created_at req; lib = pt_lib ports; created = creation_event req user ctx;
          bypassed = (classifier_bypassed \<or> reviewer_bypassed)
      in
      thenA (liftA (map_err (\<lambda>e. Internal (invalid_transition_str e))
              (transition (rq_status req) TDispatch (creation_context req user ctx MDispatched)))) (\<lambda>dispatched.
      thenA (persist ports req bypassed
              (create_dispatched_tx ports req (audit_of lib created now) (audit_of lib (tr_event dispatched) now)
                (if bypassed then Some (bypass_event ports req user ctx classification classifier_bypassed reviewer_bypassed)
                 else None))) (\<lambda>lost.
      case lost of
        Some out \<Rightarrow> liftA (Inr out)
      | None \<Rightarrow>
          thenA (if bypassed then emitA (FxMetric DdlAllowed) else liftA (Inr ())) (\<lambda>_.
          thenA (emitA (FxWebhook (build_webhook_event lib created))) (\<lambda>_.
          thenA (emitA (FxWebhook (build_webhook_event lib (tr_event dispatched)))) (\<lambda>_.
          if bypassed then liftA (Inr (created_output req workflow Dispatched))
          else
            thenA (follow_up ports req workflow asmt) (\<lambda>_.
            liftA (Inr (created_output req workflow (tr_new_status dispatched))))))))))"

definition create_pending ::
  "create_ports \<Rightarrow> request \<Rightarrow> auth_user \<Rightarrow> audit_context \<Rightarrow> workflow option \<Rightarrow> assessment \<Rightarrow> create_output act" where
  "create_pending ports req user ctx workflow asmt =
     (let lib = pt_lib ports; created = creation_event req user ctx in
      thenA (persist ports req False (create_pending_tx ports req (audit_of lib created (rq_created_at req)))) (\<lambda>lost.
      case lost of
        Some out \<Rightarrow> liftA (Inr out)
      | None \<Rightarrow>
          thenA (emitA (FxWebhook (build_webhook_event lib created))) (\<lambda>_.
          thenA (follow_up ports req workflow asmt) (\<lambda>_.
          liftA (Inr (created_output req workflow (rq_status req)))))))"

definition create_new ::
  "create_ports \<Rightarrow> create_input \<Rightarrow> auth_user \<Rightarrow> audit_context \<Rightarrow> operation \<Rightarrow> classification option
     \<Rightarrow> bool \<Rightarrow> bool \<Rightarrow> workflow option \<Rightarrow> assessment \<Rightarrow> create_output act" where
  "create_new ports input user ctx op classification classifier_bypassed reviewer_bypassed early_workflow asmt =
     thenA (liftA (decide ports input op early_workflow asmt)) (\<lambda>(workflow, decision).
     let status = initial_status (needs_approval decision) (ni_emergency input) in
     thenA (liftA (case workflow of
              None \<Rightarrow> Inr None
            | Some w \<Rightarrow> tryE (map_err (\<lambda>e. Internal (''serialize workflow: '' @ e)) (pt_workflow_text ports w)) (\<lambda>js. Inr (Some js)))) (\<lambda>snapshot_json.
     thenA (liftA (map_err (\<lambda>e. Internal (''serialize decision_trace: '' @ e))
              (pt_trace_text ports (trace_of input op workflow decision asmt)))) (\<lambda>trace_json.
     let req = new_request ports input user op classification workflow status snapshot_json trace_json in
     if status \<in> {AutoApproved, BreakGlass}
     then create_and_dispatch ports req user ctx workflow asmt classification classifier_bypassed reviewer_bypassed
     else create_pending ports req user ctx workflow asmt)))"

definition create_request ::
  "create_ports \<Rightarrow> create_input \<Rightarrow> auth_user \<Rightarrow> audit_context \<Rightarrow> store
     \<Rightarrow> create_output app_result \<times> store \<times> create_effect list" where
  "create_request ports input user ctx s =
     thenA (liftA (check_input input)) (\<lambda>_.
     thenA (if ni_emergency input \<and> ni_allow_ddl input then emitA (FxMetric DdlAttempted) else liftA (Inr ())) (\<lambda>_.
     thenA (liftA (pt_dialect ports (ni_database input) (ni_environment input))) (\<lambda>dialect_str.
     let dialect = dialect_of dialect_str in
     thenA (resolve_operation ports input dialect) (\<lambda>(op, classification, parsed, classifier_bypassed).
     let early_workflow = (case pt_workflow ports (ni_database input) (ni_environment input) op of Inr m \<Rightarrow> m | Inl _ \<Rightarrow> None) in
     thenA (review_and_assess ports input user ctx op dialect early_workflow classification parsed) (\<lambda>(asmt, reviewer_bypassed).
     thenA (liftA (create_authorize input user op classification)) (\<lambda>_.
     thenA (liftA (create_preconditions ports input op)) (\<lambda>_.
     thenA (readA (find_existing ports input user)) (\<lambda>existing.
     case existing of
       Some out \<Rightarrow> liftA (Inr out)
     | None \<Rightarrow> create_new ports input user ctx op classification classifier_bypassed reviewer_bypassed
                 early_workflow asmt)))))))) (s, [])"

subsection \<open>What a successful step did\<close>

named_theorems act_simps \<open>inversion of the steps of request creation\<close>

lemma thenA_Inr [act_simps]:
  "thenA m k st = (Inr y, st') \<longleftrightarrow> (\<exists>x s1 f1. m st = (Inr x, s1, f1) \<and> k x (s1, f1) = (Inr y, st'))"
  by (auto simp: thenA_def split: prod.splits sum.splits)

lemma liftA_Inr [act_simps]: "liftA r st = (Inr x, st') \<longleftrightarrow> r = Inr x \<and> st' = st"
  by (auto simp: liftA_def)

lemma emitA_Inr [act_simps]: "emitA fx st = (Inr x, st') \<longleftrightarrow> st' = (fst st, snd st @ [fx])"
  by (auto simp: emitA_def split: prod.splits)

lemma readA_Inr [act_simps]: "readA f st = (Inr x, st') \<longleftrightarrow> f (fst st) = Inr x \<and> st' = st"
  by (auto simp: readA_def split: prod.splits)

lemma review_gate_Inr:
  assumes "review_gate ports input user ctx op stmts rv st = (Inr b, st')"
  shows "st' = st \<and> b = rv_blocked rv
    \<and> (b \<longrightarrow> ni_emergency input \<and> ni_allow_ddl input \<and> all_eligible (Some stmts)
        \<and> list_all (\<lambda>f. is_break_glass_bypassable (fd_rule f)) (blocking rv))"
  using assms
  by (auto simp: review_gate_def Let_def act_simps list_ex_iff list_all_iff split: if_splits)

lemma review_and_assess_Inr:
  assumes "review_and_assess ports input user ctx op dialect early c parsed st = (Inr (asmt, b), st')"
  shows "st' = st \<and>
    (case parsed of
       Some stmts \<Rightarrow> stmts = [] \<and> asmt = unavailable \<and> \<not> b
         \<or> (\<exists>policy. pt_review_policy ports (ni_database input) (ni_environment input) = Inr policy
              \<and> (let rv = review_statements stmts (Some dialect) (sv_rules policy) in
                   asmt = assess ports input op dialect early policy stmts rv \<and> b = rv_blocked rv
                   \<and> (b \<longrightarrow> ni_emergency input \<and> ni_allow_ddl input \<and> all_eligible (Some stmts)
                        \<and> list_all (\<lambda>f. is_break_glass_bypassable (fd_rule f)) (blocking rv))))
     | None \<Rightarrow> asmt = unavailable \<and> \<not> b \<and> (\<forall>c0. c = Some c0 \<longrightarrow> cl_dml_reason c0 \<noteq> Some DrParseFailure))"
proof (cases parsed)
  case None
  with assms show ?thesis
    by (auto simp: review_and_assess_def act_simps split: option.splits if_splits)
next
  case (Some stmts)
  show ?thesis
  proof (cases "stmts = []")
    case True
    with Some assms show ?thesis by (simp add: review_and_assess_def act_simps)
  next
    case False
    with Some assms obtain policy where pol: "pt_review_policy ports (ni_database input) (ni_environment input) = Inr policy"
      and gate: "review_gate ports input user ctx op stmts (review_statements stmts (Some dialect) (sv_rules policy)) st = (Inr b, st')"
      and asmt: "asmt = assess ports input op dialect early policy stmts (review_statements stmts (Some dialect) (sv_rules policy))"
      by (auto simp: review_and_assess_def Let_def act_simps)
    from review_gate_Inr [OF gate] pol asmt Some show ?thesis by (simp add: Let_def)
  qed
qed

lemma resolve_operation_Inr:
  assumes "resolve_operation ports input dialect st = (Inr (op, c, parsed, b), st')"
  shows "st' = st \<and>
    (if ni_operation input \<in> {MigrateUp, MigrateDown, MigrateStatus, MigrateRepair}
     then op = ni_operation input \<and> c = None \<and> parsed = None \<and> \<not> b
     else let result = classify_full (pt_parse_sql ports) (ni_detail input) dialect in
       parsed = cr_parsed_statements result
       \<and> (\<not> b \<and> (\<exists>c0. cr_classification result = Inr c0 \<and> c = Some c0 \<and> op = cl_operation c0)
          \<or> b \<and> (\<exists>reason. cr_classification result = Inl (CeRejected reason)) \<and> op = ExecuteDml
            \<and> ni_emergency input \<and> ni_allow_ddl input \<and> all_eligible parsed \<and> c = map_option bypass_classification parsed))"
  using assms
  by (auto simp: resolve_operation_def Let_def act_simps split: if_splits sum.splits classify_error.splits)

text \<open>The course of a successful call, up to the lookup of the idempotency key: no step changed the
  store.\<close>

lemma create_request_Inr:
  assumes "create_request ports input user ctx s = (Inr out, s', fx)"
  obtains d op c parsed b asmt rb fx1 where
    "check_input input = Inr ()" and "pt_dialect ports (ni_database input) (ni_environment input) = Inr d"
    and "resolve_operation ports input (dialect_of d) (s, fx1) = (Inr (op, c, parsed, b), s, fx1)"
    and "review_and_assess ports input user ctx op (dialect_of d)
           (case pt_workflow ports (ni_database input) (ni_environment input) op of Inr m \<Rightarrow> m | Inl _ \<Rightarrow> None)
           c parsed (s, fx1) = (Inr (asmt, rb), s, fx1)"
    and "create_authorize input user op c = Inr ()" and "create_preconditions ports input op = Inr ()"
    and "(case find_existing ports input user s of
            Inr (Some o') \<Rightarrow> (Inr o', s, fx1)
          | Inr None \<Rightarrow> create_new ports input user ctx op c b rb
              (case pt_workflow ports (ni_database input) (ni_environment input) op of Inr m \<Rightarrow> m | Inl _ \<Rightarrow> None) asmt (s, fx1)
          | Inl e \<Rightarrow> (Inl e, s, fx1)) = (Inr out, s', fx)"
    and "fx1 = (if ni_emergency input \<and> ni_allow_ddl input then [FxMetric DdlAttempted] else [])"
proof -
  define fx1 where "fx1 = (if ni_emergency input \<and> ni_allow_ddl input then [FxMetric DdlAttempted] else [])"
  let ?early = "\<lambda>op. case pt_workflow ports (ni_database input) (ni_environment input) op of Inr m \<Rightarrow> m | Inl _ \<Rightarrow> None"
  from assms obtain d op c parsed b asmt rb st1 st2 where
    p: "check_input input = Inr ()" "pt_dialect ports (ni_database input) (ni_environment input) = Inr d"
    "resolve_operation ports input (dialect_of d) (s, fx1) = (Inr (op, c, parsed, b), st1)"
    "review_and_assess ports input user ctx op (dialect_of d) (?early op) c parsed st1 = (Inr (asmt, rb), st2)"
    "create_authorize input user op c = Inr ()" "create_preconditions ports input op = Inr ()"
    "thenA (readA (find_existing ports input user)) (\<lambda>existing.
       case existing of
         Some out \<Rightarrow> liftA (Inr out)
       | None \<Rightarrow> create_new ports input user ctx op c b rb (?early op) asmt) st2 = (Inr out, s', fx)"
    unfolding create_request_def fx1_def Let_def
    by (auto simp: thenA_Inr liftA_Inr emitA_Inr split: if_splits)
  have "st1 = (s, fx1)" using resolve_operation_Inr [OF p(3)] by simp
  moreover have "st2 = st1" using review_and_assess_Inr [OF p(4)] by simp
  ultimately show thesis
    using p by (intro that [where d = d and op = op and c = c and parsed = parsed and b = b and asmt = asmt and rb = rb and ?fx1.0 = fx1])
      (auto simp: fx1_def act_simps liftA_def split: sum.splits option.splits)
qed

lemma create_authorize_Inr:
  assumes "create_authorize input user op c = Inr ()"
  shows "au_subject_type user = SubjUser
    \<and> has_scoped_permission user (required_permission input op c) (ni_database input) (ni_environment input)
    \<and> (ni_allow_ddl input \<longrightarrow> has_scoped_permission user RequestBreakGlassDdl (ni_database input) (ni_environment input))"
proof -
  have perm: "au_subject_type user = SubjUser \<and> has_scoped_permission user p (ni_database input) (ni_environment input)"
    if "require user input p = Inr ()" "p \<noteq> AgentOperate" for p
    using that rbac.scoped_gate [of user p "ni_database input" "ni_environment input" CtxGlobal]
      rbac.agents_only_operate [of user p "ni_database input" "ni_environment input" CtxGlobal]
    by (cases "au_subject_type user") (auto simp: require_def res_simps self_read_def)
  have "required_permission input op c \<noteq> AgentOperate"
    by (simp add: required_permission_def)
  with assms perm show ?thesis
    by (auto simp: create_authorize_def res_simps)
qed

lemma insert_request_Inr:
  assumes "insert_request lib req s = Inr (x, s')"
  obtains p where "s' = s\<lparr> st_requests := st_requests s @ [req], st_pending := p \<rparr>"
    and "get_request s (rq_id req) = None"
proof -
  from assms obtain s1 where row: "insert_request_row req s = Inr s1"
    and nxt: "(if rq_status req = Pending
       then populate_pending_approvers lib (rq_id req) (rq_workflow_snapshot_json req) 0 s1 else Inr ((), s1)) = Inr (x, s')"
    by (auto simp: insert_request_def map_request_insert_error_def res_simps split: sum.splits if_splits)
  from row have s1: "s1 = s\<lparr> st_requests := st_requests s @ [req] \<rparr>" and new: "get_request s (rq_id req) = None"
    by (auto simp: insert_request_row_def get_request_def find_row_None list_ex_iff split: if_splits)
  obtain p where "s' = s1\<lparr> st_pending := p \<rparr>"
  proof (cases "rq_status req = Pending")
    case True
    with nxt have "populate_pending_approvers lib (rq_id req) (rq_workflow_snapshot_json req) 0 s1 = Inr (x, s')" by simp
    then show thesis using that by (rule populate_Inr)
  next
    case False
    with nxt have "s' = s1\<lparr> st_pending := st_pending s1 \<rparr>" by simp
    then show thesis by (rule that)
  qed
  with s1 new that show thesis by simp
qed

lemma insert_request_lookup:
  assumes "insert_request lib req s = Inr (x, s')"
  shows "get_request s' j = (if j = rq_id req then Some req else get_request s j)"
    and "st_approvals s' = st_approvals s" and "st_executions s' = st_executions s"
    and "st_results s' = st_results s" and "st_access s' = st_access s"
  using assms by (auto elim!: insert_request_Inr simp: get_request_def find_row_append split: option.splits)

lemma record_event_same:
  assumes "record_event lib env ev s = Inr (x, s')"
  shows "get_request s' j = get_request s j" "st_approvals s' = st_approvals s" "st_executions s' = st_executions s"
    "st_results s' = st_results s" "st_access s' = st_access s" "st_requests s' = st_requests s"
proof -
  obtain u where "s' = s\<lparr> st_audit := u \<rparr>" using record_event_Inr [OF assms] by blast
  then show "get_request s' j = get_request s j" "st_approvals s' = st_approvals s" "st_executions s' = st_executions s"
    "st_results s' = st_results s" "st_access s' = st_access s" "st_requests s' = st_requests s"
    by (simp_all add: get_request_def)
qed

lemma create_tx_ok [keeps_intros]:
  "keeps_inv store_ok (create_pending_tx ports req ca)"
  "keeps_inv store_ok (create_dispatched_tx ports req ca da ev)"
  unfolding create_pending_tx_def create_dispatched_tx_def by (intro keeps_intros)+

text \<open>The stored row: as built, or moved on to dispatched.\<close>

definition dispatched_row :: "request \<Rightarrow> request" where
  "dispatched_row req = req\<lparr> rq_status := Dispatched, rq_updated_at := rq_created_at req \<rparr>"

lemma create_pending_tx_row:
  assumes "create_pending_tx ports req ca s = Inr (x, s')"
  shows "get_request s' j = (if j = rq_id req then Some req else get_request s j)"
    and "get_request s (rq_id req) = None" and "st_approvals s' = st_approvals s" and "st_executions s' = st_executions s"
  using assms unfolding create_pending_tx_def
  by (auto simp: tx_simps record_event_same insert_request_lookup elim: insert_request_Inr)

lemma create_dispatched_tx_row:
  assumes "store_ok s" and "create_dispatched_tx ports req ca da ev s = Inr (x, s')"
    and "rq_status req \<in> {AutoApproved, BreakGlass}"
  shows "get_request s' j = (if j = rq_id req then Some (dispatched_row req) else get_request s j)"
    and "get_request s (rq_id req) = None" and "st_approvals s' = st_approvals s" and "st_executions s' = st_executions s"
proof -
  from assms(2) obtain s1 s2 s3 s4 b where ins: "insert_request (pt_lib ports) req s = Inr ((), s1)"
    and mk: "mark_dispatched (rq_id req) (rq_created_at req) s1 = Inr (b, s2)"
    and r1: "record_event (pt_lib ports) (pt_audit ports 0) ca s2 = Inr ((), s3)"
    and r2: "record_event (pt_lib ports) (pt_audit ports 1) da s3 = Inr ((), s4)"
    and r3: "(case ev of Some e \<Rightarrow> record_event (pt_lib ports) (pt_audit ports 2) e | None \<Rightarrow> doneT ()) s4 = Inr (x, s')"
    by (auto simp: create_dispatched_tx_def tx_simps)
  have ok1: "store_ok s1" using keeps_invD [OF insert_request_ok assms(1) ins] .
  note l = insert_request_lookup [OF ins]
  have st: "rq_status req \<in> set [Approved, AutoApproved, BreakGlass, Executed, Failed, ExecutionLost]"
    using assms(3) by auto
  obtain q where m: "s2 = s1\<lparr> st_requests := q \<rparr>"
    "\<And>j. get_request s2 j = (if j = rq_id req then Some (dispatched_row req) else get_request s1 j)"
    using update_request_hit [OF ok1, of "rq_id req" req, where P = "\<lambda>r. rq_status r \<in> set [Approved, AutoApproved, BreakGlass, Executed, Failed, ExecutionLost]"
        and f = "\<lambda>r. r\<lparr> rq_status := Dispatched, rq_updated_at := rq_created_at req \<rparr>"] mk l(1) [of "rq_id req"] st
    unfolding mark_dispatched_def update_status_guarded_def dispatched_row_def by auto
  have last: "get_request s' j = get_request s4 j" "st_approvals s' = st_approvals s4" "st_executions s' = st_executions s4" for j
    using r3 by (auto simp: tx_simps record_event_same split: option.splits)
  note same = last record_event_same [OF r2] record_event_same [OF r1]
  show "get_request s' j = (if j = rq_id req then Some (dispatched_row req) else get_request s j)"
    by (simp add: same m(2) l(1))
  show "st_approvals s' = st_approvals s" "st_executions s' = st_executions s"
    by (simp_all add: same m(1) l)
  show "get_request s (rq_id req) = None" using ins by (rule insert_request_Inr)
qed

lemma persist_Inr:
  assumes "persist ports req byp body (s, f) = (Inr lost, s', f')"
  shows "f' = f \<and> (lost = None \<and> body s = Inr ((), s')
    \<or> s' = s \<and> (\<exists>existing. lost = Some (existing_output s existing)))"
  using assms uow.fails uow.commits
  by (fastforce simp: persist_def split: prod.splits sum.splits if_splits option.splits)

lemma follow_up_Inr:
  assumes "follow_up ports req w asmt (s, f) = (Inr x, s', f')"
  shows "s' = s"
  using assms by (auto simp: follow_up_def act_simps split: if_splits)

lemma create_and_dispatch_Inr:
  assumes "create_and_dispatch ports req user ctx w asmt c b rb (s, f) = (Inr out, s', f')"
    and "\<not> no_is_existing out" and "rq_status req \<in> {AutoApproved, BreakGlass}"
  shows "no_id out = rq_id req \<and> no_status out = Dispatched
    \<and> (\<exists>ca da ev. create_dispatched_tx ports req ca da ev s = Inr ((), s'))"
proof -
  obtain res where res: "transition (rq_status req) TDispatch (creation_context req user ctx MDispatched) = Inr res"
    "tr_new_status res = Dispatched"
    using assms(3) by (auto simp: transition_def)
  from assms(1) obtain lost s1 f1 ca da ev where p: "persist ports req (b \<or> rb) (create_dispatched_tx ports req ca da ev) (s, f) = (Inr lost, s1, f1)"
    and rest: "(case lost of Some o' \<Rightarrow> o' = out \<and> s' = s1
       | None \<Rightarrow> s' = s1 \<and> out = created_output req w Dispatched)"
    unfolding create_and_dispatch_def Let_def
    by (auto simp: act_simps res dest!: follow_up_Inr split: option.splits if_splits)
  from persist_Inr [OF p] rest assms(2) show ?thesis
    by (auto simp: created_output_def existing_output_def split: option.splits)
qed

lemma create_pending_Inr:
  assumes "create_pending ports req user ctx w asmt (s, f) = (Inr out, s', f')" and "\<not> no_is_existing out"
  shows "no_id out = rq_id req \<and> no_status out = rq_status req \<and> (\<exists>ca. create_pending_tx ports req ca s = Inr ((), s'))"
proof -
  from assms(1) obtain lost s1 f1 ca where p: "persist ports req False (create_pending_tx ports req ca) (s, f) = (Inr lost, s1, f1)"
    and rest: "(case lost of Some o' \<Rightarrow> o' = out \<and> s' = s1
       | None \<Rightarrow> s' = s1 \<and> out = created_output req w (rq_status req))"
    unfolding create_pending_def Let_def
    by (auto simp: act_simps dest!: follow_up_Inr split: option.splits)
  from persist_Inr [OF p] rest assms(2) show ?thesis
    by (auto simp: created_output_def existing_output_def split: option.splits)
qed

lemma decide_Inr:
  assumes "decide ports input op early asmt = Inr (w, decision)"
    and "early = (case pt_workflow ports (ni_database input) (ni_environment input) op of Inr m \<Rightarrow> m | Inl _ \<Rightarrow> None)"
  shows "pt_workflow ports (ni_database input) (ni_environment input) op = Inr w
    \<and> (case w of Some v \<Rightarrow> decision = evaluate_workflow v (as_risk_level asmt)
                  \<and> (wf_require_reason v \<longrightarrow> ni_reason input \<noteq> None)
       | None \<Rightarrow> ni_emergency input)"
  using assms by (auto simp: decide_def res_simps split: option.splits sum.splits if_splits)

lemma new_request_fields [simp]:
  "rq_id (new_request ports input user op c w status snap trace) = pt_id ports 0"
  "rq_requester (new_request ports input user op c w status snap trace) = au_subject_id user"
  "rq_database (new_request ports input user op c w status snap trace) = ni_database input"
  "rq_environment (new_request ports input user op c w status snap trace) = ni_environment input"
  "rq_operation (new_request ports input user op c w status snap trace) = op"
  "rq_detail (new_request ports input user op c w status snap trace) = ni_detail input"
  "rq_status (new_request ports input user op c w status snap trace) = status"
  "rq_emergency (new_request ports input user op c w status snap trace) = ni_emergency input"
  "rq_reason (new_request ports input user op c w status snap trace) = ni_reason input"
  "rq_workflow_snapshot_json (new_request ports input user op c w status snap trace) = snap"
  by (simp_all add: new_request_def Let_def)

lemma new_request_key [simp]:
  "rq_idempotency_key (new_request ports input user op c w status snap trace) = ni_idempotency_key input"
  "rq_idempotency_fingerprint (new_request ports input user op c w status snap trace) =
     map_option (\<lambda>_. x_sha256_hex (pt_lib ports) (ni_detail input)) (ni_idempotency_key input)"
  by (simp_all add: new_request_def Let_def)

text \<open>How a new request came to its first status.\<close>

definition creation_grounds :: "create_ports \<Rightarrow> create_input \<Rightarrow> operation \<Rightarrow> assessment \<Rightarrow> request \<Rightarrow> bool" where
  "creation_grounds ports input op asmt r \<longleftrightarrow>
     (case rq_status r of
        Pending \<Rightarrow> \<not> ni_emergency input
          \<and> (\<exists>w js. pt_workflow ports (ni_database input) (ni_environment input) op = Inr (Some w)
               \<and> needs_approval (evaluate_workflow w (as_risk_level asmt))
               \<and> pt_workflow_text ports w = Inr js \<and> rq_workflow_snapshot_json r = Some js)
      | Dispatched \<Rightarrow>
          if ni_emergency input then ni_reason input \<noteq> None \<and> \<not> is_restricted (ni_channel input)
          else \<exists>w. pt_workflow ports (ni_database input) (ni_environment input) op = Inr (Some w)
                 \<and> \<not> needs_approval (evaluate_workflow w (as_risk_level asmt))
      | _ \<Rightarrow> False)"

lemma create_new_Inr:
  assumes "store_ok s" and "create_preconditions ports input op = Inr ()"
    and "create_new ports input user ctx op c b rb
       (case pt_workflow ports (ni_database input) (ni_environment input) op of Inr m \<Rightarrow> m | Inl _ \<Rightarrow> None) asmt (s, f)
       = (Inr out, s', f')" (is "create_new _ _ _ _ _ _ _ _ ?early _ _ = _")
    and "\<not> no_is_existing out"
  shows "\<exists>r. get_request s (rq_id r) = None \<and> rq_id r = no_id out
    \<and> (\<forall>j. get_request s' j = (if j = no_id out then Some r else get_request s j))
    \<and> rq_status r = no_status out \<and> rq_requester r = au_subject_id user \<and> rq_database r = ni_database input
    \<and> rq_environment r = ni_environment input \<and> rq_operation r = op \<and> rq_detail r = ni_detail input
    \<and> rq_idempotency_key r = ni_idempotency_key input
    \<and> rq_idempotency_fingerprint r = map_option (\<lambda>_. x_sha256_hex (pt_lib ports) (ni_detail input)) (ni_idempotency_key input)
    \<and> creation_grounds ports input op asmt r
    \<and> st_approvals s' = st_approvals s \<and> st_executions s' = st_executions s \<and> store_ok s'"
proof -
  from assms(3) obtain w decision snap trace where dec: "decide ports input op ?early asmt = Inr (w, decision)"
    and shot: "(case w of None \<Rightarrow> Inr None
       | Some v \<Rightarrow> tryE (map_err (\<lambda>e. Internal (''serialize workflow: '' @ e)) (pt_workflow_text ports v)) (\<lambda>js. Inr (Some js))) = Inr snap"
    and run: "(let status = initial_status (needs_approval decision) (ni_emergency input);
          req = new_request ports input user op c w status snap trace in
        if status \<in> {AutoApproved, BreakGlass}
        then create_and_dispatch ports req user ctx w asmt c b rb
        else create_pending ports req user ctx w asmt) (s, f) = (Inr out, s', f')"
    unfolding create_new_def Let_def thenA_Inr liftA_Inr by (elim exE conjE) (auto simp: thenA_Inr liftA_Inr)
  from shot have snap: "(case w of None \<Rightarrow> snap = None | Some v \<Rightarrow> \<exists>js. pt_workflow_text ports v = Inr js \<and> snap = Some js)"
    by (auto simp: res_simps split: option.splits)
  note d = decide_Inr [OF dec refl]
  let ?status = "initial_status (needs_approval decision) (ni_emergency input)"
  let ?req = "new_request ports input user op c w ?status snap trace"
  have emer: "ni_emergency input \<longrightarrow> ni_reason input \<noteq> None \<and> \<not> is_restricted (ni_channel input)"
    using assms(2) by (auto simp: create_preconditions_def res_simps)
  show ?thesis
  proof (cases "?status \<in> {AutoApproved, BreakGlass}")
    case True
    with run have cd: "create_and_dispatch ports ?req user ctx w asmt c b rb (s, f) = (Inr out, s', f')"
      by (simp add: Let_def)
    from True have st: "rq_status ?req \<in> {AutoApproved, BreakGlass}" by simp
    from create_and_dispatch_Inr [OF cd assms(4) st] obtain ca da ev where
      o: "no_id out = rq_id ?req" "no_status out = Dispatched"
      and tx: "create_dispatched_tx ports ?req ca da ev s = Inr ((), s')" by blast
    note row = create_dispatched_tx_row [OF assms(1) tx st]
    have "\<not> ni_emergency input \<longrightarrow> \<not> needs_approval decision"
      using True by (auto simp: initial_status_def split: bool.splits)
    then have "creation_grounds ports input op asmt (dispatched_row ?req)"
      using d emer by (auto simp: creation_grounds_def dispatched_row_def split: option.splits)
    then show ?thesis
      using row o keeps_invD [OF create_tx_ok(2) assms(1) tx]
      by (intro exI [of _ "dispatched_row ?req"]) (simp add: dispatched_row_def)
  next
    case False
    with run have cp: "create_pending ports ?req user ctx w asmt (s, f) = (Inr out, s', f')"
      by (simp add: Let_def)
    from create_pending_Inr [OF cp assms(4)] obtain ca where
      o: "no_id out = rq_id ?req" "no_status out = rq_status ?req"
      and tx: "create_pending_tx ports ?req ca s = Inr ((), s')" by blast
    note row = create_pending_tx_row [OF tx]
    have "?status = Pending \<and> \<not> ni_emergency input \<and> needs_approval decision"
      using False by (auto simp: initial_status_def split: bool.splits)
    then have "creation_grounds ports input op asmt ?req"
      using d snap by (auto simp: creation_grounds_def split: option.splits)
    then show ?thesis
      using row o keeps_invD [OF create_tx_ok(1) assms(1) tx]
      by (intro exI [of _ ?req]) simp
  qed
qed

subsection \<open>Properties\<close>

text \<open>A small installation: an update that needs one approval.\<close>

definition demo_create_ports :: create_ports where
  "demo_create_ports =
     \<lparr> pt_lib = demo_lib, pt_lower = id, pt_parse_sql = (\<lambda>_ _. Some [example_stmt (StUpdate True)]),
       pt_dialect = (\<lambda>_ _. Inr None), pt_workflow = (\<lambda>_ _ _. Inr (Some demo_workflow)),
       pt_review_policy = (\<lambda>_ _. Inr \<lparr> sv_id = ''p1'', sv_rules = default_review_rules \<rparr>),
       pt_snapshot = (\<lambda>_ _. Inr None), pt_tables = (\<lambda>_. []), pt_has_delete = (\<lambda>_. False),
       pt_delete_targets = (\<lambda>_. []), pt_exists_active = (\<lambda>_ _. Inr True), pt_list_active = Inr [],
       pt_redact = id, pt_workflow_text = (\<lambda>_. Inr ''w''), pt_trace_text = (\<lambda>_. Inr ''t''),
       pt_clock = int, pt_id = show_nat, pt_log_id = ''l1'',
       pt_audit = (\<lambda>i. \<lparr> au_signer = None, au_interval = 100, au_ids = (''e'' @ show_nat i, ''c''), au_wall = (1, 1) \<rparr>),
       pt_faults = no_faults, pt_default_approval_ttl_secs = Some 3600 \<rparr>"

definition demo_author :: auth_user where
  "demo_author =
     \<lparr> au_subject_id = ''ann'', au_subject_type = SubjUser,
       au_roles = [\<lparr> rr_name = ''requester'', rr_permissions = [RequestDml \<mapsto> Own],
         rr_databases = [db_wildcard], rr_environments = [env_wildcard] \<rparr>],
       au_groups = [], au_token_id = None \<rparr>"

definition demo_creation :: "bool \<Rightarrow> create_input" where
  "demo_creation allow_ddl =
     \<lparr> ni_database = DatabaseName ''app'', ni_environment = Environment ''prod'', ni_operation = ExecuteDml,
       ni_detail = ''UPDATE t'', ni_reason = None, ni_emergency = False, ni_allow_ddl = allow_ddl,
       ni_idempotency_key = Some ''k'', ni_share_with = [], ni_no_result_store = False, ni_metadata_json = ''{}'',
       ni_channel = ChApi \<rparr>"

definition demo_empty :: store where
  "demo_empty = (demo_store Pending)\<lparr> st_requests := [] \<rparr>"

lemma demo_empty_ok: "store_ok demo_empty"
  by (simp add: store_ok_def keys_ok_def refs_ok_def demo_empty_def demo_store_def idempotency_unique_def
      approve_unique_def claim_unique_def)

lemmas demo_create_defs = demo_create_ports_def demo_author_def demo_creation_def demo_empty_def demo_defs

lemma demo_parse:
  "parse_statements (pt_parse_sql demo_create_ports) ''UPDATE t'' PostgreSql = Inr [example_stmt (StUpdate True)]"
proof -
  have trim: "trim ''UPDATE t'' = ''UPDATE t''"
    by (simp add: trim_def ws_seqs_def strip_one_def trim_front.simps)
  have key: "\<not> first_keyword_is ''UPDATE t'' ''DO''" "\<not> first_keyword_is ''UPDATE t'' ''LOAD''"
    by code_simp+
  show ?thesis
    by (simp add: parse_statements_def trim key demo_create_ports_def MAX_SQL_BYTES_def MAX_STATEMENTS_def Let_def
        del: first_keyword_is.simps)
qed

lemma demo_resolve:
  "\<exists>c. resolve_operation demo_create_ports (demo_creation False) PostgreSql st
     = (Inr (ExecuteDml, Some c, Some [example_stmt (StUpdate True)], False), st)
     \<and> \<not> cl_is_ddl_only c \<and> \<not> cl_contains_ddl c \<and> cl_dml_reason c = Some DrStatement"
  by (simp add: resolve_operation_def demo_creation_def classify_full_def demo_parse classify_statements_def
      worst_class_def escalate_def example_stmt_def liftA_def Let_def is_ddl_class_def)

lemma demo_review:
  "\<exists>asmt. review_and_assess demo_create_ports (demo_creation False) demo_author CtxSystem ExecuteDml PostgreSql
     early c (Some [example_stmt (StUpdate True)]) st = (Inr (asmt, False), st)"
  by (simp add: review_and_assess_def demo_create_ports_def review_gate_def review_statements_def review_statement_def
      check_defs report_if_def default_review_rules_def example_stmt_def thenA_def liftA_def Let_def)

lemma demo_create_new:
  "\<exists>out s' fx. create_new demo_create_ports (demo_creation False) demo_author CtxSystem ExecuteDml c False False
      (Some demo_workflow) asmt (demo_empty, []) = (Inr out, s', fx) \<and> \<not> no_is_existing out \<and> no_status out = Pending"
proof -
  let ?ports = demo_create_ports and ?input = "demo_creation False"
  let ?req = "new_request ?ports ?input demo_author ExecuteDml c (Some demo_workflow) Pending (Some ''w'') ''t''"
  have dec: "decide ?ports ?input ExecuteDml (Some demo_workflow) asmt = Inr (Some demo_workflow, NeedsApproval)"
    by (simp add: decide_def evaluate_workflow_def demo_workflow_def)
  have texts: "pt_workflow_text ?ports demo_workflow = Inr ''w''" "pt_trace_text ?ports x = Inr ''t''" for x
    by (simp_all add: demo_create_ports_def)
  have status: "initial_status (needs_approval NeedsApproval) (ni_emergency ?input) = Pending"
    by (simp add: initial_status_def needs_approval_def demo_creation_def)
  obtain s1 where ins: "insert_request (pt_lib ?ports) ?req demo_empty = Inr ((), s1)" "st_audit s1 = []"
    by (simp add: insert_request_def map_request_insert_error_def insert_request_row_def populate_pending_approvers_def
        rq_database_id_def database_id_def demo_create_defs Let_def)
  have "audit_ids_fresh (pt_audit ?ports 0) s1"
    by (simp add: audit_ids_fresh_def ins(2) demo_create_ports_def)
  then obtain u where rec: "record_event (pt_lib ?ports) (pt_audit ?ports 0) ev s1 = Inr ((), s1\<lparr> st_audit := u ev \<rparr>)" for ev
    using record_event_succeeds by metis
  have tx: "create_pending_tx ?ports ?req ev demo_empty = Inr ((), s1\<lparr> st_audit := u ev \<rparr>)" for ev
    by (simp add: create_pending_tx_def thenT_def ins rec)
  have faults: "pt_faults ?ports = no_faults" by (simp add: demo_create_ports_def)
  have run: "persist ?ports ?req False (create_pending_tx ?ports ?req ev) (demo_empty, f) = (Inr None, s1\<lparr> st_audit := u ev \<rparr>, f)" for ev f
    by (simp add: persist_def faults uow.clean tx)
  show ?thesis
    unfolding create_new_def Let_def
    by (simp add: thenA_def liftA_def dec texts status run create_pending_def emitA_def follow_up_def created_output_def Let_def)
qed

lemma demo_creation_runs:
  obtains out s' fx where "create_request demo_create_ports (demo_creation False) demo_author CtxSystem demo_empty = (Inr out, s', fx)"
    and "\<not> no_is_existing out" and "no_status out = Pending"
proof -
  obtain c where r: "resolve_operation demo_create_ports (demo_creation False) PostgreSql (demo_empty, [])
      = (Inr (ExecuteDml, Some c, Some [example_stmt (StUpdate True)], False), demo_empty, [])"
    and c: "\<not> cl_is_ddl_only c" "\<not> cl_contains_ddl c" "cl_dml_reason c = Some DrStatement"
    using demo_resolve by metis
  obtain asmt where a: "review_and_assess demo_create_ports (demo_creation False) demo_author CtxSystem ExecuteDml PostgreSql
     (Some demo_workflow) (Some c) (Some [example_stmt (StUpdate True)]) (demo_empty, []) = (Inr (asmt, False), demo_empty, [])"
    using demo_review by blast
  have "check_input (demo_creation False) = Inr ()"
    by (simp add: check_input_def demo_creation_def MAX_QUERY_BYTES_def)
  moreover have "create_authorize (demo_creation False) demo_author ExecuteDml (Some c) = Inr ()"
    using c by (simp add: create_authorize_def require_def required_permission_def demo_creation_def demo_author_def
        authorize_scoped_def check_context_def self_read_def has_scoped_permission_def role_allows_def
        role_has_permission_def covers_database_def covers_environment_def db_wildcard_def env_wildcard_def)
  moreover have "create_preconditions demo_create_ports (demo_creation False) ExecuteDml = Inr ()"
    by (simp add: create_preconditions_def demo_creation_def demo_create_ports_def)
  moreover have "find_existing demo_create_ports (demo_creation False) demo_author demo_empty = Inr None"
    by (simp add: find_existing_def find_by_idempotency_key_def find_row_def demo_empty_def demo_creation_def)
  moreover have "\<exists>out s' fx. create_new demo_create_ports (demo_creation False) demo_author CtxSystem ExecuteDml (Some c) False False
      (Some demo_workflow) asmt (demo_empty, []) = (Inr out, s', fx) \<and> \<not> no_is_existing out \<and> no_status out = Pending"
    by (rule demo_create_new)
  ultimately show thesis
    using r a that unfolding create_request_def Let_def
    by (auto simp: thenA_def liftA_def readA_def demo_create_ports_def demo_creation_def dialect_of_def)
qed

text \<open>C12: A request that creation stores is new, carries the caller, the database, the environment and the
  SQL of the call, and leaves the other requests alone. The caller is a user with the permission
  the operation, the kind of statements and the emergency flag call for. It is pending if the
  workflow of the operation asks for approval at the assessed risk, and then it carries that
  workflow; it is dispatched at once only if the workflow approves at that risk by itself, or in
  an emergency, with a reason and not through a restricted channel.\<close>

theorem created_request_gated:
  assumes "store_ok s" and "create_request ports input user ctx s = (Inr out, s', fx)" and "\<not> no_is_existing out"
  shows "\<exists>r d op c parsed b asmt rb fx1.
     pt_dialect ports (ni_database input) (ni_environment input) = Inr d
     \<and> resolve_operation ports input (dialect_of d) (s, fx1) = (Inr (op, c, parsed, b), s, fx1)
     \<and> review_and_assess ports input user ctx op (dialect_of d)
          (case pt_workflow ports (ni_database input) (ni_environment input) op of Inr m \<Rightarrow> m | Inl _ \<Rightarrow> None)
          c parsed (s, fx1) = (Inr (asmt, rb), s, fx1)
     \<and> au_subject_type user = SubjUser
     \<and> has_scoped_permission user (required_permission input op c) (ni_database input) (ni_environment input)
     \<and> get_request s (no_id out) = None
     \<and> (\<forall>j. get_request s' j = (if j = no_id out then Some r else get_request s j))
     \<and> rq_status r = no_status out \<and> rq_requester r = au_subject_id user \<and> rq_database r = ni_database input
     \<and> rq_environment r = ni_environment input \<and> rq_operation r = op \<and> rq_detail r = ni_detail input
     \<and> creation_grounds ports input op asmt r \<and> st_approvals s' = st_approvals s \<and> store_ok s'"
proof -
  obtain d op c parsed b asmt rb fx1 where chk: "check_input input = Inr ()"
    and dia: "pt_dialect ports (ni_database input) (ni_environment input) = Inr d"
    and res: "resolve_operation ports input (dialect_of d) (s, fx1) = (Inr (op, c, parsed, b), s, fx1)"
    and rev: "review_and_assess ports input user ctx op (dialect_of d)
          (case pt_workflow ports (ni_database input) (ni_environment input) op of Inr m \<Rightarrow> m | Inl _ \<Rightarrow> None)
          c parsed (s, fx1) = (Inr (asmt, rb), s, fx1)"
    and auth: "create_authorize input user op c = Inr ()" and pre: "create_preconditions ports input op = Inr ()"
    and last: "(case find_existing ports input user s of
            Inr (Some o') \<Rightarrow> (Inr o', s, fx1)
          | Inr None \<Rightarrow> create_new ports input user ctx op c b rb
              (case pt_workflow ports (ni_database input) (ni_environment input) op of Inr m \<Rightarrow> m | Inl _ \<Rightarrow> None) asmt (s, fx1)
          | Inl e \<Rightarrow> (Inl e, s, fx1)) = (Inr out, s', fx)"
    and fx1: "fx1 = (if ni_emergency input \<and> ni_allow_ddl input then [FxMetric DdlAttempted] else [])"
    using assms(2) by (rule create_request_Inr)
  have "find_existing ports input user s \<noteq> Inr (Some out)"
    using assms(3) by (auto simp: find_existing_def existing_output_def split: option.splits if_splits)
  then have new: "create_new ports input user ctx op c b rb
      (case pt_workflow ports (ni_database input) (ni_environment input) op of Inr m \<Rightarrow> m | Inl _ \<Rightarrow> None) asmt (s, fx1) = (Inr out, s', fx)"
    using last by (auto split: sum.splits option.splits)
  from create_new_Inr [OF assms(1) pre new assms(3)] obtain r where r: "get_request s (no_id out) = None"
    "\<forall>j. get_request s' j = (if j = no_id out then Some r else get_request s j)"
    "rq_status r = no_status out" "rq_requester r = au_subject_id user" "rq_database r = ni_database input"
    "rq_environment r = ni_environment input" "rq_operation r = op" "rq_detail r = ni_detail input"
    "creation_grounds ports input op asmt r" "st_approvals s' = st_approvals s" "store_ok s'"
    by metis
  show ?thesis
    using create_authorize_Inr [OF auth] dia res rev r by (intro exI conjI; (assumption | blast))
qed

theorem created_request_gated_witness:
  "\<exists>out s' fx r op c. create_request demo_create_ports (demo_creation False) demo_author CtxSystem demo_empty = (Inr out, s', fx)
     \<and> has_scoped_permission demo_author (required_permission (demo_creation False) op c)
         (ni_database (demo_creation False)) (ni_environment (demo_creation False))
     \<and> get_request s' (no_id out) = Some r \<and> rq_status r = Pending \<and> rq_requester r = ''ann'' \<and> rq_detail r = ''UPDATE t''"
proof -
  obtain out s' fx where run: "create_request demo_create_ports (demo_creation False) demo_author CtxSystem demo_empty = (Inr out, s', fx)"
    "\<not> no_is_existing out" "no_status out = Pending" by (rule demo_creation_runs)
  from created_request_gated [OF demo_empty_ok run(1,2)] obtain r op c where
    h: "has_scoped_permission demo_author (required_permission (demo_creation False) op c)
         (ni_database (demo_creation False)) (ni_environment (demo_creation False))"
    "\<forall>j. get_request s' j = (if j = no_id out then Some r else get_request demo_empty j)"
    "rq_status r = no_status out" "rq_requester r = au_subject_id demo_author" "rq_detail r = ni_detail (demo_creation False)"
    by (elim exE conjE) (rule that; assumption)
  have "get_request s' (no_id out) = Some r" "rq_status r = Pending" "rq_requester r = ''ann''" "rq_detail r = ''UPDATE t''"
    using h run(3) by (simp_all add: demo_author_def demo_creation_def)
  with run(1) h(1) show ?thesis by blast
qed

text \<open>C13: The SQL of a request other than a migration is accepted only after it was parsed and reviewed: text the
  parser refuses is never stored, and statements the review policy blocks are stored only in an emergency with the separate flag
  and permission for destructive statements, given a reason, outside restricted channels, when
  every statement is eligible for the bypass and every blocking rule is one that may be bypassed.
  (The scripts of a migration are stored and run without being parsed or reviewed by the server; for them the code has no
  such check.)\<close>

theorem accepted_sql_reviewed:
  assumes "create_request ports input user ctx s = (Inr out, s', fx)"
    and "ni_operation input \<notin> {MigrateUp, MigrateDown, MigrateStatus, MigrateRepair}"
  shows "\<exists>d stmts policy. pt_dialect ports (ni_database input) (ni_environment input) = Inr d
     \<and> parse_statements (pt_parse_sql ports) (ni_detail input) (dialect_of d) = Inr stmts
     \<and> pt_review_policy ports (ni_database input) (ni_environment input) = Inr policy
     \<and> (let rv = review_statements stmts (Some (dialect_of d)) (sv_rules policy) in
          rv_blocked rv \<longrightarrow>
            ni_emergency input \<and> ni_allow_ddl input \<and> ni_reason input \<noteq> None \<and> \<not> is_restricted (ni_channel input)
            \<and> has_scoped_permission user RequestBreakGlassDdl (ni_database input) (ni_environment input)
            \<and> list_all (\<lambda>s. is_break_glass_eligible (categorize_statement (st_kind s))) stmts
            \<and> list_all (\<lambda>f. is_break_glass_bypassable (fd_rule f)) (blocking rv))"
proof -
  obtain d op c parsed b asmt rb fx1 where chk: "check_input input = Inr ()"
    and dia: "pt_dialect ports (ni_database input) (ni_environment input) = Inr d"
    and res: "resolve_operation ports input (dialect_of d) (s, fx1) = (Inr (op, c, parsed, b), s, fx1)"
    and rev: "review_and_assess ports input user ctx op (dialect_of d)
          (case pt_workflow ports (ni_database input) (ni_environment input) op of Inr m \<Rightarrow> m | Inl _ \<Rightarrow> None)
          c parsed (s, fx1) = (Inr (asmt, rb), s, fx1)"
    and auth: "create_authorize input user op c = Inr ()" and pre: "create_preconditions ports input op = Inr ()"
    and last: "(case find_existing ports input user s of
            Inr (Some o') \<Rightarrow> (Inr o', s, fx1)
          | Inr None \<Rightarrow> create_new ports input user ctx op c b rb
              (case pt_workflow ports (ni_database input) (ni_environment input) op of Inr m \<Rightarrow> m | Inl _ \<Rightarrow> None) asmt (s, fx1)
          | Inl e \<Rightarrow> (Inl e, s, fx1)) = (Inr out, s', fx)"
    and fx1: "fx1 = (if ni_emergency input \<and> ni_allow_ddl input then [FxMetric DdlAttempted] else [])"
    using assms(1) by (rule create_request_Inr)
  let ?parse = "parse_statements (pt_parse_sql ports) (ni_detail input) (dialect_of d)"
  note o = resolve_operation_Inr [OF res, simplified assms(2) if_False Let_def]
  note v = review_and_assess_Inr [OF rev]
  have "\<exists>stmts. ?parse = Inr stmts"
  proof (rule ccontr)
    assume no: "\<nexists>stmts. ?parse = Inr stmts"
    then have none: "parsed = None"
      using o assms(2) by (auto simp: classify_full_def classify_failed_def Let_def split: sum.splits parse_error.splits)
    with o assms(2) have "\<not> b" by (auto simp: all_eligible_def Let_def)
    with o assms(2) no have "c = Some (parse_failure_classification (ni_detail input))"
      by (auto simp: classify_full_def classify_failed_def Let_def split: sum.splits parse_error.splits)
    with v none show False by (auto simp: parse_failure_classification_def)
  qed
  then obtain stmts where stmts: "?parse = Inr stmts" by blast
  then have parsed: "parsed = Some stmts" using o assms(2) by (auto simp: classify_full_def Let_def)
  have "stmts \<noteq> []" using stmts by (auto simp: parse_statements_def Let_def split: if_splits option.splits)
  with v parsed obtain policy where pol: "pt_review_policy ports (ni_database input) (ni_environment input) = Inr policy"
    and blocked: "rv_blocked (review_statements stmts (Some (dialect_of d)) (sv_rules policy)) \<longrightarrow>
       ni_emergency input \<and> ni_allow_ddl input \<and> all_eligible (Some stmts)
       \<and> list_all (\<lambda>f. is_break_glass_bypassable (fd_rule f)) (blocking (review_statements stmts (Some (dialect_of d)) (sv_rules policy)))"
    by (auto simp: Let_def)
  have "ni_emergency input \<longrightarrow> ni_reason input \<noteq> None \<and> \<not> is_restricted (ni_channel input)"
    using pre by (auto simp: create_preconditions_def res_simps)
  with dia stmts pol blocked create_authorize_Inr [OF auth] show ?thesis
    by (intro exI [of _ d] exI [of _ stmts] exI [of _ policy]) (simp add: all_eligible_def Let_def)
qed

theorem accepted_sql_reviewed_witness:
  "\<exists>d stmts. parse_statements (pt_parse_sql demo_create_ports) ''UPDATE t'' (dialect_of d) = Inr stmts
     \<and> \<not> rv_blocked (review_statements stmts (Some (dialect_of d)) default_review_rules)"
proof -
  obtain out s' fx where run: "create_request demo_create_ports (demo_creation False) demo_author CtxSystem demo_empty = (Inr out, s', fx)"
    by (rule demo_creation_runs)
  have "ni_operation (demo_creation False) \<notin> {MigrateUp, MigrateDown, MigrateStatus, MigrateRepair}"
    by (simp add: demo_creation_def)
  from accepted_sql_reviewed [OF run this] show ?thesis
    by (auto simp: demo_create_ports_def demo_creation_def Let_def)
qed

text \<open>The steps before the transaction do not read the store.\<close>

lemma resolve_operation_state:
  "resolve_operation ports input dialect (s, f) = (Inr x, s, f) \<Longrightarrow> resolve_operation ports input dialect (s2, f) = (Inr x, s2, f)"
  by (auto simp: resolve_operation_def Let_def act_simps split: if_splits sum.splits classify_error.splits)

lemma review_and_assess_state:
  "review_and_assess ports input user ctx op dialect early c parsed (s, f) = (Inr x, s, f) \<Longrightarrow>
   review_and_assess ports input user ctx op dialect early c parsed (s2, f) = (Inr x, s2, f)"
  by (auto simp: review_and_assess_def review_gate_def Let_def act_simps split: if_splits option.splits)

lemma create_request_run:
  assumes "check_input input = Inr ()" and "pt_dialect ports (ni_database input) (ni_environment input) = Inr d"
    and "resolve_operation ports input (dialect_of d) (s, fx1) = (Inr (op, c, parsed, b), s, fx1)"
    and "review_and_assess ports input user ctx op (dialect_of d)
           (case pt_workflow ports (ni_database input) (ni_environment input) op of Inr m \<Rightarrow> m | Inl _ \<Rightarrow> None)
           c parsed (s, fx1) = (Inr (asmt, rb), s, fx1)"
    and "create_authorize input user op c = Inr ()" and "create_preconditions ports input op = Inr ()"
    and "find_existing ports input user s = Inr (Some out)"
    and "fx1 = (if ni_emergency input \<and> ni_allow_ddl input then [FxMetric DdlAttempted] else [])"
  shows "create_request ports input user ctx s = (Inr out, s, fx1)"
proof -
  have "(if ni_emergency input \<and> ni_allow_ddl input then emitA (FxMetric DdlAttempted) else liftA (Inr ())) (s, [])
      = (Inr (), s, fx1)"
    by (simp add: assms(8) emitA_def liftA_def)
  with assms(1-7) show ?thesis
    unfolding create_request_def Let_def by (simp add: act_simps)
qed

lemma find_existing_None:
  "find_existing ports input user s = Inr None \<Longrightarrow> ni_idempotency_key input = Some k \<Longrightarrow>
   find_by_idempotency_key s (au_subject_id user) k = None"
  by (auto simp: find_existing_def split: option.splits if_splits)

text \<open>The row found under the key after a creation is the new one.\<close>

lemma new_row_found:
  assumes "store_ok s" and "store_ok s'" and "\<forall>j. get_request s' j = (if j = i then Some r else get_request s j)"
    and "rq_id r = i" and "rq_requester r = u" and "rq_idempotency_key r = Some k"
    and "find_by_idempotency_key s u k = None"
  shows "find_by_idempotency_key s' u k = Some r"
proof -
  have mem: "q \<in> set (st_requests t) \<longleftrightarrow> get_request t (rq_id q) = Some q" if "store_ok t" for q t
    using requests.lookup_iff [OF that] by (auto simp: get_request_def)
  have "r \<in> set (st_requests s')" using assms(3,4) by (simp add: mem [OF assms(2)])
  then obtain q where q: "find_by_idempotency_key s' u k = Some q"
    using assms(5,6) by (cases "find_by_idempotency_key s' u k") (auto simp: find_by_idempotency_key_def find_row_None)
  then have q': "q \<in> set (st_requests s')" "rq_idempotency_key q = Some k" "rq_requester q = u"
    by (auto simp: find_by_idempotency_key_def dest: find_row_Some)
  have "q \<notin> set (st_requests s)"
    using assms(7) q' by (auto simp: find_by_idempotency_key_def find_row_None)
  then have "q = r"
    using q'(1) assms(3) unfolding mem [OF assms(1)] mem [OF assms(2)] by (auto split: if_splits)
  with q show ?thesis by simp
qed

text \<open>C35: Creation with an idempotency key can be repeated: the same call on the store the first one left
  returns the request created then, marked as existing, and changes nothing.\<close>

theorem repeated_creation_idempotent:
  assumes "store_ok s" and "create_request ports input user ctx s = (Inr out, s', fx)" and "\<not> no_is_existing out"
    and "ni_idempotency_key input = Some k"
  shows "\<exists>r fx1. get_request s' (no_id out) = Some r
     \<and> create_request ports input user ctx s' = (Inr (existing_output s' r), s', fx1) \<and> (\<forall>w. FxWebhook w \<notin> set fx1)"
proof -
  obtain d op c parsed b asmt rb fx1 where chk: "check_input input = Inr ()"
    and dia: "pt_dialect ports (ni_database input) (ni_environment input) = Inr d"
    and res: "resolve_operation ports input (dialect_of d) (s, fx1) = (Inr (op, c, parsed, b), s, fx1)"
    and rev: "review_and_assess ports input user ctx op (dialect_of d)
          (case pt_workflow ports (ni_database input) (ni_environment input) op of Inr m \<Rightarrow> m | Inl _ \<Rightarrow> None)
          c parsed (s, fx1) = (Inr (asmt, rb), s, fx1)"
    and auth: "create_authorize input user op c = Inr ()" and pre: "create_preconditions ports input op = Inr ()"
    and last: "(case find_existing ports input user s of
            Inr (Some o') \<Rightarrow> (Inr o', s, fx1)
          | Inr None \<Rightarrow> create_new ports input user ctx op c b rb
              (case pt_workflow ports (ni_database input) (ni_environment input) op of Inr m \<Rightarrow> m | Inl _ \<Rightarrow> None) asmt (s, fx1)
          | Inl e \<Rightarrow> (Inl e, s, fx1)) = (Inr out, s', fx)"
    and fx1: "fx1 = (if ni_emergency input \<and> ni_allow_ddl input then [FxMetric DdlAttempted] else [])"
    using assms(2) by (rule create_request_Inr)
  have none: "find_existing ports input user s = Inr None"
    and new: "create_new ports input user ctx op c b rb
      (case pt_workflow ports (ni_database input) (ni_environment input) op of Inr m \<Rightarrow> m | Inl _ \<Rightarrow> None) asmt (s, fx1) = (Inr out, s', fx)"
    using last assms(3)
    by (auto simp: find_existing_def existing_output_def split: sum.splits option.splits if_splits)
  from create_new_Inr [OF assms(1) pre new assms(3)] obtain r where r: "rq_id r = no_id out"
    "\<forall>j. get_request s' j = (if j = no_id out then Some r else get_request s j)" "rq_requester r = au_subject_id user"
    "rq_idempotency_key r = Some k" "rq_idempotency_fingerprint r = Some (x_sha256_hex (pt_lib ports) (ni_detail input))" "store_ok s'"
    using assms(4) by auto
  from new_row_found [OF assms(1) r(6,2,1,3,4) find_existing_None [OF none assms(4)]]
  have "find_existing ports input user s' = Inr (Some (existing_output s' r))"
    using assms(4) r(5) by (simp add: find_existing_def)
  from create_request_run [OF chk dia resolve_operation_state [OF res] review_and_assess_state [OF rev] auth pre this fx1]
  have "create_request ports input user ctx s' = (Inr (existing_output s' r), s', fx1)" .
  moreover have "\<forall>w. FxWebhook w \<notin> set fx1" by (simp add: fx1)
  ultimately show ?thesis using r(2) by auto
qed

theorem repeated_creation_idempotent_witness:
  "\<exists>out s' fx out' fx'. create_request demo_create_ports (demo_creation False) demo_author CtxSystem demo_empty = (Inr out, s', fx)
     \<and> create_request demo_create_ports (demo_creation False) demo_author CtxSystem s' = (Inr out', s', fx')
     \<and> no_is_existing out'"
proof -
  obtain out s' fx where run: "create_request demo_create_ports (demo_creation False) demo_author CtxSystem demo_empty = (Inr out, s', fx)"
    "\<not> no_is_existing out" by (rule demo_creation_runs)
  have "ni_idempotency_key (demo_creation False) = Some ''k''" by (simp add: demo_creation_def)
  from repeated_creation_idempotent [OF demo_empty_ok run this] obtain r fx1 where
    "create_request demo_create_ports (demo_creation False) demo_author CtxSystem s' = (Inr (existing_output s' r), s', fx1)"
    by blast
  moreover have "no_is_existing (existing_output s' r)" by (simp add: existing_output_def)
  ultimately show ?thesis using run(1) by blast
qed

text \<open>What a failed call may leave behind: metrics, and one audit entry about blocked SQL.\<close>

definition only_metrics :: "create_effect list \<Rightarrow> bool" where
  "only_metrics fxs = list_all (\<lambda>fx. case fx of FxMetric _ \<Rightarrow> True | _ \<Rightarrow> False) fxs"

definition block_logged :: "store \<Rightarrow> store \<Rightarrow> bool" where
  "block_logged s s' \<longleftrightarrow> s' = s \<or> (\<exists>row. s' = s\<lparr> st_audit := st_audit s @ [row] \<rparr>
     \<and> ar_event_type row = ''request.blocked_by_review'')"

lemma thenA_Inl:
  "thenA m k st = (Inl e, st') \<longleftrightarrow> m st = (Inl e, st') \<or> (\<exists>x s1 f1. m st = (Inr x, s1, f1) \<and> k x (s1, f1) = (Inl e, st'))"
  by (auto simp: thenA_def split: prod.splits sum.splits)

lemma basic_Inl:
  "liftA r st = (Inl e, st') \<longleftrightarrow> r = Inl e \<and> st' = st"
  "emitA fx st \<noteq> (Inl e, st')" "storeA g st \<noteq> (Inl e, st')"
  "readA f st = (Inl e, st') \<longleftrightarrow> f (fst st) = Inl e \<and> st' = st"
  "storeA g st = (Inr x, st') \<longleftrightarrow> st' = (g (fst st), snd st)"
  by (auto simp: liftA_def emitA_def storeA_def readA_def split: prod.splits)

lemmas failure_simps = thenA_Inl basic_Inl act_simps only_metrics_def

lemma log_audit_blocked:
  "block_logged s (log_audit ports (blocked_event ports input user ctx op md) s)"
  by (auto simp: block_logged_def log_audit_def blocked_event_def insert_audit_event_def audit_event_simple_def Let_def
      split: sum.splits prod.splits if_splits)

lemma resolve_operation_Inl:
  "resolve_operation ports input d (s, f) = (Inl e, s', f') \<Longrightarrow> only_metrics f \<Longrightarrow> s' = s \<and> only_metrics f'"
  by (auto simp: resolve_operation_def Let_def failure_simps split: if_splits sum.splits classify_error.splits)

lemma review_gate_Inl:
  "review_gate ports input user ctx op stmts rv (s, f) = (Inl e, s', f') \<Longrightarrow> only_metrics f
   \<Longrightarrow> block_logged s s' \<and> only_metrics f'"
  by (auto simp: review_gate_def Let_def failure_simps log_audit_blocked split: if_splits)

lemma review_and_assess_Inl:
  assumes "review_and_assess ports input user ctx op d early c parsed (s, f) = (Inl e, s', f')" and "only_metrics f"
  shows "block_logged s s' \<and> only_metrics f'"
proof -
  have same: "block_logged s s" by (simp add: block_logged_def)
  show ?thesis
    using assms(1) unfolding review_and_assess_def Let_def
    by (auto simp: thenA_Inl basic_Inl act_simps same assms(2) dest!: review_gate_Inl [OF _ assms(2)]
        split: option.splits if_splits)
qed

lemma persist_Inl:
  "persist ports req byp body (s, f) = (Inl e, s', f') \<Longrightarrow> only_metrics f \<Longrightarrow> s' = s \<and> only_metrics f'"
  by (auto simp: persist_def only_metrics_def dest: uow.fails split: prod.splits sum.splits if_splits option.splits)

lemma follow_up_total: "follow_up ports req w asmt st \<noteq> (Inl e, st')"
  by (auto simp: follow_up_def failure_simps)

lemma create_new_Inl:
  assumes "create_new ports input user ctx op c b rb early asmt (s, f) = (Inl e, s', f')" and "only_metrics f"
  shows "s' = s \<and> only_metrics f'"
proof -
  have cd: "s' = s \<and> only_metrics f'" if "create_and_dispatch ports req user ctx w asmt c b rb (s, f) = (Inl e, s', f')" for req w
    using that unfolding create_and_dispatch_def Let_def
    by (auto simp: thenA_Inl basic_Inl liftA_Inr follow_up_total assms(2) dest: persist_Inl [OF _ assms(2)]
        split: option.splits if_splits)
  have cp: "s' = s \<and> only_metrics f'" if "create_pending ports req user ctx w asmt (s, f) = (Inl e, s', f')" for req w
    using that unfolding create_pending_def Let_def
    by (auto simp: thenA_Inl basic_Inl follow_up_total dest: persist_Inl [OF _ assms(2)] split: option.splits)
  show ?thesis
    using assms(1) unfolding create_new_def Let_def
    by (auto simp: thenA_Inl basic_Inl act_simps assms(2) dest: cd cp split: if_splits)
qed

text \<open>A creation that fails stores no request and sends nothing out: the store is as before, except
  perhaps for one audit entry that says the review blocked the SQL, and the only effects are
  metrics.\<close>

theorem failed_creation_leaves_no_request:
  assumes "create_request ports input user ctx s = (Inl e, s', fx)"
  shows "(s' = s \<or> (\<exists>row. s' = s\<lparr> st_audit := st_audit s @ [row] \<rparr> \<and> ar_event_type row = ''request.blocked_by_review''))
    \<and> list_all (\<lambda>x. case x of FxMetric _ \<Rightarrow> True | _ \<Rightarrow> False) fx"
proof -
  define m :: "unit act" where "m = (if ni_emergency input \<and> ni_allow_ddl input then emitA (FxMetric DdlAttempted) else liftA (Inr ()))"
  define f1 where "f1 = (if ni_emergency input \<and> ni_allow_ddl input then [FxMetric DdlAttempted] else [])"
  have m: "m (s, []) = (Inr (), s, f1)" and met: "only_metrics f1" and quiet: "block_logged s s" "only_metrics []"
    by (simp_all add: m_def f1_def emitA_def liftA_def only_metrics_def block_logged_def)
  have res: "st1 = (s, f1)" if "resolve_operation ports input d (s, f1) = (Inr (op, c, parsed, b), st1)" for d op c parsed b st1
    using resolve_operation_Inr [OF that] by simp
  have rev: "st2 = (s, f1)" if "review_and_assess ports input user ctx op d early c parsed (s, f1) = (Inr (asmt, rb), st2)"
    for op d early c parsed asmt rb st2
    using review_and_assess_Inr [OF that] by simp
  have "block_logged s s' \<and> only_metrics fx"
    using assms unfolding create_request_def Let_def m_def [symmetric]
    by (auto simp: thenA_Inl basic_Inl liftA_Inr readA_Inr m met quiet
        dest!: res rev resolve_operation_Inl [OF _ met] review_and_assess_Inl [OF _ met] create_new_Inl [OF _ met]
        split: option.splits)
  then show ?thesis by (simp add: block_logged_def only_metrics_def)
qed

theorem failed_creation_leaves_no_request_witness:
  "\<exists>e s' fx. create_request demo_create_ports (demo_creation True) demo_author CtxSystem demo_empty = (Inl e, s', fx)
     \<and> st_requests s' = []"
proof -
  have run: "create_request demo_create_ports (demo_creation True) demo_author CtxSystem demo_empty
      = (Inl (into_app_error RequiresEmergency), demo_empty, [])"
    by (simp add: create_request_def check_input_def demo_creation_def MAX_QUERY_BYTES_def thenA_def liftA_def)
  from failed_creation_leaves_no_request [OF run] have "st_requests demo_empty = []"
    by (auto simp: demo_empty_def)
  with run show ?thesis by blast
qed

end
