(* ===== verification/Tame.thy ===== *)
theory Tame
  imports Background UC_Create
begin

text \<open>
  What the transactions of the server do to requests and votes. A transaction is tame if it
  creates no request and casts no vote, keeps the immutable columns, never moves a request back
  to one of the first statuses, and brings a request into or beyond the approved state only from
  there. Approving and creating are the only transactions that are not tame; this theory proves
  it for the others, operation by operation, and the theory of the whole system builds on it.
\<close>

subsection \<open>Votes\<close>

definition votes :: "store \<Rightarrow> string \<Rightarrow> approval list" where
  "votes s i = filter (\<lambda>a. ap_request_id a = i \<and> ap_action a = Approve) (st_approvals s)"

lemma step_approvals_votes: "mset (step_approvals_of k (approvals_of s i)) = mset (step_approvals_of k (votes s i))"
proof -
  have "mset (step_approvals_of k (approvals_of s i))
      = filter_mset (\<lambda>a. ap_step_index a = k \<and> ap_action a = Approve) (mset (approvals_of s i))"
    by (simp add: step_approvals_of_def)
  also have "\<dots> = mset (step_approvals_of k (votes s i))"
    unfolding mset_approvals_of by (simp add: step_approvals_of_def votes_def filter_mset_eq_conv conj_ac flip: mset_filter)
  finally show ?thesis .
qed

lemma satisfied_votes: "is_step_satisfied step k (approvals_of s i) = is_step_satisfied step k (votes s i)"
proof -
  have "group_count (step_approvals_of k (approvals_of s i)) = group_count (step_approvals_of k (votes s i))"
    by (rule ext) (simp add: group_count_def length_filter_mset [OF step_approvals_votes])
  then show ?thesis by (simp only: is_step_satisfied_def Let_def)
qed

lemma current_step_votes: "find_current_step steps (approvals_of s i) = find_current_step steps (votes s i)"
proof -
  have "find_current_step_from n steps (approvals_of s i) = find_current_step_from n steps (votes s i)" for n
    by (induction steps arbitrary: n) (simp_all add: satisfied_votes)
  then show ?thesis by (simp add: find_current_step_def)
qed

lemma all_satisfied_votes: "all_steps_satisfied steps (approvals_of s i) = all_steps_satisfied steps (votes s i)"
  by (simp add: all_steps_satisfied_nth satisfied_votes)

subsection \<open>Tame transactions\<close>

definition granted :: "request_status set" where
  "granted = {Approved, Dispatched, Running, Executed, Failed, ExecutionLost}"

definition moves :: "request \<Rightarrow> request \<Rightarrow> bool" where
  "moves r r' \<longleftrightarrow> rq_core r' = rq_core r
     \<and> (rq_status r' = rq_status r
        \<or> rq_status r' \<notin> {Pending, AutoApproved, BreakGlass}
          \<and> (rq_status r' \<in> granted \<longrightarrow> rq_status r \<in> granted \<union> {AutoApproved, BreakGlass}))"

definition tame :: "store \<Rightarrow> store \<Rightarrow> bool" where
  "tame s s' \<longleftrightarrow>
     (\<forall>i r'. get_request s' i = Some r' \<longrightarrow>
        votes s' i = votes s i \<and> (\<exists>r. get_request s i = Some r \<and> moves r r'))"

lemma moves_refl [simp]: "moves r r"
  by (simp add: moves_def)

lemma moves_trans: "moves a b \<Longrightarrow> moves b c \<Longrightarrow> moves a c"
  by (auto simp: moves_def)

lemma tame_refl [simp]: "tame s s"
  by (simp add: tame_def)

lemma tame_trans: "tame a b \<Longrightarrow> tame b c \<Longrightarrow> tame a c"
  unfolding tame_def by (metis moves_trans)

lemma tame_same: "st_requests s' = st_requests s \<Longrightarrow> (\<And>i. votes s' i = votes s i) \<Longrightarrow> tame s s'"
  by (simp add: tame_def get_request_def)

definition tame_tx :: "'a tx \<Rightarrow> bool" where
  "tame_tx m \<longleftrightarrow> (\<forall>s x s'. store_ok s \<longrightarrow> m s = Inr (x, s') \<longrightarrow> tame s s')"

named_theorems tame_intros \<open>tame transactions\<close>

lemma tame_txI: "(\<And>s x s'. store_ok s \<Longrightarrow> m s = Inr (x, s') \<Longrightarrow> tame s s') \<Longrightarrow> tame_tx m"
  by (auto simp: tame_tx_def)

lemma tame_txD: "tame_tx m \<Longrightarrow> store_ok s \<Longrightarrow> m s = Inr (x, s') \<Longrightarrow> tame s s'"
  by (auto simp: tame_tx_def)

lemma tame_thenT [tame_intros]:
  assumes "tame_tx m" and "keeps_inv store_ok m" and "\<And>x. tame_tx (k x)"
  shows "tame_tx (thenT m k)"
proof (rule tame_txI)
  fix s y s''
  assume ok: "store_ok s" and "thenT m k s = Inr (y, s'')"
  then obtain x s' where "m s = Inr (x, s')" and "k x s' = Inr (y, s'')"
    by (auto simp: thenT_Inr)
  then show "tame s s''"
    using assms ok keeps_invD tame_txD tame_trans by metis
qed

lemma tame_basic [tame_intros]:
  "tame_tx (doneT x)" "tame_tx (liftT r)" "tame_tx (checkT c e)" "tame_tx (\<lambda>s. Inl e)"
  "tame_tx (get_request_state i)" "tame_tx (get_approvals i)"
  by (auto simp: tame_tx_def tx_simps get_request_state_def get_approvals_def)

lemma tame_if [tame_intros]: "tame_tx m \<Longrightarrow> tame_tx n \<Longrightarrow> tame_tx (if c then m else n)"
  by simp

lemma tame_case_option [tame_intros]:
  "tame_tx m \<Longrightarrow> (\<And>x. tame_tx (k x)) \<Longrightarrow> tame_tx (case v of None \<Rightarrow> m | Some x \<Rightarrow> k x)"
  by (cases v) auto

subsection \<open>The operations\<close>

lemma update_request_tame:
  assumes "\<And>r. P r \<Longrightarrow> moves r (f r)" and "\<And>r. rq_id (f r) = rq_id r"
  shows "tame_tx (update_request i P f)"
proof (rule tame_txI)
  fix s x s'
  assume "update_request i P f s = Inr (x, s')"
  then have s': "s' = s\<lparr> st_requests := upd_where (\<lambda>r. rq_id r = i \<and> P r) f (st_requests s) \<rparr>"
    by (simp add: update_request_def)
  have "get_request s' j = map_option (\<lambda>r. if rq_id r = i \<and> P r then f r else r) (get_request s j)" for j
    unfolding s' get_request_def using find_row_upd [of rq_id f j, OF assms(2)] by simp
  moreover have "votes s' j = votes s j" for j by (simp add: s' votes_def)
  ultimately show "tame s s'" using assms(1) by (auto simp: tame_def)
qed

lemma mark_tame [tame_intros]:
  "tame_tx (mark_dispatched i now)" "tame_tx (mark_rejected i now)" "tame_tx (mark_running i now)"
  "tame_tx (mark_cancelled i by reason now)" "tame_tx (mark_executed i ok now)" "tame_tx (mark_expired i now)"
  "tame_tx (mark_execution_lost i now)" "tame_tx (mark_approved_from_dispatched i now)"
  unfolding mark_defs
  by (rule update_request_tame; auto simp: moves_def granted_def cancel_row_def)+

lemma update_execution_tame: "tame_tx (update_execution i P f)"
  by (rule tame_txI) (auto simp: update_execution_def votes_def intro: tame_same)

lemma execution_tame [tame_intros]:
  "tame_tx (mark_completed_from_completing i ok now)" "tame_tx (mark_failed_lease_expired i now)"
  "tame_tx (extend_lease i t)" "tame_tx (acquire_completing i late lease)"
  unfolding mark_completed_from_completing_def mark_failed_lease_expired_def extend_lease_def acquire_completing_def
  by (intro update_execution_tame tame_intros)+

lemma revert_tame [tame_intros]: "tame_tx (revert_completing i target fin lease err)"
  using update_execution_tame unfolding tame_tx_def revert_completing_def by (auto split: if_splits)

lemma insert_tame [tame_intros]:
  "tame_tx (insert_execution ex)" "tame_tx (insert_result rm)" "tame_tx (record_event lib env ev)"
  by (auto simp: tame_tx_def insert_execution_def insert_result_def votes_def record_event_def res_simps split: if_splits
      intro!: tame_same)

lemma insert_result_access_tame [tame_intros]: "tame_tx (insert_result_access access)"
proof -
  have "insert_result_access access s = Inr (x, s') \<Longrightarrow> tame s s'" for s x s'
  proof (induction access arbitrary: s)
    case Nil
    then show ?case by simp
  next
    case (Cons a access)
    from Cons.prems have "insert_result_access access (s\<lparr> st_access := st_access s @ [a] \<rparr>) = Inr (x, s')"
      by (auto split: if_splits)
    from Cons.IH [OF this] have "tame (s\<lparr> st_access := st_access s @ [a] \<rparr>) s'" .
    moreover have "tame s (s\<lparr> st_access := st_access s @ [a] \<rparr>)" by (simp add: tame_same votes_def)
    ultimately show ?case by (rule tame_trans [rotated])
  qed
  then show ?thesis by (auto simp: tame_tx_def)
qed

lemma insert_rejection_tame:
  assumes "ap_action a = Reject"
  shows "tame_tx (insert_approval lib a)"
proof (rule tame_txI)
  fix s x s'
  assume "insert_approval lib a s = Inr (x, s')"
  then obtain p where "s' = s\<lparr> st_approvals := st_approvals s @ [a], st_pending := p \<rparr>"
    by (rule insert_approval_Inr)
  then show "tame s s'" using assms by (auto simp: votes_def intro: tame_same)
qed

lemma purge_tame [tame_intros]: "tame_tx (purge_old_requests before)"
proof (rule tame_txI)
  fix s x s'
  assume ok: "store_ok s" and p: "purge_old_requests before s = Inr (x, s')"
  have ok': "store_ok s'" using keeps_invD [OF purge_ok ok p] .
  show "tame s s'"
    unfolding tame_def
  proof (intro allI impI)
    fix i r'
    assume "get_request s' i = Some r'"
    then have r': "r' \<in> set (st_requests s')" "rq_id r' = i"
      using requests.lookup_iff [OF ok'] by (auto simp: get_request_def)
    then have mem: "r' \<in> set (st_requests s)" "i \<notin> set (purge_ids before s)"
      by (auto simp: purge_Inr [OF p])
    then have "get_request s i = Some r'"
      using requests.lookup_iff [OF ok] r'(2) by (auto simp: get_request_def)
    moreover have "votes s' i = votes s i"
      using mem(2) by (auto simp: votes_def purge_Inr [OF p] intro: filter_cong)
    ultimately show "votes s' i = votes s i \<and> (\<exists>r. get_request s i = Some r \<and> moves r r')" by auto
  qed
qed

lemma cancel_all_tame [tame_intros]: "tame_tx (cancel_all_for_user u by reason now)"
proof -
  have "tame_tx (cancel_each is by reason now)" for "is"
    by (induction "is") (simp_all only: cancel_each.simps tame_basic tame_thenT mark_tame mark_ok)
  moreover have "keeps_inv store_ok (cancel_each is by reason now)" for "is"
    by (induction "is") (simp_all only: cancel_each.simps keeps_doneT keeps_thenT mark_ok)
  ultimately have "tame_tx (thenT (cancel_each is by reason now) (\<lambda>_. doneT is))" for "is"
    by (intro tame_thenT tame_basic)
  then show ?thesis
    unfolding cancel_all_for_user_def Let_def by (blast intro: tame_txI dest: tame_txD)
qed

lemma delete_result_ok: "store_ok s \<Longrightarrow> store_ok (delete_result i s)"
  by (auto simp: delete_result_def store_ok_def keys_ok_def refs_ok_def distinct_map_filter_sub)

lemma delete_result_tame: "tame s (delete_result i s)"
  by (auto simp: delete_result_def votes_def intro: tame_same)

subsection \<open>The transactions\<close>

lemma use_case_tame [tame_intros]:
  "tame_tx (cancel_tx env mode i u reason ev)" "tame_tx (resume_tx env now i ev)" "tame_tx (claim_tx env i ex ev)"
  "tame_tx (complete_tx env now ex success rm access ev')"
  "tame_tx (lease_tx benv e i audit)" "tame_tx (dispatch_tx benv i audit)" "tame_tx (expire_tx benv i audit)"
  unfolding cancel_tx_def resume_tx_def claim_tx_def complete_tx_def lease_tx_def dispatch_tx_def expire_tx_def
  by (intro tame_intros keeps_intros)+

lemma reject_tx_tame: "ap_action a = Reject \<Longrightarrow> tame_tx (reject_tx env i a ev)"
  unfolding reject_tx_def by (intro tame_intros keeps_intros insert_rejection_tame)

end
