(* ===== verification/Request_System.thy ===== *)
theory Request_System
  imports Tame
begin

text \<open>
  The server as a whole: calls of many clients and the background tasks, interleaved at the
  granularity at which the code runs atomically. A call first reads the store and checks, then
  its transaction runs on whatever the store has become by then; a submission goes through
  several of them. The theorems are invariants of every reachable state, proved by rule induction
  through the interface of transition systems.
\<close>

subsection \<open>Calls\<close>

text \<open>A call that has passed its checks, with what its next transaction needs.\<close>

datatype call =
    CallCreatePending create_ports request audit_event
  | CallCreateDispatched create_ports request audit_event audit_event "audit_event option"
  | CallApprove call_env approve_input auth_user audit_context request workflow
  | CallReject call_env string approval transition_event
  | CallCancel call_env redaction_mode string string "string option" transition_event
  | CallCancelAll string string "string option" timestamp
  | CallResume call_env timestamp string transition_event
  | CallClaim call_env string execution transition_event
  | CallHeartbeat string timestamp
  | CallAcquire call_env submit_ports "nat \<Rightarrow> timestamp" submit_input auth_user audit_context execution request
      "result_policy option"
  | CallComplete call_env timestamp execution bool "execution_result option" "result_access list" audit_event timestamp
  | CallRevert execution timestamp
  | CallLease bg_env string string audit_event
  | CallTimeout bg_env string audit_event
  | CallExpire bg_env string audit_event
  | CallDeleteResult string
  | CallPurge timestamp

definition discard :: "'a tx \<Rightarrow> unit tx" where
  "discard m = thenT m (\<lambda>_. doneT ())"

fun call_tx :: "call \<Rightarrow> unit tx" where
  "call_tx (CallCreatePending ports req ca) = create_pending_tx ports req ca"
| "call_tx (CallCreateDispatched ports req ca da ev) = create_dispatched_tx ports req ca da ev"
| "call_tx (CallApprove env input user ctx request w) = discard (approve_tx env request w user ctx input)"
| "call_tx (CallReject env i a ev) = reject_tx env i a ev"
| "call_tx (CallCancel env mode i u reason ev) = cancel_tx env mode i u reason ev"
| "call_tx (CallCancelAll u by reason now) = discard (cancel_all_for_user u by reason now)"
| "call_tx (CallResume env now i ev) = resume_tx env now i ev"
| "call_tx (CallClaim env i ex ev) = claim_tx env i ex ev"
| "call_tx (CallHeartbeat i t) = discard (extend_lease i t)"
| "call_tx (CallAcquire env ports clk input user ctx ex request policy) =
     thenT (acquire_completing (sb_execution_id input) (is_late_completion ex request)
              (completing_lease (clk 1) ex request)) (\<lambda>acquired.
     checkT acquired (Conflict ''execution is already being completed''))"
| "call_tx (CallComplete env now ex success rm access ev lease) = discard (complete_tx env now ex success rm access ev)"
| "call_tx (CallRevert ex lease) =
     discard (revert_completing (ex_id ex) (ex_status ex) (ex_finished_at ex) lease (ex_error_message ex))"
| "call_tx (CallLease env e i audit) = discard (lease_tx env e i audit)"
| "call_tx (CallTimeout env i audit) = discard (dispatch_tx env i audit)"
| "call_tx (CallExpire env i audit) = expire_tx env i audit"
| "call_tx (CallDeleteResult i) = (\<lambda>s. Inr ((), delete_result i s))"
| "call_tx (CallPurge before) = discard (purge_old_requests before)"

fun created :: "call \<Rightarrow> request option" where
  "created (CallCreatePending ports req ca) = Some req"
| "created (CallCreateDispatched ports req ca da ev) = Some req"
| "created c = None"

text \<open>The request a creation builds once its checks have passed.\<close>

definition creation_built :: "create_ports \<Rightarrow> create_input \<Rightarrow> auth_user \<Rightarrow> request \<Rightarrow> bool" where
  "creation_built ports input user req \<longleftrightarrow>
     (\<exists>op c early asmt w decision snap trace.
        create_authorize input user op c = Inr () \<and> create_preconditions ports input op = Inr ()
        \<and> decide ports input op early asmt = Inr (w, decision)
        \<and> (case w of None \<Rightarrow> snap = None | Some v \<Rightarrow> \<exists>js. pt_workflow_text ports v = Inr js \<and> snap = Some js)
        \<and> req = new_request ports input user op c w
             (initial_status (needs_approval decision) (ni_emergency input)) snap trace)"

inductive starts :: "lib \<Rightarrow> store \<Rightarrow> call \<Rightarrow> bool" for lib s where
  start_create_pending:
    "pt_lib ports = lib \<Longrightarrow> creation_built ports input user req \<Longrightarrow> rq_status req = Pending \<Longrightarrow>
     starts lib s (CallCreatePending ports req (audit_of lib (creation_event req user ctx) (rq_created_at req)))"
| start_create_dispatched:
    "pt_lib ports = lib \<Longrightarrow> creation_built ports input user req \<Longrightarrow> rq_status req \<in> {AutoApproved, BreakGlass} \<Longrightarrow>
     transition (rq_status req) TDispatch (creation_context req user ctx MDispatched) = Inr res \<Longrightarrow>
     starts lib s (CallCreateDispatched ports req (audit_of lib (creation_event req user ctx) (rq_created_at req))
       (audit_of lib (tr_event res) (rq_created_at req)) ev)"
| start_approve:
    "ce_lib env = lib \<Longrightarrow> approve_checks env input user s = Inr (request, w) \<Longrightarrow>
     starts lib s (CallApprove env input user ctx request w)"
| start_reject:
    "reject_checks env input user ctx s = Inr (request, a, ev) \<Longrightarrow> starts lib s (CallReject env (rq_id request) a ev)"
| start_cancel:
    "cancel_checks env input user ctx s = Inr (request, ev) \<Longrightarrow>
     starts lib s (CallCancel env mode (rq_id request) (au_subject_id user) (ki_reason input) ev)"
| start_cancel_all: "starts lib s (CallCancelAll u by reason now)"
| start_resume:
    "resume_checks env clk policy input user ctx s = Inr (request, ev) \<Longrightarrow>
     starts lib s (CallResume env (clk 0) (rq_id request) ev)"
| start_claim:
    "claim_checks env ports input user ctx s = Inr (request, ex, ev, policy) \<Longrightarrow>
     starts lib s (CallClaim env (rq_id request) ex ev)"
| start_heartbeat:
    "get_execution s i = Some ex \<Longrightarrow> ex_status ex = ExClaimed \<Longrightarrow> starts lib s (CallHeartbeat i t)"
| start_submit:
    "submit_checks ports (clk 0) input user ctx s = Inr (ex, request, res, policy) \<Longrightarrow>
     starts lib s (CallAcquire env ports clk input user ctx ex request policy)"
| start_lease:
    "(e, i) \<in> set (find_expired_leases s (bg_now benv)) \<Longrightarrow> starts lib s (CallLease benv e i audit)"
| start_timeout:
    "i \<in> set (find_dispatched_older_than s (bg_now benv - seconds dispatch_timeout_secs)) \<Longrightarrow>
     starts lib s (CallTimeout benv i audit)"
| start_expire_approved:
    "find_expired_approved lib s (bg_now benv) = Inr ids \<Longrightarrow> i \<in> set ids \<Longrightarrow> starts lib s (CallExpire benv i audit)"
| start_expire_pending:
    "i \<in> set (find_expired_pending s (bg_now benv)) \<Longrightarrow> starts lib s (CallExpire benv i audit)"
| start_delete_result: "(i, okey) \<in> set (find_expired_results s now) \<Longrightarrow> starts lib s (CallDeleteResult i)"
| start_purge: "starts lib s (CallPurge before)"

text \<open>What a submission does next, after its transaction committed (\<open>True\<close>) or not.\<close>

inductive follows :: "call \<Rightarrow> bool \<Rightarrow> call \<Rightarrow> bool" where
  follow_complete:
    "store_result (ce_lib env) ports clk input ex request policy = (None, rm, effs) \<Longrightarrow>
     access = (case rm of
         Some m \<Rightarrow> share_records m (rq_share_with request) (case policy of Some p \<Rightarrow> rp_access p | None \<Rightarrow> [])
       | None \<Rightarrow> []) \<Longrightarrow>
     follows (CallAcquire env ports clk input user ctx ex request policy) True
       (CallComplete env (clk 5) ex (sb_success input) rm access
         (submit_audit_event (ce_lib env) input request ex user ctx (clk 5))
         (max (ex_lease_expires_at ex) (clk 2 + seconds 60)))"
| follow_storage_error:
    "store_result (ce_lib env) ports clk input ex request policy = (Some e, rm, effs) \<Longrightarrow>
     follows (CallAcquire env ports clk input user ctx ex request policy) True
       (CallRevert ex (max (ex_lease_expires_at ex) (clk 2 + seconds 60)))"
| follow_failed_completion:
    "follows (CallComplete env now ex success rm access ev lease) False (CallRevert ex lease)"

subsection \<open>The system\<close>

text \<open>\<open>sy_used\<close> and \<open>sy_born\<close> are history: the identifiers of all requests ever stored, and of those
  stored as pending.\<close>

record system =
  sy_store :: store
  sy_calls :: "call list"
  sy_used :: "string set"
  sy_born :: "string set"

definition sys_init :: "system \<Rightarrow> bool" where
  "sys_init y \<longleftrightarrow>
     st_requests (sy_store y) = [] \<and> st_approvals (sy_store y) = [] \<and> st_pending (sy_store y) = []
     \<and> st_executions (sy_store y) = [] \<and> st_results (sy_store y) = [] \<and> st_access (sy_store y) = []
     \<and> sy_calls y = [] \<and> sy_used y = {} \<and> sy_born y = {}"

definition new_ids :: "call \<Rightarrow> string set" where
  "new_ids c = (case created c of Some req \<Rightarrow> {rq_id req} | None \<Rightarrow> {})"

definition new_born :: "call \<Rightarrow> string set" where
  "new_born c = (case created c of Some req \<Rightarrow> if rq_status req = Pending then {rq_id req} else {} | None \<Rightarrow> {})"

text \<open>A commit of a creation draws an identifier no request ever had; a call may fail or be cut off
  at any time.\<close>

inductive sys_step :: "lib \<Rightarrow> system \<Rightarrow> system \<Rightarrow> bool" for lib where
  step_start: "starts lib (sy_store y) c \<Longrightarrow> sys_step lib y (y\<lparr> sy_calls := sy_calls y @ [c] \<rparr>)"
| step_commit:
    "sy_calls y = C @ c # D \<Longrightarrow> call_tx c (sy_store y) = Inr ((), s') \<Longrightarrow> new_ids c \<inter> sy_used y = {} \<Longrightarrow>
     list_all (follows c True) next_calls \<Longrightarrow>
     sys_step lib y
       \<lparr> sy_store = s', sy_calls = C @ next_calls @ D, sy_used = sy_used y \<union> new_ids c, sy_born = sy_born y \<union> new_born c \<rparr>"
| step_fail:
    "sy_calls y = C @ c # D \<Longrightarrow> list_all (follows c False) next_calls \<Longrightarrow>
     sys_step lib y (y\<lparr> sy_calls := C @ next_calls @ D \<rparr>)"

inductive_cases starts_cases:
  "starts lib s (CallCreatePending ports req ca)"
  "starts lib s (CallCreateDispatched ports req ca da ev)"
  "starts lib s (CallApprove env input user ctx request w)"
  "starts lib s (CallReject env i a ev)"

inductive_cases follows_cases: "follows c b d"

subsection \<open>Lawful votes\<close>

definition step_selectors :: "workflow \<Rightarrow> u32 \<Rightarrow> string set" where
  "step_selectors w k = (\<lambda>g. selector_to_string (ag_selector g)) ` set (ws_approvers (wf_steps w ! unat k))"

definition ballots :: "u32 \<Rightarrow> string \<Rightarrow> approval list \<Rightarrow> nat" where
  "ballots k sel vs = length (filter (\<lambda>a. ap_step_index a = k \<and> ap_matched_selector a = sel) vs)"

definition lawful_vote :: "workflow \<Rightarrow> string \<Rightarrow> approval list \<Rightarrow> approval \<Rightarrow> bool" where
  "lawful_vote w requester vs a \<longleftrightarrow>
     ap_action a = Approve
     \<and> ap_step_index a \<le> find_current_step (wf_steps w) vs
     \<and> ap_step_index a < as_u32 (length (wf_steps w))
     \<and> ap_matched_selector a \<in> step_selectors w (ap_step_index a)
     \<and> (wf_allow_self_approve w \<or> ap_actor_id a \<noteq> requester)"

definition lawful_votes :: "workflow \<Rightarrow> string \<Rightarrow> approval list \<Rightarrow> bool" where
  "lawful_votes w requester vs \<longleftrightarrow>
     (\<forall>a \<in> set vs. lawful_vote w requester vs a)
     \<and> (\<forall>a \<in> set vs. \<forall>b \<in> set vs. ap_actor_id a = ap_actor_id b \<longrightarrow> ap_step_index a \<noteq> ap_step_index b
          \<longrightarrow> wf_allow_same_approver_across_steps w)
     \<and> (\<forall>k sel. ballots k sel vs < 2 ^ 32)"

lemma lawful_votes_Nil [simp]: "lawful_votes w q []"
  by (simp add: lawful_votes_def ballots_def)

lemma group_count_ballots:
  assumes "\<forall>a \<in> set vs. ap_action a = Approve"
  shows "group_count (step_approvals_of k vs) g = as_u32 (ballots k (selector_to_string (ag_selector g)) vs)"
proof -
  have "filter (\<lambda>a. ap_matched_selector a = sel) (step_approvals_of k vs)
      = filter (\<lambda>a. ap_step_index a = k \<and> ap_matched_selector a = sel) vs" for sel
    using assms by (auto simp: step_approvals_of_def intro: filter_cong)
  then show ?thesis by (simp add: group_count_def ballots_def)
qed

text \<open>A step stays satisfied when a vote is added: the counters do not overflow.\<close>

lemma satisfied_mono:
  assumes "\<forall>b \<in> set (vs @ [a]). ap_action b = Approve" and "\<forall>k sel. ballots k sel (vs @ [a]) < 2 ^ 32"
    and "is_step_satisfied step k vs"
  shows "is_step_satisfied step k (vs @ [a])"
proof -
  have "group_count (step_approvals_of k vs) g \<le> group_count (step_approvals_of k (vs @ [a])) g" for g
  proof -
    let ?sel = "selector_to_string (ag_selector g)"
    have le: "ballots k ?sel vs \<le> ballots k ?sel (vs @ [a])" by (simp add: ballots_def)
    have "ballots k ?sel vs < 2 ^ 32" "ballots k ?sel (vs @ [a]) < 2 ^ 32"
      using assms(2) le by (meson order_le_less_trans)+
    with le show ?thesis
      using group_count_ballots [OF assms(1)] group_count_ballots [of vs k g] assms(1)
      by (simp add: as_u32_le_iff)
  qed
  with assms(3) show ?thesis
    by (force simp: is_step_satisfied_def Let_def list_all_iff list_ex_iff split: workflow_step_mode.splits
        intro: order_trans)
qed

lemma current_step_mono:
  assumes "length steps < 2 ^ 32" and "\<And>step k. is_step_satisfied step k vs \<Longrightarrow> is_step_satisfied step k vs'"
  shows "find_current_step steps vs \<le> find_current_step steps vs'"
proof -
  have "\<forall>j < unat (find_current_step steps vs). is_step_satisfied (steps ! j) (as_u32 j) vs'"
    using current_step_spec(2) [OF assms(1)] assms(2) by blast
  then have "unat (find_current_step steps vs) \<le> unat (find_current_step steps vs')"
    using satisfied_prefix_le_current [OF assms(1)] current_step_spec(1) [OF assms(1)] by blast
  then show ?thesis by (simp add: word_le_nat_alt)
qed

lemma vote_added:
  assumes lawful: "lawful_votes w q vs" and few: "length (wf_steps w) < 2 ^ 32"
    and cur: "k = find_current_step (wf_steps w) vs" "k < as_u32 (length (wf_steps w))"
    and a: "ap_action a = Approve" "ap_step_index a = k" "ap_matched_selector a \<in> step_selectors w k"
    and quota: "as_u32 (ballots k (ap_matched_selector a) vs) < required"
    and self: "wf_allow_self_approve w \<or> ap_actor_id a \<noteq> q"
    and same: "wf_allow_same_approver_across_steps w \<or> ap_actor_id a \<notin> set (previous_approver_ids k vs)"
  shows "lawful_votes w q (vs @ [a])"
proof -
  have appr: "\<forall>b \<in> set (vs @ [a]). ap_action b = Approve"
    using lawful a(1) by (auto simp: lawful_votes_def lawful_vote_def)
  have "ballots k (ap_matched_selector a) vs < unat required"
  proof -
    have "ballots k (ap_matched_selector a) vs < 2 ^ 32" using lawful by (simp add: lawful_votes_def)
    then show ?thesis using quota by (simp add: word_less_nat_alt unat_as_u32_id)
  qed
  moreover have "unat required < 2 ^ 32" using unsigned_less [of required] by simp
  ultimately have "ballots k (ap_matched_selector a) vs + 1 < 2 ^ 32" by linarith
  then have bound: "\<forall>j sel. ballots j sel (vs @ [a]) < 2 ^ 32"
    using lawful a(2) by (auto simp: lawful_votes_def ballots_def)
  have mono: "find_current_step (wf_steps w) vs \<le> find_current_step (wf_steps w) (vs @ [a])"
    by (rule current_step_mono [OF few satisfied_mono [OF appr bound]])
  have old: "lawful_vote w q (vs @ [a]) b" if "b \<in> set vs" for b
    using lawful that mono by (auto simp: lawful_votes_def lawful_vote_def intro: order_trans)
  have new: "lawful_vote w q (vs @ [a]) a"
    using a cur mono self by (simp add: lawful_vote_def)
  have across: "wf_allow_same_approver_across_steps w"
    if "b \<in> set vs" "ap_actor_id b = ap_actor_id a" "ap_step_index b \<noteq> ap_step_index a" for b
  proof -
    have "ap_step_index b \<le> k" using lawful that(1) cur(1) by (auto simp: lawful_votes_def lawful_vote_def)
    with that(3) a(2) have "ap_step_index b < k" by simp
    with that(1) appr have "b \<in> set (filter (\<lambda>a. ap_step_index a < k \<and> ap_action a = Approve) vs)" by simp
    then have "ap_actor_id a \<in> set (previous_approver_ids k vs)"
      unfolding previous_approver_ids_def set_map that(2) [symmetric] by (rule imageI)
    with same show ?thesis by blast
  qed
  show ?thesis
    unfolding lawful_votes_def using old new across bound lawful
    by (auto simp: lawful_votes_def)
qed

text \<open>The unique index of the approvals table, for the votes of one request.\<close>

lemma votes_distinct:
  assumes "approve_unique (st_approvals s)"
  shows "distinct (map (\<lambda>a. (ap_actor_id a, ap_step_index a)) (votes s i))"
proof -
  let ?t = "filter (\<lambda>a. ap_action a = Approve) (st_approvals s)"
  have v: "votes s i = filter (\<lambda>a. ap_request_id a = i) ?t"
    by (simp add: votes_def conj_commute)
  have "distinct (map (\<lambda>a. (ap_request_id a, ap_actor_id a, ap_step_index a)) (votes s i))"
    unfolding v using assms distinct_map_filter_sub unfolding approve_unique_def by blast
  moreover have "\<forall>a \<in> set (votes s i). ap_request_id a = i" by (simp add: votes_def)
  ultimately show ?thesis by (auto simp: distinct_map inj_on_def)
qed

subsection \<open>The invariant\<close>

definition row_ok :: "lib \<Rightarrow> store \<Rightarrow> string set \<Rightarrow> request \<Rightarrow> bool" where
  "row_ok lib s born r \<longleftrightarrow>
     (rq_id r \<in> born \<longrightarrow> rq_status r \<notin> {AutoApproved, BreakGlass}
        \<and> (rq_status r \<in> granted \<longrightarrow>
             (\<exists>w. read_workflow lib (rq_workflow_snapshot_json r) = Inr (Some w)
                \<and> all_steps_satisfied (wf_steps w) (votes s (rq_id r)))))
     \<and> (\<forall>w. read_workflow lib (rq_workflow_snapshot_json r) = Inr (Some w) \<longrightarrow> length (wf_steps w) < 2 ^ 32
          \<longrightarrow> lawful_votes w (rq_requester r) (votes s (rq_id r)))"

definition rows_ok :: "lib \<Rightarrow> store \<Rightarrow> string set \<Rightarrow> string set \<Rightarrow> bool" where
  "rows_ok lib s used born \<longleftrightarrow>
     born \<subseteq> used \<and> (\<forall>i r. get_request s i = Some r \<longrightarrow> i \<in> used \<and> row_ok lib s born r)"

fun call_ok :: "lib \<Rightarrow> store \<Rightarrow> string set \<Rightarrow> call \<Rightarrow> bool" where
  "call_ok lib s used (CallApprove env input user ctx request w) \<longleftrightarrow>
     ce_lib env = lib \<and> read_workflow lib (rq_workflow_snapshot_json request) = Inr (Some w)
     \<and> rq_id request \<in> used
     \<and> (\<forall>r. get_request s (rq_id request) = Some r \<longrightarrow> rq_core r = rq_core request)"
| "call_ok lib s used (CallReject env i a ev) \<longleftrightarrow> ap_action a = Reject"
| "call_ok lib s used (CallCreatePending ports req ca) \<longleftrightarrow> rq_status req = Pending"
| "call_ok lib s used (CallCreateDispatched ports req ca da ev) \<longleftrightarrow> rq_status req \<in> {AutoApproved, BreakGlass}"
| "call_ok lib s used c \<longleftrightarrow> True"

definition lawful :: "lib \<Rightarrow> system \<Rightarrow> bool" where
  "lawful lib y \<longleftrightarrow> store_ok (sy_store y) \<and> rows_ok lib (sy_store y) (sy_used y) (sy_born y)
     \<and> list_all (call_ok lib (sy_store y) (sy_used y)) (sy_calls y)"

subsection \<open>Tame commits\<close>

fun tame_call :: "call \<Rightarrow> bool" where
  "tame_call (CallCreatePending ports req ca) = False"
| "tame_call (CallCreateDispatched ports req ca da ev) = False"
| "tame_call (CallApprove env input user ctx request w) = False"
| "tame_call c = True"

lemma discard_Inr: "discard m s = Inr ((), s') \<longleftrightarrow> (\<exists>x. m s = Inr (x, s'))"
  by (auto simp: discard_def thenT_Inr doneT_Inr)

lemma discard_tame: "tame_tx m \<Longrightarrow> tame_tx (discard m)"
  by (auto simp: tame_tx_def discard_Inr)

lemma discard_ok [keeps_intros]: "keeps_inv P m \<Longrightarrow> keeps_inv P (discard m)"
  by (auto simp: discard_def intro: keeps_intros)

lemma delete_result_keeps:
  "keeps_inv store_ok (\<lambda>s. Inr ((), delete_result i s))" "tame_tx (\<lambda>s. Inr ((), delete_result i s))"
  by (auto simp: keeps_inv_def tame_tx_def delete_result_ok delete_result_tame)

lemma call_tx_ok: "keeps_inv store_ok (call_tx c)"
  by (cases c) (simp_all only: call_tx.simps, (intro keeps_intros delete_result_keeps)+)

lemma tame_call_tx: "tame_call c \<Longrightarrow> call_ok lib s used c \<Longrightarrow> tame_tx (call_tx c)"
  by (cases c) (simp_all only: call_tx.simps tame_call.simps call_ok.simps simp_thms,
      (intro tame_intros keeps_intros discard_tame reject_tx_tame delete_result_keeps; assumption)+)

lemma tame_rows:
  assumes "tame s s'" and "rows_ok lib s used born"
  shows "rows_ok lib s' used born"
  unfolding rows_ok_def
proof (intro conjI allI impI)
  show "born \<subseteq> used" using assms(2) by (simp add: rows_ok_def)
next
  fix i r' assume r': "get_request s' i = Some r'"
  with assms(1) obtain r where r: "get_request s i = Some r" and m: "moves r r'" and v: "votes s' i = votes s i"
    by (auto simp: tame_def)
  from r assms(2) have used: "i \<in> used" and ok: "row_ok lib s born r" by (auto simp: rows_ok_def)
  show "i \<in> used" by (rule used)
  from m have core: "rq_core r' = rq_core r" by (simp add: moves_def)
  from get_request_id [OF r] get_request_id [OF r'] have ids: "rq_id r = i" "rq_id r' = i" by simp_all
  show "row_ok lib s' born r'"
    using ok m unfolding row_ok_def ids rq_core_fields [OF core] v moves_def by auto
qed

lemma tame_calls:
  assumes "tame s s'" and "call_ok lib s used c"
  shows "call_ok lib s' used c"
proof (cases c)
  case (CallApprove env input user ctx request w)
  have "rq_core r' = rq_core request" if "get_request s' (rq_id request) = Some r'" for r'
  proof -
    from assms(1) that obtain r where "get_request s (rq_id request) = Some r" and "moves r r'"
      by (auto simp: tame_def)
    with assms(2) show ?thesis by (simp add: CallApprove moves_def)
  qed
  with assms(2) show ?thesis by (simp add: CallApprove)
qed (use assms(2) in simp_all)

subsection \<open>Approvals\<close>

lemma selector_count_votes: "selector_count k sel (approvals_of s i) = as_u32 (ballots k sel (votes s i))"
proof -
  let ?P = "\<lambda>a. ap_matched_selector a = sel"
  have 1: "selector_count k sel vs = as_u32 (length (filter ?P (step_approvals_of k vs)))" for vs
    unfolding selector_count_def step_approvals_of_def filter_filter
    by (intro arg_cong [where f = as_u32] arg_cong [where f = length] filter_cong refl) blast
  have "filter (\<lambda>a. ap_step_index a = k \<and> ap_matched_selector a = sel) (votes s i) =
      filter (\<lambda>a. ap_step_index a = k \<and> ap_action a = Approve \<and> ap_matched_selector a = sel) (votes s i)"
    by (rule filter_cong) (auto simp: votes_def)
  then have "as_u32 (ballots k sel (votes s i)) = selector_count k sel (votes s i)"
    by (simp only: ballots_def selector_count_def)
  then show ?thesis by (simp add: 1 length_filter_mset [OF step_approvals_votes])
qed

lemma previous_approvers_votes:
  "set (previous_approver_ids k (approvals_of s i)) = set (previous_approver_ids k (votes s i))"
proof -
  have "set (approvals_of s i) = {a \<in> set (st_approvals s). ap_request_id a = i}"
    using mset_approvals_of [of s i] by (metis set_filter set_mset_mset)
  then show ?thesis by (auto simp: previous_approver_ids_def votes_def)
qed

lemma matched_step_selector:
  "sel \<in> set (matched_selectors_by_attrs rns gs u (ws_approvers (wf_steps w ! unat k))) \<Longrightarrow> sel \<in> step_selectors w k"
  by (auto simp: matched_selectors_by_attrs_def step_selectors_def)

text \<open>A committed approval, on the request it finds in the store.\<close>

lemma approve_commit_vote:
  assumes ok: "store_ok s" and eff: "approval_effect env request w user input sel ev s s'"
    and r: "get_request s (rq_id request) = Some r" and core: "rq_core r = rq_core request"
  defines "i \<equiv> rq_id request"
  defines "a \<equiv> approval_row env request user input sel (find_current_step (wf_steps w) (approvals_of s i))"
  shows "length (wf_steps w) < 2 ^ 32 \<Longrightarrow> lawful_votes w (rq_requester r) (votes s i) \<Longrightarrow>
      lawful_votes w (rq_requester r) (votes s i @ [a])"
proof -
  assume few: "length (wf_steps w) < 2 ^ 32" and old: "lawful_votes w (rq_requester r) (votes s i)"
  let ?k = "find_current_step (wf_steps w) (votes s i)" and ?step = "wf_steps w ! unat (find_current_step (wf_steps w) (votes s i))"
  note e = eff [unfolded approval_effect_def Let_def current_step_votes, folded i_def]
  have elig: "is_approvable_by_attrs (au_subject_id user) (role_names user) (au_groups user) (ws_approvers ?step)
      (rq_requester request) (previous_approver_ids ?k (approvals_of s i)) (wf_allow_self_approve w) (wf_allow_same_approver_across_steps w)"
    and open_step: "?k < as_u32 (length (wf_steps w))"
    and sel: "choose_selector (ai_selector input)
      (matched_selectors_by_attrs (role_names user) (au_groups user) (au_subject_id user) (ws_approvers ?step))
      ?step ?k (approvals_of s i) = Inr sel"
    using e by blast+
  note chosen = choose_selector_matched [OF sel]
  have a: "ap_action a = Approve" "ap_step_index a = ?k" "ap_matched_selector a = sel" "ap_actor_id a = au_subject_id user"
    by (simp_all add: a_def approval_row_def current_step_votes)
  show ?thesis
  proof (rule vote_added [OF old few refl open_step a(1,2)])
    show "ap_matched_selector a \<in> step_selectors w ?k"
      unfolding a using chosen matched_step_selector by blast
    show "as_u32 (ballots ?k (ap_matched_selector a) (votes s i)) < selector_required ?step sel"
      unfolding a using chosen selector_count_votes by metis
    show "wf_allow_self_approve w \<or> ap_actor_id a \<noteq> rq_requester r"
      unfolding a using elig rq_core_fields(2) [OF core] by (simp add: is_approvable_by_attrs_iff)
    show "wf_allow_same_approver_across_steps w \<or> ap_actor_id a \<notin> set (previous_approver_ids ?k (votes s i))"
      unfolding a using elig by (simp add: is_approvable_by_attrs_iff previous_approvers_votes)
  qed
qed

lemma approve_commit:
  assumes ok: "store_ok s" and rows: "rows_ok lib s used born"
    and call: "call_ok lib s used (CallApprove env input user ctx request w)"
    and tx: "approve_tx env request w user ctx input s = Inr (x, s')"
  shows "rows_ok lib s' used born \<and> (\<forall>c. call_ok lib s used c \<longrightarrow> call_ok lib s' used c)"
proof -
  let ?i = "rq_id request"
  obtain st sel fin n ev where x: "x = (st, sel, fin, n, ev)" by (cases x)
  have eff: "approval_effect env request w user input sel ev s s'"
    using approve_tx_Inr tx unfolding x by blast
  let ?a = "approval_row env request user input sel (find_current_step (wf_steps w) (approvals_of s ?i))"
  obtain r rest where r: "get_request s ?i = Some r" "rq_status r = Pending"
    and votes': "st_approvals s' = st_approvals s @ [?a]"
    and get: "\<And>j. get_request s' j = (if j = ?i
       then Some (decided_row (all_steps_satisfied (wf_steps w) (approvals_of s' ?i)) (ce_tx_now env) r) else get_request s j)"
    using approval_effect_store [OF ok eff] by metis
  let ?r' = "decided_row (all_steps_satisfied (wf_steps w) (approvals_of s' ?i)) (ce_tx_now env) r"
  have core: "rq_core r = rq_core request" and wfl: "read_workflow lib (rq_workflow_snapshot_json request) = Inr (Some w)"
    using call r(1) by simp_all
  have core': "rq_core ?r' = rq_core r" by (simp add: decided_row_def)
  have id: "rq_id ?r' = ?i" using get_request_id [OF r(1)] rq_core_fields(1) [OF core'] by simp
  have vi: "votes s' ?i = votes s ?i @ [?a]" and vj: "\<And>j. j \<noteq> ?i \<Longrightarrow> votes s' j = votes s j"
    by (auto simp: votes_def votes' approval_row_def)
  have old: "row_ok lib s born r" using rows r(1) by (simp add: rows_ok_def)
  have snap: "read_workflow lib (rq_workflow_snapshot_json r) = Inr (Some w)"
    using wfl rq_core_fields(7) [OF core] by simp
  have "row_ok lib s' born ?r'"
    unfolding row_ok_def id rq_core_fields [OF core'] snap
    using old approve_commit_vote [OF ok eff r(1) core] get_request_id [OF r(1)] snap r(2)
    by (auto simp: row_ok_def vi decided_row_def granted_def all_satisfied_votes)
  moreover have "row_ok lib s' born q" if "get_request s j = Some q" "j \<noteq> ?i" for j q
    using rows that vj [of j] get_request_id [OF that(1)] by (auto simp: rows_ok_def row_ok_def)
  ultimately have "rows_ok lib s' used born"
    using rows r(1) by (simp add: rows_ok_def get)
  moreover have "call_ok lib s' used c" if "call_ok lib s used c" for c
  proof (cases c)
    case (CallApprove env' input' user' ctx' request' w')
    have "rq_core q = rq_core request'" if "get_request s' (rq_id request') = Some q" for q
      using that \<open>call_ok lib s used c\<close> r(1) core' unfolding CallApprove get by (auto split: if_splits)
    with that show ?thesis by (simp add: CallApprove)
  qed (use that in simp_all)
  ultimately show ?thesis by blast
qed

subsection \<open>Creations\<close>

text \<open>A new row under an identifier that was never used, with its status as built or dispatched.\<close>

lemma create_commit:
  assumes rows: "rows_ok lib s used born" and ok: "store_ok s"
    and fresh: "rq_id q \<notin> used"
    and get: "\<And>j. get_request s' j = (if j = rq_id q then Some q else get_request s j)"
    and same: "st_approvals s' = st_approvals s"
    and born': "born' = (if rq_status q = Pending then {rq_id q} else {})"
  shows "rows_ok lib s' (used \<union> {rq_id q}) (born \<union> born')
    \<and> (\<forall>c. call_ok lib s used c \<longrightarrow> call_ok lib s' (used \<union> {rq_id q}) c)"
proof -
  have v: "votes s' j = votes s j" for j by (simp add: votes_def same)
  have none: "get_request s (rq_id q) = None"
    using rows fresh by (cases "get_request s (rq_id q)") (auto simp: rows_ok_def)
  have "votes s (rq_id q) = []"
  proof -
    have "rq_id q \<notin> rq_id ` set (st_requests s)"
      using none by (auto simp: get_request_def find_row_None)
    moreover have "ap_request_id ` set (st_approvals s) \<subseteq> rq_id ` set (st_requests s)"
      using ok by (simp add: store_ok_def refs_ok_def)
    ultimately have "rq_id q \<notin> ap_request_id ` set (st_approvals s)" by blast
    then show ?thesis unfolding votes_def filter_empty_conv by (metis imageI)
  qed
  then have "row_ok lib s' (born \<union> born') q"
    using rows fresh by (auto simp: row_ok_def v rows_ok_def born' granted_def split: if_splits)
  moreover have "row_ok lib s' (born \<union> born') r" if "get_request s j = Some r" "j \<noteq> rq_id q" for j r
    using rows that get_request_id [OF that(1)] by (auto simp: rows_ok_def row_ok_def v born' split: if_splits)
  ultimately have "rows_ok lib s' (used \<union> {rq_id q}) (born \<union> born')"
    using rows by (auto simp: rows_ok_def get born' split: if_splits)
  moreover have "call_ok lib s' (used \<union> {rq_id q}) c" if "call_ok lib s used c" for c
  proof (cases c)
    case (CallApprove env input user ctx request w)
    with that fresh show ?thesis by (auto simp: get)
  qed (use that in simp_all)
  ultimately show ?thesis by blast
qed

subsection \<open>Every step keeps the invariant\<close>

lemma commit_lawful:
  assumes ok: "store_ok s" and rows: "rows_ok lib s used born" and call: "call_ok lib s used c"
    and tx: "call_tx c s = Inr ((), s')" and fresh: "new_ids c \<inter> used = {}"
  shows "rows_ok lib s' (used \<union> new_ids c) (born \<union> new_born c)
    \<and> (\<forall>d. call_ok lib s used d \<longrightarrow> call_ok lib s' (used \<union> new_ids c) d)"
proof -
  consider "tame_call c" | env input user ctx request w where "c = CallApprove env input user ctx request w"
    | ports req ca where "c = CallCreatePending ports req ca"
    | ports req ca da ev where "c = CallCreateDispatched ports req ca da ev"
    by (cases c) auto
  then show ?thesis
  proof cases
    case 1
    have "tame s s'" using tame_txD [OF tame_call_tx [OF 1 call] ok tx] .
    moreover have "new_ids c = {}" "new_born c = {}"
      using 1 by (cases c; simp add: new_ids_def new_born_def)+
    ultimately show ?thesis using tame_rows [OF _ rows] tame_calls by auto
  next
    case 2
    with tx obtain x where "approve_tx env request w user ctx input s = Inr (x, s')" by (auto simp: discard_Inr)
    from approve_commit [OF ok rows call [unfolded 2] this] show ?thesis
      by (simp add: 2 new_ids_def new_born_def)
  next
    case 3
    with tx have "create_pending_tx ports req ca s = Inr ((), s')" by simp
    note row = create_pending_tx_row [OF this]
    from call fresh have "rq_status req = Pending" "rq_id req \<notin> used" by (simp_all add: 3 new_ids_def)
    with create_commit [OF rows ok _ row(1,3)] show ?thesis by (simp add: 3 new_ids_def new_born_def)
  next
    case 4
    from call fresh have st: "rq_status req \<in> {AutoApproved, BreakGlass}" and new: "rq_id req \<notin> used"
      by (simp_all add: 4 new_ids_def)
    from tx have "create_dispatched_tx ports req ca da ev s = Inr ((), s')" by (simp add: 4)
    note row = create_dispatched_tx_row [OF ok this st]
    have q: "rq_id (dispatched_row req) = rq_id req" "rq_status (dispatched_row req) = Dispatched"
      by (simp_all add: dispatched_row_def)
    have "new_ids c = {rq_id (dispatched_row req)}" "new_born c = {}"
      using st by (auto simp: 4 new_ids_def new_born_def q)
    with create_commit [OF rows ok, of "dispatched_row req" s' "{}"] row(1,3) new q show ?thesis by simp
  qed
qed

lemma starts_ok:
  assumes "starts lib s c" and "rows_ok lib s used born"
  shows "call_ok lib s used c"
  using assms
proof (cases rule: starts.cases)
  case (start_approve env input user request w ctx)
  from approve_checks_Inr [OF start_approve(3)] have "get_request s (rq_id request) = Some request"
    "read_workflow (ce_lib env) (rq_workflow_snapshot_json request) = Inr (Some w)" by simp_all
  with assms(2) start_approve(1,2) show ?thesis by (simp add: rows_ok_def)
next
  case (start_reject env input user ctx request a ev)
  then show ?thesis using reject_checks_Inr by simp
qed simp_all

lemma follows_ok: "follows c b d \<Longrightarrow> call_ok lib s used d"
  by (auto elim: follows_cases)

interpretation requests_of: transition_system sys_init "sys_step lib" "lawful lib" for lib
proof unfold_locales
  fix y assume "sys_init y"
  then show "lawful lib y"
    by (simp add: sys_init_def lawful_def rows_ok_def get_request_def find_row_def store_ok_def keys_ok_def refs_ok_def
        idempotency_unique_def approve_unique_def claim_unique_def)
next
  fix y z assume y: "lawful lib y" and "sys_step lib y z"
  from this(2) show "lawful lib z"
  proof cases
    case (step_start c)
    then show ?thesis using y starts_ok by (auto simp: lawful_def)
  next
    case (step_commit C c D s' next_calls)
    let ?s = "sy_store y" and ?used = "sy_used y"
    from y step_commit(2) have ok: "store_ok ?s" and rows: "rows_ok lib ?s ?used (sy_born y)"
      and call: "call_ok lib ?s ?used c" and others: "list_all (call_ok lib ?s ?used) (C @ D)"
      by (simp_all add: lawful_def)
    have "store_ok s'" using keeps_invD [OF call_tx_ok ok step_commit(3)] .
    moreover note commit_lawful [OF ok rows call step_commit(3,4)]
    moreover have "list_all (call_ok lib s' (?used \<union> new_ids c)) next_calls"
      using step_commit(5) follows_ok by (auto simp: list_all_iff)
    ultimately show ?thesis using others step_commit(1) by (auto simp: lawful_def list_all_iff)
  next
    case (step_fail C c D next_calls)
    then show ?thesis using y follows_ok by (auto simp: lawful_def list_all_iff)
  qed
qed

subsection \<open>A run\<close>

definition demo_created :: request where
  "demo_created = new_request demo_create_ports (demo_creation False) demo_author ExecuteDml None (Some demo_workflow)
     Pending (Some ''w'') ''t''"

definition demo_start :: system where
  "demo_start = \<lparr> sy_store = demo_empty, sy_calls = [], sy_used = {}, sy_born = {} \<rparr>"

lemma demo_built: "creation_built demo_create_ports (demo_creation False) demo_author demo_created"
proof -
  have "create_authorize (demo_creation False) demo_author ExecuteDml None = Inr ()"
    by (simp add: create_authorize_def require_def required_permission_def demo_creation_def demo_author_def
        authorize_scoped_def check_context_def self_read_def has_scoped_permission_def role_allows_def
        role_has_permission_def covers_database_def covers_environment_def db_wildcard_def env_wildcard_def)
  moreover have "create_preconditions demo_create_ports (demo_creation False) ExecuteDml = Inr ()"
    by (simp add: create_preconditions_def demo_creation_def demo_create_ports_def)
  moreover have "decide demo_create_ports (demo_creation False) ExecuteDml (Some demo_workflow) asmt
      = Inr (Some demo_workflow, NeedsApproval)" for asmt
    by (simp add: decide_def evaluate_workflow_def demo_workflow_def)
  moreover have "pt_workflow_text demo_create_ports demo_workflow = Inr ''w''" by (simp add: demo_create_ports_def)
  moreover have "initial_status (needs_approval NeedsApproval) (ni_emergency (demo_creation False)) = Pending"
    by (simp add: initial_status_def needs_approval_def demo_creation_def)
  ultimately show ?thesis unfolding creation_built_def demo_created_def by fastforce
qed

lemma show_zero: "show_nat 0 = ''0''"
  by code_simp

lemma demo_created_fields [simp]:
  "rq_id demo_created = ''0''" "rq_status demo_created = Pending" "rq_requester demo_created = ''ann''"
  "rq_workflow_snapshot_json demo_created = Some ''w''"
  by (simp_all add: demo_created_def new_request_def demo_create_ports_def demo_author_def Let_def show_zero)

lemma pt_lib_demo: "pt_lib demo_create_ports = demo_lib"
  by (simp add: demo_create_ports_def)

text \<open>A call that runs alone, from its checks to its commit.\<close>

lemma reach_call:
  assumes "reach sys_init (sys_step lib) y" and "sy_calls y = []" and "starts lib (sy_store y) c"
    and "call_tx c (sy_store y) = Inr ((), s')" and "new_ids c \<inter> sy_used y = {}"
  obtains z where "reach sys_init (sys_step lib) z" and "sy_store z = s'" and "sy_calls z = []"
    and "sy_used z = sy_used y \<union> new_ids c" and "sy_born z = sy_born y \<union> new_born c"
proof -
  define y1 where "y1 = y\<lparr> sy_calls := sy_calls y @ [c] \<rparr>"
  have y1: "sy_calls y1 = [] @ c # []" "sy_store y1 = sy_store y" "sy_used y1 = sy_used y" "sy_born y1 = sy_born y"
    using assms(2) by (simp_all add: y1_def)
  have "reach sys_init (sys_step lib) y1"
    unfolding y1_def using assms(1) step_start [OF assms(3)] by (rule reach_step)
  moreover have "sys_step lib y1 \<lparr> sy_store = s', sy_calls = [] @ [] @ [], sy_used = sy_used y1 \<union> new_ids c,
      sy_born = sy_born y1 \<union> new_born c \<rparr>" (is "sys_step lib y1 ?z")
    by (rule step_commit [OF y1(1)]) (use assms(4,5) y1 in simp_all)
  ultimately have "reach sys_init (sys_step lib) ?z" by (rule reach_step)
  then show thesis by (rule that) (simp_all add: y1)
qed

lemma demo_pending_reached:
  obtains y u where "reach sys_init (sys_step demo_lib) y" and "sy_calls y = []"
    and "sy_used y = {''0''}" and "sy_born y = {''0''}" and "st_requests (sy_store y) = [demo_created]"
    and "st_approvals (sy_store y) = []" and "st_audit (sy_store y) = [u]" and "ar_id u = ''e0''"
proof -
  let ?ca = "audit_of demo_lib (creation_event demo_created demo_author CtxSystem) (rq_created_at demo_created)"
  let ?c = "CallCreatePending demo_create_ports demo_created ?ca"
  have starts: "starts demo_lib (sy_store demo_start) ?c"
    unfolding demo_start_def system.simps
    by (rule start_create_pending [OF _ demo_built]) (simp_all add: demo_create_ports_def)
  obtain p where ins: "insert_request demo_lib demo_created demo_empty
      = Inr ((), demo_empty\<lparr> st_requests := [demo_created], st_pending := p \<rparr>)"
    by (simp add: insert_request_def map_request_insert_error_def insert_request_row_def populate_pending_approvers_def
        rq_database_id_def database_id_def demo_create_defs demo_created_def new_request_def Let_def)
  let ?u = "audit_row_of demo_lib [] ''e0'' ?ca"
  have "record_event demo_lib (pt_audit demo_create_ports 0) ?ca (demo_empty\<lparr> st_requests := [demo_created], st_pending := p \<rparr>)
      = Inr ((), demo_empty\<lparr> st_requests := [demo_created], st_pending := p, st_audit := [?u] \<rparr>)"
    by (simp add: record_event_def record_audit_def insert_audit_event_def demo_create_ports_def demo_empty_def demo_store_def
        show_zero)
  then have tx: "call_tx ?c (sy_store demo_start)
      = Inr ((), demo_empty\<lparr> st_requests := [demo_created], st_pending := p, st_audit := [?u] \<rparr>)"
    using ins by (simp add: create_pending_tx_def thenT_def pt_lib_demo demo_start_def)
  have start: "reach sys_init (sys_step demo_lib) demo_start" "sy_calls demo_start = []"
    "new_ids ?c \<inter> sy_used demo_start = {}"
    by (auto simp: demo_start_def sys_init_def demo_empty_def demo_store_def intro!: reach_init)
  obtain z where z: "reach sys_init (sys_step demo_lib) z"
    and s: "sy_store z = demo_empty\<lparr> st_requests := [demo_created], st_pending := p, st_audit := [?u] \<rparr>"
    and calls: "sy_calls z = []" and ids: "sy_used z = sy_used demo_start \<union> new_ids ?c"
    "sy_born z = sy_born demo_start \<union> new_born ?c"
    by (rule reach_call [OF start(1,2) starts tx start(3)])
  show thesis
    by (rule that [OF z calls, of ?u])
      (simp_all add: ids s demo_start_def new_ids_def new_born_def demo_empty_def demo_store_def)
qed

definition demo_ballot :: approve_input where
  "demo_ballot = demo_vote\<lparr> ai_request_id := ''0'' \<rparr>"

lemma demo_approved_reached:
  obtains y r where "reach sys_init (sys_step demo_lib) y" and "''0'' \<in> sy_born y"
    and "get_request (sy_store y) ''0'' = Some r" and "rq_status r = Approved"
    and "rq_workflow_snapshot_json r = Some ''w''"
proof -
  obtain y u where y: "reach sys_init (sys_step demo_lib) y" "sy_calls y = []" "sy_used y = {''0''}" "sy_born y = {''0''}"
    and st: "st_requests (sy_store y) = [demo_created]" "st_approvals (sy_store y) = []" "st_audit (sy_store y) = [u]"
    and u: "ar_id u = ''e0''"
    by (rule demo_pending_reached)
  let ?s = "sy_store y"
  let ?c = "CallApprove demo_env demo_ballot dba_user CtxSystem demo_created demo_workflow"
  have ok: "store_ok ?s" using requests_of.reach_inv [OF y(1)] by (simp add: lawful_def)
  have expiry: "\<not> expired_at 1 (rq_expires_at demo_created)"
    by (simp add: demo_created_def new_request_def pending_expiry_def demo_create_ports_def demo_workflow_def expired_at_def
        seconds_def Let_def)
  have votes0: "approvals_of ?s ''0'' = []" and get: "get_request ?s ''0'' = Some demo_created"
    by (simp_all add: approvals_of_def st get_request_def find_row_def)
  note demo = demo_workflow_def demo_env_def demo_ballot_def demo_vote_def dba_user_def one_step_def find_current_step_def
    is_step_satisfied_def group_count_def step_approvals_of_def as_u32_def already_approved_def previous_approver_ids_def Let_def
  note choice = choose_selector_def matched_selectors_by_attrs_def role_names_def selector_count_def selector_required_def
  have chk: "approve_checks demo_env demo_ballot dba_user ?s = Inr (demo_created, demo_workflow)"
    using expiry votes0 get
    by (simp add: approve_checks_def too_long_def read_workflow_def demo_lib_def authorize_approval_def is_approvable_by_def
        is_approvable_by_attrs_inner_def demo)
  have "\<exists>out s' hook. approve_request demo_env demo_ballot dba_user CtxSystem ?s = (Inr out, s', [hook])"
    by (rule vote_succeeds [OF ok chk, where sel = "''role:dba''"])
      (simp_all add: votes0 expiry demo choice audit_ids_fresh_def u st)
  then obtain new sel fin n ev s'
    where tx: "approve_tx demo_env demo_created demo_workflow dba_user CtxSystem demo_ballot ?s = Inr ((new, sel, fin, n, ev), s')"
    using chk approve_request_Inr by (metis Inr_inject prod.inject)
  have eff: "approval_effect demo_env demo_created demo_workflow dba_user demo_ballot sel ev ?s s'"
    using approve_tx_Inr [OF tx] by blast
  have sel: "sel = ''role:dba''"
    using eff by (simp add: approval_effect_def votes0 demo choice)
  let ?a = "approval_row demo_env demo_created dba_user demo_ballot sel
      (find_current_step (wf_steps demo_workflow) (approvals_of ?s (rq_id demo_created)))"
  let ?fin = "all_steps_satisfied (wf_steps demo_workflow) (approvals_of s' (rq_id demo_created))"
  obtain r rest where "get_request ?s (rq_id demo_created) = Some r" and app: "st_approvals s' = st_approvals ?s @ [?a]"
    and "get_request s' (rq_id demo_created) = Some (decided_row ?fin (ce_tx_now demo_env) r)"
    using approval_effect_store [OF ok eff] by metis
  then have row: "get_request s' ''0'' = Some (decided_row ?fin 1 demo_created)" by (simp add: get demo_env_def)
  have vote: "votes s' ''0'' = [?a]" by (simp add: votes_def app st(2) approval_row_def)
  have fin: "?fin" unfolding all_satisfied_votes demo_created_fields(1) vote
    by (simp add: all_steps_satisfied_nth approval_row_def sel votes0 demo)
  have starts: "starts demo_lib ?s ?c"
    by (rule start_approve [OF _ chk]) (simp add: demo_env_def)
  have call: "call_tx ?c ?s = Inr ((), s')" "new_ids ?c \<inter> sy_used y = {}"
    using tx by (auto simp: discard_Inr new_ids_def)
  obtain z where z: "reach sys_init (sys_step demo_lib) z" and "sy_store z = s'" and "sy_calls z = []"
    and "sy_used z = sy_used y \<union> new_ids ?c" and "sy_born z = sy_born y \<union> new_born ?c"
    by (rule reach_call [OF y(1,2) starts call])
  then show thesis using that [OF z] row fin y(4) by (simp add: decided_row_def)
qed

subsection \<open>Properties\<close>

text \<open>C1: Whatever the calls of the clients and the background tasks do, and however they are interleaved,
  a request that was stored as pending is approved, dispatched, running, executed, failed or lost
  only if the votes stored for it satisfy every step of the workflow it was created with.\<close>

theorem executed_only_if_approved:
  assumes "reach sys_init (sys_step lib) y" and "i \<in> sy_born y"
    and "get_request (sy_store y) i = Some r" and "rq_status r \<in> granted"
  shows "\<exists>w. read_workflow lib (rq_workflow_snapshot_json r) = Inr (Some w)
     \<and> all_steps_satisfied (wf_steps w) (approvals_of (sy_store y) i)"
  using requests_of.reach_inv [OF assms(1)] assms(2-4) get_request_id [OF assms(3)]
  by (auto simp: lawful_def rows_ok_def row_ok_def all_satisfied_votes)

theorem executed_only_if_approved_witness:
  "\<exists>y r w. reach sys_init (sys_step demo_lib) y \<and> ''0'' \<in> sy_born y \<and> get_request (sy_store y) ''0'' = Some r
     \<and> rq_status r \<in> granted \<and> read_workflow demo_lib (rq_workflow_snapshot_json r) = Inr (Some w)
     \<and> all_steps_satisfied (wf_steps w) (approvals_of (sy_store y) ''0'')"
proof -
  obtain y r where h: "reach sys_init (sys_step demo_lib) y" "''0'' \<in> sy_born y"
    "get_request (sy_store y) ''0'' = Some r" and st: "rq_status r = Approved"
    by (rule demo_approved_reached)
  have g: "rq_status r \<in> granted" by (simp add: st granted_def)
  from h g executed_only_if_approved [OF h g] show ?thesis by blast
qed

text \<open>C4: In every reachable state the stored votes of a request obey its workflow: each was cast for a
  step of it, under a selector of that step, and not by the requester unless self-approval is
  allowed; nobody voted twice on a step, and nobody at two steps unless the workflow allows it,
  so that without this permission all votes come from different people.\<close>

theorem four_eyes:
  assumes "reach sys_init (sys_step lib) y" and "get_request (sy_store y) i = Some r"
    and "read_workflow lib (rq_workflow_snapshot_json r) = Inr (Some w)" and "length (wf_steps w) < 2 ^ 32"
  shows "(\<forall>a \<in> set (votes (sy_store y) i).
        unat (ap_step_index a) < length (wf_steps w)
        \<and> ap_matched_selector a \<in> step_selectors w (ap_step_index a)
        \<and> (wf_allow_self_approve w \<or> ap_actor_id a \<noteq> rq_requester r))
     \<and> distinct (map (\<lambda>a. (ap_actor_id a, ap_step_index a)) (votes (sy_store y) i))
     \<and> (\<not> wf_allow_same_approver_across_steps w \<longrightarrow> distinct (map ap_actor_id (votes (sy_store y) i)))"
proof -
  let ?vs = "votes (sy_store y) i"
  have "lawful lib y" using requests_of.reach_inv [OF assms(1)] .
  then have ok: "store_ok (sy_store y)" and lv: "lawful_votes w (rq_requester r) ?vs"
    using assms(2-4) get_request_id [OF assms(2)] by (auto simp: lawful_def rows_ok_def row_ok_def)
  have one: "distinct (map (\<lambda>a. (ap_actor_id a, ap_step_index a)) ?vs)"
    using ok votes_distinct by (simp add: store_ok_def)
  have "distinct (map ap_actor_id ?vs)" if "\<not> wf_allow_same_approver_across_steps w"
  proof -
    have same: "ap_step_index a = ap_step_index b"
      if "a \<in> set ?vs" "b \<in> set ?vs" "ap_actor_id a = ap_actor_id b" for a b
      using lv that \<open>\<not> wf_allow_same_approver_across_steps w\<close> unfolding lawful_votes_def by blast
    have "inj_on ap_actor_id (set ?vs)"
    proof (rule inj_onI)
      fix a b assume ab: "a \<in> set ?vs" "b \<in> set ?vs" "ap_actor_id a = ap_actor_id b"
      from one have "inj_on (\<lambda>a. (ap_actor_id a, ap_step_index a)) (set ?vs)" by (simp add: distinct_map)
      then show "a = b" by (rule inj_onD) (use ab same [OF ab] in simp_all)
    qed
    with one show ?thesis by (simp add: distinct_map)
  qed
  moreover have "unat (ap_step_index a) < length (wf_steps w)" if "a \<in> set ?vs" for a
    using lv that assms(4) by (auto simp: lawful_votes_def lawful_vote_def word_less_nat_alt unat_as_u32_id)
  moreover have "ap_matched_selector a \<in> step_selectors w (ap_step_index a)
      \<and> (wf_allow_self_approve w \<or> ap_actor_id a \<noteq> rq_requester r)" if "a \<in> set ?vs" for a
    using lv that by (simp add: lawful_votes_def lawful_vote_def)
  ultimately show ?thesis using one by blast
qed

theorem four_eyes_witness:
  "\<exists>y r. reach sys_init (sys_step demo_lib) y \<and> get_request (sy_store y) ''0'' = Some r
     \<and> read_workflow demo_lib (rq_workflow_snapshot_json r) = Inr (Some demo_workflow)
     \<and> length (wf_steps demo_workflow) < 2 ^ 32
     \<and> (\<forall>a \<in> set (votes (sy_store y) ''0''). unat (ap_step_index a) < length (wf_steps demo_workflow)
          \<and> ap_matched_selector a \<in> step_selectors demo_workflow (ap_step_index a)
          \<and> (wf_allow_self_approve demo_workflow \<or> ap_actor_id a \<noteq> rq_requester r))
     \<and> distinct (map (\<lambda>a. (ap_actor_id a, ap_step_index a)) (votes (sy_store y) ''0''))
     \<and> (\<not> wf_allow_same_approver_across_steps demo_workflow \<longrightarrow> distinct (map ap_actor_id (votes (sy_store y) ''0'')))"
proof -
  obtain y r where h: "reach sys_init (sys_step demo_lib) y" and b: "''0'' \<in> sy_born y"
    and r: "get_request (sy_store y) ''0'' = Some r" and st: "rq_status r = Approved"
    and snap: "rq_workflow_snapshot_json r = Some ''w''"
    by (rule demo_approved_reached)
  have w: "read_workflow demo_lib (rq_workflow_snapshot_json r) = Inr (Some demo_workflow)"
    "length (wf_steps demo_workflow) < 2 ^ 32"
    by (simp_all add: snap read_workflow_def demo_lib_def demo_workflow_def one_step_def)
  from four_eyes [OF h r w] h r w show ?thesis by blast
qed

text \<open>Every reachable store is well typed: the primary keys are unique, every foreign key points to a
  row, no requester has two requests under one idempotency key, nobody has two approvals of one
  step, and no request has two claimed executions at a time.\<close>

lemma reachable_store_ok:
  assumes "reach sys_init (sys_step lib) y"
  shows "store_ok (sy_store y)"
  using requests_of.reach_inv [OF assms] by (simp add: lawful_def)


end
