(* ===== verification/Directory.thy ===== *)
theory Directory
  imports UC_Execution
begin

text \<open>
  Users, groups and tokens: the tables and statements of \<open>crates/dbward-infra/src/sqlite\<close>
  (\<open>user_repo.rs\<close>, \<open>group_repo.rs\<close>, \<open>token_repo.rs\<close> and the user and token writers of
  \<open>unit_of_work.rs\<close>) that sign-in and the administration of users use. Columns with JSON text are the values
  the text stands for; counts are natural numbers, since reading a count that does not fit \<open>u32\<close> fails in the
  database library. The memory of the server that belongs to sign-in is part of the state.
\<close>

subsection \<open>Tables\<close>

datatype user_status = UsActive | UsSuspended

text \<open>\<open>us_deleted\<close> stands for the lifecycle state \<open>deleted\<close>.\<close>

record user_row =
  us_id :: string
  us_display_name :: "string option"
  us_email :: "string option"
  us_roles :: "string list"
  us_status :: user_status
  us_source :: string
  us_slack_user_id :: "string option"
  us_deleted :: bool
  us_last_seen_at :: "timestamp option"
  us_created_at :: timestamp
  us_updated_at :: timestamp

record token =
  tk_id :: string
  tk_subject_type :: subject_type
  tk_subject_id :: string
  tk_hash :: string
  tk_prefix :: string
  tk_scope_ceiling :: "string list option"
  tk_name :: "string option"
  tk_status :: token_status
  tk_provisioning_kind :: "provisioning_kind option"
  tk_expires_at :: "timestamp option"
  tk_created_at :: timestamp
  tk_revoked_at :: "timestamp option"

record onboarding_row =
  on_id :: string
  on_pending :: bool
  on_decided_by :: "string option"
  on_decided_at :: "timestamp option"
  on_approved_roles :: "string list option"
  on_approved_groups :: "string list option"
  on_comment :: "string option"

record role_definition =
  rd_name :: string
  rd_permissions :: "(permission \<times> ownership_scope) list"
  rd_databases :: "database_name list"
  rd_environments :: "environment list"

text \<open>\<open>si_roles\<close> are the active rows of the table of roles. In memory: \<open>si_cache\<close>, the cache of the role resolver
  (the names of the resolved roles and when they were read), and \<open>si_logins\<close>, the times of the recorded
  logins.\<close>

record site =
  si_store :: store
  si_users :: "user_row list"
  si_tokens :: "token list"
  si_groups :: "string list"
  si_members :: "(string \<times> string) list"
  si_onboarding :: "onboarding_row list"
  si_roles :: "role_definition list"
  si_cache :: "string \<rightharpoonup> string list \<times> timestamp"
  si_logins :: "(string \<times> timestamp) list"

type_synonym 'a stx = "(site, 'a) txn"

definition in_store :: "'a tx \<Rightarrow> 'a stx" where
  "in_store m = (\<lambda>z. tryE (m (si_store z)) (\<lambda>(x, s). Inr (x, z\<lparr> si_store := s \<rparr>)))"

definition queryT :: "(site \<Rightarrow> 'a) \<Rightarrow> 'a stx" where
  "queryT f = (\<lambda>z. Inr (f z, z))"

definition writeT :: "(site \<Rightarrow> site) \<Rightarrow> unit stx" where
  "writeT f = (\<lambda>z. Inr ((), f z))"

subsection \<open>Users\<close>

definition get_user :: "site \<Rightarrow> string \<Rightarrow> user_row option" where
  "get_user z i = find_row (\<lambda>u. us_id u = i) (si_users z)"

definition is_suspended :: "site \<Rightarrow> string \<Rightarrow> bool" where
  "is_suspended z i = (case get_user z i of Some u \<Rightarrow> us_status u \<noteq> UsActive | None \<Rightarrow> False)"

definition is_deleted :: "site \<Rightarrow> string \<Rightarrow> bool" where
  "is_deleted z i = (case get_user z i of Some u \<Rightarrow> us_deleted u | None \<Rightarrow> False)"

definition count_active :: "site \<Rightarrow> nat" where
  "count_active z = length (filter (\<lambda>u. \<not> us_deleted u) (si_users z))"

definition update_user :: "string \<Rightarrow> (user_row \<Rightarrow> bool) \<Rightarrow> (user_row \<Rightarrow> user_row) \<Rightarrow> site \<Rightarrow> site" where
  "update_user i P f z = z\<lparr> si_users := upd_where (\<lambda>u. us_id u = i \<and> P u) f (si_users z) \<rparr>"

definition suspend_user :: "string \<Rightarrow> timestamp \<Rightarrow> unit stx" where
  "suspend_user i now =
     writeT (update_user i (\<lambda>u. us_status u = UsActive \<and> \<not> us_deleted u)
       (\<lambda>u. u\<lparr> us_status := UsSuspended, us_updated_at := now \<rparr>))"

definition activate_user :: "string \<Rightarrow> timestamp \<Rightarrow> unit stx" where
  "activate_user i now =
     writeT (update_user i (\<lambda>u. us_status u = UsSuspended \<and> \<not> us_deleted u)
       (\<lambda>u. u\<lparr> us_status := UsActive, us_updated_at := now \<rparr>))"

text \<open>The two upserts keep status, lifecycle state, source and creation time of an existing row. That of the
  unit of work writes \<open>api\<close> as the source of a new one and no \<open>last_seen_at\<close>; that of the repository leaves
  the source at its default, which is \<open>api\<close> too.\<close>

definition upsert_user_tx :: "user_row \<Rightarrow> unit stx" where
  "upsert_user_tx user = writeT (\<lambda>z.
     case get_user z (us_id user) of
       None \<Rightarrow> z\<lparr> si_users := si_users z @ [user\<lparr> us_source := ''api'', us_slack_user_id := None, us_deleted := False,
                   us_last_seen_at := None \<rparr>] \<rparr>
     | Some _ \<Rightarrow> update_user (us_id user) (\<lambda>_. True)
         (\<lambda>u. u\<lparr> us_display_name := us_display_name user, us_email := us_email user, us_roles := us_roles user,
                us_updated_at := us_updated_at user \<rparr>) z)"

definition user_upsert :: "user_row \<Rightarrow> site \<Rightarrow> site" where
  "user_upsert user z =
     (case get_user z (us_id user) of
        None \<Rightarrow> z\<lparr> si_users := si_users z @ [user\<lparr> us_source := ''api'', us_slack_user_id := None, us_deleted := False \<rparr>] \<rparr>
      | Some _ \<Rightarrow> update_user (us_id user) (\<lambda>_. True)
          (\<lambda>u. u\<lparr> us_display_name := us_display_name user, us_email := us_email user, us_roles := us_roles user,
                 us_last_seen_at := us_last_seen_at user, us_updated_at := us_updated_at user \<rparr>) z)"

definition ensure_exists :: "string \<Rightarrow> timestamp \<Rightarrow> site \<Rightarrow> site" where
  "ensure_exists i now z =
     (case get_user z i of
        Some _ \<Rightarrow> z
      | None \<Rightarrow> z\<lparr> si_users := si_users z @ [\<lparr> us_id = i, us_display_name = None, us_email = None, us_roles = [],
                   us_status = UsActive, us_source = ''api'', us_slack_user_id = None, us_deleted = False,
                   us_last_seen_at = None, us_created_at = now, us_updated_at = now \<rparr>] \<rparr>)"

definition set_roles_tx :: "string \<Rightarrow> string list \<Rightarrow> timestamp \<Rightarrow> unit stx" where
  "set_roles_tx i roles wall =
     writeT (update_user i (\<lambda>_. True) (\<lambda>u. u\<lparr> us_roles := roles, us_updated_at := wall \<rparr>))"

definition soft_delete_tx :: "string \<Rightarrow> timestamp \<Rightarrow> unit stx" where
  "soft_delete_tx i now =
     writeT (update_user i (\<lambda>_. True) (\<lambda>u. u\<lparr> us_deleted := True, us_status := UsSuspended, us_updated_at := now \<rparr>))"

definition user_exists_tx :: "string \<Rightarrow> bool stx" where
  "user_exists_tx i = queryT (\<lambda>z. get_user z i \<noteq> None)"

definition count_active_tx :: "nat stx" where
  "count_active_tx = queryT count_active"

definition set_slack_user_id_tx :: "string \<Rightarrow> string \<Rightarrow> string \<Rightarrow> unit stx" where
  "set_slack_user_id_tx i slack_id source = (\<lambda>z.
     if list_ex (\<lambda>u. us_id u = i) (si_users z) \<and> list_ex (\<lambda>u. us_id u \<noteq> i \<and> us_slack_user_id u = Some slack_id) (si_users z)
     then Inl (Internal ''tx: set_slack_user_id: UNIQUE constraint failed: users.slack_user_id'')
     else Inr ((), update_user i (\<lambda>_. True) (\<lambda>u. u\<lparr> us_slack_user_id := Some slack_id, us_source := source \<rparr>) z))"

subsection \<open>Groups\<close>

definition group_exists :: "site \<Rightarrow> string \<Rightarrow> bool" where
  "group_exists z g \<longleftrightarrow> g \<in> set (si_groups z)"

definition groups_of :: "site \<Rightarrow> string \<Rightarrow> string list" where
  "groups_of z i = map fst (filter (\<lambda>(g, u). u = i) (si_members z))"

definition add_group_member_tx :: "string \<Rightarrow> string \<Rightarrow> unit stx" where
  "add_group_member_tx g i = (\<lambda>z.
     if (g, i) \<in> set (si_members z) then Inr ((), z)
     else if \<not> group_exists z g then Inl (Internal ''tx: add_group_member: FOREIGN KEY constraint failed'')
     else Inr ((), z\<lparr> si_members := si_members z @ [(g, i)] \<rparr>))"

definition remove_member_tx :: "string \<Rightarrow> string \<Rightarrow> unit stx" where
  "remove_member_tx g i = writeT (\<lambda>z. z\<lparr> si_members := filter (\<lambda>m. m \<noteq> (g, i)) (si_members z) \<rparr>)"

definition remove_all_memberships_tx :: "string \<Rightarrow> unit stx" where
  "remove_all_memberships_tx i = writeT (\<lambda>z. z\<lparr> si_members := filter (\<lambda>(g, u). u \<noteq> i) (si_members z) \<rparr>)"

definition user_in_group_tx :: "string \<Rightarrow> string \<Rightarrow> bool stx" where
  "user_in_group_tx i g = queryT (\<lambda>z. (g, i) \<in> set (si_members z))"

subsection \<open>Administrators\<close>

definition live_user :: "user_row \<Rightarrow> bool" where
  "live_user u \<longleftrightarrow> \<not> us_deleted u \<and> us_status u = UsActive"

definition admin_row :: "string list \<Rightarrow> site \<Rightarrow> user_row \<Rightarrow> bool" where
  "admin_row admin_groups z u \<longleftrightarrow>
     ''admin'' \<in> set (us_roles u) \<or> list_ex (\<lambda>(g, i). i = us_id u \<and> g \<in> set admin_groups) (si_members z)"

text \<open>The query without groups is the special case of the union.\<close>

definition count_admins :: "string list \<Rightarrow> site \<Rightarrow> nat" where
  "count_admins admin_groups z =
     length (remdups (map us_id (filter (\<lambda>u. live_user u \<and> admin_row admin_groups z u) (si_users z))))"

definition count_admins_tx :: "string list \<Rightarrow> nat stx" where
  "count_admins_tx admin_groups = queryT (count_admins admin_groups)"

definition user_has_admin_tx :: "string \<Rightarrow> string list \<Rightarrow> bool stx" where
  "user_has_admin_tx i admin_groups = queryT (\<lambda>z.
     list_ex (\<lambda>u. us_id u = i \<and> ''admin'' \<in> set (us_roles u)) (si_users z)
     \<or> list_ex (\<lambda>(g, u). u = i \<and> g \<in> set admin_groups) (si_members z))"

subsection \<open>Tokens\<close>

text \<open>The two ways to insert a token differ in that the second writes the status itself.\<close>

definition create_token :: "token \<Rightarrow> unit stx" where
  "create_token t = (\<lambda>z.
     map_err (\<lambda>e. Internal (''tx: create_token: '' @ e))
       (if list_ex (\<lambda>u. tk_id u = tk_id t) (si_tokens z) then Inl ''UNIQUE constraint failed: tokens.id''
        else if tk_status t = TokActive \<and> tk_provisioning_kind t = Some Initial
          \<and> list_ex (\<lambda>u. tk_status u = TokActive \<and> tk_provisioning_kind u = Some Initial
               \<and> tk_subject_type u = tk_subject_type t \<and> tk_subject_id u = tk_subject_id t) (si_tokens z)
        then Inl ''UNIQUE constraint failed: tokens.subject_type, tokens.subject_id''
        else Inr ((), z\<lparr> si_tokens := si_tokens z @ [t] \<rparr>)))"

definition create_token_tx :: "token \<Rightarrow> unit stx" where
  "create_token_tx t = create_token (t\<lparr> tk_status := TokActive, tk_revoked_at := None \<rparr>)"

definition revoke_row :: "timestamp \<Rightarrow> token \<Rightarrow> token" where
  "revoke_row now t = t\<lparr> tk_status := TokRevoked, tk_revoked_at := Some now \<rparr>"

definition revoke_token :: "string \<Rightarrow> timestamp \<Rightarrow> bool stx" where
  "revoke_token i now = (\<lambda>z.
     let P = (\<lambda>t. tk_id t = i \<and> tk_status t = TokActive) in
     Inr (0 < affected P (si_tokens z), z\<lparr> si_tokens := upd_where P (revoke_row now) (si_tokens z) \<rparr>))"

definition revoke_all_for_user :: "string \<Rightarrow> timestamp \<Rightarrow> u32 stx" where
  "revoke_all_for_user i now = (\<lambda>z.
     let P = (\<lambda>t. tk_subject_id t = i \<and> tk_status t = TokActive) in
     Inr (as_u32 (affected P (si_tokens z)), z\<lparr> si_tokens := upd_where P (revoke_row now) (si_tokens z) \<rparr>))"

definition token_verify :: "string \<Rightarrow> string \<Rightarrow> site \<Rightarrow> token option" where
  "token_verify pre hash z =
     find_row (\<lambda>t. tk_hash t = hash) (filter (\<lambda>t. tk_prefix t = pre \<and> tk_status t = TokActive) (si_tokens z))"

definition get_token :: "site \<Rightarrow> string \<Rightarrow> token option" where
  "get_token z i = find_row (\<lambda>t. tk_id t = i) (si_tokens z)"

definition find_active_initial :: "site \<Rightarrow> string \<Rightarrow> token option" where
  "find_active_initial z i =
     find_row (\<lambda>t. tk_subject_id t = i \<and> tk_status t = TokActive \<and> tk_provisioning_kind t = Some Initial) (si_tokens z)"

definition count_active_for_subject :: "site \<Rightarrow> string \<Rightarrow> subject_type \<Rightarrow> nat" where
  "count_active_for_subject z i ty =
     length (filter (\<lambda>t. tk_subject_id t = i \<and> tk_subject_type t = ty \<and> tk_status t = TokActive) (si_tokens z))"

text \<open>Exact for ASCII tokens, which is what the generator produces and the verification accepts.\<close>

definition extract_prefix :: "string \<Rightarrow> string" where
  "extract_prefix raw = (if length raw \<ge> 12 then take 8 (drop 4 raw) else take 8 raw)"

subsection \<open>Onboarding\<close>

definition claim_onboarding_approved_tx ::
  "string \<Rightarrow> string \<Rightarrow> timestamp \<Rightarrow> string list \<Rightarrow> string list \<Rightarrow> string option \<Rightarrow> bool stx" where
  "claim_onboarding_approved_tx i by at roles groups comment = (\<lambda>z.
     let P = (\<lambda>r. on_id r = i \<and> on_pending r) in
     Inr (0 < affected P (si_onboarding z),
          z\<lparr> si_onboarding := upd_where P
               (\<lambda>r. r\<lparr> on_pending := False, on_decided_by := Some by, on_decided_at := Some at,
                      on_approved_roles := Some roles, on_approved_groups := Some groups, on_comment := comment \<rparr>)
               (si_onboarding z) \<rparr>))"

end
