(* ===== verification/Authentication.thy ===== *)
theory Authentication
  imports Directory
begin

text \<open>
  Sign-in: the role resolver of \<open>crates/dbward-infra/src/auth/db_role_resolver.rs\<close> with its cache, the
  verification of API tokens in \<open>auth/api_token.rs\<close> and the middleware of
  \<open>crates/dbward-server/src/middleware/auth.rs\<close> that turns the authorization header of a request into the
  principal the use cases work with. Hash sets and hash maps are lists in insertion order. The verification of
  OpenID tokens, SHA-256 and the answers of a failing database are parameters.
\<close>

subsection \<open>Steps that may fail and keep what they changed\<close>

type_synonym ('e, 'a) io = "site \<Rightarrow> ('e + 'a) \<times> site"

definition thenM :: "('e, 'a) io \<Rightarrow> ('a \<Rightarrow> ('e, 'b) io) \<Rightarrow> ('e, 'b) io" where
  "thenM m k = (\<lambda>z. case m z of (Inl e, z') \<Rightarrow> (Inl e, z') | (Inr x, z') \<Rightarrow> k x z')"

definition liftM :: "'e + 'a \<Rightarrow> ('e, 'a) io" where
  "liftM r = (\<lambda>z. (r, z))"

definition putM :: "(site \<Rightarrow> site) \<Rightarrow> ('e, unit) io" where
  "putM f = (\<lambda>z. (Inr (), f z))"

named_theorems io_simps \<open>inversion of steps\<close>

lemma thenM_Inr [io_simps]: "thenM m k z = (Inr y, z') \<longleftrightarrow> (\<exists>x z1. m z = (Inr x, z1) \<and> k x z1 = (Inr y, z'))"
  by (auto simp: thenM_def split: prod.splits sum.splits)

lemma liftM_Inr [io_simps]: "liftM r z = (Inr y, z') \<longleftrightarrow> r = Inr y \<and> z' = z"
  by (auto simp: liftM_def)

lemma putM_Inr [io_simps]: "putM f z = (Inr y, z') \<longleftrightarrow> z' = f z"
  by (auto simp: putM_def)

lemma io_eval:
  "m z = (Inr x, z1) \<Longrightarrow> thenM m k z = k x z1"
  "m z = (Inl e, z1) \<Longrightarrow> thenM m k z = (Inl e, z1)"
  "liftM r z = (r, z)"
  "putM f z = (Inr (), f z)"
  by (simp_all add: thenM_def liftM_def putM_def)

subsection \<open>Roles\<close>

definition every_perm :: "(permission \<times> ownership_scope) list \<Rightarrow> string \<Rightarrow> resolved_role" where
  "every_perm perms name =
     \<lparr> rr_name = name, rr_permissions = map_of perms, rr_databases = [db_wildcard], rr_environments = [env_wildcard] \<rparr>"

definition builtin_roles :: "(string \<times> resolved_role) list" where
  "builtin_roles =
     [(''requester'', every_perm [(RequestDml, Own), (RequestDdl, Own), (RequestQuery, Own), (RequestView, Own),
         (RequestCancel, Own), (RequestResume, Own), (RequestPreflight, Own), (RequestPreflightExplain, Own),
         (ResultView, Own), (SchemaRead, Own), (WorkflowRead, Own), (TokenCreate, Own), (TokenRevoke, Own)] ''requester''),
      (''approver'', every_perm [(RequestView, Own), (ResultView, Own), (SchemaRead, Own), (WorkflowRead, Own),
         (TokenCreate, Own), (TokenRevoke, Own)] ''approver''),
      (''operator'', every_perm [(RequestQuery, Own), (RequestDml, Own), (RequestDdl, Own), (RequestView, AnyOwner),
         (RequestCancel, AnyOwner), (RequestResume, AnyOwner), (RequestBreakGlassQuery, Own),
         (RequestBreakGlassDml, Own), (RequestBreakGlassDdl, Own), (ResultView, AnyOwner), (SchemaRead, Own),
         (AuditRead, Own), (MetricsView, Own), (WorkflowRead, Own), (TokenCreate, Own), (TokenRevoke, Own)] ''operator''),
      (''admin'', every_perm [(PermAll, AnyOwner)] ''admin''),
      (''agent-default'', every_perm [(AgentOperate, Own)] ''agent-default'')]"

text \<open>Collecting into a hash map keeps the last entry of a key.\<close>

definition resolved_of :: "role_definition \<Rightarrow> resolved_role" where
  "resolved_of d =
     \<lparr> rr_name = rd_name d, rr_permissions = map_of (rev (rd_permissions d)), rr_databases = rd_databases d,
       rr_environments = rd_environments d \<rparr>"

record resolver_snapshot =
  sn_group_roles :: "(string \<times> string list) list"
  sn_roles :: "string \<rightharpoonup> resolved_role"
  sn_default_role :: "string option"

definition new_snapshot ::
  "(string \<times> string list) list \<Rightarrow> role_definition list \<Rightarrow> string option \<Rightarrow> resolver_snapshot" where
  "new_snapshot group_roles defs default_role =
     \<lparr> sn_group_roles = group_roles,
       sn_roles = foldl (\<lambda>m d. m(rd_name d \<mapsto> resolved_of d)) (map_of builtin_roles) defs,
       sn_default_role = default_role \<rparr>"

definition reload_config ::
  "(string \<times> string list) list \<Rightarrow> role_definition list \<Rightarrow> string option \<Rightarrow> site \<Rightarrow> resolver_snapshot \<times> site" where
  "reload_config group_roles defs default_role z =
     (new_snapshot group_roles defs default_role, z\<lparr> si_cache := Map.empty \<rparr>)"

definition roles_for_group :: "resolver_snapshot \<Rightarrow> string \<Rightarrow> string list" where
  "roles_for_group snap g = (case map_of (sn_group_roles snap) g of None \<Rightarrow> [] | Some rs \<Rightarrow> rs)"

definition groups_granting_role :: "resolver_snapshot \<Rightarrow> string \<Rightarrow> string list" where
  "groups_granting_role snap role =
     filter (\<lambda>g. role \<in> set (roles_for_group snap g)) (remdups (map fst (sn_group_roles snap)))"

definition push_new :: "'a list \<Rightarrow> 'a \<Rightarrow> 'a list" where
  "push_new xs x = (if x \<in> set xs then xs else xs @ [x])"

text \<open>The query for direct roles looks at rows that are not deleted.\<close>

definition resolve_from_db :: "resolver_snapshot \<Rightarrow> site \<Rightarrow> string \<Rightarrow> string list \<Rightarrow> string list \<times> string list" where
  "resolve_from_db snap z i oidc_groups =
     (let direct = (case get_user z i of Some u \<Rightarrow> if us_deleted u then [] else us_roles u | None \<Rightarrow> []);
          groups = foldl push_new (groups_of z i) oidc_groups;
          names = remdups (direct @ concat (map (roles_for_group snap) groups));
          names = (case (names, sn_default_role snap) of ([], Some d) \<Rightarrow> [d] | _ \<Rightarrow> names)
      in (names, groups))"

definition get_roles_by_names :: "site \<Rightarrow> string list \<Rightarrow> role_definition list" where
  "get_roles_by_names z names = filter (\<lambda>d. rd_name d \<in> set names) (si_roles z)"

definition resolve_role_names :: "resolver_snapshot \<Rightarrow> site \<Rightarrow> string list \<Rightarrow> resolved_role list" where
  "resolve_role_names snap z names =
     (let unresolved = filter (\<lambda>n. sn_roles snap n = None) names
      in List.map_filter (sn_roles snap) names @ map resolved_of (get_roles_by_names z unresolved))"

text \<open>What sign-in reads besides the database. \<open>av_fault\<close> is the error a numbered access to the database gives,
  \<open>av_clock\<close> the successive readings of the clocks, \<open>av_ids\<close> the identifiers drawn for audit rows.\<close>

record auth_env =
  av_lib :: lib
  av_snapshot :: resolver_snapshot
  av_accept_oidc :: bool
  av_oidc :: "(string \<Rightarrow> auth_error + (string \<times> string list)) option"
  av_max_users :: u32
  av_fault :: "nat \<Rightarrow> string option"
  av_clock :: "nat \<Rightarrow> timestamp"
  av_ids :: "nat \<Rightarrow> string"

definition CACHE_TTL_SECS :: int where
  "CACHE_TTL_SECS = 5"

definition cached :: "auth_env \<Rightarrow> site \<Rightarrow> string \<Rightarrow> string list option" where
  "cached env z i =
     (case si_cache z i of
        Some (names, at) \<Rightarrow> if num_seconds (av_clock env 0 - at) < CACHE_TTL_SECS then Some names else None
      | None \<Rightarrow> None)"

definition resolve :: "auth_env \<Rightarrow> string \<Rightarrow> subject_type \<Rightarrow> string list \<Rightarrow> (auth_error, resolved_role list) io" where
  "resolve env i ty groups = (\<lambda>z.
     let snap = av_snapshot env in
     if ty = SubjAgent then
       (case sn_roles snap ''agent-default'' of
          Some r \<Rightarrow> (Inr [r], z)
        | None \<Rightarrow> (Inl (AuthInternal ''agent-default role not found''), z))
     else
       case (if groups = [] then cached env z i else None) of
         Some names \<Rightarrow> (Inr (resolve_role_names snap z names), z)
       | None \<Rightarrow>
           (case av_fault env 0 of
              Some e \<Rightarrow> (Inl (AuthInternal (''pool: '' @ e)), z)
            | None \<Rightarrow>
                let roles = resolve_role_names snap z (fst (resolve_from_db snap z i groups)) in
                (Inr roles,
                 if groups = [] then z\<lparr> si_cache := (si_cache z)(i \<mapsto> (map rr_name roles, av_clock env 1)) \<rparr> else z)))"

definition invalidate_cache :: "string \<Rightarrow> site \<Rightarrow> site" where
  "invalidate_cache i z = z\<lparr> si_cache := (si_cache z)(i := None) \<rparr>"

definition groups_for_subject :: "auth_env \<Rightarrow> nat \<Rightarrow> site \<Rightarrow> string \<Rightarrow> string list" where
  "groups_for_subject env n z i = (if av_fault env n = None then groups_of z i else [])"

definition subjects_for_role :: "resolver_snapshot \<Rightarrow> site \<Rightarrow> string \<Rightarrow> string list" where
  "subjects_for_role snap z role =
     remdups (map us_id (filter (\<lambda>u. live_user u \<and> role \<in> set (us_roles u)) (si_users z))
       @ map snd (filter (\<lambda>(g, i). g \<in> set (groups_granting_role snap role)
            \<and> list_ex (\<lambda>u. us_id u = i \<and> live_user u) (si_users z)) (si_members z)))"

definition subjects_for_selector :: "resolver_snapshot \<Rightarrow> site \<Rightarrow> string \<Rightarrow> string list" where
  "subjects_for_selector snap z selector =
     (case strip_prefix ''role:'' selector of
        Some role \<Rightarrow> subjects_for_role snap z role
      | None \<Rightarrow>
          (case strip_prefix ''group:'' selector of
             Some name \<Rightarrow> map snd (filter (\<lambda>(g, i). g = name) (si_members z))
           | None \<Rightarrow> (case strip_prefix ''user:'' selector of Some user \<Rightarrow> [user] | None \<Rightarrow> [])))"

subsection \<open>API tokens\<close>

record verified_token =
  vt_id :: string
  vt_subject_id :: string
  vt_subject_type :: subject_type
  vt_scope_ceiling :: "string list option"

definition token_form :: "string \<Rightarrow> bool" where
  "token_form raw \<longleftrightarrow> take 4 raw = ''dbw_'' \<and> 12 \<le> length raw \<and> length raw \<le> 256
     \<and> list_all (\<lambda>c. (of_char c :: nat) < 128) raw"

definition verify_api_token :: "auth_env \<Rightarrow> site \<Rightarrow> string \<Rightarrow> auth_error + verified_token" where
  "verify_api_token env z raw =
     tryE (guardE (token_form raw) InvalidToken) (\<lambda>_.
     tryE (case av_fault env 2 of Some e \<Rightarrow> Inl (AuthInternal e) | None \<Rightarrow> Inr ()) (\<lambda>_.
     tryE (ok_or (token_verify (take 8 (drop 4 raw)) (x_sha256_hex (av_lib env) raw) z) InvalidToken) (\<lambda>t.
     tryE (guardE (case tk_expires_at t of Some at \<Rightarrow> \<not> at < av_clock env 2 | None \<Rightarrow> True) TokenExpired) (\<lambda>_.
     Inr \<lparr> vt_id = tk_id t, vt_subject_id = tk_subject_id t, vt_subject_type = tk_subject_type t,
           vt_scope_ceiling = tk_scope_ceiling t \<rparr>))))"

definition verify_oidc_token :: "auth_env \<Rightarrow> string \<Rightarrow> auth_error + (string \<times> string list)" where
  "verify_oidc_token env raw =
     (case av_oidc env of Some verify \<Rightarrow> verify raw | None \<Rightarrow> Inl OidcNotConfigured)"

subsection \<open>The middleware\<close>

record http_request =
  hr_authorization :: "string option"
  hr_path :: string
  hr_peer_ip :: "string option"
  hr_client_ip :: "(string \<times> ip_source) option"

record http_error =
  he_status :: nat
  he_error :: string
  he_code :: string
  he_hint :: "string option"

fun auth_error_text :: "auth_error \<Rightarrow> string" where
  "auth_error_text MissingToken = ''missing authorization header''"
| "auth_error_text InvalidToken = ''invalid token''"
| "auth_error_text TokenExpired = ''token expired''"
| "auth_error_text TokenRevoked = ''token revoked''"
| "auth_error_text UserSuspended = ''user suspended''"
| "auth_error_text OidcNotConfigured = ''OIDC not configured''"
| "auth_error_text (OidcVerificationFailed e) = ''OIDC verification failed: '' @ e"
| "auth_error_text (AuthInternal e) = ''internal: '' @ e"
| "auth_error_text UserLimitReached = ''user limit reached''"
| "auth_error_text NoRolesResolved = ''no roles resolved for subject''"
| "auth_error_text InsufficientScope = ''scope ceiling blocks all resolved roles''"

definition unauthorized :: http_error where
  "unauthorized = \<lparr> he_status = 401, he_error = ''authentication failed'', he_code = ''unauthorized'', he_hint = None \<rparr>"

fun auth_error_response :: "auth_error \<Rightarrow> http_error" where
  "auth_error_response (AuthInternal _) =
     \<lparr> he_status = 500, he_error = ''internal server error'', he_code = ''internal_error'', he_hint = None \<rparr>"
| "auth_error_response UserLimitReached =
     \<lparr> he_status = 402, he_error = ''user limit reached'', he_code = ''policy.limit_exceeded'',
       he_hint = Some ''contact your administrator or upgrade to Team'' \<rparr>"
| "auth_error_response NoRolesResolved =
     \<lparr> he_status = 403, he_error = ''insufficient permissions'', he_code = auth_error_code NoRolesResolved, he_hint = None \<rparr>"
| "auth_error_response InsufficientScope =
     \<lparr> he_status = 403, he_error = ''insufficient permissions'', he_code = auth_error_code InsufficientScope, he_hint = None \<rparr>"
| "auth_error_response _ = unauthorized"

fun client_ip_source_as_str :: "ip_source \<Rightarrow> string" where
  "client_ip_source_as_str Direct = ''peer''"
| "client_ip_source_as_str Forwarded = ''xff''"

definition log_event :: "auth_env \<Rightarrow> nat \<Rightarrow> audit_event \<Rightarrow> site \<Rightarrow> string + site" where
  "log_event env n ev z =
     tryE (insert_audit_event (av_lib env) (av_ids env n) ev (st_audit (si_store z))) (\<lambda>t.
     Inr (z\<lparr> si_store := (si_store z)\<lparr> st_audit := t \<rparr> \<rparr>))"

definition failure_event :: "auth_env \<Rightarrow> http_request \<Rightarrow> auth_error \<Rightarrow> audit_event" where
  "failure_event env req e =
     \<lparr> ae_id = [], ae_event_type = ''auth.failure'', ae_event_category = CatAuth, ae_event_version = 1,
       ae_outcome = OutDenied, ae_actor_id = ''anonymous'', ae_actor_type = ActUser, ae_resource_type = None,
       ae_resource_id = None, ae_peer_ip = hr_peer_ip req, ae_client_ip = map_option fst (hr_client_ip req),
       ae_client_ip_source = map_option (\<lambda>(_, s). client_ip_source_as_str s) (hr_client_ip req),
       ae_request_id = None, ae_operation = None, ae_database_name = None, ae_environment = None,
       ae_detail_fingerprint = None, ae_detail_raw = Some (auth_error_text e), ae_reason = Some (auth_error_text e),
       ae_metadata_json = x_json_text (av_lib env)
         (JObj [(''failure_reason'', JStr (auth_error_text e)), (''code'', JStr (auth_error_code e))]),
       ae_prev_hash = None, ae_event_hash = [], ae_created_at = av_clock env 3 \<rparr>"

definition log_auth_failure :: "auth_env \<Rightarrow> http_request \<Rightarrow> auth_error \<Rightarrow> site \<Rightarrow> site" where
  "log_auth_failure env req e z = (case log_event env 0 (failure_event env req e) z of Inl _ \<Rightarrow> z | Inr z' \<Rightarrow> z')"

text \<open>Refusals: with and without a row in the audit log, and a failed access to the database.\<close>

definition refuse_logged :: "auth_env \<Rightarrow> http_request \<Rightarrow> auth_error \<Rightarrow> (http_error, 'a) io" where
  "refuse_logged env req e = (\<lambda>z. (Inl (auth_error_response e), log_auth_failure env req e z))"

definition or_logged :: "auth_env \<Rightarrow> http_request \<Rightarrow> (auth_error, 'a) io \<Rightarrow> (http_error, 'a) io" where
  "or_logged env req m = (\<lambda>z. case m z of (Inl e, z') \<Rightarrow> refuse_logged env req e z' | (Inr x, z') \<Rightarrow> (Inr x, z'))"

definition readM :: "auth_env \<Rightarrow> nat \<Rightarrow> string \<Rightarrow> (site \<Rightarrow> 'a) \<Rightarrow> (http_error, 'a) io" where
  "readM env n what f = (\<lambda>z.
     (case av_fault env n of Some _ \<Rightarrow> Inl (auth_error_response (AuthInternal what)) | None \<Rightarrow> Inr (f z), z))"

definition writeM :: "auth_env \<Rightarrow> nat \<Rightarrow> string \<Rightarrow> (site \<Rightarrow> site) \<Rightarrow> (http_error, unit) io" where
  "writeM env n what f = (\<lambda>z.
     case av_fault env n of Some _ \<Rightarrow> (Inl (auth_error_response (AuthInternal what)), z) | None \<Rightarrow> (Inr (), f z))"

text \<open>A subject without a row is admitted while there is room for another user.\<close>

definition admit_user :: "auth_env \<Rightarrow> http_request \<Rightarrow> nat \<Rightarrow> string \<Rightarrow> (http_error, unit) io" where
  "admit_user env req n i =
     thenM (readM env n ''user lookup failed'' (\<lambda>z. get_user z i)) (\<lambda>found.
     if found \<noteq> None then liftM (Inr ())
     else thenM (readM env (n + 1) ''user count failed'' count_active) (\<lambda>active.
       if active \<ge> unat (av_max_users env) then refuse_logged env req UserLimitReached else liftM (Inr ())))"

definition refuse_suspended :: "auth_env \<Rightarrow> http_request \<Rightarrow> nat \<Rightarrow> string \<Rightarrow> (http_error, unit) io" where
  "refuse_suspended env req n i =
     thenM (readM env n ''suspended check failed'' (\<lambda>z. is_suspended z i)) (\<lambda>suspended.
     if suspended then refuse_logged env req UserSuspended else liftM (Inr ()))"

definition login_context :: "http_request \<Rightarrow> audit_context" where
  "login_context req =
     (case hr_client_ip req of
        Some (ip, source) \<Rightarrow>
          CtxRequest \<lparr> ci_peer_ip = (case hr_peer_ip req of Some peer \<Rightarrow> peer | None \<Rightarrow> ip), ci_client_ip = ip,
                       ci_source = source \<rparr>
      | None \<Rightarrow> CtxSystem)"

definition put_login :: "string \<Rightarrow> timestamp \<Rightarrow> (string \<times> timestamp) list \<Rightarrow> (string \<times> timestamp) list" where
  "put_login i now logins =
     (let kept = (if 10000 < length logins then filter (\<lambda>(_, at). now - at < seconds 3600) logins else logins)
      in (i, now) # filter (\<lambda>(j, _). j \<noteq> i) kept)"

definition record_login :: "auth_env \<Rightarrow> http_request \<Rightarrow> string \<Rightarrow> site \<Rightarrow> site" where
  "record_login env req i z =
     (if (case map_of (si_logins z) i of Some at \<Rightarrow> av_clock env 4 - at \<le> seconds 3600 | None \<Rightarrow> False) then z
      else
        case log_event env 1 (audit_event_simple ''auth.login_success'' ''auth'' i None (av_clock env 5) (login_context req)) z of
          Inl _ \<Rightarrow> z
        | Inr z' \<Rightarrow> z'\<lparr> si_logins := put_login i (av_clock env 6) (si_logins z') \<rparr>)"

definition oidc_row :: "string \<Rightarrow> timestamp \<Rightarrow> user_row" where
  "oidc_row i now =
     \<lparr> us_id = i, us_display_name = None, us_email = None, us_roles = [], us_status = UsActive, us_source = ''api'',
       us_slack_user_id = None, us_deleted = False, us_last_seen_at = Some now, us_created_at = now,
       us_updated_at = now \<rparr>"

definition oidc_user :: "auth_env \<Rightarrow> http_request \<Rightarrow> string \<Rightarrow> (http_error, auth_user) io" where
  "oidc_user env req raw =
     thenM (or_logged env req (liftM (verify_oidc_token env raw))) (\<lambda>(i, groups).
     thenM (admit_user env req 3 i) (\<lambda>_.
     thenM (writeM env 5 ''user upsert failed'' (user_upsert (oidc_row i (av_clock env 7)))) (\<lambda>_.
     thenM (refuse_suspended env req 6 i) (\<lambda>_.
     thenM (or_logged env req (resolve env i SubjUser groups)) (\<lambda>roles.
     if roles = [] then refuse_logged env req NoRolesResolved
     else
       thenM (putM (record_login env req i)) (\<lambda>_.
       liftM (Inr \<lparr> au_subject_id = i, au_subject_type = SubjUser, au_roles = roles, au_groups = groups,
                     au_token_id = None \<rparr>)))))))"

definition apply_ceiling :: "subject_type \<Rightarrow> string list option \<Rightarrow> resolved_role list \<Rightarrow> auth_error + resolved_role list" where
  "apply_ceiling ty scope roles =
     (case scope of
        Some names \<Rightarrow>
          if names = [] then Inl InsufficientScope
          else
            let filtered = filter (\<lambda>r. rr_name r \<in> set names) roles
            in if filtered = [] then Inl InsufficientScope else Inr filtered
      | None \<Rightarrow>
          if ty = SubjUser then Inl InsufficientScope
          else if roles = [] then Inl NoRolesResolved
          else Inr roles)"

definition api_user :: "auth_env \<Rightarrow> http_request \<Rightarrow> string \<Rightarrow> (http_error, auth_user) io" where
  "api_user env req raw =
     thenM (or_logged env req (\<lambda>z. (verify_api_token env z raw, z))) (\<lambda>t.
     thenM (if vt_subject_type t = SubjUser then refuse_suspended env req 7 (vt_subject_id t) else liftM (Inr ())) (\<lambda>_.
     thenM (or_logged env req (resolve env (vt_subject_id t) (vt_subject_type t) [])) (\<lambda>resolved.
     thenM (\<lambda>z. (Inr (groups_for_subject env 8 z (vt_subject_id t)), z)) (\<lambda>groups.
     thenM (or_logged env req (liftM (apply_ceiling (vt_subject_type t) (vt_scope_ceiling t) resolved))) (\<lambda>roles.
     liftM (Inr \<lparr> au_subject_id = vt_subject_id t, au_subject_type = vt_subject_type t, au_roles = roles,
                   au_groups = groups, au_token_id = Some (vt_id t) \<rparr>))))))"

definition finish_user :: "auth_env \<Rightarrow> http_request \<Rightarrow> auth_user \<Rightarrow> (http_error, auth_user) io" where
  "finish_user env req user =
     thenM (if au_subject_type user = SubjUser \<and> au_token_id user \<noteq> None
            then thenM (admit_user env req 9 (au_subject_id user)) (\<lambda>_.
                 writeM env 11 ''user record creation failed'' (ensure_exists (au_subject_id user) (av_clock env 8)))
            else liftM (Inr ())) (\<lambda>_.
     thenM (\<lambda>z. (Inr (groups_for_subject env 12 z (au_subject_id user)), z)) (\<lambda>groups.
     if au_subject_type user = SubjAgent \<and> take 11 (hr_path req) \<noteq> ''/api/agent/'' \<and> hr_path req \<noteq> ''/api/public-key''
     then liftM (Inl \<lparr> he_status = 403, he_error = ''agent tokens cannot access this endpoint'', he_code = ''forbidden'',
                       he_hint = None \<rparr>)
     else liftM (Inr (user\<lparr> au_groups := foldl push_new (au_groups user) groups \<rparr>))))"

text \<open>The result is the principal with which the request goes on.\<close>

definition auth_middleware :: "auth_env \<Rightarrow> http_request \<Rightarrow> (http_error, auth_user) io" where
  "auth_middleware env req =
     (case Option.bind (hr_authorization req) (strip_prefix ''Bearer '') of
        None \<Rightarrow> liftM (Inl unauthorized)
      | Some raw \<Rightarrow>
          let is_jwt = (take 3 raw = ''eyJ'') in
          if is_jwt \<and> \<not> av_accept_oidc env then liftM (Inl (auth_error_response OidcNotConfigured))
          else thenM (if is_jwt then oidc_user env req raw else api_user env req raw) (finish_user env req))"

end
