(* ===== verification/Identity.thy ===== *)
theory Identity
  imports Authentication
begin

text \<open>
  The administration of tokens: the use cases of \<open>crates/dbward-app/src/use_cases/token_manage.rs\<close> over the
  tables of \<open>Directory\<close> and the role resolver of \<open>Authentication\<close>, and the steps they share with the
  administration of users. Every use case reads outside the transaction where the code does, so that what a
  check saw and what the transaction finds are the same only because the steps of the model do not overlap.
  Reading the database succeeds.
\<close>

subsection \<open>Shared steps\<close>

text \<open>\<open>ad_audit\<close> are the successive environments of the audit rows of a transaction, \<open>ad_clock\<close> the successive
  readings of the clock.\<close>

record admin_env =
  ad_auth :: auth_env
  ad_faults :: tx_faults
  ad_audit :: "nat \<Rightarrow> audit_env"
  ad_clock :: "nat \<Rightarrow> timestamp"
  ad_new_id :: string
  ad_raw_token :: string
  ad_max_active_tokens :: u32

definition ad_lib :: "admin_env \<Rightarrow> lib" where
  "ad_lib env = av_lib (ad_auth env)"

definition ad_max_users :: "admin_env \<Rightarrow> nat" where
  "ad_max_users env = unat (av_max_users (ad_auth env))"

definition admin_groups :: "admin_env \<Rightarrow> string list" where
  "admin_groups env = groups_granting_role (av_snapshot (ad_auth env)) ''admin''"

definition checkM :: "(site \<Rightarrow> 'e + 'a) \<Rightarrow> ('e, 'a) io" where
  "checkM f = (\<lambda>z. (f z, z))"

lemma checkM_Inr [io_simps]: "checkM f z = (Inr y, z') \<longleftrightarrow> f z = Inr y \<and> z' = z"
  by (auto simp: checkM_def)

lemma checkM_eval: "checkM f z = (f z, z)"
  by (simp add: checkM_def)

definition permitM :: "auth_user \<Rightarrow> permission \<Rightarrow> (app_error, unit) io" where
  "permitM user perm = liftM (map_err Forbidden (authorize_global user perm))"

definition recordT :: "admin_env \<Rightarrow> nat \<Rightarrow> audit_event \<Rightarrow> unit stx" where
  "recordT env n ev = in_store (record_event (ad_lib env) (ad_audit env n) ev)"

fun eachT :: "('a \<Rightarrow> unit stx) \<Rightarrow> 'a list \<Rightarrow> unit stx" where
  "eachT f [] = doneT ()"
| "eachT f (x # xs) = thenT (f x) (\<lambda>_. eachT f xs)"

fun record_from :: "admin_env \<Rightarrow> nat \<Rightarrow> audit_event list \<Rightarrow> unit stx" where
  "record_from env n [] = doneT ()"
| "record_from env n (ev # evs) = thenT (recordT env n ev) (\<lambda>_. record_from env (n + 1) evs)"

definition builtin_names :: "string list" where
  "builtin_names = [''admin'', ''requester'', ''approver'', ''operator'', ''agent-default'']"

definition known_roles :: "site \<Rightarrow> string list \<Rightarrow> unit app_result" where
  "known_roles z roles =
     (case List.find (\<lambda>r. r \<notin> set (map rd_name (si_roles z)) \<and> r \<notin> set builtin_names) roles of
        Some r \<Rightarrow> Inl (Validation (''unknown role: '' @ r))
      | None \<Rightarrow> Inr ())"

definition known_groups :: "site \<Rightarrow> string list \<Rightarrow> unit app_result" where
  "known_groups z groups =
     (case List.find (\<lambda>g. \<not> group_exists z g) groups of
        Some g \<Rightarrow> Inl (Validation (''group '' @ quoted g @ '' is not defined in config''))
      | None \<Rightarrow> Inr ())"

definition resolve_user :: "admin_env \<Rightarrow> string \<Rightarrow> subject_type \<Rightarrow> (app_error, resolved_role list) io" where
  "resolve_user env i ty = (\<lambda>z.
     case resolve (ad_auth env) i ty [] z of
       (Inl e, z') \<Rightarrow> (Inl (Internal (''role resolution: '' @ auth_error_text e)), z')
     | (Inr roles, z') \<Rightarrow> (Inr roles, z'))"

definition identity_webhook :: "string \<Rightarrow> auth_user \<Rightarrow> string \<Rightarrow> string \<Rightarrow> webhook_event" where
  "identity_webhook event_type user i what =
     \<lparr> wh_event_type = event_type, wh_request_id = None, wh_database = None, wh_environment = None,
       wh_actor = Some (au_subject_id user), wh_detail = Some (''user '' @ quoted i @ what), wh_requester = None,
       wh_operation = None, wh_reason = None, wh_redacted_detail = None, wh_error_summary = None,
       wh_approval_hint = None, wh_step_index = None, wh_total_steps = None, wh_expires_at = None,
       wh_approvers = None, wh_matched_selector = None \<rparr>"

subsection \<open>Tokens\<close>

record token_create_input =
  ci_subject_id :: string
  ci_subject_type :: string
  ci_name :: "string option"
  ci_scope_ceiling :: "string list option"
  ci_expires_at :: "timestamp option"
  ci_issued_by :: "string option"
  ci_groups :: "string list"

record token_create_output =
  co_id :: string
  co_token :: string
  co_prefix :: string
  co_subject_id :: string
  co_scope_ceiling :: "string list option"
  co_effective_roles :: "string list"
  co_effective_permissions :: "string list"
  co_expires_at :: "timestamp option"

definition token_subject :: "token_create_input \<Rightarrow> subject_type app_result" where
  "token_subject input =
     tryE (guardE (ci_subject_id input \<noteq> []) (Validation ''subject_id is required'')) (\<lambda>_.
     tryE (guardE (ci_subject_type input \<in> {''user'', ''agent''})
       (Validation (''subject_type must be '' @ quoted ''user'' @ '' or '' @ quoted ''agent''))) (\<lambda>_.
     tryE (guardE (ci_groups input = []) (Validation ''groups field is not allowed; use Config [[auth.groups]] instead'')) (\<lambda>_.
     Inr (if ci_subject_type input = ''agent'' then SubjAgent else SubjUser))))"

definition token_permit :: "auth_user \<Rightarrow> token_create_input \<Rightarrow> subject_type \<Rightarrow> unit app_result" where
  "token_permit user input ty =
     (if ty = SubjAgent then map_err Forbidden (authorize_global user TokenCreateAgent)
      else if ci_subject_id input = au_subject_id user then map_err Forbidden (authorize_global user TokenCreate)
      else Inl (Forbidden (AzForbidden TokenCreate
        ''creating tokens for other users is not allowed; use reissue-initial-token instead'')))"

definition token_room :: "admin_env \<Rightarrow> string \<Rightarrow> subject_type \<Rightarrow> site \<Rightarrow> unit app_result" where
  "token_room env i ty z =
     guardE (ad_max_active_tokens env = 0 \<or> count_active_for_subject z i ty < unat (ad_max_active_tokens env))
       (Validation ''active token limit reached; revoke unused tokens first'')"

definition ceiling_valid :: "subject_type \<Rightarrow> string list option \<Rightarrow> site \<Rightarrow> unit app_result" where
  "ceiling_valid ty scope z =
     tryE (guardE (ty = SubjAgent \<longrightarrow> scope \<in> {None, Some [''agent-default'']})
       (Validation ''agent tokens must have scope_ceiling=None or {roles:[\"agent-default\"]}'')) (\<lambda>_.
     case scope of
       None \<Rightarrow> Inr ()
     | Some roles \<Rightarrow>
         tryE (guardE (roles \<noteq> []) (Validation ''scope_ceiling.roles must not be empty'')) (\<lambda>_. known_roles z roles))"

text \<open>The \<open>Debug\<close> form of a list of strings, exact for printable text.\<close>

definition debug_char :: "char \<Rightarrow> string" where
  "debug_char c =
     (if c = CHR 0x22 then [CHR 0x5C, CHR 0x22]
      else if c = CHR 0x5C then [CHR 0x5C, CHR 0x5C]
      else if c = CHR 0x0A then [CHR 0x5C, CHR ''n'']
      else if c = CHR 0x0D then [CHR 0x5C, CHR ''r'']
      else if c = CHR 0x09 then [CHR 0x5C, CHR ''t'']
      else [c])"

fun debug_join :: "string list \<Rightarrow> string" where
  "debug_join [] = []"
| "debug_join [x] = x"
| "debug_join (x # y # ys) = x @ '', '' @ debug_join (y # ys)"

definition debug_strings :: "string list \<Rightarrow> string" where
  "debug_strings xs = ''['' @ debug_join (map (\<lambda>s. [CHR 0x22] @ concat (map debug_char s) @ [CHR 0x22]) xs) @ '']''"

definition effective_roles :: "string list option \<Rightarrow> resolved_role list \<Rightarrow> string list app_result" where
  "effective_roles scope resolved =
     (case scope of
        Some roles \<Rightarrow>
          let filtered = map rr_name (filter (\<lambda>r. rr_name r \<in> set roles) resolved) in
          tryE (guardE (filtered \<noteq> []) (Validation (''scope_ceiling '' @ debug_strings roles
            @ '' has no overlap with resolved roles '' @ debug_strings (map rr_name resolved)
            @ ''; token would always fail''))) (\<lambda>_. Inr filtered)
      | None \<Rightarrow> Inr (map rr_name resolved))"

definition every_permission :: "permission list" where
  "every_permission =
     [RequestQuery, RequestDml, RequestDdl, RequestBreakGlassQuery, RequestBreakGlassDml, RequestBreakGlassDdl,
      RequestView, RequestCancel, RequestResume, RequestPreflight, RequestPreflightExplain, ResultView, SchemaRead,
      WorkflowRead, WorkflowWrite, PolicyWrite, RoleWrite, UserRead, UserWrite, WebhookWrite, TokenCreate,
      TokenRevoke, TokenList, TokenCreateAgent, TokenReissue, AuditRead, MetricsView, AgentOperate, PermAll]"

definition effective_permissions :: "resolved_role list \<Rightarrow> string list \<Rightarrow> string list" where
  "effective_permissions resolved effective =
     sort (map permission_as_str (filter (\<lambda>p.
       list_ex (\<lambda>r. rr_name r \<in> set effective \<and> rr_permissions r p \<noteq> None) resolved) every_permission))"

definition json_ceiling :: "string list option \<Rightarrow> json" where
  "json_ceiling scope = (case scope of None \<Rightarrow> JNull | Some roles \<Rightarrow> JObj [(''roles'', JArr (map JStr roles))])"

definition token_created_event ::
  "admin_env \<Rightarrow> token_create_input \<Rightarrow> string list option \<Rightarrow> auth_user \<Rightarrow> audit_context \<Rightarrow> audit_event" where
  "token_created_event env input scope user ctx =
     (audit_event_simple ''token.created'' ''token'' (au_subject_id user) (Some (ad_new_id env)) (ad_clock env 2) ctx)
       \<lparr> ae_metadata_json := x_json_text (ad_lib env) (JObj
           [(''issued_by'', JStr (case ci_issued_by input of Some who \<Rightarrow> who | None \<Rightarrow> au_subject_id user)),
            (''issued_for'', JStr (ci_subject_id input)), (''scope_ceiling'', json_ceiling scope)]) \<rparr>"

definition token_create ::
  "admin_env \<Rightarrow> token_create_input \<Rightarrow> auth_user \<Rightarrow> audit_context \<Rightarrow> (app_error, token_create_output) io" where
  "token_create env input user ctx =
     thenM (liftM (token_subject input)) (\<lambda>ty.
     thenM (liftM (token_permit user input ty)) (\<lambda>_.
     thenM (checkM (token_room env (ci_subject_id input) ty)) (\<lambda>_.
     thenM (checkM (ceiling_valid ty (ci_scope_ceiling input))) (\<lambda>_.
     thenM (liftM (guardE (case ci_expires_at input of Some at \<Rightarrow> ad_clock env 0 < at | None \<Rightarrow> True)
       (Validation ''expires_at must be in the future''))) (\<lambda>_.
     thenM (checkM (\<lambda>z. guardE (\<not> (ty = SubjUser \<and> is_suspended z (ci_subject_id input)))
       (Conflict ''cannot create token for suspended user''))) (\<lambda>_.
     thenM (resolve_user env (ci_subject_id input) ty) (\<lambda>resolved.
     thenM (liftM (guardE (resolved \<noteq> []) (Validation (''subject '' @ quoted (ci_subject_id input)
       @ '' resolves to no roles; assign roles/groups or set default_role'')))) (\<lambda>_.
     let scope = (if ci_scope_ceiling input = None \<and> ty = SubjUser then Some (map rr_name resolved)
                  else ci_scope_ceiling input) in
     thenM (liftM (effective_roles scope resolved)) (\<lambda>effective.
     let raw = ad_raw_token env;
         t = \<lparr> tk_id = ad_new_id env, tk_subject_type = ty, tk_subject_id = ci_subject_id input,
               tk_hash = x_sha256_hex (ad_lib env) raw, tk_prefix = extract_prefix raw, tk_scope_ceiling = scope,
               tk_name = ci_name input, tk_status = TokActive, tk_provisioning_kind = None,
               tk_expires_at = ci_expires_at input, tk_created_at = ad_clock env 1, tk_revoked_at = None \<rparr> in
     thenM (run_in_tx (ad_faults env) (thenT (create_token t) (\<lambda>_.
       recordT env 0 (token_created_event env input scope user ctx)))) (\<lambda>_.
     liftM (Inr \<lparr> co_id = ad_new_id env, co_token = raw, co_prefix = extract_prefix raw,
                   co_subject_id = ci_subject_id input, co_scope_ceiling = scope, co_effective_roles = effective,
                   co_effective_permissions = effective_permissions resolved effective,
                   co_expires_at = ci_expires_at input \<rparr>)))))))))))"

definition token_list :: "auth_user \<Rightarrow> (app_error, token list) io" where
  "token_list user =
     thenM (permitM user TokenList) (\<lambda>_.
     checkM (\<lambda>z. Inr (filter (\<lambda>t. tk_provisioning_kind t \<noteq> Some Bootstrap) (si_tokens z))))"

definition token_revoke ::
  "admin_env \<Rightarrow> string \<Rightarrow> auth_user \<Rightarrow> audit_context \<Rightarrow> (app_error, string \<times> timestamp) io" where
  "token_revoke env i user ctx =
     thenM (checkM (\<lambda>z. ok_or (get_token z i) (NotFound ''token not found''))) (\<lambda>t.
     thenM (liftM (guardE (tk_provisioning_kind t \<noteq> Some Bootstrap) (NotFound ''token not found''))) (\<lambda>_.
     thenM (liftM (map_err Forbidden
       (authorize_scoped user TokenRevoke db_wildcard env_wildcard (CtxToken (tk_subject_id t))))) (\<lambda>_.
     thenM (run_in_tx (ad_faults env) (thenT (revoke_token i (ad_clock env 0)) (\<lambda>_.
       recordT env 0 (audit_event_simple ''token.revoked'' ''token'' (au_subject_id user) (Some i) (ad_clock env 0) ctx)))) (\<lambda>_.
     liftM (Inr (i, ad_clock env 0))))))"

record reissue_output =
  ro_new_token_id :: string
  ro_plaintext :: string
  ro_old_token_id :: "string option"

definition initial_token :: "admin_env \<Rightarrow> string \<Rightarrow> string list \<Rightarrow> timestamp \<Rightarrow> token" where
  "initial_token env i scope now =
     \<lparr> tk_id = ad_new_id env, tk_subject_type = SubjUser, tk_subject_id = i,
       tk_hash = x_sha256_hex (ad_lib env) (ad_raw_token env), tk_prefix = extract_prefix (ad_raw_token env),
       tk_scope_ceiling = Some scope, tk_name = Some ''initial'', tk_status = TokActive,
       tk_provisioning_kind = Some Initial, tk_expires_at = None, tk_created_at = now, tk_revoked_at = None \<rparr>"

definition reissue_tx :: "admin_env \<Rightarrow> string option \<Rightarrow> auth_user \<Rightarrow> token \<Rightarrow> unit stx" where
  "reissue_tx env old user t =
     thenT (case old of
              None \<Rightarrow> doneT ()
            | Some j \<Rightarrow>
                thenT (revoke_token j (ad_clock env 0)) (\<lambda>_.
                recordT env 0 (audit_event_simple ''token.revoked'' ''token'' (au_subject_id user) (Some j)
                  (ad_clock env 0) CtxSystem))) (\<lambda>_.
     create_token t)"

definition reissue_initial :: "admin_env \<Rightarrow> string \<Rightarrow> auth_user \<Rightarrow> (app_error, reissue_output) io" where
  "reissue_initial env i user =
     thenM (permitM user TokenReissue) (\<lambda>_.
     thenM (checkM (\<lambda>z. guardE (get_user z i \<noteq> None) (NotFound (''user '' @ quoted i @ '' not found'')))) (\<lambda>_.
     thenM (checkM (\<lambda>z. guardE (\<not> is_deleted z i) (Gone ''user has been deleted''))) (\<lambda>_.
     thenM (checkM (\<lambda>z. guardE (\<not> is_suspended z i) (Conflict ''cannot reissue token for suspended user''))) (\<lambda>_.
     thenM (resolve_user env i SubjUser) (\<lambda>resolved.
     thenM (liftM (guardE (resolved \<noteq> []) (Validation ''user has no resolved roles; assign roles first''))) (\<lambda>_.
     thenM (checkM (\<lambda>z. Inr (map_option tk_id (find_active_initial z i)))) (\<lambda>old.
     thenM (run_in_tx (ad_faults env)
       (reissue_tx env old user (initial_token env i (map rr_name resolved) (ad_clock env 0)))) (\<lambda>_.
     liftM (Inr \<lparr> ro_new_token_id = ad_new_id env, ro_plaintext = ad_raw_token env, ro_old_token_id = old \<rparr>)))))))))"

end
