(* ===== verification/User_Admin.thy ===== *)
theory User_Admin
  imports Identity
begin

text \<open>
  The administration of users: the use cases of \<open>crates/dbward-app/src/use_cases/user_manage.rs\<close>, each with its
  checks, its transaction and the notification it ends with.
\<close>

subsection \<open>Adding a user\<close>

record onboarding_claim =
  oc_request_id :: string
  oc_decided_by :: string
  oc_decided_at :: timestamp
  oc_approved_roles :: "string list"
  oc_approved_groups :: "string list"
  oc_decision_comment :: "string option"

record user_add_input =
  ua_id :: string
  ua_roles :: "string list"
  ua_groups :: "string list"
  ua_slack_user_id :: "string option"
  ua_source :: "string option"
  ua_onboarding_claim :: "onboarding_claim option"

record user_add_output =
  uo_id :: string
  uo_token :: string
  uo_token_prefix :: string
  uo_roles :: "string list"
  uo_groups :: "string list"

definition user_id_char :: "char \<Rightarrow> bool" where
  "user_id_char c \<longleftrightarrow> is_alnum c \<or> c \<in> {CHR ''-'', CHR ''_'', CHR ''@'', CHR ''.''}"

definition user_add_checks :: "user_add_input \<Rightarrow> site \<Rightarrow> unit app_result" where
  "user_add_checks input z =
     tryE (guardE (ua_id input \<noteq> []) (Validation ''user id is required'')) (\<lambda>_.
     tryE (guardE (length (ua_id input) \<le> 128) (Validation ''user id must be 128 characters or fewer'')) (\<lambda>_.
     tryE (guardE (list_all user_id_char (ua_id input)) (Validation
       ''user id may only contain ASCII alphanumeric characters, hyphens, underscores, @ and dots'')) (\<lambda>_.
     tryE (known_roles z (ua_roles input)) (\<lambda>_. known_groups z (ua_groups input)))))"

definition granted_roles :: "resolver_snapshot \<Rightarrow> string list \<Rightarrow> string list \<Rightarrow> string list" where
  "granted_roles snap roles groups =
     (let effective = foldl push_new roles (concat (map (roles_for_group snap) groups))
      in case (effective, sn_default_role snap) of ([], Some d) \<Rightarrow> [d] | _ \<Rightarrow> effective)"

definition new_user :: "user_add_input \<Rightarrow> timestamp \<Rightarrow> user_row" where
  "new_user input now =
     \<lparr> us_id = ua_id input, us_display_name = None, us_email = None, us_roles = ua_roles input,
       us_status = UsActive, us_source = ''api'', us_slack_user_id = None, us_deleted = False,
       us_last_seen_at = None, us_created_at = now, us_updated_at = now \<rparr>"

definition identity_event :: "string \<Rightarrow> auth_user \<Rightarrow> string \<Rightarrow> timestamp \<Rightarrow> audit_context \<Rightarrow> audit_event" where
  "identity_event event_type user i now ctx =
     audit_event_simple event_type ''identity'' (au_subject_id user) (Some i) now ctx"

definition membership_events ::
  "admin_env \<Rightarrow> string \<Rightarrow> auth_user \<Rightarrow> string \<Rightarrow> timestamp \<Rightarrow> audit_context \<Rightarrow> string list \<Rightarrow> audit_event list" where
  "membership_events env event_type user i now ctx groups =
     map (\<lambda>g. (identity_event event_type user i now ctx)
                \<lparr> ae_metadata_json := x_json_text (ad_lib env) (JObj [(''group'', JStr g)]) \<rparr>) groups"

definition user_add_tx :: "admin_env \<Rightarrow> user_add_input \<Rightarrow> auth_user \<Rightarrow> audit_context \<Rightarrow> token \<Rightarrow> unit stx" where
  "user_add_tx env input user ctx t =
     (let now = ad_clock env 0; i = ua_id input in
      thenT (case ua_onboarding_claim input of
               None \<Rightarrow> doneT True
             | Some c \<Rightarrow> claim_onboarding_approved_tx (oc_request_id c) (oc_decided_by c) (oc_decided_at c)
                 (oc_approved_roles c) (oc_approved_groups c) (oc_decision_comment c)) (\<lambda>claimed.
      thenT (checkT claimed (Conflict ''onboarding request already processed'')) (\<lambda>_.
      thenT (user_exists_tx i) (\<lambda>exists.
      thenT (checkT (\<not> exists) (Conflict (''user '' @ quoted i @ '' already exists''))) (\<lambda>_.
      thenT count_active_tx (\<lambda>active.
      thenT (checkT (active < ad_max_users env) (PlanLimit ''user limit reached'')) (\<lambda>_.
      thenT (upsert_user_tx (new_user input now)) (\<lambda>_.
      thenT (case (ua_slack_user_id input, ua_source input) of
               (Some slack_id, Some source) \<Rightarrow> set_slack_user_id_tx i slack_id source
             | _ \<Rightarrow> doneT ()) (\<lambda>_.
      thenT (eachT (\<lambda>g. add_group_member_tx g i) (ua_groups input)) (\<lambda>_.
      thenT (create_token_tx t) (\<lambda>_.
      record_from env 0 (membership_events env ''group.member_added'' user i now ctx (ua_groups input)
        @ [identity_event ''user.created'' user i now ctx]))))))))))))"

definition user_add ::
  "admin_env \<Rightarrow> user_add_input \<Rightarrow> auth_user \<Rightarrow> audit_context \<Rightarrow> (app_error, user_add_output \<times> webhook_event list) io" where
  "user_add env input user ctx =
     thenM (permitM user UserWrite) (\<lambda>_.
     thenM (checkM (user_add_checks input)) (\<lambda>_.
     let effective = granted_roles (av_snapshot (ad_auth env)) (ua_roles input) (ua_groups input) in
     thenM (liftM (guardE (12 \<le> length (ad_raw_token env))
       (Internal ''token generator produced value shorter than 12 chars''))) (\<lambda>_.
     thenM (run_in_tx (ad_faults env)
       (user_add_tx env input user ctx (initial_token env (ua_id input) effective (ad_clock env 0)))) (\<lambda>_.
     thenM (putM (invalidate_cache (ua_id input))) (\<lambda>_.
     liftM (Inr (\<lparr> uo_id = ua_id input, uo_token = ad_raw_token env, uo_token_prefix = extract_prefix (ad_raw_token env),
                    uo_roles = effective, uo_groups = ua_groups input \<rparr>,
                  [identity_webhook ''user.created'' user (ua_id input) '' created'']))))))) "

subsection \<open>Reading\<close>

record user_show_output =
  sh_user :: user_row
  sh_groups :: "string list"
  sh_roles :: "string list"

definition user_show :: "string \<Rightarrow> auth_user \<Rightarrow> (app_error, user_show_output) io" where
  "user_show i user =
     thenM (liftM (map_err Forbidden (authorize_scoped user UserRead db_wildcard env_wildcard (CtxUser i)))) (\<lambda>_.
     checkM (\<lambda>z.
       tryE (ok_or (get_user z i) (NotFound ''user not found'')) (\<lambda>u.
       tryE (guardE (\<not> is_deleted z i) (Gone ''user has been deleted'')) (\<lambda>_.
       Inr \<lparr> sh_user = u, sh_groups = sort (groups_of z i), sh_roles = us_roles u \<rparr>))))"

definition user_list :: "auth_user \<Rightarrow> (app_error, user_row list) io" where
  "user_list user =
     thenM (permitM user UserRead) (\<lambda>_.
     checkM (\<lambda>z. Inr (sort_key (\<lambda>u. - us_created_at u) (filter (\<lambda>u. \<not> us_deleted u) (si_users z)))))"

subsection \<open>Updating a user\<close>

record user_update_input =
  uu_user_id :: string
  uu_set_roles :: "string list option"
  uu_add_roles :: "string list"
  uu_rm_roles :: "string list"
  uu_add_groups :: "string list"
  uu_rm_groups :: "string list"

definition updated_roles :: "user_update_input \<Rightarrow> string list \<Rightarrow> string list" where
  "updated_roles input current =
     (case uu_set_roles input of
        Some roles \<Rightarrow> roles
      | None \<Rightarrow> filter (\<lambda>r. r \<notin> set (uu_rm_roles input)) (foldl push_new current (uu_add_roles input)))"

definition user_update_checks :: "user_update_input \<Rightarrow> site \<Rightarrow> string list app_result" where
  "user_update_checks input z =
     tryE (ok_or (get_user z (uu_user_id input)) (NotFound ''user not found'')) (\<lambda>u.
     tryE (guardE (\<not> is_deleted z (uu_user_id input)) (Gone ''user has been deleted'')) (\<lambda>_.
     tryE (case List.find (\<lambda>g. g \<in> set (uu_rm_groups input)) (uu_add_groups input) of
             Some g \<Rightarrow> Inl (Validation (''group '' @ quoted g @ '' cannot be in both add_groups and rm_groups''))
           | None \<Rightarrow> Inr ()) (\<lambda>_.
     let roles = updated_roles input (us_roles u) in
     tryE (known_roles z roles) (\<lambda>_. Inr roles))))"

text \<open>A resolver that fails counts as admin.\<close>

definition currently_admin :: "admin_env \<Rightarrow> string \<Rightarrow> (app_error, bool) io" where
  "currently_admin env i = (\<lambda>z.
     case resolve (ad_auth env) i SubjUser [] z of
       (Inl _, z') \<Rightarrow> (Inr True, z')
     | (Inr roles, z') \<Rightarrow> (Inr (list_ex (\<lambda>r. rr_name r = ''admin'') roles), z'))"

definition update_needs_guard :: "admin_env \<Rightarrow> user_update_input \<Rightarrow> string list \<Rightarrow> bool \<Rightarrow> site \<Rightarrow> bool" where
  "update_needs_guard env input roles was_admin z =
     (let ags = admin_groups env;
          will_have_direct = ''admin'' \<in> set roles;
          removing_direct = ''admin'' \<in> set (uu_rm_roles input);
          removing_group = list_ex (\<lambda>g. g \<in> set ags) (uu_rm_groups input);
          loses = was_admin \<and> \<not> will_have_direct;
          retains = removing_group
            \<and> list_ex (\<lambda>g. g \<notin> set (uu_rm_groups input) \<and> (g, uu_user_id input) \<in> set (si_members z)) ags;
          adding_group = list_ex (\<lambda>g. g \<in> set ags) (uu_add_groups input)
      in (loses \<or> removing_group \<or> removing_direct) \<and> \<not> will_have_direct \<and> \<not> retains \<and> \<not> adding_group)"

text \<open>The guard of the last administrator.\<close>

definition admin_guard :: "admin_env \<Rightarrow> string \<Rightarrow> string \<Rightarrow> unit stx" where
  "admin_guard env i what =
     thenT (user_has_admin_tx i (admin_groups env)) (\<lambda>has.
     if has then
       thenT (count_admins_tx (admin_groups env)) (\<lambda>n. checkT (\<not> n \<le> 1) (Validation what))
     else doneT ())"

definition user_update_tx ::
  "admin_env \<Rightarrow> user_update_input \<Rightarrow> string list \<Rightarrow> bool \<Rightarrow> auth_user \<Rightarrow> audit_context \<Rightarrow> unit stx" where
  "user_update_tx env input roles was_admin user ctx =
     (let now = ad_clock env 0; i = uu_user_id input in
      thenT (queryT (update_needs_guard env input roles was_admin)) (\<lambda>needs.
      thenT (if needs then admin_guard env i ''cannot remove admin role from the last admin'' else doneT ()) (\<lambda>_.
      thenT (set_roles_tx i roles (ad_clock env 1)) (\<lambda>_.
      thenT (eachT (\<lambda>g. add_group_member_tx g i) (uu_add_groups input)) (\<lambda>_.
      thenT (eachT (\<lambda>g. remove_member_tx g i) (uu_rm_groups input)) (\<lambda>_.
      record_from env 0
        (membership_events env ''group.member_added'' user i now ctx (uu_add_groups input)
         @ membership_events env ''group.member_removed'' user i now ctx (uu_rm_groups input)
         @ [identity_event ''user.updated'' user i now ctx])))))))"

definition user_update ::
  "admin_env \<Rightarrow> user_update_input \<Rightarrow> auth_user \<Rightarrow> audit_context \<Rightarrow> (app_error, webhook_event list) io" where
  "user_update env input user ctx =
     thenM (permitM user UserWrite) (\<lambda>_.
     thenM (checkM (user_update_checks input)) (\<lambda>roles.
     thenM (currently_admin env (uu_user_id input)) (\<lambda>was_admin.
     thenM (checkM (\<lambda>z. known_groups z (uu_add_groups input))) (\<lambda>_.
     thenM (run_in_tx (ad_faults env) (user_update_tx env input roles was_admin user ctx)) (\<lambda>_.
     thenM (putM (invalidate_cache (uu_user_id input))) (\<lambda>_.
     liftM (Inr [identity_webhook ''user.updated'' user (uu_user_id input) '' updated''])))))))"

subsection \<open>Removal, suspension, activation\<close>

definition user_remove_tx :: "admin_env \<Rightarrow> string \<Rightarrow> auth_user \<Rightarrow> audit_context \<Rightarrow> unit stx" where
  "user_remove_tx env i user ctx =
     (let now = ad_clock env 0 in
      thenT (admin_guard env i ''cannot delete the last admin'') (\<lambda>_.
      thenT (soft_delete_tx i now) (\<lambda>_.
      thenT (remove_all_memberships_tx i) (\<lambda>_.
      thenT (revoke_all_for_user i now) (\<lambda>_.
      thenT (in_store (cancel_all_for_user i (au_subject_id user) (Some ''user deleted'') now)) (\<lambda>_.
      recordT env 0 (identity_event ''user.deleted'' user i now ctx)))))))"

definition user_remove :: "admin_env \<Rightarrow> string \<Rightarrow> auth_user \<Rightarrow> audit_context \<Rightarrow> (app_error, webhook_event list) io" where
  "user_remove env i user ctx =
     thenM (permitM user UserWrite) (\<lambda>_.
     thenM (checkM (\<lambda>z. guardE (get_user z i \<noteq> None) (NotFound ''user not found''))) (\<lambda>_.
     thenM (checkM (\<lambda>z. guardE (\<not> is_deleted z i) (Gone ''user already deleted''))) (\<lambda>_.
     thenM (run_in_tx (ad_faults env) (user_remove_tx env i user ctx)) (\<lambda>_.
     thenM (putM (invalidate_cache i)) (\<lambda>_.
     liftM (Inr [identity_webhook ''user.deleted'' user i '' deleted'']))))))"

record user_suspend_output =
  sp_id :: string
  sp_revoked_tokens :: u32
  sp_cancelled_requests :: "string list"

definition user_suspend_tx :: "admin_env \<Rightarrow> string \<Rightarrow> auth_user \<Rightarrow> audit_context \<Rightarrow> (u32 \<times> string list) stx" where
  "user_suspend_tx env i user ctx =
     (let now = ad_clock env 0 in
      thenT (admin_guard env i ''cannot suspend the last admin'') (\<lambda>_.
      thenT (suspend_user i now) (\<lambda>_.
      thenT (revoke_all_for_user i now) (\<lambda>revoked.
      thenT (in_store (cancel_all_for_user i (au_subject_id user) (Some ''user suspended'') now)) (\<lambda>cancelled.
      thenT (recordT env 0 (identity_event ''user.suspended'' user i now ctx)) (\<lambda>_.
      doneT (revoked, cancelled)))))))"

definition user_suspend ::
  "admin_env \<Rightarrow> string \<Rightarrow> auth_user \<Rightarrow> audit_context \<Rightarrow> (app_error, user_suspend_output \<times> webhook_event list) io" where
  "user_suspend env i user ctx =
     thenM (permitM user UserWrite) (\<lambda>_.
     thenM (checkM (\<lambda>z. guardE (get_user z i \<noteq> None) (NotFound ''user not found''))) (\<lambda>_.
     thenM (run_in_tx (ad_faults env) (user_suspend_tx env i user ctx)) (\<lambda>(revoked, cancelled).
     thenM (putM (invalidate_cache i)) (\<lambda>_.
     liftM (Inr (\<lparr> sp_id = i, sp_revoked_tokens = revoked, sp_cancelled_requests = cancelled \<rparr>,
                  [identity_webhook ''user.suspended'' user i '' suspended'']))))))"

definition user_activate_tx :: "admin_env \<Rightarrow> bool \<Rightarrow> string \<Rightarrow> auth_user \<Rightarrow> audit_context \<Rightarrow> unit stx" where
  "user_activate_tx env needs_limit_check i user ctx =
     (let now = ad_clock env 0 in
      thenT (if needs_limit_check
             then thenT count_active_tx (\<lambda>active. checkT (active < ad_max_users env) (PlanLimit ''user limit reached''))
             else doneT ()) (\<lambda>_.
      thenT (activate_user i now) (\<lambda>_.
      recordT env 0 (identity_event ''user.activated'' user i now ctx))))"

definition user_activate :: "admin_env \<Rightarrow> string \<Rightarrow> auth_user \<Rightarrow> audit_context \<Rightarrow> (app_error, webhook_event list) io" where
  "user_activate env i user ctx =
     thenM (permitM user UserWrite) (\<lambda>_.
     thenM (checkM (\<lambda>z. ok_or (get_user z i) (NotFound ''user not found''))) (\<lambda>existing.
     thenM (checkM (\<lambda>z. guardE (\<not> is_deleted z i) (Gone ''user has been deleted''))) (\<lambda>_.
     thenM (run_in_tx (ad_faults env) (user_activate_tx env (us_status existing = UsSuspended) i user ctx)) (\<lambda>_.
     thenM (putM (invalidate_cache i)) (\<lambda>_.
     liftM (Inr [identity_webhook ''user.activated'' user i '' activated'']))))))"

end
