(* ===== verification/Identity_System.thy ===== *)
theory Identity_System
  imports User_Admin
begin

text \<open>
  Sign-in and the administration of users and tokens as one system. A step is one request: an authentication,
  successful or not, or one use case of \<open>Identity\<close> or \<open>User_Admin\<close> with all its outcomes. The invariants are proved
  once for every law-abiding predicate on the tables (locale \<open>user_invariant\<close>) and instantiated for the keys
  and states of rows and for the limit on users; the theorems are about who is let in, who is locked out
  and that an administrator remains.
\<close>

subsection \<open>Steps and invariants\<close>

definition keepsM :: "(site \<Rightarrow> bool) \<Rightarrow> ('e, 'a) io \<Rightarrow> bool" where
  "keepsM P m \<longleftrightarrow> (\<forall>z. P z \<longrightarrow> P (snd (m z)))"

named_theorems keepsM_intros \<open>steps that keep an invariant\<close>

lemma keepsMD: "keepsM P m \<Longrightarrow> P z \<Longrightarrow> m z = (r, z') \<Longrightarrow> P z'"
  by (metis keepsM_def snd_conv)

lemma keepsM_thenM [keepsM_intros]: "keepsM P m \<Longrightarrow> (\<And>x. keepsM P (k x)) \<Longrightarrow> keepsM P (thenM m k)"
  by (auto simp: keepsM_def thenM_def split: prod.splits sum.splits)

lemma keepsM_liftM [keepsM_intros]: "keepsM P (liftM r)"
  by (simp add: keepsM_def liftM_def)

lemma keepsM_checkM [keepsM_intros]: "keepsM P (checkM f)"
  by (simp add: keepsM_def checkM_def)

lemma keepsM_permitM [keepsM_intros]: "keepsM P (permitM user perm)"
  by (simp add: permitM_def keepsM_liftM)

lemma keepsM_look [keepsM_intros]: "keepsM P (\<lambda>z. (f z, z))"
  by (simp add: keepsM_def)

lemma keepsM_readM [keepsM_intros]: "keepsM P (readM env n what f)"
  by (simp add: keepsM_def readM_def)

lemma keepsM_putM: "(\<And>z. P z \<Longrightarrow> P (f z)) \<Longrightarrow> keepsM P (putM f)"
  by (simp add: keepsM_def putM_def)

lemma keepsM_writeM: "(\<And>z. P z \<Longrightarrow> P (f z)) \<Longrightarrow> keepsM P (writeM env n what f)"
  by (simp add: keepsM_def writeM_def split: option.splits)

lemma keepsM_if [keepsM_intros]: "keepsM P m \<Longrightarrow> keepsM P n \<Longrightarrow> keepsM P (if c then m else n)"
  by simp

lemma keepsM_Let [keepsM_intros]: "(\<And>x. keepsM P (k x)) \<Longrightarrow> keepsM P (let x = v in k x)"
  by (simp add: Let_def)

lemma keepsM_prod [keepsM_intros]: "(\<And>a b. keepsM P (k a b)) \<Longrightarrow> keepsM P (case p of (a, b) \<Rightarrow> k a b)"
  by (cases p) simp

lemma keepsM_run [keepsM_intros]: "keeps_inv P f \<Longrightarrow> keepsM P (run_in_tx faults f)"
  by (auto simp: keepsM_def intro: uow.keeps keeps_invD)

text \<open>What the shared parts of transactions and of sign-in rely on: an invariant that ignores the request store, the onboarding
  requests and the recorded logins.\<close>

locale tx_invariant =
  fixes P :: "site \<Rightarrow> bool"
  assumes same: "P z \<Longrightarrow> si_users z' = si_users z \<Longrightarrow> si_tokens z' = si_tokens z \<Longrightarrow> si_members z' = si_members z
      \<Longrightarrow> si_cache z' = si_cache z \<Longrightarrow> P z'"
begin

lemma in_store_keeps [keeps_intros]: "keeps_inv P (in_store m)"
  by (rule keeps_invI) (auto simp: in_store_def res_simps intro: same)

lemma queryT_keeps [keeps_intros]: "keeps_inv P (queryT f)"
  by (simp add: keeps_inv_def queryT_def)

lemma queries_keep [keeps_intros]:
  "keeps_inv P (user_exists_tx i)" "keeps_inv P count_active_tx" "keeps_inv P (user_has_admin_tx i gs)"
  "keeps_inv P (count_admins_tx gs)"
  by (simp_all add: user_exists_tx_def count_active_tx_def user_has_admin_tx_def count_admins_tx_def queryT_keeps)

lemma recordT_keeps [keeps_intros]: "keeps_inv P (recordT env n ev)"
  by (simp add: recordT_def in_store_keeps)

lemma record_from_keeps [keeps_intros]: "keeps_inv P (record_from env n evs)"
  by (induction evs arbitrary: n) (simp_all add: keeps_intros)

lemma eachT_keeps [keeps_intros]: "(\<And>x. keeps_inv P (f x)) \<Longrightarrow> keeps_inv P (eachT f xs)"
  by (induction xs) (simp_all add: keeps_intros)

lemma admin_guard_keeps [keeps_intros]: "keeps_inv P (admin_guard env i what)"
  unfolding admin_guard_def by (intro keeps_intros)

lemma claim_keeps [keeps_intros]: "keeps_inv P (claim_onboarding_approved_tx j b at roles groups c)"
  by (auto simp: claim_onboarding_approved_tx_def Let_def intro!: keeps_invI intro: same)

lemma log_keeps: "P z \<Longrightarrow> P (log_auth_failure env req e z)"
  by (auto simp: log_auth_failure_def log_event_def res_simps split: sum.splits intro: same)

lemma refuse_logged_keeps [keepsM_intros]: "keepsM P (refuse_logged env req e)"
  by (simp add: keepsM_def refuse_logged_def log_keeps)

lemma or_logged_keeps [keepsM_intros]: "keepsM P m \<Longrightarrow> keepsM P (or_logged env req m)"
  by (auto simp: keepsM_def or_logged_def refuse_logged_def split: prod.splits sum.splits) (metis log_keeps snd_conv)+

lemma refuse_suspended_keeps [keepsM_intros]: "keepsM P (refuse_suspended env req n i)"
  unfolding refuse_suspended_def by (intro keepsM_intros)

lemma admit_write_keeps:
  assumes "\<And>z. P z \<Longrightarrow> get_user z i \<noteq> None \<or> count_active z < unat (av_max_users env) \<Longrightarrow> P (f z)"
  shows "keepsM P (thenM (admit_user env req n i) (\<lambda>_. writeM env m what f))"
  using assms log_keeps
  by (auto simp: keepsM_def thenM_def admit_user_def readM_def writeM_def liftM_def refuse_logged_def
      split: option.splits if_splits)

end

text \<open>What sign-in and the use cases on tokens rely on besides: role resolution, the row made for a subject that
  is admitted and the statements on tokens keep the invariant, for the configurations \<open>env_ok\<close>.\<close>

locale site_invariant = tx_invariant +
  fixes env_ok :: "auth_env \<Rightarrow> bool"
  assumes resolves: "env_ok env \<Longrightarrow> keepsM P (resolve env i ty groups)"
    and ensures: "env_ok env \<Longrightarrow> P z \<Longrightarrow> get_user z i \<noteq> None \<or> count_active z < unat (av_max_users env)
      \<Longrightarrow> P (ensure_exists i now z)"
    and create [keeps_intros]: "keeps_inv P (create_token t)"
    and revoke [keeps_intros]: "keeps_inv P (revoke_token i now)"
begin

lemma resolve_user_keeps: "env_ok (ad_auth env) \<Longrightarrow> keepsM P (resolve_user env i ty)"
  using resolves by (auto simp: keepsM_def resolve_user_def split: prod.splits sum.splits) (metis snd_conv)+

lemma currently_admin_keeps: "env_ok (ad_auth env) \<Longrightarrow> keepsM P (currently_admin env i)"
  using resolves by (auto simp: keepsM_def currently_admin_def split: prod.splits sum.splits) (metis snd_conv)+

lemma api_user_keeps: "env_ok env \<Longrightarrow> keepsM P (api_user env req raw)"
  unfolding api_user_def by (intro keepsM_intros resolves)

lemma finish_user_keeps: "env_ok env \<Longrightarrow> keepsM P (finish_user env req user)"
  unfolding finish_user_def by (rule admit_write_keeps ensures keepsM_intros | assumption)+

lemma sign_in_keeps:
  assumes "env_ok env" and "av_accept_oidc env \<Longrightarrow> (\<And>raw. keepsM P (oidc_user env req raw))"
  shows "keepsM P (auth_middleware env req)"
  using assms api_user_keeps finish_user_keeps
  by (auto simp: auth_middleware_def Let_def intro!: keepsM_intros split: option.splits)

lemma token_use_cases_keep:
  assumes "env_ok (ad_auth env)"
  shows "keepsM P (token_create env tinput user ctx)" "keepsM P (token_revoke env i user ctx)"
    "keepsM P (reissue_initial env i user)"
  unfolding token_create_def token_revoke_def reissue_initial_def reissue_tx_def
  by (intro keepsM_intros keeps_intros resolve_user_keeps [OF assms])+

end

text \<open>What a statement other than the activation may do to a row of a user: the identifier stays, suspended stays
  suspended, deleted stays deleted and is suspended.\<close>

definition row_update :: "user_row \<Rightarrow> user_row \<Rightarrow> bool" where
  "row_update u v \<longleftrightarrow> us_id v = us_id u \<and> (us_deleted u \<longrightarrow> us_deleted v)
     \<and> (us_status u = UsSuspended \<longrightarrow> us_status v = UsSuspended)
     \<and> (us_deleted v \<longrightarrow> us_status v = UsSuspended \<or> us_deleted u \<and> us_status v = us_status u)"

text \<open>An invariant of users and tokens: kept by everything that leaves the two tables alone, by lawful updates of
  rows, by a new row while there is room, by the activation of the users in \<open>A\<close> and by the statements on
  tokens.\<close>

locale user_invariant =
  fixes P :: "site \<Rightarrow> bool" and max_users :: nat and A :: "string \<Rightarrow> bool"
  assumes frame: "P z \<Longrightarrow> si_users z' = si_users z \<Longrightarrow> si_tokens z' = si_tokens z \<Longrightarrow> P z'"
    and upd: "P z \<Longrightarrow> (\<And>u. Q u \<Longrightarrow> row_update u (f u)) \<Longrightarrow> P (update_user i Q f z)"
    and new: "P z \<Longrightarrow> get_user z (us_id u) = None \<Longrightarrow> count_active z < max_users \<Longrightarrow> us_status u = UsActive
      \<Longrightarrow> \<not> us_deleted u \<Longrightarrow> P (z\<lparr> si_users := si_users z @ [u] \<rparr>)"
    and activates: "A i \<Longrightarrow> keeps_inv P (activate_user i now)"
    and creates: "keeps_inv P (create_token t)"
    and revokes: "keeps_inv P (revoke_token i now)"
    and revoke_all [keeps_intros]: "keeps_inv P (revoke_all_for_user i now)"

sublocale user_invariant \<subseteq> site_invariant P "\<lambda>env. unat (av_max_users env) = max_users"
proof
  fix env :: auth_env and i ty groups
  show "keepsM P (resolve env i ty groups)"
    by (auto simp: keepsM_def resolve_def Let_def split: option.splits elim: frame)
next
  fix env :: auth_env and z i now
  assume "unat (av_max_users env) = max_users" "P z" "get_user z i \<noteq> None \<or> count_active z < unat (av_max_users env)"
  then show "P (ensure_exists i now z)"
    by (auto simp: ensure_exists_def split: option.splits intro!: new)
qed (auto intro: frame creates revokes)

context user_invariant
begin

lemma update_user_keeps:
  assumes "\<And>u. Q u \<Longrightarrow> row_update u (f u)"
  shows "keeps_inv P (writeT (update_user i Q f))"
  using assms by (auto intro!: keeps_invI simp: writeT_def intro: upd)

lemma user_statements_keep [keeps_intros]:
  "keeps_inv P (suspend_user i now)" "keeps_inv P (set_roles_tx i roles now)" "keeps_inv P (soft_delete_tx i now)"
  by (auto simp: suspend_user_def set_roles_tx_def soft_delete_tx_def row_update_def
      intro!: update_user_keeps)

lemma other_statements_keep [keeps_intros]:
  "keeps_inv P (remove_member_tx g i)" "keeps_inv P (remove_all_memberships_tx i)" "keeps_inv P (create_token_tx t)"
  by (auto simp: remove_member_tx_def remove_all_memberships_tx_def create_token_tx_def writeT_def create
      intro!: keeps_invI intro: frame)

lemma add_group_member_keeps [keeps_intros]: "keeps_inv P (add_group_member_tx g i)"
  by (rule keeps_invI) (auto simp: add_group_member_tx_def split: if_splits elim: frame)

lemma set_slack_keeps [keeps_intros]: "keeps_inv P (set_slack_user_id_tx i slack source)"
  by (auto simp: set_slack_user_id_tx_def row_update_def intro!: keeps_invI upd split: if_splits)

lemma invalidate_keeps [keepsM_intros]: "keepsM P (putM (invalidate_cache i))"
  by (auto intro!: keepsM_putM simp: invalidate_cache_def elim: frame)

text \<open>A new row behind the checks of the transaction.\<close>

lemma add_row_keeps:
  assumes k: "\<And>x. keeps_inv P (k x)" and u: "us_status u = UsActive"
  shows "keeps_inv P (thenT (user_exists_tx (us_id u)) (\<lambda>exists.
      thenT (checkT (\<not> exists) e) (\<lambda>_.
      thenT count_active_tx (\<lambda>active.
      thenT (checkT (active < max_users) e') (\<lambda>_.
      thenT (upsert_user_tx u) k)))))"
proof (rule keeps_invI)
  fix z x z'
  let ?u = "u\<lparr> us_source := ''api'', us_slack_user_id := None, us_deleted := False, us_last_seen_at := None \<rparr>"
  assume "P z" and "thenT (user_exists_tx (us_id u)) (\<lambda>exists.
      thenT (checkT (\<not> exists) e) (\<lambda>_.
      thenT count_active_tx (\<lambda>active.
      thenT (checkT (active < max_users) e') (\<lambda>_.
      thenT (upsert_user_tx u) k)))) z = Inr (x, z')"
  then have "get_user z (us_id u) = None" "count_active z < max_users"
    and run: "k () (z\<lparr> si_users := si_users z @ [?u] \<rparr>) = Inr (x, z')"
    by (auto simp: tx_simps user_exists_tx_def queryT_def count_active_tx_def upsert_user_tx_def writeT_def)
  then have "P (z\<lparr> si_users := si_users z @ [?u] \<rparr>)"
    using \<open>P z\<close> u by (intro new) simp_all
  then show "P z'"
    using keeps_invD [OF k _ run] by blast
qed

lemma thenM_assoc: "thenM m (\<lambda>x. thenM (k x) h) = thenM (thenM m k) h"
  by (rule ext) (simp add: thenM_def split: prod.splits sum.splits)

lemma upsert_keeps:
  assumes "P z" and "get_user z i \<noteq> None \<or> count_active z < max_users"
  shows "P (user_upsert (oidc_row i now) z)"
  using assms by (auto simp: user_upsert_def oidc_row_def row_update_def split: option.splits intro!: new upd)

lemma oidc_user_keeps:
  assumes "unat (av_max_users env) = max_users"
  shows "keepsM P (oidc_user env req raw)"
proof -
  have login: "P z \<Longrightarrow> P (record_login env req i z)" for i z
    by (auto simp: record_login_def log_event_def res_simps split: sum.splits option.splits intro: frame)
  show ?thesis
    unfolding oidc_user_def thenM_assoc [of "admit_user env req 3 _"]
    by (rule admit_write_keeps upsert_keeps keepsM_putM login resolves assms keepsM_intros | (assumption | simp add: assms))+
qed

lemma user_use_cases_keep:
  assumes "unat (av_max_users (ad_auth env)) = max_users"
  shows "keepsM P (user_update env uinput user ctx)" "keepsM P (user_remove env i user ctx)"
    "keepsM P (user_suspend env i user ctx)"
  unfolding user_update_def user_remove_def user_suspend_def user_update_tx_def user_remove_tx_def user_suspend_tx_def
  by (intro keepsM_intros keeps_intros currently_admin_keeps [OF assms])+

lemma user_activate_keeps: "A i \<Longrightarrow> keepsM P (user_activate env i user ctx)"
  unfolding user_activate_def user_activate_tx_def by (intro keepsM_intros keeps_intros activates)

lemma user_add_keeps:
  assumes "ad_max_users env = max_users"
  shows "keepsM P (user_add env input user ctx)"
proof -
  have i: "ua_id input = us_id (new_user input (ad_clock env 0))" by (simp add: new_user_def)
  have a: "us_status (new_user input (ad_clock env 0)) = UsActive" by (simp add: new_user_def)
  have "keeps_inv P (user_add_tx env input user ctx t)" for t
    unfolding user_add_tx_def Let_def assms i
    by (intro keeps_thenT keeps_intros add_row_keeps a)
  then show ?thesis
    unfolding user_add_def by (intro keepsM_intros)
qed

end

subsection \<open>Keys, states of rows and the limit on users\<close>

definition active_initial :: "subject_type \<Rightarrow> string \<Rightarrow> token \<Rightarrow> bool" where
  "active_initial ty i t \<longleftrightarrow> tk_status t = TokActive \<and> tk_provisioning_kind t = Some Initial
     \<and> tk_subject_type t = ty \<and> tk_subject_id t = i"

definition directory_ok :: "site \<Rightarrow> bool" where
  "directory_ok z \<longleftrightarrow> distinct (map us_id (si_users z)) \<and> distinct (map tk_id (si_tokens z))
     \<and> (\<forall>u \<in> set (si_users z). us_deleted u \<longrightarrow> us_status u = UsSuspended)
     \<and> (\<forall>ty i. length (filter (active_initial ty i) (si_tokens z)) \<le> 1)"

lemma filter_revoked:
  "length (filter (active_initial ty i) (upd_where Q (revoke_row now) ts)) \<le> length (filter (active_initial ty i) ts)"
  by (induction ts) (auto simp: upd_where_def active_initial_def revoke_row_def)

lemma create_token_Inr:
  "create_token t z = Inr (x, z') \<longleftrightarrow> z' = z\<lparr> si_tokens := si_tokens z @ [t] \<rparr> \<and> (\<forall>u \<in> set (si_tokens z). tk_id u \<noteq> tk_id t)
     \<and> \<not> (active_initial (tk_subject_type t) (tk_subject_id t) t
           \<and> (\<exists>u \<in> set (si_tokens z). active_initial (tk_subject_type t) (tk_subject_id t) u))"
  by (auto simp: create_token_def res_simps list_ex_iff active_initial_def split: if_splits)

lemma create_keeps_ok: "keeps_inv directory_ok (create_token t)"
proof (rule keeps_invI)
  fix z x z'
  assume ok: "directory_ok z" and run: "create_token t z = Inr (x, z')"
  have "length (filter (active_initial ty i) (si_tokens z @ [t])) \<le> 1" for ty i
  proof (cases "active_initial ty i t")
    case True
    with run have "filter (active_initial ty i) (si_tokens z) = []"
      by (auto simp: create_token_Inr filter_empty_conv active_initial_def)
    then show ?thesis by simp
  next
    case False
    then show ?thesis using ok by (simp add: directory_ok_def)
  qed
  with ok run show "directory_ok z'"
    by (simp add: directory_ok_def create_token_Inr image_iff) metis
qed

lemma update_user_ids:
  assumes "\<And>u. Q u \<Longrightarrow> row_update u (f u)"
  shows "map us_id (si_users (update_user i Q f z)) = map us_id (si_users z)"
  using assms by (auto simp: update_user_def upd_where_def row_update_def)

lemma update_user_mem:
  assumes "v \<in> set (si_users (update_user i Q f z))" and "\<And>u. Q u \<Longrightarrow> row_update u (f u)"
  obtains u where "u \<in> set (si_users z)" and "v = u \<or> row_update u v"
  using assms by (auto simp: update_user_def set_upd_where split: if_splits)

lemma activate_Inr:
  assumes "activate_user i now z = Inr (x, z')"
  shows "si_tokens z' = si_tokens z" and "map us_id (si_users z') = map us_id (si_users z)"
    and "map us_deleted (si_users z') = map us_deleted (si_users z)"
    and "v \<in> set (si_users z') \<Longrightarrow> v \<in> set (si_users z) \<or> us_id v = i \<and> \<not> us_deleted v"
  using assms
  by (auto simp: activate_user_def writeT_def update_user_def upd_where_def split: if_splits)

interpretation rows: user_invariant directory_ok n A for n A
proof
  fix z i Q f
  assume ok: "directory_ok z" and f: "\<And>u. Q u \<Longrightarrow> row_update u (f u)"
  have "us_status v = UsSuspended" if v: "v \<in> set (si_users (update_user i Q f z))" "us_deleted v" for v
  proof -
    obtain u where "u \<in> set (si_users z)" "v = u \<or> row_update u v"
      using update_user_mem [OF v(1) f] .
    with ok v(2) show ?thesis by (auto simp: directory_ok_def row_update_def)
  qed
  moreover have "si_tokens (update_user i Q f z) = si_tokens z" by (simp add: update_user_def)
  ultimately show "directory_ok (update_user i Q f z)"
    using ok update_user_ids [of Q f i z, OF f] by (simp add: directory_ok_def)
next
  fix i now
  show "keeps_inv directory_ok (activate_user i now)"
    by (rule keeps_invI) (auto simp: directory_ok_def activate_Inr dest: activate_Inr(4))
  show "keeps_inv directory_ok (revoke_token i now)" "keeps_inv directory_ok (revoke_all_for_user i now)"
    by (auto intro!: keeps_invI order_trans [OF filter_revoked]
        simp: directory_ok_def revoke_token_def revoke_all_for_user_def Let_def map_upd_where revoke_row_def)
qed (auto simp: directory_ok_def get_user_def find_row_None create_keeps_ok)

interpretation users: keyed_table si_users us_id directory_ok
  by unfold_locales (simp add: directory_ok_def)

interpretation tokens: keyed_table si_tokens tk_id directory_ok
  by unfold_locales (simp add: directory_ok_def)

lemma get_user_iff: "directory_ok z \<Longrightarrow> get_user z i = Some u \<longleftrightarrow> u \<in> set (si_users z) \<and> us_id u = i"
  unfolding get_user_def by (rule users.lookup_iff)

lemma length_filter_map_le: "(\<And>x. x \<in> set xs \<Longrightarrow> R (g x) \<Longrightarrow> R x) \<Longrightarrow> length (filter R (map g xs)) \<le> length (filter R xs)"
  by (induction xs) auto

lemma count_active_map: "count_active z = length (filter Not (map us_deleted (si_users z)))"
  by (simp add: count_active_def filter_map o_def)

interpretation room: user_invariant "\<lambda>z. count_active z \<le> n" n A for n A
proof
  fix z i Q f
  assume n: "count_active z \<le> n" and f: "\<And>u. Q u \<Longrightarrow> row_update u (f u)"
  have "si_users (update_user i Q f z) = map (\<lambda>r. if us_id r = i \<and> Q r then f r else r) (si_users z)"
    by (simp add: update_user_def upd_where_def)
  then have "count_active (update_user i Q f z) \<le> count_active z"
    using f by (auto simp only: count_active_def row_update_def split: if_splits intro!: length_filter_map_le)
  with n show "count_active (update_user i Q f z) \<le> n" by simp
next
  fix i t now
  show "keeps_inv (\<lambda>z. count_active z \<le> n) (activate_user i now)"
    by (rule keeps_invI) (auto simp: count_active_map activate_Inr)
  show "keeps_inv (\<lambda>z. count_active z \<le> n) (create_token t)" "keeps_inv (\<lambda>z. count_active z \<le> n) (revoke_token i now)"
    "keeps_inv (\<lambda>z. count_active z \<le> n) (revoke_all_for_user i now)"
    by (auto intro!: keeps_invI simp: create_token_Inr revoke_token_def revoke_all_for_user_def Let_def count_active_def)
qed (auto simp: count_active_def)

subsection \<open>The system\<close>

text \<open>One request to a server with a fixed configuration of roles, a fixed limit on users and sign-in with OpenID
  tokens switched on or off, where only users in \<open>A\<close> are activated. The use cases on requests change the
  request store only.\<close>

definition serves :: "resolver_snapshot \<Rightarrow> nat \<Rightarrow> bool \<Rightarrow> auth_env \<Rightarrow> bool" where
  "serves snap limit oidc env \<longleftrightarrow>
     av_snapshot env = snap \<and> unat (av_max_users env) = limit \<and> av_accept_oidc env = oidc"

inductive identity_step :: "resolver_snapshot \<Rightarrow> nat \<Rightarrow> bool \<Rightarrow> (string \<Rightarrow> bool) \<Rightarrow> site \<Rightarrow> site \<Rightarrow> bool"
  for snap :: resolver_snapshot and limit :: nat and oidc :: bool and A :: "string \<Rightarrow> bool" where
  sign_in: "serves snap limit oidc env \<Longrightarrow> identity_step snap limit oidc A z (snd (auth_middleware env req z))"
| create_token: "serves snap limit oidc (ad_auth env) \<Longrightarrow> identity_step snap limit oidc A z (snd (token_create env tin user ctx z))"
| revoke_token: "serves snap limit oidc (ad_auth env) \<Longrightarrow> identity_step snap limit oidc A z (snd (token_revoke env i user ctx z))"
| reissue_token: "serves snap limit oidc (ad_auth env) \<Longrightarrow> identity_step snap limit oidc A z (snd (reissue_initial env i user z))"
| add_user: "serves snap limit oidc (ad_auth env) \<Longrightarrow> identity_step snap limit oidc A z (snd (user_add env ain user ctx z))"
| update_user: "serves snap limit oidc (ad_auth env) \<Longrightarrow> identity_step snap limit oidc A z (snd (user_update env uin user ctx z))"
| remove_user: "serves snap limit oidc (ad_auth env) \<Longrightarrow> identity_step snap limit oidc A z (snd (user_remove env i user ctx z))"
| suspend_user: "serves snap limit oidc (ad_auth env) \<Longrightarrow> identity_step snap limit oidc A z (snd (user_suspend env i user ctx z))"
| activate_user: "serves snap limit oidc (ad_auth env) \<Longrightarrow> A i \<Longrightarrow> identity_step snap limit oidc A z (snd (user_activate env i user ctx z))"
| handle_request: "identity_step snap limit oidc A z (z\<lparr> si_store := s \<rparr>)"

inductive_cases identity_stepE: "identity_step snap limit oidc A z z'"

context user_invariant
begin

lemma step_keeps:
  assumes "identity_step snap max_users oidc A z z'" and "P z"
  shows "P z'"
  using assms
proof (cases rule: identity_step.cases)
  case (handle_request s)
  with assms show ?thesis by (auto elim: frame)
qed (use sign_in_keeps oidc_user_keeps token_use_cases_keep user_use_cases_keep user_activate_keeps user_add_keeps assms(2)
     in \<open>auto simp: keepsM_def serves_def ad_max_users_def\<close>)

end

text \<open>A new installation: no users, or the rows of the configuration.\<close>

interpretation identity: transition_system "\<lambda>z. directory_ok z \<and> count_active z \<le> limit" "identity_step snap limit oidc A"
    "\<lambda>z. directory_ok z \<and> count_active z \<le> limit" for snap limit oidc A
  by unfold_locales (auto dest: rows.step_keeps room.step_keeps)

end
