(* ===== verification/Access.thy ===== *)
theory Access
  imports Identity_System
begin

text \<open>
  Who is let in and who is locked out: an administrator remains, the middleware admits only live tokens
  within their ceilings, suspended and removed users stay out, issued tokens work.
\<close>

subsection \<open>An administrator remains\<close>

definition is_admin :: "string list \<Rightarrow> site \<Rightarrow> string \<Rightarrow> bool" where
  "is_admin ags z i \<longleftrightarrow> (\<exists>u \<in> set (si_users z). us_id u = i \<and> live_user u \<and> admin_row ags z u)"

definition claims_admin :: "string list \<Rightarrow> site \<Rightarrow> string \<Rightarrow> bool" where
  "claims_admin ags z i \<longleftrightarrow>
     (\<exists>u. get_user z i = Some u \<and> \<not> us_deleted u \<and> ''admin'' \<in> set (us_roles u)) \<or> (\<exists>g \<in> set ags. (g, i) \<in> set (si_members z))"

text \<open>The cache never hides that somebody is an administrator.\<close>

definition cache_ok :: "string list \<Rightarrow> site \<Rightarrow> bool" where
  "cache_ok ags z \<longleftrightarrow>
     (\<forall>i names at. si_cache z i = Some (names, at) \<longrightarrow> claims_admin ags z i \<longrightarrow> ''admin'' \<in> set names)"

definition snapshot_ok :: "resolver_snapshot \<Rightarrow> bool" where
  "snapshot_ok snap \<longleftrightarrow>
     (\<forall>n r. sn_roles snap n = Some r \<longrightarrow> rr_name r = n) \<and> sn_roles snap ''admin'' \<noteq> None"

abbreviation ags_of :: "resolver_snapshot \<Rightarrow> string list" where
  "ags_of snap \<equiv> groups_granting_role snap ''admin''"

definition admin_ok :: "resolver_snapshot \<Rightarrow> site \<Rightarrow> bool" where
  "admin_ok snap z \<longleftrightarrow> snapshot_ok snap \<and> directory_ok z \<and> cache_ok (ags_of snap) z \<and> (\<exists>i. is_admin (ags_of snap) z i)"

lemma cache_okD:
  "cache_ok ags z \<Longrightarrow> si_cache z i = Some (names, at) \<Longrightarrow> claims_admin ags z i \<Longrightarrow> ''admin'' \<in> set names"
  by (simp add: cache_ok_def) metis

lemma foldl_keeps: "Q m \<Longrightarrow> (\<And>m d. Q m \<Longrightarrow> Q (f m d)) \<Longrightarrow> Q (foldl f m ds)"
  by (induction ds arbitrary: m) auto

lemma new_snapshot_ok: "snapshot_ok (new_snapshot group_roles defs default_role)"
proof -
  let ?ok = "\<lambda>m :: string \<rightharpoonup> resolved_role. (\<forall>n r. m n = Some r \<longrightarrow> rr_name r = n) \<and> m ''admin'' \<noteq> None"
  have "\<forall>(n, r) \<in> set builtin_roles. rr_name r = n"
    by (simp add: builtin_roles_def every_perm_def)
  then have "\<forall>n r. map_of builtin_roles n = Some r \<longrightarrow> rr_name r = n"
    by (auto dest: map_of_SomeD)
  moreover have "map_of builtin_roles ''admin'' \<noteq> None"
    by (simp add: builtin_roles_def)
  moreover have "?ok (m(rd_name d \<mapsto> resolved_of d))" if "?ok m" for m d
    using that by (simp add: resolved_of_def del: not_None_eq)
  ultimately have "?ok (foldl (\<lambda>m d. m(rd_name d \<mapsto> resolved_of d)) (map_of builtin_roles) defs)"
    by (intro foldl_keeps [where Q = ?ok]) blast+
  then show ?thesis
    unfolding snapshot_ok_def new_snapshot_def by (subst resolver_snapshot.simps)+
qed

lemma set_push_new: "set (foldl push_new xs ys) = set xs \<union> set ys"
  by (induction ys arbitrary: xs) (auto simp: push_new_def)

lemma db_names_admin:
  assumes "claims_admin (ags_of snap) z i"
  shows "''admin'' \<in> set (fst (resolve_from_db snap z i groups))"
proof -
  let ?direct = "case get_user z i of Some u \<Rightarrow> if us_deleted u then [] else us_roles u | None \<Rightarrow> []"
  let ?names = "remdups (?direct @ concat (map (roles_for_group snap) (foldl push_new (groups_of z i) groups)))"
  have "''admin'' \<in> set ?names"
    using assms by (auto simp: claims_admin_def groups_of_def groups_granting_role_def set_push_new image_iff)
  then have "?names \<noteq> []" by (metis empty_iff empty_set)
  then have "fst (resolve_from_db snap z i groups) = ?names"
    by (auto simp only: resolve_from_db_def Let_def fst_conv split: list.split)
  with \<open>''admin'' \<in> set ?names\<close> show ?thesis by (simp only:)
qed

lemma resolved_admin:
  assumes "snapshot_ok snap" and "''admin'' \<in> set names"
  shows "''admin'' \<in> rr_name ` set (resolve_role_names snap z names)"
proof -
  obtain r where "sn_roles snap ''admin'' = Some r" "rr_name r = ''admin''"
    using assms(1) by (auto simp: snapshot_ok_def)
  with assms(2) have "r \<in> set (List.map_filter (sn_roles snap) names)"
    by (force simp: List.map_filter_def)
  with \<open>rr_name r = ''admin''\<close> show ?thesis
    by (force simp: resolve_role_names_def Let_def)
qed

lemma resolve_frame:
  "si_users (snd (resolve env i ty groups z)) = si_users z" "si_members (snd (resolve env i ty groups z)) = si_members z"
  "si_tokens (snd (resolve env i ty groups z)) = si_tokens z" "si_store (snd (resolve env i ty groups z)) = si_store z"
  by (auto simp: resolve_def Let_def split: option.splits)

lemma cache_ok_resolve:
  assumes "snapshot_ok (av_snapshot env)" and "cache_ok (ags_of (av_snapshot env)) z"
  shows "cache_ok (ags_of (av_snapshot env)) (snd (resolve env i ty groups z))"
proof -
  let ?ags = "ags_of (av_snapshot env)" and ?z = "snd (resolve env i ty groups z)"
  let ?roles = "resolve_role_names (av_snapshot env) z (fst (resolve_from_db (av_snapshot env) z i []))"
  have claims: "claims_admin ?ags ?z = claims_admin ?ags z"
    by (rule ext) (simp add: claims_admin_def get_user_def resolve_frame)
  have "si_cache ?z = si_cache z \<or> (\<exists>at. si_cache ?z = (si_cache z)(i \<mapsto> (map rr_name ?roles, at)))"
    by (auto simp: resolve_def Let_def split: option.splits)
  moreover have "claims_admin ?ags z i \<Longrightarrow> ''admin'' \<in> set (map rr_name ?roles)"
    using resolved_admin [OF assms(1) db_names_admin] by auto
  ultimately have "''admin'' \<in> set names" if "si_cache ?z j = Some (names, at)" "claims_admin ?ags ?z j" for j names at
    using that cache_okD [OF assms(2)] unfolding claims by (cases "j = i") (auto simp del: split_paired_Ex)
  then show ?thesis unfolding cache_ok_def by blast
qed

lemma resolve_admin:
  assumes "snapshot_ok (av_snapshot env)" and "cache_ok (ags_of (av_snapshot env)) z"
    and "claims_admin (ags_of (av_snapshot env)) z i" and "fst (resolve env i SubjUser [] z) = Inr roles"
  shows "''admin'' \<in> rr_name ` set roles"
proof -
  have "\<exists>names. ''admin'' \<in> set names \<and> roles = resolve_role_names (av_snapshot env) z names"
  proof (cases "cached env z i")
    case None
    then have "roles = resolve_role_names (av_snapshot env) z (fst (resolve_from_db (av_snapshot env) z i []))"
      using assms(4) by (auto simp: resolve_def Let_def split: option.splits)
    with db_names_admin [OF assms(3)] show ?thesis by blast
  next
    case (Some names)
    then have "''admin'' \<in> set names"
      using cache_okD [OF assms(2) _ assms(3)] by (auto simp: cached_def split: option.splits if_splits)
    with Some assms(4) show ?thesis by (auto simp: resolve_def)
  qed
  then show ?thesis using resolved_admin [OF assms(1)] by blast
qed

text \<open>A transaction about one user leaves everybody else as they were.\<close>

definition touches :: "string \<Rightarrow> site \<Rightarrow> site \<Rightarrow> bool" where
  "touches i z z' \<longleftrightarrow> filter (\<lambda>u. us_id u \<noteq> i) (si_users z') = filter (\<lambda>u. us_id u \<noteq> i) (si_users z)
     \<and> filter (\<lambda>m. snd m \<noteq> i) (si_members z') = filter (\<lambda>m. snd m \<noteq> i) (si_members z) \<and> si_cache z' = si_cache z"

lemma touches_refl: "touches i z z"
  by (simp add: touches_def)

interpretation touch: tx_invariant "touches i z" for i z
  by unfold_locales (simp add: touches_def)

lemma other_users_upd:
  "(\<And>u. us_id (f u) = us_id u)
    \<Longrightarrow> filter (\<lambda>u. us_id u \<noteq> i) (upd_where (\<lambda>u. us_id u = i \<and> Q u) f us) = filter (\<lambda>u. us_id u \<noteq> i) us"
  by (induction us) (auto simp: upd_where_def)

lemma update_user_touches:
  "(\<And>u. us_id (f u) = us_id u) \<Longrightarrow> touches i z y \<Longrightarrow> touches i z (update_user i Q f y)"
  by (simp add: touches_def update_user_def other_users_upd)

lemma statements_touch [keeps_intros]:
  "keeps_inv (touches i z) (suspend_user i now)" "keeps_inv (touches i z) (activate_user i now)"
  "keeps_inv (touches i z) (set_roles_tx i roles now)" "keeps_inv (touches i z) (soft_delete_tx i now)"
  "keeps_inv (touches i z) (set_slack_user_id_tx i slack source)"
  by (auto intro!: keeps_invI update_user_touches split: if_splits
      simp: writeT_def suspend_user_def activate_user_def set_roles_tx_def soft_delete_tx_def set_slack_user_id_tx_def)

lemma memberships_touch [keeps_intros]:
  "keeps_inv (touches i z) (add_group_member_tx g i)" "keeps_inv (touches i z) (remove_member_tx g i)"
  "keeps_inv (touches i z) (remove_all_memberships_tx i)"
proof -
  have "filter (\<lambda>m. snd m \<noteq> i) (filter (\<lambda>m. m \<noteq> (g, i)) ms) = filter (\<lambda>m. snd m \<noteq> i) ms"
    "filter (\<lambda>m. snd m \<noteq> i) (filter (\<lambda>(g, u). u \<noteq> i) ms) = filter (\<lambda>m. snd m \<noteq> i) ms" for ms
    by (auto intro: filter_cong)
  then show "keeps_inv (touches i z) (add_group_member_tx g i)" "keeps_inv (touches i z) (remove_member_tx g i)"
    "keeps_inv (touches i z) (remove_all_memberships_tx i)"
    by (auto intro!: keeps_invI split: if_splits
        simp: writeT_def touches_def add_group_member_tx_def remove_member_tx_def remove_all_memberships_tx_def
        simp del: filter_filter)
qed

lemma upsert_touches [keeps_intros]:
  "us_id u = i \<Longrightarrow> keeps_inv (touches i z) (upsert_user_tx u)"
  by (auto intro!: keeps_invI update_user_touches split: option.splits simp: writeT_def upsert_user_tx_def)
    (simp add: touches_def)

lemma tokens_touch [keeps_intros]:
  "keeps_inv (touches i z) (create_token t)" "keeps_inv (touches i z) (create_token_tx t)"
  "keeps_inv (touches i z) (revoke_all_for_user i now)"
  by (auto intro!: keeps_invI simp: touches_def create_token_tx_def create_token_Inr revoke_all_for_user_def Let_def)


lemma find_row_filter: "j \<noteq> i \<Longrightarrow> find_row (\<lambda>u. us_id u = j) (filter (\<lambda>u. us_id u \<noteq> i) us) = find_row (\<lambda>u. us_id u = j) us"
  by (induction us) (auto simp: find_row_def)

lemma touches_frame:
  assumes "touches i z z'" and "j \<noteq> i"
  shows "get_user z' j = get_user z j" and "(g, j) \<in> set (si_members z') \<longleftrightarrow> (g, j) \<in> set (si_members z)"
    and "is_admin ags z' j \<longleftrightarrow> is_admin ags z j" and "claims_admin ags z' j \<longleftrightarrow> claims_admin ags z j"
proof -
  show get: "get_user z' j = get_user z j"
    using find_row_filter [OF assms(2), of "si_users z"] find_row_filter [OF assms(2), of "si_users z'"] assms(1)
    by (simp add: touches_def get_user_def)
  have mem: "(g, j) \<in> set (si_members z') \<longleftrightarrow> (g, j) \<in> set (si_members z)" for g
  proof -
    have "set (filter (\<lambda>m. snd m \<noteq> i) (si_members z')) = set (filter (\<lambda>m. snd m \<noteq> i) (si_members z))"
      using assms(1) by (simp add: touches_def)
    from arg_cong [OF this, of "\<lambda>S. (g, j) \<in> S"] assms(2) show ?thesis by simp
  qed
  then show "(g, j) \<in> set (si_members z') \<longleftrightarrow> (g, j) \<in> set (si_members z)" .
  show "claims_admin ags z' j \<longleftrightarrow> claims_admin ags z j"
    by (simp add: claims_admin_def get mem)
  have "set (filter (\<lambda>u. us_id u \<noteq> i) (si_users z')) = set (filter (\<lambda>u. us_id u \<noteq> i) (si_users z))"
    using assms(1) by (simp add: touches_def)
  then have row: "u \<in> set (si_users z') \<longleftrightarrow> u \<in> set (si_users z)" if "us_id u = j" for u
    using assms(2) that by auto
  have "admin_row ags z' u = admin_row ags z u" if "us_id u = j" for u
    using that mem by (auto simp: admin_row_def list_ex_iff)
  with row show "is_admin ags z' j \<longleftrightarrow> is_admin ags z j"
    by (auto simp: is_admin_def)
qed

lemma touches_admin_ok:
  assumes "admin_ok snap z" and "touches i z z'" and "directory_ok z'"
    and "(\<exists>j. j \<noteq> i \<and> is_admin (ags_of snap) z j) \<or> is_admin (ags_of snap) z' i"
  shows "admin_ok snap (invalidate_cache i z')"
proof -
  have "cache_ok (ags_of snap) (invalidate_cache i z')"
    unfolding cache_ok_def
  proof (intro allI impI)
    fix j names at
    assume c: "si_cache (invalidate_cache i z') j = Some (names, at)"
      and a: "claims_admin (ags_of snap) (invalidate_cache i z') j"
    then have j: "j \<noteq> i" and "si_cache z j = Some (names, at)"
      using assms(2) by (auto simp: invalidate_cache_def touches_def split: if_splits)
    moreover have "claims_admin (ags_of snap) z j"
      using a touches_frame(4) [OF assms(2) j] by (simp add: claims_admin_def invalidate_cache_def get_user_def)
    ultimately show "''admin'' \<in> set names"
      using assms(1) cache_okD unfolding admin_ok_def by blast
  qed
  moreover have "\<exists>j. is_admin (ags_of snap) z' j"
    using assms(4) touches_frame(3) [OF assms(2)] by blast
  then have "\<exists>j. is_admin (ags_of snap) (invalidate_cache i z') j"
    by (simp add: is_admin_def invalidate_cache_def admin_row_def)
  ultimately show ?thesis
    using assms(1,3) by (simp add: admin_ok_def directory_ok_def invalidate_cache_def)
qed

lemma admin_guard_passes:
  assumes "admin_guard env i what z = Inr (x, z')"
  shows "z' = z" and "is_admin (admin_groups env) z i \<Longrightarrow> \<exists>j. j \<noteq> i \<and> is_admin (admin_groups env) z j"
proof -
  show "z' = z"
    using assms by (auto simp: admin_guard_def tx_simps user_has_admin_tx_def count_admins_tx_def queryT_def split: if_splits)
  let ?ids = "map us_id (filter (\<lambda>u. live_user u \<and> admin_row (admin_groups env) z u) (si_users z))"
  assume i: "is_admin (admin_groups env) z i"
  then have "list_ex (\<lambda>u. us_id u = i \<and> ''admin'' \<in> set (us_roles u)) (si_users z)
      \<or> list_ex (\<lambda>(g, u). u = i \<and> g \<in> set (admin_groups env)) (si_members z)"
    by (auto simp: is_admin_def admin_row_def list_ex_iff)
  with assms have "1 < length (remdups ?ids)"
    by (auto simp: admin_guard_def tx_simps user_has_admin_tx_def count_admins_tx_def queryT_def count_admins_def
        split: if_splits)
  then have "\<not> set ?ids \<subseteq> {i}"
    using card_mono [of "{i}" "set ?ids"] by (auto simp: length_remdups_card_conv simp del: set_map)
  then show "\<exists>j. j \<noteq> i \<and> is_admin (admin_groups env) z j"
    by (auto simp: is_admin_def)
qed


lemma guarded_other:
  assumes "admin_ok snap z" and "av_snapshot (ad_auth env) = snap" and "admin_guard env i what z = Inr (x, z')"
  shows "\<exists>j. j \<noteq> i \<and> is_admin (ags_of snap) z j"
proof -
  obtain j where "is_admin (ags_of snap) z j"
    using assms(1) by (auto simp: admin_ok_def)
  then show ?thesis
    using admin_guard_passes(2) [OF assms(3)] assms(2) unfolding admin_groups_def by (cases "j = i") blast+
qed

lemma commit_at:
  assumes ok: "admin_ok snap z"
    and "\<And>x y. body z = Inr (x, y) \<Longrightarrow> touches i z y \<and> directory_ok y
      \<and> ((\<exists>j. j \<noteq> i \<and> is_admin (ags_of snap) z j) \<or> is_admin (ags_of snap) y i)"
    and "\<And>x y. snd (k x y) = invalidate_cache i y"
  shows "admin_ok snap (snd (thenM (run_in_tx faults body) k z))"
proof (cases "run_in_tx faults body z")
  case (Pair r y)
  show ?thesis
  proof (cases r)
    case (Inl e)
    with Pair ok uow.fails [OF Pair [unfolded Inl]] show ?thesis by (simp add: thenM_def)
  next
    case (Inr x)
    have "admin_ok snap (invalidate_cache i y)"
      using assms(2) [OF uow.commits [OF Pair [unfolded Inr]]] ok by (blast intro: touches_admin_ok)
    with Pair Inr assms(3) show ?thesis by (simp add: thenM_def)
  qed
qed

lemma effect_of:
  assumes "keeps_inv (touches i z) body" and "keeps_inv directory_ok body" and "admin_ok snap z" and "body z = Inr (x, y)"
  shows "touches i z y" and "directory_ok y"
  using assms keeps_invD [OF assms(1) touches_refl] keeps_invD [OF assms(2)] by (auto simp: admin_ok_def)

text \<open>What a transaction about user \<open>i\<close> has to show: another administrator was there, or \<open>i\<close> is one at the end.\<close>

definition safe_tx :: "resolver_snapshot \<Rightarrow> string \<Rightarrow> 'a stx \<Rightarrow> bool" where
  "safe_tx snap i body \<longleftrightarrow>
     (\<forall>z x y. admin_ok snap z \<longrightarrow> body z = Inr (x, y)
        \<longrightarrow> (\<exists>j. j \<noteq> i \<and> is_admin (ags_of snap) z j) \<or> is_admin (ags_of snap) y i)"

lemma safe_commit_keeps:
  assumes "safe_tx snap i body" and "\<And>z. keeps_inv (touches i z) body" and "keeps_inv directory_ok body"
    and "\<And>x y. snd (k x y) = invalidate_cache i y"
  shows "keepsM (admin_ok snap) (thenM (run_in_tx faults body) k)"
  using assms(1,4) effect_of [OF assms(2,3)] unfolding keepsM_def by (intro allI impI commit_at) (auto simp: safe_tx_def)

lemma check_then: "snd (thenM (checkM f) k z) = (case f z of Inl _ \<Rightarrow> z | Inr x \<Rightarrow> snd (k x z))"
  by (simp add: thenM_def checkM_def split: sum.splits)

lemma end_simps: "snd (thenM (putM f) (\<lambda>_. liftM r) y) = f y"
  by (simp add: thenM_def putM_def liftM_def)

lemma remove_keeps_admin:
  assumes "av_snapshot (ad_auth env) = snap"
  shows "keepsM (admin_ok snap) (user_remove env i user ctx)"
proof -
  have "safe_tx snap i (user_remove_tx env i user ctx)"
    using assms by (auto simp: safe_tx_def user_remove_tx_def Let_def thenT_Inr dest: guarded_other)
  moreover have "keeps_inv (touches i z) (user_remove_tx env i user ctx)" "keeps_inv directory_ok (user_remove_tx env i user ctx)" for z
    unfolding user_remove_tx_def by (intro keeps_intros)+
  ultimately show ?thesis
    unfolding user_remove_def
    by (auto intro!: keepsM_permitM keepsM_checkM keepsM_thenM [of _ "permitM user UserWrite"]
        keepsM_thenM [of _ "checkM _"] safe_commit_keeps simp: end_simps)
qed

lemma suspend_keeps_admin:
  assumes "av_snapshot (ad_auth env) = snap"
  shows "keepsM (admin_ok snap) (user_suspend env i user ctx)"
proof -
  have "safe_tx snap i (user_suspend_tx env i user ctx)"
    using assms by (auto simp: safe_tx_def user_suspend_tx_def Let_def thenT_Inr dest: guarded_other)
  moreover have "keeps_inv (touches i z) (user_suspend_tx env i user ctx)" "keeps_inv directory_ok (user_suspend_tx env i user ctx)" for z
    unfolding user_suspend_tx_def by (intro keeps_intros)+
  ultimately show ?thesis
    unfolding user_suspend_def
    by (auto intro!: keepsM_permitM keepsM_checkM keepsM_thenM [of _ "permitM user UserWrite"]
        keepsM_thenM [of _ "checkM _"] safe_commit_keeps simp: end_simps split: prod.splits)
qed


interpretation adm: tx_invariant "\<lambda>y. is_admin ags y i" for ags i
  by unfold_locales (simp add: is_admin_def admin_row_def)

lemma activate_keeps_admin:
  assumes "av_snapshot (ad_auth env) = snap"
  shows "keepsM (admin_ok snap) (user_activate env i user ctx)"
proof -
  have "keeps_inv (\<lambda>y. is_admin ags y i) (activate_user i now)" for ags now
  proof (rule keeps_invI)
    fix s x s'
    assume "is_admin ags s i" and run: "activate_user i now s = Inr (x, s')"
    then obtain u where u: "u \<in> set (si_users s)" "us_id u = i" "live_user u" "admin_row ags s u"
      by (auto simp: is_admin_def)
    then have "u \<in> set (si_users s')"
      using run by (force simp: activate_user_def writeT_def update_user_def set_upd_where live_user_def)
    moreover have "admin_row ags s' u"
      using run u(4) by (auto simp: activate_user_def writeT_def update_user_def admin_row_def)
    ultimately show "is_admin ags s' i" using u by (auto simp: is_admin_def)
  qed
  then have "keeps_inv (\<lambda>y. is_admin (ags_of snap) y i) (user_activate_tx env c i user ctx)" for c
    unfolding user_activate_tx_def by (intro keeps_intros)
  then have "safe_tx snap i (user_activate_tx env c i user ctx)" for c
    unfolding safe_tx_def keeps_inv_def admin_ok_def by metis
  moreover have "keeps_inv (touches i z) (user_activate_tx env c i user ctx)" "keeps_inv directory_ok (user_activate_tx env c i user ctx)" for z c
    unfolding user_activate_tx_def by (intro keeps_intros rows.activates [where A = "\<lambda>_. True"] TrueI)+
  ultimately show ?thesis
    unfolding user_activate_def
    by (auto intro!: keepsM_permitM keepsM_checkM keepsM_thenM [of _ "permitM user UserWrite"]
        keepsM_thenM [of _ "checkM _"] safe_commit_keeps simp: end_simps)
qed

lemma add_keeps_admin: "keepsM (admin_ok snap) (user_add env input user ctx)"
proof -
  let ?i = "ua_id input" and ?u = "new_user input (ad_clock env 0)"
  have id: "us_id ?u = ?i" and st: "us_status ?u = UsActive" by (simp_all add: new_user_def)
  have "\<exists>j. j \<noteq> ?i \<and> is_admin (ags_of snap) z j"
    if ok: "admin_ok snap z" and run: "user_add_tx env input user ctx t z = Inr (x, y)" for t z x y
  proof -
    obtain claimed z1 where claim: "(case ua_onboarding_claim input of
               None \<Rightarrow> doneT True
             | Some c \<Rightarrow> claim_onboarding_approved_tx (oc_request_id c) (oc_decided_by c) (oc_decided_at c)
                 (oc_approved_roles c) (oc_approved_groups c) (oc_decision_comment c)) z = Inr (claimed, z1)"
      and none: "get_user z1 ?i = None"
      using run unfolding user_add_tx_def Let_def
      by (subst (asm) thenT_Inr) (auto simp: tx_simps user_exists_tx_def queryT_def)
    have "si_users z1 = si_users z"
      using claim by (auto simp: claim_onboarding_approved_tx_def Let_def split: option.splits)
    with none ok show ?thesis
      by (auto simp: admin_ok_def is_admin_def get_user_def find_row_None)
  qed
  then have "safe_tx snap ?i (user_add_tx env input user ctx t)" for t
    by (auto simp: safe_tx_def)
  moreover have "keeps_inv (touches ?i z) (user_add_tx env input user ctx t)" for z t
    unfolding user_add_tx_def Let_def by (intro keeps_intros id)
  moreover have "keeps_inv directory_ok (user_add_tx env input user ctx t)" for t
    unfolding user_add_tx_def Let_def id [symmetric]
    by (intro keeps_intros rows.add_row_keeps [where n = "ad_max_users env"] st)
  ultimately show ?thesis
    unfolding user_add_def
    by (auto intro!: keepsM_permitM keepsM_checkM keepsM_thenM [of _ "permitM user UserWrite"] keepsM_liftM keepsM_Let
        keepsM_thenM [of _ "checkM _"] keepsM_thenM [of _ "liftM _"] safe_commit_keeps simp: end_simps Let_def)
qed


text \<open>The rows and memberships after an update.\<close>

lemma eachT_add_members:
  assumes "eachT (\<lambda>g. add_group_member_tx g i) gs z = Inr (x, z')"
  shows "si_users z' = si_users z" and "set (si_members z') = set (si_members z) \<union> (\<lambda>g. (g, i)) ` set gs"
  using assms
  by (induction gs arbitrary: z) (auto simp: tx_simps add_group_member_tx_def split: if_splits; fastforce)+

lemma eachT_remove_members:
  assumes "eachT (\<lambda>g. remove_member_tx g i) gs z = Inr (x, z')"
  shows "si_users z' = si_users z" and "set (si_members z') = set (si_members z) - (\<lambda>g. (g, i)) ` set gs"
  using assms by (induction gs arbitrary: z) (auto simp: tx_simps remove_member_tx_def writeT_def; fastforce)+

lemma record_from_frame:
  assumes "record_from env n evs z = Inr (x, z')"
  shows "si_users z' = si_users z" and "si_members z' = si_members z"
  using assms by (induction evs arbitrary: n z) (auto simp: tx_simps recordT_def in_store_def res_simps; fastforce)+

lemma update_tx_effect:
  assumes "user_update_tx env input roles w user ctx z = Inr (x, y)"
  obtains now where "update_needs_guard env input roles w z
        \<longrightarrow> (\<exists>z1. admin_guard env (uu_user_id input) ''cannot remove admin role from the last admin'' z = Inr ((), z1))"
    and "si_users y = si_users (update_user (uu_user_id input) (\<lambda>_. True) (\<lambda>u. u\<lparr> us_roles := roles, us_updated_at := now \<rparr>) z)"
    and "set (si_members y) = set (si_members z) \<union> (\<lambda>g. (g, uu_user_id input)) ` set (uu_add_groups input)
          - (\<lambda>g. (g, uu_user_id input)) ` set (uu_rm_groups input)"
proof -
  let ?i = "uu_user_id input" and ?now = "ad_clock env 1"
  obtain z1 z2 z3 z4 where
    guard: "(if update_needs_guard env input roles w z
        then admin_guard env ?i ''cannot remove admin role from the last admin'' else doneT ()) z = Inr ((), z1)"
    and roles: "set_roles_tx ?i roles ?now z1 = Inr ((), z2)"
    and adds: "eachT (\<lambda>g. add_group_member_tx g ?i) (uu_add_groups input) z2 = Inr ((), z3)"
    and removes: "eachT (\<lambda>g. remove_member_tx g ?i) (uu_rm_groups input) z3 = Inr ((), z4)"
    and "\<exists>evs. record_from env 0 evs z4 = Inr (x, y)"
    using assms by (simp add: user_update_tx_def Let_def thenT_Inr queryT_def del: One_nat_def) blast
  then obtain evs where records: "record_from env 0 evs z4 = Inr (x, y)" by blast
  have "z1 = z"
    using guard by (auto split: if_splits dest: admin_guard_passes(1))
  show ?thesis
  proof (rule that [of ?now])
    show "update_needs_guard env input roles w z
        \<longrightarrow> (\<exists>z1. admin_guard env ?i ''cannot remove admin role from the last admin'' z = Inr ((), z1))"
      using guard by auto
    show "si_users y = si_users (update_user ?i (\<lambda>_. True) (\<lambda>u. u\<lparr> us_roles := roles, us_updated_at := ?now \<rparr>) z)"
      using roles \<open>z1 = z\<close> eachT_add_members [OF adds] eachT_remove_members [OF removes] record_from_frame [OF records]
      by (simp add: set_roles_tx_def writeT_def)
    show "set (si_members y) = set (si_members z) \<union> (\<lambda>g. (g, ?i)) ` set (uu_add_groups input)
          - (\<lambda>g. (g, ?i)) ` set (uu_rm_groups input)"
      using roles \<open>z1 = z\<close> eachT_add_members [OF adds] eachT_remove_members [OF removes] record_from_frame [OF records]
      by (auto simp: set_roles_tx_def writeT_def update_user_def)
  qed
qed


text \<open>The guard of an update is enough: if nobody else is an administrator, the user still is one.\<close>

lemma update_tx_safe:
  assumes ok: "admin_ok (av_snapshot (ad_auth env)) z" and run: "user_update_tx env input roles w user ctx z = Inr (x, y)"
    and w: "claims_admin (admin_groups env) z (uu_user_id input) \<Longrightarrow> w"
    and disjoint: "set (uu_add_groups input) \<inter> set (uu_rm_groups input) = {}"
  shows "(\<exists>j. j \<noteq> uu_user_id input \<and> is_admin (admin_groups env) z j) \<or> is_admin (admin_groups env) y (uu_user_id input)"
proof (rule disjCI)
  let ?i = "uu_user_id input" and ?ags = "admin_groups env"
  assume gone: "\<not> is_admin ?ags y ?i"
  obtain now where guard: "update_needs_guard env input roles w z
        \<longrightarrow> (\<exists>z1. admin_guard env ?i ''cannot remove admin role from the last admin'' z = Inr ((), z1))"
    and users: "si_users y = si_users (update_user ?i (\<lambda>_. True) (\<lambda>u. u\<lparr> us_roles := roles, us_updated_at := now \<rparr>) z)"
    and members: "set (si_members y) = set (si_members z) \<union> (\<lambda>g. (g, ?i)) ` set (uu_add_groups input)
          - (\<lambda>g. (g, ?i)) ` set (uu_rm_groups input)"
    using run by (rule update_tx_effect)
  show "\<exists>j. j \<noteq> ?i \<and> is_admin ?ags z j"
  proof (cases "is_admin ?ags z ?i")
    case False
    then show ?thesis using ok by (metis admin_groups_def admin_ok_def)
  next
    case True
    then obtain u where u: "u \<in> set (si_users z)" "us_id u = ?i" "live_user u" "admin_row ?ags z u"
      by (auto simp: is_admin_def)
    let ?v = "u\<lparr> us_roles := roles, us_updated_at := now \<rparr>"
    have "?v \<in> set (si_users y)" "us_id ?v = ?i" "live_user ?v"
      using u by (auto simp: users update_user_def set_upd_where live_user_def)
    with gone have row: "\<not> admin_row ?ags y ?v" by (auto simp: is_admin_def)
    then have direct: "''admin'' \<notin> set roles" and groups: "(g, ?i) \<notin> set (si_members y)" if "g \<in> set ?ags" for g
      using that u(2) by (auto simp: admin_row_def list_ex_iff)
    have "claims_admin ?ags z ?i"
      using u ok by (auto simp: claims_admin_def get_user_iff admin_ok_def admin_row_def live_user_def list_ex_iff)
    then have w by (rule w)
    moreover have "''admin'' \<notin> set roles" using row by (simp add: admin_row_def)
    moreover have "\<not> list_ex (\<lambda>g. g \<in> set ?ags) (uu_add_groups input)"
      using groups members disjoint by (fastforce simp: list_ex_iff)
    moreover have "\<not> list_ex (\<lambda>g. g \<notin> set (uu_rm_groups input) \<and> (g, ?i) \<in> set (si_members z)) ?ags"
      using groups members by (fastforce simp: list_ex_iff)
    ultimately have "update_needs_guard env input roles w z"
      by (simp add: update_needs_guard_def Let_def)
    then obtain z1 where "admin_guard env ?i ''cannot remove admin role from the last admin'' z = Inr ((), z1)"
      using guard by blast
    from admin_guard_passes(2) [OF this True] show ?thesis .
  qed
qed

lemma update_keeps_admin:
  assumes snap: "av_snapshot (ad_auth env) = snap"
  shows "keepsM (admin_ok snap) (user_update env input user ctx)"
proof -
  let ?i = "uu_user_id input" and ?ags = "ags_of snap"
  have admin: "?ags = admin_groups env" by (simp add: admin_groups_def snap)
  have keeps: "keeps_inv (touches ?i z) (user_update_tx env input roles w user ctx)"
    "keeps_inv directory_ok (user_update_tx env input roles w user ctx)" for z roles w
    unfolding user_update_tx_def Let_def by (intro keeps_intros)+
  have commit: "admin_ok snap (snd (thenM (run_in_tx (ad_faults env) (user_update_tx env input roles w user ctx)) (\<lambda>_.
      thenM (putM (invalidate_cache ?i)) (\<lambda>_. liftM r)) z))"
    if "admin_ok snap z" "claims_admin ?ags z ?i \<Longrightarrow> w" "set (uu_add_groups input) \<inter> set (uu_rm_groups input) = {}"
    for z roles w r
    using that effect_of [OF keeps that(1)] update_tx_safe [of env z input roles w user ctx]
    by (intro commit_at) (auto simp: end_simps admin snap)
  show ?thesis
    unfolding keepsM_def
  proof (intro allI impI)
    fix z
    assume ok: "admin_ok snap z"
    let ?z = "snd (resolve (ad_auth env) ?i SubjUser [] z)"
    have okz: "admin_ok snap ?z"
      using ok cache_ok_resolve [of "ad_auth env" z] snap
      by (auto simp: admin_ok_def directory_ok_def is_admin_def admin_row_def resolve_frame)
    have claims: "claims_admin ?ags ?z ?i = claims_admin ?ags z ?i"
      by (simp add: claims_admin_def get_user_def resolve_frame)
    obtain w where w: "currently_admin env ?i z = (Inr w, ?z)" and claim: "claims_admin ?ags ?z ?i \<Longrightarrow> w"
    proof (cases "resolve (ad_auth env) ?i SubjUser [] z")
      case (Pair r z1)
      show thesis
      proof (cases r)
        case (Inl e)
        with Pair that [of True] show thesis by (simp add: currently_admin_def)
      next
        case (Inr roles)
        with Pair that [of "list_ex (\<lambda>r. rr_name r = ''admin'') roles"] resolve_admin [of "ad_auth env" z ?i roles] ok snap claims
        show thesis by (fastforce simp: currently_admin_def admin_ok_def list_ex_iff)
      qed
    qed
    show "admin_ok snap (snd (user_update env input user ctx z))"
    proof (cases "authorize_global user UserWrite"; cases "user_update_checks input z")
      fix u roles
      assume a: "authorize_global user UserWrite = Inr u" and c: "user_update_checks input z = Inr roles"
      then have disjoint: "set (uu_add_groups input) \<inter> set (uu_rm_groups input) = {}"
        by (auto simp: user_update_checks_def res_simps find_None_iff split: option.splits)
      have "user_update env input user ctx z = thenM (checkM (\<lambda>z. known_groups z (uu_add_groups input))) (\<lambda>_.
          thenM (run_in_tx (ad_faults env) (user_update_tx env input roles w user ctx)) (\<lambda>_.
          thenM (putM (invalidate_cache ?i)) (\<lambda>_.
          liftM (Inr [identity_webhook ''user.updated'' user ?i '' updated''])))) ?z"
        unfolding user_update_def
        by (subst io_eval(1), simp add: permitM_def liftM_def a, subst io_eval(1), simp add: checkM_def c,
            subst io_eval(1), rule w, rule refl)
      then show ?thesis
        by (simp add: check_then commit [OF okz claim disjoint] okz split: sum.splits)
    qed (use ok in \<open>auto simp: user_update_def thenM_def permitM_def liftM_def checkM_def split: sum.splits\<close>)
  qed
qed


interpretation admins: site_invariant "admin_ok snap" "\<lambda>env. av_snapshot env = snap" for snap
proof
  fix z z' :: site
  assume "admin_ok snap z" "si_users z' = si_users z" "si_tokens z' = si_tokens z" "si_members z' = si_members z"
    "si_cache z' = si_cache z"
  then show "admin_ok snap z'"
    by (simp add: admin_ok_def directory_ok_def cache_ok_def claims_admin_def is_admin_def admin_row_def get_user_def)
next
  fix env :: auth_env and i ty groups
  assume "av_snapshot env = snap"
  then show "keepsM (admin_ok snap) (resolve env i ty groups)"
    using cache_ok_resolve [of env]
    by (auto simp: keepsM_def admin_ok_def directory_ok_def is_admin_def admin_row_def resolve_frame)
next
  fix env :: auth_env and z i now
  assume "admin_ok snap z" and "get_user z i \<noteq> None \<or> count_active z < unat (av_max_users env)"
  moreover have "directory_ok (ensure_exists i now z)"
    using calculation rows.ensures [of env "unat (av_max_users env)" z i now] by (auto simp: admin_ok_def)
  ultimately show "admin_ok snap (ensure_exists i now z)"
    by (auto simp: admin_ok_def cache_ok_def claims_admin_def is_admin_def admin_row_def ensure_exists_def get_user_def
        find_row_append split: option.splits if_splits)
next
  fix t i now
  show "keeps_inv (admin_ok snap) (create_token t)" "keeps_inv (admin_ok snap) (revoke_token i now)"
    using rows.create rows.revoke
    by (auto simp: keeps_inv_def admin_ok_def cache_ok_def claims_admin_def is_admin_def admin_row_def get_user_def
        create_token_Inr revoke_token_def Let_def)
qed

lemma admin_step:
  assumes "identity_step snap limit False A z z'" and "admin_ok snap z"
  shows "admin_ok snap z'"
  using assms
proof (cases rule: identity_step.cases)
  case (handle_request s)
  with assms(2) show ?thesis by (auto elim: admins.same)
qed (use admins.sign_in_keeps admins.token_use_cases_keep add_keeps_admin update_keeps_admin remove_keeps_admin
      suspend_keeps_admin activate_keeps_admin assms(2) in \<open>auto simp: keepsM_def serves_def\<close>)


lemma count_admins_pos: "0 < count_admins ags z \<longleftrightarrow> (\<exists>i. is_admin ags z i)"
proof -
  have "0 < count_admins ags z \<longleftrightarrow> (\<exists>u \<in> set (si_users z). live_user u \<and> admin_row ags z u)"
    by (auto simp: count_admins_def length_remdups_card_conv card_gt_0_iff filter_empty_conv simp del: set_map)
  then show ?thesis by (auto simp: is_admin_def)
qed

text \<open>C14: Where sign-in with OpenID tokens is switched off, an installation that starts with a live administrator and
  an empty cache has one after every sequence of requests: sign-ins, issued, reissued and revoked tokens,
  added, updated, removed, suspended and activated users, and anything done to requests, each with any
  outcome.\<close>

theorem administrator_remains:
  assumes "directory_ok z" and "si_cache z = Map.empty"
    and "0 < count_admins (ags_of (new_snapshot group_roles defs default_role)) z"
    and "(identity_step (new_snapshot group_roles defs default_role) limit False A)\<^sup>*\<^sup>* z z'"
  shows "0 < count_admins (ags_of (new_snapshot group_roles defs default_role)) z'"
proof -
  have "admin_ok (new_snapshot group_roles defs default_role) z"
    using assms(1-3) by (simp add: admin_ok_def new_snapshot_ok cache_ok_def count_admins_pos)
  with assms(4) have "admin_ok (new_snapshot group_roles defs default_role) z'"
    by (induction rule: rtranclp_induct) (auto intro: admin_step)
  then show ?thesis by (simp add: admin_ok_def count_admins_pos)
qed


subsection \<open>A small installation\<close>

definition demo_row :: "string \<Rightarrow> string list \<Rightarrow> user_row" where
  "demo_row i roles =
     \<lparr> us_id = i, us_display_name = None, us_email = None, us_roles = roles, us_status = UsActive, us_source = ''api'',
       us_slack_user_id = None, us_deleted = False, us_last_seen_at = None, us_created_at = 0, us_updated_at = 0 \<rparr>"

definition demo_token :: token where
  "demo_token =
     \<lparr> tk_id = ''t1'', tk_subject_type = SubjUser, tk_subject_id = ''root'', tk_hash = ''hdbw_rootroot'',
       tk_prefix = ''rootroot'', tk_scope_ceiling = Some [''admin''], tk_name = None, tk_status = TokActive,
       tk_provisioning_kind = Some Initial, tk_expires_at = None, tk_created_at = 0, tk_revoked_at = None \<rparr>"

definition demo_site :: site where
  "demo_site =
     \<lparr> si_store = \<lparr> st_databases = [], st_requests = [], st_approvals = [], st_pending = [], st_executions = [],
         st_results = [], st_access = [], st_audit = [] \<rparr>,
       si_users = [demo_row ''root'' [''admin''], demo_row ''bob'' [''requester'']], si_tokens = [demo_token],
       si_groups = [], si_members = [], si_onboarding = [], si_roles = [], si_cache = Map.empty, si_logins = [] \<rparr>"

definition demo_auth :: auth_env where
  "demo_auth =
     \<lparr> av_lib = example_lib, av_snapshot = new_snapshot [] [] None, av_accept_oidc = False, av_oidc = None,
       av_max_users = 20, av_fault = (\<lambda>_. None), av_clock = (\<lambda>_. 0), av_ids = (\<lambda>_. ''a'') \<rparr>"

definition demo_env :: admin_env where
  "demo_env =
     \<lparr> ad_auth = demo_auth, ad_faults = no_faults,
       ad_audit = (\<lambda>n. \<lparr> au_signer = None, au_interval = 100, au_ids = (CHR ''e'' # show_nat n, ''c''), au_wall = (1, 1) \<rparr>),
       ad_clock = (\<lambda>_. 5), ad_new_id = ''t2'', ad_raw_token = ''dbw_abcdefgh'', ad_max_active_tokens = 0 \<rparr>"

definition demo_admin :: auth_user where
  "demo_admin =
     \<lparr> au_subject_id = ''root'', au_subject_type = SubjUser, au_roles = [every_perm [(PermAll, AnyOwner)] ''admin''],
       au_groups = [], au_token_id = Some ''t1'' \<rparr>"

lemma demo_directory_ok: "directory_ok demo_site"
  by (simp add: directory_ok_def demo_site_def demo_row_def)

lemma demo_serves: "serves (new_snapshot [] [] None) 20 False demo_auth" "serves (new_snapshot [] [] None) 20 False (ad_auth demo_env)"
  by (simp_all add: serves_def demo_auth_def demo_env_def)

theorem administrator_remains_witness:
  "0 < count_admins (ags_of (new_snapshot [] [] None))
     (snd (user_suspend demo_env ''root'' demo_admin CtxSystem (snd (user_remove demo_env ''bob'' demo_admin CtxSystem demo_site))))"
proof (rule administrator_remains [OF demo_directory_ok])
  show "si_cache demo_site = Map.empty" by (simp add: demo_site_def)
  show "0 < count_admins (ags_of (new_snapshot [] [] None)) demo_site"
    by (simp add: count_admins_def demo_site_def demo_row_def live_user_def admin_row_def)
  show "(identity_step (new_snapshot [] [] None) 20 False (\<lambda>_. True))\<^sup>*\<^sup>* demo_site
     (snd (user_suspend demo_env ''root'' demo_admin CtxSystem (snd (user_remove demo_env ''bob'' demo_admin CtxSystem demo_site))))"
    by (blast intro: rtranclp.intros identity_step.remove_user identity_step.suspend_user demo_serves)
qed

end
