(* ===== verification/Sign_In.thy ===== *)
theory Sign_In
  imports Access
begin

text \<open>
  What a successful sign-in shows about the directory, what suspension and removal mean for later sign-ins,
  and that the token of a new user works.
\<close>

subsection \<open>Steps of the middleware\<close>

lemma or_logged_Inr [io_simps]: "or_logged env req m z = (Inr x, z') \<longleftrightarrow> m z = (Inr x, z')"
  by (auto simp: or_logged_def refuse_logged_def split: prod.splits sum.splits)

lemma refuse_logged_Inr [io_simps]: "refuse_logged env req e z \<noteq> (Inr x, z')"
  by (simp add: refuse_logged_def)

lemma readM_Inr [io_simps]: "readM env n what f z = (Inr x, z') \<longleftrightarrow> av_fault env n = None \<and> x = f z \<and> z' = z"
  by (auto simp: readM_def split: option.splits)

lemma writeM_Inr [io_simps]: "writeM env n what f z = (Inr x, z') \<longleftrightarrow> av_fault env n = None \<and> z' = f z"
  by (auto simp: writeM_def split: option.splits)

lemma refuse_suspended_Inr [io_simps]:
  "refuse_suspended env req n i z = (Inr x, z') \<longleftrightarrow> av_fault env n = None \<and> \<not> is_suspended z i \<and> z' = z"
  by (auto simp: refuse_suspended_def io_simps)

lemma admit_user_Inr [io_simps]:
  "admit_user env req n i z = (Inr x, z') \<longleftrightarrow> av_fault env n = None \<and> z' = z
     \<and> (get_user z i \<noteq> None \<or> av_fault env (n + 1) = None \<and> count_active z < unat (av_max_users env))"
  by (auto simp: admit_user_def io_simps)

lemma apply_ceiling_Inr:
  assumes "apply_ceiling ty scope roles = Inr rs"
  shows "rs \<noteq> []" and "set rs \<subseteq> set roles" and "scope = Some names \<Longrightarrow> rr_name ` set rs \<subseteq> set names"
    and "ty = SubjUser \<Longrightarrow> scope \<noteq> None"
  using assms by (auto simp: apply_ceiling_def Let_def split: option.splits if_splits)

lemma verify_api_token_Inr:
  assumes "verify_api_token env z raw = Inr v"
  obtains t where "t \<in> set (si_tokens z)" and "tk_status t = TokActive" and "tk_hash t = x_sha256_hex (av_lib env) raw"
    and "tk_prefix t = take 8 (drop 4 raw)" and "\<forall>at. tk_expires_at t = Some at \<longrightarrow> av_clock env 2 \<le> at"
    and "v = \<lparr> vt_id = tk_id t, vt_subject_id = tk_subject_id t, vt_subject_type = tk_subject_type t,
               vt_scope_ceiling = tk_scope_ceiling t \<rparr>"
proof -
  obtain t where t: "token_verify (take 8 (drop 4 raw)) (x_sha256_hex (av_lib env) raw) z = Some t"
    and "\<forall>at. tk_expires_at t = Some at \<longrightarrow> av_clock env 2 \<le> at"
    and "v = \<lparr> vt_id = tk_id t, vt_subject_id = tk_subject_id t, vt_subject_type = tk_subject_type t,
               vt_scope_ceiling = tk_scope_ceiling t \<rparr>"
    using assms by (auto simp: verify_api_token_def res_simps not_less split: option.splits)
  moreover have "t \<in> set (si_tokens z) \<and> tk_status t = TokActive \<and> tk_hash t = x_sha256_hex (av_lib env) raw
      \<and> tk_prefix t = take 8 (drop 4 raw)"
    using t by (auto simp: token_verify_def dest!: find_row_Some)
  ultimately show ?thesis using that by blast
qed

lemma finish_user_Inr:
  assumes "finish_user env req user z = (Inr user', z')"
  shows "au_subject_id user' = au_subject_id user" and "au_subject_type user' = au_subject_type user"
    and "au_roles user' = au_roles user" and "au_token_id user' = au_token_id user"
    and "au_subject_type user = SubjAgent \<Longrightarrow> take 11 (hr_path req) = ''/api/agent/'' \<or> hr_path req = ''/api/public-key''"
    and "z' = z \<or> au_subject_type user = SubjUser \<and> (\<exists>now. z' = ensure_exists (au_subject_id user) now z)"
  using assms by (auto simp: finish_user_def io_simps split: if_splits)

lemma api_user_Inr:
  assumes "api_user env req raw z = (Inr user, z')"
  obtains t rs where "t \<in> set (si_tokens z)" and "tk_status t = TokActive" and "tk_hash t = x_sha256_hex (av_lib env) raw"
    and "tk_prefix t = take 8 (drop 4 raw)" and "\<forall>at. tk_expires_at t = Some at \<longrightarrow> av_clock env 2 \<le> at"
    and "au_subject_id user = tk_subject_id t" and "au_subject_type user = tk_subject_type t"
    and "au_token_id user = Some (tk_id t)" and "tk_subject_type t = SubjUser \<longrightarrow> \<not> is_suspended z (tk_subject_id t)"
    and "resolve env (tk_subject_id t) (tk_subject_type t) [] z = (Inr rs, z')"
    and "apply_ceiling (tk_subject_type t) (tk_scope_ceiling t) rs = Inr (au_roles user)"
proof -
  obtain v rs roles where v: "verify_api_token env z raw = Inr v"
    and rest: "vt_subject_type v = SubjUser \<longrightarrow> \<not> is_suspended z (vt_subject_id v)"
      "resolve env (vt_subject_id v) (vt_subject_type v) [] z = (Inr rs, z')"
      "apply_ceiling (vt_subject_type v) (vt_scope_ceiling v) rs = Inr roles"
      "au_subject_id user = vt_subject_id v" "au_subject_type user = vt_subject_type v" "au_roles user = roles"
      "au_token_id user = Some (vt_id v)"
    using assms by (auto simp: api_user_def io_simps split: if_splits)
  from v obtain t where "t \<in> set (si_tokens z)" "tk_status t = TokActive" "tk_hash t = x_sha256_hex (av_lib env) raw"
    "tk_prefix t = take 8 (drop 4 raw)" "\<forall>at. tk_expires_at t = Some at \<longrightarrow> av_clock env 2 \<le> at"
    and "v = \<lparr> vt_id = tk_id t, vt_subject_id = tk_subject_id t, vt_subject_type = tk_subject_type t,
               vt_scope_ceiling = tk_scope_ceiling t \<rparr>"
    by (rule verify_api_token_Inr)
  with rest show ?thesis by (intro that [of t rs]) simp_all
qed

subsection \<open>Sign-in with an API token\<close>

text \<open>C11: A request with an API token goes on only for an active token with the hash and the prefix of what was
  presented that has not expired; as the subject of that token, with a non-empty set of roles which the
  subject resolves to and which lie within the ceiling of the token. A user is not suspended, has a
  token with a ceiling and has a row afterwards; an agent reaches its own endpoints and the public key
  only.\<close>

theorem api_sign_in_sound:
  assumes "hr_authorization req = Some (''Bearer '' @ raw)" and "take 3 raw \<noteq> ''eyJ''"
    and "auth_middleware env req z = (Inr user, z')"
  shows "\<exists>t \<in> set (si_tokens z). tk_status t = TokActive \<and> tk_hash t = x_sha256_hex (av_lib env) raw
    \<and> tk_prefix t = take 8 (drop 4 raw) \<and> (\<forall>at. tk_expires_at t = Some at \<longrightarrow> av_clock env 2 \<le> at)
    \<and> au_subject_id user = tk_subject_id t \<and> au_subject_type user = tk_subject_type t \<and> au_token_id user = Some (tk_id t)
    \<and> au_roles user \<noteq> [] \<and> (\<forall>scope. tk_scope_ceiling t = Some scope \<longrightarrow> rr_name ` set (au_roles user) \<subseteq> set scope)
    \<and> (\<exists>rs. fst (resolve env (tk_subject_id t) (tk_subject_type t) [] z) = Inr rs \<and> set (au_roles user) \<subseteq> set rs)
    \<and> (tk_subject_type t = SubjUser \<longrightarrow> \<not> is_suspended z (tk_subject_id t) \<and> tk_scope_ceiling t \<noteq> None
         \<and> get_user z' (tk_subject_id t) \<noteq> None)
    \<and> (tk_subject_type t = SubjAgent \<longrightarrow> take 11 (hr_path req) = ''/api/agent/'' \<or> hr_path req = ''/api/public-key'')"
proof -
  obtain user1 z1 where api: "api_user env req raw z = (Inr user1, z1)" and fin: "finish_user env req user1 z1 = (Inr user, z')"
    using assms by (auto simp: auth_middleware_def Let_def io_simps split: if_splits)
  note finish = finish_user_Inr [OF fin]
  obtain t rs where t: "t \<in> set (si_tokens z)" "tk_status t = TokActive" "tk_hash t = x_sha256_hex (av_lib env) raw"
      "tk_prefix t = take 8 (drop 4 raw)" "\<forall>at. tk_expires_at t = Some at \<longrightarrow> av_clock env 2 \<le> at"
    and user: "au_subject_id user1 = tk_subject_id t" "au_subject_type user1 = tk_subject_type t" "au_token_id user1 = Some (tk_id t)"
    and live: "tk_subject_type t = SubjUser \<longrightarrow> \<not> is_suspended z (tk_subject_id t)"
    and rs: "resolve env (tk_subject_id t) (tk_subject_type t) [] z = (Inr rs, z1)"
      "apply_ceiling (tk_subject_type t) (tk_scope_ceiling t) rs = Inr (au_roles user1)"
    using api by (rule api_user_Inr)
  have "get_user z' (tk_subject_id t) \<noteq> None" if "tk_subject_type t = SubjUser"
    using fin that user by (auto simp: finish_user_def io_simps ensure_exists_def get_user_def find_row_append split: option.splits)
  with t user live rs finish apply_ceiling_Inr [OF rs(2)] show ?thesis
    by (intro bexI [of _ t]) auto
qed


definition root_call :: http_request where
  "root_call =
     \<lparr> hr_authorization = Some ''Bearer dbw_rootroot'', hr_path = ''/api/requests'', hr_peer_ip = None, hr_client_ip = None \<rparr>"

lemma demo_roles [simp]:
  "sn_roles (new_snapshot [] [] None) ''admin'' = Some (every_perm [(PermAll, AnyOwner)] ''admin'')"
  "sn_group_roles (new_snapshot [] [] None) = []" "sn_default_role (new_snapshot [] [] None) = None"
  by (simp_all add: new_snapshot_def builtin_roles_def)

lemma demo_verified:
  "verify_api_token demo_auth demo_site ''dbw_rootroot'' = Inr \<lparr> vt_id = ''t1'', vt_subject_id = ''root'',
     vt_subject_type = SubjUser, vt_scope_ceiling = Some [''admin''] \<rparr>"
  by (simp add: verify_api_token_def token_form_def token_verify_def find_row_def demo_auth_def demo_site_def demo_token_def
      example_lib_def)

lemma demo_resolved:
  "resolve demo_auth ''root'' SubjUser [] demo_site
     = (Inr [every_perm [(PermAll, AnyOwner)] ''admin''], demo_site\<lparr> si_cache := [''root'' \<mapsto> ([''admin''], 0)] \<rparr>)"
  by (simp add: resolve_def cached_def resolve_from_db_def resolve_role_names_def get_roles_by_names_def List.map_filter_simps
      demo_auth_def demo_site_def demo_row_def get_user_def find_row_def groups_of_def Let_def every_perm_def [of _ "''admin''"])

lemma demo_facts:
  "av_fault demo_auth n = None" "\<not> is_suspended demo_site ''root''" "groups_of (demo_site\<lparr> si_cache := c \<rparr>) i = []"
  "get_user (demo_site\<lparr> si_cache := c \<rparr>) ''root'' = Some (demo_row ''root'' [''admin''])"
  "rr_name (every_perm perms name) = name"
  by (simp_all add: demo_auth_def demo_site_def demo_row_def is_suspended_def get_user_def find_row_def groups_of_def every_perm_def)

lemma demo_sign_in:
  "auth_middleware demo_auth root_call demo_site
     = (Inr demo_admin, demo_site\<lparr> si_cache := [''root'' \<mapsto> ([''admin''], 0)] \<rparr>)"
proof -
  have "api_user demo_auth root_call ''dbw_rootroot'' demo_site
      = (Inr demo_admin, demo_site\<lparr> si_cache := [''root'' \<mapsto> ([''admin''], 0)] \<rparr>)"
    by (simp add: api_user_def thenM_def or_logged_def demo_verified refuse_suspended_def readM_def liftM_def demo_resolved
        demo_facts groups_for_subject_def apply_ceiling_def demo_admin_def)
  moreover have "finish_user demo_auth root_call demo_admin (demo_site\<lparr> si_cache := c \<rparr>) = (Inr demo_admin, demo_site\<lparr> si_cache := c \<rparr>)" for c
    by (simp add: finish_user_def admit_user_def thenM_def readM_def writeM_def liftM_def demo_facts ensure_exists_def
        groups_for_subject_def demo_admin_def)
  ultimately show ?thesis
    by (simp add: auth_middleware_def root_call_def thenM_def [of "api_user _ _ _"] Let_def)
qed

theorem api_sign_in_sound_witness:
  "hr_authorization root_call = Some (''Bearer '' @ ''dbw_rootroot'')
   \<and> fst (auth_middleware demo_auth root_call demo_site) = Inr demo_admin
   \<and> (\<exists>t \<in> set (si_tokens demo_site). tk_status t = TokActive \<and> tk_subject_id t = ''root''
        \<and> au_token_id demo_admin = Some (tk_id t))"
proof -
  have "hr_authorization root_call = Some (''Bearer '' @ ''dbw_rootroot'')" by (simp add: root_call_def)
  from api_sign_in_sound [OF this _ demo_sign_in] this demo_sign_in show ?thesis
    by (auto simp: demo_admin_def)
qed

subsection \<open>Suspended and removed users\<close>

definition locked :: "string \<Rightarrow> site \<Rightarrow> bool" where
  "locked i z \<longleftrightarrow> (\<exists>u. get_user z i = Some u \<and> us_status u = UsSuspended)"

lemma get_user_update:
  assumes "\<And>u. Q u \<Longrightarrow> us_id (f u) = us_id u"
  shows "get_user (update_user j Q f z) i = map_option (\<lambda>u. if us_id u = j \<and> Q u then f u else u) (get_user z i)"
proof -
  have "find_row (\<lambda>u. us_id u = i) (upd_where (\<lambda>u. us_id u = j \<and> Q u) f us)
      = map_option (\<lambda>u. if us_id u = j \<and> Q u then f u else u) (find_row (\<lambda>u. us_id u = i) us)" for us
    using assms by (induction us) (auto simp: upd_where_def find_row_def)
  then show ?thesis by (simp add: get_user_def update_user_def)
qed

interpretation lock: user_invariant "locked i" n "\<lambda>j. j \<noteq> i" for i n
proof
  fix z j Q f
  assume "locked i z" and f: "\<And>u. Q u \<Longrightarrow> row_update u (f u)"
  moreover have "us_id (f u) = us_id u" if "Q u" for u
    using f [OF that] by (simp add: row_update_def)
  ultimately show "locked i (update_user j Q f z)"
    by (auto simp: locked_def get_user_update row_update_def)
next
  fix j now
  assume "j \<noteq> i"
  then show "keeps_inv (locked i) (activate_user j now)"
    by (auto intro!: keeps_invI simp: locked_def activate_user_def writeT_def get_user_update dest: find_row_Some)
      (auto simp: get_user_def dest: find_row_Some)
qed (auto intro!: keeps_invI simp: locked_def get_user_def find_row_append create_token_Inr revoke_token_def
      revoke_all_for_user_def Let_def)

lemma locked_refused:
  assumes "locked i z" and run: "auth_middleware env req z = (Inr user, z')" and "au_subject_type user = SubjUser"
  shows "au_subject_id user \<noteq> i"
proof -
  have susp: "is_suspended y i" if "locked i y" for y
    using that by (auto simp: locked_def is_suspended_def)
  have "au_subject_id user1 \<noteq> i"
    if oidc: "oidc_user env req raw z = (Inr user1, z1)" for raw user1 z1
  proof
    assume i: "au_subject_id user1 = i"
    obtain now where "\<not> is_suspended (user_upsert (oidc_row i now) z) i"
      using oidc i by (auto simp: oidc_user_def io_simps split: if_splits)
    moreover have "locked i (user_upsert (oidc_row i now) z)"
      using assms(1) by (intro lock.upsert_keeps [where n = 0]) (auto simp: locked_def)
    ultimately show False using susp by blast
  qed
  moreover have "au_subject_id user1 \<noteq> i"
    if "api_user env req raw z = (Inr user1, z1)" "au_subject_type user1 = SubjUser" for raw user1 z1
    using that susp [OF assms(1)] by (elim api_user_Inr) auto
  moreover obtain raw user1 z1 where "oidc_user env req raw z = (Inr user1, z1) \<or> api_user env req raw z = (Inr user1, z1)"
    and fin: "finish_user env req user1 z1 = (Inr user, z')"
    using run by (auto simp: auth_middleware_def Let_def io_simps split: option.splits if_splits)
  ultimately show ?thesis
    using finish_user_Inr(1,2) [OF fin] assms(3) by metis
qed

text \<open>The open requests of a user after \<open>cancel_all_for_user\<close>.\<close>

lemma cancel_each_effect:
  assumes "cancel_each ids who reason now s = Inr (x, s')" and "r' \<in> set (st_requests s')"
  obtains r where "r \<in> set (st_requests s)" and "rq_id r' = rq_id r" and "rq_requester r' = rq_requester r"
    and "rq_status r' \<in> set cancellable_states \<longrightarrow> rq_status r \<in> set cancellable_states \<and> rq_id r \<notin> set ids"
  using assms
proof (induction ids arbitrary: s thesis)
  case Nil
  then show ?case by auto
next
  case (Cons i ids)
  then obtain ok s1 where one: "mark_cancelled i who reason now s = Inr (ok, s1)"
    and rest: "cancel_each ids who reason now s1 = Inr (x, s')"
    by (auto simp: tx_simps)
  obtain r1 where r1: "r1 \<in> set (st_requests s1)" "rq_id r' = rq_id r1" "rq_requester r' = rq_requester r1"
    "rq_status r' \<in> set cancellable_states \<longrightarrow> rq_status r1 \<in> set cancellable_states \<and> rq_id r1 \<notin> set ids"
    by (rule Cons.IH [OF _ rest Cons.prems(3)])
  obtain r where "r \<in> set (st_requests s)"
    and "r1 = (if rq_id r = i \<and> rq_status r \<in> set cancellable_states then cancel_row who reason now r else r)"
    using one r1(1) by (auto simp: mark_cancelled_def update_request_def set_upd_where Let_def split: if_splits)
  moreover have "rq_status (cancel_row who reason now r) \<notin> set cancellable_states"
    "rq_id (cancel_row who reason now r) = rq_id r" "rq_requester (cancel_row who reason now r) = rq_requester r"
    by (simp_all add: cancel_row_def cancellable_states_def)
  ultimately show ?case
    using r1 by (intro Cons.prems(1) [of r]) (auto split: if_splits)
qed

lemma cancel_all_effect:
  assumes "cancel_all_for_user i who reason now s = Inr (ids, s')" and "r \<in> set (st_requests s')" and "rq_requester r = i"
  shows "rq_status r \<notin> set cancellable_states"
proof -
  let ?ids = "map rq_id (filter (\<lambda>r. rq_requester r = i \<and> rq_status r \<in> set cancellable_states) (st_requests s))"
  have "cancel_each ?ids who reason now s = Inr ((), s')"
    using assms(1) by (auto simp: cancel_all_for_user_def Let_def tx_simps)
  then obtain r0 where "r0 \<in> set (st_requests s)" "rq_requester r = rq_requester r0"
    "rq_status r \<in> set cancellable_states \<longrightarrow> rq_status r0 \<in> set cancellable_states \<and> rq_id r0 \<notin> set ?ids"
    using assms(2) by (rule cancel_each_effect)
  with assms(3) show ?thesis by auto
qed


definition shut_out :: "string \<Rightarrow> site \<Rightarrow> bool" where
  "shut_out i z \<longleftrightarrow> locked i z \<and> (\<forall>t \<in> set (si_tokens z). tk_subject_id t = i \<longrightarrow> tk_status t = TokRevoked)
     \<and> (\<forall>r \<in> set (st_requests (si_store z)). rq_requester r = i \<longrightarrow> rq_status r \<notin> set cancellable_states)"

lemma revoke_row_simps: "tk_status (revoke_row now t) = TokRevoked" "tk_subject_id (revoke_row now t) = tk_subject_id t"
  by (simp_all add: revoke_row_def)

lemma revoked_rows:
  "\<forall>t \<in> set (upd_where (\<lambda>t. tk_subject_id t = i \<and> tk_status t = TokActive) (revoke_row now) ts).
     tk_subject_id t = i \<longrightarrow> tk_status t = TokRevoked"
proof -
  have "tk_status t = TokActive \<or> tk_status t = TokRevoked" for t by (cases "tk_status t") simp_all
  then show ?thesis by (simp add: upd_where_def ball_Un revoke_row_simps) blast
qed

lemma shut_out_tail:
  assumes "thenT (revoke_all_for_user i now) (\<lambda>revoked.
      thenT (in_store (cancel_all_for_user i who reason now)) (\<lambda>cancelled.
      thenT (recordT env n ev) (k revoked cancelled))) z = Inr (x, z')"
    and "\<And>revoked cancelled y x' z'. k revoked cancelled () y = Inr (x', z') \<Longrightarrow> z' = y"
    and "locked i z"
  shows "shut_out i z'"
proof -
  obtain revoked z1 cancelled z2 z3 where revoke: "revoke_all_for_user i now z = Inr (revoked, z1)"
    and two: "in_store (cancel_all_for_user i who reason now) z1 = Inr (cancelled, z2)"
    and three: "recordT env n ev z2 = Inr ((), z3)" and k: "k revoked cancelled () z3 = Inr (x, z')"
    using assms(1) unfolding thenT_Inr by auto
  obtain s2 where cancel: "cancel_all_for_user i who reason now (si_store z1) = Inr (cancelled, s2)"
    and z2: "z2 = z1\<lparr> si_store := s2 \<rparr>"
    using two by (auto simp: in_store_def res_simps)
  obtain s3 where s3: "record_event (ad_lib env) (ad_audit env n) ev s2 = Inr ((), s3)" and "z3 = z1\<lparr> si_store := s3 \<rparr>"
    using three by (auto simp: recordT_def in_store_def res_simps z2)
  then have z': "z' = z1\<lparr> si_store := s3 \<rparr>" using assms(2) [OF k] by simp
  have "st_requests s3 = st_requests s2"
    using s3 by (auto simp: record_event_def res_simps)
  moreover have "tk_status t = TokRevoked" if mem: "t \<in> set (si_tokens z1)" and sub: "tk_subject_id t = i" for t
  proof -
    have "si_tokens z1 = upd_where (\<lambda>t. tk_subject_id t = i \<and> tk_status t = TokActive) (revoke_row now) (si_tokens z)"
      using revoke by (auto simp: revoke_all_for_user_def Let_def)
    with mem sub revoked_rows show ?thesis by simp
  qed
  moreover have "locked i z1"
    using keeps_invD [OF lock.revoke_all assms(3) revoke] .
  ultimately show ?thesis
    using cancel_all_effect [OF cancel] by (simp add: shut_out_def z' locked_def get_user_def)
qed


lemma suspend_shuts_out:
  assumes ok: "directory_ok z" and run: "user_suspend env i who ctx z = (Inr out, z')"
  shows "shut_out i z'"
proof -
  let ?now = "ad_clock env 0"
  obtain p z1 where found: "get_user z i \<noteq> None"
    and tx: "user_suspend_tx env i who ctx z = Inr (p, z1)" and z': "z' = invalidate_cache i z1"
    using run by (auto simp: user_suspend_def permitM_def io_simps res_simps dest!: uow.commits)
  obtain z0 z2 where guard: "admin_guard env i ''cannot suspend the last admin'' z = Inr ((), z0)"
    and susp: "suspend_user i ?now z0 = Inr ((), z2)"
    and tail: "thenT (revoke_all_for_user i ?now) (\<lambda>revoked.
      thenT (in_store (cancel_all_for_user i (au_subject_id who) (Some ''user suspended'') ?now)) (\<lambda>cancelled.
      thenT (recordT env 0 (identity_event ''user.suspended'' who i ?now ctx)) (\<lambda>_.
      doneT (revoked, cancelled)))) z2 = Inr (p, z1)"
    using tx unfolding user_suspend_tx_def Let_def
    by (auto simp: thenT_Inr [of "admin_guard _ _ _"] thenT_Inr [of "suspend_user _ _"])
  have "z0 = z" using guard by (rule admin_guard_passes(1))
  have "locked i z2"
  proof -
    obtain u where u: "get_user z i = Some u" using found by blast
    then have "us_deleted u \<longrightarrow> us_status u = UsSuspended" "us_id u = i"
      using ok by (auto simp: get_user_iff directory_ok_def)
    with u susp show ?thesis
      by (cases "us_status u") (auto simp: \<open>z0 = z\<close> locked_def suspend_user_def writeT_def get_user_update)
  qed
  from shut_out_tail [OF tail _ this] have "shut_out i z1" by (simp add: doneT_def)
  then show ?thesis by (simp add: z' shut_out_def locked_def get_user_def invalidate_cache_def)
qed

lemma remove_shuts_out:
  assumes run: "user_remove env i who ctx z = (Inr out, z')"
  shows "shut_out i z'"
proof -
  let ?now = "ad_clock env 0"
  obtain z1 where found: "get_user z i \<noteq> None"
    and tx: "user_remove_tx env i who ctx z = Inr ((), z1)" and z': "z' = invalidate_cache i z1"
    using run by (auto simp: user_remove_def permitM_def io_simps res_simps dest!: uow.commits)
  obtain z0 z2 z3 where guard: "admin_guard env i ''cannot delete the last admin'' z = Inr ((), z0)"
    and del: "soft_delete_tx i ?now z0 = Inr ((), z2)" and rem: "remove_all_memberships_tx i z2 = Inr ((), z3)"
    and tail: "thenT (revoke_all_for_user i ?now) (\<lambda>_.
      thenT (in_store (cancel_all_for_user i (au_subject_id who) (Some ''user deleted'') ?now)) (\<lambda>_.
      recordT env 0 (identity_event ''user.deleted'' who i ?now ctx))) z3 = Inr ((), z1)"
    using tx unfolding user_remove_tx_def Let_def
    by (auto simp: thenT_Inr [of "admin_guard _ _ _"] thenT_Inr [of "soft_delete_tx _ _"] thenT_Inr [of "remove_all_memberships_tx _"])
  have "z0 = z" using guard by (rule admin_guard_passes(1))
  obtain u where u: "get_user z i = Some u" using found by blast
  then have "us_id u = i" by (auto simp: get_user_def dest: find_row_Some)
  with u del have "locked i z2"
    by (auto simp: \<open>z0 = z\<close> locked_def soft_delete_tx_def writeT_def get_user_update)
  then have "locked i z3"
    using rem by (simp add: remove_all_memberships_tx_def writeT_def locked_def get_user_def) auto
  moreover have "recordT env 0 ev = thenT (recordT env 0 ev) (\<lambda>x. doneT ())" for ev
    by (rule ext) (simp add: thenT_def tryE_def doneT_def split: sum.splits)
  ultimately have "shut_out i z1"
    using shut_out_tail [of i ?now "au_subject_id who" "Some ''user deleted''" env 0 _ "\<lambda>_ _ _. doneT ()" z3 "()" z1] tail
    by (simp add: doneT_def)
  then show ?thesis by (simp add: z' shut_out_def locked_def get_user_def invalidate_cache_def)
qed


text \<open>C15: When a user has been suspended or removed, all tokens of the user are revoked and no request of the user
  is open any more; and after every sequence of requests to the server that does not activate the user
  again, no authorization header, with an API token or an OpenID token, signs anybody in as this
  user.\<close>

theorem shut_out_until_activated:
  assumes "directory_ok z"
    and "(\<exists>out. user_suspend env i who ctx z = (Inr out, z1)) \<or> (\<exists>out. user_remove env i who ctx z = (Inr out, z1))"
    and "(identity_step snap limit oidc (\<lambda>j. j \<noteq> i))\<^sup>*\<^sup>* z1 z2"
  shows "(\<forall>t \<in> set (si_tokens z1). tk_subject_id t = i \<longrightarrow> tk_status t = TokRevoked)
    \<and> (\<forall>r \<in> set (st_requests (si_store z1)). rq_requester r = i \<longrightarrow> rq_status r \<notin> set cancellable_states)
    \<and> (\<forall>aenv req user z3. auth_middleware aenv req z2 = (Inr user, z3) \<longrightarrow> au_subject_type user = SubjUser
         \<longrightarrow> au_subject_id user \<noteq> i)"
proof -
  have shut: "shut_out i z1"
    using assms(1,2) suspend_shuts_out remove_shuts_out by blast
  then have "locked i z1" by (simp add: shut_out_def)
  with assms(3) have "locked i z2"
    by (induction rule: rtranclp_induct) (auto intro: lock.step_keeps)
  with shut locked_refused show ?thesis unfolding shut_out_def by blast
qed

lemma demo_permit: "authorize_global demo_admin perm = Inr ()"
  by (simp add: authorize_global_def has_permission_def demo_admin_def role_has_permission_def every_perm_def)

lemma demo_suspended: "\<exists>out. user_suspend demo_env ''bob'' demo_admin CtxSystem demo_site = (Inr out, snd (user_suspend demo_env ''bob'' demo_admin CtxSystem demo_site))"
proof -
  have "user_suspend_tx demo_env ''bob'' demo_admin CtxSystem demo_site = Inr (p, z) \<Longrightarrow> ?thesis" for p z
    by (cases p) (simp add: user_suspend_def permitM_def demo_permit thenM_def liftM_def checkM_def run_in_tx_def demo_env_def no_faults_def
        demo_site_def get_user_def find_row_def demo_row_def putM_def)
  moreover have "\<exists>p z. user_suspend_tx demo_env ''bob'' demo_admin CtxSystem demo_site = Inr (p, z)"
    by (simp add: user_suspend_tx_def thenT_def admin_guard_def user_has_admin_tx_def queryT_def demo_site_def demo_row_def
        suspend_user_def writeT_def update_user_def upd_where_def revoke_all_for_user_def Let_def in_store_def cancel_all_for_user_def
        recordT_def record_event_def record_audit_def insert_audit_event_def demo_env_def admin_groups_def demo_auth_def
        groups_granting_role_def)
  ultimately show ?thesis by blast
qed

theorem shut_out_until_activated_witness:
  "\<nexists>aenv req user z. auth_middleware aenv req (snd (user_suspend demo_env ''bob'' demo_admin CtxSystem demo_site)) = (Inr user, z)
     \<and> au_subject_type user = SubjUser \<and> au_subject_id user = ''bob''"
  using shut_out_until_activated [OF demo_directory_ok disjI1 [OF demo_suspended] rtranclp.rtrancl_refl [of "identity_step (new_snapshot [] [] None) 20 False (\<lambda>j. j \<noteq> ''bob'')"]]
  by blast

text \<open>C25: After every sequence of requests the rows of users and tokens have distinct identifiers, deleted users are
  suspended, no subject has two active initial tokens, and the number of users is within the limit of
  the plan; requests that would exceed it, by sign-in or by an administrator, are refused.\<close>

theorem user_limit_kept:
  assumes "directory_ok z" and "count_active z \<le> limit" and "(identity_step snap limit oidc A)\<^sup>*\<^sup>* z z'"
  shows "directory_ok z' \<and> count_active z' \<le> limit"
  using identity.inv_rtranclp [OF assms(3)] assms(1,2) by blast

theorem user_limit_kept_witness:
  "count_active demo_site \<le> 20 \<and> count_active (snd (user_activate demo_env ''bob'' demo_admin CtxSystem demo_site)) \<le> 20"
proof -
  have "count_active demo_site \<le> 20" by (simp add: count_active_def demo_site_def demo_row_def)
  moreover have "(identity_step (new_snapshot [] [] None) 20 False (\<lambda>_. True))\<^sup>*\<^sup>* demo_site
      (snd (user_activate demo_env ''bob'' demo_admin CtxSystem demo_site))"
    by (blast intro: rtranclp.intros identity_step.activate_user demo_serves)
  ultimately show ?thesis using user_limit_kept [OF demo_directory_ok] by blast
qed

subsection \<open>Sign-in with an OpenID token\<close>

lemma get_user_others:
  "get_user (log_auth_failure env req e z) i = get_user z i" "get_user (record_login env req i z) j = get_user z j"
  "get_user (snd (resolve env i ty groups z)) j = get_user z j"
  by (auto simp: get_user_def log_auth_failure_def record_login_def log_event_def resolve_frame res_simps
      split: sum.splits option.splits)

lemma ball_upd_where: "(\<forall>v \<in> set (upd_where Q f t). R v) \<longleftrightarrow> (\<forall>u \<in> set t. R (if Q u then f u else u))"
  unfolding upd_where_def set_map by blast

interpretation still: tx_invariant "\<lambda>y. si_users y = us \<and> si_members y = ms" for us ms
  by unfold_locales simp

lemma resolve_still [keepsM_intros]: "keepsM (\<lambda>y. si_users y = us \<and> si_members y = ms) (resolve env i ty groups)"
  by (simp add: keepsM_def resolve_frame)

lemma record_login_still [keepsM_intros]: "keepsM (\<lambda>y. si_users y = us \<and> si_members y = ms) (putM (record_login env req i))"
  by (rule keepsM_putM) (auto simp: record_login_def log_event_def res_simps split: sum.splits option.splits)

lemma oidc_tables:
  assumes "hr_authorization req = Some (''Bearer '' @ raw)" and "take 3 raw = ''eyJ''" and "av_accept_oidc env"
    and "verify_oidc_token env raw = Inr (i, groups)" and "\<forall>n. av_fault env n = None" and "get_user z i = Some u"
  shows "si_users (snd (auth_middleware env req z)) = si_users (user_upsert (oidc_row i (av_clock env 7)) z)
    \<and> si_members (snd (auth_middleware env req z)) = si_members z"
proof -
  let ?z = "user_upsert (oidc_row i (av_clock env 7)) z"
  let ?P = "\<lambda>y. si_users y = si_users ?z \<and> si_members y = si_members ?z"
  let ?mid = "thenM (refuse_suspended env req 6 i) (\<lambda>_.
     thenM (or_logged env req (resolve env i SubjUser groups)) (\<lambda>roles.
     if roles = [] then refuse_logged env req NoRolesResolved
     else
       thenM (putM (record_login env req i)) (\<lambda>_.
       liftM (Inr \<lparr> au_subject_id = i, au_subject_type = SubjUser, au_roles = roles, au_groups = groups,
                     au_token_id = None \<rparr>))))"
  have oidc: "oidc_user env req raw z = ?mid ?z"
  proof -
    have verified: "or_logged env req (liftM (verify_oidc_token env raw)) z = (Inr (i, groups), z)"
      by (simp add: or_logged_def liftM_def assms(4))
    have admitted: "admit_user env req 3 i z = (Inr (), z)"
      by (simp add: admit_user_Inr assms(5,6))
    have written: "writeM env 5 ''user upsert failed'' (user_upsert (oidc_row i (av_clock env 7))) z = (Inr (), ?z)"
      by (simp add: writeM_def assms(5))
    show ?thesis
      by (simp only: oidc_user_def thenM_def [of "or_logged env req (liftM _)"] verified prod.case sum.case
          thenM_def [of "admit_user env req 3 i"] admitted thenM_def [of "writeM _ _ _ _"] written)
  qed
  have mid: "keepsM ?P ?mid"
    by (intro keepsM_intros)
  have "?P (snd (thenM (oidc_user env req raw) (finish_user env req) z))"
  proof (cases "oidc_user env req raw z")
    case (Pair r z2)
    have P2: "?P z2" using keepsMD [OF mid, of ?z r z2] Pair oidc by simp
    show ?thesis
    proof (cases r)
      case (Inl e)
      with Pair P2 show ?thesis by (simp add: thenM_def)
    next
      case (Inr user)
      have "au_token_id user = None"
        using Pair Inr by (auto simp: oidc_user_def io_simps split: if_splits)
      then have "keepsM ?P (finish_user env req user)"
        unfolding finish_user_def by (simp, intro keepsM_intros)
      with Pair Inr P2 show ?thesis by (simp add: thenM_def keepsM_def)
    qed
  qed
  moreover have "auth_middleware env req z = thenM (oidc_user env req raw) (finish_user env req) z"
    by (simp add: auth_middleware_def assms(1-3))
  moreover have "si_members ?z = si_members z"
    by (simp add: user_upsert_def update_user_def split: option.splits)
  ultimately show ?thesis by simp
qed

text \<open>C32: Signing in with an OpenID token overwrites the roles that administrators gave the user with the empty
  list, whether the sign-in succeeds or not. When the user was the only administrator and is in no group
  that grants the role, the installation has no administrator any more.\<close>

theorem oidc_sign_in_erases_roles:
  assumes "hr_authorization req = Some (''Bearer '' @ raw)" and "take 3 raw = ''eyJ''" and "av_accept_oidc env"
    and "verify_oidc_token env raw = Inr (i, groups)" and "\<forall>n. av_fault env n = None"
    and "directory_ok z" and "get_user z i = Some u"
  shows "(\<exists>u'. get_user (snd (auth_middleware env req z)) i = Some u' \<and> us_roles u' = [])
    \<and> ((\<forall>j. is_admin ags z j \<longrightarrow> j = i) \<longrightarrow> (\<forall>g \<in> set ags. (g, i) \<notin> set (si_members z))
        \<longrightarrow> count_admins ags (snd (auth_middleware env req z)) = 0)"
proof -
  let ?z = "user_upsert (oidc_row i (av_clock env 7)) z" and ?after = "snd (auth_middleware env req z)"
  have users: "si_users ?after = si_users ?z" and members: "si_members ?after = si_members z"
    using oidc_tables [OF assms(1-5,7)] by simp_all
  have z: "si_users ?z = upd_where (\<lambda>u. us_id u = i) (\<lambda>u. u\<lparr> us_display_name := None, us_email := None, us_roles := [],
      us_last_seen_at := Some (av_clock env 7), us_updated_at := av_clock env 7 \<rparr>) (si_users z)"
    using assms(7) by (simp add: user_upsert_def oidc_row_def update_user_def)
  have "\<forall>v \<in> set (si_users ?after). if us_id v = i then us_roles v = [] else v \<in> set (si_users z)"
    unfolding users z ball_upd_where by simp
  then have erased: "v \<in> set (si_users ?after) \<Longrightarrow> us_id v = i \<Longrightarrow> us_roles v = []"
    and kept: "v \<in> set (si_users ?after) \<Longrightarrow> us_id v \<noteq> i \<Longrightarrow> v \<in> set (si_users z)" for v
    by auto
  have "get_user ?after i \<noteq> None"
    using assms(7) by (simp add: get_user_def users z find_row_upd [where key = us_id])
  then obtain u' where "get_user ?after i = Some u'" by blast
  moreover have "us_roles u' = []"
    using calculation erased by (auto simp: get_user_def dest: find_row_Some)
  moreover have "count_admins ags ?after = 0"
    if "\<forall>j. is_admin ags z j \<longrightarrow> j = i" "\<forall>g \<in> set ags. (g, i) \<notin> set (si_members z)"
  proof -
    have "\<not> is_admin ags ?after j" for j
    proof
      assume "is_admin ags ?after j"
      then obtain v where v: "v \<in> set (si_users ?after)" "us_id v = j" "live_user v" "admin_row ags ?after v"
        by (auto simp: is_admin_def)
      show False
      proof (cases "j = i")
        case True
        with v erased [OF v(1)] that(2) members show False by (auto simp: admin_row_def list_ex_iff)
      next
        case False
        with v kept [OF v(1)] members have "is_admin ags z j" by (auto simp: is_admin_def admin_row_def)
        with that(1) False show False by blast
      qed
    qed
    then show ?thesis using count_admins_pos by blast
  qed
  ultimately show ?thesis by blast
qed


theorem oidc_sign_in_erases_roles_witness:
  "count_admins [] demo_site = 1
   \<and> count_admins [] (snd (auth_middleware (demo_auth\<lparr> av_accept_oidc := True, av_oidc := Some (\<lambda>_. Inr (''root'', [])) \<rparr>)
       (root_call\<lparr> hr_authorization := Some ''Bearer eyJ0'' \<rparr>) demo_site)) = 0"
proof -
  let ?env = "demo_auth\<lparr> av_accept_oidc := True, av_oidc := Some (\<lambda>_. Inr (''root'', [])) \<rparr>"
  have "\<forall>j. is_admin [] demo_site j \<longrightarrow> j = ''root''"
    by (auto simp: is_admin_def demo_site_def demo_row_def admin_row_def)
  moreover have "get_user demo_site ''root'' = Some (demo_row ''root'' [''admin''])"
    by (simp add: get_user_def find_row_def demo_site_def demo_row_def)
  moreover have "count_admins [] demo_site = 1"
    by (simp add: count_admins_def demo_site_def demo_row_def live_user_def admin_row_def)
  ultimately show ?thesis
    using oidc_sign_in_erases_roles [where req = "root_call\<lparr> hr_authorization := Some ''Bearer eyJ0'' \<rparr>" and raw = "''eyJ0''" and env = ?env
        and i = "''root''" and groups = "[]" and z = demo_site and ags = "[]"] demo_directory_ok
    by (simp add: verify_oidc_token_def demo_auth_def)
qed

subsection \<open>The token of a new user\<close>

lemma eachT_add_frame:
  assumes "eachT (\<lambda>g. add_group_member_tx g i) gs z = Inr (x, z')"
  shows "si_tokens z' = si_tokens z" and "si_roles z' = si_roles z"
  using assms by (induction gs arbitrary: z) (auto simp: tx_simps add_group_member_tx_def split: if_splits; fastforce)+

lemma record_from_tables:
  assumes "record_from env n evs z = Inr (x, z')"
  shows "si_tokens z' = si_tokens z" and "si_roles z' = si_roles z"
  using assms by (induction evs arbitrary: n z) (auto simp: tx_simps recordT_def in_store_def res_simps; fastforce)+

lemma user_add_tx_effect:
  assumes "user_add_tx env input who ctx t z = Inr (x, y)"
  obtains u where "get_user y (ua_id input) = Some u" and "us_roles u = ua_roles input" and "us_status u = UsActive"
    and "\<not> us_deleted u" and "set (si_members y) = set (si_members z) \<union> (\<lambda>g. (g, ua_id input)) ` set (ua_groups input)"
    and "si_tokens y = si_tokens z @ [t\<lparr> tk_status := TokActive, tk_revoked_at := None \<rparr>]" and "si_roles y = si_roles z"
proof -
  let ?i = "ua_id input" and ?now = "ad_clock env 0"
  obtain claimed z1 z2 z3 z4 z5 evs where
    claim: "(case ua_onboarding_claim input of
               None \<Rightarrow> doneT True
             | Some c \<Rightarrow> claim_onboarding_approved_tx (oc_request_id c) (oc_decided_by c) (oc_decided_at c)
                 (oc_approved_roles c) (oc_approved_groups c) (oc_decision_comment c)) z = Inr (claimed, z1)"
    and none: "get_user z1 ?i = None"
    and upsert: "upsert_user_tx (new_user input ?now) z1 = Inr ((), z2)"
    and slack: "(case (ua_slack_user_id input, ua_source input) of
               (Some slack_id, Some source) \<Rightarrow> set_slack_user_id_tx ?i slack_id source
             | _ \<Rightarrow> doneT ()) z2 = Inr ((), z3)"
    and adds: "eachT (\<lambda>g. add_group_member_tx g ?i) (ua_groups input) z3 = Inr ((), z4)"
    and token: "create_token_tx t z4 = Inr ((), z5)"
    and records: "record_from env 0 evs z5 = Inr (x, y)"
    using assms unfolding user_add_tx_def Let_def
    by (simp add: thenT_Inr user_exists_tx_def queryT_def count_active_tx_def checkT_Inr) blast
  have z1: "si_users z1 = si_users z" "si_members z1 = si_members z" "si_tokens z1 = si_tokens z" "si_roles z1 = si_roles z"
    using claim by (auto simp: claim_onboarding_approved_tx_def Let_def split: option.splits)
  have z2: "si_users z2 = si_users z1 @ [new_user input ?now]" "si_members z2 = si_members z1" "si_tokens z2 = si_tokens z1"
    "si_roles z2 = si_roles z1"
    using upsert none by (auto simp: upsert_user_tx_def writeT_def new_user_def)
  have u2: "get_user z2 ?i = Some (new_user input ?now)"
    using none by (simp add: get_user_def z2 find_row_append new_user_def)
  consider "z3 = z2" | sl so where "z3 = update_user ?i (\<lambda>_. True) (\<lambda>u. u\<lparr> us_slack_user_id := Some sl, us_source := so \<rparr>) z2"
    using slack by (auto simp: set_slack_user_id_tx_def split: option.splits if_splits)
  then have z3: "\<exists>u. get_user z3 ?i = Some u \<and> us_roles u = ua_roles input \<and> us_status u = UsActive \<and> \<not> us_deleted u"
    "si_members z3 = si_members z2" "si_tokens z3 = si_tokens z2" "si_roles z3 = si_roles z2"
    by (cases; simp add: u2 get_user_update new_user_def; simp add: update_user_def)+
  then obtain u where u3: "get_user z3 ?i = Some u" "us_roles u = ua_roles input" "us_status u = UsActive" "\<not> us_deleted u"
    by blast
  have z5: "si_users z5 = si_users z4" "si_members z5 = si_members z4" "si_roles z5 = si_roles z4"
    "si_tokens z5 = si_tokens z4 @ [t\<lparr> tk_status := TokActive, tk_revoked_at := None \<rparr>]"
    using token by (auto simp: create_token_tx_def create_token_Inr)
  show ?thesis
    using u3 z1 z2 z3 z5 eachT_add_members [OF adds] eachT_add_frame [OF adds] record_from_frame [OF records]
      record_from_tables [OF records]
    by (intro that [of u]) (simp_all add: get_user_def)
qed


lemma default_set:
  assumes "set xs = set ys"
  shows "set (case (xs, d) of ([], Some r) \<Rightarrow> [r] | _ \<Rightarrow> xs) = set (case (ys, d) of ([], Some r) \<Rightarrow> [r] | _ \<Rightarrow> ys)"
  using assms by (cases xs; cases ys; cases d) auto

lemma granted_names:
  assumes "get_user y i = Some u" and "\<not> us_deleted u" and "set (groups_of y i) = set gs"
  shows "set (fst (resolve_from_db snap y i [])) = set (granted_roles snap (us_roles u) gs)"
proof -
  have "set (remdups (us_roles u @ concat (map (roles_for_group snap) (groups_of y i))))
      = set (foldl push_new (us_roles u) (concat (map (roles_for_group snap) gs)))"
    using assms(3) by (simp add: set_push_new)
  from default_set [OF this, of "sn_default_role snap"] show ?thesis
    using assms(1,2) by (simp add: resolve_from_db_def granted_roles_def Let_def)
qed

lemma mem_groups_of: "g \<in> set (groups_of z i) \<longleftrightarrow> (g, i) \<in> set (si_members z)"
  by (force simp: groups_of_def)

lemma mem_map_filter: "r \<in> set (List.map_filter f xs) \<longleftrightarrow> (\<exists>x \<in> set xs. f x = Some r)"
  by (induction xs) (auto simp: List.map_filter_simps split: option.splits)

lemma set_resolve_role_names:
  "set (resolve_role_names snap z names) = {r. \<exists>n \<in> set names. sn_roles snap n = Some r}
     \<union> resolved_of ` {d \<in> set (si_roles z). rd_name d \<in> set names \<and> sn_roles snap (rd_name d) = None}"
  by (rule set_eqI) (auto simp: resolve_role_names_def Let_def get_roles_by_names_def mem_map_filter)

lemma resolved_names:
  assumes "snapshot_ok snap"
  shows "rr_name ` set (resolve_role_names snap z names) \<subseteq> set names"
  using assms by (auto simp: set_resolve_role_names snapshot_ok_def resolved_of_def)

text \<open>C26: The token that comes with a new user signs the user in: with the identifier of the user, the groups the
  user was added to and all the roles that were granted and exist. The token has the form the generator
  produces, no stored token has its hash, and the user had no memberships left from before.\<close>

theorem new_user_can_sign_in:
  assumes run: "user_add env input who ctx z = (Inr (out, ws), z')"
    and snap: "av_snapshot (ad_auth env) = new_snapshot group_roles defs default_role"
    and form: "token_form (ad_raw_token env)"
    and fresh: "\<forall>t \<in> set (si_tokens z). tk_hash t \<noteq> x_sha256_hex (ad_lib env) (ad_raw_token env)"
    and alone: "groups_of z (ua_id input) = []"
    and exist: "resolve_role_names (av_snapshot (ad_auth env)) z (uo_roles out) \<noteq> []"
    and same: "av_lib aenv = ad_lib env" "av_snapshot aenv = av_snapshot (ad_auth env)" "\<forall>n. av_fault aenv n = None"
    and req: "hr_authorization req = Some (''Bearer '' @ uo_token out)"
  shows "\<exists>user z''. auth_middleware aenv req z' = (Inr user, z'') \<and> au_subject_id user = ua_id input
    \<and> au_subject_type user = SubjUser \<and> au_token_id user = Some (ad_new_id env)
    \<and> set (au_roles user) = set (resolve_role_names (av_snapshot (ad_auth env)) z (uo_roles out))
    \<and> set (au_groups user) = set (ua_groups input)"
proof -
  let ?i = "ua_id input" and ?raw = "ad_raw_token env" and ?snap = "av_snapshot (ad_auth env)"
  let ?granted = "granted_roles ?snap (ua_roles input) (ua_groups input)"
  let ?t = "initial_token env ?i ?granted (ad_clock env 0)"
  obtain y where tx: "user_add_tx env input who ctx ?t z = Inr ((), y)" and z': "z' = invalidate_cache ?i y"
    and out: "uo_token out = ?raw" "uo_roles out = ?granted"
    using run by (auto simp: user_add_def Let_def permitM_def io_simps dest!: uow.commits)
  obtain u where u: "get_user y ?i = Some u" "us_roles u = ua_roles input" "us_status u = UsActive" "\<not> us_deleted u"
    and members: "set (si_members y) = set (si_members z) \<union> (\<lambda>g. (g, ?i)) ` set (ua_groups input)"
    and tokens: "si_tokens y = si_tokens z @ [?t\<lparr> tk_status := TokActive, tk_revoked_at := None \<rparr>]" and roles: "si_roles y = si_roles z"
    using tx by (rule user_add_tx_effect)
  have groups: "set (groups_of z' ?i) = set (ua_groups input)"
  proof (rule set_eqI)
    fix g
    have "(g, ?i) \<notin> set (si_members z)"
      using alone mem_groups_of [of g z ?i] by simp
    then show "g \<in> set (groups_of z' ?i) \<longleftrightarrow> g \<in> set (ua_groups input)"
      unfolding mem_groups_of by (simp add: z' invalidate_cache_def members image_iff)
  qed
  have user': "get_user z' ?i = Some u" by (simp add: z' invalidate_cache_def get_user_def u(1) [unfolded get_user_def])
  have pre: "extract_prefix ?raw = take 8 (drop 4 ?raw)"
    using form by (simp add: extract_prefix_def token_form_def)
  have "find_row (\<lambda>t. tk_hash t = x_sha256_hex (ad_lib env) ?raw) (filter Q (si_tokens z)) = None" for Q
    using fresh by (simp add: find_row_None)
  then have verified: "verify_api_token aenv z' ?raw = Inr \<lparr> vt_id = ad_new_id env, vt_subject_id = ?i,
      vt_subject_type = SubjUser, vt_scope_ceiling = Some ?granted \<rparr>"
    using form
    by (simp add: verify_api_token_def same token_verify_def z' invalidate_cache_def tokens find_row_append initial_token_def pre)
  let ?names = "fst (resolve_from_db ?snap z' ?i [])"
  let ?rs = "resolve_role_names ?snap z' ?names"
  have names: "set ?names = set ?granted"
    using granted_names [OF user' u(4) groups] u(2) by simp
  have rs: "set ?rs = set (resolve_role_names ?snap z ?granted)"
    using names roles by (simp add: set_resolve_role_names z' invalidate_cache_def)
  then have ne: "?rs \<noteq> []" using exist out(2) by force
  have res: "resolve aenv ?i SubjUser [] z'
      = (Inr ?rs, z'\<lparr> si_cache := (si_cache z')(?i \<mapsto> (map rr_name ?rs, av_clock aenv 1)) \<rparr>)" (is "_ = (_, ?z1)")
    by (simp add: resolve_def Let_def cached_def same z' invalidate_cache_def)
  have "\<forall>r \<in> set ?rs. rr_name r \<in> set ?granted"
    using resolved_names [of ?snap z' ?names] new_snapshot_ok snap names by auto
  then have filtered: "filter (\<lambda>r. rr_name r \<in> set ?granted) ?rs = ?rs" by simp
  have "?granted \<noteq> []" using ne names by (auto simp: resolve_role_names_def get_roles_by_names_def List.map_filter_simps)
  then have scoped: "apply_ceiling SubjUser (Some ?granted) ?rs = Inr ?rs"
    using ne filtered by (simp add: apply_ceiling_def Let_def)
  let ?user = "\<lparr> au_subject_id = ?i, au_subject_type = SubjUser, au_roles = ?rs, au_groups = groups_of ?z1 ?i,
      au_token_id = Some (ad_new_id env) \<rparr>"
  have "\<not> is_suspended z' ?i" using user' u(3) by (simp add: is_suspended_def)
  then have api: "api_user aenv req ?raw z' = (Inr ?user, ?z1)"
    using verified res scoped same(3)
    by (simp add: api_user_def thenM_def or_logged_def refuse_suspended_def readM_def liftM_def groups_for_subject_def)
  have "get_user ?z1 ?i = Some u" using user' by (simp add: get_user_def)
  then have fin: "finish_user aenv req ?user ?z1 = (Inr (?user\<lparr> au_groups := foldl push_new (groups_of ?z1 ?i) (groups_of ?z1 ?i) \<rparr>), ?z1)"
    using same(3) by (simp add: finish_user_def thenM_def admit_user_def readM_def writeM_def liftM_def groups_for_subject_def ensure_exists_def)
  have "take 3 ?raw \<noteq> ''eyJ''"
    using form by (cases ?raw rule: list.exhaust) (auto simp: token_form_def)
  then have "auth_middleware aenv req z' = (Inr (?user\<lparr> au_groups := foldl push_new (groups_of ?z1 ?i) (groups_of ?z1 ?i) \<rparr>), ?z1)"
    using api fin by (simp add: auth_middleware_def req out(1) Let_def thenM_def [of "api_user _ _ _"])
  moreover have "set (groups_of ?z1 ?i) = set (ua_groups input)"
    using groups by (simp add: groups_of_def)
  ultimately show ?thesis
    using rs out(2) by (simp add: set_push_new)
qed


definition ann_input :: user_add_input where
  "ann_input = \<lparr> ua_id = ''ann'', ua_roles = [''admin''], ua_groups = [], ua_slack_user_id = None, ua_source = None,
     ua_onboarding_claim = None \<rparr>"

lemma ann_added:
  obtains out ws where "user_add demo_env ann_input demo_admin CtxSystem demo_site
      = (Inr (out, ws), snd (user_add demo_env ann_input demo_admin CtxSystem demo_site))"
    and "uo_token out = ''dbw_abcdefgh''" and "uo_roles out = [''admin'']"
proof -
  have g: "granted_roles (av_snapshot (ad_auth demo_env)) [''admin''] [] = [''admin'']"
    by (simp add: granted_roles_def demo_env_def demo_auth_def)
  have "\<exists>z. user_add_tx demo_env ann_input demo_admin CtxSystem (initial_token demo_env ''ann'' [''admin''] 5) demo_site = Inr ((), z)"
    by (simp add: user_add_tx_def Let_def thenT_def ann_input_def user_exists_tx_def queryT_def demo_site_def get_user_def find_row_def demo_row_def
        count_active_tx_def count_active_def ad_max_users_def demo_env_def demo_auth_def upsert_user_tx_def writeT_def new_user_def
        create_token_tx_def create_token_def initial_token_def demo_token_def membership_events_def recordT_def in_store_def
        record_event_def record_audit_def insert_audit_event_def)
  then obtain z where z: "user_add_tx demo_env ann_input demo_admin CtxSystem (initial_token demo_env ''ann'' [''admin''] 5) demo_site = Inr ((), z)"
    by blast
  have tx: "run_in_tx no_faults (user_add_tx demo_env ann_input demo_admin CtxSystem (initial_token demo_env ''ann'' [''admin''] 5)) demo_site
      = (Inr (), z)"
    using z by (simp add: run_in_tx_def no_faults_def)
  have checks: "user_add_checks ann_input demo_site = Inr ()"
    by (simp add: user_add_checks_def ann_input_def user_id_char_def is_alnum_def is_lower_def known_roles_def known_groups_def
        builtin_names_def)
  have c: "ad_clock demo_env 0 = 5" "ad_faults demo_env = no_faults" "ad_raw_token demo_env = ''dbw_abcdefgh''"
    "ua_id ann_input = ''ann''" "ua_roles ann_input = [''admin'']" "ua_groups ann_input = []"
    by (simp_all add: demo_env_def ann_input_def)
  show ?thesis
    by (rule that [of "\<lparr> uo_id = ''ann'', uo_token = ''dbw_abcdefgh'', uo_token_prefix = extract_prefix ''dbw_abcdefgh'',
          uo_roles = [''admin''], uo_groups = [] \<rparr>"
        "[identity_webhook ''user.created'' demo_admin ''ann'' '' created'']"])
      (simp_all add: user_add_def permitM_def demo_permit thenM_def liftM_def checkM_def checks Let_def c g tx putM_def)
qed

theorem new_user_can_sign_in_witness:
  "\<exists>user z. auth_middleware demo_auth (root_call\<lparr> hr_authorization := Some ''Bearer dbw_abcdefgh'' \<rparr>)
       (snd (user_add demo_env ann_input demo_admin CtxSystem demo_site)) = (Inr user, z)
     \<and> au_subject_id user = ''ann'' \<and> au_token_id user = Some ''t2''"
proof -
  obtain out ws where run: "user_add demo_env ann_input demo_admin CtxSystem demo_site
      = (Inr (out, ws), snd (user_add demo_env ann_input demo_admin CtxSystem demo_site))"
    and out: "uo_token out = ''dbw_abcdefgh''" "uo_roles out = [''admin'']"
    by (rule ann_added)
  have "token_form (ad_raw_token demo_env)"
    by (simp add: token_form_def demo_env_def)
  moreover have "\<forall>t \<in> set (si_tokens demo_site). tk_hash t \<noteq> x_sha256_hex (ad_lib demo_env) (ad_raw_token demo_env)"
    by (simp add: demo_site_def demo_token_def ad_lib_def demo_env_def demo_auth_def example_lib_def)
  moreover have "groups_of demo_site (ua_id ann_input) = []" by (simp add: groups_of_def demo_site_def)
  moreover have "resolve_role_names (av_snapshot (ad_auth demo_env)) demo_site (uo_roles out) \<noteq> []"
    by (simp add: out resolve_role_names_def Let_def List.map_filter_simps demo_env_def demo_auth_def)
  moreover have "av_snapshot (ad_auth demo_env) = new_snapshot [] [] None" "av_lib demo_auth = ad_lib demo_env"
    "av_snapshot demo_auth = av_snapshot (ad_auth demo_env)" "\<forall>n. av_fault demo_auth n = None"
    "ua_id ann_input = ''ann''" "ad_new_id demo_env = ''t2''"
    by (simp_all add: ad_lib_def demo_env_def demo_auth_def ann_input_def)
  moreover have "hr_authorization (root_call\<lparr> hr_authorization := Some ''Bearer dbw_abcdefgh'' \<rparr>) = Some (''Bearer '' @ uo_token out)"
    by (simp add: out)
  ultimately show ?thesis using new_user_can_sign_in [OF run] by metis
qed

end
