(* ===== verification/Migration_Files.thy ===== *)
theory Migration_Files
  imports Sql Audit_Events "HOL-Library.Char_ord" "HOL-Library.List_Lexorder"
begin

text \<open>
  Migration files and the details built from them: \<open>dbward-migrate/src/parser.rs\<close> and \<open>approval.rs\<close>. A
  directory is what reading it yields, in any order; reading a file may fail. The lemmas show how
  a file with its two markers is taken apart, exactly which files make the parser panic, that a new file
  never replaces an old one, and which migrations a detail contains, in which order.
\<close>

subsection \<open>Errors\<close>

datatype driver_error = ConnectionFailed string | AuthenticationFailed string | QueryFailed string | DriverTimeout
  | DriverCancelled | UnsupportedScheme string | PartialMigration string string | MigrationTimeout string string

datatype migrate_error = MgDriver driver_error | MgIo string | MgConfig string | MgCancelled
  | MgPartialApplied "string list" migrate_error

text \<open>A slice with its end before its start makes the thread panic; a call then does not return an error.\<close>

datatype failure = Returned migrate_error | Panicked

definition slice :: "string \<Rightarrow> nat \<Rightarrow> nat \<Rightarrow> failure + string" where
  "slice s a b = (if a \<le> b \<and> b \<le> length s then Inr (take (b - a) (drop a s)) else Inl Panicked)"

subsection \<open>Searching\<close>

text \<open>\<open>str::find\<close> and \<open>str::contains\<close> with a text, \<open>str::strip_suffix\<close>.\<close>

fun find_str :: "string \<Rightarrow> string \<Rightarrow> nat option" where
  "find_str p [] = (if p = [] then Some 0 else None)"
| "find_str p (c # s) = (if take (length p) (c # s) = p then Some 0 else map_option Suc (find_str p s))"

definition strip_suffix :: "string \<Rightarrow> string \<Rightarrow> string option" where
  "strip_suffix p s = map_option rev (strip_prefix (rev p) (rev s))"

lemma strip_suffix_append [simp]: "strip_suffix p (s @ p) = Some s"
  by (simp add: strip_suffix_def)

lemma find_str_Some:
  "find_str p s = Some n \<Longrightarrow> n + length p \<le> length s \<and> take (length p) (drop n s) = p"
proof (induction s arbitrary: n)
  case Nil
  then show ?case by (auto split: if_splits)
next
  case (Cons c s)
  show ?case
  proof (cases "take (length p) (c # s) = p")
    case True
    then have "length p \<le> length (c # s)" by (metis length_take min.cobounded1)
    with True Cons.prems show ?thesis by auto
  next
    case False
    with Cons show ?thesis by auto
  qed
qed

lemma find_str_first:
  assumes "find_str p s = Some n" and "m < n"
  shows "take (length p) (drop m s) \<noteq> p"
  using assms by (induction s arbitrary: n m) (auto split: if_splits simp: less_Suc_eq_0_disj)

lemma find_str_at:
  assumes "take (length p) (drop n s) = p" and "\<And>m. m < n \<Longrightarrow> take (length p) (drop m s) \<noteq> p" and "n \<le> length s"
  shows "find_str p s = Some n"
  using assms
proof (induction s arbitrary: n)
  case Nil
  then show ?case by auto
next
  case (Cons c s)
  show ?case
  proof (cases n)
    case 0
    with Cons.prems show ?thesis by simp
  next
    case (Suc k)
    have "take (length p) (drop m s) \<noteq> p" if "m < k" for m
      using Cons.prems(2) [of "Suc m"] that Suc by simp
    then have "find_str p s = Some k"
      using Cons.prems Suc by (intro Cons.IH) auto
    moreover have "take (length p) (c # s) \<noteq> p" using Cons.prems(2) [of 0] Suc by simp
    ultimately show ?thesis using Suc by simp
  qed
qed

lemma find_str_None:
  assumes "find_str p s = None" and "m \<le> length s"
  shows "take (length p) (drop m s) \<noteq> p"
  using assms by (induction s arbitrary: m) (auto split: if_splits simp: drop_Cons split: nat.splits)

text \<open>A text without line breaks that is missing in \<open>a\<close> is first found after the line break behind \<open>a\<close>.\<close>

lemma find_str_after_line:
  assumes "find_str p a = None" and "c \<notin> set p" and "p \<noteq> []"
  shows "find_str p (a @ c # p @ b) = Some (Suc (length a))"
proof (rule find_str_at)
  show "take (length p) (drop (Suc (length a)) (a @ c # p @ b)) = p" by simp
next
  fix m
  assume m: "m < Suc (length a)"
  show "take (length p) (drop m (a @ c # p @ b)) \<noteq> p"
  proof (cases "m + length p \<le> length a")
    case True
    then have "take (length p) (drop m (a @ c # p @ b)) = take (length p) (drop m a)" by simp
    with find_str_None [OF assms(1)] True show ?thesis by simp
  next
    case False
    let ?k = "length a - m"
    have "(take (length p) (drop m (a @ c # p @ b))) ! ?k = c"
      using False m by (simp add: nth_append)
    moreover have "?k < length p" using False m by simp
    ultimately show ?thesis using assms(2) by (metis nth_mem)
  qed
qed simp

subsection \<open>Migration files\<close>

record migration =
  mg_version :: string
  mg_name :: string
  mg_up_sql :: string
  mg_down_sql :: "string option"
  mg_up_transactional :: bool
  mg_down_transactional :: bool

abbreviation newline :: char where
  "newline \<equiv> CHR 0x0A"

definition up_marker :: string where
  "up_marker = ''-- migrate:up''"

definition down_marker :: string where
  "down_marker = ''-- migrate:down''"

definition line_end :: "string \<Rightarrow> nat \<Rightarrow> nat" where
  "line_end content n = (case find_str [newline] (drop n content) of Some i \<Rightarrow> n + i + 1 | None \<Rightarrow> length content)"

definition parse_marker_line :: "string \<Rightarrow> nat \<Rightarrow> nat \<Rightarrow> bool \<times> nat" where
  "parse_marker_line content marker_pos marker_len =
     (let after_marker = marker_pos + marker_len;
          stop = line_end content after_marker;
          marker_line = take (stop - after_marker) (drop after_marker content)
      in (find_str ''transaction:false'' marker_line = None, stop))"

definition parse_migration_file :: "string \<Rightarrow> string \<Rightarrow> failure + migration option" where
  "parse_migration_file filename content =
     (case strip_suffix ''.sql'' filename of
        None \<Rightarrow> Inr None
      | Some stem \<Rightarrow>
     case split_once (CHR ''_'') stem of
        None \<Rightarrow> Inr None
      | Some (version, name) \<Rightarrow>
     case find_str up_marker content of
        None \<Rightarrow> Inr None
      | Some up_pos \<Rightarrow>
     let (up_tx, up_sql_start) = parse_marker_line content up_pos (length up_marker) in
     case find_str down_marker content of
        Some down_pos \<Rightarrow>
          tryE (slice content up_sql_start down_pos) (\<lambda>up.
          let (down_tx, down_sql_start) = parse_marker_line content down_pos (length down_marker);
              down = trim (drop down_sql_start content)
          in Inr (Some \<lparr> mg_version = version, mg_name = name, mg_up_sql = trim up,
                         mg_down_sql = (if down = [] then None else Some down), mg_up_transactional = up_tx,
                         mg_down_transactional = down_tx \<rparr>))
      | None \<Rightarrow>
          Inr (Some \<lparr> mg_version = version, mg_name = name, mg_up_sql = trim (drop up_sql_start content),
                      mg_down_sql = None, mg_up_transactional = up_tx, mg_down_transactional = True \<rparr>))"

text \<open>What reading a directory yields: it may be missing or unreadable; otherwise its entries, each with its
  content or the error of reading it.\<close>

datatype dir_state = Missing | Unreadable string | Entries "(string \<times> (string + string)) list"

text \<open>\<open>Path::extension\<close> of a file name.\<close>

definition extension :: "string \<Rightarrow> string option" where
  "extension name =
     (case split_once (CHR ''.'') (rev name) of
        None \<Rightarrow> None
      | Some (ext, rest) \<Rightarrow> if rest = [] then None else Some (rev ext))"

definition sql_entries :: "(string \<times> (string + string)) list \<Rightarrow> (string \<times> (string + string)) list" where
  "sql_entries entries = sort_key fst (filter (\<lambda>(name, _). extension name = Some ''sql'') entries)"

fun parse_entries :: "(string \<times> (string + string)) list \<Rightarrow> failure + migration list" where
  "parse_entries [] = Inr []"
| "parse_entries ((filename, read) # entries) =
     tryE (map_err (\<lambda>e. Returned (MgIo e)) read) (\<lambda>content.
     tryE (parse_migration_file filename content) (\<lambda>m.
     tryE (parse_entries entries) (\<lambda>ms. Inr (case m of Some migration \<Rightarrow> migration # ms | None \<Rightarrow> ms))))"

definition parse_migrations_dir :: "dir_state \<Rightarrow> failure + migration list" where
  "parse_migrations_dir dir =
     (case dir of
        Missing \<Rightarrow> Inr []
      | Unreadable e \<Rightarrow> Inl (Returned (MgIo e))
      | Entries entries \<Rightarrow> parse_entries (sql_entries entries))"

text \<open>\<open>create_migration_file\<close>: \<open>stamp\<close> prints a time to the second; a taken name is retried a second later. Creating
  a file may fail for other reasons, \<open>fault\<close> gives the error of the attempt with a name.\<close>

partial_function (option) create_loop ::
  "(int \<Rightarrow> string) \<Rightarrow> (string \<Rightarrow> string option) \<Rightarrow> string \<Rightarrow> int \<Rightarrow> (string \<times> (string + string)) list
     \<Rightarrow> (migrate_error + string \<times> (string \<times> (string + string)) list) option" where
  "create_loop stamp fault name ts entries =
     (let filename = stamp ts @ ''_'' @ name @ ''.sql'' in
      if filename \<in> fst ` set entries then create_loop stamp fault name (ts + 1) entries
      else
        case fault filename of
          Some e \<Rightarrow> Some (Inl (MgIo e))
        | None \<Rightarrow>
            Some (Inr (filename, entries @ [(filename, Inr (up_marker @ [newline, newline] @ down_marker @ [newline]))])))"

definition create_migration_file ::
  "(int \<Rightarrow> string) \<Rightarrow> (string \<Rightarrow> string option) \<Rightarrow> dir_state \<Rightarrow> string \<Rightarrow> int
     \<Rightarrow> (migrate_error + string \<times> (string \<times> (string + string)) list) option" where
  "create_migration_file stamp fault dir name now =
     (case dir of
        Missing \<Rightarrow> create_loop stamp fault name now []
      | Unreadable e \<Rightarrow> Some (Inl (MgIo e))
      | Entries entries \<Rightarrow> create_loop stamp fault name now entries)"

subsection \<open>Migration details\<close>

record migration_entry =
  me_version :: string
  me_sql :: string
  me_transactional :: bool

record migration_detail =
  md_format :: string
  md_direction :: string
  md_versions :: "string list"
  md_migrations :: "migration_entry list"
  md_dir_sha256 :: string
  md_max_count :: "nat option"

definition entry_json :: "migration_entry \<Rightarrow> json" where
  "entry_json e =
     JObj [(''version'', JStr (me_version e)), (''sql'', JStr (me_sql e)), (''transactional'', JBool (me_transactional e))]"

definition to_detail_string :: "lib \<Rightarrow> migration_detail \<Rightarrow> string" where
  "to_detail_string lib d =
     x_json_text lib (JObj ([(''format'', JStr (md_format d)), (''direction'', JStr (md_direction d)),
       (''versions'', JArr (map JStr (md_versions d))), (''migrations'', JArr (map entry_json (md_migrations d))),
       (''dir_sha256'', JStr (md_dir_sha256 d))]
       @ (case md_max_count d of Some n \<Rightarrow> [(''max_count'', JNum (int n))] | None \<Rightarrow> [])))"

text \<open>The derived reader of details is third-party code: \<open>detail_read\<close> gives the detail or the text of its error.\<close>

definition parse_detail :: "(string \<Rightarrow> string + migration_detail) \<Rightarrow> string \<Rightarrow> migrate_error + migration_detail" where
  "parse_detail detail_read detail = map_err (\<lambda>e. MgConfig (''invalid migration detail JSON: '' @ e)) (detail_read detail)"

fun hash_manifest :: "lib \<Rightarrow> (string \<times> (string + string)) list \<Rightarrow> migrate_error + string" where
  "hash_manifest lib [] = Inr []"
| "hash_manifest lib ((filename, read) # entries) =
     tryE (map_err MgIo read) (\<lambda>content.
     tryE (hash_manifest lib entries) (\<lambda>rest.
     Inr (filename @ [CHR 0x00] @ x_sha256_hex lib content @ [newline] @ rest)))"

definition hash_migrations_dir :: "lib \<Rightarrow> dir_state \<Rightarrow> migrate_error + string" where
  "hash_migrations_dir lib dir =
     (case dir of
        Missing \<Rightarrow> Inr (x_sha256_hex lib [])
      | Unreadable e \<Rightarrow> Inl (MgIo e)
      | Entries entries \<Rightarrow> tryE (hash_manifest lib (sql_entries entries)) (\<lambda>text. Inr (x_sha256_hex lib text)))"

definition up_entry :: "migration \<Rightarrow> migration_entry" where
  "up_entry m = \<lparr> me_version = mg_version m, me_sql = mg_up_sql m, me_transactional = mg_up_transactional m \<rparr>"

definition build_migrate_up_detail :: "lib \<Rightarrow> dir_state \<Rightarrow> string list \<Rightarrow> failure + migration_detail" where
  "build_migrate_up_detail lib dir applied_versions =
     tryE (parse_migrations_dir dir) (\<lambda>all_migrations.
     let pending = filter (\<lambda>m. mg_version m \<notin> set applied_versions) all_migrations;
         migrations = map up_entry pending
     in tryE (map_err Returned (hash_migrations_dir lib dir)) (\<lambda>h.
     Inr \<lparr> md_format = ''v2'', md_direction = ''up'', md_versions = map me_version migrations, md_migrations = migrations,
           md_dir_sha256 = h, md_max_count = None \<rparr>))"

fun down_entries :: "migration list \<Rightarrow> string list \<Rightarrow> migrate_error + migration_entry list" where
  "down_entries migrations [] = Inr []"
| "down_entries migrations (version # versions) =
     tryE (ok_or (find (\<lambda>m. mg_version m = version) migrations)
            (MgConfig (''no migration file for version '' @ quoted version))) (\<lambda>m.
     tryE (ok_or (mg_down_sql m)
            (MgConfig (''no down migration SQL for version '' @ quoted version @ '' (missing -- migrate:down marker)''))) (\<lambda>sql.
     tryE (down_entries migrations versions) (\<lambda>entries.
     Inr (\<lparr> me_version = version, me_sql = sql, me_transactional = mg_down_transactional m \<rparr> # entries))))"

definition build_migrate_down_detail :: "lib \<Rightarrow> dir_state \<Rightarrow> string list \<Rightarrow> failure + migration_detail" where
  "build_migrate_down_detail lib dir versions_to_revert =
     tryE (parse_migrations_dir dir) (\<lambda>all_migrations.
     tryE (map_err Returned (down_entries all_migrations versions_to_revert)) (\<lambda>migrations.
     tryE (map_err Returned (hash_migrations_dir lib dir)) (\<lambda>h.
     Inr \<lparr> md_format = ''v2'', md_direction = ''down'', md_versions = map me_version migrations, md_migrations = migrations,
           md_dir_sha256 = h, md_max_count = None \<rparr>)))"

definition list_down_versions :: "dir_state \<Rightarrow> failure + string list" where
  "list_down_versions dir =
     tryE (parse_migrations_dir dir) (\<lambda>migrations.
     Inr (map mg_version (filter (\<lambda>m. mg_down_sql m \<noteq> None) migrations)))"

subsection \<open>Which files are read, and how\<close>

lemma line_end_bounds: "n \<le> length s \<Longrightarrow> n \<le> line_end s n \<and> line_end s n \<le> length s"
  using find_str_Some [of "[newline]" "drop n s"] by (auto simp: line_end_def split: option.splits)

text \<open>A file the parser recognises by its name, in which the down marker comes before the end of the line of the up
  marker.\<close>

definition misplaced :: "string \<Rightarrow> string \<Rightarrow> bool" where
  "misplaced filename content \<longleftrightarrow>
     (case strip_suffix ''.sql'' filename of Some stem \<Rightarrow> CHR ''_'' \<in> set stem | None \<Rightarrow> False)
     \<and> (case (find_str up_marker content, find_str down_marker content) of
          (Some u, Some d) \<Rightarrow> d < line_end content (u + length up_marker)
        | _ \<Rightarrow> False)"

lemma parse_file_panics: "parse_migration_file filename content = Inl e \<longleftrightarrow> e = Panicked \<and> misplaced filename content"
proof (cases "strip_suffix ''.sql'' filename")
  case None
  then show ?thesis by (simp add: parse_migration_file_def misplaced_def)
next
  case (Some stem)
  show ?thesis
  proof (cases "find_str down_marker content")
    case None
    with Some show ?thesis
      by (auto simp: parse_migration_file_def misplaced_def Let_def split: option.splits prod.splits)
  next
    case (Some d)
    then have "d \<le> length content" using find_str_Some by fastforce
    with \<open>strip_suffix ''.sql'' filename = Some stem\<close> Some show ?thesis
      by (auto simp: parse_migration_file_def misplaced_def parse_marker_line_def Let_def slice_def tryE_Inl not_le
          split: option.splits prod.splits if_splits dest: split_once_SomeD)
  qed
qed

definition parsed_of :: "string \<times> (string + string) \<Rightarrow> migration list" where
  "parsed_of entry =
     (case entry of
        (filename, Inr content) \<Rightarrow> (case parse_migration_file filename content of Inr (Some m) \<Rightarrow> [m] | _ \<Rightarrow> [])
      | _ \<Rightarrow> [])"

lemma parse_entries_readable:
  assumes "\<forall>(filename, read) \<in> set entries. \<exists>content. read = Inr content"
  shows "parse_entries entries =
    (if \<exists>(filename, read) \<in> set entries. \<exists>content. read = Inr content \<and> misplaced filename content then Inl Panicked
     else Inr (concat (map parsed_of entries)))"
  using assms
proof (induction entries)
  case Nil
  then show ?case by simp
next
  case (Cons entry entries)
  obtain filename content where entry: "entry = (filename, Inr content)" using Cons.prems by auto
  show ?case
  proof (cases "parse_migration_file filename content")
    case (Inl e)
    then have "e = Panicked" "misplaced filename content" by (simp_all add: parse_file_panics)
    with Inl show ?thesis by (auto simp: entry)
  next
    case (Inr m)
    then have "\<not> misplaced filename content" using parse_file_panics [of filename content Panicked] by simp
    with Inr Cons show ?thesis
      by (auto simp: entry parsed_of_def [of "(filename, Inr content)"] split: option.splits)
  qed
qed

text \<open>Trimming a text with a line break at its end.\<close>

lemma strip_one_newline:
  assumes "s \<noteq> []"
  shows "strip_one ws_seqs (s @ [newline]) = strip_one ws_seqs s"
proof -
  have "take (length p) (s @ [newline]) = p \<longleftrightarrow> take (length p) s = p" if "p \<in> set ws_seqs" for p
  proof (cases "length p \<le> length s")
    case False
    then have "1 < length p" using assms by (cases s) auto
    then have "newline \<notin> set p" using that by (auto simp: ws_seqs_def)
    moreover have "newline \<in> set (take (length p) (s @ [newline]))" using False by simp
    ultimately show ?thesis using False by (metis length_take min.cobounded1)
  qed simp
  then have "find (\<lambda>p. take (length p) (s @ [newline]) = p) ws_seqs = find (\<lambda>p. take (length p) s = p) ws_seqs"
    by (intro find_cong) simp_all
  then show ?thesis by (simp add: strip_one_def)
qed

lemma trim_front_newline:
  "trim_front ws_seqs (s @ [newline]) = (if trim_front ws_seqs s = [] then [] else trim_front ws_seqs s @ [newline])"
proof (induction s rule: length_induct)
  case (1 s)
  let ?n = "strip_one ws_seqs s"
  have nl: "trim_front ws_seqs [newline] = []"
    by (simp add: trim_front.simps [of _ "[newline]"] trim_front.simps [of _ "[]"] strip_one_def ws_seqs_def)
  show ?case
  proof (cases "s = [] \<or> ?n = 0")
    case True
    then show ?thesis
      using nl strip_one_newline [of s]
      by (cases "s = []") (simp_all add: trim_front.simps [of ws_seqs s] trim_front.simps [of ws_seqs "s @ [newline]"]
          trim_front.simps [of ws_seqs "[]"])
  next
    case False
    have "?n \<le> length s"
      using strip_one_newline [of s] by (auto simp: strip_one_def find_Some_iff split: option.splits)
        (metis length_take min.cobounded1)
    moreover have "length (drop ?n s) < length s" using False by simp
    ultimately show ?thesis
      using False 1 strip_one_newline [of s]
      by (simp add: trim_front.simps [of ws_seqs s] trim_front.simps [of ws_seqs "s @ [newline]"])
  qed
qed

lemma trim_newline: "trim (s @ [newline]) = trim s"
proof -
  have "trim_front (map rev ws_seqs) (newline # x) = trim_front (map rev ws_seqs) x" for x
    by (simp add: trim_front.simps [of _ "newline # x"] strip_one_def ws_seqs_def)
  then show ?thesis by (simp add: trim_def trim_front_newline)
qed

lemma find_newline: "newline \<notin> set a \<Longrightarrow> find_str [newline] (a @ newline # b) = Some (length a)"
  by (induction a) auto

lemma drop_at: "s = a @ b \<Longrightarrow> length a = n \<Longrightarrow> drop n s = b"
  by auto

lemma line_end_append:
  "newline \<notin> set b \<Longrightarrow> line_end (a @ b @ newline # c) (length a) = length a + length b + 1"
  by (simp add: line_end_def find_newline)

subsection \<open>Markers\<close>

text \<open>A file with both markers, each at the start of a line and the down marker after the line of the up marker, is
  split at the markers: the texts between them are trimmed, and an option \<open>transaction:false\<close> counts for the
  section on whose marker line it stands.\<close>

lemma migration_file_sections:
  assumes "CHR ''_'' \<notin> set version" and "newline \<notin> set o1" and "newline \<notin> set o2"
    and once: "find_str down_marker (up_marker @ o1 @ [newline] @ body) = None"
  shows "parse_migration_file (version @ ''_'' @ name @ ''.sql'')
      (up_marker @ o1 @ [newline] @ body @ [newline] @ down_marker @ o2 @ [newline] @ rest) =
    Inr (Some \<lparr> mg_version = version, mg_name = name, mg_up_sql = trim body,
      mg_down_sql = (if trim rest = [] then None else Some (trim rest)),
      mg_up_transactional = (find_str ''transaction:false'' (o1 @ [newline]) = None),
      mg_down_transactional = (find_str ''transaction:false'' (o2 @ [newline]) = None) \<rparr>)"
    (is "parse_migration_file _ ?content = _")
proof -
  let ?front = "up_marker @ o1 @ [newline] @ body" and ?tail = "o2 @ [newline] @ rest"
  let ?line1 = "length up_marker + length o1 + 1" and ?d = "Suc (length ?front)"
  let ?line2 = "?d + length down_marker + length o2 + 1"
  have stem: "strip_suffix ''.sql'' (version @ ''_'' @ name @ ''.sql'') = Some (version @ ''_'' @ name)"
    using strip_suffix_append [of "''.sql''" "version @ ''_'' @ name"] by simp
  have split: "split_once (CHR ''_'') (version @ ''_'' @ name) = Some (version, name)" using assms(1) by simp
  have up: "find_str up_marker ?content = Some 0" by (rule find_str_at) simp_all
  have "?content = ?front @ newline # down_marker @ ?tail" by simp
  moreover have "find_str down_marker (?front @ newline # down_marker @ ?tail) = Some ?d"
    by (rule find_str_after_line [OF once]) (simp_all add: down_marker_def)
  ultimately have down: "find_str down_marker ?content = Some ?d" by simp
  have "line_end ?content (length up_marker) = ?line1"
    using line_end_append [OF assms(2), of up_marker "body @ [newline] @ down_marker @ ?tail"] by simp
  then have m1: "parse_marker_line ?content 0 (length up_marker) = (find_str ''transaction:false'' (o1 @ [newline]) = None, ?line1)"
    by (simp add: parse_marker_line_def)
  have "line_end ?content (?d + length down_marker) = ?line2"
    using line_end_append [OF assms(3), of "?front @ [newline] @ down_marker" rest] by (simp add: add.assoc)
  then have m2: "parse_marker_line ?content ?d (length down_marker) = (find_str ''transaction:false'' (o2 @ [newline]) = None, ?line2)"
    by (simp add: parse_marker_line_def)
  have sql: "slice ?content ?line1 ?d = Inr (body @ [newline])" by (simp add: slice_def)
  have rest: "drop ?line2 ?content = rest"
    by (rule drop_at [of _ "?front @ [newline] @ down_marker @ o2 @ [newline]"]) simp_all
  show ?thesis
    unfolding parse_migration_file_def stem option.case split prod.case up m1 Let_def down sql tryE_simps m2 rest trim_newline ..
qed

text \<open>C36: Reading a directory whose migration files can all be read makes the program panic exactly if in some file
  with a migration's name the down marker stands before the end of the line of the up marker. Otherwise
  it returns the migrations of all files that have an up marker, in the order of the file names.\<close>

theorem migrations_dir_exact:
  assumes "\<forall>(filename, read) \<in> set entries. extension filename = Some ''sql'' \<longrightarrow> (\<exists>content. read = Inr content)"
  shows "parse_migrations_dir (Entries entries) =
    (if \<exists>(filename, read) \<in> set entries. extension filename = Some ''sql''
          \<and> (\<exists>content. read = Inr content \<and> misplaced filename content)
     then Inl Panicked
     else Inr (concat (map parsed_of (sort_key fst (filter (\<lambda>(filename, _). extension filename = Some ''sql'') entries)))))"
  using parse_entries_readable [of "sql_entries entries"] assms
  by (fastforce simp: parse_migrations_dir_def sql_entries_def)

text \<open>A template with its sections exchanged; the name is that of a migration.\<close>

definition swapped_file :: "string \<times> (string + string)" where
  "swapped_file = (''1_a.sql'', Inr (down_marker @ [newline] @ up_marker @ [newline]))"

theorem migrations_dir_exact_witness:
  "parse_migrations_dir (Entries [swapped_file]) = Inl Panicked
   \<and> parse_migrations_dir (Entries [(''2_b.sql'', Inr up_marker), (''1_a.sql'', Inr up_marker), (''x.txt'', Inl ''denied'')])
     = Inr [\<lparr> mg_version = ''1'', mg_name = ''a'', mg_up_sql = [], mg_down_sql = None, mg_up_transactional = True,
              mg_down_transactional = True \<rparr>,
            \<lparr> mg_version = ''2'', mg_name = ''b'', mg_up_sql = [], mg_down_sql = None, mg_up_transactional = True,
              mg_down_transactional = True \<rparr>]"
  using migrations_dir_exact [of "[swapped_file]"]
    migrations_dir_exact [of "[(''2_b.sql'', Inr up_marker), (''1_a.sql'', Inr up_marker), (''x.txt'', Inl ''denied'')]"]
  by (simp add: swapped_file_def extension_def misplaced_def strip_suffix_def line_end_def parsed_of_def
      parse_migration_file_def parse_marker_line_def up_marker_def down_marker_def trim_def trim_front.simps [of _ "[]"] Let_def)

subsection \<open>A new file\<close>

lemma create_loop_runs:
  assumes "\<And>j. j < k \<Longrightarrow> stamp (ts + int j) @ ''_'' @ name @ ''.sql'' \<in> fst ` set entries"
    and "stamp (ts + int k) @ ''_'' @ name @ ''.sql'' \<notin> fst ` set entries"
  shows "create_loop stamp fault name ts entries = create_loop stamp fault name (ts + int k) entries"
  using assms
proof (induction k arbitrary: ts)
  case 0
  then show ?case by simp
next
  case (Suc k)
  have "create_loop stamp fault name (ts + 1) entries = create_loop stamp fault name (ts + 1 + int k) entries"
    using Suc.prems(1) [of "Suc _"] Suc.prems(2) by (intro Suc.IH) (simp_all add: add.assoc)
  moreover have "create_loop stamp fault name ts entries = create_loop stamp fault name (ts + 1) entries"
    using Suc.prems(1) [of 0] by (subst create_loop.simps) simp
  ultimately show ?case by (simp add: add.assoc)
qed

text \<open>Where times to the second print differently and the directory can be written, a new file is created after
  at most as many attempts as there are entries, under a name no entry has; the entries stay as they
  are.\<close>

lemma created_file_fresh:
  assumes "inj stamp" and "\<And>filename. fault filename = None"
  shows "\<exists>k filename content. k \<le> length entries \<and> filename = stamp (now + int k) @ ''_'' @ name @ ''.sql''
    \<and> filename \<notin> fst ` set entries
    \<and> create_migration_file stamp fault (Entries entries) name now = Some (Inr (filename, entries @ [(filename, Inr content)]))"
proof -
  let ?file = "\<lambda>k. stamp (now + int k) @ ''_'' @ name @ ''.sql''"
  have "\<exists>k \<le> length entries. ?file k \<notin> fst ` set entries"
  proof (rule ccontr)
    assume "\<not> ?thesis"
    then have "?file ` {..length entries} \<subseteq> set (map fst entries)" by auto
    then have "card (?file ` {..length entries}) \<le> card (set (map fst entries))"
      by (intro card_mono) simp_all
    also have "\<dots> \<le> length entries" using card_length [of "map fst entries"] by simp
    finally have "card (?file ` {..length entries}) \<le> length entries" .
    moreover have "inj_on ?file {..length entries}" by (rule inj_onI) (simp add: inj_eq [OF assms(1)])
    ultimately show False by (simp add: card_image)
  qed
  then obtain k where k: "k \<le> length entries" "?file k \<notin> fst ` set entries" by blast
  define m where "m = (LEAST k. ?file k \<notin> fst ` set entries)"
  have m: "?file m \<notin> fst ` set entries" unfolding m_def by (rule LeastI) (rule k(2))
  have "m \<le> k" unfolding m_def by (rule Least_le) (rule k(2))
  with k(1) have "m \<le> length entries" by simp
  have "?file j \<in> fst ` set entries" if "j < m" for j
    using not_less_Least [OF that [unfolded m_def]] by simp
  then have "create_loop stamp fault name now entries = create_loop stamp fault name (now + int m) entries"
    using m by (intro create_loop_runs) auto
  also have "\<dots> = Some (Inr (?file m, entries @ [(?file m, Inr (up_marker @ [newline, newline] @ down_marker @ [newline]))]))"
    using m assms(2) by (subst create_loop.simps) (simp add: Let_def)
  finally show ?thesis using m \<open>m \<le> length entries\<close> unfolding create_migration_file_def dir_state.case by blast
qed

end
