(* ===== verification/Migration_Runner.thy ===== *)
theory Migration_Runner
  imports Migration_Files Execution_Token
begin

text \<open>
  Running migrations: \<open>dbward-migrate/src/runner.rs\<close>, the migration part of \<open>dbward-driver/src/postgres.rs\<close> and of
  the agent's \<open>executor/handlers.rs\<close>. A driver is a record of functions on the state of the database. The
  runner is proved correct for every driver that keeps the table of applied versions right; the PostgreSQL driver
  is such a driver on a server that runs a batch of statements in one transaction.
\<close>

subsection \<open>Drivers\<close>

type_synonym ('d, 'a) drv = "'d \<Rightarrow> (driver_error + 'a) \<times> 'd"

text \<open>The trait \<open>MigrationDriver\<close>.\<close>

record 'd migration_driver =
  apply_migration :: "string \<Rightarrow> string \<Rightarrow> u64 \<Rightarrow> ('d, unit) drv"
  revert_migration :: "string \<Rightarrow> string \<Rightarrow> u64 \<Rightarrow> ('d, unit) drv"
  apply_migration_no_tx :: "string \<Rightarrow> string \<Rightarrow> u64 \<Rightarrow> ('d, unit) drv"
  revert_migration_no_tx :: "string \<Rightarrow> string \<Rightarrow> u64 \<Rightarrow> ('d, unit) drv"
  ensure_migrations_table :: "('d, unit) drv"
  applied_versions :: "('d, string list) drv"
  mark_applied :: "string \<Rightarrow> ('d, unit) drv"
  remove_version :: "string \<Rightarrow> ('d, unit) drv"

text \<open>Sequencing, with the errors of the first computation converted.\<close>

definition thenD :: "('d \<Rightarrow> ('e + 'a) \<times> 'd) \<Rightarrow> ('e \<Rightarrow> 'f) \<Rightarrow> ('a \<Rightarrow> 'd \<Rightarrow> ('f + 'b) \<times> 'd) \<Rightarrow> 'd \<Rightarrow> ('f + 'b) \<times> 'd" where
  "thenD m f k d = (case m d of (Inl e, d') \<Rightarrow> (Inl (f e), d') | (Inr x, d') \<Rightarrow> k x d')"

lemma thenD_Inr: "thenD m f k d = (Inr y, d'') \<longleftrightarrow> (\<exists>x d'. m d = (Inr x, d') \<and> k x d' = (Inr y, d''))"
  by (auto simp: thenD_def split: prod.splits sum.splits)

lemma thenD_Inl:
  "thenD m f k d = (Inl e, d'') \<longleftrightarrow> (\<exists>e'. m d = (Inl e', d'') \<and> e = f e') \<or> (\<exists>x d'. m d = (Inr x, d') \<and> k x d' = (Inl e, d''))"
  by (auto simp: thenD_def split: prod.splits sum.splits)

subsection \<open>The PostgreSQL driver\<close>

text \<open>The server and its connection pool: acquiring a connection, a batch of statements sent as one message, and a
  statement with its bound parameters, which answers with the texts of the first column. Errors are texts.\<close>

record 'd pg_server =
  pg_acquire :: "'d \<Rightarrow> string + unit"
  pg_raw_sql :: "string \<Rightarrow> 'd \<Rightarrow> (string + unit) \<times> 'd"
  pg_query :: "string \<Rightarrow> string list \<Rightarrow> 'd \<Rightarrow> (string + string list) \<times> 'd"

definition validate_migration_version :: "string \<Rightarrow> driver_error + unit" where
  "validate_migration_version version =
     guardE (\<not> list_ex (\<lambda>c. c \<in> set [CHR 0x27, CHR '';'', CHR 0x5C, CHR 0x0A, CHR 0x0D, CHR 0x00]) version)
       (QueryFailed ''invalid migration version'')"

text \<open>Whether something other than white space follows a semicolon.\<close>

function semi_then_more :: "bool \<Rightarrow> string \<Rightarrow> bool" where
  "semi_then_more found_semi [] = False"
| "semi_then_more found_semi (c # cs) =
     (if c = CHR '';'' then semi_then_more True cs
      else if \<not> found_semi then semi_then_more found_semi cs
      else if strip_one ws_seqs (c # cs) = 0 then True
      else semi_then_more found_semi (drop (strip_one ws_seqs (c # cs)) (c # cs)))"
  by pat_completeness auto
termination
  by (relation "measure (\<lambda>(_, s). length s)") auto

definition insert_sql :: "string \<Rightarrow> string" where
  "insert_sql version = ''INSERT INTO schema_migrations (version) VALUES ('' @ quoted version @ '')''"

definition delete_sql :: "string \<Rightarrow> string" where
  "delete_sql version = ''DELETE FROM schema_migrations WHERE version = '' @ quoted version"

definition set_sql :: "string \<Rightarrow> string" where
  "set_sql value_text = ''SET statement_timeout = '' @ value_text"

definition show_sql :: string where
  "show_sql = ''SHOW statement_timeout''"

definition create_sql :: string where
  "create_sql = ''CREATE TABLE IF NOT EXISTS schema_migrations (version TEXT PRIMARY KEY)''"

definition select_sql :: string where
  "select_sql = ''SELECT version FROM schema_migrations ORDER BY version''"

definition timeout_stmt :: "u64 \<Rightarrow> string" where
  "timeout_stmt timeout_secs =
     (if timeout_secs > 0
      then ''SET LOCAL statement_timeout = '' @ quoted (show_nat (unat timeout_secs) @ ''s'') @ '';'' @ [CHR 0x0A] else [])"

definition pg_batch :: "'d pg_server \<Rightarrow> string \<Rightarrow> string \<Rightarrow> string \<Rightarrow> u64 \<Rightarrow> ('d, unit) drv" where
  "pg_batch srv sql version_sql version timeout_secs d =
     (case validate_migration_version version of
        Inl e \<Rightarrow> (Inl e, d)
      | Inr _ \<Rightarrow>
          thenD (pg_raw_sql srv (timeout_stmt timeout_secs @ sql @ [CHR 0x0A] @ '';'' @ [CHR 0x0A] @ version_sql @ '';''))
            QueryFailed (\<lambda>_ d'. (Inr (), d')) d)"

definition statement_error :: "string \<Rightarrow> string \<Rightarrow> driver_error" where
  "statement_error version msg =
     (if find_str ''statement timeout'' msg \<noteq> None
      then MigrationTimeout version (''migration timed out (statement_timeout). Schema state may be partially applied. ''
             @ ''Manual inspection required before running further migrations.'')
      else QueryFailed msg)"

definition record_error :: "string \<Rightarrow> string \<Rightarrow> string \<Rightarrow> string \<Rightarrow> driver_error" where
  "record_error version partial_error repair_action e =
     PartialMigration version (partial_error @ '': '' @ e @ ''. Run `dbward migrate repair --emergency --action '' @ repair_action
       @ '' --version '' @ version @ '' --reason <reason>` to fix (metadata only '' @ [CHR 0xE2, CHR 0x80, CHR 0x94]
       @ '' does not modify actual schema).'')"

definition set_timeout :: "'d pg_server \<Rightarrow> u64 \<Rightarrow> ('d, string option) drv" where
  "set_timeout srv timeout_secs =
     (if timeout_secs > 0 then
        thenD (pg_query srv show_sql []) QueryFailed (\<lambda>rows.
          case rows of
            [] \<Rightarrow> (\<lambda>d. (Inl (QueryFailed ''no rows returned by a query that expected to return at least one row''), d))
          | row # _ \<Rightarrow>
              thenD (pg_query srv (set_sql (show_nat (unat (timeout_secs * 1000)))) []) QueryFailed (\<lambda>_ d.
              (Inr (Some row), d)))
      else (\<lambda>d. (Inr None, d)))"

definition restore_timeout :: "'d pg_server \<Rightarrow> string option \<Rightarrow> 'd \<Rightarrow> 'd" where
  "restore_timeout srv original d =
     (case original of
        Some orig \<Rightarrow> snd (pg_query srv (set_sql (quoted orig)) [] d)
      | None \<Rightarrow> d)"

definition run_no_tx_migration ::
  "'d pg_server \<Rightarrow> string \<Rightarrow> string \<Rightarrow> string \<Rightarrow> string \<Rightarrow> string \<Rightarrow> u64 \<Rightarrow> ('d, unit) drv" where
  "run_no_tx_migration srv sql version_sql version partial_error repair_action timeout_secs =
     thenD (\<lambda>d. (pg_acquire srv d, d)) ConnectionFailed (\<lambda>_.
     thenD (set_timeout srv timeout_secs) (\<lambda>e. e) (\<lambda>original d.
       let (result, d') = thenD (pg_query srv sql []) (statement_error version) (\<lambda>_.
             thenD (pg_query srv version_sql []) (record_error version partial_error repair_action) (\<lambda>_ d'. (Inr (), d'))) d
       in (result, restore_timeout srv original d')))"

definition pg_no_tx ::
  "'d pg_server \<Rightarrow> string \<Rightarrow> string \<Rightarrow> string \<Rightarrow> string \<Rightarrow> string \<Rightarrow> u64 \<Rightarrow> ('d, unit) drv" where
  "pg_no_tx srv sql version_sql version partial_error repair_action timeout_secs d =
     (case tryE (validate_migration_version version) (\<lambda>_.
             guardE (\<not> semi_then_more False (trim sql))
               (QueryFailed ''transactional=false migrations must contain a single SQL statement'')) of
        Inl e \<Rightarrow> (Inl e, d)
      | Inr _ \<Rightarrow> run_no_tx_migration srv sql version_sql version partial_error repair_action timeout_secs d)"

definition postgres_driver :: "'d pg_server \<Rightarrow> 'd migration_driver" where
  "postgres_driver srv =
     \<lparr> apply_migration = (\<lambda>sql version. pg_batch srv sql (insert_sql version) version),
       revert_migration = (\<lambda>sql version. pg_batch srv sql (delete_sql version) version),
       apply_migration_no_tx = (\<lambda>sql version. pg_no_tx srv sql (insert_sql version) version
         ''migration SQL applied successfully but version record failed'' ''mark-applied''),
       revert_migration_no_tx = (\<lambda>sql version. pg_no_tx srv sql (delete_sql version) version
         ''revert SQL applied successfully but version removal failed'' ''remove''),
       ensure_migrations_table = thenD (pg_query srv create_sql []) QueryFailed (\<lambda>_ d. (Inr (), d)),
       applied_versions = thenD (pg_query srv select_sql []) QueryFailed
         (\<lambda>rows d. (Inr rows, d)),
       mark_applied = (\<lambda>version. thenD (pg_query srv
         ''INSERT INTO schema_migrations (version) VALUES ($1) ON CONFLICT DO NOTHING'' [version]) QueryFailed (\<lambda>_ d. (Inr (), d))),
       remove_version = (\<lambda>version. thenD (pg_query srv
         ''DELETE FROM schema_migrations WHERE version = $1'' [version]) QueryFailed (\<lambda>_ d. (Inr (), d))) \<rparr>"

subsection \<open>The runner\<close>

record run_result =
  rn_applied :: "string list"
  rn_reverted :: "string list"

text \<open>The loop of \<open>run_up\<close> and \<open>run_down\<close>: \<open>cancelled n\<close> is what the \<open>n\<close>-th look at the cancel state shows, \<open>step\<close> the
  call of the driver. It stops at the first failure and says what was completed before.\<close>

definition stop_error :: "string list \<Rightarrow> migrate_error \<Rightarrow> migrate_error" where
  "stop_error completed e = (if completed = [] then e else MgPartialApplied completed e)"

fun run_entries ::
  "(migration_entry \<Rightarrow> ('d, unit) drv) \<Rightarrow> (nat \<Rightarrow> bool) \<Rightarrow> migration_entry list \<Rightarrow> string list \<Rightarrow> 'd
     \<Rightarrow> (migrate_error + string list) \<times> 'd" where
  "run_entries step cancelled [] completed d = (Inr completed, d)"
| "run_entries step cancelled (e # es) completed d =
     (if cancelled 0 then (Inl (stop_error completed MgCancelled), d)
      else
        case step e d of
          (Inl err, d') \<Rightarrow> (Inl (stop_error completed (MgDriver err)), d')
        | (Inr _, d') \<Rightarrow> run_entries step (\<lambda>n. cancelled (Suc n)) es (completed @ [me_version e]) d')"

definition up_step :: "'d migration_driver \<Rightarrow> u64 \<Rightarrow> migration_entry \<Rightarrow> ('d, unit) drv" where
  "up_step drv timeout_secs e =
     (if me_transactional e then apply_migration drv (me_sql e) (me_version e) timeout_secs
      else apply_migration_no_tx drv (me_sql e) (me_version e) timeout_secs)"

definition down_step :: "'d migration_driver \<Rightarrow> u64 \<Rightarrow> migration_entry \<Rightarrow> ('d, unit) drv" where
  "down_step drv timeout_secs e =
     (if me_transactional e then revert_migration drv (me_sql e) (me_version e) timeout_secs
      else revert_migration_no_tx drv (me_sql e) (me_version e) timeout_secs)"

definition take_max :: "nat option \<Rightarrow> 'a list \<Rightarrow> 'a list" where
  "take_max max_count xs = (case max_count of Some n \<Rightarrow> take n xs | None \<Rightarrow> xs)"

definition wrong_direction :: "string \<Rightarrow> string \<Rightarrow> migrate_error" where
  "wrong_direction expected got = MgConfig (''expected direction '' @ quoted expected @ '', got '' @ quoted got)"

text \<open>The first part of \<open>run_up\<close> and \<open>run_down\<close>: the parsed detail and the versions already applied.\<close>

definition prepare_run ::
  "(string \<Rightarrow> string + migration_detail) \<Rightarrow> 'd migration_driver \<Rightarrow> string \<Rightarrow> string \<Rightarrow> 'd
     \<Rightarrow> (migrate_error + migration_detail \<times> string list) \<times> 'd" where
  "prepare_run detail_read drv detail direction =
     thenD (\<lambda>d. (parse_detail detail_read detail, d)) (\<lambda>e. e) (\<lambda>parsed.
     thenD (\<lambda>d. (guardE (md_direction parsed = direction) (wrong_direction direction (md_direction parsed)), d)) (\<lambda>e. e) (\<lambda>_.
     thenD (ensure_migrations_table drv) MgDriver (\<lambda>_.
     thenD (applied_versions drv) MgDriver (\<lambda>already d. (Inr (parsed, already), d)))))"

definition run_up ::
  "(string \<Rightarrow> string + migration_detail) \<Rightarrow> 'd migration_driver \<Rightarrow> string \<Rightarrow> (nat \<Rightarrow> bool) \<Rightarrow> u64 \<Rightarrow> 'd
     \<Rightarrow> (migrate_error + run_result) \<times> 'd" where
  "run_up detail_read drv detail cancelled timeout_secs =
     thenD (prepare_run detail_read drv detail ''up'') (\<lambda>e. e) (\<lambda>(parsed, already).
     let pending = take_max (md_max_count parsed) (filter (\<lambda>e. me_version e \<notin> set already) (md_migrations parsed))
     in thenD (run_entries (up_step drv timeout_secs) cancelled pending []) (\<lambda>e. e) (\<lambda>applied d.
        (Inr \<lparr> rn_applied = applied, rn_reverted = [] \<rparr>, d)))"

definition run_down ::
  "(string \<Rightarrow> string + migration_detail) \<Rightarrow> 'd migration_driver \<Rightarrow> string \<Rightarrow> (nat \<Rightarrow> bool) \<Rightarrow> u64 \<Rightarrow> 'd
     \<Rightarrow> (migrate_error + run_result) \<times> 'd" where
  "run_down detail_read drv detail cancelled timeout_secs =
     thenD (prepare_run detail_read drv detail ''down'') (\<lambda>e. e) (\<lambda>(parsed, already).
     let to_revert = take_max (md_max_count parsed) (filter (\<lambda>e. me_version e \<in> set already) (rev (md_migrations parsed)))
     in thenD (run_entries (down_step drv timeout_secs) cancelled to_revert []) (\<lambda>e. e) (\<lambda>reverted d.
        (Inr \<lparr> rn_applied = [], rn_reverted = reverted \<rparr>, d)))"

definition migrate_status :: "'d migration_driver \<Rightarrow> 'd \<Rightarrow> (migrate_error + string list) \<times> 'd" where
  "migrate_status drv =
     thenD (ensure_migrations_table drv) MgDriver (\<lambda>_.
     thenD (applied_versions drv) MgDriver (\<lambda>versions d. (Inr versions, d)))"

definition repair_mark_applied :: "'d migration_driver \<Rightarrow> string \<Rightarrow> 'd \<Rightarrow> (migrate_error + unit) \<times> 'd" where
  "repair_mark_applied drv version =
     thenD (ensure_migrations_table drv) MgDriver (\<lambda>_.
     thenD (mark_applied drv version) MgDriver (\<lambda>_ d. (Inr (), d)))"

definition repair_remove :: "'d migration_driver \<Rightarrow> string \<Rightarrow> 'd \<Rightarrow> (migrate_error + unit) \<times> 'd" where
  "repair_remove drv version =
     thenD (ensure_migrations_table drv) MgDriver (\<lambda>_.
     thenD (remove_version drv version) MgDriver (\<lambda>_ d. (Inr (), d)))"

text \<open>The branches of the agent's operation that run migrations; the result is the data that is submitted.\<close>

definition run_migration_job ::
  "lib \<Rightarrow> (string \<Rightarrow> string + migration_detail) \<Rightarrow> 'd migration_driver \<Rightarrow> (nat \<Rightarrow> bool) \<Rightarrow> u64 \<Rightarrow> job_input \<Rightarrow> 'd
     \<Rightarrow> ((migrate_error + string) \<times> 'd) option" where
  "run_migration_job lib detail_read drv cancelled timeout_secs job d =
     (case job of
        RunUp detail \<Rightarrow>
          Some (thenD (run_up detail_read drv detail cancelled timeout_secs) (\<lambda>e. e) (\<lambda>r d.
            (Inr (x_json_text lib (JObj [(''applied'', JArr (map JStr (rn_applied r)))])), d)) d)
      | RunDown detail \<Rightarrow>
          Some (thenD (run_down detail_read drv detail cancelled timeout_secs) (\<lambda>e. e) (\<lambda>r d.
            (Inr (x_json_text lib (JObj [(''reverted'', JArr (map JStr (rn_reverted r)))])), d)) d)
      | RunStatus \<Rightarrow>
          Some (thenD (migrate_status drv) (\<lambda>e. e) (\<lambda>versions d.
            (Inr (x_json_text lib (JObj [(''applied_versions'', JArr (map JStr versions))])), d)) d)
      | RepairMarkApplied version \<Rightarrow>
          Some (thenD (repair_mark_applied drv version) (\<lambda>e. e) (\<lambda>_ d.
            (Inr (x_json_text lib (JObj [(''repaired'', JStr ''mark_applied''), (''version'', JStr version)])), d)) d)
      | RepairRemove version \<Rightarrow>
          Some (thenD (repair_remove drv version) (\<lambda>e. e) (\<lambda>_ d.
            (Inr (x_json_text lib (JObj [(''repaired'', JStr ''remove''), (''version'', JStr version)])), d)) d)
      | _ \<Rightarrow> None)"

subsection \<open>Drivers that record what they do\<close>

text \<open>What a server promises about the table of versions, \<open>recorded\<close> being its content, for the scripts of a set \<open>S\<close>,
  which neither touch this table nor end the transaction: a batch of such a script and a change of the table is one
  transaction, so the change counts exactly if the batch succeeds; a script on its own does not change the table.\<close>

definition outcome :: "('e + 'a) \<times> 'd \<Rightarrow> ('d \<Rightarrow> 'o) \<Rightarrow> 'o \<Rightarrow> 'o \<Rightarrow> bool" where
  "outcome result obs before after \<longleftrightarrow>
     obs (snd result) = (case fst result of Inl _ \<Rightarrow> before | Inr _ \<Rightarrow> after)"

definition batch_text :: "u64 \<Rightarrow> string \<Rightarrow> string \<Rightarrow> string" where
  "batch_text timeout_secs sql version_sql =
     timeout_stmt timeout_secs @ sql @ [CHR 0x0A] @ '';'' @ [CHR 0x0A] @ version_sql @ '';''"

definition server_ok :: "string set \<Rightarrow> ('d \<Rightarrow> string set) \<Rightarrow> 'd pg_server \<Rightarrow> bool" where
  "server_ok S recorded srv \<longleftrightarrow>
     (\<forall>t sql v d. sql \<in> S \<longrightarrow> CHR 0x27 \<notin> set v \<longrightarrow>
        outcome (pg_raw_sql srv (batch_text t sql (insert_sql v)) d) recorded (recorded d) (insert v (recorded d))
      \<and> outcome (pg_raw_sql srv (batch_text t sql (delete_sql v)) d) recorded (recorded d) (recorded d - {v}))
     \<and> (\<forall>v d. CHR 0x27 \<notin> set v \<longrightarrow>
        outcome (pg_query srv (insert_sql v) [] d) recorded (recorded d) (insert v (recorded d))
      \<and> outcome (pg_query srv (delete_sql v) [] d) recorded (recorded d) (recorded d - {v}))
     \<and> (\<forall>sql d. sql \<in> S \<or> sql \<in> range set_sql \<or> sql \<in> {show_sql, create_sql}
          \<longrightarrow> recorded (snd (pg_query srv sql [] d)) = recorded d)
     \<and> (\<forall>d. recorded (snd (pg_query srv select_sql [] d)) = recorded d
        \<and> (\<forall>rows. fst (pg_query srv select_sql [] d) = Inr rows
             \<longrightarrow> set rows = recorded d))"

text \<open>What it promises about the scripts themselves, \<open>executed\<close> being those that were executed to their end and not rolled
  back, in their order: a batch executes its script exactly if it succeeds, a script on its own likewise, and the
  statements of the bookkeeping execute none.\<close>

definition server_runs :: "string set \<Rightarrow> ('d \<Rightarrow> string list) \<Rightarrow> 'd pg_server \<Rightarrow> bool" where
  "server_runs S executed srv \<longleftrightarrow>
     (\<forall>t sql v d. sql \<in> S \<longrightarrow> CHR 0x27 \<notin> set v \<longrightarrow>
        outcome (pg_raw_sql srv (batch_text t sql (insert_sql v)) d) executed (executed d) (executed d @ [sql])
      \<and> outcome (pg_raw_sql srv (batch_text t sql (delete_sql v)) d) executed (executed d) (executed d @ [sql]))
     \<and> (\<forall>sql d. sql \<in> S \<longrightarrow> outcome (pg_query srv sql [] d) executed (executed d) (executed d @ [sql]))
     \<and> (\<forall>v d. CHR 0x27 \<notin> set v \<longrightarrow> executed (snd (pg_query srv (insert_sql v) [] d)) = executed d
          \<and> executed (snd (pg_query srv (delete_sql v) [] d)) = executed d)
     \<and> (\<forall>sql d. sql \<in> range set_sql \<or> sql \<in> {show_sql, create_sql, select_sql} \<longrightarrow> executed (snd (pg_query srv sql [] d)) = executed d)"

text \<open>What the runner needs of a driver about the table of versions.\<close>

definition driver_ok :: "string set \<Rightarrow> ('d \<Rightarrow> string set) \<Rightarrow> 'd migration_driver \<Rightarrow> bool" where
  "driver_ok S recorded drv \<longleftrightarrow>
     (\<forall>e t d. me_sql e \<in> S \<longrightarrow>
        outcome (up_step drv t e d) recorded (recorded d) (insert (me_version e) (recorded d))
      \<and> outcome (down_step drv t e d) recorded (recorded d) (recorded d - {me_version e}))
     \<and> (\<forall>d. recorded (snd (ensure_migrations_table drv d)) = recorded d)
     \<and> (\<forall>d. recorded (snd (applied_versions drv d)) = recorded d
        \<and> (\<forall>vs. fst (applied_versions drv d) = Inr vs \<longrightarrow> set vs = recorded d))"

text \<open>And about the scripts: a step executes its script exactly if it succeeds, except that a step outside a transaction
  may fail after its script, which the error says.\<close>

fun partial_version :: "driver_error \<Rightarrow> string option" where
  "partial_version (PartialMigration v _) = Some v"
| "partial_version _ = None"

definition script_run :: "('d \<Rightarrow> string list) \<Rightarrow> migration_entry \<Rightarrow> 'd \<Rightarrow> (driver_error + unit) \<times> 'd \<Rightarrow> bool" where
  "script_run executed e d result \<longleftrightarrow>
     (case fst result of
        Inr _ \<Rightarrow> executed (snd result) = executed d @ [me_sql e]
      | Inl err \<Rightarrow>
          (case partial_version err of
             None \<Rightarrow> executed (snd result) = executed d
           | Some v \<Rightarrow> v = me_version e \<and> \<not> me_transactional e \<and> executed (snd result) = executed d @ [me_sql e]))"

definition driver_runs :: "string set \<Rightarrow> ('d \<Rightarrow> string list) \<Rightarrow> 'd migration_driver \<Rightarrow> bool" where
  "driver_runs S executed drv \<longleftrightarrow>
     (\<forall>e t d. me_sql e \<in> S \<longrightarrow> script_run executed e d (up_step drv t e d) \<and> script_run executed e d (down_step drv t e d))
     \<and> (\<forall>d. executed (snd (ensure_migrations_table drv d)) = executed d \<and> executed (snd (applied_versions drv d)) = executed d)
     \<and> (\<forall>d e. fst (ensure_migrations_table drv d) = Inl e \<longrightarrow> partial_version e = None)
     \<and> (\<forall>d e. fst (applied_versions drv d) = Inl e \<longrightarrow> partial_version e = None)"

lemma outcome_thenD:
  assumes "recorded (snd (m d)) = before"
    and "\<And>x d'. m d = (Inr x, d') \<Longrightarrow> recorded d' = before \<Longrightarrow> outcome (k x d') recorded before after"
  shows "outcome (thenD m f k d) recorded before after"
  using assms by (cases "m d") (auto simp: thenD_def outcome_def split: sum.splits)

lemma outcome_last:
  assumes "outcome (m d) recorded before after" and "\<And>x d'. k x d' = (Inr y, d')"
  shows "outcome (thenD m f k d) recorded before after"
  using assms by (cases "m d") (auto simp: thenD_def outcome_def split: sum.splits)

lemma snd_thenD:
  assumes "recorded (snd (m d)) = s" and "\<And>x d'. recorded d' = s \<Longrightarrow> recorded (snd (k x d')) = s"
  shows "recorded (snd (thenD m f k d)) = s"
  using assms by (cases "m d") (auto simp: thenD_def split: sum.splits)

lemma valid_version: "validate_migration_version v = Inr u \<Longrightarrow> CHR 0x27 \<notin> set v"
  by (auto simp: validate_migration_version_def res_simps list_ex_iff)

lemma pg_batch_outcome:
  assumes "CHR 0x27 \<notin> set v \<Longrightarrow> outcome (pg_raw_sql srv (batch_text t sql version_sql) d) obs (obs d) s"
  shows "outcome (pg_batch srv sql version_sql v t d) obs (obs d) s"
proof (cases "validate_migration_version v")
  case (Inl e)
  then show ?thesis by (simp add: pg_batch_def outcome_def)
next
  case (Inr u)
  with assms valid_version have "outcome (pg_raw_sql srv (batch_text t sql version_sql) d) obs (obs d) s" by blast
  with Inr show ?thesis unfolding pg_batch_def batch_text_def by (simp add: outcome_last)
qed

lemma pg_batch_error: "pg_batch srv sql version_sql v t d = (Inl e, d') \<Longrightarrow> partial_version e = None"
  by (auto simp: pg_batch_def thenD_def validate_migration_version_def guardE_def split: sum.splits prod.splits if_splits)

lemma set_timeout_keeps:
  assumes "\<And>sql d. sql \<in> range set_sql \<or> sql = show_sql \<Longrightarrow> obs (snd (pg_query srv sql [] d)) = obs d"
  shows "obs (snd (set_timeout srv t d)) = obs d"
proof -
  have "pg_query srv show_sql [] a = (r, b) \<Longrightarrow> obs b = obs a"
    and "pg_query srv (set_sql x) [] a = (r, b) \<Longrightarrow> obs b = obs a" for a b r x
    by (metis assms rangeI snd_conv)+
  then show ?thesis
    by (auto simp: set_timeout_def thenD_def split: list.split prod.split sum.split)
qed

lemma set_timeout_error: "set_timeout srv t d = (Inl e, d') \<Longrightarrow> partial_version e = None"
  by (auto simp: set_timeout_def thenD_def split: if_splits list.splits prod.splits sum.splits)

lemma restore_timeout_keeps:
  assumes "\<And>sql d. sql \<in> range set_sql \<or> sql = show_sql \<Longrightarrow> obs (snd (pg_query srv sql [] d)) = obs d"
  shows "obs (restore_timeout srv original d) = obs d"
  using assms by (simp add: restore_timeout_def split: option.split)

lemma no_tx_result:
  "snd (let (result, d') = m d in (result, restore_timeout srv original d')) = restore_timeout srv original (snd (m d))"
  "fst (let (result, d') = m d in (result, restore_timeout srv original d')) = fst (m d)"
  by (simp_all split: prod.split)

lemma pg_no_tx_ok:
  assumes "\<And>sql d. sql \<in> range set_sql \<or> sql = show_sql \<Longrightarrow> obs (snd (pg_query srv sql [] d)) = obs d"
    and "\<And>d. obs (snd (pg_query srv sql [] d)) = obs d"
    and "CHR 0x27 \<notin> set v \<Longrightarrow> \<forall>d. outcome (pg_query srv version_sql [] d) obs (obs d) (f (obs d))"
  shows "outcome (pg_no_tx srv sql version_sql v what action t d) obs (obs d) (f (obs d))"
proof (cases "tryE (validate_migration_version v) (\<lambda>_. guardE (\<not> semi_then_more False (trim sql))
    (QueryFailed ''transactional=false migrations must contain a single SQL statement''))")
  case (Inl e)
  then show ?thesis by (simp add: pg_no_tx_def outcome_def)
next
  case (Inr u)
  then have v: "\<forall>d. outcome (pg_query srv version_sql [] d) obs (obs d) (f (obs d))"
    using assms(3) by (auto simp: validate_migration_version_def res_simps list_ex_iff)
  have run: "outcome (thenD (pg_query srv sql []) (statement_error v) (\<lambda>_.
      thenD (pg_query srv version_sql []) (record_error v what action) (\<lambda>_ d'. (Inr (), d'))) d') obs (obs d) (f (obs d))"
    if "obs d' = obs d" for d'
  proof (rule outcome_thenD)
    show "obs (snd (pg_query srv sql [] d')) = obs d" using that assms(2) by simp
  next
    fix x d''
    assume "obs d'' = obs d"
    with v show "outcome (thenD (pg_query srv version_sql []) (record_error v what action) (\<lambda>_ d'. (Inr (), d')) d'')
        obs (obs d) (f (obs d))"
      by (metis outcome_last)
  qed
  have "outcome (run_no_tx_migration srv sql version_sql v what action t d) obs (obs d) (f (obs d))"
    unfolding run_no_tx_migration_def
  proof (intro outcome_thenD)
    fix original d1 d2
    assume "obs d2 = obs d"
    then show "outcome (let (result, d') = thenD (pg_query srv sql []) (statement_error v) (\<lambda>_.
        thenD (pg_query srv version_sql []) (record_error v what action) (\<lambda>_ d'. (Inr (), d'))) d2
      in (result, restore_timeout srv original d')) obs (obs d) (f (obs d))"
      using run [of d2] restore_timeout_keeps [where obs = obs, OF assms(1)] by (auto simp: outcome_def split: prod.split)
  qed (simp_all add: set_timeout_keeps [where obs = obs, OF assms(1)])
  with Inr show ?thesis by (simp add: pg_no_tx_def)
qed

lemma pg_no_tx_script:
  assumes quiet: "\<And>sql d. sql \<in> range set_sql \<or> sql = show_sql \<Longrightarrow> executed (snd (pg_query srv sql [] d)) = executed d"
    and script: "\<And>d. outcome (pg_query srv (me_sql e) [] d) executed (executed d) (executed d @ [me_sql e])"
    and version: "CHR 0x27 \<notin> set (me_version e) \<Longrightarrow> \<forall>d. executed (snd (pg_query srv version_sql [] d)) = executed d"
    and "\<not> me_transactional e"
  shows "script_run executed e d (pg_no_tx srv (me_sql e) version_sql (me_version e) what action t d)"
proof (cases "tryE (validate_migration_version (me_version e)) (\<lambda>_. guardE (\<not> semi_then_more False (trim (me_sql e)))
    (QueryFailed ''transactional=false migrations must contain a single SQL statement''))")
  case (Inl err)
  then have "partial_version err = None"
    by (auto simp: validate_migration_version_def tryE_Inl guardE_def split: if_splits)
  with Inl show ?thesis by (simp add: pg_no_tx_def script_run_def)
next
  case (Inr u)
  then have v: "executed (snd (pg_query srv version_sql [] d)) = executed d" for d
    using version by (auto simp: validate_migration_version_def res_simps list_ex_iff)
  obtain r1 d1 where s: "set_timeout srv t d = (r1, d1)" by fastforce
  have d1: "executed d1 = executed d" using set_timeout_keeps [where obs = executed, OF quiet, of t d] s by simp
  obtain r2 d2 where q: "pg_query srv (me_sql e) [] d1 = (r2, d2)" by fastforce
  have d2: "executed d2 = (case r2 of Inl _ \<Rightarrow> executed d | Inr _ \<Rightarrow> executed d @ [me_sql e])"
    using script [of d1] q d1 by (simp add: outcome_def)
  obtain r3 d3 where w: "pg_query srv version_sql [] d2 = (r3, d3)" by fastforce
  have d3: "executed d3 = executed d2" using v [of d2] w by simp
  have "partial_version (statement_error x y) = None" "partial_version (record_error x y z m) = Some x" for x y z m
    by (simp_all add: statement_error_def record_error_def)
  then show ?thesis
    using Inr s q w d1 d2 d3 assms(4) set_timeout_error [of srv t d] restore_timeout_keeps [where obs = executed, OF quiet]
    by (auto simp: pg_no_tx_def run_no_tx_migration_def thenD_def script_run_def split: sum.split)
qed

lemma postgres_driver_ok:
  assumes "server_ok S recorded srv"
  shows "driver_ok S recorded (postgres_driver srv)"
proof -
  have quiet: "recorded (snd (pg_query srv sql [] d)) = recorded d"
    if "sql \<in> S \<or> sql \<in> range set_sql \<or> sql = show_sql \<or> sql = create_sql \<or> sql = select_sql" for sql d
    using assms that by (auto simp: server_ok_def)
  have v: "CHR 0x27 \<notin> set v \<Longrightarrow> \<forall>d. outcome (pg_query srv (insert_sql v) [] d) recorded (recorded d) (insert v (recorded d))"
    "CHR 0x27 \<notin> set v \<Longrightarrow> \<forall>d. outcome (pg_query srv (delete_sql v) [] d) recorded (recorded d) (recorded d - {v})" for v
    using assms by (simp_all add: server_ok_def)
  have up: "outcome (pg_no_tx srv sql (insert_sql v) v what action t d) recorded (recorded d) (insert v (recorded d))"
    if "sql \<in> S" for sql v what action t d
    by (rule pg_no_tx_ok [where f = "insert v"]) (use that quiet v in auto)
  have down: "outcome (pg_no_tx srv sql (delete_sql v) v what action t d) recorded (recorded d) (recorded d - {v})"
    if "sql \<in> S" for sql v what action t d
    by (rule pg_no_tx_ok [where f = "\<lambda>s. s - {v}"]) (use that quiet v in auto)
  have "outcome (up_step (postgres_driver srv) t e d) recorded (recorded d) (insert (me_version e) (recorded d))"
    "outcome (down_step (postgres_driver srv) t e d) recorded (recorded d) (recorded d - {me_version e})"
    if "me_sql e \<in> S" for e t d
    using that assms
    by (simp_all add: up_step_def down_step_def postgres_driver_def up down pg_batch_outcome server_ok_def)
  moreover have "recorded (snd (ensure_migrations_table (postgres_driver srv) d)) = recorded d" for d
    using quiet by (simp add: postgres_driver_def snd_thenD)
  moreover have "recorded (snd (applied_versions (postgres_driver srv) d)) = recorded d" for d
    using quiet by (simp add: postgres_driver_def snd_thenD)
  moreover have "set vs = recorded d" if "fst (applied_versions (postgres_driver srv) d) = Inr vs" for d vs
    using assms that by (auto simp: server_ok_def postgres_driver_def thenD_def split: prod.splits sum.splits)
  ultimately show ?thesis unfolding driver_ok_def by blast
qed

lemma script_run_batch:
  assumes "outcome (pg_batch srv (me_sql e) version_sql v t d) executed (executed d) (executed d @ [me_sql e])"
  shows "script_run executed e d (pg_batch srv (me_sql e) version_sql v t d)"
  using assms pg_batch_error [of srv "me_sql e" version_sql v t d]
  by (cases "pg_batch srv (me_sql e) version_sql v t d") (auto simp: script_run_def outcome_def split: sum.splits)

lemma postgres_driver_runs:
  assumes "server_runs S executed srv"
  shows "driver_runs S executed (postgres_driver srv)"
proof -
  have quiet: "executed (snd (pg_query srv sql [] d)) = executed d"
    if "sql \<in> range set_sql \<or> sql = show_sql \<or> sql = create_sql \<or> sql = select_sql" for sql d
    using assms that by (auto simp: server_runs_def)
  have v: "CHR 0x27 \<notin> set v \<Longrightarrow> \<forall>d. executed (snd (pg_query srv (insert_sql v) [] d)) = executed d"
    "CHR 0x27 \<notin> set v \<Longrightarrow> \<forall>d. executed (snd (pg_query srv (delete_sql v) [] d)) = executed d" for v
    using assms by (simp_all add: server_runs_def)
  have script: "sql \<in> S \<Longrightarrow> outcome (pg_query srv sql [] d) executed (executed d) (executed d @ [sql])" for sql d
    using assms by (simp add: server_runs_def)
  have no_tx: "script_run executed e d (pg_no_tx srv (me_sql e) version_sql (me_version e) what action t d)"
    if "me_sql e \<in> S" "\<not> me_transactional e" "version_sql = insert_sql (me_version e) \<or> version_sql = delete_sql (me_version e)"
    for e d version_sql what action t
    by (rule pg_no_tx_script) (use that quiet script v in auto)
  have batch: "script_run executed e d (pg_batch srv (me_sql e) version_sql (me_version e) t d)"
    if "me_sql e \<in> S" "version_sql = insert_sql (me_version e) \<or> version_sql = delete_sql (me_version e)" for e d version_sql t
    by (rule script_run_batch, rule pg_batch_outcome) (use that assms in \<open>auto simp: server_runs_def\<close>)
  have "script_run executed e d (up_step (postgres_driver srv) t e d)" "script_run executed e d (down_step (postgres_driver srv) t e d)"
    if "me_sql e \<in> S" for e t d
    using that by (simp_all add: up_step_def down_step_def postgres_driver_def no_tx batch)
  moreover have "executed (snd (ensure_migrations_table (postgres_driver srv) d)) = executed d"
    "executed (snd (applied_versions (postgres_driver srv) d)) = executed d" for d
    using quiet by (simp_all add: postgres_driver_def snd_thenD)
  moreover have "partial_version e = None" if "fst (ensure_migrations_table (postgres_driver srv) d) = Inl e
      \<or> fst (applied_versions (postgres_driver srv) d) = Inl e" for d e
    using that by (auto simp: postgres_driver_def thenD_def split: prod.splits sum.splits)
  ultimately show ?thesis unfolding driver_runs_def by blast
qed

subsection \<open>What a run does\<close>

fun completed_of :: "migrate_error \<Rightarrow> string list" where
  "completed_of (MgPartialApplied completed _) = completed"
| "completed_of _ = []"

lemma completed_of_stop: "completed_of e = [] \<Longrightarrow> completed_of (stop_error completed e) = completed"
  by (simp add: stop_error_def)

text \<open>The loop performs a prefix of the entries and reports it, whether it ends with an error or not.\<close>

lemma run_entries_effect:
  assumes "\<And>e d. e \<in> set es \<Longrightarrow> outcome (step e d) recorded (recorded d) (upd (me_version e) (recorded d))"
    and "run_entries step cancelled es completed d = (r, d')"
  shows "\<exists>k. recorded d' = fold upd (map me_version (take k es)) (recorded d)
    \<and> (case r of Inr out \<Rightarrow> length es \<le> k \<and> out = completed @ map me_version es
        | Inl e \<Rightarrow> completed_of e = completed @ map me_version (take k es))"
  using assms
proof (induction es arbitrary: cancelled completed d)
  case Nil
  then show ?case by auto
next
  case (Cons e es)
  show ?case
  proof (cases "cancelled 0")
    case True
    with Cons.prems(2) show ?thesis by (auto simp: completed_of_stop intro: exI [of _ 0])
  next
    case False
    obtain r1 d1 where step: "step e d = (r1, d1)" by fastforce
    with Cons.prems(1) [of e d] have rec: "recorded d1 = (case r1 of Inl _ \<Rightarrow> recorded d | Inr _ \<Rightarrow> upd (me_version e) (recorded d))"
      by (simp add: outcome_def)
    show ?thesis
    proof (cases r1)
      case (Inl err)
      with False Cons.prems(2) step rec show ?thesis by (auto simp: completed_of_stop intro: exI [of _ 0])
    next
      case (Inr u)
      with False Cons.prems(2) step
      have "run_entries step (\<lambda>n. cancelled (Suc n)) es (completed @ [me_version e]) d1 = (r, d')" by simp
      from Cons.IH [OF Cons.prems(1) [OF list.set_intros(2)] this] obtain k where
        "recorded d' = fold upd (map me_version (take k es)) (recorded d1)"
        "case r of Inr out \<Rightarrow> length es \<le> k \<and> out = (completed @ [me_version e]) @ map me_version es
          | Inl err \<Rightarrow> completed_of err = (completed @ [me_version e]) @ map me_version (take k es)"
        by blast
      with Inr rec show ?thesis by (intro exI [of _ "Suc k"]) (auto split: sum.splits)
    qed
  qed
qed

fun partial_of :: "migrate_error \<Rightarrow> string option" where
  "partial_of (MgPartialApplied _ e) = partial_of e"
| "partial_of (MgDriver e) = partial_version e"
| "partial_of _ = None"

lemma partial_of_stop [simp]: "partial_of (stop_error completed e) = partial_of e"
  by (simp add: stop_error_def)

text \<open>The scripts the loop executes: those of the completed entries, and the next one if the error says so.\<close>

definition scripts_run :: "('d \<Rightarrow> string list) \<Rightarrow> migration_entry list \<Rightarrow> nat \<Rightarrow> migrate_error \<Rightarrow> 'd \<Rightarrow> 'd \<Rightarrow> bool" where
  "scripts_run executed es k e d d' \<longleftrightarrow>
     (case partial_of e of
        None \<Rightarrow> executed d' = executed d @ map me_sql (take k es)
      | Some v \<Rightarrow> k < length es \<and> v = me_version (es ! k) \<and> \<not> me_transactional (es ! k)
          \<and> executed d' = executed d @ map me_sql (take (Suc k) es))"

lemma run_entries_scripts:
  assumes "\<And>e d. e \<in> set es \<Longrightarrow> script_run executed e d (step e d)"
    and "run_entries step cancelled es completed d = (r, d')"
  shows "case r of Inr out \<Rightarrow> executed d' = executed d @ map me_sql es
    | Inl e \<Rightarrow> (\<exists>k. completed_of e = completed @ map me_version (take k es) \<and> scripts_run executed es k e d d')"
  using assms
proof (induction es arbitrary: cancelled completed d)
  case Nil
  then show ?case by auto
next
  case (Cons e es)
  show ?case
  proof (cases "cancelled 0")
    case True
    with Cons.prems(2) show ?thesis by (auto simp: completed_of_stop scripts_run_def intro: exI [of _ 0])
  next
    case False
    obtain r1 d1 where step: "step e d = (r1, d1)" by fastforce
    note law = Cons.prems(1) [of e d, unfolded step script_run_def]
    show ?thesis
    proof (cases r1)
      case (Inl err)
      with False Cons.prems(2) step law show ?thesis
        by (auto simp: completed_of_stop scripts_run_def split: option.splits intro: exI [of _ 0])
    next
      case (Inr u)
      with False Cons.prems(2) step
      have "run_entries step (\<lambda>n. cancelled (Suc n)) es (completed @ [me_version e]) d1 = (r, d')" by simp
      note ih = Cons.IH [OF Cons.prems(1) [OF list.set_intros(2)] this]
      have d1: "executed d1 = executed d @ [me_sql e]" using law Inr by simp
      show ?thesis
      proof (cases r)
        case (Inl err)
        with ih obtain k where "completed_of err = completed @ [me_version e] @ map me_version (take k es)"
          "scripts_run executed es k err d1 d'" by auto
        with Inl d1 show ?thesis by (auto simp: scripts_run_def split: option.splits intro!: exI [of _ "Suc k"])
      qed (use ih d1 in simp)
    qed
  qed
qed

lemma fold_insert_set: "fold insert vs s = s \<union> set vs"
  by (induction vs arbitrary: s) auto

lemma fold_remove_set: "fold (\<lambda>v s. s - {v}) vs s = s - set vs"
  by (induction vs arbitrary: s) auto

text \<open>The entries of a detail that are not recorded, up to the maximum, and their versions.\<close>

definition pending_entries :: "migration_detail \<Rightarrow> string set \<Rightarrow> migration_entry list" where
  "pending_entries parsed versions =
     take_max (md_max_count parsed) (filter (\<lambda>e. me_version e \<notin> versions) (md_migrations parsed))"

definition pending_of :: "migration_detail \<Rightarrow> string set \<Rightarrow> string list" where
  "pending_of parsed versions =
     map me_version (take_max (md_max_count parsed) (filter (\<lambda>e. me_version e \<notin> versions) (md_migrations parsed)))"

definition revertible_of :: "migration_detail \<Rightarrow> string set \<Rightarrow> string list" where
  "revertible_of parsed versions =
     map me_version (take_max (md_max_count parsed) (filter (\<lambda>e. me_version e \<in> versions) (rev (md_migrations parsed))))"

lemma set_take_max: "set (take_max n xs) \<subseteq> set xs"
  by (auto simp: take_max_def dest: in_set_takeD split: option.splits)

lemma run_loop_effect:
  assumes "\<And>e d. e \<in> set es \<Longrightarrow> outcome (step e d) recorded (recorded d) (upd (me_version e) (recorded d))"
    and "run_entries step cancelled es [] d = (r, d')"
  shows "case r of Inr out \<Rightarrow> out = map me_version es \<and> recorded d' = fold upd (map me_version es) (recorded d)
    | Inl e \<Rightarrow> (\<exists>rest. map me_version es = completed_of e @ rest) \<and> recorded d' = fold upd (completed_of e) (recorded d)"
proof -
  obtain k where k: "recorded d' = fold upd (map me_version (take k es)) (recorded d)"
    "case r of Inr out \<Rightarrow> length es \<le> k \<and> out = [] @ map me_version es
      | Inl e \<Rightarrow> completed_of e = [] @ map me_version (take k es)"
    using run_entries_effect [OF assms] by blast
  have "map me_version es = map me_version (take k es) @ map me_version (drop k es)"
    by (metis append_take_drop_id map_append)
  with k show ?thesis by (auto split: sum.splits)
qed

text \<open>Before the loop nothing is recorded.\<close>

lemma prepare_run_effect:
  assumes ok: "driver_ok S recorded drv" and "detail_read detail = Inr parsed"
    and run: "prepare_run detail_read drv detail direction d = (r, d')"
  shows "recorded d' = recorded d"
    and "r = Inl e \<Longrightarrow> completed_of e = []"
    and "r = Inr (p, already) \<Longrightarrow> p = parsed \<and> md_direction parsed = direction \<and> set already = recorded d"
proof -
  have laws: "recorded (snd (ensure_migrations_table drv a)) = recorded a" "recorded (snd (applied_versions drv a)) = recorded a"
    "fst (applied_versions drv a) = Inr vs \<Longrightarrow> set vs = recorded a" for a vs
    using ok by (simp_all add: driver_ok_def)
  obtain x1 d1 where e: "ensure_migrations_table drv d = (x1, d1)" by fastforce
  obtain x2 d2 where v: "applied_versions drv d1 = (x2, d2)" by fastforce
  have same: "recorded d1 = recorded d" "recorded d2 = recorded d" "x2 = Inr vs \<Longrightarrow> set vs = recorded d" for vs
    using laws [of d] laws [of d1] e v by simp_all
  note cases = run [unfolded prepare_run_def thenD_def parse_detail_def guardE_def assms(2)]
  show "recorded d' = recorded d"
    using cases same(1,2) by (auto simp: e v split: sum.splits if_splits)
  show "r = Inl e \<Longrightarrow> completed_of e = []"
    using cases by (auto simp: e v wrong_direction_def split: sum.splits if_splits)
  show "r = Inr (p, already) \<Longrightarrow> p = parsed \<and> md_direction parsed = direction \<and> set already = recorded d"
    using cases same(3) by (auto simp: e v split: sum.splits if_splits)
qed

lemma run_up_effect:
  assumes ok: "driver_ok S recorded drv" and read: "detail_read detail = Inr parsed"
    and scripts: "\<forall>e \<in> set (md_migrations parsed). me_sql e \<in> S"
    and run: "run_up detail_read drv detail cancelled t d = (r, d')"
  shows "case r of
      Inr res \<Rightarrow> rn_applied res = pending_of parsed (recorded d) \<and> recorded d' = recorded d \<union> set (pending_of parsed (recorded d))
    | Inl e \<Rightarrow> (\<exists>rest. pending_of parsed (recorded d) = completed_of e @ rest) \<and> recorded d' = recorded d \<union> set (completed_of e)"
proof -
  obtain x d1 where p: "prepare_run detail_read drv detail ''up'' d = (x, d1)" by fastforce
  note prep = prepare_run_effect [OF ok read p]
  show ?thesis
  proof (cases x)
    case (Inl e)
    with run p prep show ?thesis by (auto simp: run_up_def thenD_def)
  next
    case (Inr y)
    let ?es = "take_max (md_max_count parsed) (filter (\<lambda>e. me_version e \<notin> recorded d) (md_migrations parsed))"
    obtain already where y: "y = (parsed, already)" "set already = recorded d"
      using prep(3) Inr by (cases y) auto
    obtain r1 d2 where l: "run_entries (up_step drv t) cancelled ?es [] d1 = (r1, d2)" by fastforce
    have "outcome (up_step drv t e b) recorded (recorded b) (insert (me_version e) (recorded b))" if "e \<in> set ?es" for e b
      using ok scripts that set_take_max [of "md_max_count parsed"] by (fastforce simp: driver_ok_def)
    note loop = run_loop_effect [OF this l, unfolded fold_insert_set]
    have "d' = d2" "r = map_sum (\<lambda>e. e) (\<lambda>out. \<lparr> rn_applied = out, rn_reverted = [] \<rparr>) r1"
      using run p Inr y l by (auto simp: run_up_def thenD_def split: sum.splits)
    with loop prep(1) show ?thesis by (auto simp: pending_of_def split: sum.splits)
  qed
qed

lemma run_down_effect:
  assumes ok: "driver_ok S recorded drv" and read: "detail_read detail = Inr parsed"
    and scripts: "\<forall>e \<in> set (md_migrations parsed). me_sql e \<in> S"
    and run: "run_down detail_read drv detail cancelled t d = (r, d')"
  shows "case r of
      Inr res \<Rightarrow> rn_reverted res = revertible_of parsed (recorded d) \<and> recorded d' = recorded d - set (revertible_of parsed (recorded d))
    | Inl e \<Rightarrow> (\<exists>rest. revertible_of parsed (recorded d) = completed_of e @ rest) \<and> recorded d' = recorded d - set (completed_of e)"
proof -
  obtain x d1 where p: "prepare_run detail_read drv detail ''down'' d = (x, d1)" by fastforce
  note prep = prepare_run_effect [OF ok read p]
  show ?thesis
  proof (cases x)
    case (Inl e)
    with run p prep show ?thesis by (auto simp: run_down_def thenD_def)
  next
    case (Inr y)
    let ?es = "take_max (md_max_count parsed) (filter (\<lambda>e. me_version e \<in> recorded d) (rev (md_migrations parsed)))"
    obtain already where y: "y = (parsed, already)" "set already = recorded d"
      using prep(3) Inr by (cases y) auto
    obtain r1 d2 where l: "run_entries (down_step drv t) cancelled ?es [] d1 = (r1, d2)" by fastforce
    have "outcome (down_step drv t e b) recorded (recorded b) (recorded b - {me_version e})" if "e \<in> set ?es" for e b
      using ok scripts that set_take_max [of "md_max_count parsed"] by (fastforce simp: driver_ok_def)
    note loop = run_loop_effect [where upd = "\<lambda>v s. s - {v}", OF this l, unfolded fold_remove_set]
    have "d' = d2" "r = map_sum (\<lambda>e. e) (\<lambda>out. \<lparr> rn_applied = [], rn_reverted = out \<rparr>) r1"
      using run p Inr y l by (auto simp: run_down_def thenD_def split: sum.splits)
    with loop prep(1) show ?thesis by (auto simp: revertible_of_def split: sum.splits)
  qed
qed

lemma prepare_run_scripts:
  assumes runs: "driver_runs S executed drv" and read: "detail_read detail = Inr parsed"
    and run: "prepare_run detail_read drv detail direction d = (r, d')"
  shows "executed d' = executed d" and "r = Inl e \<Longrightarrow> partial_of e = None"
proof -
  obtain x1 d1 where e: "ensure_migrations_table drv d = (x1, d1)" by fastforce
  obtain x2 d2 where v: "applied_versions drv d1 = (x2, d2)" by fastforce
  have same: "executed d1 = executed d" "executed d2 = executed d" "x1 = Inl a \<Longrightarrow> partial_version a = None" "x2 = Inl a \<Longrightarrow> partial_version a = None" for a
    using runs e v unfolding driver_runs_def by (metis fst_conv snd_conv)+
  note cases = run [unfolded prepare_run_def thenD_def parse_detail_def guardE_def read]
  show "executed d' = executed d" using cases same(1,2) by (auto simp: e v split: sum.splits if_splits)
  show "r = Inl e \<Longrightarrow> partial_of e = None"
    using cases same(3,4) by (auto simp: e v wrong_direction_def split: sum.splits if_splits)
qed

lemma run_up_scripts:
  assumes ok: "driver_ok S recorded drv" and runs: "driver_runs S executed drv" and read: "detail_read detail = Inr parsed"
    and scripts: "\<forall>e \<in> set (md_migrations parsed). me_sql e \<in> S"
    and run: "run_up detail_read drv detail cancelled t d = (r, d')"
  shows "case r of
      Inr res \<Rightarrow> executed d' = executed d @ map me_sql (pending_entries parsed (recorded d))
    | Inl e \<Rightarrow> (\<exists>k. completed_of e = map me_version (take k (pending_entries parsed (recorded d)))
        \<and> scripts_run executed (pending_entries parsed (recorded d)) k e d d')"
proof -
  obtain x d1 where p: "prepare_run detail_read drv detail ''up'' d = (x, d1)" by fastforce
  note prep = prepare_run_effect [OF ok read p] prepare_run_scripts [OF runs read p]
  show ?thesis
  proof (cases x)
    case (Inl e)
    with run p prep show ?thesis by (auto simp: run_up_def thenD_def scripts_run_def intro!: exI [of _ 0])
  next
    case (Inr y)
    let ?es = "pending_entries parsed (recorded d)"
    obtain already where y: "y = (parsed, already)" "set already = recorded d"
      using prep(3) Inr by (cases y) auto
    obtain r1 d2 where l: "run_entries (up_step drv t) cancelled ?es [] d1 = (r1, d2)" by fastforce
    have "script_run executed e b (up_step drv t e b)" if "e \<in> set ?es" for e b
      using runs scripts that set_take_max [of "md_max_count parsed"] by (fastforce simp: driver_runs_def pending_entries_def)
    note loop = run_entries_scripts [where executed = executed, OF this l]
    have "d' = d2" "r = map_sum (\<lambda>e. e) (\<lambda>out. \<lparr> rn_applied = out, rn_reverted = [] \<rparr>) r1"
      using run p Inr y l by (auto simp: run_up_def thenD_def pending_entries_def split: sum.splits)
    moreover have "scripts_run executed es k e d1 d2 \<longleftrightarrow> scripts_run executed es k e d d2" for es k e
      by (simp add: scripts_run_def prep(4) split: option.split)
    ultimately show ?thesis using loop prep(4) by (auto split: sum.splits)
  qed
qed


lemma pending_rest:
  assumes "md_max_count parsed = None" and "distinct (map me_version (md_migrations parsed))"
    and "pending_of parsed s = done_before @ rest"
  shows "pending_of parsed (s \<union> set done_before) = rest"
proof -
  have "pending_of parsed (s \<union> set done_before) = filter (\<lambda>v. v \<notin> set done_before) (pending_of parsed s)"
    using assms(1) by (simp add: pending_of_def take_max_def filter_map comp_def conj_commute)
  also have "\<dots> = filter (\<lambda>v. v \<notin> set done_before) rest"
    by (simp add: assms(3))
  also have "\<dots> = rest"
  proof (rule filter_True)
    have "distinct (done_before @ rest)"
      using assms(1,2) unfolding assms(3) [symmetric] by (simp add: pending_of_def take_max_def distinct_map_filter)
    then show "\<forall>v \<in> set rest. v \<notin> set done_before" by auto
  qed
  finally show ?thesis .
qed

text \<open>When a run has failed at any point and a later run of the same detail succeeds, the two together have applied
  each pending migration exactly once and in order, and everything in the detail is recorded.\<close>

theorem interrupted_run_resumes:
  assumes ok: "server_ok S recorded srv" and read: "detail_read detail = Inr parsed"
    and scripts: "\<forall>e \<in> set (md_migrations parsed). me_sql e \<in> S"
    and all: "md_max_count parsed = None" "distinct (map me_version (md_migrations parsed))"
    and runs: "run_up detail_read (postgres_driver srv) detail cancelled t d = (Inl e, d1)"
      "run_up detail_read (postgres_driver srv) detail cancelled' t' d1 = (Inr res, d2)"
  shows "completed_of e @ rn_applied res = pending_of parsed (recorded d)
    \<and> recorded d2 = recorded d \<union> set (map me_version (md_migrations parsed))"
proof -
  note effect = run_up_effect [where detail_read = detail_read and detail = detail and parsed = parsed,
      OF postgres_driver_ok [OF ok] read scripts]
  obtain rest where rest: "pending_of parsed (recorded d) = completed_of e @ rest"
    and d1: "recorded d1 = recorded d \<union> set (completed_of e)"
    using effect [OF runs(1)] by auto
  have "rn_applied res = rest" "recorded d2 = recorded d1 \<union> set rest"
    using effect [OF runs(2)] pending_rest [OF all rest] by (simp_all add: d1)
  moreover have "recorded d \<union> set (pending_of parsed (recorded d)) = recorded d \<union> set (map me_version (md_migrations parsed))"
    using all(1) by (auto simp: pending_of_def take_max_def)
  ultimately show ?thesis using rest d1 by auto
qed

subsection \<open>Up and down again\<close>

lemma down_entries_versions:
  "down_entries ms versions = Inr es \<Longrightarrow> map me_version es = versions
     \<and> (\<forall>e \<in> set es. \<exists>m \<in> set ms. mg_down_sql m = Some (me_sql e))"
  by (induction versions arbitrary: es) (auto simp: res_simps find_Some_iff, metis nth_mem)

text \<open>C28: A detail built from a directory of migrations applies the files that are not recorded yet, in the order of
  their names, and the detail built to revert these reverts them in the opposite order, so that
  the server records what it recorded before.\<close>

theorem migrations_up_then_down:
  assumes ok: "server_ok S recorded srv"
    and serde: "\<And>parsed. md_max_count parsed = None \<Longrightarrow> detail_read (to_detail_string lib parsed) = Inr parsed"
    and dir: "parse_migrations_dir dir = Inr ms" "distinct (map mg_version ms)"
    and scripts: "\<forall>m \<in> set ms. mg_up_sql m \<in> S \<and> (\<forall>sql. mg_down_sql m = Some sql \<longrightarrow> sql \<in> S)"
    and up: "build_migrate_up_detail lib dir applied = Inr up" "set applied = recorded d"
      "run_up detail_read (postgres_driver srv) (to_detail_string lib up) cancelled t d = (Inr r1, d1)"
    and down: "build_migrate_down_detail lib dir (rn_applied r1) = Inr dn"
      "run_down detail_read (postgres_driver srv) (to_detail_string lib dn) cancelled' t' d1 = (Inr r2, d2)"
  shows "rn_applied r1 = map mg_version (filter (\<lambda>m. mg_version m \<notin> recorded d) ms)
    \<and> rn_reverted r2 = rev (rn_applied r1) \<and> recorded d1 = recorded d \<union> set (rn_applied r1) \<and> recorded d2 = recorded d"
proof -
  note driver = postgres_driver_ok [OF ok]
  let ?new = "filter (\<lambda>m. mg_version m \<notin> recorded d) ms"
  have d_up: "md_migrations up = map up_entry ?new" "md_max_count up = None"
    using up(1,2) dir(1) by (auto simp: build_migrate_up_detail_def Let_def res_simps)
  then have "pending_of up (recorded d) = map mg_version ?new"
    by (simp add: pending_of_def take_max_def filter_map comp_def up_entry_def)
  moreover have "\<forall>e \<in> set (md_migrations up). me_sql e \<in> S" using scripts by (auto simp: d_up up_entry_def)
  ultimately have r1: "rn_applied r1 = map mg_version ?new" "recorded d1 = recorded d \<union> set (map mg_version ?new)"
    using run_up_effect [OF driver serde [OF d_up(2)] _ up(3)] by auto
  have d_dn: "map me_version (md_migrations dn) = rn_applied r1" "md_max_count dn = None"
    and "\<forall>e \<in> set (md_migrations dn). \<exists>m \<in> set ms. mg_down_sql m = Some (me_sql e)"
    using down(1) dir(1) by (auto simp: build_migrate_down_detail_def res_simps dest!: down_entries_versions)
  then have "\<forall>e \<in> set (md_migrations dn). me_sql e \<in> S" using scripts by blast
  moreover have "revertible_of dn (recorded d1) = rev (rn_applied r1)"
  proof -
    have "\<forall>e \<in> set (md_migrations dn). me_version e \<in> recorded d1"
      using d_dn(1) r1 by (metis UnCI imageI set_map)
    then have "filter (\<lambda>e. me_version e \<in> recorded d1) (rev (md_migrations dn)) = rev (md_migrations dn)"
      by (simp add: filter_True)
    with d_dn show ?thesis by (simp add: revertible_of_def take_max_def rev_map [symmetric])
  qed
  ultimately have "rn_reverted r2 = rev (rn_applied r1)" "recorded d2 = recorded d1 - set (rn_applied r1)"
    using run_down_effect [OF driver serde [OF d_dn(2)] _ down(2)] by auto
  moreover have "recorded d \<inter> set (map mg_version ?new) = {}" by auto
  ultimately show ?thesis using r1 by auto
qed

subsection \<open>A small server\<close>

text \<open>A server that knows the scripts \<open>A\<close> and \<open>B\<close> and whose state are the versions and the scripts that ran. It reads the
  version off the end of a text and the script off its front.\<close>

type_synonym demo_state = "string list \<times> string list"

definition version_in :: "string \<Rightarrow> string \<Rightarrow> string \<Rightarrow> (string \<times> string) option" where
  "version_in before after text =
     (case strip_suffix (CHR 0x27 # after) text of
        None \<Rightarrow> None
      | Some front \<Rightarrow>
     case split_once (CHR 0x27) (rev front) of
        None \<Rightarrow> None
      | Some (v, rest) \<Rightarrow> map_option (Pair (rev v)) (strip_suffix before (rev rest)))"

fun script_before :: "string \<Rightarrow> string list" where
  "script_before (_ # _ # _ # c # _) = [[c]]"
| "script_before _ = []"

definition demo_step :: "string \<Rightarrow> string \<Rightarrow> demo_state \<Rightarrow> (string + string list) \<times> demo_state" where
  "demo_step term_text text d =
     (case version_in ''INSERT INTO schema_migrations (version) VALUES ('' (CHR '')'' # term_text) text of
        Some (v, front) \<Rightarrow>
          if v \<in> set (fst d) then (Inl ''duplicate key'', d) else (Inr [], fst d @ [v], snd d @ script_before (rev front))
      | None \<Rightarrow>
     case version_in ''DELETE FROM schema_migrations WHERE version = '' term_text text of
        Some (v, front) \<Rightarrow> (Inr [], removeAll v (fst d), snd d @ script_before (rev front))
      | None \<Rightarrow> (Inr [[]], d))"

definition demo_server :: "demo_state pg_server" where
  "demo_server =
     \<lparr> pg_acquire = (\<lambda>_. Inr ()),
       pg_raw_sql = (\<lambda>text d. (map_sum (\<lambda>e. e) (\<lambda>_. ()) (fst (demo_step '';'' text d)), snd (demo_step '';'' text d))),
       pg_query = (\<lambda>sql _ d.
         if sql = ''A'' \<or> sql = ''B'' then (Inr [], fst d, snd d @ [sql])
         else if strip_prefix ''SET statement_timeout = '' sql \<noteq> None \<or> sql = show_sql \<or> sql = create_sql then (Inr [[]], d)
         else if sql = select_sql then (Inr (sort (fst d)), d)
         else demo_step [] sql d) \<rparr>"

abbreviation demo_scripts :: "string set" where
  "demo_scripts \<equiv> {''A'', ''B''}"

abbreviation demo_recorded :: "demo_state \<Rightarrow> string set" where
  "demo_recorded d \<equiv> set (fst d)"

lemma version_in_end:
  "CHR 0x27 \<notin> set v \<Longrightarrow> version_in before after (front @ before @ CHR 0x27 # v @ CHR 0x27 # after) = Some (v, front)"
  using strip_suffix_append [of "CHR 0x27 # after" "front @ before @ CHR 0x27 # v"]
  by (simp add: version_in_def)

lemma demo_step_eq:
  assumes "CHR 0x27 \<notin> set v" and "term_text = [] \<or> term_text = '';''"
  shows "demo_step term_text (front @ insert_sql v @ term_text) d =
      (if v \<in> set (fst d) then (Inl ''duplicate key'', d) else (Inr [], fst d @ [v], snd d @ script_before (rev front)))"
    and "demo_step term_text (front @ delete_sql v @ term_text) d = (Inr [], removeAll v (fst d), snd d @ script_before (rev front))"
proof -
  have "version_in ''INSERT INTO schema_migrations (version) VALUES ('' (CHR '')'' # term_text) (front @ insert_sql v @ term_text)
      = Some (v, front)"
    using version_in_end [OF assms(1), of "''INSERT INTO schema_migrations (version) VALUES (''" "CHR '')'' # term_text" front]
    by (simp add: insert_sql_def quoted_def)
  then show "demo_step term_text (front @ insert_sql v @ term_text) d =
      (if v \<in> set (fst d) then (Inl ''duplicate key'', d) else (Inr [], fst d @ [v], snd d @ script_before (rev front)))"
    by (simp add: demo_step_def)
  have "version_in ''INSERT INTO schema_migrations (version) VALUES ('' (CHR '')'' # term_text) (front @ delete_sql v @ term_text) = None"
    using assms(2) by (auto simp: version_in_def strip_suffix_def delete_sql_def quoted_def)
  moreover have "version_in ''DELETE FROM schema_migrations WHERE version = '' term_text (front @ delete_sql v @ term_text)
      = Some (v, front)"
    using version_in_end [OF assms(1), of "''DELETE FROM schema_migrations WHERE version = ''" term_text front]
    by (simp add: delete_sql_def quoted_def)
  ultimately show "demo_step term_text (front @ delete_sql v @ term_text) d
      = (Inr [], removeAll v (fst d), snd d @ script_before (rev front))"
    by (simp add: demo_step_def)
qed

lemma demo_batches:
  assumes "sql \<in> demo_scripts" and "CHR 0x27 \<notin> set v"
  shows "pg_raw_sql demo_server (batch_text t sql (insert_sql v)) d =
      (if v \<in> set (fst d) then (Inl ''duplicate key'', d) else (Inr (), fst d @ [v], snd d @ [sql]))"
    and "pg_raw_sql demo_server (batch_text t sql (delete_sql v)) d = (Inr (), removeAll v (fst d), snd d @ [sql])"
  using assms(1) demo_step_eq [OF assms(2), of "'';''" "timeout_stmt t @ sql @ [CHR 0x0A] @ '';'' @ [CHR 0x0A]" d]
  by (auto simp: demo_server_def batch_text_def)

lemma demo_version_queries:
  assumes "CHR 0x27 \<notin> set v"
  shows "pg_query demo_server (insert_sql v) [] d = (if v \<in> set (fst d) then (Inl ''duplicate key'', d) else (Inr [], fst d @ [v], snd d))"
    and "pg_query demo_server (delete_sql v) [] d = (Inr [], removeAll v (fst d), snd d)"
proof -
  have "pg_query demo_server (insert_sql v) [] d = demo_step [] (insert_sql v) d"
    "pg_query demo_server (delete_sql v) [] d = demo_step [] (delete_sql v) d"
    by (simp_all add: demo_server_def) (simp_all add: insert_sql_def delete_sql_def create_sql_def select_sql_def show_sql_def)
  then show "pg_query demo_server (insert_sql v) [] d = (if v \<in> set (fst d) then (Inl ''duplicate key'', d) else (Inr [], fst d @ [v], snd d))"
    and "pg_query demo_server (delete_sql v) [] d = (Inr [], removeAll v (fst d), snd d)"
    using demo_step_eq [OF assms, of "[]" "[]" d] by simp_all
qed

lemma demo_queries:
  "sql \<in> demo_scripts \<Longrightarrow> pg_query demo_server sql [] d = (Inr [], fst d, snd d @ [sql])"
  "sql \<in> range set_sql \<or> sql = show_sql \<or> sql = create_sql \<Longrightarrow> pg_query demo_server sql [] d = (Inr [[]], d)"
  "pg_query demo_server select_sql [] d = (Inr (sort (fst d)), d)"
proof -
  show "sql \<in> demo_scripts \<Longrightarrow> pg_query demo_server sql [] d = (Inr [], fst d, snd d @ [sql])"
    by (auto simp: demo_server_def)
  have "set_sql x \<notin> demo_scripts" "show_sql \<notin> demo_scripts" "create_sql \<notin> demo_scripts" for x
    by (simp_all add: set_sql_def show_sql_def create_sql_def)
  moreover have "strip_prefix ''SET statement_timeout = '' (set_sql x) = Some x" for x
    by (simp add: set_sql_def)
  ultimately show "sql \<in> range set_sql \<or> sql = show_sql \<or> sql = create_sql \<Longrightarrow> pg_query demo_server sql [] d = (Inr [[]], d)"
    by (elim disjE imageE) (simp_all add: demo_server_def)
  show "pg_query demo_server select_sql [] d = (Inr (sort (fst d)), d)"
    by (simp add: demo_server_def) (simp add: show_sql_def create_sql_def select_sql_def)
qed

lemma demo_server_ok: "server_ok demo_scripts demo_recorded demo_server"
  unfolding server_ok_def
  by (intro conjI allI impI)
    (auto simp: outcome_def demo_batches demo_version_queries demo_queries)

lemma demo_server_runs: "server_runs demo_scripts snd demo_server"
  unfolding server_runs_def
  by (intro conjI allI impI)
    (auto simp: outcome_def demo_batches demo_version_queries demo_queries)

text \<open>Details read back.\<close>

definition str_at :: "json \<Rightarrow> string \<Rightarrow> string" where
  "str_at j k = or_empty (json_as_str (json_index j k))"

fun items :: "json \<Rightarrow> json list" where
  "items (JArr js) = js"
| "items _ = []"

definition demo_read :: "string \<Rightarrow> string + migration_detail" where
  "demo_read s =
     (case x_json_read coded_lib s of
        None \<Rightarrow> Inl ''no JSON''
      | Some j \<Rightarrow>
          Inr \<lparr> md_format = str_at j ''format'', md_direction = str_at j ''direction'',
                md_versions = map (or_empty \<circ> json_as_str) (items (json_index j ''versions'')),
                md_migrations = map (\<lambda>e. \<lparr> me_version = str_at e ''version'', me_sql = str_at e ''sql'',
                  me_transactional = (json_index e ''transactional'' = JBool True) \<rparr>) (items (json_index j ''migrations'')),
                md_dir_sha256 = str_at j ''dir_sha256'',
                md_max_count = json_as_u64 (json_index j ''max_count'') \<rparr>)"

lemma demo_read_back: "md_max_count parsed = None \<Longrightarrow> demo_read (to_detail_string coded_lib parsed) = Inr parsed"
  by (cases parsed) (simp add: demo_read_def to_detail_string_def str_at_def entry_json_def comp_def or_empty_def map_idI)

definition demo_file :: "string \<Rightarrow> string \<times> (string + string)" where
  "demo_file v = (v @ ''_x.sql'', Inr (up_marker @ [newline] @ ''A'' @ [newline] @ down_marker @ [newline] @ ''B''))"

definition demo_migration :: "string \<Rightarrow> migration" where
  "demo_migration v =
     \<lparr> mg_version = v, mg_name = ''x'', mg_up_sql = ''A'', mg_down_sql = Some ''B'', mg_up_transactional = True,
       mg_down_transactional = True \<rparr>"

definition demo_detail :: "string \<Rightarrow> string \<Rightarrow> migration_detail" where
  "demo_detail direction sql =
     \<lparr> md_format = ''v2'', md_direction = direction, md_versions = [''1'', ''2''],
       md_migrations = map (\<lambda>v. \<lparr> me_version = v, me_sql = sql, me_transactional = True \<rparr>) [''1'', ''2''],
       md_dir_sha256 = projr (hash_migrations_dir coded_lib (Entries [demo_file ''2'', demo_file ''1''])), md_max_count = None \<rparr>"

lemma demo_dir: "parse_migrations_dir (Entries [demo_file ''2'', demo_file ''1'']) = Inr (map demo_migration [''1'', ''2''])"
proof -
  have "parse_migration_file (v @ ''_x.sql'') (up_marker @ [newline] @ ''A'' @ [newline] @ down_marker @ [newline] @ ''B'')
      = Inr (Some (demo_migration v))" if "v = ''1'' \<or> v = ''2''" for v
    using that migration_file_sections [of v "[]" "[]" "''A''" "''x''" "''B''"]
    by (auto simp: demo_migration_def up_marker_def down_marker_def trim_def trim_front.simps strip_one_def ws_seqs_def)
  from this [of "''1''"] this [of "''2''"] show ?thesis
    by (simp add: parse_migrations_dir_def sql_entries_def demo_file_def extension_def)
qed

lemma demo_build:
  "build_migrate_up_detail coded_lib (Entries [demo_file ''2'', demo_file ''1'']) [] = Inr (demo_detail ''up'' ''A'')"
  "build_migrate_down_detail coded_lib (Entries [demo_file ''2'', demo_file ''1'']) [''1'', ''2''] = Inr (demo_detail ''down'' ''B'')"
proof -
  obtain h where "hash_migrations_dir coded_lib (Entries [demo_file ''2'', demo_file ''1'']) = Inr h"
    by (auto simp: hash_migrations_dir_def sql_entries_def demo_file_def extension_def)
  then show "build_migrate_up_detail coded_lib (Entries [demo_file ''2'', demo_file ''1'']) [] = Inr (demo_detail ''up'' ''A'')"
    and "build_migrate_down_detail coded_lib (Entries [demo_file ''2'', demo_file ''1'']) [''1'', ''2''] = Inr (demo_detail ''down'' ''B'')"
    by (simp_all add: build_migrate_up_detail_def build_migrate_down_detail_def demo_dir demo_migration_def up_entry_def
        demo_detail_def)
qed

lemma demo_batch:
  assumes "v = ''1'' \<or> v = ''2''" and "sql = ''A'' \<or> sql = ''B''"
  shows "v \<notin> set (fst d) \<Longrightarrow> pg_batch demo_server sql (insert_sql v) v 0 d = (Inr (), fst d @ [v], snd d @ [sql])"
    and "pg_batch demo_server sql (delete_sql v) v 0 d = (Inr (), removeAll v (fst d), snd d @ [sql])"
proof -
  have "validate_migration_version v = Inr ()" "CHR 0x27 \<notin> set v" "sql \<in> demo_scripts"
    using assms by (auto simp: validate_migration_version_def)
  then show "v \<notin> set (fst d) \<Longrightarrow> pg_batch demo_server sql (insert_sql v) v 0 d = (Inr (), fst d @ [v], snd d @ [sql])"
    and "pg_batch demo_server sql (delete_sql v) v 0 d = (Inr (), removeAll v (fst d), snd d @ [sql])"
    using demo_batches [of sql v 0 d] by (simp_all add: pg_batch_def thenD_def batch_text_def)
qed

lemmas demo_runs = prepare_run_def thenD_def parse_detail_def demo_read_back demo_detail_def postgres_driver_def
  up_step_def down_step_def demo_batch demo_queries take_max_def

lemma demo_up:
  "run_up demo_read (postgres_driver demo_server) (to_detail_string coded_lib (demo_detail ''up'' ''A'')) (\<lambda>_. False) 0 ([], [])
   = (Inr \<lparr> rn_applied = [''1'', ''2''], rn_reverted = [] \<rparr>, [''1'', ''2''], [''A'', ''A''])"
  by (simp add: run_up_def demo_runs)

lemma demo_down:
  "run_down demo_read (postgres_driver demo_server) (to_detail_string coded_lib (demo_detail ''down'' ''B'')) (\<lambda>_. False) 0
     ([''1'', ''2''], [''A'', ''A''])
   = (Inr \<lparr> rn_applied = [], rn_reverted = [''2'', ''1''] \<rparr>, [], [''A'', ''A'', ''B'', ''B''])"
  by (simp add: run_down_def demo_runs)


theorem migrations_up_then_down_witness:
  "rn_reverted (projr (fst (run_down demo_read (postgres_driver demo_server)
     (to_detail_string coded_lib (demo_detail ''down'' ''B'')) (\<lambda>_. False) 0 ([''1'', ''2''], [''A'', ''A''])))) = [''2'', ''1'']"
proof -
  have "\<forall>m \<in> set (map demo_migration [''1'', ''2'']).
      mg_up_sql m \<in> demo_scripts \<and> (\<forall>sql. mg_down_sql m = Some sql \<longrightarrow> sql \<in> demo_scripts)"
    by (simp add: demo_migration_def)
  moreover have "distinct (map mg_version (map demo_migration [''1'', ''2'']))" by (simp add: demo_migration_def)
  moreover have "build_migrate_down_detail coded_lib (Entries [demo_file ''2'', demo_file ''1''])
      (rn_applied \<lparr> rn_applied = [''1'', ''2''], rn_reverted = [] \<rparr>) = Inr (demo_detail ''down'' ''B'')"
    by (simp add: demo_build)
  ultimately show ?thesis
    using migrations_up_then_down [where lib = coded_lib and detail_read = demo_read and applied = "[]" and d = "([], [])",
        OF demo_server_ok demo_read_back demo_dir _ _ demo_build(1) _ demo_up _ demo_down]
    by (simp add: demo_down)
qed

theorem interrupted_run_resumes_witness:
  "completed_of (projl (fst (run_up demo_read (postgres_driver demo_server)
     (to_detail_string coded_lib (demo_detail ''up'' ''A'')) (\<lambda>n. n = 1) 0 ([], [])))) @ [''2''] = [''1'', ''2'']"
proof -
  let ?detail = "to_detail_string coded_lib (demo_detail ''up'' ''A'')"
  have "demo_read ?detail = Inr (demo_detail ''up'' ''A'')" by (rule demo_read_back) (simp add: demo_detail_def)
  moreover have "\<forall>e \<in> set (md_migrations (demo_detail ''up'' ''A'')). me_sql e \<in> demo_scripts" by (simp add: demo_detail_def)
  moreover have "md_max_count (demo_detail ''up'' ''A'') = None" "distinct (map me_version (md_migrations (demo_detail ''up'' ''A'')))"
    "pending_of (demo_detail ''up'' ''A'') {} = [''1'', ''2'']"
    by (simp_all add: demo_detail_def pending_of_def take_max_def)
  moreover have first: "run_up demo_read (postgres_driver demo_server) ?detail (\<lambda>n. n = 1) 0 ([], [])
      = (Inl (MgPartialApplied [''1''] MgCancelled), [''1''], [''A''])"
    by (simp add: run_up_def demo_runs stop_error_def)
  moreover have "run_up demo_read (postgres_driver demo_server) ?detail (\<lambda>_. False) 0 ([''1''], [''A''])
      = (Inr \<lparr> rn_applied = [''2''], rn_reverted = [] \<rparr>, [''1'', ''2''], [''A'', ''A''])"
    by (simp add: run_up_def demo_runs)
  ultimately show ?thesis
    using interrupted_run_resumes [where detail_read = demo_read and d = "([], [])", OF demo_server_ok] by fastforce
qed

end
