(* ===== verification/Results.thy ===== *)
theory Results
  imports UC_Submit Authentication
begin

text \<open>
  Reading results: \<open>use_cases/get_result.rs\<close>, \<open>stream_result.rs\<close> and the lookup of the result policy in
  \<open>policy_repo.rs\<close>. The lemmas say exactly who may read a result, and that what an agent has submitted is what the
  requester reads until the retention period is over.
\<close>

subsection \<open>The result policy\<close>

definition specificity_score_ep :: "database_name \<Rightarrow> environment \<Rightarrow> database_name \<Rightarrow> environment \<Rightarrow> nat" where
  "specificity_score_ep policy_db policy_env db env =
     (if \<not> env_is_wildcard policy_env \<and> policy_env = env then 2 else 0)
     + (if \<not> db_is_wildcard policy_db \<and> policy_db = db then 1 else 0)"

definition scope_matches :: "database_name \<Rightarrow> environment \<Rightarrow> database_name \<Rightarrow> environment \<Rightarrow> bool" where
  "scope_matches policy_db policy_env db env \<longleftrightarrow>
     (db_is_wildcard policy_db \<or> policy_db = db) \<and> (env_is_wildcard policy_env \<or> policy_env = env)"

text \<open>The loop of \<open>find_result_policy\<close> over the active rows.\<close>

fun best_policy ::
  "database_name \<Rightarrow> environment \<Rightarrow> result_policy list \<Rightarrow> result_policy option \<Rightarrow> nat \<Rightarrow> result_policy option" where
  "best_policy db env [] best best_score = best"
| "best_policy db env (p # ps) best best_score =
     (if \<not> scope_matches (rp_database p) (rp_environment p) db env then best_policy db env ps best best_score
      else
        let score = specificity_score_ep (rp_database p) (rp_environment p) db env
        in if score > best_score \<or> best = None then best_policy db env ps (Some p) score
           else best_policy db env ps best best_score)"

definition find_result_policy :: "result_policy list \<Rightarrow> database_name \<Rightarrow> environment \<Rightarrow> result_policy option" where
  "find_result_policy rows db env = best_policy db env rows None 0"

subsection \<open>Reading a stored result\<close>

text \<open>The texts of errors.\<close>

fun authz_error_text :: "authz_error \<Rightarrow> string" where
  "authz_error_text (AzForbidden p reason) =
     ''permission denied: '' @ permission_as_str p @ '' '' @ [CHR 0xE2, CHR 0x80, CHR 0x94] @ '' '' @ reason"
| "authz_error_text (AzScopeDenied db env) = ''scope denied: '' @ db @ '':'' @ env"
| "authz_error_text (AzApprovalDenied reason) = ''approval denied: '' @ reason"

fun app_error_text :: "app_error \<Rightarrow> string" where
  "app_error_text (Forbidden e) = ''forbidden: '' @ authz_error_text e"
| "app_error_text (AuthFailed e) = ''authentication failed: '' @ auth_error_text e"
| "app_error_text (NotFound m) = ''not found: '' @ m"
| "app_error_text (Conflict m) = ''conflict: '' @ m"
| "app_error_text (Gone m) = ''gone: '' @ m"
| "app_error_text (Validation m) = ''validation: '' @ m"
| "app_error_text (PlanLimit m) = ''plan limit: '' @ m"
| "app_error_text (PayloadTooLarge m) = ''payload too large: '' @ m"
| "app_error_text (RateLimited m) = ''rate limited: '' @ m"
| "app_error_text (Internal m) = ''internal: '' @ m"

text \<open>The ports: the policies, the result storage, and the channel of published results.\<close>

record result_ports =
  gp_policies :: "result_policy list"
  gp_get_stream :: "string \<Rightarrow> app_error + string"
  gp_subscribe :: "string \<Rightarrow> u64 \<Rightarrow> app_error + result_summary option"

record get_result_output =
  go_stream :: string
  go_execution_id :: string
  go_success :: bool

definition request_policy :: "result_ports \<Rightarrow> request \<Rightarrow> result_policy option" where
  "request_policy ports r = find_result_policy (gp_policies ports) (rq_database r) (rq_environment r)"

definition access_selectors :: "result_ports \<Rightarrow> request \<Rightarrow> store \<Rightarrow> string list" where
  "access_selectors ports r s =
     foldl push_new
       (foldl push_new (rq_share_with r)
         (case request_policy ports r of Some p \<Rightarrow> map selector_to_string (rp_access p) | None \<Rightarrow> []))
       (map (\<lambda>a. ''user:'' @ ap_actor_id a) (approvals_of s (rq_id r)))"

definition authorize_result :: "result_ports \<Rightarrow> request \<Rightarrow> auth_user \<Rightarrow> store \<Rightarrow> app_error + unit" where
  "authorize_result ports r user s =
     map_err Forbidden (authorize_scoped user ResultView (rq_database r) (rq_environment r)
       (CtxResult (rq_requester r) (access_selectors ports r s)))"

definition result_available :: "result_ports \<Rightarrow> request \<Rightarrow> app_error + unit" where
  "result_available ports r =
     tryE (guardE (rq_status r \<in> {Executed, Failed, ExecutionLost}) (NotFound ''result not available'')) (\<lambda>_.
     tryE (guardE (\<not> (rq_no_result_store r \<and> rq_status r \<noteq> Failed))
            (Gone ''result was not stored (no_result_store was set)'')) (\<lambda>_.
     guardE (\<not> (rq_status r \<noteq> Failed
                 \<and> (case request_policy ports r of Some p \<Rightarrow> rp_delivery_mode p = Stream | None \<Rightarrow> False)))
       (Gone ''result not stored by policy (stream-only delivery)'')))"

definition find_executions_for_request :: "store \<Rightarrow> string \<Rightarrow> execution list" where
  "find_executions_for_request s i = sort_key ex_created_at (filter (\<lambda>e. ex_request_id e = i) (st_executions s))"

definition execution_ended :: "execution \<Rightarrow> bool" where
  "execution_ended e \<longleftrightarrow> ex_status e \<in> {ExCompleted, ExFailed}"

definition choose_execution :: "store \<Rightarrow> string \<Rightarrow> string option \<Rightarrow> app_error + execution" where
  "choose_execution s i execution_id =
     (case execution_id of
        Some eid \<Rightarrow>
          tryE (ok_or (find (\<lambda>e. ex_id e = eid) (find_executions_for_request s i)) (NotFound ''execution not found'')) (\<lambda>e.
          tryE (guardE (execution_ended e) (Conflict ''execution still in progress'')) (\<lambda>_. Inr e))
      | None \<Rightarrow>
          ok_or (find execution_ended (rev (find_executions_for_request s i))) (NotFound ''no terminal execution found''))"

definition get_storage_key :: "store \<Rightarrow> string \<Rightarrow> string \<Rightarrow> string option" where
  "get_storage_key s i eid =
     map_option er_storage_key (find_row (\<lambda>r. er_request_id r = i \<and> er_execution_id r = eid) (st_results s))"

definition not_past_retention :: "result_policy option \<Rightarrow> timestamp \<Rightarrow> execution \<Rightarrow> bool" where
  "not_past_retention policy now e \<longleftrightarrow>
     (case ex_finished_at e of Some at \<Rightarrow> \<not> now > at + days (retention_of policy) | None \<Rightarrow> True)"

definition read_error :: "app_error \<Rightarrow> app_error" where
  "read_error e =
     (case e of NotFound m \<Rightarrow> NotFound m | _ \<Rightarrow> Internal (''failed to read result from storage: '' @ app_error_text e))"

definition get_result ::
  "result_ports \<Rightarrow> timestamp \<Rightarrow> string \<Rightarrow> string option \<Rightarrow> auth_user \<Rightarrow> store \<Rightarrow> app_error + get_result_output" where
  "get_result ports now i execution_id user s =
     tryE (ok_or (get_request s i) (NotFound ''request not found'')) (\<lambda>r.
     tryE (result_available ports r) (\<lambda>_.
     tryE (authorize_result ports r user s) (\<lambda>_.
     tryE (choose_execution s i execution_id) (\<lambda>e.
     tryE (guardE (not_past_retention (request_policy ports r) now e)
            (Gone ''result expired (retention period exceeded)'')) (\<lambda>_.
     tryE (ok_or (get_storage_key s i (ex_id e)) (NotFound ''result not found in storage'')) (\<lambda>key.
     tryE (map_err read_error (gp_get_stream ports key)) (\<lambda>stream.
     Inr \<lparr> go_stream = stream, go_execution_id = ex_id e, go_success = (ex_status e = ExCompleted) \<rparr>)))))))"

subsection \<open>Waiting for a result\<close>

datatype stream_result_data = ResultData result_summary | TerminalPlaceholder bool | StreamTimeout

definition status_summary :: "request_status \<Rightarrow> result_summary" where
  "status_summary st =
     \<lparr> rs_execution_id = [], rs_success = False, rs_rows_affected = None, rs_truncated = False,
       rs_error_message = Some (''request '' @ status_as_str st), rs_result_data = None \<rparr>"

definition stream_result ::
  "result_ports \<Rightarrow> string \<Rightarrow> u64 option \<Rightarrow> auth_user \<Rightarrow> store \<Rightarrow> app_error + stream_result_data" where
  "stream_result ports i timeout_secs user s =
     tryE (ok_or (get_request s i) (NotFound ''request not found'')) (\<lambda>r.
     tryE (authorize_result ports r user s) (\<lambda>_.
     if is_terminal (rq_status r) then
       (if rq_status r \<in> {Executed, Failed} then Inr (TerminalPlaceholder (rq_status r = Executed))
        else Inr (ResultData (status_summary (rq_status r))))
     else
       tryE (gp_subscribe ports i (case timeout_secs of Some t \<Rightarrow> t | None \<Rightarrow> 300)) (\<lambda>received.
       Inr (case received of Some summary \<Rightarrow> ResultData summary | None \<Rightarrow> StreamTimeout))))"

subsection \<open>Who may read\<close>

lemma set_push_all: "set (foldl push_new xs ys) = set xs \<union> set ys"
  by (induction ys arbitrary: xs) (auto simp: push_new_def)

text \<open>A selector of a policy or of a vote opens a result to the users it matches.\<close>

definition selects :: "auth_user \<Rightarrow> selector \<Rightarrow> bool" where
  "selects user sel \<longleftrightarrow> selector_wf sel \<and> selector_matches sel (role_names user) (au_groups user) (au_subject_id user) False"

lemma parsed_selects:
  "(case selector_parse (selector_to_string sel) of
      Inr sel' \<Rightarrow> selector_matches sel' (role_names user) (au_groups user) (au_subject_id user) False | Inl _ \<Rightarrow> False)
   \<longleftrightarrow> selects user sel"
  by (cases sel) (auto simp: selects_def selector_parse_def)

lemma any_selector_set:
  "any_selector_matches user xs \<longleftrightarrow> (\<exists>x \<in> set xs. any_selector_matches user [x])"
  by (auto simp: any_selector_matches_def list_ex_iff)

definition may_read :: "result_ports \<Rightarrow> request \<Rightarrow> auth_user \<Rightarrow> store \<Rightarrow> bool" where
  "may_read ports r user s \<longleftrightarrow>
     au_subject_type user \<noteq> SubjAgent \<and> has_scoped_permission user ResultView (rq_database r) (rq_environment r)
     \<and> (au_subject_id user = rq_requester r
        \<or> au_subject_id user \<noteq> [] \<and> (\<exists>a \<in> set (st_approvals s). ap_request_id a = rq_id r \<and> ap_actor_id a = au_subject_id user)
        \<or> any_selector_matches user (rq_share_with r)
        \<or> (\<exists>p. request_policy ports r = Some p \<and> (\<exists>sel \<in> set (rp_access p). selects user sel))
        \<or> effective_ownership user ResultView (rq_database r) (rq_environment r) = AnyOwner)"

lemma authorize_result_iff: "authorize_result ports r user s = Inr () \<longleftrightarrow> may_read ports r user s"
proof -
  have policy: "any_selector_matches user [selector_to_string sel] \<longleftrightarrow> selects user sel" for sel
    using parsed_selects [of user sel] by (simp add: any_selector_matches_def)
  have voter: "any_selector_matches user [''user:'' @ x] \<longleftrightarrow> x \<noteq> [] \<and> x = au_subject_id user" for x
    using policy [of "User x"] by (auto simp: selects_def)
  have "any_selector_matches user (access_selectors ports r s) \<longleftrightarrow>
      any_selector_matches user (rq_share_with r)
      \<or> (\<exists>p. request_policy ports r = Some p \<and> (\<exists>sel \<in> set (rp_access p). selects user sel))
      \<or> au_subject_id user \<noteq> [] \<and> (\<exists>a \<in> set (st_approvals s). ap_request_id a = rq_id r \<and> ap_actor_id a = au_subject_id user)"
  proof -
    have sets: "set (access_selectors ports r s) = set (rq_share_with r)
        \<union> (case request_policy ports r of Some p \<Rightarrow> selector_to_string ` set (rp_access p) | None \<Rightarrow> {})
        \<union> (\<lambda>a. ''user:'' @ ap_actor_id a) ` {a \<in> set (st_approvals s). ap_request_id a = rq_id r}"
      by (simp add: access_selectors_def set_push_all set_approvals_of split: option.split)
    show ?thesis
      unfolding any_selector_set [of user "access_selectors ports r s"] any_selector_set [of user "rq_share_with r"] sets bex_Un
      by (cases "request_policy ports r")
        (simp_all only: option.case bex_simps policy voter, auto)
  qed
  then show ?thesis
    by (auto simp: authorize_result_def may_read_def res_simps authorize_scoped_def self_read_def check_context_def split: if_splits)
qed

text \<open>C20: A result is read, from the storage or as it is published, only by somebody who is not an agent, may view results of
  the database in this environment, and is the requester, has voted on the request, is among those the
  requester or the result policy shares results with, or may view the results of others.\<close>

theorem result_read_authorized:
  "(\<exists>out. get_result ports now i execution_id user s = Inr out) \<or> (\<exists>data. stream_result ports i timeout_secs user s = Inr data)
     \<Longrightarrow> \<exists>r. get_request s i = Some r \<and> may_read ports r user s"
proof (elim disjE exE)
  fix out
  assume "get_result ports now i execution_id user s = Inr out"
  then have "\<exists>r u. get_request s i = Some r \<and> authorize_result ports r user s = Inr u"
    unfolding get_result_def tryE_Inr ok_or_Inr by blast
  then show ?thesis by (simp add: authorize_result_iff)
next
  fix data
  assume run: "stream_result ports i timeout_secs user s = Inr data"
  then obtain r where r: "get_request s i = Some r" by (cases "get_request s i") (simp_all add: stream_result_def)
  with run have "authorize_result ports r user s \<noteq> Inl e" for e by (auto simp: stream_result_def)
  then obtain u where "authorize_result ports r user s = Inr u" by (cases "authorize_result ports r user s") blast+
  with r show ?thesis by (simp add: authorize_result_iff)
qed

subsection \<open>What was submitted is what is read\<close>

lemma find_unique: "d \<in> set xs \<Longrightarrow> P d \<Longrightarrow> (\<And>x. x \<in> set xs \<Longrightarrow> P x \<Longrightarrow> x = d) \<Longrightarrow> find P xs = Some d"
  using find_row_Some [of P xs] find_row_None [of P xs] unfolding find_row_def by (cases "find P xs") blast+

text \<open>What the requester is to read: the submitted data, and for a failure without data, or one whose data must not be stored, a
  report of the error.\<close>

definition failure_report :: "lib \<Rightarrow> string option \<Rightarrow> string" where
  "failure_report lib message =
     x_json_text lib (JObj [(''success'', JBool False),
       (''error'', JStr (truncate_utf8 (case message of None \<Rightarrow> ''unknown error'' | Some m \<Rightarrow> m) 4096))])"

definition readable_result :: "lib \<Rightarrow> request \<Rightarrow> submit_input \<Rightarrow> string" where
  "readable_result lib r input =
     (case sb_result_data input of
        Some data \<Rightarrow> if rq_no_result_store r then failure_report lib (sb_error_message input) else data
      | None \<Rightarrow> failure_report lib (sb_error_message input))"

lemma stored_object:
  assumes "store_result lib ports clk input e r policy = (None, rm, effs)"
    and "sb_success input \<Longrightarrow> \<not> rq_no_result_store r \<and> sb_result_data input \<noteq> None
      \<and> (\<forall>p. policy = Some p \<longrightarrow> rp_delivery_mode p \<noteq> Stream)"
  shows "\<exists>m t. rm = Some m \<and> er_storage_key m = storage_key e \<and> er_request_id m = ex_request_id e \<and> er_execution_id m = ex_id e
    \<and> StorePut (storage_key e) (readable_result lib r input) t \<in> set effs"
  using assms
  by (auto simp: store_result_def readable_result_def failure_report_def error_bytes_def should_store_def manifest_def Let_def split: if_splits option.splits)

text \<open>An execution that has ended is the one chosen under its identifier.\<close>

lemma ended_execution_chosen:
  assumes "store_ok s" and "map ex_core (st_executions s') = map ex_core (st_executions s)" and "d \<in> set (st_executions s')"
    and "execution_ended d"
  shows "choose_execution s' (ex_request_id d) (Some (ex_id d)) = Inr d"
proof -
  have "map ex_id (st_executions s') = map ex_id (st_executions s)"
    using arg_cong [OF assms(2), of "map fst"] by (simp add: comp_def ex_core_def)
  then have "distinct (map ex_id (st_executions s'))" using assms(1) by (simp add: store_ok_def keys_ok_def)
  then have "find (\<lambda>x. ex_id x = ex_id d) (find_executions_for_request s' (ex_request_id d)) = Some d"
    using assms(3) by (intro find_unique) (auto simp: find_executions_for_request_def distinct_map inj_on_def)
  with assms(4) show ?thesis by (simp add: choose_execution_def)
qed

text \<open>C27: After a successful submission the requester reads, under the request and the execution, exactly the data that
  was submitted, with the outcome that was submitted, until the retention period after the completion is over; for a
  failure without data, or of a request that forbids storing results, it is the report of the error. A
  success must come with data, on a request that allows storing them and under a policy that stores results. The request was
  not cancelled meanwhile, this is the first result of the execution, and the storage returns what was put.\<close>

theorem submitted_result_readable:
  assumes ok: "store_ok s" and run: "agent_submit_result env ports clk input agent ctx s = (Inr out, s', effs)"
    and storage: "\<And>key data until. StorePut key data until \<in> set effs \<Longrightarrow> gp_get_stream gp key = Inr data"
    and first: "\<forall>x \<in> set (st_results s). er_execution_id x \<noteq> sb_execution_id input"
    and policies: "\<And>db en. sp_result_policy ports db en = Inr (find_result_policy (gp_policies gp) db en)"
    and request: "so_status out \<noteq> Cancelled" "get_request s' (so_id out) = Some r"
    and stored: "sb_success input \<Longrightarrow> \<not> rq_no_result_store r \<and> sb_result_data input \<noteq> None
      \<and> (\<forall>p. request_policy gp r = Some p \<longrightarrow> rp_delivery_mode p \<noteq> Stream)"
    and user: "au_subject_id user = rq_requester r" "au_subject_type user \<noteq> SubjAgent"
      "has_scoped_permission user ResultView (rq_database r) (rq_environment r)"
    and time: "now \<le> clk 5 + days (retention_of (request_policy gp r))"
  shows "get_result gp now (so_id out) (Some (sb_execution_id input)) user s' =
    Inr \<lparr> go_stream = readable_result (ce_lib env) r input,
      go_execution_id = sb_execution_id input, go_success = sb_success input \<rparr>"
proof -
  let ?i = "sb_execution_id input"
  obtain e r0 res policy c rm effs0 u where h:
    "submit_checks ports (clk 0) input agent ctx s = Inr (e, r0, res, policy)"
    "store_result (ce_lib env) ports clk input e r0 policy = (None, rm, effs0)"
    "u \<longleftrightarrow> rq_status r0 \<noteq> Cancelled" "rq_status r0 \<in> {Running, ExecutionLost, Cancelled}"
    "get_execution s' ?i = Some (c\<lparr> ex_status := (if sb_success input then ExCompleted else ExFailed), ex_finished_at := Some (clk 5) \<rparr>)"
    "ex_core c = ex_core e"
    "get_request s' (ex_request_id e) = Some (completed_row (sb_success input) (clk 5) r0)"
    "st_results s' = st_results s @ (case rm of Some m \<Rightarrow> [m\<lparr> er_status := Stored \<rparr>] | None \<Rightarrow> [])"
    "map ex_core (st_executions s') = map ex_core (st_executions s)"
    "out = \<lparr> so_id = ex_request_id e, so_status = (if u then tr_new_status res else Cancelled) \<rparr>"
    "effs = effs0 @ (if u then [Publish (ex_request_id e) (summary_of ports input e),
       Webhook (build_webhook_event (ce_lib env) (tr_event res))] else [])"
    by (rule submit_success [OF ok run])
  note chk = submit_checks_Inr [OF h(1)]
  have r: "r = completed_row (sb_success input) (clk 5) r0" "so_id out = ex_request_id e" and u: "rq_status r0 \<noteq> Cancelled"
    using request h(3,7,10) by auto
  then have r0: "rq_status r = (if sb_success input then Executed else Failed)" "rq_database r = rq_database r0"
    "rq_environment r = rq_environment r0" "rq_requester r = rq_requester r0" "rq_no_result_store r = rq_no_result_store r0"
    by (simp_all add: completed_row_def)
  have policy: "request_policy gp r = policy"
    using chk(9) policies by (simp add: request_policy_def r0)
  have "sb_success input \<Longrightarrow> \<not> rq_no_result_store r0 \<and> sb_result_data input \<noteq> None
      \<and> (\<forall>p. policy = Some p \<longrightarrow> rp_delivery_mode p \<noteq> Stream)"
    using stored by (simp add: policy r0(5))
  from stored_object [OF h(2) this] obtain m t where m: "rm = Some m" "er_storage_key m = storage_key e"
    "er_request_id m = ex_request_id e" "er_execution_id m = ex_id e"
    and put0: "StorePut (storage_key e) (readable_result (ce_lib env) r0 input) t \<in> set effs0"
    by blast
  have put: "gp_get_stream gp (storage_key e) = Inr (readable_result (ce_lib env) r0 input)"
    by (rule storage) (use put0 h(11) in auto)
  have same: "readable_result (ce_lib env) r input = readable_result (ce_lib env) r0 input"
    by (simp add: readable_result_def r0(5) split: option.split)
  have available: "result_available gp r = Inr ()"
    using stored by (auto simp: result_available_def r0 res_simps split: option.splits)
  have allowed: "authorize_result gp r user s' = Inr ()"
    using user by (simp add: authorize_result_iff may_read_def)
  let ?d = "c\<lparr> ex_status := (if sb_success input then ExCompleted else ExFailed), ex_finished_at := Some (clk 5) \<rparr>"
  have d: "?d \<in> set (st_executions s')" "ex_id ?d = ?i" "ex_request_id ?d = ex_request_id e"
    using find_row_Some [OF h(5) [unfolded get_execution_def]] h(6) by (simp_all add: ex_core_def)
  have chosen: "choose_execution s' (so_id out) (Some ?i) = Inr ?d"
    using ended_execution_chosen [OF ok h(9) d(1)] unfolding d(2,3) r(2) by (simp add: execution_ended_def)
  have "find_row (\<lambda>x. er_request_id x = ex_request_id e \<and> er_execution_id x = ?i) (st_results s) = None"
    using first by (simp add: find_row_None)
  then have "get_storage_key s' (so_id out) (ex_id ?d) = Some (storage_key e)"
    using m d(2) chk(2) by (simp add: get_storage_key_def h(8) r(2) find_row_append)
  moreover have "not_past_retention (request_policy gp r) now ?d"
    using time by (simp add: not_past_retention_def)
  ultimately show ?thesis
    using request(2) available allowed chosen put d(2) same by (simp add: get_result_def)
qed

subsection \<open>The small installation\<close>

definition demo_reader :: auth_user where
  "demo_reader = demo_owner\<lparr> au_roles := [\<lparr> rr_name = ''requester'', rr_permissions = [ResultView \<mapsto> Own],
     rr_databases = [db_wildcard], rr_environments = [env_wildcard] \<rparr>] \<rparr>"

definition demo_result_ports :: result_ports where
  "demo_result_ports =
     \<lparr> gp_policies = [], gp_get_stream = (\<lambda>_. Inr ''[]''), gp_subscribe = (\<lambda>_ _. Inr None) \<rparr>"

lemma demo_reader_views: "has_scoped_permission demo_reader ResultView db en"
  by (simp add: demo_reader_def has_scoped_permission_def role_allows_def role_has_permission_def covers_database_def
      covers_environment_def db_wildcard_def env_wildcard_def)

lemma demo_reader_who: "au_subject_id demo_reader = ''ann''" "au_subject_type demo_reader = SubjUser"
  by (simp_all add: demo_reader_def demo_owner_def)

theorem result_read_authorized_witness:
  "\<exists>r. get_request (demo_store Rejected) ''r1'' = Some r \<and> may_read demo_result_ports r demo_reader (demo_store Rejected)"
proof -
  have "may_read demo_result_ports (demo_request Rejected) demo_reader (demo_store Rejected)"
    by (simp add: may_read_def demo_reader_views demo_reader_who) (simp add: demo_request_def)
  then have "\<exists>data. stream_result demo_result_ports ''r1'' None demo_reader (demo_store Rejected) = Inr data"
    by (simp add: stream_result_def authorize_result_iff [symmetric])
      (simp add: demo_store_def demo_request_def get_request_def find_row_def is_terminal_def)
  then show ?thesis using result_read_authorized by blast
qed

lemma demo_submit_run:
  "\<exists>out s' effs. agent_submit_result demo_env (demo_ports None) (\<lambda>_. 1) demo_submit demo_agent CtxSystem (demo_running False)
     = (Inr out, s', effs) \<and> so_id out = ''r1'' \<and> so_status out = Executed
     \<and> (\<forall>key data t. StorePut key data t \<in> set effs \<longrightarrow> data = ''[]'')
     \<and> (\<exists>r. get_request s' ''r1'' = Some r \<and> rq_requester r = ''ann'' \<and> \<not> rq_no_result_store r)"
  by (simp add: submit_eval mark_completed_from_completing_def mark_executed_def insert_result_def storage_key_def)

theorem submitted_result_readable_witness:
  "\<exists>s'. get_result demo_result_ports 1 ''r1'' (Some ''x1'') demo_reader s' =
     Inr \<lparr> go_stream = ''[]'', go_execution_id = ''x1'', go_success = True \<rparr>"
proof -
  obtain out s' effs r where run: "agent_submit_result demo_env (demo_ports None) (\<lambda>_. 1) demo_submit demo_agent CtxSystem
      (demo_running False) = (Inr out, s', effs)"
    and out: "so_id out = ''r1''" "so_status out \<noteq> Cancelled"
    and put: "\<And>key data t. StorePut key data t \<in> set effs \<Longrightarrow> data = ''[]''"
    and r: "get_request s' (so_id out) = Some r" "rq_requester r = ''ann''" "\<not> rq_no_result_store r"
    using demo_submit_run by fastforce
  have data: "sb_result_data demo_submit = Some ''[]''" by (simp add: demo_submit_def)
  have "get_result demo_result_ports 1 (so_id out) (Some (sb_execution_id demo_submit)) demo_reader s' =
      Inr \<lparr> go_stream = readable_result (ce_lib demo_env) r demo_submit,
        go_execution_id = sb_execution_id demo_submit, go_success = sb_success demo_submit \<rparr>"
    by (rule submitted_result_readable [OF demo_running_ok run _ _ _ out(2) r(1)])
      (simp_all add: put [symmetric] r data demo_reader_who demo_reader_views demo_result_ports_def demo_running_def demo_store_def
        demo_ports_def find_result_policy_def request_policy_def days_def seconds_def)
  then show ?thesis by (auto simp: out readable_result_def data r(3)) (auto simp: demo_submit_def)
qed

end
