(* ===== verification/Agent_Poll.thy ===== *)
theory Agent_Poll
  imports UC_Execution
begin

text \<open>
  Polling for jobs: \<open>use_cases/agent_poll.rs\<close> with the registration of agents in \<open>agent_repo.rs\<close>. The lemmas say
  exactly which requests a poll offers, and that the claim accepts the database of every one of them.
\<close>

record poll_input =
  pi_capabilities :: "database_capability list"
  pi_operations :: "operation list"
  pi_limit :: "u32 option"
  pi_in_flight :: u32
  pi_max_concurrent :: u32
  pi_draining :: bool
  pi_uptime_secs :: u64
  pi_active_jobs :: "active_job_entry list"

record poll_job =
  pj_id :: string
  pj_created_by :: string
  pj_operation :: operation
  pj_environment :: environment
  pj_database :: database_name
  pj_detail :: string

text \<open>The agents are a table of their own. \<open>po_fault n\<close> is the error of the \<open>n\<close>-th access to the database.\<close>

record poll_env =
  po_lib :: lib
  po_audit_id :: string
  po_clock :: "nat \<Rightarrow> timestamp"
  po_fault :: "nat \<Rightarrow> app_error option"

definition upsert_agent :: "agent \<Rightarrow> agent list \<Rightarrow> agent list" where
  "upsert_agent a agents =
     (if list_ex (\<lambda>b. ag_id b = ag_id a) agents
      then upd_where (\<lambda>b. ag_id b = ag_id a) (\<lambda>b. b\<lparr> ag_token_id := ag_token_id a, ag_databases := ag_databases a,
             ag_status := ag_status a, ag_max_concurrent := ag_max_concurrent a, ag_in_flight := ag_in_flight a,
             ag_uptime_secs := ag_uptime_secs a, ag_active_jobs := ag_active_jobs a, ag_last_seen := ag_last_seen a \<rparr>) agents
      else agents @ [a])"

definition polled_agent :: "poll_input \<Rightarrow> auth_user \<Rightarrow> timestamp \<Rightarrow> agent" where
  "polled_agent input user now =
     \<lparr> ag_id = au_subject_id user, ag_token_id = (case au_token_id user of Some t \<Rightarrow> t | None \<Rightarrow> []),
       ag_databases = pi_capabilities input, ag_status = (if pi_draining input then AgDraining else AgActive),
       ag_max_concurrent = pi_max_concurrent input, ag_in_flight = pi_in_flight input,
       ag_uptime_secs = pi_uptime_secs input, ag_active_jobs = pi_active_jobs input, ag_lease_duration_secs = None,
       ag_last_seen = Some now, ag_created_at = now \<rparr>"

text \<open>The record of a new agent; a failure is only logged.\<close>

definition record_registration :: "poll_env \<Rightarrow> auth_user \<Rightarrow> store \<Rightarrow> store" where
  "record_registration env user s =
     (case insert_audit_event (po_lib env) (po_audit_id env)
             (audit_event_simple ''agent.registered'' ''agent'' (au_subject_id user) (Some (au_subject_id user))
                (po_clock env 1) CtxSystem) (st_audit s) of
        Inl _ \<Rightarrow> s
      | Inr t \<Rightarrow> s\<lparr> st_audit := t \<rparr>)"

definition poll_job_of :: "request \<Rightarrow> poll_job" where
  "poll_job_of r =
     \<lparr> pj_id = rq_id r, pj_created_by = rq_requester r, pj_operation = rq_operation r, pj_environment = rq_environment r,
       pj_database = rq_database r, pj_detail = rq_detail r \<rparr>"

definition poll_limit :: "poll_input \<Rightarrow> nat" where
  "poll_limit input = unat (min (case pi_limit input of Some n \<Rightarrow> n | None \<Rightarrow> 10) 20)"

definition offered :: "poll_input \<Rightarrow> store \<Rightarrow> request list" where
  "offered input s =
     take (poll_limit input) (filter (\<lambda>r. pi_operations input = [] \<or> rq_operation r \<in> set (pi_operations input))
       (find_dispatched_jobs s (map (\<lambda>c. (dc_database c, dc_environment c)) (pi_capabilities input))))"

definition fault_or :: "poll_env \<Rightarrow> nat \<Rightarrow> app_error + unit" where
  "fault_or env n = (case po_fault env n of Some e \<Rightarrow> Inl e | None \<Rightarrow> Inr ())"

definition agent_poll ::
  "poll_env \<Rightarrow> poll_input \<Rightarrow> auth_user \<Rightarrow> agent list \<Rightarrow> store \<Rightarrow> (app_error + poll_job list) \<times> agent list \<times> store" where
  "agent_poll env input user agents s =
     (case map_err Forbidden (authorize_global user AgentOperate) of
        Inl e \<Rightarrow> (Inl e, agents, s)
      | Inr _ \<Rightarrow>
     case fault_or env 0 of
        Inl e \<Rightarrow> (Inl e, agents, s)
      | Inr _ \<Rightarrow>
     let is_new = (\<not> list_ex (\<lambda>b. ag_id b = au_subject_id user) agents) in
     case fault_or env 1 of
        Inl e \<Rightarrow> (Inl e, agents, s)
      | Inr _ \<Rightarrow>
     let agents' = upsert_agent (polled_agent input user (po_clock env 0)) agents;
         s' = (if is_new then record_registration env user s else s)
     in (tryE (fault_or env 2) (\<lambda>_. Inr (map poll_job_of (offered input s'))), agents', s'))"

subsection \<open>What is offered\<close>

lemma record_registration_same: "st_requests (record_registration env user s) = st_requests s"
  by (simp add: record_registration_def split: sum.split)

lemma database_id_inject:
  assumes "CHR '':'' \<notin> set (db_str d)" and "CHR '':'' \<notin> set (db_str d')"
  shows "database_id d e = database_id d' e' \<longleftrightarrow> d = d' \<and> e = e'"
proof
  assume "database_id d e = database_id d' e'"
  then have "split_once CHR '':'' (db_str d @ CHR '':'' # env_str e) = split_once CHR '':'' (db_str d' @ CHR '':'' # env_str e')"
    by (simp add: database_id_def)
  then have "db_str d = db_str d'" "env_str e = env_str e'" using assms by simp_all
  then show "d = d' \<and> e = e'" by (cases d; cases d'; cases e; cases e') simp
qed simp

lemma upsert_agent_row: "\<exists>b \<in> set (upsert_agent a agents). ag_id b = ag_id a \<and> ag_databases b = ag_databases a"
proof (cases "list_ex (\<lambda>b. ag_id b = ag_id a) agents")
  case True
  then obtain b where "b \<in> set agents" "ag_id b = ag_id a" by (auto simp: list_ex_iff)
  then show ?thesis
    unfolding upsert_agent_def if_P [OF True] upd_where_def set_map by (intro bexI [OF _ imageI [where x = b]]) auto
qed (simp add: upsert_agent_def)

text \<open>A poll offers, in the order of their creation and at most twenty, dispatched requests for databases among the
  capabilities the agent reports, with one of the operations it asks for; the claim then finds the
  capability and supports the operation. The agent is registered with what it reports, and stays registered.\<close>

lemma poll_offers:
  assumes "agent_poll env input user agents s = (Inr jobs, agents', s')"
    and names: "\<forall>r \<in> set (st_requests s). CHR '':'' \<notin> set (db_str (rq_database r))"
      "\<forall>c \<in> set (pi_capabilities input). CHR '':'' \<notin> set (db_str (dc_database c))"
  shows "jobs = map poll_job_of (offered input s)" and "length jobs \<le> 20"
    and "\<forall>j \<in> set jobs. \<exists>r \<in> set (st_requests s). poll_job_of r = j \<and> rq_status r = Dispatched
      \<and> has_capability (pi_capabilities input) r \<and> op_supported (pi_capabilities input) r
      \<and> (pi_operations input = [] \<or> rq_operation r \<in> set (pi_operations input))"
    and "has_permission user AgentOperate"
    and "\<exists>a \<in> set agents'. ag_id a = au_subject_id user \<and> ag_databases a = pi_capabilities input"
proof -
  have same: "offered input (if b then record_registration env user s else s) = offered input s" for b
    by (simp add: offered_def find_dispatched_jobs_def record_registration_same)
  show jobs: "jobs = map poll_job_of (offered input s)"
    using assms(1) by (auto simp: agent_poll_def Let_def res_simps same split: sum.splits)
  show "has_permission user AgentOperate"
    using assms(1) by (auto simp: agent_poll_def Let_def authorize_global_def split: sum.splits if_splits)
  have "min n 20 \<le> (20 :: u32)" for n by simp
  then have "poll_limit input \<le> unat (20 :: u32)" unfolding poll_limit_def word_le_nat_alt .
  then show "length jobs \<le> 20" by (simp add: jobs offered_def)
  show "\<forall>j \<in> set jobs. \<exists>r \<in> set (st_requests s). poll_job_of r = j \<and> rq_status r = Dispatched
      \<and> has_capability (pi_capabilities input) r \<and> op_supported (pi_capabilities input) r
      \<and> (pi_operations input = [] \<or> rq_operation r \<in> set (pi_operations input))"
  proof
    fix j
    assume "j \<in> set jobs"
    then obtain r where r: "r \<in> set (offered input s)" "j = poll_job_of r" by (auto simp: jobs)
    then obtain c where c: "r \<in> set (st_requests s)" "rq_status r = Dispatched" "c \<in> set (pi_capabilities input)"
      "database_id (rq_database r) (rq_environment r) = database_id (dc_database c) (dc_environment c)"
      "pi_operations input = [] \<or> rq_operation r \<in> set (pi_operations input)"
      by (auto simp: offered_def find_dispatched_jobs_def rq_database_id_def dest!: in_set_takeD split: if_splits)
    then have "rq_database r = dc_database c \<and> rq_environment r = dc_environment c"
      using names by (simp add: database_id_inject)
    with c r(2) show "\<exists>r \<in> set (st_requests s). poll_job_of r = j \<and> rq_status r = Dispatched
        \<and> has_capability (pi_capabilities input) r \<and> op_supported (pi_capabilities input) r
        \<and> (pi_operations input = [] \<or> rq_operation r \<in> set (pi_operations input))"
      by (intro bexI [of _ r]) (auto simp: has_capability_def op_supported_def list_ex_iff)
  qed
  show "\<exists>a \<in> set agents'. ag_id a = au_subject_id user \<and> ag_databases a = pi_capabilities input"
    using assms(1) upsert_agent_row [of "polled_agent input user (po_clock env 0)" agents]
    by (auto simp: agent_poll_def Let_def polled_agent_def split: sum.splits)
qed

text \<open>An agent that reports the wildcard as its only capability could claim every request, yet a poll compares the
  wildcard as a text and offers it nothing.\<close>

lemma wildcard_agent_offered_nothing:
  assumes "pi_capabilities input = [\<lparr> dc_database = db_wildcard, dc_environment = env_wildcard \<rparr>]"
    and "\<forall>r \<in> set (st_requests s). CHR '':'' \<notin> set (db_str (rq_database r)) \<and> \<not> db_is_wildcard (rq_database r)"
  shows "offered input s = []" and "has_capability (pi_capabilities input) r"
proof -
  have "database_id (rq_database q) (rq_environment q) \<noteq> database_id db_wildcard env_wildcard" if "q \<in> set (st_requests s)" for q
    using assms(2) that database_id_inject [of "rq_database q" db_wildcard]
    by (auto simp: db_wildcard_def db_is_wildcard_def)
  then show "offered input s = []"
    by (auto simp: offered_def find_dispatched_jobs_def assms(1) rq_database_id_def filter_empty_conv)
  show "has_capability (pi_capabilities input) r"
    by (simp add: has_capability_def assms(1) db_wildcard_def env_wildcard_def db_is_wildcard_def env_is_wildcard_def)
qed

end
