(* ===== verification/Client_Ip.thy ===== *)
theory Client_Ip
  imports Sql Entities
begin

text \<open>
  The address of a client behind proxies: \<open>middleware/trusted_proxies.rs\<close>. Addresses and networks are those of the
  standard library and of the \<open>ipnet\<close> crate: \<open>parse_ip\<close> reads an address, \<open>within\<close> says whether a network contains
  one. The middleware decides which address the audit log and the sign-in records carry.
\<close>

text \<open>\<open>str::split\<close> at a character.\<close>

fun split_at :: "char \<Rightarrow> string \<Rightarrow> string list" where
  "split_at c [] = [[]]"
| "split_at c (x # xs) =
     (if x = c then [] # split_at c xs
      else case split_at c xs of y # ys \<Rightarrow> (x # y) # ys | [] \<Rightarrow> [[x]])"

lemma split_at_ne [simp]: "split_at c s \<noteq> []"
  by (induction s) (auto split: list.splits)

lemma split_at_append: "split_at c (a @ c # b) = split_at c a @ split_at c b"
proof (induction a)
  case (Cons x a)
  then show ?case by (cases "split_at c a") auto
qed simp

lemma split_at_free: "c \<notin> set s \<Longrightarrow> split_at c s = [s]"
  by (induction s) auto

record 'ip client_ip =
  cip_ip :: 'ip
  cip_source :: ip_source

definition is_trusted :: "('net \<Rightarrow> 'ip \<Rightarrow> bool) \<Rightarrow> 'net list \<Rightarrow> 'ip \<Rightarrow> bool" where
  "is_trusted within trusted ip = list_ex (\<lambda>net. within net ip) trusted"

text \<open>The walk from the right over the readable entries.\<close>

fun first_untrusted :: "(string \<Rightarrow> 'ip option) \<Rightarrow> ('ip \<Rightarrow> bool) \<Rightarrow> string list \<Rightarrow> 'ip option" where
  "first_untrusted parse_ip ok [] = None"
| "first_untrusted parse_ip ok (entry # entries) =
     (case parse_ip entry of
        None \<Rightarrow> first_untrusted parse_ip ok entries
      | Some ip \<Rightarrow> if \<not> ok ip then Some ip else first_untrusted parse_ip ok entries)"

fun first_readable :: "(string \<Rightarrow> 'ip option) \<Rightarrow> string list \<Rightarrow> 'ip option" where
  "first_readable parse_ip [] = None"
| "first_readable parse_ip (entry # entries) =
     (case parse_ip entry of Some ip \<Rightarrow> Some ip | None \<Rightarrow> first_readable parse_ip entries)"

definition resolve_ip ::
  "(string \<Rightarrow> 'ip option) \<Rightarrow> ('net \<Rightarrow> 'ip \<Rightarrow> bool) \<Rightarrow> 'ip \<Rightarrow> 'net list \<Rightarrow> string option \<Rightarrow> 'ip client_ip" where
  "resolve_ip parse_ip within peer trusted xff =
     (if trusted = [] \<or> \<not> is_trusted within trusted peer then \<lparr> cip_ip = peer, cip_source = Direct \<rparr>
      else
        case xff of
          None \<Rightarrow> \<lparr> cip_ip = peer, cip_source = Direct \<rparr>
        | Some value_text \<Rightarrow>
            let entries = map trim (split_at (CHR '','') value_text) in
            case first_untrusted parse_ip (is_trusted within trusted) (rev entries) of
              Some ip \<Rightarrow> \<lparr> cip_ip = ip, cip_source = Forwarded \<rparr>
            | None \<Rightarrow>
                case first_readable parse_ip entries of
                  Some ip \<Rightarrow> \<lparr> cip_ip = ip, cip_source = Forwarded \<rparr>
                | None \<Rightarrow> \<lparr> cip_ip = peer, cip_source = Direct \<rparr>)"

definition resolve_client_ip ::
  "(string \<Rightarrow> 'ip option) \<Rightarrow> ('net \<Rightarrow> 'ip \<Rightarrow> bool) \<Rightarrow> 'net list \<Rightarrow> 'ip option \<Rightarrow> string option \<Rightarrow> 'ip client_ip option" where
  "resolve_client_ip parse_ip within trusted peer xff =
     map_option (\<lambda>p. resolve_ip parse_ip within p trusted xff) peer"

lemma split_at_join: "xs \<noteq> [] \<Longrightarrow> \<forall>x \<in> set xs. c \<notin> set x \<Longrightarrow> split_at c (join [c] xs) = xs"
  by (induction "[c]" xs rule: join.induct) (simp_all add: split_at_free split_at_append)

lemma first_untrusted_skips:
  "\<forall>e \<in> set xs. \<exists>q. parse_ip e = Some q \<and> ok q \<Longrightarrow> first_untrusted parse_ip ok (xs @ ys) = first_untrusted parse_ip ok ys"
  by (induction xs) auto

text \<open>A client cannot choose the address it is recorded under. When it connects directly, the header is ignored. When
  it comes through trusted proxies, each of which appends the address it was reached from, the address is
  the last one outside the trusted networks, whatever the client has put into the header before.\<close>

theorem client_ip_not_forged:
  assumes "is_trusted within trusted peer"
    and "parse_ip (trim client) = Some ip" and "\<not> is_trusted within trusted ip"
    and "\<forall>p \<in> set proxies. \<exists>q. parse_ip (trim p) = Some q \<and> is_trusted within trusted q"
    and "\<forall>x \<in> set (client # proxies). CHR '','' \<notin> set x"
  shows "resolve_client_ip parse_ip within trusted (Some peer) (Some (forged @ '','' @ join '','' (client # proxies)))
      = Some \<lparr> cip_ip = ip, cip_source = Forwarded \<rparr>
    \<and> resolve_client_ip parse_ip within trusted (Some ip) (Some forged) = Some \<lparr> cip_ip = ip, cip_source = Direct \<rparr>"
proof -
  have "split_at (CHR '','') (forged @ '','' @ join '','' (client # proxies)) = split_at (CHR '','') forged @ client # proxies"
    using split_at_join [of "client # proxies" "CHR '',''"] assms(5) by (simp add: split_at_append)
  moreover have "first_untrusted parse_ip (is_trusted within trusted) (rev (map trim proxies) @ trim client # rest) = Some ip" for rest
    using assms(2-4) by (subst first_untrusted_skips) auto
  moreover have "trusted \<noteq> []" using assms(1) by (auto simp: is_trusted_def)
  ultimately show ?thesis
    using assms(1,3) by (simp add: resolve_client_ip_def resolve_ip_def Let_def rev_map)
qed

text \<open>Addresses as numbers in decimal; networks as single addresses.\<close>

theorem client_ip_not_forged_witness:
  "resolve_client_ip (\<lambda>s. if s \<noteq> [] \<and> list_all is_digit s then Some (read_nat s) else None) (=) [1, 2] (Some 1) (Some ''7,8,2'')
   = Some \<lparr> cip_ip = 8, cip_source = Forwarded \<rparr>"
  using client_ip_not_forged [of "(=)" "[1, 2]" "1::nat" "\<lambda>s. if s \<noteq> [] \<and> list_all is_digit s then Some (read_nat s) else None"
      "''8''" 8 "[''2'']" "''7''"]
  by (simp add: is_trusted_def trim_def trim_front.simps strip_one_def ws_seqs_def is_digit_def read_nat_def digit_val_def)

text \<open>An entry that is not an address is passed over: behind a proxy that appends the port as well, the client chooses.\<close>

lemma unreadable_entry_skipped:
  assumes "parse_ip (trim appended) = None" and "CHR '','' \<notin> set appended"
  shows "first_untrusted parse_ip ok (rev (map trim (split_at (CHR '','') (forged @ '','' @ appended))))
    = first_untrusted parse_ip ok (rev (map trim (split_at (CHR '','') forged)))"
  using assms by (simp add: split_at_append split_at_free)

end
