(* ===== verification/Server_Config.thy ===== *)
theory Server_Config
  imports Risk Auth Workflow_Engine
begin

text \<open>
  The server's configuration after the TOML reader (\<open>dbward-config/src/server.rs\<close>): its sections, the validation at
  load time, which stops at the first error, and the conversion of the sections to the inputs of the synchronisation
  (\<open>dbward-app/src/use_cases/sync_config/convert.rs\<close>). Sections that neither the validation nor the
  synchronisation reads (storage, logging, chat) are left out.
\<close>

subsection \<open>Sections\<close>

record database_def =
  dd_name :: string
  dd_environments :: "string list"

datatype auto_approve_def = DefAlways | DefRiskBased string bool bool int

datatype workflow_step_type = StepApproval | StepUnknown

datatype step_mode_def = DefAll | DefAny

datatype approver_selector_type = SelRole | SelGroup | SelUser

record approver_def =
  ad_selector_type :: approver_selector_type
  ad_value :: string
  ad_min :: "u32 option"

record workflow_step_def =
  sd_step_type :: workflow_step_type
  sd_mode :: step_mode_def
  sd_approvers :: "approver_def list"

record workflow_def =
  wd_database :: string
  wd_environment :: string
  wd_operations :: "string list"
  wd_auto_approve :: "auto_approve_def option"
  wd_steps :: "workflow_step_def list"
  wd_require_reason :: bool
  wd_allow_self_approve :: bool
  wd_allow_same_approver_across_steps :: bool
  wd_explain :: bool
  wd_pending_ttl_secs :: "u64 option"
  wd_statement_timeout_secs :: "u64 option"

record webhook_def =
  hd_id :: string
  hd_url :: string
  hd_events :: "string list"
  hd_format :: string
  hd_secret :: "string option"

record execution_policy_def =
  ed_database :: string
  ed_environment :: string
  ed_max_executions :: "u32 option"
  ed_execution_window_secs :: "u64 option"
  ed_retry_on_failure :: "bool option"
  ed_statement_timeout_secs :: "u32 option"
  ed_max_statement_timeout_secs :: "u32 option"
  ed_max_rows :: "u32 option"
  ed_migration_lease_duration_secs :: "u32 option"
  ed_migration_statement_timeout_secs :: "u32 option"

record result_policy_def =
  pd_database :: string
  pd_environment :: string
  pd_retention_days :: u32
  pd_delivery_mode :: string
  pd_access :: "string list"

record notification_policy_def =
  nd_database :: string
  nd_environment :: string
  nd_webhooks :: "string list"
  nd_events :: "string list"

record sql_review_entry =
  sr_database :: string
  sr_environment :: string
  sr_no_where_delete :: string
  sr_no_where_update :: string
  sr_drop_table :: string
  sr_drop_column :: string
  sr_not_null_without_default :: string
  sr_create_index_not_concurrently :: string
  sr_alter_column_type :: string
  sr_truncate :: string
  sr_mixed_ddl_dml :: string
  sr_large_in_list :: string
  sr_drop_index :: string
  sr_drop_view :: string
  sr_drop_sequence :: string
  sr_create_sequence :: string

record role_config =
  rc_name :: string
  rc_permissions :: "string list"
  rc_databases :: "string list"
  rc_environments :: "string list"

record group_config =
  gc_name :: string
  gc_roles :: "string list"

record oidc_role_mapping =
  om_claim :: string
  om_value :: string
  om_role :: string

record oidc_config =
  oc_issuer_url :: string
  oc_audience :: string
  oc_jwks_uri :: "string option"
  oc_client_id :: "string option"
  oc_role_mappings :: "oidc_role_mapping list"
  oc_default_role :: "string option"

record auth_config =
  ac_oidc :: "oidc_config option"
  ac_default_role :: "string option"
  ac_roles :: "role_config list"
  ac_groups :: "group_config list"

text \<open>\<open>cfg_auto_approve\<close> is the section that is no longer supported; only its presence matters.\<close>

record server_config =
  cfg_databases :: "database_def list"
  cfg_workflows :: "workflow_def list"
  cfg_webhooks :: "webhook_def list"
  cfg_execution_policies :: "execution_policy_def list"
  cfg_result_policies :: "result_policy_def list"
  cfg_notification_policies :: "notification_policy_def list"
  cfg_approval_ttl_secs :: u64
  cfg_auth :: auth_config
  cfg_sql_review :: "sql_review_entry list"
  cfg_auto_approve :: "json list"

subsection \<open>Validation at load time\<close>

text \<open>A loop that checks the elements of a list in order; a check sees the elements before its own, which are the
  entries of the \<open>HashSet\<close>s that find duplicates and give the index in the message.\<close>

fun check_seq :: "('a list \<Rightarrow> 'a \<Rightarrow> 'e + unit) \<Rightarrow> 'a list \<Rightarrow> 'a list \<Rightarrow> 'e + unit" where
  "check_seq f before [] = Inr ()"
| "check_seq f before (x # xs) = tryE (f before x) (\<lambda>_. check_seq f (before @ [x]) xs)"

lemma check_seq_from:
  "check_seq f before xs = Inr u \<longleftrightarrow> (\<forall>i < length xs. f (before @ take i xs) (xs ! i) = Inr ())"
proof (induction xs arbitrary: before)
  case (Cons x xs)
  have "check_seq f before (x # xs) = Inr u \<longleftrightarrow> f before x = Inr () \<and> check_seq f (before @ [x]) xs = Inr u"
    by (simp add: tryE_Inr)
  also have "\<dots> \<longleftrightarrow> (\<forall>i < length (x # xs). f (before @ take i (x # xs)) ((x # xs) ! i) = Inr ())"
    unfolding Cons.IH by (simp add: All_less_Suc2)
  finally show ?case .
qed simp

lemma check_seq_Inr: "check_seq f [] xs = Inr u \<longleftrightarrow> (\<forall>i < length xs. f (take i xs) (xs ! i) = Inr ())"
  using check_seq_from [of f "[]"] by simp

lemma check_seq_mem: "check_seq f [] xs = Inr u \<Longrightarrow> x \<in> set xs \<Longrightarrow> \<exists>before. f before x = Inr ()"
  by (auto simp: check_seq_Inr in_set_conv_nth)

text \<open>Workflows of one database and environment. The code iterates over a \<open>HashMap\<close> of scopes, in the model in the
  order of the first workflow of each scope.\<close>

definition wd_scope :: "workflow_def \<Rightarrow> string \<times> string" where
  "wd_scope w = (wd_database w, wd_environment w)"

definition scope_list :: "workflow_def list \<Rightarrow> (string \<times> string) list" where
  "scope_list ws = rev (remdups (rev (map wd_scope ws)))"

definition scope_entries :: "workflow_def list \<Rightarrow> string \<times> string \<Rightarrow> (nat \<times> string list) list" where
  "scope_entries ws scope =
     map (\<lambda>(i, w). (i, wd_operations w)) (filter (\<lambda>(i, w). wd_scope w = scope) (List.enumerate 0 ws))"

definition scope_check :: "workflow_def list \<Rightarrow> string \<times> string \<Rightarrow> string + unit" where
  "scope_check ws scope =
     (let entries = scope_entries ws scope; (db, env) = scope in
      tryE (guardE (\<not> (list_ex (\<lambda>(_, ops). ops = []) entries \<and> length entries > 1))
        (''workflow validation: database='' @ db @ '', environment='' @ env
         @ '' has both catchall (operations omitted) and specific operations workflows '' @ [CHR 0xE2, CHR 0x80, CHR 0x94]
         @ '' ambiguous'')) (\<lambda>_.
      check_seq (\<lambda>before (idx, op). guardE (op \<notin> snd ` set before)
        (''workflow validation: operation '' @ quoted op @ '' appears in multiple workflows for database='' @ db
         @ '', environment='' @ env @ '' (workflow index '' @ show_nat idx @ '')''))
        [] (concat (map (\<lambda>(idx, ops). map (Pair idx) ops) entries))))"

definition overlap_check :: "workflow_def list \<Rightarrow> string + unit" where
  "overlap_check ws = check_seq (\<lambda>_. scope_check ws) [] (scope_list ws)"

definition is_supported :: "workflow_step_type \<Rightarrow> bool" where
  "is_supported t \<longleftrightarrow> t = StepApproval"

definition supported_steps :: "workflow_def \<Rightarrow> workflow_step_def list" where
  "supported_steps w = filter (\<lambda>s. is_supported (sd_step_type s)) (wd_steps w)"

definition auto_approve_check :: "workflow_def list \<Rightarrow> workflow_def \<Rightarrow> string + unit" where
  "auto_approve_check before w =
     (let at = ''workflows['' @ show_nat (length before) @ '']''; none = supported_steps w = [] in
      tryE (guardE (\<not> (wd_auto_approve w = None \<and> none))
        (at @ '': must have [workflows.auto_approve], [[workflows.steps]], or both'')) (\<lambda>_.
      case wd_auto_approve w of
        Some DefAlways \<Rightarrow>
          guardE none (at @ '': mode = '' @ [CHR 34] @ ''always'' @ [CHR 34] @ '' makes steps unreachable ''
            @ [CHR 0xE2, CHR 0x80, CHR 0x94] @ '' remove [[workflows.steps]] or use mode = '' @ [CHR 34] @ ''risk_based'' @ [CHR 34])
      | Some (DefRiskBased risk _ _ _) \<Rightarrow>
          tryE (guardE (\<not> none) (at @ '': risk_based auto_approve without steps has no fallback ''
            @ [CHR 0xE2, CHR 0x80, CHR 0x94] @ '' add [[workflows.steps]] or use mode = '' @ [CHR 34] @ ''always'' @ [CHR 34])) (\<lambda>_.
          guardE (risk \<in> {''low'', ''medium'', ''high''})
            (at @ ''.auto_approve.risk: unknown value '' @ quoted risk @ '' (expected: low, medium, high)''))
      | None \<Rightarrow> Inr ()))"

text \<open>The identifier suggested for a webhook: the name of the host, with other characters replaced. A character of several
  bytes is replaced once.\<close>

definition slug_from_url :: "string \<Rightarrow> string" where
  "slug_from_url url =
     (let rest = (case strip_prefix ''https://'' url of Some r \<Rightarrow> r
                  | None \<Rightarrow> (case strip_prefix ''http://'' url of Some r \<Rightarrow> r | None \<Rightarrow> url));
          host = takeWhile (\<lambda>c. c \<noteq> CHR '':'') (takeWhile (\<lambda>c. c \<noteq> CHR ''/'') rest);
          slug = concat (map (\<lambda>c. if is_alnum c then [to_lower c]
                     else if 0x80 \<le> (of_char c :: nat) \<and> (of_char c :: nat) < 0xC0 then [] else ''-'') host);
          slug = rev (dropWhile (\<lambda>c. c = CHR ''-'') (rev (dropWhile (\<lambda>c. c = CHR ''-'') slug)))
      in if slug = [] then ''webhook'' else slug)"

definition slug_char :: "char \<Rightarrow> bool" where
  "slug_char c \<longleftrightarrow> is_lower c \<or> is_digit c"

text \<open>The regular expression \<open>^[a-z0-9]([a-z0-9\-]*[a-z0-9])?$\<close>.\<close>

definition webhook_id_ok :: "string \<Rightarrow> bool" where
  "webhook_id_ok s \<longleftrightarrow>
     s \<noteq> [] \<and> slug_char (hd s) \<and> slug_char (List.last s) \<and> list_all (\<lambda>c. slug_char c \<or> c = CHR ''-'') s"

definition webhook_check :: "webhook_def list \<Rightarrow> webhook_def \<Rightarrow> string + unit" where
  "webhook_check before w =
     (let at = ''webhooks['' @ show_nat (length before) @ '']'' in
      tryE (guardE (hd_id w \<noteq> []) (at @ '' is missing required '' @ quoted ''id'' @ '' field.'' @ [CHR 10]
        @ ''       suggested: id = '' @ [CHR 34] @ slug_from_url (hd_url w) @ [CHR 34])) (\<lambda>_.
      tryE (guardE (length (hd_id w) \<le> 64) (at @ ''.id '' @ quoted (hd_id w) @ '' exceeds 64 characters'')) (\<lambda>_.
      tryE (guardE (webhook_id_ok (hd_id w))
        (at @ ''.id '' @ quoted (hd_id w) @ '' must match [a-z0-9][a-z0-9'' @ [CHR 92] @ ''-]*'')) (\<lambda>_.
      guardE (hd_id w \<notin> hd_id ` set before) (at @ ''.id '' @ quoted (hd_id w) @ '' is duplicated'')))))"

definition notification_check :: "webhook_def list \<Rightarrow> notification_policy_def list \<Rightarrow> notification_policy_def \<Rightarrow> string + unit" where
  "notification_check hooks before n =
     check_seq (\<lambda>_ i. guardE (i \<in> hd_id ` set hooks)
       (''notification_policies['' @ show_nat (length before) @ ''].webhooks: '' @ quoted i
        @ '' does not match any [[webhooks]].id'')) [] (nd_webhooks n)"

definition delivery_check :: "result_policy_def list \<Rightarrow> result_policy_def \<Rightarrow> string + unit" where
  "delivery_check before p =
     guardE (pd_delivery_mode p \<in> {''both'', ''stream''})
       (''result_policies['' @ show_nat (length before) @ ''].delivery_mode: unknown value '' @ quoted (pd_delivery_mode p)
        @ '' (expected: both, stream)'')"

definition execution_check :: "execution_policy_def list \<Rightarrow> execution_policy_def \<Rightarrow> string + unit" where
  "execution_check before p =
     (let at = ''execution_policies['' @ show_nat (length before) @ '']: '' in
      tryE (guardE (ed_max_executions p \<noteq> Some 0) (at @ ''max_executions must be >= 1'')) (\<lambda>_.
      tryE (guardE (\<not> (case (ed_statement_timeout_secs p, ed_max_statement_timeout_secs p) of
                          (Some st, Some max_st) \<Rightarrow> st > max_st | _ \<Rightarrow> False))
        (at @ ''statement_timeout_secs must not exceed max_statement_timeout_secs'')) (\<lambda>_.
      guardE (\<not> (case (ed_migration_statement_timeout_secs p, ed_max_statement_timeout_secs p) of
                    (Some st, Some max_st) \<Rightarrow> st > 0 \<and> st > max_st | _ \<Rightarrow> False))
        (at @ ''migration_statement_timeout_secs must not exceed max_statement_timeout_secs''))))"

definition builtin_role_names :: "string list" where
  "builtin_role_names = [''admin'', ''requester'', ''approver'', ''operator'', ''agent-default'']"

text \<open>The text before and after the last colon.\<close>

definition rsplit_colon :: "string \<Rightarrow> (string \<times> string) option" where
  "rsplit_colon s = (case split_once CHR '':'' (rev s) of None \<Rightarrow> None | Some (a, b) \<Rightarrow> Some (rev b, rev a))"

definition permission_check :: "string \<Rightarrow> string \<Rightarrow> string + unit" where
  "permission_check role perm =
     (let at = ''auth.roles['' @ role @ '']: '';
          (perm_part, ownership_part) = (case rsplit_colon perm of Some (p, q) \<Rightarrow> (p, Some q) | None \<Rightarrow> (perm, None))
      in case permission_from_str perm_part of
           Inl _ \<Rightarrow> Inl (at @ ''unknown permission '' @ quoted perm)
         | Inr parsed \<Rightarrow>
             (case ownership_part of
                None \<Rightarrow> Inr ()
              | Some ownership \<Rightarrow>
                  tryE (guardE (parsed \<noteq> PermAll) (at @ ''permission '' @ quoted ''*''
                    @ '' cannot have an ownership suffix (it is implicitly '' @ quoted ''any'' @ '')'')) (\<lambda>_.
                  guardE (ownership = ''own'' \<or> ownership = ''any'') (at @ ''invalid ownership '' @ quoted ownership
                    @ '' in '' @ quoted perm @ '' (expected '' @ quoted ''own'' @ '' or '' @ quoted ''any'' @ '')''))))"

definition role_check :: "role_config list \<Rightarrow> role_config \<Rightarrow> string + unit" where
  "role_check before r =
     tryE (guardE (rc_name r \<notin> set builtin_role_names)
       (''auth.roles: '' @ quoted (rc_name r) @ '' is a built-in role and cannot be redefined'')) (\<lambda>_.
     tryE (guardE (rc_name r \<notin> rc_name ` set before) (''auth.roles: duplicate role name '' @ quoted (rc_name r))) (\<lambda>_.
     tryE (guardE (rc_permissions r \<noteq> []) (''auth.roles['' @ rc_name r @ '']: permissions cannot be empty'')) (\<lambda>_.
     tryE (check_seq (\<lambda>_. permission_check (rc_name r)) [] (rc_permissions r)) (\<lambda>_.
     tryE (check_seq (\<lambda>_ db. guardE (db = ''*'' \<or> \<not> isl (DatabaseName_new db))
       (''auth.roles['' @ rc_name r @ '']: invalid database name '' @ quoted db)) [] (rc_databases r)) (\<lambda>_.
     check_seq (\<lambda>_ env. guardE (env = ''*'' \<or> \<not> isl (Environment_new env))
       (''auth.roles['' @ rc_name r @ '']: invalid environment name '' @ quoted env)) [] (rc_environments r))))))"

definition group_check :: "string list \<Rightarrow> group_config list \<Rightarrow> group_config \<Rightarrow> string + unit" where
  "group_check defined before g =
     tryE (guardE (gc_name g \<notin> gc_name ` set before) (''auth.groups: duplicate group name '' @ quoted (gc_name g))) (\<lambda>_.
     tryE (guardE (gc_roles g \<noteq> []) (''auth.groups['' @ gc_name g @ '']: roles cannot be empty'')) (\<lambda>_.
     check_seq (\<lambda>_ r. guardE (r \<in> set defined)
       (''auth.groups['' @ gc_name g @ '']: role '' @ quoted r @ '' is not defined in auth.roles or built-in'')) [] (gc_roles g)))"

definition rule_fields :: "sql_review_entry \<Rightarrow> (string \<times> string) list" where
  "rule_fields s =
     [(''no_where_delete'', sr_no_where_delete s), (''no_where_update'', sr_no_where_update s),
      (''drop_table'', sr_drop_table s), (''drop_column'', sr_drop_column s), (''drop_index'', sr_drop_index s),
      (''drop_view'', sr_drop_view s), (''drop_sequence'', sr_drop_sequence s), (''create_sequence'', sr_create_sequence s),
      (''not_null_without_default'', sr_not_null_without_default s),
      (''create_index_not_concurrently'', sr_create_index_not_concurrently s),
      (''alter_column_type'', sr_alter_column_type s), (''truncate'', sr_truncate s), (''mixed_ddl_dml'', sr_mixed_ddl_dml s),
      (''large_in_list'', sr_large_in_list s)]"

definition review_check :: "sql_review_entry list \<Rightarrow> sql_review_entry \<Rightarrow> string + unit" where
  "review_check before s =
     (let at = ''sql_review['' @ show_nat (length before) @ '']'' in
      tryE (guardE (sr_database s \<noteq> ''any'' \<and> sr_environment s \<noteq> ''any'')
        (at @ '': '' @ quoted ''any'' @ '' is reserved (use '' @ quoted ''*'' @ '' for wildcard)'')) (\<lambda>_.
      tryE (guardE ((sr_database s, sr_environment s) \<notin> (\<lambda>x. (sr_database x, sr_environment x)) ` set before)
        (at @ '': duplicate scope (database='' @ quoted (sr_database s) @ '', environment='' @ quoted (sr_environment s) @ '')'')) (\<lambda>_.
      check_seq (\<lambda>_ (field, v). guardE (v \<in> {''block'', ''warn'', ''off''})
        (at @ ''.'' @ field @ '': invalid value '' @ quoted v @ '' (expected: block, warn, off)'')) [] (rule_fields s))))"

definition validate_common :: "server_config \<Rightarrow> string + unit" where
  "validate_common cfg =
     (let auth = cfg_auth cfg; defined = builtin_role_names @ map rc_name (ac_roles auth) in
      tryE (guardE (cfg_approval_ttl_secs cfg \<noteq> 0)
        ''retention.approval_ttl_secs must be > 0 (immediate expiry makes approval impossible)'') (\<lambda>_.
      tryE (overlap_check (cfg_workflows cfg)) (\<lambda>_.
      tryE (guardE (cfg_auto_approve cfg = [])
        (''[[auto_approve]] is no longer supported. Move auto_approve settings into [workflows.auto_approve]. ''
         @ ''See: docs/guides/policies/auto-approve.md'')) (\<lambda>_.
      tryE (check_seq auto_approve_check [] (cfg_workflows cfg)) (\<lambda>_.
      tryE (check_seq webhook_check [] (cfg_webhooks cfg)) (\<lambda>_.
      tryE (check_seq (notification_check (cfg_webhooks cfg)) [] (cfg_notification_policies cfg)) (\<lambda>_.
      tryE (check_seq delivery_check [] (cfg_result_policies cfg)) (\<lambda>_.
      tryE (check_seq execution_check [] (cfg_execution_policies cfg)) (\<lambda>_.
      tryE (check_seq role_check [] (ac_roles auth)) (\<lambda>_.
      tryE (check_seq (group_check defined) [] (ac_groups auth)) (\<lambda>_.
      tryE (guardE (case ac_default_role auth of Some r \<Rightarrow> r \<in> set defined | None \<Rightarrow> True)
        (''auth.default_role: role '' @ quoted (the (ac_default_role auth)) @ '' is not defined in auth.roles or built-in'')) (\<lambda>_.
      check_seq review_check [] (cfg_sql_review cfg)))))))))))))"

definition web_url :: "string \<Rightarrow> bool" where
  "web_url s \<longleftrightarrow> strip_prefix ''http://'' s \<noteq> None \<or> strip_prefix ''https://'' s \<noteq> None"

definition validate_auth_connection :: "server_config \<Rightarrow> string + unit" where
  "validate_auth_connection cfg =
     (case ac_oidc (cfg_auth cfg) of
        None \<Rightarrow> Inr ()
      | Some oidc \<Rightarrow>
          let issuer = trim (oc_issuer_url oidc) in
          tryE (guardE (issuer \<noteq> []) ''auth.oidc.issuer_url cannot be empty'') (\<lambda>_.
          tryE (guardE (web_url issuer)
            (''auth.oidc.issuer_url: must start with http:// or https://, got '' @ quoted issuer)) (\<lambda>_.
          tryE (case oc_jwks_uri oidc of
                  None \<Rightarrow> Inr ()
                | Some jwks \<Rightarrow>
                    tryE (guardE (trim jwks \<noteq> []) ''auth.oidc.jwks_uri: cannot be empty (omit the field to use default)'') (\<lambda>_.
                    guardE (web_url (trim jwks))
                      (''auth.oidc.jwks_uri: must start with http:// or https://, got '' @ quoted (trim jwks)))) (\<lambda>_.
          guardE ((case oc_client_id oidc of Some c \<Rightarrow> trim c \<noteq> [] | None \<Rightarrow> False) \<or> trim (oc_audience oidc) \<noteq> [])
            ''auth.oidc: at least one of client_id or audience must be non-empty''))))"

definition validate_oidc_role_mappings :: "server_config \<Rightarrow> string + unit" where
  "validate_oidc_role_mappings cfg =
     (case ac_oidc (cfg_auth cfg) of
        None \<Rightarrow> Inr ()
      | Some oidc \<Rightarrow>
          check_seq (\<lambda>_ m. guardE (om_role m \<in> set (builtin_role_names @ map rc_name (ac_roles (cfg_auth cfg))))
            (''auth.oidc.role_mappings: role '' @ quoted (om_role m) @ '' is not defined in auth.roles or built-in''))
            [] (oc_role_mappings oidc))"

text \<open>\<open>validate\<close> at start, \<open>validate_for_reload\<close> when the file is read again.\<close>

definition validate_config :: "server_config \<Rightarrow> string + unit" where
  "validate_config cfg =
     tryE (validate_common cfg) (\<lambda>_. tryE (validate_auth_connection cfg) (\<lambda>_. validate_oidc_role_mappings cfg))"

definition validate_for_reload :: "server_config \<Rightarrow> string + unit" where
  "validate_for_reload cfg = tryE (validate_common cfg) (\<lambda>_. validate_oidc_role_mappings cfg)"

subsection \<open>The inputs of the synchronisation\<close>

text \<open>The other inputs have the fields of their sections; of a group only the name is passed on.\<close>

record approver_input =
  ai_selector_type :: string
  ai_value :: string
  ai_min :: u32

record workflow_step_input =
  wsi_mode :: string
  wsi_approvers :: "approver_input list"

record workflow_input =
  wfi_database :: string
  wfi_environment :: string
  wfi_operations :: "string list"
  wfi_auto_approve_json :: "string option"
  wfi_steps :: "workflow_step_input list"
  wfi_require_reason :: bool
  wfi_allow_self_approve :: bool
  wfi_allow_same_approver_across_steps :: bool
  wfi_explain :: bool
  wfi_pending_ttl_secs :: "u64 option"
  wfi_statement_timeout_secs :: "u64 option"

record sql_review_input =
  sri_database :: string
  sri_environment :: string
  sri_rules :: review_rules

fun selector_type_as_str :: "approver_selector_type \<Rightarrow> string" where
  "selector_type_as_str SelRole = ''role''"
| "selector_type_as_str SelGroup = ''group''"
| "selector_type_as_str SelUser = ''user''"

definition approver_def_to_input :: "approver_def \<Rightarrow> approver_input" where
  "approver_def_to_input a =
     \<lparr> ai_selector_type = selector_type_as_str (ad_selector_type a), ai_value = ad_value a,
       ai_min = (case ad_min a of Some n \<Rightarrow> n | None \<Rightarrow> 1) \<rparr>"

fun step_mode_to_input :: "step_mode_def \<Rightarrow> string" where
  "step_mode_to_input DefAll = ''all''"
| "step_mode_to_input DefAny = ''any''"

definition step_def_to_input :: "workflow_step_def \<Rightarrow> workflow_step_input" where
  "step_def_to_input s =
     \<lparr> wsi_mode = step_mode_to_input (sd_mode s), wsi_approvers = map approver_def_to_input (sd_approvers s) \<rparr>"

fun auto_approve_settings_of :: "auto_approve_def \<Rightarrow> app_error + auto_approve_settings" where
  "auto_approve_settings_of DefAlways =
     Inr \<lparr> aa_mode = Always, aa_max_risk_level = None, aa_allow_read_only = True, aa_allow_safe_ddl = True,
           aa_max_estimated_rows = 1000 \<rparr>"
| "auto_approve_settings_of (DefRiskBased risk read_only safe_ddl rows) =
     tryE (if risk = ''low'' then Inr Low else if risk = ''medium'' then Inr Medium else if risk = ''high'' then Inr High
           else Inl (Internal (''invalid auto_approve risk '' @ quoted risk @ '' (should be caught by config validation)''))) (\<lambda>level.
     Inr \<lparr> aa_mode = RiskBased, aa_max_risk_level = Some level, aa_allow_read_only = read_only,
           aa_allow_safe_ddl = safe_ddl, aa_max_estimated_rows = rows \<rparr>)"

text \<open>\<open>aa_text\<close> is the JSON text of the settings.\<close>

definition convert_auto_approve_def ::
  "(auto_approve_settings \<Rightarrow> string) \<Rightarrow> auto_approve_def option \<Rightarrow> app_error + string option" where
  "convert_auto_approve_def aa_text d =
     (case d of None \<Rightarrow> Inr None | Some a \<Rightarrow> tryE (auto_approve_settings_of a) (\<lambda>settings. Inr (Some (aa_text settings))))"

definition workflow_from_def :: "(auto_approve_settings \<Rightarrow> string) \<Rightarrow> workflow_def \<Rightarrow> app_error + workflow_input" where
  "workflow_from_def aa_text w =
     tryE (convert_auto_approve_def aa_text (wd_auto_approve w)) (\<lambda>aa.
     Inr \<lparr> wfi_database = wd_database w, wfi_environment = wd_environment w, wfi_operations = wd_operations w,
           wfi_auto_approve_json = aa, wfi_steps = map step_def_to_input (supported_steps w),
           wfi_require_reason = wd_require_reason w, wfi_allow_self_approve = wd_allow_self_approve w,
           wfi_allow_same_approver_across_steps = wd_allow_same_approver_across_steps w, wfi_explain = wd_explain w,
           wfi_pending_ttl_secs = wd_pending_ttl_secs w, wfi_statement_timeout_secs = wd_statement_timeout_secs w \<rparr>)"

text \<open>Collecting results stops at the first error.\<close>

fun collect :: "('a \<Rightarrow> 'e + 'b) \<Rightarrow> 'a list \<Rightarrow> 'e + 'b list" where
  "collect f [] = Inr []"
| "collect f (x # xs) = tryE (f x) (\<lambda>y. tryE (collect f xs) (\<lambda>ys. Inr (y # ys)))"

lemma collect_Inr: "collect f xs = Inr ys \<longleftrightarrow> list_all2 (\<lambda>x y. f x = Inr y) xs ys"
  by (induction xs arbitrary: ys) (auto simp: tryE_Inr list_all2_Cons1)

lemma collect_total: "\<forall>x \<in> set xs. \<exists>y. f x = Inr y \<Longrightarrow> \<exists>ys. collect f xs = Inr ys"
  by (induction xs) auto

definition workflows_from_config :: "(auto_approve_settings \<Rightarrow> string) \<Rightarrow> workflow_def list \<Rightarrow> app_error + workflow_input list" where
  "workflows_from_config aa_text = collect (workflow_from_def aa_text)"

definition parse_action :: "string \<Rightarrow> string + rule_action" where
  "parse_action s =
     (if s = ''block'' then Inr RaBlock else if s = ''warn'' then Inr RaWarn else if s = ''off'' then Inr RaOff
      else Inl (''invalid rule action '' @ quoted s))"

definition action_field :: "nat \<Rightarrow> string \<Rightarrow> string \<Rightarrow> string + rule_action" where
  "action_field i field v =
     map_err (\<lambda>e. ''sql_review['' @ show_nat i @ ''].'' @ field @ '': '' @ e) (parse_action v)"

definition sql_review_from_entry :: "nat \<times> sql_review_entry \<Rightarrow> string + sql_review_input" where
  "sql_review_from_entry = (\<lambda>(i, e).
     tryE (action_field i ''no_where_delete'' (sr_no_where_delete e)) (\<lambda>a.
     tryE (action_field i ''no_where_update'' (sr_no_where_update e)) (\<lambda>b.
     tryE (action_field i ''drop_table'' (sr_drop_table e)) (\<lambda>c.
     tryE (action_field i ''drop_column'' (sr_drop_column e)) (\<lambda>d.
     tryE (action_field i ''drop_index'' (sr_drop_index e)) (\<lambda>f.
     tryE (action_field i ''drop_view'' (sr_drop_view e)) (\<lambda>g.
     tryE (action_field i ''drop_sequence'' (sr_drop_sequence e)) (\<lambda>h.
     tryE (action_field i ''create_sequence'' (sr_create_sequence e)) (\<lambda>j.
     tryE (action_field i ''not_null_without_default'' (sr_not_null_without_default e)) (\<lambda>k.
     tryE (action_field i ''create_index_not_concurrently'' (sr_create_index_not_concurrently e)) (\<lambda>l.
     tryE (action_field i ''alter_column_type'' (sr_alter_column_type e)) (\<lambda>m.
     tryE (action_field i ''truncate'' (sr_truncate e)) (\<lambda>n.
     tryE (action_field i ''mixed_ddl_dml'' (sr_mixed_ddl_dml e)) (\<lambda>p.
     tryE (action_field i ''large_in_list'' (sr_large_in_list e)) (\<lambda>q.
     Inr \<lparr> sri_database = sr_database e, sri_environment = sr_environment e,
           sri_rules = \<lparr> ru_no_where_delete = a, ru_no_where_update = b, ru_drop_table = c, ru_drop_column = d,
             ru_drop_index = f, ru_drop_view = g, ru_drop_sequence = h, ru_create_sequence = j,
             ru_not_null_without_default = k, ru_create_index_not_concurrently = l, ru_alter_column_type = m,
             ru_truncate = n, ru_mixed_ddl_dml = p, ru_large_in_list = q \<rparr> \<rparr>)))))))))))))))"

definition sql_review_from_config :: "sql_review_entry list \<Rightarrow> string + sql_review_input list" where
  "sql_review_from_config entries = collect sql_review_from_entry (List.enumerate 0 entries)"

definition groups_from_config :: "group_config list \<Rightarrow> string list" where
  "groups_from_config = map gc_name"

end
