(* ===== verification/Config_Policies.thy ===== *)
theory Config_Policies
  imports Server_Config Directory Workflow_Validator "HOL-Library.Char_ord" "HOL-Library.List_Lexorder"
begin

text \<open>
  The checked translation of the inputs of the synchronisation to policies, roles and webhooks: \<open>parse_workflow\<close> of
  \<open>dbward-app/src/use_cases/sync_config/convert.rs\<close> and the first halves of the functions of \<open>apply.rs\<close>. A
  configuration that passes the validation at load time is converted without an internal error, its
  workflows cannot leave a request without a way to be approved, and which workflow governs a request does not depend on
  the order in which they are stored, as long as operations are written by their own names.
\<close>

subsection \<open>Workflows\<close>

definition scope_db :: "(string \<Rightarrow> string) \<Rightarrow> string \<Rightarrow> app_error + database_name" where
  "scope_db msg s = (if s = ''*'' then Inr db_wildcard else map_err (\<lambda>e. Validation (msg e)) (DatabaseName_new s))"

definition scope_env :: "(string \<Rightarrow> string) \<Rightarrow> string \<Rightarrow> app_error + environment" where
  "scope_env msg s = (if s = ''*'' then Inr env_wildcard else map_err (\<lambda>e. Validation (msg e)) (Environment_new s))"

definition parse_approver :: "approver_input \<Rightarrow> app_error + approver_group" where
  "parse_approver a =
     tryE (if ai_selector_type a = ''role'' then Inr (Role (ai_value a))
           else if ai_selector_type a = ''group'' then Inr (Group (ai_value a))
           else if ai_selector_type a = ''user'' then Inr (User (ai_value a))
           else Inl (Validation (''workflow step: unknown selector_type '' @ quoted (ai_selector_type a)))) (\<lambda>sel.
     Inr \<lparr> ag_selector = sel, ag_min = ai_min a \<rparr>)"

definition wf_label :: "workflow_input \<Rightarrow> string" where
  "wf_label w = ''workflow '' @ wfi_database w @ ''/'' @ wfi_environment w @ '': ''"

definition parse_step :: "workflow_input \<Rightarrow> workflow_step_input \<Rightarrow> app_error + workflow_step" where
  "parse_step w s =
     tryE (if wsi_mode s = ''any'' then Inr ModeAny else if wsi_mode s = ''all'' then Inr ModeAll
           else Inl (Validation (''workflow step: unknown mode '' @ quoted (wsi_mode s) @ '' (expected '' @ quoted ''any''
             @ '' or '' @ quoted ''all'' @ '')''))) (\<lambda>mode.
     tryE (collect parse_approver (wsi_approvers s)) (\<lambda>approvers.
     tryE (guardE (approvers \<noteq> []) (Validation (wf_label w @ ''step has no valid approvers''))) (\<lambda>_.
     Inr \<lparr> ws_approvers = approvers, ws_mode = mode \<rparr>)))"

text \<open>The first issue of severity error is returned; warnings are only logged.\<close>

definition steps_check :: "workflow_input \<Rightarrow> workflow_step list \<Rightarrow> app_error + unit" where
  "steps_check w steps =
     (if steps = [] then Inr ()
      else case find (\<lambda>x. is_severity x = SevError) (validate_steps steps (wfi_allow_same_approver_across_steps w)) of
             Some issue \<Rightarrow> Inl (Validation (wf_label w @ is_message issue))
           | None \<Rightarrow> Inr ())"

text \<open>\<open>aa_read\<close> reads the JSON text of the settings for automatic approval.\<close>

definition parse_workflow ::
  "(string \<Rightarrow> string + auto_approve_settings) \<Rightarrow> string \<Rightarrow> workflow_input \<Rightarrow> app_error + workflow" where
  "parse_workflow aa_read i w =
     tryE (scope_db (\<lambda>e. ''workflow db: '' @ e) (wfi_database w)) (\<lambda>db.
     tryE (scope_env (\<lambda>e. ''workflow env: '' @ e) (wfi_environment w)) (\<lambda>env.
     tryE (collect (\<lambda>op. map_err (\<lambda>e. Validation (''workflow '' @ i @ '': '' @ e)) (operation_from_str op))
            (wfi_operations w)) (\<lambda>ops.
     tryE (collect (parse_step w) (wfi_steps w)) (\<lambda>steps.
     tryE (steps_check w steps) (\<lambda>_.
     tryE (case wfi_auto_approve_json w of
             None \<Rightarrow> Inr None
           | Some text \<Rightarrow> tryE (map_err (\<lambda>e. Internal (''parse auto_approve_json: '' @ e)) (aa_read text)) (\<lambda>aa. Inr (Some aa))) (\<lambda>aa.
     Inr \<lparr> wf_id = i, wf_database = db, wf_environment = env, wf_operations = ops, wf_auto_approve = aa, wf_steps = steps,
           wf_require_reason = wfi_require_reason w, wf_allow_self_approve = wfi_allow_self_approve w,
           wf_allow_same_approver_across_steps = wfi_allow_same_approver_across_steps w, wf_explain = wfi_explain w,
           wf_pending_ttl_secs = wfi_pending_ttl_secs w, wf_statement_timeout_secs = wfi_statement_timeout_secs w,
           wf_approval_ttl_secs = None, wf_created_at = None, wf_updated_at = None \<rparr>))))))"

text \<open>The identifier of a workflow has a part of the SHA-256 of its sorted operations.\<close>

definition sha_suffix :: "lib \<Rightarrow> string \<Rightarrow> string" where
  "sha_suffix lib content = take 12 (x_sha256_hex lib content)"

definition make_workflow_id :: "lib \<Rightarrow> string \<Rightarrow> string \<Rightarrow> string list \<Rightarrow> string" where
  "make_workflow_id lib db env ops = ''wf:'' @ db @ '':'' @ env @ '':'' @ sha_suffix lib (join '','' (sort ops))"

definition parse_workflows ::
  "lib \<Rightarrow> (string \<Rightarrow> string + auto_approve_settings) \<Rightarrow> workflow_input list \<Rightarrow> app_error + workflow list" where
  "parse_workflows lib aa_read =
     collect (\<lambda>w. parse_workflow aa_read (make_workflow_id lib (wfi_database w) (wfi_environment w) (wfi_operations w)) w)"

subsection \<open>Policies\<close>

definition at_policy :: "string \<Rightarrow> nat \<Rightarrow> string \<Rightarrow> string \<Rightarrow> string" where
  "at_policy section i part e = section @ ''['' @ show_nat i @ '']'' @ part @ e"

definition parse_execution_policy :: "nat \<times> execution_policy_def \<Rightarrow> app_error + execution_policy" where
  "parse_execution_policy = (\<lambda>(i, p).
     tryE (scope_db (at_policy ''execution_policy'' i '' db: '') (ed_database p)) (\<lambda>db.
     tryE (scope_env (at_policy ''execution_policy'' i '' env: '') (ed_environment p)) (\<lambda>env.
     let d = default_execution_policy in
     Inr \<lparr> ep_id = ''ep:'' @ ed_database p @ '':'' @ ed_environment p, ep_database = db, ep_environment = env,
           ep_max_executions = (case ed_max_executions p of Some n \<Rightarrow> n | None \<Rightarrow> ep_max_executions d),
           ep_execution_window_secs = (case ed_execution_window_secs p of Some n \<Rightarrow> n | None \<Rightarrow> ep_execution_window_secs d),
           ep_retry_on_failure = (case ed_retry_on_failure p of Some n \<Rightarrow> n | None \<Rightarrow> ep_retry_on_failure d),
           ep_statement_timeout_secs = (case ed_statement_timeout_secs p of Some n \<Rightarrow> n | None \<Rightarrow> ep_statement_timeout_secs d),
           ep_max_statement_timeout_secs =
             (case ed_max_statement_timeout_secs p of Some n \<Rightarrow> n | None \<Rightarrow> ep_max_statement_timeout_secs d),
           ep_max_rows = ed_max_rows p, ep_migration_lease_duration_secs = ed_migration_lease_duration_secs p,
           ep_migration_statement_timeout_secs = ed_migration_statement_timeout_secs p,
           ep_created_at = None, ep_updated_at = None \<rparr>)))"

definition parse_execution_policies :: "execution_policy_def list \<Rightarrow> app_error + execution_policy list" where
  "parse_execution_policies ps =
     tryE (collect parse_execution_policy (List.enumerate 0 ps)) (\<lambda>parsed.
     tryE (check_seq (\<lambda>before p. map_err (\<lambda>e. Validation (at_policy ''execution_policy'' (length before) '': '' e))
            (validate_execution_policy p)) [] parsed) (\<lambda>_.
     Inr parsed))"

record review_policy =
  vp_id :: string
  vp_database :: database_name
  vp_environment :: environment
  vp_rules :: review_rules

definition any_part :: "string \<Rightarrow> string" where
  "any_part s = (if s = ''*'' then ''any'' else s)"

definition parse_review_policy :: "nat \<times> sql_review_input \<Rightarrow> app_error + review_policy" where
  "parse_review_policy = (\<lambda>(i, p).
     tryE (scope_db (at_policy ''sql_review'' i '' db: '') (sri_database p)) (\<lambda>db.
     tryE (scope_env (at_policy ''sql_review'' i '' env: '') (sri_environment p)) (\<lambda>env.
     Inr \<lparr> vp_id = ''srp:'' @ any_part (sri_database p) @ '':'' @ any_part (sri_environment p),
           vp_database = db, vp_environment = env, vp_rules = sri_rules p \<rparr>)))"

fun parse_error_text :: "selector_parse_error \<Rightarrow> string" where
  "parse_error_text (SelectorParseError e) = ''invalid selector: '' @ e"

definition parse_result_policy :: "nat \<times> result_policy_def \<Rightarrow> app_error + result_policy" where
  "parse_result_policy = (\<lambda>(i, p).
     tryE (scope_db (at_policy ''result_policy'' i '' db: '') (pd_database p)) (\<lambda>db.
     tryE (scope_env (at_policy ''result_policy'' i '' env: '') (pd_environment p)) (\<lambda>env.
     tryE (if pd_delivery_mode p = ''stream'' then Inr Stream else if pd_delivery_mode p = ''both'' then Inr Both
           else Inl (Validation (at_policy ''result_policy'' i ''.delivery_mode: ''
             (''unknown value '' @ quoted (pd_delivery_mode p) @ '' (expected: both, stream)'')))) (\<lambda>mode.
     tryE (collect (\<lambda>s. map_err (\<lambda>e. Validation (at_policy ''result_policy'' i ''.access: '' (parse_error_text e)))
            (selector_parse s)) (pd_access p)) (\<lambda>access.
     Inr \<lparr> rp_id = ''rp:'' @ pd_database p @ '':'' @ pd_environment p, rp_database = db, rp_environment = env,
           rp_retention_days = pd_retention_days p, rp_delivery_mode = mode, rp_access = access,
           rp_created_at = None, rp_updated_at = None \<rparr>)))))"

record notification_policy =
  np_id :: string
  np_database :: database_name
  np_environment :: environment
  np_webhooks :: "string list"
  np_events :: "string list"

definition parse_notification_policy :: "nat \<times> notification_policy_def \<Rightarrow> app_error + notification_policy" where
  "parse_notification_policy = (\<lambda>(i, p).
     tryE (scope_db (at_policy ''notification_policy'' i '' db: '') (nd_database p)) (\<lambda>db.
     tryE (scope_env (at_policy ''notification_policy'' i '' env: '') (nd_environment p)) (\<lambda>env.
     Inr \<lparr> np_id = ''np:'' @ nd_database p @ '':'' @ nd_environment p, np_database = db, np_environment = env,
           np_webhooks = nd_webhooks p, np_events = nd_events p \<rparr>)))"

subsection \<open>Roles and webhooks\<close>

definition parse_permission :: "string \<Rightarrow> string \<Rightarrow> app_error + permission \<times> ownership_scope" where
  "parse_permission role s =
     (let (perm_str, ownership) =
        (case rsplit_colon s of
           Some (p, q) \<Rightarrow> (case ownership_from_str q of Inr own \<Rightarrow> (p, own) | Inl _ \<Rightarrow> (s, Own))
         | None \<Rightarrow> (s, Own))
      in tryE (map_err (\<lambda>e. Validation (''role '' @ quoted role @ '': '' @ e)) (permission_from_str perm_str)) (\<lambda>perm.
         Inr (perm, ownership)))"

definition parse_role :: "role_config \<Rightarrow> app_error + role_definition" where
  "parse_role r =
     tryE (collect (parse_permission (rc_name r)) (rc_permissions r)) (\<lambda>perms.
     tryE (if rc_databases r = [] then Inr [db_wildcard]
           else collect (scope_db (\<lambda>e. ''role db: '' @ e)) (rc_databases r)) (\<lambda>dbs.
     tryE (if rc_environments r = [] then Inr [env_wildcard]
           else collect (scope_env (\<lambda>e. ''role env: '' @ e)) (rc_environments r)) (\<lambda>envs.
     Inr \<lparr> rd_name = rc_name r, rd_permissions = perms, rd_databases = dbs, rd_environments = envs \<rparr>)))"

datatype webhook_format = FormatSlack | FormatGeneric

datatype webhook_status = HookActive | HookInactive

record webhook =
  hk_id :: string
  hk_url :: string
  hk_events :: "string list"
  hk_format :: webhook_format
  hk_secret :: "string option"
  hk_status :: webhook_status
  hk_created_at :: "timestamp option"
  hk_updated_at :: "timestamp option"

text \<open>\<open>validate_url\<close> is the guard against requests to private networks.\<close>

definition parse_webhook :: "(string \<Rightarrow> string + unit) \<Rightarrow> timestamp \<Rightarrow> webhook_def \<Rightarrow> app_error + webhook" where
  "parse_webhook validate_url now w =
     tryE (map_err (\<lambda>e. Validation (''webhook '' @ quoted (hd_id w) @ '': '' @ e)) (validate_url (hd_url w))) (\<lambda>_.
     tryE (if hd_format w = ''slack'' then Inr FormatSlack else if hd_format w = ''generic'' then Inr FormatGeneric
           else Inl (Validation (''webhook: unknown format '' @ quoted (hd_format w)))) (\<lambda>format.
     Inr \<lparr> hk_id = hd_id w, hk_url = hd_url w, hk_events = hd_events w, hk_format = format, hk_secret = hd_secret w,
           hk_status = HookActive, hk_created_at = Some now, hk_updated_at = Some now \<rparr>))"

subsection \<open>What the validation at load time guarantees\<close>

lemma validate_commonD:
  assumes "validate_common cfg = Inr u"
  shows "overlap_check (cfg_workflows cfg) = Inr ()" "check_seq auto_approve_check [] (cfg_workflows cfg) = Inr ()"
    "check_seq role_check [] (ac_roles (cfg_auth cfg)) = Inr ()" "check_seq review_check [] (cfg_sql_review cfg) = Inr ()"
  using assms by (auto simp: validate_common_def Let_def tryE_Inr)

lemma auto_approve_checked:
  assumes "validate_common cfg = Inr u" and "w \<in> set (cfg_workflows cfg)"
  shows "(case wd_auto_approve w of
      None \<Rightarrow> supported_steps w \<noteq> []
    | Some DefAlways \<Rightarrow> supported_steps w = []
    | Some (DefRiskBased risk _ _ _) \<Rightarrow> supported_steps w \<noteq> [] \<and> risk \<in> {''low'', ''medium'', ''high''})"
proof -
  from check_seq_mem [OF validate_commonD(2) [OF assms(1)] assms(2)]
  obtain before where "auto_approve_check before w = Inr ()" ..
  then show ?thesis
    by (cases "wd_auto_approve w"; cases "the (wd_auto_approve w)")
      (simp_all add: auto_approve_check_def Let_def tryE_Inr guardE_Inr)
qed

lemma workflow_converts:
  assumes "validate_common cfg = Inr u" and "w \<in> set (cfg_workflows cfg)"
  shows "\<exists>input. workflow_from_def aa_text w = Inr input"
  using auto_approve_checked [OF assms]
  by (auto simp: workflow_from_def_def convert_auto_approve_def_def split: option.splits auto_approve_def.splits)

lemma tryE_total: "\<exists>x. m = Inr x \<Longrightarrow> \<forall>x. \<exists>y. k x = Inr y \<Longrightarrow> \<exists>y. tryE m k = Inr y"
  by auto

lemma action_parses: "v \<in> {''block'', ''warn'', ''off''} \<Longrightarrow> \<exists>a. action_field i field v = Inr a"
  by (auto simp: action_field_def parse_action_def)

lemma review_entry_converts:
  assumes "\<forall>(field, v) \<in> set (rule_fields e). v \<in> {''block'', ''warn'', ''off''}"
  shows "\<exists>input. sql_review_from_entry (i, e) = Inr input"
proof -
  have "\<exists>a. action_field i field v = Inr a" if "v \<in> snd ` set (rule_fields e)" for field v
    using assms that by (intro action_parses) auto
  then show ?thesis
    unfolding sql_review_from_entry_def prod.case by (intro tryE_total allI) (simp_all add: rule_fields_def)
qed

lemma permission_parses: "permission_check role perm = Inr u \<Longrightarrow> \<exists>p. parse_permission role perm = Inr p"
  by (auto simp: permission_check_def parse_permission_def ownership_from_str_def Let_def tryE_Inr guardE_Inr
      split: option.splits prod.splits sum.splits if_splits)

lemma scope_parses:
  "db = ''*'' \<or> \<not> isl (DatabaseName_new db) \<Longrightarrow> \<exists>d. scope_db msg db = Inr d"
  "env = ''*'' \<or> \<not> isl (Environment_new env) \<Longrightarrow> \<exists>d. scope_env msg env = Inr d"
  by (auto simp: scope_db_def scope_env_def isl_def map_err_def split: sum.split)

lemma role_parses:
  assumes "role_check before r = Inr u"
  shows "\<exists>d. parse_role r = Inr d"
proof -
  have "check_seq (\<lambda>_. permission_check (rc_name r)) [] (rc_permissions r) = Inr ()"
    "\<forall>db \<in> set (rc_databases r). db = ''*'' \<or> \<not> isl (DatabaseName_new db)"
    "\<forall>env \<in> set (rc_environments r). env = ''*'' \<or> \<not> isl (Environment_new env)"
    using assms by (auto simp: role_check_def tryE_Inr guardE_Inr dest: check_seq_mem)
  then have total: "\<exists>ps. collect (parse_permission (rc_name r)) (rc_permissions r) = Inr ps"
    "\<exists>ds. collect (scope_db msg) (rc_databases r) = Inr ds"
    "\<exists>es. collect (scope_env msg) (rc_environments r) = Inr es" for msg
    by (intro collect_total ballI scope_parses permission_parses; force dest: check_seq_mem)+
  show ?thesis
    unfolding parse_role_def by (intro tryE_total allI total) (simp_all add: total)
qed

text \<open>What passes the validation at load time is converted without an error: the workflows with their settings for
  automatic approval, the rules of every SQL review entry, and every role with its permissions and scopes. So the
  internal error the conversion keeps for an unknown risk level cannot occur.\<close>

theorem accepted_config_converts:
  assumes "validate_common cfg = Inr ()"
  shows "(\<exists>inputs. workflows_from_config aa_text (cfg_workflows cfg) = Inr inputs)
    \<and> (\<exists>inputs. sql_review_from_config (cfg_sql_review cfg) = Inr inputs)
    \<and> (\<exists>roles. collect parse_role (ac_roles (cfg_auth cfg)) = Inr roles)"
proof (intro conjI)
  show "\<exists>inputs. workflows_from_config aa_text (cfg_workflows cfg) = Inr inputs"
    unfolding workflows_from_config_def by (intro collect_total ballI workflow_converts [OF assms])
  show "\<exists>inputs. sql_review_from_config (cfg_sql_review cfg) = Inr inputs"
    unfolding sql_review_from_config_def
  proof (intro collect_total ballI)
    fix x assume "x \<in> set (List.enumerate 0 (cfg_sql_review cfg))"
    then obtain i e where x: "x = (i, e)" and e: "e \<in> set (cfg_sql_review cfg)"
      by (metis in_set_enumerate_eq add_0_right minus_nat.diff_0 nth_mem prod.collapse)
    from check_seq_mem [OF validate_commonD(4) [OF assms] e] obtain before where "review_check before e = Inr ()" ..
    then have "\<forall>y \<in> set (rule_fields e). case y of (field, v) \<Rightarrow> v \<in> {''block'', ''warn'', ''off''}"
      by (auto simp: review_check_def Let_def tryE_Inr guardE_Inr dest!: check_seq_mem)
    then show "\<exists>input. sql_review_from_entry x = Inr input" unfolding x by (rule review_entry_converts)
  qed
  show "\<exists>roles. collect parse_role (ac_roles (cfg_auth cfg)) = Inr roles"
    by (intro collect_total ballI) (auto dest!: check_seq_mem [OF validate_commonD(3) [OF assms]] role_parses)
qed

subsection \<open>Which workflow governs\<close>

lemma distinct_by_check: "\<forall>k < length xs. f (xs ! k) \<notin> f ` set (take k xs) \<Longrightarrow> distinct (map f xs)"
proof (induction xs rule: rev_induct)
  case (snoc x xs)
  have "f (xs ! k) \<notin> f ` set (take k xs)" if "k < length xs" for k
    using snoc.prems [rule_format, of k] that by (simp add: nth_append)
  moreover have "f x \<notin> f ` set xs" using snoc.prems [rule_format, of "length xs"] by simp
  ultimately show ?case using snoc.IH by simp
qed simp

lemma distinct_concat_disjoint:
  "distinct (concat (map f xs)) \<Longrightarrow> x \<in> set xs \<Longrightarrow> y \<in> set xs \<Longrightarrow> x \<noteq> y \<Longrightarrow> set (f x) \<inter> set (f y) = {}"
  by (induction xs) auto

lemma overlap_checked:
  assumes ok: "overlap_check ws = Inr u" and i: "i < length ws" "j < length ws" "i \<noteq> j"
    and scope: "wd_scope (ws ! i) = wd_scope (ws ! j)"
  shows "wd_operations (ws ! i) \<noteq> [] \<and> set (wd_operations (ws ! i)) \<inter> set (wd_operations (ws ! j)) = {}"
proof -
  let ?sc = "wd_scope (ws ! i)"
  let ?xs = "filter (\<lambda>(i, w). wd_scope w = ?sc) (List.enumerate 0 ws)"
  have "?sc \<in> set (scope_list ws)" using i(1) by (simp add: scope_list_def)
  with ok have check: "scope_check ws ?sc = Inr ()" by (auto simp: overlap_check_def dest: check_seq_mem)
  have mem: "(i, ws ! i) \<in> set ?xs" "(j, ws ! j) \<in> set ?xs"
    using i scope by (auto simp: in_set_enumerate_eq)
  have entries: "scope_entries ws ?sc = map (\<lambda>(i, w). (i, wd_operations w)) ?xs" by (simp add: scope_entries_def)
  have "card {(i, ws ! i), (j, ws ! j)} \<le> card (set ?xs)" using mem by (intro card_mono) auto
  also have "\<dots> \<le> length ?xs" by (rule card_length)
  finally have "1 < length (scope_entries ws ?sc)" using i(3) by (simp add: entries)
  with check have some: "\<forall>(_, ops) \<in> set (scope_entries ws ?sc). ops \<noteq> []"
    by (auto simp: scope_check_def Let_def tryE_Inr guardE_Inr list_ex_iff split: prod.splits)
  let ?L = "concat (map (\<lambda>(idx, ops). map (Pair idx) ops) (scope_entries ws ?sc))"
  have "\<forall>k < length ?L. snd (?L ! k) \<notin> snd ` set (take k ?L)"
    using check by (simp add: scope_check_def Let_def case_prod_unfold tryE_Inr guardE_Inr check_seq_Inr)
  then have "distinct (map snd ?L)" by (rule distinct_by_check)
  moreover have "map snd ?L = concat (map (\<lambda>(i, w). wd_operations w) ?xs)"
    unfolding entries by (simp add: map_concat o_def case_prod_unfold)
  ultimately have "set (wd_operations (ws ! i)) \<inter> set (wd_operations (ws ! j)) = {}"
    using distinct_concat_disjoint [of "\<lambda>(i, w). wd_operations w" ?xs "(i, ws ! i)" "(j, ws ! j)"] mem i(3) by simp
  moreover have "wd_operations (ws ! i) \<noteq> []" using some mem(1) unfolding entries by (auto simp: image_iff)
  ultimately show ?thesis by simp
qed

lemma parse_workflow_Inr:
  assumes "parse_workflow aa_read i w = Inr p"
  shows "wf_id p = i" "db_str (wf_database p) = wfi_database w" "env_str (wf_environment p) = wfi_environment w"
    "list_all2 (\<lambda>s op. operation_from_str s = Inr op) (wfi_operations w) (wf_operations p)"
    "list_all2 (\<lambda>s st. parse_step w s = Inr st) (wfi_steps w) (wf_steps p)"
    "steps_check w (wf_steps p) = Inr ()"
    "wf_allow_same_approver_across_steps p = wfi_allow_same_approver_across_steps w"
    "case wfi_auto_approve_json w of None \<Rightarrow> wf_auto_approve p = None
     | Some text \<Rightarrow> \<exists>aa. aa_read text = Inr aa \<and> wf_auto_approve p = Some aa"
  using assms
  by (auto simp: parse_workflow_def scope_db_def scope_env_def tryE_Inr map_err_Inr collect_Inr db_wildcard_def env_wildcard_def
      DatabaseName_new_def Environment_new_def validated_new_Inr split: if_splits option.splits)

text \<open>The workflow at a position of the configuration and the one at the same position after conversion.\<close>

lemma converted_at:
  assumes "workflows_from_config aa_text defs = Inr inputs" and "parse_workflows lib aa_read inputs = Inr ws"
  shows "length ws = length defs"
    and "k < length defs \<Longrightarrow> \<exists>input i. workflow_from_def aa_text (defs ! k) = Inr input \<and> parse_workflow aa_read i input = Inr (ws ! k)"
  using assms by (auto simp: workflows_from_config_def parse_workflows_def collect_Inr list_all2_conv_all_nth)

lemma workflow_from_def_Inr:
  "workflow_from_def aa_text w = Inr input \<Longrightarrow>
     wfi_database input = wd_database w \<and> wfi_environment input = wd_environment w \<and> wfi_operations input = wd_operations w
     \<and> wfi_steps input = map step_def_to_input (supported_steps w)
     \<and> convert_auto_approve_def aa_text (wd_auto_approve w) = Inr (wfi_auto_approve_json input)"
  by (auto simp: workflow_from_def_def tryE_Inr)

lemma candidate_scope:
  assumes "wf_candidate w db env op" "wf_candidate w' db env op" "wf_rank w = wf_rank w'"
  shows "db_str (wf_database w) = db_str (wf_database w')" "env_str (wf_environment w) = env_str (wf_environment w')"
    "wf_operations w = [] \<longleftrightarrow> wf_operations w' = []"
  using assms
  by (auto simp: wf_candidate_def matches_scope_def matches_scope_env_def wf_rank_def db_is_wildcard_def env_is_wildcard_def
      split: if_splits)

text \<open>C7: Which workflow governs an operation on a database does not depend on the order in which the workflows of an
  accepted configuration are stored, provided the configuration writes each operation by its own name: no two of
  them cover the operation equally specifically.\<close>

theorem accepted_workflows_unambiguous:
  assumes ok: "validate_common cfg = Inr ()" and inputs: "workflows_from_config aa_text (cfg_workflows cfg) = Inr inputs"
    and ws: "parse_workflows lib aa_read inputs = Inr ws" and stored: "set rows = set ws"
    and names: "\<forall>w \<in> set (cfg_workflows cfg). set (wd_operations w) \<subseteq> range operation_as_str"
  shows "find_matching_workflow rows db env op = find_matching_workflow ws db env op"
proof -
  let ?defs = "cfg_workflows cfg"
  have at: "wd_scope (?defs ! k) = (db_str (wf_database (ws ! k)), env_str (wf_environment (ws ! k)))"
    "wd_operations (?defs ! k) = map operation_as_str (wf_operations (ws ! k))" if k: "k < length ?defs" for k
  proof -
    from converted_at(2) [OF inputs ws k] obtain input i
      where conv: "workflow_from_def aa_text (?defs ! k) = Inr input" "parse_workflow aa_read i input = Inr (ws ! k)" by blast
    note def = workflow_from_def_Inr [OF conv(1)] and parsed = parse_workflow_Inr [OF conv(2)]
    show "wd_scope (?defs ! k) = (db_str (wf_database (ws ! k)), env_str (wf_environment (ws ! k)))"
      using def parsed by (simp add: wd_scope_def)
    have "set (wd_operations (?defs ! k)) \<subseteq> range operation_as_str" using names k by simp
    with parsed(4) def have "list_all2 (\<lambda>s op. s = operation_as_str op) (wd_operations (?defs ! k)) (wf_operations (ws ! k))"
      by (auto elim!: list.rel_mono_strong)
    then show "wd_operations (?defs ! k) = map operation_as_str (wf_operations (ws ! k))"
      by (simp add: list_all2_conv_all_nth list_eq_iff_nth_eq)
  qed
  have unique: "w = w'" if "w \<in> set ws" "w' \<in> set ws" "wf_candidate w db env op" "wf_candidate w' db env op" "wf_rank w = wf_rank w'"
    for w w'
  proof -
    from that(1,2) converted_at(1) [OF inputs ws] obtain k l
      where k: "k < length ?defs" "w = ws ! k" and l: "l < length ?defs" "w' = ws ! l" by (auto simp: in_set_conv_nth)
    show ?thesis
    proof (cases "k = l")
      case False
      note same = candidate_scope [OF that(3-5)]
      have "wd_scope (?defs ! k) = wd_scope (?defs ! l)" using at(1) k l same by simp
      from overlap_checked [OF validate_commonD(1) [OF ok] k(1) l(1) False this]
      have "wf_operations w \<noteq> []" "set (wf_operations w) \<inter> set (wf_operations w') = {}"
        using at(2) k l by auto
      with same(3) that(3,4) show ?thesis by (auto simp: wf_candidate_def matches_operation_def)
    qed (use k l in simp)
  qed
  show ?thesis
  proof (cases "find_matching_workflow ws db env op")
    case None
    then show ?thesis using find_matching_workflow_None stored by metis
  next
    case (Some w)
    then obtain w' where w': "find_matching_workflow rows db env op = Some w'"
      using find_matching_workflow_None find_matching_workflow_Some stored by (metis not_None_eq)
    from find_matching_workflow_Some [OF Some] find_matching_workflow_Some [OF w'] stored
    have "w' = w" by (intro unique) (auto intro: antisym)
    with Some w' show ?thesis by simp
  qed
qed

subsection \<open>No dead ends\<close>

lemma steps_checked: "steps_check w steps = Inr u \<Longrightarrow> \<not> has_error (validate_steps steps (wfi_allow_same_approver_across_steps w)) \<or> steps = []"
  by (auto simp: steps_check_def has_error_def list_ex_iff find_None_iff split: option.splits if_splits)

text \<open>C6: No workflow of an accepted configuration is a dead end: either it approves every request by itself, or it has steps
  and there are votes that the approval rules admit and that satisfy all of them.\<close>

theorem accepted_workflow_completable:
  assumes ok: "validate_common cfg = Inr ()" and inputs: "workflows_from_config aa_text (cfg_workflows cfg) = Inr inputs"
    and serde: "\<And>s. aa_read (aa_text s) = Inr s" and ws: "parse_workflows lib aa_read inputs = Inr ws"
    and w: "w \<in> set ws" "length (wf_steps w) < 2 ^ 32"
  shows "(\<forall>risk. \<not> needs_approval (evaluate_workflow w risk))
    \<or> (wf_steps w \<noteq> [] \<and> (\<exists>approvals. admissible (wf_allow_same_approver_across_steps w) approvals
          \<and> all_steps_satisfied (wf_steps w) approvals))"
proof -
  from w(1) converted_at [OF inputs ws] obtain k input i where k: "k < length (cfg_workflows cfg)"
    and conv: "workflow_from_def aa_text (cfg_workflows cfg ! k) = Inr input" "parse_workflow aa_read i input = Inr w"
    by (metis in_set_conv_nth)
  let ?d = "cfg_workflows cfg ! k"
  note def = workflow_from_def_Inr [OF conv(1)] and parsed = parse_workflow_Inr [OF conv(2)]
  have len: "length (wf_steps w) = length (supported_steps ?d)" using parsed(5) def by (auto dest: list_all2_lengthD)
  have "wf_steps w \<noteq> [] \<Longrightarrow> \<exists>approvals. admissible (wf_allow_same_approver_across_steps w) approvals
      \<and> all_steps_satisfied (wf_steps w) approvals"
    using steps_checked [OF parsed(6)] parsed(7) w(2) by (intro validated_workflow_satisfiable) auto
  moreover have "wf_steps w \<noteq> [] \<or> (\<exists>aa. wf_auto_approve w = Some aa \<and> aa_mode aa = Always)"
    using auto_approve_checked [OF ok, of ?d] k len def parsed(8) serde
    by (auto simp: convert_auto_approve_def_def tryE_Inr split: option.splits auto_approve_def.splits)
  ultimately show ?thesis by (auto simp: evaluate_workflow_def needs_approval_def)
qed

subsection \<open>A small configuration\<close>

definition demo_step_def :: workflow_step_def where
  "demo_step_def = \<lparr> sd_step_type = StepApproval, sd_mode = DefAll,
     sd_approvers = [\<lparr> ad_selector_type = SelRole, ad_value = ''dba'', ad_min = Some 1 \<rparr>] \<rparr>"

definition demo_workflow_def :: "string list \<Rightarrow> auto_approve_def option \<Rightarrow> workflow_step_def list \<Rightarrow> workflow_def" where
  "demo_workflow_def ops aa steps =
     \<lparr> wd_database = ''*'', wd_environment = ''prod'', wd_operations = ops, wd_auto_approve = aa, wd_steps = steps,
       wd_require_reason = False, wd_allow_self_approve = False, wd_allow_same_approver_across_steps = False,
       wd_explain = True, wd_pending_ttl_secs = None, wd_statement_timeout_secs = None \<rparr>"

definition demo_config :: "workflow_def list \<Rightarrow> server_config" where
  "demo_config ws =
     \<lparr> cfg_databases = [], cfg_workflows = ws, cfg_webhooks = [], cfg_execution_policies = [], cfg_result_policies = [],
       cfg_notification_policies = [], cfg_approval_ttl_secs = 3600,
       cfg_auth = \<lparr> ac_oidc = None, ac_default_role = None,
         ac_roles = [\<lparr> rc_name = ''dba'', rc_permissions = [''request.view:any''], rc_databases = [], rc_environments = [''prod''] \<rparr>],
         ac_groups = [] \<rparr>,
       cfg_sql_review = [], cfg_auto_approve = [] \<rparr>"

text \<open>Two workflows of one scope; the second may write a read in an older way.\<close>

definition reads_reviewed :: workflow_def where
  "reads_reviewed = demo_workflow_def [''execute_select''] None [demo_step_def]"

definition rest_automatic :: "string list \<Rightarrow> workflow_def" where
  "rest_automatic names = demo_workflow_def names (Some DefAlways) []"

definition always_settings :: auto_approve_settings where
  "always_settings = \<lparr> aa_mode = Always, aa_max_risk_level = None, aa_allow_read_only = True, aa_allow_safe_ddl = True,
     aa_max_estimated_rows = 1000 \<rparr>"

text \<open>An encoding of the settings in place of their JSON text.\<close>

definition aa_encode :: "auto_approve_settings \<Rightarrow> string" where
  "aa_encode s =
     [if aa_mode s = Always then CHR ''a'' else CHR ''r'',
      digit_char (case aa_max_risk_level s of None \<Rightarrow> 9 | Some l \<Rightarrow> risk_rank l),
      if aa_allow_read_only s then CHR ''t'' else CHR ''f'', if aa_allow_safe_ddl s then CHR ''t'' else CHR ''f'',
      if aa_max_estimated_rows s < 0 then CHR ''-'' else CHR ''+''] @ show_nat (nat \<bar>aa_max_estimated_rows s\<bar>)"

fun aa_decode :: "string \<Rightarrow> string + auto_approve_settings" where
  "aa_decode (m # r # a # b # g # ds) =
     Inr \<lparr> aa_mode = (if m = CHR ''a'' then Always else RiskBased),
           aa_max_risk_level = find (\<lambda>l. risk_rank l = digit_val r) [Low, Medium, High, Critical, Unknown, Unavailable],
           aa_allow_read_only = (a = CHR ''t''), aa_allow_safe_ddl = (b = CHR ''t''),
           aa_max_estimated_rows = (if g = CHR ''-'' then - int (read_nat ds) else int (read_nat ds)) \<rparr>"
| "aa_decode _ = Inl ''unexpected end''"

lemma risk_decode:
  "find (\<lambda>l. risk_rank l = digit_val (digit_char (case r of None \<Rightarrow> 9 | Some l \<Rightarrow> risk_rank l)))
     [Low, Medium, High, Critical, Unknown, Unavailable] = r"
  by (cases r; cases "the r") (simp_all add: digit_val_digit_char)

lemma aa_decode_encode: "aa_decode (aa_encode s) = Inr s"
proof -
  have "aa_mode s = Always \<or> aa_mode s = RiskBased" by (cases "aa_mode s") simp_all
  then show ?thesis
    unfolding aa_encode_def append.simps aa_decode.simps risk_decode read_show_nat by (intro arg_cong [of _ _ Inr] auto_approve_settings.equality) auto
qed

definition demo_workflow :: "lib \<Rightarrow> string list \<Rightarrow> operation list \<Rightarrow> auto_approve_settings option \<Rightarrow> workflow_step list \<Rightarrow> workflow" where
  "demo_workflow lib names ops aa steps =
     \<lparr> wf_id = make_workflow_id lib ''*'' ''prod'' names, wf_database = db_wildcard, wf_environment = Environment ''prod'',
       wf_operations = ops, wf_auto_approve = aa, wf_steps = steps, wf_require_reason = False, wf_allow_self_approve = False,
       wf_allow_same_approver_across_steps = False, wf_explain = True, wf_pending_ttl_secs = None,
       wf_statement_timeout_secs = None, wf_approval_ttl_secs = None, wf_created_at = None, wf_updated_at = None \<rparr>"

definition dba_step :: workflow_step where
  "dba_step = \<lparr> ws_approvers = [\<lparr> ag_selector = Role ''dba'', ag_min = 1 \<rparr>], ws_mode = ModeAll \<rparr>"

lemmas demo_config_simps = demo_config_def reads_reviewed_def rest_automatic_def demo_workflow_def_def demo_step_def_def

lemma dba_step_valid: "validate_steps [dba_step] False = []"
  by (simp add: dba_step_def validate_steps_def validate_step_def approver_issues_def check_cross_step_deadlock_def
      collect_steps_def)

lemma demo_overlap:
  "names \<in> {[''query'', ''execute_dml''], [''execute_dml'']} \<Longrightarrow> overlap_check [reads_reviewed, rest_automatic names] = Inr ()"
  by (auto simp: overlap_check_def scope_list_def scope_check_def scope_entries_def wd_scope_def demo_config_simps tryE_Inr guardE_Inr)

lemma demo_accepted:
  "overlap_check ws = Inr () \<Longrightarrow> check_seq auto_approve_check [] ws = Inr () \<Longrightarrow> validate_common (demo_config ws) = Inr ()"
  by (simp add: validate_common_def demo_config_def tryE_Inr guardE_Inr role_check_def permission_check_def Let_def rsplit_colon_def
      builtin_role_names_def permission_from_str_def Environment_new_def validated_new_def name_char_def is_lower_def is_digit_def)

lemma demo_auto_approve: "check_seq auto_approve_check [] [reads_reviewed, rest_automatic names] = Inr ()"
  by (simp add: auto_approve_check_def demo_config_simps supported_steps_def is_supported_def Let_def tryE_Inr guardE_Inr)

lemma demo_converted:
  assumes "(names, ops) \<in> {([''query'', ''execute_dml''], [ExecuteSelect, ExecuteDml]), ([''execute_dml''], [ExecuteDml])}"
  shows "\<exists>inputs. workflows_from_config aa_encode [reads_reviewed, rest_automatic names] = Inr inputs
    \<and> parse_workflows lib aa_decode inputs =
        Inr [demo_workflow lib [''execute_select''] [ExecuteSelect] None [dba_step],
             demo_workflow lib names ops (Some always_settings) []]"
  using assms
  by (auto simp: workflows_from_config_def workflow_from_def_def convert_auto_approve_def_def parse_workflows_def
      parse_workflow_def demo_config_simps supported_steps_def is_supported_def step_def_to_input_def approver_def_to_input_def
      parse_step_def parse_approver_def steps_check_def demo_workflow_def scope_db_def scope_env_def
      Environment_new_def validated_new_def name_char_def is_lower_def is_digit_def operation_from_str_def
      dba_step_valid [unfolded dba_step_def] dba_step_def aa_decode_encode [of always_settings, unfolded always_settings_def]
      always_settings_def)

text \<open>C33: Operations have older names that mean the same operation, and the validation compares names only. So a configuration
  can have two workflows that cover the same operation equally specifically: it is accepted, and
  whether a read needs approval depends on the order in which the workflows are read from the database.\<close>

theorem aliased_operations_ambiguous:
  "\<exists>cfg inputs ws w w'. validate_config cfg = Inr ()
     \<and> workflows_from_config aa_encode (cfg_workflows cfg) = Inr inputs
     \<and> parse_workflows lib aa_decode inputs = Inr ws
     \<and> find_matching_workflow ws (DatabaseName ''app'') (Environment ''prod'') ExecuteSelect = Some w
     \<and> find_matching_workflow (rev ws) (DatabaseName ''app'') (Environment ''prod'') ExecuteSelect = Some w'
     \<and> \<not> needs_approval (evaluate_workflow w risk) \<and> needs_approval (evaluate_workflow w' risk)"
proof -
  let ?cfg = "demo_config [reads_reviewed, rest_automatic [''query'', ''execute_dml'']]"
  let ?a = "demo_workflow lib [''execute_select''] [ExecuteSelect] None [dba_step]"
  let ?b = "demo_workflow lib [''query'', ''execute_dml''] [ExecuteSelect, ExecuteDml] (Some always_settings) []"
  have "validate_config ?cfg = Inr ()"
    using demo_accepted [OF demo_overlap demo_auto_approve, of "[''query'', ''execute_dml'']"]
    by (simp add: validate_config_def validate_auth_connection_def validate_oidc_role_mappings_def demo_config_def)
  moreover have "\<exists>inputs. workflows_from_config aa_encode (cfg_workflows ?cfg) = Inr inputs
      \<and> parse_workflows lib aa_decode inputs = Inr [?a, ?b]"
    using demo_converted [of "[''query'', ''execute_dml'']" _ lib] by (simp add: demo_config_def)
  moreover have "find_matching_workflow [?a, ?b] (DatabaseName ''app'') (Environment ''prod'') ExecuteSelect = Some ?b"
    "find_matching_workflow (rev [?a, ?b]) (DatabaseName ''app'') (Environment ''prod'') ExecuteSelect = Some ?a"
    by (simp_all add: find_matching_workflow_def demo_workflow_def matches_operation_def matches_scope_def matches_scope_env_def
        specificity_score_def scope_specificity_def db_is_wildcard_def env_is_wildcard_def db_wildcard_def)
  moreover have "\<not> needs_approval (evaluate_workflow ?b risk)" "needs_approval (evaluate_workflow ?a risk)"
    by (simp_all add: evaluate_workflow_def needs_approval_def demo_workflow_def always_settings_def)
  ultimately show ?thesis by blast
qed

theorem accepted_config_converts_witness:
  "validate_common (demo_config [reads_reviewed, rest_automatic [''query'', ''execute_dml'']]) = Inr ()
   \<and> (\<exists>roles. collect parse_role (ac_roles (cfg_auth (demo_config [reads_reviewed, rest_automatic [''query'', ''execute_dml'']]))) = Inr roles)"
  using accepted_config_converts [of "demo_config [reads_reviewed, rest_automatic [''query'', ''execute_dml'']]"]
    demo_accepted [OF demo_overlap demo_auto_approve, of "[''query'', ''execute_dml'']"] by simp

theorem accepted_workflows_unambiguous_witness:
  "\<exists>inputs ws. validate_common (demo_config [reads_reviewed, rest_automatic [''execute_dml'']]) = Inr ()
     \<and> workflows_from_config aa_encode [reads_reviewed, rest_automatic [''execute_dml'']] = Inr inputs
     \<and> parse_workflows (undefined :: lib) aa_decode inputs = Inr ws \<and> length ws = 2
     \<and> find_matching_workflow (rev ws) (DatabaseName ''app'') (Environment ''prod'') ExecuteDml
         = find_matching_workflow ws (DatabaseName ''app'') (Environment ''prod'') ExecuteDml"
proof -
  let ?cfg = "demo_config [reads_reviewed, rest_automatic [''execute_dml'']]"
  have cfg: "cfg_workflows ?cfg = [reads_reviewed, rest_automatic [''execute_dml'']]" by (simp add: demo_config_def)
  have ok: "validate_common ?cfg = Inr ()" by (rule demo_accepted [OF demo_overlap demo_auto_approve]) simp
  obtain inputs ws where conv: "workflows_from_config aa_encode (cfg_workflows ?cfg) = Inr inputs"
    "parse_workflows (undefined :: lib) aa_decode inputs = Inr ws" "length ws = 2"
    using demo_converted [of "[''execute_dml'']" "[ExecuteDml]" undefined] unfolding cfg by fastforce
  have "operation_as_str ExecuteSelect \<in> range operation_as_str" "operation_as_str ExecuteDml \<in> range operation_as_str"
    by (rule rangeI)+
  then have "\<forall>w \<in> set (cfg_workflows ?cfg). set (wd_operations w) \<subseteq> range operation_as_str"
    unfolding cfg by (simp add: demo_config_simps)
  from accepted_workflows_unambiguous [OF ok conv(1,2) set_rev this] ok conv show ?thesis unfolding cfg by blast
qed

theorem accepted_workflow_completable_witness:
  "\<exists>inputs ws w. workflows_from_config aa_encode [reads_reviewed, rest_automatic [''execute_dml'']] = Inr inputs
     \<and> parse_workflows (undefined :: lib) aa_decode inputs = Inr ws \<and> w \<in> set ws \<and> wf_auto_approve w = None
     \<and> (\<exists>approvals. admissible False approvals \<and> all_steps_satisfied (wf_steps w) approvals)"
proof -
  let ?cfg = "demo_config [reads_reviewed, rest_automatic [''execute_dml'']]"
  let ?w = "demo_workflow undefined [''execute_select''] [ExecuteSelect] None [dba_step]"
  have cfg: "cfg_workflows ?cfg = [reads_reviewed, rest_automatic [''execute_dml'']]" by (simp add: demo_config_def)
  have ok: "validate_common ?cfg = Inr ()" by (rule demo_accepted [OF demo_overlap demo_auto_approve]) simp
  obtain inputs ws where conv: "workflows_from_config aa_encode (cfg_workflows ?cfg) = Inr inputs"
    "parse_workflows (undefined :: lib) aa_decode inputs = Inr ws" "?w \<in> set ws"
    using demo_converted [of "[''execute_dml'']" "[ExecuteDml]" undefined] unfolding cfg by fastforce
  have w: "wf_auto_approve ?w = None" "wf_steps ?w = [dba_step]" "\<not> wf_allow_same_approver_across_steps ?w"
    by (simp_all add: demo_workflow_def)
  from accepted_workflow_completable [OF ok conv(1) aa_decode_encode conv(2,3)] w
  have "\<exists>approvals. admissible False approvals \<and> all_steps_satisfied (wf_steps ?w) approvals"
    by (auto simp: evaluate_workflow_def needs_approval_def)
  with conv w(1) show ?thesis unfolding cfg by blast
qed

end
