(* ===== verification/Config_Sync.thy ===== *)
theory Config_Sync
  imports Config_Policies
begin

text \<open>
  The synchronisation of the configuration with the database (\<open>sync_config/mod.rs\<close>, \<open>sync_config/apply.rs\<close>) and its
  statements (\<open>dbward-infra/src/sqlite/sync_ops.rs\<close>). For each kind of resource the entries of the configuration are written
  over what is stored under their identifiers and the other rows that came from the configuration are removed; all in one
  transaction. The interface \<open>config_table\<close> states what the statements of a table promise; it is interpreted for all
  eight tables, and shows that a successful synchronisation makes the rows of the configuration equal to it, leaves the
  other rows alone and can be repeated without effect.
\<close>

subsection \<open>Tables\<close>

text \<open>A row of a table of policies: \<open>mr_source\<close> says who manages the row, \<open>mr_state\<close> is \<open>lifecycle_state\<close>. The columns of
  the value are kept as they are decoded; numbers keep their bits.\<close>

record 'a managed =
  mr_id :: string
  mr_source :: string
  mr_state :: string
  mr_value :: 'a

record database_row =
  dr_id :: string
  dr_name :: string
  dr_environment :: string
  dr_source :: string
  dr_state :: string
  dr_created_at :: timestamp

record role_row =
  ro_definition :: role_definition
  ro_built_in :: bool
  ro_config_synced :: bool
  ro_source :: string

record generation_row =
  gn_digest :: string
  gn_synced_at :: timestamp
  gn_summary :: string

type_synonym group_tables = "(string \<times> timestamp) list \<times> (string \<times> string) list"

record config_site =
  cs_store :: store
  cs_databases :: "database_row list"
  cs_groups :: group_tables
  cs_roles :: "role_row list"
  cs_webhooks :: "webhook managed list"
  cs_workflows :: "workflow managed list"
  cs_execution_policies :: "execution_policy managed list"
  cs_review_policies :: "review_policy managed list"
  cs_result_policies :: "result_policy managed list"
  cs_notification_policies :: "notification_policy managed list"
  cs_generations :: "generation_row list"

text \<open>\<open>INSERT .. ON CONFLICT(id) DO UPDATE\<close> on a table with a further unique key: \<open>merge\<close> says which columns the update
  sets. The update does not touch the source of the row. A conflict on the key with another row is an error.\<close>

definition upsert_managed ::
  "('a \<Rightarrow> 'k) \<Rightarrow> ('a \<Rightarrow> 'a \<Rightarrow> 'a) \<Rightarrow> string \<Rightarrow> string \<Rightarrow> 'a \<Rightarrow> 'a managed list \<Rightarrow> app_error + 'a managed list" where
  "upsert_managed key merge clash i v t =
     (case find_row (\<lambda>r. mr_id r = i) t of
        Some r \<Rightarrow>
          let v' = merge (mr_value r) v in
          if list_ex (\<lambda>r'. mr_id r' \<noteq> i \<and> key (mr_value r') = key v') t then Inl (Internal clash)
          else Inr (upd_where (\<lambda>r. mr_id r = i) (\<lambda>r. r\<lparr> mr_value := v', mr_state := ''active'' \<rparr>) t)
      | None \<Rightarrow>
          if list_ex (\<lambda>r. key (mr_value r) = key v) t then Inl (Internal clash)
          else Inr (t @ [\<lparr> mr_id = i, mr_source = ''config'', mr_state = ''active'', mr_value = v \<rparr>]))"

definition stale :: "string list \<Rightarrow> 'a managed \<Rightarrow> bool" where
  "stale active_ids r \<longleftrightarrow> mr_source r = ''config'' \<and> mr_id r \<notin> set active_ids"

definition delete_stale :: "string list \<Rightarrow> 'a managed list \<Rightarrow> nat \<times> 'a managed list" where
  "delete_stale active_ids t = (affected (stale active_ids) t, filter (\<lambda>r. \<not> stale active_ids r) t)"

definition create_workflow :: "workflow \<Rightarrow> workflow managed list \<Rightarrow> app_error + workflow managed list" where
  "create_workflow w =
     upsert_managed (\<lambda>w. (wf_database w, wf_environment w, wf_operations w))
       (\<lambda>old new. new\<lparr> wf_database := wf_database old, wf_environment := wf_environment old \<rparr>)
       (''sync: create_workflow: UNIQUE constraint failed: workflows.database_name, workflows.environment, ''
        @ ''workflows.operations_json'') (wf_id w) w"

definition create_execution_policy ::
  "execution_policy \<Rightarrow> execution_policy managed list \<Rightarrow> app_error + execution_policy managed list" where
  "create_execution_policy p =
     upsert_managed (\<lambda>p. (ep_database p, ep_environment p))
       (\<lambda>old new. new\<lparr> ep_database := ep_database old, ep_environment := ep_environment old \<rparr>)
       ''sync: create_ep: UNIQUE constraint failed: execution_policies.database_name, execution_policies.environment'' (ep_id p) p"

definition create_sql_review_policy ::
  "review_policy \<Rightarrow> review_policy managed list \<Rightarrow> app_error + review_policy managed list" where
  "create_sql_review_policy p =
     upsert_managed (\<lambda>p. (vp_database p, vp_environment p)) (\<lambda>old new. new)
       (''sync: create_sql_review_policy: UNIQUE constraint failed: sql_review_policies.database_name, ''
        @ ''sql_review_policies.environment'') (vp_id p) p"

definition create_result_policy ::
  "result_policy \<Rightarrow> result_policy managed list \<Rightarrow> app_error + result_policy managed list" where
  "create_result_policy p =
     upsert_managed (\<lambda>p. (rp_database p, rp_environment p))
       (\<lambda>old new. new\<lparr> rp_database := rp_database old, rp_environment := rp_environment old \<rparr>)
       ''sync: create_rp: UNIQUE constraint failed: result_policies.database_name, result_policies.environment'' (rp_id p) p"

definition create_notification_policy ::
  "notification_policy \<Rightarrow> notification_policy managed list \<Rightarrow> app_error + notification_policy managed list" where
  "create_notification_policy p =
     upsert_managed (\<lambda>p. (np_database p, np_environment p))
       (\<lambda>old new. new\<lparr> np_database := np_database old, np_environment := np_environment old \<rparr>)
       (''sync: create_np: UNIQUE constraint failed: notification_policies.database_name, ''
        @ ''notification_policies.environment'') (np_id p) p"

text \<open>\<open>wall\<close> gives the time of the statement that writes a row. The update of a webhook also makes it a row of the
  configuration.\<close>

definition create_webhook :: "(string \<Rightarrow> timestamp) \<Rightarrow> webhook \<Rightarrow> webhook managed list \<Rightarrow> app_error + webhook managed list" where
  "create_webhook wall w t =
     (if list_ex (\<lambda>r. mr_id r = hk_id w) t
      then Inr (upd_where (\<lambda>r. mr_id r = hk_id w) (\<lambda>r. r\<lparr> mr_source := ''config'',
             mr_value := (mr_value r)\<lparr> hk_url := hk_url w, hk_events := hk_events w, hk_format := hk_format w,
               hk_secret := hk_secret w, hk_status := hk_status w, hk_updated_at := Some (wall (hk_id w)) \<rparr> \<rparr>) t)
      else Inr (t @ [\<lparr> mr_id = hk_id w, mr_source = ''config'', mr_state = ''active'',
             mr_value = w\<lparr> hk_created_at := Some (wall (hk_id w)), hk_updated_at := Some (wall (hk_id w)) \<rparr> \<rparr>]))"

definition list_active_webhooks :: "webhook managed list \<Rightarrow> webhook list" where
  "list_active_webhooks t = filter (\<lambda>w. hk_status w = HookActive) (map mr_value t)"

text \<open>A role that is built in or was made otherwise is left as it is; the statement succeeds all the same.\<close>

definition create_role :: "role_definition \<Rightarrow> role_row list \<Rightarrow> app_error + role_row list" where
  "create_role d t =
     (if list_ex (\<lambda>r. rd_name (ro_definition r) = rd_name d) t
      then Inr (upd_where (\<lambda>r. rd_name (ro_definition r) = rd_name d \<and> ro_config_synced r)
             (\<lambda>r. r\<lparr> ro_definition := d, ro_config_synced := True, ro_source := ''config'' \<rparr>) t)
      else Inr (t @ [\<lparr> ro_definition = d, ro_built_in = False, ro_config_synced = True, ro_source = ''config'' \<rparr>]))"

definition stale_role :: "string list \<Rightarrow> role_row \<Rightarrow> bool" where
  "stale_role active_names r \<longleftrightarrow> ro_config_synced r \<and> rd_name (ro_definition r) \<notin> set active_names"

definition delete_stale_config_roles :: "string list \<Rightarrow> role_row list \<Rightarrow> nat \<times> role_row list" where
  "delete_stale_config_roles active_names t =
     (affected (stale_role active_names) t, filter (\<lambda>r. \<not> stale_role active_names r) t)"

text \<open>The tables of groups and memberships; the removal of a group removes its memberships.\<close>

definition create_group :: "(string \<Rightarrow> timestamp) \<Rightarrow> string \<Rightarrow> group_tables \<Rightarrow> app_error + group_tables" where
  "create_group wall name = (\<lambda>(groups, members).
     Inr (if name \<in> fst ` set groups then groups else groups @ [(name, wall name)], members))"

definition delete_stale_config_groups :: "string list \<Rightarrow> group_tables \<Rightarrow> nat \<times> group_tables" where
  "delete_stale_config_groups active_names = (\<lambda>(groups, members).
     (affected (\<lambda>g. fst g \<notin> set active_names) groups,
      filter (\<lambda>g. fst g \<in> set active_names) groups,
      filter (\<lambda>m. fst m \<notin> {g \<in> fst ` set groups. g \<notin> set active_names}) members))"

subsection \<open>Databases\<close>

definition register :: "(string \<Rightarrow> timestamp) \<Rightarrow> database_name \<Rightarrow> environment \<Rightarrow> database_row list \<Rightarrow> database_row list" where
  "register wall db env t =
     (let i = db_str db @ '':'' @ env_str env in
      if list_ex (\<lambda>r. dr_id r = i) t
      then upd_where (\<lambda>r. dr_id r = i) (\<lambda>r. r\<lparr> dr_source := ''config'', dr_state := ''active'' \<rparr>) t
      else t @ [\<lparr> dr_id = i, dr_name = db_str db, dr_environment = env_str env, dr_source = ''config'', dr_state = ''active'',
                  dr_created_at = wall i \<rparr>])"

definition list_active_databases :: "database_row list \<Rightarrow> app_error + (database_name \<times> environment) list" where
  "list_active_databases t =
     collect (\<lambda>r. tryE (map_err Internal (DatabaseName_new (dr_name r))) (\<lambda>db.
                  tryE (map_err Internal (Environment_new (dr_environment r))) (\<lambda>env. Inr (db, env))))
       (filter (\<lambda>r. dr_state r = ''active'') t)"

definition referenced :: "store \<Rightarrow> string \<Rightarrow> bool" where
  "referenced s i \<longleftrightarrow> list_ex (\<lambda>r. database_id (rq_database r) (rq_environment r) = i) (st_requests s)"

definition stale_database :: "string list \<Rightarrow> database_row \<Rightarrow> bool" where
  "stale_database active_ids r \<longleftrightarrow> dr_source r = ''config'' \<and> dr_state r = ''active'' \<and> dr_id r \<notin> set active_ids"

text \<open>A database that requests refer to is kept as an orphan, any other stale one is deleted.\<close>

definition reconcile_stale_databases :: "store \<Rightarrow> string list \<Rightarrow> database_row list \<Rightarrow> (nat \<times> nat) \<times> database_row list" where
  "reconcile_stale_databases s active_ids t =
     (let orphan = (\<lambda>r. stale_database active_ids r \<and> referenced s (dr_id r));
          t' = upd_where orphan (\<lambda>r. r\<lparr> dr_state := ''orphan'' \<rparr>) t;
          gone = (\<lambda>r. stale_database active_ids r \<and> \<not> referenced s (dr_id r))
      in ((affected orphan t, affected gone t'), filter (\<lambda>r. \<not> gone r) t'))"

fun register_all ::
  "(string \<Rightarrow> timestamp) \<Rightarrow> (string \<times> string) list \<Rightarrow> database_row list \<Rightarrow> app_error + string list \<times> database_row list" where
  "register_all wall [] t = Inr ([], t)"
| "register_all wall ((name, env) # ps) t =
     tryE (map_err (\<lambda>e. Validation (''database name: '' @ e)) (DatabaseName_new name)) (\<lambda>db.
     tryE (map_err (\<lambda>e. Validation (''environment: '' @ e)) (Environment_new env)) (\<lambda>en.
     tryE (register_all wall ps (register wall db en t)) (\<lambda>(ids, t'). Inr ((db_str db @ '':'' @ env_str en) # ids, t'))))"

definition limit_check :: "string \<Rightarrow> u32 \<Rightarrow> u32 \<Rightarrow> app_error + unit" where
  "limit_check what limit have =
     guardE (have \<le> limit) (Validation (what @ '' limit exceeded (max '' @ show_nat (unat limit) @ '', have ''
       @ show_nat (unat have) @ '')''))"

text \<open>Deleted or orphaned, and written.\<close>

type_synonym counts = "nat \<times> nat"

definition sync_databases ::
  "(string \<Rightarrow> timestamp) \<Rightarrow> u32 \<Rightarrow> database_def list \<Rightarrow> config_site \<Rightarrow> app_error + counts \<times> config_site" where
  "sync_databases wall max_databases inputs z =
     tryE (register_all wall (concat (map (\<lambda>d. map (Pair (dd_name d)) (dd_environments d)) inputs)) (cs_databases z)) (\<lambda>(ids, t).
     let ((orphaned, deleted), t') = reconcile_stale_databases (cs_store z) ids t in
     tryE (list_active_databases t') (\<lambda>all.
     tryE (limit_check ''database'' max_databases (as_u32 (card (fst ` set all)))) (\<lambda>_.
     Inr ((orphaned + deleted, length ids),
          z\<lparr> cs_databases := t', cs_store := (cs_store z)\<lparr> st_databases := map dr_id t' \<rparr> \<rparr>))))"

subsection \<open>The other resources\<close>

text \<open>Write all values, then delete what is stale.\<close>

fun create_all :: "('v \<Rightarrow> 't \<Rightarrow> app_error + 't) \<Rightarrow> 'v list \<Rightarrow> 't \<Rightarrow> app_error + 't" where
  "create_all create [] t = Inr t"
| "create_all create (v # vs) t = tryE (create v t) (create_all create vs)"

definition reconcile ::
  "('v \<Rightarrow> string) \<Rightarrow> ('v \<Rightarrow> 't \<Rightarrow> app_error + 't) \<Rightarrow> (string list \<Rightarrow> 't \<Rightarrow> nat \<times> 't) \<Rightarrow> 'v list \<Rightarrow> 't \<Rightarrow> app_error + counts \<times> 't" where
  "reconcile ident create purge vs t =
     tryE (create_all create vs t) (\<lambda>t'. let (deleted, t'') = purge (map ident vs) t' in Inr ((deleted, length vs), t''))"

text \<open>Roles and review policies are read and written one by one.\<close>

fun parse_and_create ::
  "('i \<Rightarrow> app_error + 'v) \<Rightarrow> ('v \<Rightarrow> 't \<Rightarrow> app_error + 't) \<Rightarrow> 'i list \<Rightarrow> 't \<Rightarrow> app_error + 'v list \<times> 't" where
  "parse_and_create parse create [] t = Inr ([], t)"
| "parse_and_create parse create (i # is) t =
     tryE (parse i) (\<lambda>v. tryE (create v t) (\<lambda>t'. tryE (parse_and_create parse create is t') (\<lambda>(vs, t''). Inr (v # vs, t''))))"

definition sync_groups :: "(string \<Rightarrow> timestamp) \<Rightarrow> string list \<Rightarrow> group_tables \<Rightarrow> app_error + counts \<times> group_tables" where
  "sync_groups wall = reconcile (\<lambda>name. name) (create_group wall) delete_stale_config_groups"

definition sync_roles :: "role_config list \<Rightarrow> role_row list \<Rightarrow> app_error + counts \<times> role_row list" where
  "sync_roles inputs t =
     tryE (parse_and_create parse_role create_role inputs t) (\<lambda>(roles, t').
     let (deleted, t'') = delete_stale_config_roles (map rd_name roles) t' in Inr ((deleted, length roles), t''))"

definition sync_webhooks ::
  "(string \<Rightarrow> timestamp) \<Rightarrow> (string \<Rightarrow> string + unit) \<Rightarrow> timestamp \<Rightarrow> webhook_def list \<Rightarrow> webhook managed list
     \<Rightarrow> app_error + counts \<times> webhook managed list" where
  "sync_webhooks wall validate_url now inputs t =
     tryE (collect (parse_webhook validate_url now) inputs) (\<lambda>parsed. reconcile hk_id (create_webhook wall) delete_stale parsed t)"

definition sync_workflows ::
  "lib \<Rightarrow> (string \<Rightarrow> string + auto_approve_settings) \<Rightarrow> workflow_input list \<Rightarrow> workflow managed list
     \<Rightarrow> app_error + counts \<times> workflow managed list" where
  "sync_workflows lib aa_read inputs t =
     tryE (parse_workflows lib aa_read inputs) (\<lambda>parsed. reconcile wf_id create_workflow delete_stale parsed t)"

definition sync_execution_policies ::
  "execution_policy_def list \<Rightarrow> execution_policy managed list \<Rightarrow> app_error + counts \<times> execution_policy managed list" where
  "sync_execution_policies inputs t =
     tryE (parse_execution_policies inputs) (\<lambda>parsed. reconcile ep_id create_execution_policy delete_stale parsed t)"

definition sync_sql_review_policies ::
  "sql_review_input list \<Rightarrow> review_policy managed list \<Rightarrow> app_error + counts \<times> review_policy managed list" where
  "sync_sql_review_policies inputs t =
     tryE (parse_and_create parse_review_policy create_sql_review_policy (List.enumerate 0 inputs) t) (\<lambda>(policies, t').
     let (deleted, t'') = delete_stale (map vp_id policies) t' in Inr ((deleted, length policies), t''))"

definition sync_result_policies ::
  "result_policy_def list \<Rightarrow> result_policy managed list \<Rightarrow> app_error + counts \<times> result_policy managed list" where
  "sync_result_policies inputs t =
     tryE (collect parse_result_policy (List.enumerate 0 inputs)) (\<lambda>parsed.
     reconcile rp_id create_result_policy delete_stale parsed t)"

definition sync_notification_policies ::
  "notification_policy_def list \<Rightarrow> notification_policy managed list \<Rightarrow> app_error + counts \<times> notification_policy managed list" where
  "sync_notification_policies inputs t =
     tryE (collect parse_notification_policy (List.enumerate 0 inputs)) (\<lambda>parsed.
     reconcile np_id create_notification_policy delete_stale parsed t)"

subsection \<open>The whole synchronisation\<close>

record sync_input =
  sy_databases :: "database_def list"
  sy_groups :: "string list"
  sy_roles :: "role_config list"
  sy_webhooks :: "webhook_def list"
  sy_workflows :: "workflow_input list"
  sy_execution_policies :: "execution_policy_def list"
  sy_sql_review :: "sql_review_input list"
  sy_result_policies :: "result_policy_def list"
  sy_notification_policies :: "notification_policy_def list"

record sync_summary =
  sm_databases :: counts
  sm_groups :: counts
  sm_roles :: counts
  sm_webhooks :: counts
  sm_workflows :: counts
  sm_execution_policies :: counts
  sm_sql_review_policies :: counts
  sm_result_policies :: counts
  sm_notification_policies :: counts

text \<open>The ports: limits of the license, guard for addresses, clocks, and what the notifier answers to a reload.\<close>

record sync_env =
  se_lib :: lib
  se_audit :: audit_env
  se_clock :: "nat \<Rightarrow> timestamp"
  se_wall :: "string \<Rightarrow> timestamp"
  se_max_databases :: u32
  se_max_roles :: u32
  se_max_webhooks :: u32
  se_max_workflows :: u32
  se_validate_url :: "string \<Rightarrow> string + unit"
  se_aa_read :: "string \<Rightarrow> string + auto_approve_settings"
  se_digest :: string
  se_reload_error :: "string option"

definition on_table :: "('z \<Rightarrow> 't) \<Rightarrow> (('t \<Rightarrow> 't) \<Rightarrow> 'z \<Rightarrow> 'z) \<Rightarrow> ('t \<Rightarrow> app_error + 'a \<times> 't) \<Rightarrow> 'z \<Rightarrow> app_error + 'a \<times> 'z" where
  "on_table get upd f z = tryE (f (get z)) (\<lambda>(x, t). Inr (x, upd (\<lambda>_. t) z))"

definition within_limit :: "string \<Rightarrow> u32 \<Rightarrow> ('z \<Rightarrow> u32) \<Rightarrow> 'z \<Rightarrow> app_error + unit \<times> 'z" where
  "within_limit what limit have z = tryE (limit_check what limit (have z)) (\<lambda>_. Inr ((), z))"

definition sync_all_inner :: "sync_env \<Rightarrow> sync_input \<Rightarrow> (config_site, sync_summary) txn" where
  "sync_all_inner env input =
     thenT (sync_databases (se_wall env) (se_max_databases env) (sy_databases input)) (\<lambda>databases.
     thenT (on_table cs_groups cs_groups_update (sync_groups (se_wall env) (sy_groups input))) (\<lambda>groups.
     thenT (on_table cs_roles cs_roles_update (sync_roles (sy_roles input))) (\<lambda>roles.
     thenT (within_limit ''role'' (se_max_roles env) (\<lambda>z. as_u32 (length (cs_roles z)))) (\<lambda>_.
     thenT (on_table cs_webhooks cs_webhooks_update
       (sync_webhooks (se_wall env) (se_validate_url env) (se_clock env 0) (sy_webhooks input))) (\<lambda>webhooks.
     thenT (within_limit ''webhook'' (se_max_webhooks env) (\<lambda>z. as_u32 (length (list_active_webhooks (cs_webhooks z))))) (\<lambda>_.
     thenT (on_table cs_workflows cs_workflows_update (sync_workflows (se_lib env) (se_aa_read env) (sy_workflows input))) (\<lambda>workflows.
     thenT (within_limit ''workflow'' (se_max_workflows env) (\<lambda>z. as_u32 (length (cs_workflows z)))) (\<lambda>_.
     thenT (on_table cs_execution_policies cs_execution_policies_update (sync_execution_policies (sy_execution_policies input))) (\<lambda>eps.
     thenT (on_table cs_review_policies cs_review_policies_update (sync_sql_review_policies (sy_sql_review input))) (\<lambda>reviews.
     thenT (on_table cs_result_policies cs_result_policies_update (sync_result_policies (sy_result_policies input))) (\<lambda>results.
     thenT (on_table cs_notification_policies cs_notification_policies_update
       (sync_notification_policies (sy_notification_policies input))) (\<lambda>notifications.
     doneT \<lparr> sm_databases = databases, sm_groups = groups, sm_roles = roles, sm_webhooks = webhooks, sm_workflows = workflows,
             sm_execution_policies = eps, sm_sql_review_policies = reviews, sm_result_policies = results,
             sm_notification_policies = notifications \<rparr>))))))))))))"

definition counts_json :: "counts \<Rightarrow> json" where
  "counts_json c = JObj [(''upserted'', JNum (int (snd c))), (''stale'', JNum (int (fst c)))]"

definition summary_json :: "sync_summary \<Rightarrow> json" where
  "summary_json s =
     JObj [(''databases'', counts_json (sm_databases s)), (''users'', counts_json (0, 0)), (''groups'', counts_json (sm_groups s)),
       (''roles'', counts_json (sm_roles s)), (''webhooks'', counts_json (sm_webhooks s)),
       (''workflows'', counts_json (sm_workflows s)), (''execution_policies'', counts_json (sm_execution_policies s)),
       (''sql_review_policies'', counts_json (sm_sql_review_policies s)), (''result_policies'', counts_json (sm_result_policies s)),
       (''notification_policies'', counts_json (sm_notification_policies s))]"

definition sync_tx :: "sync_env \<Rightarrow> sync_input \<Rightarrow> (config_site, sync_summary) txn" where
  "sync_tx env input =
     thenT (sync_all_inner env input) (\<lambda>summary z.
     let z = z\<lparr> cs_generations := cs_generations z @ [\<lparr> gn_digest = se_digest env, gn_synced_at = se_clock env 1,
                  gn_summary = x_json_text (se_lib env) (summary_json summary) \<rparr>] \<rparr> in
     tryE (record_event (se_lib env) (se_audit env)
       (audit_event_simple ''config.synced'' ''policy'' ''system'' None (se_clock env 1) CtxSystem) (cs_store z)) (\<lambda>(_, s).
     Inr (summary, z\<lparr> cs_store := s \<rparr>)))"

definition sync_all :: "sync_env \<Rightarrow> tx_faults \<Rightarrow> sync_input \<Rightarrow> config_site \<Rightarrow> sync_summary app_result \<times> config_site" where
  "sync_all env faults input z =
     (case run_in_tx faults (sync_tx env input) z of
        (Inl e, z') \<Rightarrow> (Inl e, z')
      | (Inr summary, z') \<Rightarrow>
          (case se_reload_error env of
             Some e \<Rightarrow> (Inl (Internal (''notifier reload failed (DB committed, restart required): '' @ e)), z')
           | None \<Rightarrow> (Inr summary, z')))"

subsection \<open>What a table of the configuration promises\<close>

text \<open>\<open>view\<close> is what is stored under an identifier, \<open>managed\<close> the identifiers of the rows that came from the configuration. A
  value is \<open>good\<close> if its identifier fits it; \<open>shown\<close> is the part of it the view keeps.\<close>

locale config_table =
  fixes ok :: "'t \<Rightarrow> bool" and good :: "'v \<Rightarrow> bool" and ident :: "'v \<Rightarrow> string" and shown :: "'v \<Rightarrow> 'w"
    and create :: "'v \<Rightarrow> 't \<Rightarrow> app_error + 't" and purge :: "string list \<Rightarrow> 't \<Rightarrow> nat \<times> 't"
    and view :: "'t \<Rightarrow> string \<Rightarrow> 'w option" and managed :: "'t \<Rightarrow> string set"
  assumes managed_stored: "ok t \<Longrightarrow> i \<in> managed t \<Longrightarrow> view t i \<noteq> None"
    and create_effect: "ok t \<Longrightarrow> good v \<Longrightarrow> view t (ident v) = None \<or> ident v \<in> managed t \<Longrightarrow> create v t = Inr t' \<Longrightarrow>
      ok t' \<and> view t' = (view t)(ident v \<mapsto> shown v) \<and> managed t' = insert (ident v) (managed t)"
    and create_again: "ok t \<Longrightarrow> good v \<Longrightarrow> ident v \<in> managed t \<Longrightarrow> view t (ident v) = Some (shown v) \<Longrightarrow> \<exists>t'. create v t = Inr t'"
    and purge_effect: "ok t \<Longrightarrow> purge ids t = (n, t') \<Longrightarrow>
      ok t' \<and> view t' = view t |` (- (managed t - set ids)) \<and> managed t' = managed t \<inter> set ids
      \<and> (managed t \<subseteq> set ids \<longrightarrow> n = 0)"
begin

definition clear :: "'t \<Rightarrow> 'v list \<Rightarrow> bool" where
  "clear t vs \<longleftrightarrow> (\<forall>v \<in> set vs. good v \<and> (view t (ident v) = None \<or> ident v \<in> managed t))"

lemma create_all_effect:
  "ok t \<Longrightarrow> clear t vs \<Longrightarrow> create_all create vs t = Inr t' \<Longrightarrow>
     ok t' \<and> view t' = view t ++ map_of (rev (map (\<lambda>v. (ident v, shown v)) vs)) \<and> managed t' = managed t \<union> ident ` set vs"
proof (induction vs arbitrary: t)
  case (Cons v vs)
  then obtain t1 where t1: "create v t = Inr t1" and rest: "create_all create vs t1 = Inr t'" by (auto simp: tryE_Inr)
  from create_effect [OF Cons.prems(1) _ _ t1] Cons.prems(2)
  have v: "ok t1" "view t1 = (view t)(ident v \<mapsto> shown v)" "managed t1 = insert (ident v) (managed t)" by (auto simp: clear_def)
  with Cons.prems(2) have "clear t1 vs" by (auto simp: clear_def)
  note vs = Cons.IH [OF v(1) this rest]
  have "view t' = view t ++ map_of (rev (map (\<lambda>v. (ident v, shown v)) (v # vs)))"
    using vs v(2) by (auto simp: map_add_def fun_eq_iff split: option.splits)
  with vs v(3) show ?case by auto
qed simp

text \<open>After the reconciliation the managed rows are those of the configuration, with its values, and the rest is as before.\<close>

lemma reconcile_effect:
  assumes "ok t" and "clear t vs" and "reconcile ident create purge vs t = Inr (c, t')"
  shows "ok t'" and "managed t' = ident ` set vs" and "snd c = length vs"
    and "view t' = (view t |` (- managed t)) ++ map_of (rev (map (\<lambda>v. (ident v, shown v)) vs))"
proof -
  from assms(3) obtain t1 n where t1: "create_all create vs t = Inr t1" and n: "purge (map ident vs) t1 = (n, t')"
    and c: "c = (n, length vs)" by (auto simp: reconcile_def tryE_Inr Let_def case_prod_unfold prod_eq_iff)
  note effect = create_all_effect [OF assms(1,2) t1]
  from effect have ok1: "ok t1" ..
  from purge_effect [OF ok1 n] effect
  show "ok t'" "managed t' = ident ` set vs" "snd c = length vs" by (auto simp: c)
  have "view t' = (view t ++ map_of (rev (map (\<lambda>v. (ident v, shown v)) vs))) |` (- (managed t - ident ` set vs))"
    using purge_effect [OF ok1 n] effect by (simp add: Un_Diff)
  also have "\<dots> = (view t |` (- managed t)) ++ map_of (rev (map (\<lambda>v. (ident v, shown v)) vs))"
    by (rule ext) (auto simp: restrict_map_def map_add_def map_of_eq_None_iff image_iff split: option.splits dest!: map_of_SomeD)
  finally show "view t' = (view t |` (- managed t)) ++ map_of (rev (map (\<lambda>v. (ident v, shown v)) vs))" .
qed

end

subsection \<open>Tables of policies\<close>

definition rows_view :: "'a managed list \<Rightarrow> string \<Rightarrow> 'a option" where
  "rows_view t i = map_option mr_value (find_row (\<lambda>r. mr_id r = i) t)"

definition rows_managed :: "'a managed list \<Rightarrow> string set" where
  "rows_managed t = {i. (i, ''config'') \<in> set (map (\<lambda>r. (mr_id r, mr_source r)) t)}"

text \<open>Identifiers and keys are unique, and the rows of the configuration have identifiers that fit them.\<close>

definition rows_ok :: "('a \<Rightarrow> 'k) \<Rightarrow> (string \<Rightarrow> 'a \<Rightarrow> bool) \<Rightarrow> 'a managed list \<Rightarrow> bool" where
  "rows_ok key fits t \<longleftrightarrow> distinct (map mr_id t) \<and> distinct (map (\<lambda>r. key (mr_value r)) t)
     \<and> (\<forall>r \<in> set t. mr_source r = ''config'' \<longrightarrow> fits (mr_id r) (mr_value r))"

lemma row_of_key: "distinct (map k t) \<Longrightarrow> r \<in> set t \<Longrightarrow> find_row (\<lambda>r'. k r' = k r) t = Some r"
  by (induction t) (auto simp: find_row_def)

lemma managed_row:
  "distinct (map mr_id t) \<Longrightarrow> i \<in> rows_managed t \<longleftrightarrow> (\<exists>r. find_row (\<lambda>r. mr_id r = i) t = Some r \<and> mr_source r = ''config'')"
  by (auto simp: rows_managed_def row_of_key dest: find_row_Some)

lemma distinct_key_upd:
  "distinct (map mr_id t) \<Longrightarrow> distinct (map g t) \<Longrightarrow> \<forall>r \<in> set t. mr_id r \<noteq> i \<longrightarrow> g r \<noteq> k \<Longrightarrow>
     distinct (map (\<lambda>r. if mr_id r = i then k else g r) t)"
  by (induction t) (auto simp: image_iff)

lemma rows_view_upd:
  assumes "\<And>r. mr_id (f r) = mr_id r" and "find_row (\<lambda>r. mr_id r = i) t = Some r0" and "\<And>r. mr_value (f r) = g (mr_value r)"
  shows "rows_view (upd_where (\<lambda>r. mr_id r = i) f t) = (rows_view t)(i \<mapsto> g (mr_value r0))"
proof (rule ext)
  fix j
  have upd: "find_row (\<lambda>r. mr_id r = j) (upd_where (\<lambda>r. mr_id r = i) f t) =
      map_option (\<lambda>r. if mr_id r = i then f r else r) (find_row (\<lambda>r. mr_id r = j) t)"
    by (rule find_row_upd) (rule assms(1))
  show "rows_view (upd_where (\<lambda>r. mr_id r = i) f t) j = ((rows_view t)(i \<mapsto> g (mr_value r0))) j"
  proof (cases "find_row (\<lambda>r. mr_id r = j) t")
    case None
    with assms(2) have "j \<noteq> i" by auto
    with None show ?thesis by (simp add: rows_view_def upd)
  next
    case (Some r)
    then have "mr_id r = j" by (auto dest: find_row_Some)
    with Some assms(2) show ?thesis by (auto simp: rows_view_def upd assms(3))
  qed
qed

lemma rows_view_add:
  "find_row (\<lambda>r. mr_id r = mr_id x) t = None \<Longrightarrow> rows_view (t @ [x]) = (rows_view t)(mr_id x \<mapsto> mr_value x)"
  by (rule ext) (auto simp: rows_view_def find_row_append split: option.split)

lemma rows_managed_upd:
  "(\<And>r. (mr_id (f r), mr_source (f r)) = (mr_id r, mr_source r)) \<Longrightarrow> rows_managed (upd_where P f t) = rows_managed t"
  unfolding rows_managed_def by (subst map_upd_where) simp_all

text \<open>Deletion works the same for all these tables.\<close>

lemma find_keyed_filter:
  "distinct (map k t) \<Longrightarrow> find_row (\<lambda>r. k r = i) (filter P t) =
     (case find_row (\<lambda>r. k r = i) t of Some r \<Rightarrow> if P r then Some r else None | None \<Rightarrow> None)"
proof (induction t)
  case (Cons r t)
  have "find_row (\<lambda>r. k r = i) t = None" if "k r = i" using Cons.prems that unfolding find_row_None by (auto simp: image_iff)
  with Cons show ?case by (cases "k r = i") (auto simp: find_row_def split: option.splits)
qed (simp add: find_row_def)

lemma delete_stale_view:
  assumes ids: "distinct (map mr_id t)" and del: "delete_stale ids t = (n, t')"
  shows "distinct (map mr_id t') \<and> rows_view t' = rows_view t |` (- (rows_managed t - set ids))
    \<and> rows_managed t' = rows_managed t \<inter> set ids \<and> (rows_managed t \<subseteq> set ids \<longrightarrow> n = 0)"
proof -
  have t': "t' = filter (\<lambda>r. \<not> stale ids r) t" and n: "n = affected (stale ids) t"
    using del by (simp_all add: delete_stale_def)
  have "rows_view t' i = (rows_view t |` (- (rows_managed t - set ids))) i" for i
  proof (cases "find_row (\<lambda>r. mr_id r = i) t")
    case (Some r)
    then have "mr_id r = i" by (auto dest: find_row_Some)
    with Some show ?thesis
      by (simp add: rows_view_def t' find_keyed_filter [OF ids] restrict_map_def managed_row [OF ids] stale_def)
  qed (simp add: rows_view_def t' find_keyed_filter [OF ids] restrict_map_def)
  moreover have "rows_managed t' = rows_managed t \<inter> set ids" by (auto simp: rows_managed_def t' stale_def)
  moreover have "rows_managed t \<subseteq> set ids \<longrightarrow> n = 0" by (force simp: n affected_zero rows_managed_def stale_def)
  moreover have "distinct (map mr_id t')" using ids by (simp add: t' distinct_map_filter)
  ultimately show ?thesis by blast
qed

lemma delete_stale_rows:
  assumes "rows_ok key fits t" and "delete_stale ids t = (n, t')"
  shows "rows_ok key fits t' \<and> rows_view t' = rows_view t |` (- (rows_managed t - set ids))
    \<and> rows_managed t' = rows_managed t \<inter> set ids \<and> (rows_managed t \<subseteq> set ids \<longrightarrow> n = 0)"
proof -
  have "rows_ok key fits t'" using assms by (auto simp: rows_ok_def delete_stale_def distinct_map_filter)
  moreover have "distinct (map mr_id t)" using assms(1) by (simp add: rows_ok_def)
  ultimately show ?thesis using delete_stale_view [OF _ assms(2)] by blast
qed

text \<open>A table of policies: the update keeps some columns, but for a row whose identifier fits them it takes over the whole
  value.\<close>

locale policy_table =
  fixes key :: "'v \<Rightarrow> 'k" and fits :: "string \<Rightarrow> 'v \<Rightarrow> bool" and ident :: "'v \<Rightarrow> string" and merge :: "'v \<Rightarrow> 'v \<Rightarrow> 'v"
    and clash :: string and create :: "'v \<Rightarrow> 'v managed list \<Rightarrow> app_error + 'v managed list"
  assumes create_is: "create v t = upsert_managed key merge clash (ident v) v t"
    and merge_fits: "fits i old \<Longrightarrow> fits i new \<Longrightarrow> merge old new = new"
begin

lemma stored_merge:
  assumes "rows_ok key fits t" "fits (ident v) v" "ident v \<in> rows_managed t" "find_row (\<lambda>r. mr_id r = ident v) t = Some r"
  shows "merge (mr_value r) v = v"
  using assms by (auto simp: rows_ok_def managed_row intro!: merge_fits dest: find_row_Some)

lemma create_rows:
  assumes ok: "rows_ok key fits t" and fits: "fits (ident v) v"
    and free: "rows_view t (ident v) = None \<or> ident v \<in> rows_managed t" and run: "create v t = Inr t'"
  shows "rows_ok key fits t' \<and> rows_view t' = (rows_view t)(ident v \<mapsto> v) \<and> rows_managed t' = insert (ident v) (rows_managed t)"
proof (cases "find_row (\<lambda>r. mr_id r = ident v) t")
  case None
  then have t': "t' = t @ [\<lparr> mr_id = ident v, mr_source = ''config'', mr_state = ''active'', mr_value = v \<rparr>]"
    and "\<forall>r \<in> set t. key (mr_value r) \<noteq> key v"
    using run by (auto simp: create_is upsert_managed_def list_ex_iff split: if_splits)
  moreover have "\<forall>r \<in> set t. mr_id r \<noteq> ident v" using None by (simp add: find_row_None)
  ultimately have "rows_ok key fits t'" using ok fits by (auto simp: rows_ok_def)
  moreover have "rows_view t' = (rows_view t)(ident v \<mapsto> v)" unfolding t' using None by (subst rows_view_add) simp_all
  moreover have "rows_managed t' = insert (ident v) (rows_managed t)" by (auto simp: rows_managed_def t')
  ultimately show ?thesis by blast
next
  case (Some r)
  with free have managed: "ident v \<in> rows_managed t" by (auto simp: rows_view_def)
  let ?f = "\<lambda>r. r\<lparr> mr_value := v, mr_state := ''active'' \<rparr>"
  have v: "merge (mr_value r) v = v" by (rule stored_merge [OF ok fits managed Some])
  have t': "t' = upd_where (\<lambda>r. mr_id r = ident v) ?f t"
    and clear: "\<forall>r \<in> set t. mr_id r \<noteq> ident v \<longrightarrow> key (mr_value r) \<noteq> key v"
    using run Some by (auto simp: create_is upsert_managed_def v list_ex_iff split: if_splits)
  have "map (\<lambda>r. key (mr_value r)) t' = map (\<lambda>r. if mr_id r = ident v then key v else key (mr_value r)) t"
    by (auto simp: t' upd_where_def)
  moreover have "map mr_id t' = map mr_id t" unfolding t' by (rule map_upd_where) simp
  ultimately have "rows_ok key fits t'"
    using ok fits distinct_key_upd [OF _ _ clear] by (auto simp: rows_ok_def t' set_upd_where)
  moreover have "rows_view t' = (rows_view t)(ident v \<mapsto> v)" unfolding t' by (rule rows_view_upd [OF _ Some]) simp_all
  moreover have "rows_managed t' = rows_managed t" unfolding t' by (rule rows_managed_upd) simp_all
  ultimately show ?thesis using managed by (simp add: insert_absorb)
qed

lemma create_stored:
  assumes "rows_ok key fits t" "fits (ident v) v" "ident v \<in> rows_managed t" "rows_view t (ident v) = Some v"
  shows "\<exists>t'. create v t = Inr t'"
proof -
  from assms(4) obtain r where r: "find_row (\<lambda>r. mr_id r = ident v) t = Some r" "mr_value r = v" by (auto simp: rows_view_def)
  then have "r \<in> set t" "mr_id r = ident v" by (auto dest: find_row_Some)
  with assms(1) r(2) have "\<not> list_ex (\<lambda>r'. mr_id r' \<noteq> ident v \<and> key (mr_value r') = key v) t"
    by (auto simp: rows_ok_def list_ex_iff distinct_map inj_on_def)
  then show ?thesis by (simp add: create_is upsert_managed_def r(1) stored_merge [OF assms(1-3) r(1)])
qed

end

sublocale policy_table \<subseteq> config_table "rows_ok key fits" "\<lambda>v. fits (ident v) v" ident "\<lambda>v. v" create delete_stale rows_view rows_managed
proof unfold_locales
  show "rows_view t i \<noteq> None" if "rows_ok key fits t" "i \<in> rows_managed t" for t i
    using that by (auto simp: rows_ok_def managed_row rows_view_def)
qed (rule create_rows create_stored delete_stale_rows, assumption+)+

text \<open>The scope written in an identifier.\<close>

definition id_scope :: "string \<Rightarrow> string \<Rightarrow> string \<times> string" where
  "id_scope pre i =
     (let rest = drop (length pre) i
      in (takeWhile (\<lambda>c. c \<noteq> CHR '':'') rest,
          takeWhile (\<lambda>c. c \<noteq> CHR '':'') (drop 1 (dropWhile (\<lambda>c. c \<noteq> CHR '':'') rest))))"

definition fits_scope :: "string \<Rightarrow> ('v \<Rightarrow> database_name) \<Rightarrow> ('v \<Rightarrow> environment) \<Rightarrow> string \<Rightarrow> 'v \<Rightarrow> bool" where
  "fits_scope pre db env i v \<longleftrightarrow> id_scope pre i = (db_str (db v), env_str (env v))"

lemma fits_same: "fits_scope pre db env i v \<Longrightarrow> fits_scope pre db env i w \<Longrightarrow> db v = db w \<and> env v = env w"
  by (simp add: fits_scope_def database_name.expand environment.expand)

lemma id_scope_written:
  assumes "CHR '':'' \<notin> set db" "CHR '':'' \<notin> set env" "rest = [] \<or> hd rest = CHR '':''"
  shows "id_scope pre (pre @ db @ '':'' @ env @ rest) = (db, env)"
proof -
  have "takeWhile (\<lambda>c. c \<noteq> CHR '':'') (xs @ ys) = xs" "dropWhile (\<lambda>c. c \<noteq> CHR '':'') (xs @ ys) = ys"
    if "CHR '':'' \<notin> set xs" "ys = [] \<or> hd ys = CHR '':''" for xs ys
  proof -
    have "\<forall>x \<in> set xs. x \<noteq> CHR '':''" using that(1) by auto
    with that(2) show "takeWhile (\<lambda>c. c \<noteq> CHR '':'') (xs @ ys) = xs" "dropWhile (\<lambda>c. c \<noteq> CHR '':'') (xs @ ys) = ys"
      by (cases ys; simp add: takeWhile_append dropWhile_append)+
  qed
  then show ?thesis using assms by (simp add: id_scope_def Let_def)
qed

lemma scope_texts:
  "scope_db msg s = Inr d \<Longrightarrow> db_str d = s \<and> CHR '':'' \<notin> set s"
  "scope_env msg s = Inr e \<Longrightarrow> env_str e = s \<and> CHR '':'' \<notin> set s"
  by (auto simp: scope_db_def scope_env_def map_err_Inr DatabaseName_new_def Environment_new_def tryE_Inr validated_new_Inr
      db_wildcard_def env_wildcard_def dest: valid_name_no_colon split: if_splits)

lemma fits_written:
  assumes "scope_db msg db = Inr (dbf v)" "scope_env msg' env = Inr (envf v)"
  shows "fits_scope pre dbf envf (pre @ db @ '':'' @ env) v" "fits_scope pre dbf envf (pre @ db @ '':'' @ env @ '':'' @ rest) v"
  using scope_texts(1) [OF assms(1)] scope_texts(2) [OF assms(2)]
    id_scope_written [of db env "[]" pre] id_scope_written [of db env "'':'' @ rest" pre]
  by (simp_all add: fits_scope_def)

lemma parsed_fits:
  "parse_workflow aa_read (make_workflow_id lib (wfi_database w) (wfi_environment w) ops) w = Inr p
     \<Longrightarrow> fits_scope ''wf:'' wf_database wf_environment (wf_id p) p"
  "parse_execution_policy (i, ep) = Inr e \<Longrightarrow> fits_scope ''ep:'' ep_database ep_environment (ep_id e) e"
  "parse_result_policy (i, rp) = Inr r \<Longrightarrow> fits_scope ''rp:'' rp_database rp_environment (rp_id r) r"
  "parse_notification_policy (i, np) = Inr n \<Longrightarrow> fits_scope ''np:'' np_database np_environment (np_id n) n"
proof -
  assume "parse_workflow aa_read (make_workflow_id lib (wfi_database w) (wfi_environment w) ops) w = Inr p"
  then have "scope_db (\<lambda>e. ''workflow db: '' @ e) (wfi_database w) = Inr (wf_database p)"
    "scope_env (\<lambda>e. ''workflow env: '' @ e) (wfi_environment w) = Inr (wf_environment p)"
    "wf_id p = make_workflow_id lib (wfi_database w) (wfi_environment w) ops"
    unfolding parse_workflow_def tryE_Inr by (auto simp del: append.simps)
  from fits_written(2) [of _ _ wf_database _ _ _ wf_environment "''wf:''", OF this(1,2)] this(3)
  show "fits_scope ''wf:'' wf_database wf_environment (wf_id p) p" by (simp add: make_workflow_id_def)
next
  assume "parse_execution_policy (i, ep) = Inr e"
  then have "scope_db (at_policy ''execution_policy'' i '' db: '') (ed_database ep) = Inr (ep_database e)"
    "scope_env (at_policy ''execution_policy'' i '' env: '') (ed_environment ep) = Inr (ep_environment e)"
    "ep_id e = ''ep:'' @ ed_database ep @ '':'' @ ed_environment ep"
    unfolding parse_execution_policy_def prod.case tryE_Inr Let_def by auto
  from fits_written(1) [of _ _ ep_database _ _ _ ep_environment "''ep:''", OF this(1,2)] this(3)
  show "fits_scope ''ep:'' ep_database ep_environment (ep_id e) e" by simp
next
  assume "parse_result_policy (i, rp) = Inr r"
  then have "scope_db (at_policy ''result_policy'' i '' db: '') (pd_database rp) = Inr (rp_database r)"
    "scope_env (at_policy ''result_policy'' i '' env: '') (pd_environment rp) = Inr (rp_environment r)"
    "rp_id r = ''rp:'' @ pd_database rp @ '':'' @ pd_environment rp"
    unfolding parse_result_policy_def prod.case tryE_Inr by auto
  from fits_written(1) [of _ _ rp_database _ _ _ rp_environment "''rp:''", OF this(1,2)] this(3)
  show "fits_scope ''rp:'' rp_database rp_environment (rp_id r) r" by simp
next
  assume "parse_notification_policy (i, np) = Inr n"
  then have "scope_db (at_policy ''notification_policy'' i '' db: '') (nd_database np) = Inr (np_database n)"
    "scope_env (at_policy ''notification_policy'' i '' env: '') (nd_environment np) = Inr (np_environment n)"
    "np_id n = ''np:'' @ nd_database np @ '':'' @ nd_environment np"
    unfolding parse_notification_policy_def prod.case tryE_Inr by auto
  from fits_written(1) [of _ _ np_database _ _ _ np_environment "''np:''", OF this(1,2)] this(3)
  show "fits_scope ''np:'' np_database np_environment (np_id n) n" by simp
qed

interpretation workflow_rows: policy_table "\<lambda>w. (wf_database w, wf_environment w, wf_operations w)"
  "fits_scope ''wf:'' wf_database wf_environment" wf_id
  "\<lambda>old new. new\<lparr> wf_database := wf_database old, wf_environment := wf_environment old \<rparr>"
  "''sync: create_workflow: UNIQUE constraint failed: workflows.database_name, workflows.environment, '' @ ''workflows.operations_json''"
  create_workflow
  by unfold_locales (simp only: create_workflow_def, drule (1) fits_same, rule workflow.equality, simp_all)

interpretation execution_rows: policy_table "\<lambda>p. (ep_database p, ep_environment p)"
  "fits_scope ''ep:'' ep_database ep_environment" ep_id
  "\<lambda>old new. new\<lparr> ep_database := ep_database old, ep_environment := ep_environment old \<rparr>"
  "''sync: create_ep: UNIQUE constraint failed: execution_policies.database_name, execution_policies.environment''"
  create_execution_policy
  by unfold_locales (simp only: create_execution_policy_def, drule (1) fits_same, rule execution_policy.equality, simp_all)

interpretation review_rows: policy_table "\<lambda>p. (vp_database p, vp_environment p)" "\<lambda>_ _. True" vp_id "\<lambda>old new. new"
  "''sync: create_sql_review_policy: UNIQUE constraint failed: sql_review_policies.database_name, ''
   @ ''sql_review_policies.environment''"
  create_sql_review_policy
  by unfold_locales (simp_all only: create_sql_review_policy_def)

interpretation result_rows: policy_table "\<lambda>p. (rp_database p, rp_environment p)"
  "fits_scope ''rp:'' rp_database rp_environment" rp_id
  "\<lambda>old new. new\<lparr> rp_database := rp_database old, rp_environment := rp_environment old \<rparr>"
  "''sync: create_rp: UNIQUE constraint failed: result_policies.database_name, result_policies.environment''"
  create_result_policy
  by unfold_locales (simp only: create_result_policy_def, drule (1) fits_same, rule result_policy.equality, simp_all)

interpretation notification_rows: policy_table "\<lambda>p. (np_database p, np_environment p)"
  "fits_scope ''np:'' np_database np_environment" np_id
  "\<lambda>old new. new\<lparr> np_database := np_database old, np_environment := np_environment old \<rparr>"
  "''sync: create_np: UNIQUE constraint failed: notification_policies.database_name, '' @ ''notification_policies.environment''"
  create_notification_policy
  by unfold_locales (simp only: create_notification_policy_def, drule (1) fits_same, rule notification_policy.equality, simp_all)

subsection \<open>Webhooks, roles and groups\<close>

definition hook_shown :: "webhook \<Rightarrow> string \<times> string list \<times> webhook_format \<times> string option \<times> webhook_status" where
  "hook_shown w = (hk_url w, hk_events w, hk_format w, hk_secret w, hk_status w)"

definition hooks_view :: "webhook managed list \<Rightarrow> string \<Rightarrow> (string \<times> string list \<times> webhook_format \<times> string option \<times> webhook_status) option" where
  "hooks_view t i = map_option hook_shown (rows_view t i)"

lemma create_webhook_effect:
  assumes "distinct (map mr_id t)" and "create_webhook wall w t = Inr t'"
  shows "distinct (map mr_id t') \<and> hooks_view t' = (hooks_view t)(hk_id w \<mapsto> hook_shown w) \<and> rows_managed t' = insert (hk_id w) (rows_managed t)"
proof (cases "find_row (\<lambda>r. mr_id r = hk_id w) t")
  case None
  let ?row = "\<lparr> mr_id = hk_id w, mr_source = ''config'', mr_state = ''active'',
    mr_value = w\<lparr> hk_created_at := Some (wall (hk_id w)), hk_updated_at := Some (wall (hk_id w)) \<rparr> \<rparr>"
  from None have fresh: "\<forall>r \<in> set t. mr_id r \<noteq> hk_id w" by (simp add: find_row_None)
  with assms(2) have t': "t' = t @ [?row]" by (auto simp: create_webhook_def list_ex_iff)
  have "rows_view t' = (rows_view t)(hk_id w \<mapsto> mr_value ?row)" using rows_view_add [of ?row t] None by (simp add: t')
  then have "hooks_view t' = (hooks_view t)(hk_id w \<mapsto> hook_shown w)" by (auto simp: hooks_view_def fun_eq_iff hook_shown_def)
  with assms(1) fresh show ?thesis by (auto simp: t' rows_managed_def)
next
  case (Some r0)
  let ?g = "\<lambda>v. v\<lparr> hk_url := hk_url w, hk_events := hk_events w, hk_format := hk_format w,
    hk_secret := hk_secret w, hk_status := hk_status w, hk_updated_at := Some (wall (hk_id w)) \<rparr>"
  let ?f = "\<lambda>r. r\<lparr> mr_source := ''config'', mr_value := ?g (mr_value r) \<rparr>"
  from Some have "list_ex (\<lambda>r. mr_id r = hk_id w) t" by (auto simp: list_ex_iff dest: find_row_Some)
  with assms(2) have t': "t' = upd_where (\<lambda>r. mr_id r = hk_id w) ?f t" by (simp add: create_webhook_def)
  have "rows_view t' = (rows_view t)(hk_id w \<mapsto> ?g (mr_value r0))" unfolding t' by (rule rows_view_upd [OF _ Some]) simp_all
  then have "hooks_view t' = (hooks_view t)(hk_id w \<mapsto> hook_shown w)" by (auto simp: hooks_view_def fun_eq_iff hook_shown_def)
  moreover have "map mr_id t' = map mr_id t" unfolding t' by (rule map_upd_where) simp
  moreover have "rows_managed t' = insert (hk_id w) (rows_managed t)"
  proof -
    from Some have "r0 \<in> set t" "mr_id r0 = hk_id w" by (auto dest: find_row_Some)
    then show ?thesis by (auto simp: rows_managed_def t' upd_where_def image_iff split: if_splits)
  qed
  ultimately show ?thesis using assms(1) by simp
qed

interpretation webhook_rows: config_table "\<lambda>t. distinct (map mr_id t)" "\<lambda>_. True" hk_id hook_shown "create_webhook wall" delete_stale
  hooks_view rows_managed for wall
proof unfold_locales
  show "hooks_view t i \<noteq> None" if "distinct (map mr_id t)" "i \<in> rows_managed t" for t i
    using that by (auto simp: managed_row hooks_view_def rows_view_def)
  show "\<exists>t'. create_webhook wall v t = Inr t'" for v t by (simp add: create_webhook_def)
  show "distinct (map mr_id t') \<and> hooks_view t' = hooks_view t |` (- (rows_managed t - set ids)) \<and> rows_managed t' = rows_managed t \<inter> set ids
      \<and> (rows_managed t \<subseteq> set ids \<longrightarrow> n = 0)"
    if "distinct (map mr_id t)" "delete_stale ids t = (n, t')" for t ids n t'
    using delete_stale_view [OF that] by (auto simp: hooks_view_def fun_eq_iff restrict_map_def)
qed (rule create_webhook_effect, assumption+)

definition role_view :: "role_row list \<Rightarrow> string \<Rightarrow> role_definition option" where
  "role_view t n = map_option ro_definition (find_row (\<lambda>r. rd_name (ro_definition r) = n) t)"

definition role_managed :: "role_row list \<Rightarrow> string set" where
  "role_managed t = {n. (n, True) \<in> set (map (\<lambda>r. (rd_name (ro_definition r), ro_config_synced r)) t)}"

definition roles_ok :: "role_row list \<Rightarrow> bool" where
  "roles_ok t \<longleftrightarrow> distinct (map (\<lambda>r. rd_name (ro_definition r)) t)"

lemma managed_role:
  "roles_ok t \<Longrightarrow> n \<in> role_managed t \<longleftrightarrow> (\<exists>r. find_row (\<lambda>r. rd_name (ro_definition r) = n) t = Some r \<and> ro_config_synced r)"
  by (auto simp: roles_ok_def role_managed_def row_of_key [where k = "\<lambda>r. rd_name (ro_definition r)"] dest: find_row_Some)

lemma find_row_upd_if:
  "(\<And>r. P r \<Longrightarrow> k (f r) = k r) \<Longrightarrow>
     find_row (\<lambda>r. k r = i) (upd_where P f t) = map_option (\<lambda>r. if P r then f r else r) (find_row (\<lambda>r. k r = i) t)"
  by (induction t) (auto simp: find_row_def upd_where_def)

lemma create_role_effect:
  assumes ok: "roles_ok t" and free: "role_view t (rd_name d) = None \<or> rd_name d \<in> role_managed t" and run: "create_role d t = Inr t'"
  shows "roles_ok t' \<and> role_view t' = (role_view t)(rd_name d \<mapsto> d) \<and> role_managed t' = insert (rd_name d) (role_managed t)"
proof (cases "find_row (\<lambda>r. rd_name (ro_definition r) = rd_name d) t")
  case None
  then have fresh: "\<forall>r \<in> set t. rd_name (ro_definition r) \<noteq> rd_name d" by (simp add: find_row_None)
  with run have t': "t' = t @ [\<lparr> ro_definition = d, ro_built_in = False, ro_config_synced = True, ro_source = ''config'' \<rparr>]"
    by (auto simp: create_role_def list_ex_iff)
  have "role_view t' = (role_view t)(rd_name d \<mapsto> d)"
    using None by (auto simp: role_view_def t' find_row_append fun_eq_iff split: option.split)
  with ok fresh show ?thesis by (auto simp: t' roles_ok_def role_managed_def)
next
  case (Some r0)
  let ?P = "\<lambda>r. rd_name (ro_definition r) = rd_name d \<and> ro_config_synced r"
  let ?f = "\<lambda>r. r\<lparr> ro_definition := d, ro_config_synced := True, ro_source := ''config'' \<rparr>"
  from Some have r0: "r0 \<in> set t" "rd_name (ro_definition r0) = rd_name d" by (auto dest: find_row_Some)
  then have "list_ex (\<lambda>r. rd_name (ro_definition r) = rd_name d) t" by (auto simp: list_ex_iff)
  with run have t': "t' = upd_where ?P ?f t" by (simp add: create_role_def)
  from Some free have managed: "rd_name d \<in> role_managed t" by (auto simp: role_view_def)
  then have synced: "ro_config_synced r0" using Some by (simp add: managed_role [OF ok])
  have names: "map (\<lambda>r. (rd_name (ro_definition r), ro_config_synced r)) t' = map (\<lambda>r. (rd_name (ro_definition r), ro_config_synced r)) t"
    by (auto simp: t' upd_where_def)
  then have "map fst (map (\<lambda>r. (rd_name (ro_definition r), ro_config_synced r)) t') = map fst (map (\<lambda>r. (rd_name (ro_definition r), ro_config_synced r)) t)"
    by simp
  then have "roles_ok t'" using ok by (simp add: roles_ok_def o_def)
  moreover have "role_managed t' = role_managed t" unfolding role_managed_def names ..
  moreover have "role_view t' n = ((role_view t)(rd_name d \<mapsto> d)) n" for n
  proof -
    have upd: "find_row (\<lambda>r. rd_name (ro_definition r) = n) t'
        = map_option (\<lambda>r. if ?P r then ?f r else r) (find_row (\<lambda>r. rd_name (ro_definition r) = n) t)"
      unfolding t' by (rule find_row_upd_if) simp
    show ?thesis
    proof (cases "n = rd_name d")
      case True
      then show ?thesis using Some synced r0(2) upd by (simp add: role_view_def)
    next
      case False
      have "\<not> ?P r" if "find_row (\<lambda>r. rd_name (ro_definition r) = n) t = Some r" for r
        using find_row_Some [OF that] False by simp
      then show ?thesis
        using False unfolding role_view_def upd by (cases "find_row (\<lambda>r. rd_name (ro_definition r) = n) t") auto
    qed
  qed
  ultimately show ?thesis using managed by (simp add: fun_eq_iff insert_absorb)
qed

interpretation role_rows: config_table roles_ok "\<lambda>_. True" rd_name "\<lambda>d. d" create_role delete_stale_config_roles role_view role_managed
proof unfold_locales
  show "role_view t n \<noteq> None" if "roles_ok t" "n \<in> role_managed t" for t n
    using that by (auto simp: managed_role role_view_def)
  show "\<exists>t'. create_role d t = Inr t'" for d t by (simp add: create_role_def)
  show "roles_ok t' \<and> role_view t' = role_view t |` (- (role_managed t - set ns)) \<and> role_managed t' = role_managed t \<inter> set ns
      \<and> (role_managed t \<subseteq> set ns \<longrightarrow> k = 0)"
    if ok: "roles_ok t" and del: "delete_stale_config_roles ns t = (k, t')" for t ns k t'
  proof -
    have t': "t' = filter (\<lambda>r. \<not> stale_role ns r) t" and k: "k = affected (stale_role ns) t"
      using del by (simp_all add: delete_stale_config_roles_def)
    have "role_view t' n = (role_view t |` (- (role_managed t - set ns))) n" for n
    proof (cases "find_row (\<lambda>r. rd_name (ro_definition r) = n) t")
      case (Some r)
      then have "rd_name (ro_definition r) = n" by (auto dest: find_row_Some)
      with Some show ?thesis
        by (simp add: role_view_def t' find_keyed_filter [OF ok [unfolded roles_ok_def]] restrict_map_def managed_role [OF ok] stale_role_def)
    qed (simp add: role_view_def t' find_keyed_filter [OF ok [unfolded roles_ok_def]] restrict_map_def)
    moreover have "role_managed t' = role_managed t \<inter> set ns" by (auto simp: role_managed_def t' stale_role_def)
    moreover have "role_managed t \<subseteq> set ns \<longrightarrow> k = 0" by (force simp: k affected_zero role_managed_def stale_role_def)
    moreover have "roles_ok t'" using ok by (simp add: roles_ok_def t' distinct_map_filter)
    ultimately show ?thesis by blast
  qed
qed (rule create_role_effect, assumption+)

definition group_names :: "group_tables \<Rightarrow> string set" where
  "group_names t = fst ` set (fst t)"

definition group_view :: "group_tables \<Rightarrow> string \<Rightarrow> unit option" where
  "group_view t n = (if n \<in> group_names t then Some () else None)"

text \<open>All groups come from the configuration.\<close>

interpretation group_rows: config_table "\<lambda>_. True" "\<lambda>_. True" "\<lambda>n. n" "\<lambda>_. ()" "create_group wall" delete_stale_config_groups
  group_view group_names for wall
proof unfold_locales
  show "True \<and> group_view t' = group_view t |` (- (group_names t - set ns)) \<and> group_names t' = group_names t \<inter> set ns
      \<and> (group_names t \<subseteq> set ns \<longrightarrow> k = 0)" if "delete_stale_config_groups ns t = (k, t')" for t ns k t'
    using that by (auto simp: delete_stale_config_groups_def group_view_def group_names_def restrict_map_def fun_eq_iff affected_zero
        image_iff split: prod.splits) force
qed (auto simp: create_group_def group_view_def group_names_def fun_eq_iff split: prod.splits if_splits)

subsection \<open>What repetition leaves alone\<close>

text \<open>A value is \<open>settled\<close> in a table when writing it once more has no effect; \<open>still\<close> is the part of the table that such a writing must
  not change. The law for the deletion says that nothing at all happens when nothing is stale.\<close>

locale settling_table = config_table ok good ident shown create purge view managed
  for ok :: "'t \<Rightarrow> bool" and good :: "'v \<Rightarrow> bool" and ident :: "'v \<Rightarrow> string" and shown :: "'v \<Rightarrow> 'w"
    and create :: "'v \<Rightarrow> 't \<Rightarrow> app_error + 't" and purge :: "string list \<Rightarrow> 't \<Rightarrow> nat \<times> 't"
    and view :: "'t \<Rightarrow> string \<Rightarrow> 'w option" and managed :: "'t \<Rightarrow> string set" +
  fixes settled :: "'v \<Rightarrow> 't \<Rightarrow> bool" and still :: "'t \<Rightarrow> 's"
  assumes created_settled: "ok t \<Longrightarrow> good v \<Longrightarrow> view t (ident v) = None \<or> ident v \<in> managed t \<Longrightarrow> create v t = Inr t' \<Longrightarrow> settled v t'"
    and settled_other: "ok t \<Longrightarrow> settled v t \<Longrightarrow> ident v' \<noteq> ident v \<Longrightarrow> create v' t = Inr t' \<Longrightarrow> settled v t'"
    and settled_purge: "settled v t \<Longrightarrow> ident v \<in> set ids \<Longrightarrow> purge ids t = (n, t') \<Longrightarrow> settled v t'"
    and settled_still: "ok t \<Longrightarrow> good v \<Longrightarrow> ident v \<in> managed t \<Longrightarrow> settled v t \<Longrightarrow> create v t = Inr t' \<Longrightarrow> still t' = still t"
    and purge_none: "managed t \<subseteq> set ids \<Longrightarrow> purge ids t = (0, t)"
begin

lemma create_all_settled:
  "ok t \<Longrightarrow> clear t vs \<Longrightarrow> inj_on ident (set (us @ vs)) \<Longrightarrow> \<forall>u \<in> set us. settled u t \<Longrightarrow> create_all create vs t = Inr t' \<Longrightarrow>
     \<forall>v \<in> set (us @ vs). settled v t'"
proof (induction vs arbitrary: us t)
  case (Cons v vs)
  then obtain t1 where t1: "create v t = Inr t1" and rest: "create_all create vs t1 = Inr t'" by (auto simp: tryE_Inr)
  from Cons.prems(2) have v: "good v" "view t (ident v) = None \<or> ident v \<in> managed t" by (auto simp: clear_def)
  note effect = create_effect [OF Cons.prems(1) v t1]
  have "clear t1 vs" using Cons.prems(2) effect by (auto simp: clear_def)
  moreover have "settled u t1" if "u \<in> set us" for u
  proof (cases "ident u = ident v")
    case True
    with Cons.prems(3) that have "u = v" by (auto simp: inj_on_def)
    then show ?thesis using created_settled [OF Cons.prems(1) v t1] by simp
  qed (use settled_other [OF Cons.prems(1) _ _ t1] Cons.prems(4) that in metis)
  ultimately show ?case
    using Cons.IH [of t1 "us @ [v]"] effect created_settled [OF Cons.prems(1) v t1] Cons.prems(3) rest by auto
qed simp

lemma reconcile_settles:
  assumes "ok t" and "clear t vs" and "inj_on ident (set vs)" and "reconcile ident create purge vs t = Inr (c, t')"
  shows "\<forall>v \<in> set vs. settled v t'"
proof -
  from assms(4) obtain t1 n where t1: "create_all create vs t = Inr t1" and n: "purge (map ident vs) t1 = (n, t')"
    by (auto simp: reconcile_def tryE_Inr Let_def case_prod_unfold prod_eq_iff)
  have "\<forall>v \<in> set ([] @ vs). settled v t1" by (rule create_all_settled [OF assms(1,2) _ _ t1]) (use assms(3) in simp_all)
  with settled_purge [OF _ _ n] show ?thesis by auto
qed

lemma create_all_still:
  "ok t \<Longrightarrow> \<forall>v \<in> set (us @ vs). good v \<and> ident v \<in> managed t \<and> view t (ident v) = Some (shown v) \<and> settled v t \<Longrightarrow>
   inj_on ident (set (us @ vs)) \<Longrightarrow>
     \<exists>t'. create_all create vs t = Inr t' \<and> still t' = still t \<and> managed t' = managed t"
proof (induction vs arbitrary: us t)
  case (Cons v vs)
  then have v: "good v" "ident v \<in> managed t" "view t (ident v) = Some (shown v)" "settled v t" by auto
  with create_again Cons.prems(1) obtain t1 where t1: "create v t = Inr t1" by blast
  from create_effect [OF Cons.prems(1) v(1) _ t1] v have same: "ok t1" "view t1 = view t" "managed t1 = managed t"
    by (auto simp: fun_upd_idem insert_absorb)
  have "settled u t1" if "u \<in> set (us @ v # vs)" for u
  proof (cases "ident u = ident v")
    case True
    with Cons.prems(3) that have "u = v" by (auto simp: inj_on_def)
    then show ?thesis using created_settled [OF Cons.prems(1) v(1) _ t1] v(2) by simp
  qed (use settled_other [OF Cons.prems(1) _ _ t1] Cons.prems(2) that in metis)
  then obtain t' where "create_all create vs t1 = Inr t'" "still t' = still t1" "managed t' = managed t1"
    using Cons.IH [of t1 "us @ [v]"] Cons.prems(2,3) same by auto
  with t1 same settled_still [OF Cons.prems(1) v(1,2,4) t1] show ?case by auto
qed simp

text \<open>Reconciling a second time.\<close>

lemma reconcile_again:
  assumes "ok t'" and "managed t' = ident ` set vs" and "\<forall>v \<in> set vs. good v \<and> view t' (ident v) = Some (shown v) \<and> settled v t'"
    and "inj_on ident (set vs)"
  shows "\<exists>t''. reconcile ident create purge vs t' = Inr ((0, length vs), t'') \<and> still t'' = still t'"
proof -
  obtain t1 where t1: "create_all create vs t' = Inr t1" "still t1 = still t'" "managed t1 = managed t'"
    using create_all_still [OF assms(1), of "[]" vs] assms(2-4) by auto
  then have "purge (map ident vs) t1 = (0, t1)" using assms(2) by (intro purge_none) simp
  with t1 show ?thesis by (simp add: reconcile_def)
qed

end

definition row_settled :: "('v \<Rightarrow> string) \<Rightarrow> 'v \<Rightarrow> 'v managed list \<Rightarrow> bool" where
  "row_settled ident v t \<longleftrightarrow> (\<exists>r \<in> set t. mr_id r = ident v \<and> mr_value r = v \<and> mr_state r = ''active'')"

lemma delete_stale_none:
  assumes "rows_managed t \<subseteq> set ids"
  shows "delete_stale ids t = (0, t)"
proof -
  have "\<not> stale ids r" if "r \<in> set t" for r
    using assms that by (force simp: stale_def rows_managed_def)
  then show ?thesis by (simp add: delete_stale_def affected_zero filter_True)
qed

lemma upd_where_same: "(\<And>r. r \<in> set t \<Longrightarrow> P r \<Longrightarrow> f r = r) \<Longrightarrow> upd_where P f t = t"
  by (auto simp: upd_where_def intro: map_idI)

lemma unique_row: "distinct (map k t) \<Longrightarrow> r \<in> set t \<Longrightarrow> r' \<in> set t \<Longrightarrow> k r = k r' \<Longrightarrow> r = r'"
  by (auto simp: distinct_map inj_on_def)

context policy_table
begin

lemma created_row_settled:
  assumes "rows_ok key fits t" "fits (ident v) v" "rows_view t (ident v) = None \<or> ident v \<in> rows_managed t" "create v t = Inr t'"
  shows "row_settled ident v t'"
proof (cases "find_row (\<lambda>r. mr_id r = ident v) t")
  case None
  with assms(4) have "t' = t @ [\<lparr> mr_id = ident v, mr_source = ''config'', mr_state = ''active'', mr_value = v \<rparr>]"
    by (auto simp: create_is upsert_managed_def split: if_splits)
  then show ?thesis by (simp add: row_settled_def)
next
  case (Some r)
  with assms(3) have "ident v \<in> rows_managed t" by (auto simp: rows_view_def)
  then have "merge (mr_value r) v = v" by (rule stored_merge [OF assms(1,2) _ Some])
  with Some assms(4) have "t' = upd_where (\<lambda>r. mr_id r = ident v) (\<lambda>r. r\<lparr> mr_value := v, mr_state := ''active'' \<rparr>) t"
    by (auto simp: create_is upsert_managed_def split: if_splits)
  moreover have "r \<in> set t" "mr_id r = ident v" using Some by (auto dest: find_row_Some)
  ultimately have "r\<lparr> mr_value := v, mr_state := ''active'' \<rparr> \<in> set t'" by (force simp: upd_where_def)
  with \<open>mr_id r = ident v\<close> show ?thesis unfolding row_settled_def by (intro bexI) simp_all
qed

lemma other_row_settled:
  assumes "row_settled ident v t" "ident v' \<noteq> ident v" "create v' t = Inr t'"
  shows "row_settled ident v t'"
proof -
  obtain r where r: "r \<in> set t" "mr_id r = ident v" "mr_value r = v" "mr_state r = ''active''" using assms(1) by (auto simp: row_settled_def)
  have "r \<in> set t'"
    using r(1,2) assms(2,3) by (auto simp: create_is upsert_managed_def upd_where_def image_iff Let_def split: option.splits if_splits intro!: bexI [of _ r])
  with r show ?thesis by (auto simp: row_settled_def)
qed

lemma settled_row_same:
  assumes "rows_ok key fits t" "fits (ident v) v" "ident v \<in> rows_managed t" "row_settled ident v t" "create v t = Inr t'"
  shows "t' = t"
proof -
  obtain r where r: "r \<in> set t" "mr_id r = ident v" "mr_value r = v" "mr_state r = ''active''" using assms(4) by (auto simp: row_settled_def)
  have ids: "distinct (map mr_id t)" using assms(1) by (simp add: rows_ok_def)
  then have found: "find_row (\<lambda>r. mr_id r = ident v) t = Some r" using row_of_key [OF ids r(1)] r(2) by simp
  have "merge (mr_value r) v = v" by (rule stored_merge [OF assms(1-3) found])
  with found assms(5) have t': "t' = upd_where (\<lambda>r. mr_id r = ident v) (\<lambda>r. r\<lparr> mr_value := v, mr_state := ''active'' \<rparr>) t"
    by (auto simp: create_is upsert_managed_def split: if_splits)
  have "x = r" if "x \<in> set t" "mr_id x = ident v" for x using unique_row [OF ids that(1) r(1)] that(2) r(2) by simp
  then show ?thesis unfolding t' using r(3,4) by (intro upd_where_same) auto
qed

end

sublocale policy_table \<subseteq> settling_table "rows_ok key fits" "\<lambda>v. fits (ident v) v" ident "\<lambda>v. v" create delete_stale rows_view rows_managed
  "row_settled ident" "\<lambda>t. t"
proof unfold_locales
  show "row_settled ident v t'" if "row_settled ident v t" "ident v \<in> set ids" "delete_stale ids t = (n, t')" for v t ids n t'
    using that by (auto simp: row_settled_def delete_stale_def stale_def)
qed (rule created_row_settled other_row_settled settled_row_same delete_stale_none, assumption+)+

text \<open>A webhook keeps everything but the time of its last update.\<close>

definition hook_settled :: "webhook \<Rightarrow> webhook managed list \<Rightarrow> bool" where
  "hook_settled w t \<longleftrightarrow> (\<exists>r \<in> set t. mr_id r = hk_id w \<and> mr_source r = ''config'' \<and> hook_shown (mr_value r) = hook_shown w)"

definition untimed :: "webhook managed list \<Rightarrow> webhook managed list" where
  "untimed t = map (\<lambda>r. r\<lparr> mr_value := (mr_value r)\<lparr> hk_updated_at := None \<rparr> \<rparr>) t"

definition rewritten_hook :: "(string \<Rightarrow> timestamp) \<Rightarrow> webhook \<Rightarrow> webhook managed \<Rightarrow> webhook managed" where
  "rewritten_hook wall w r = r\<lparr> mr_source := ''config'',
     mr_value := (mr_value r)\<lparr> hk_url := hk_url w, hk_events := hk_events w, hk_format := hk_format w,
       hk_secret := hk_secret w, hk_status := hk_status w, hk_updated_at := Some (wall (hk_id w)) \<rparr> \<rparr>"

lemma create_webhook_cases:
  assumes "create_webhook wall w t = Inr t'"
  obtains "\<forall>r \<in> set t. mr_id r \<noteq> hk_id w" and "t' = t @ [\<lparr> mr_id = hk_id w, mr_source = ''config'', mr_state = ''active'',
      mr_value = w\<lparr> hk_created_at := Some (wall (hk_id w)), hk_updated_at := Some (wall (hk_id w)) \<rparr> \<rparr>]"
  | r where "r \<in> set t" and "mr_id r = hk_id w" and "t' = map (\<lambda>r. if mr_id r = hk_id w then rewritten_hook wall w r else r) t"
  using assms by (auto simp: create_webhook_def list_ex_iff upd_where_def rewritten_hook_def split: if_splits)

interpretation webhook_settles: settling_table "\<lambda>t. distinct (map mr_id t)" "\<lambda>_. True" hk_id hook_shown "create_webhook wall" delete_stale
  hooks_view rows_managed hook_settled untimed for wall
proof unfold_locales
  show "hook_settled v t'" if "create_webhook wall v t = Inr t'" for v t t'
    using that
  proof (cases rule: create_webhook_cases)
    case (2 r)
    then have "rewritten_hook wall v r \<in> set t'" by force
    with 2(2) show ?thesis unfolding hook_settled_def
      by (intro bexI [of _ "rewritten_hook wall v r"]) (simp_all add: rewritten_hook_def hook_shown_def)
  qed (simp add: hook_settled_def hook_shown_def)
  show "hook_settled v t'" if st: "hook_settled v t" and other: "hk_id v' \<noteq> hk_id v" and run: "create_webhook wall v' t = Inr t'" for v v' t t'
  proof -
    obtain r where r: "r \<in> set t" "mr_id r = hk_id v" "mr_source r = ''config''" "hook_shown (mr_value r) = hook_shown v"
      using st by (auto simp: hook_settled_def)
    from run have "r \<in> set t'" by (cases rule: create_webhook_cases) (use r(1,2) other in force)+
    with r show ?thesis by (auto simp: hook_settled_def)
  qed
  show "hook_settled v t'" if "hook_settled v t" "hk_id v \<in> set ids" "delete_stale ids t = (n, t')" for v t ids n t'
    using that by (auto simp: hook_settled_def delete_stale_def stale_def)
  show "untimed t' = untimed t" if ids: "distinct (map mr_id t)" and st: "hook_settled v t" and run: "create_webhook wall v t = Inr t'" for v t t'
  proof -
    obtain r where r: "r \<in> set t" "mr_id r = hk_id v" "mr_source r = ''config''" "hook_shown (mr_value r) = hook_shown v"
      using st by (auto simp: hook_settled_def)
    have same: "(rewritten_hook wall v r)\<lparr> mr_value := (mr_value (rewritten_hook wall v r))\<lparr> hk_updated_at := None \<rparr> \<rparr>
        = r\<lparr> mr_value := (mr_value r)\<lparr> hk_updated_at := None \<rparr> \<rparr>"
      using r(3,4) by (simp add: rewritten_hook_def hook_shown_def)
    have only: "x = r" if "x \<in> set t" "mr_id x = hk_id v" for x using unique_row [OF ids that(1) r(1)] that(2) r(2) by simp
    from run show ?thesis
    proof (cases rule: create_webhook_cases)
      case (2 r')
      then show ?thesis using same only by (auto simp: untimed_def)
    qed (use r(1,2) in blast)
  qed
qed (rule delete_stale_none)

definition role_settled :: "role_definition \<Rightarrow> role_row list \<Rightarrow> bool" where
  "role_settled d t \<longleftrightarrow> (\<exists>r \<in> set t. ro_definition r = d \<and> ro_config_synced r \<and> ro_source r = ''config'')"

interpretation role_settles: settling_table roles_ok "\<lambda>_. True" rd_name "\<lambda>d. d" create_role delete_stale_config_roles role_view role_managed
  role_settled "\<lambda>t. t"
proof unfold_locales
  show "role_settled d t'" if "roles_ok t" "role_view t (rd_name d) = None \<or> rd_name d \<in> role_managed t" "create_role d t = Inr t'" for d t t'
  proof (cases "find_row (\<lambda>r. rd_name (ro_definition r) = rd_name d) t")
    case None
    then have "\<forall>r \<in> set t. rd_name (ro_definition r) \<noteq> rd_name d" by (simp add: find_row_None)
    with that(3) show ?thesis by (auto simp: create_role_def list_ex_iff role_settled_def)
  next
    case (Some r)
    then have r: "r \<in> set t" "rd_name (ro_definition r) = rd_name d" by (auto dest: find_row_Some)
    from Some that(2) have "rd_name d \<in> role_managed t" by (auto simp: role_view_def)
    with Some have synced: "ro_config_synced r" by (simp add: managed_role [OF that(1)])
    let ?r = "r\<lparr> ro_definition := d, ro_config_synced := True, ro_source := ''config'' \<rparr>"
    have "list_ex (\<lambda>r. rd_name (ro_definition r) = rd_name d) t" using r by (auto simp: list_ex_iff)
    with that(3) r synced have "?r \<in> set t'" by (force simp: create_role_def upd_where_def)
    then show ?thesis unfolding role_settled_def by (intro bexI [of _ ?r]) simp_all
  qed
  show "role_settled d t'" if st: "role_settled d t" and other: "rd_name d' \<noteq> rd_name d" and run: "create_role d' t = Inr t'" for d d' t t'
  proof -
    obtain r where r: "r \<in> set t" "ro_definition r = d" "ro_config_synced r" "ro_source r = ''config''" using st by (auto simp: role_settled_def)
    have "r \<in> set t'" using r(1,2) other run by (auto simp: create_role_def upd_where_def image_iff split: if_splits intro!: bexI [of _ r])
    with r show ?thesis by (auto simp: role_settled_def)
  qed
  show "role_settled d t'" if "role_settled d t" "rd_name d \<in> set ns" "delete_stale_config_roles ns t = (n, t')" for d t ns n t'
    using that by (auto simp: role_settled_def delete_stale_config_roles_def stale_role_def)
  show "t' = t" if ok: "roles_ok t" and st: "role_settled d t" and run: "create_role d t = Inr t'" for d t t'
  proof -
    obtain r where r: "r \<in> set t" "ro_definition r = d" "ro_config_synced r" "ro_source r = ''config''" using st by (auto simp: role_settled_def)
    have "x = r" if "x \<in> set t" "rd_name (ro_definition x) = rd_name d" for x
      using unique_row [OF ok [unfolded roles_ok_def] that(1) r(1)] that(2) r(2) by simp
    then have "upd_where (\<lambda>r. rd_name (ro_definition r) = rd_name d \<and> ro_config_synced r)
        (\<lambda>r. r\<lparr> ro_definition := d, ro_config_synced := True, ro_source := ''config'' \<rparr>) t = t"
      using r by (intro upd_where_same) auto
    moreover have "list_ex (\<lambda>r. rd_name (ro_definition r) = rd_name d) t" using r(1,2) by (auto simp: list_ex_iff)
    ultimately show ?thesis using run by (simp add: create_role_def)
  qed
  show "delete_stale_config_roles ns t = (0, t)" if "role_managed t \<subseteq> set ns" for t ns
  proof -
    have "\<not> stale_role ns r" if "r \<in> set t" for r using that \<open>role_managed t \<subseteq> set ns\<close> by (force simp: stale_role_def role_managed_def)
    then show ?thesis by (simp add: delete_stale_config_roles_def affected_zero filter_True)
  qed
qed

text \<open>A group keeps its row and its members.\<close>

interpretation group_settles: settling_table "\<lambda>_. True" "\<lambda>_. True" "\<lambda>n. n" "\<lambda>_. ()" "create_group wall" delete_stale_config_groups
  group_view group_names "\<lambda>n t. n \<in> group_names t" "\<lambda>t. t" for wall
proof unfold_locales
  show "delete_stale_config_groups ns t = (0, t)" if "group_names t \<subseteq> set ns" for t ns
  proof -
    have "\<forall>g \<in> set (fst t). fst g \<in> set ns" using that by (auto simp: group_names_def)
    then have "{g \<in> fst ` set (fst t). g \<notin> set ns} = {}" "filter (\<lambda>g. fst g \<in> set ns) (fst t) = fst t"
      "affected (\<lambda>g. fst g \<notin> set ns) (fst t) = 0" by (auto simp: affected_zero filter_True)
    then show ?thesis by (simp add: delete_stale_config_groups_def case_prod_unfold)
  qed
qed (auto simp: create_group_def group_names_def delete_stale_config_groups_def case_prod_unfold split: if_splits)

lemma sync_groups_members:
  assumes "sync_groups wall names t = Inr (c, t')"
  shows "snd t' = filter (\<lambda>m. \<not> (fst m \<in> group_names t \<and> fst m \<notin> set names)) (snd t)"
    and "g \<in> set (fst t) \<Longrightarrow> fst g \<in> set names \<Longrightarrow> g \<in> set (fst t')"
proof -
  have all: "snd t1 = snd t \<and> set (fst t) \<subseteq> set (fst t1) \<and> group_names t1 = group_names t \<union> set names"
    if "create_all (create_group wall) names t = Inr t1" for t1
    using that
  proof (induction names arbitrary: t)
    case (Cons n names)
    let ?t = "if n \<in> fst ` set (fst t) then t else (fst t @ [(n, wall n)], snd t)"
    have "create_group wall n t = Inr ?t" by (cases t) (simp add: create_group_def)
    with Cons.prems have "create_all (create_group wall) names ?t = Inr t1" by simp
    from Cons.IH [OF this] show ?case by (auto simp: group_names_def split: if_splits)
  qed (auto simp: group_names_def)
  from assms obtain t1 n where t1: "create_all (create_group wall) names t = Inr t1" and "delete_stale_config_groups names t1 = (n, t')"
    by (auto simp: sync_groups_def reconcile_def tryE_Inr Let_def case_prod_unfold prod_eq_iff)
  then have t': "t' = (filter (\<lambda>g. fst g \<in> set names) (fst t1), filter (\<lambda>m. fst m \<notin> {g \<in> fst ` set (fst t1). g \<notin> set names}) (snd t1))"
    by (simp add: delete_stale_config_groups_def case_prod_unfold)
  have "fst m \<in> {g \<in> fst ` set (fst t1). g \<notin> set names} \<longleftrightarrow> fst m \<in> group_names t \<and> fst m \<notin> set names" for m :: "string \<times> string"
    using all [OF t1] by (auto simp: group_names_def)
  then show "snd t' = filter (\<lambda>m. \<not> (fst m \<in> group_names t \<and> fst m \<notin> set names)) (snd t)"
    using all [OF t1] by (simp add: t')
  show "g \<in> set (fst t) \<Longrightarrow> fst g \<in> set names \<Longrightarrow> g \<in> set (fst t')" using all [OF t1] by (auto simp: t')
qed

end
