(* ===== verification/Config_Mirror.thy ===== *)
theory Config_Mirror
  imports Config_Sync
begin

text \<open>
  The effect of a synchronisation as a whole, from the interpretations of \<open>config_table\<close> and
  \<open>settling_table\<close>: the database mirrors the configuration, a repetition changes only times of webhooks and the records of the
  synchronisation itself, and a failure leaves everything as it was.
\<close>

subsection \<open>Databases\<close>

definition database_ids :: "database_def list \<Rightarrow> string list" where
  "database_ids inputs = concat (map (\<lambda>d. map (\<lambda>env. dd_name d @ '':'' @ env) (dd_environments d)) inputs)"

definition listed :: "database_row \<Rightarrow> bool" where
  "listed r \<longleftrightarrow> dr_source r = ''config'' \<and> dr_state r = ''active''"

text \<open>What a registration does to a table with unique identifiers.\<close>

lemma register_rows:
  assumes "distinct (map dr_id t)"
  shows "distinct (map dr_id (register wall db env t))"
    and "dr_id ` set (register wall db env t) = insert (db_str db @ '':'' @ env_str env) (dr_id ` set t)"
    and "r \<in> set (register wall db env t) \<Longrightarrow> dr_id r = db_str db @ '':'' @ env_str env \<Longrightarrow> listed r"
    and "dr_id r \<noteq> db_str db @ '':'' @ env_str env \<Longrightarrow> r \<in> set (register wall db env t) \<longleftrightarrow> r \<in> set t"
proof -
  let ?i = "db_str db @ '':'' @ env_str env"
  have "distinct (map dr_id (register wall db env t)) \<and> dr_id ` set (register wall db env t) = insert ?i (dr_id ` set t)
    \<and> (\<forall>r \<in> set (register wall db env t). dr_id r = ?i \<longrightarrow> listed r)
    \<and> (\<forall>r. dr_id r \<noteq> ?i \<longrightarrow> (r \<in> set (register wall db env t) \<longleftrightarrow> r \<in> set t))"
  proof (cases "list_ex (\<lambda>r. dr_id r = ?i) t")
    case True
    let ?f = "\<lambda>r. r\<lparr> dr_source := ''config'', dr_state := ''active'' \<rparr>"
    have reg: "register wall db env t = upd_where (\<lambda>r. dr_id r = ?i) ?f t" using True by (simp add: register_def Let_def)
    have ids: "map dr_id (register wall db env t) = map dr_id t" unfolding reg by (rule map_upd_where) simp
    then have "dr_id ` set (register wall db env t) = dr_id ` set t" by (metis set_map)
    moreover have "?i \<in> dr_id ` set t" using True by (force simp: list_ex_iff)
    moreover have "listed r" if "r \<in> set (register wall db env t)" "dr_id r = ?i" for r
      using that by (auto simp: reg upd_where_def listed_def split: if_splits)
    moreover have "r \<in> set (register wall db env t) \<longleftrightarrow> r \<in> set t" if "dr_id r \<noteq> ?i" for r
      using that by (auto simp: reg upd_where_def image_iff split: if_splits)
    ultimately show ?thesis using assms ids by auto
  next
    case False
    then have "\<forall>r \<in> set t. dr_id r \<noteq> ?i" by (auto simp: list_ex_iff)
    with False assms show ?thesis by (auto simp: register_def Let_def listed_def)
  qed
  then show "distinct (map dr_id (register wall db env t))"
    "dr_id ` set (register wall db env t) = insert ?i (dr_id ` set t)"
    "r \<in> set (register wall db env t) \<Longrightarrow> dr_id r = ?i \<Longrightarrow> listed r"
    "dr_id r \<noteq> ?i \<Longrightarrow> r \<in> set (register wall db env t) \<longleftrightarrow> r \<in> set t"
    by blast+
qed

lemma register_all_rows:
  assumes "register_all wall ps t = Inr (ids, t')" and "distinct (map dr_id t)"
  shows "ids = map (\<lambda>(name, env). name @ '':'' @ env) ps \<and> distinct (map dr_id t') \<and> dr_id ` set t' = dr_id ` set t \<union> set ids
    \<and> (\<forall>r \<in> set t'. dr_id r \<in> set ids \<longrightarrow> listed r) \<and> (\<forall>r. dr_id r \<notin> set ids \<longrightarrow> (r \<in> set t' \<longleftrightarrow> r \<in> set t))"
  using assms
proof (induction ps arbitrary: t ids)
  case (Cons p ps)
  obtain name env where p: "p = (name, env)" by (cases p)
  from Cons.prems(1) obtain db en ids' where names: "DatabaseName_new name = Inr db" "Environment_new env = Inr en"
    and rest: "register_all wall ps (register wall db en t) = Inr (ids', t')"
    and ids: "ids = (db_str db @ '':'' @ env_str en) # ids'"
    by (auto simp: p tryE_Inr map_err_Inr)
  have texts: "db_str db = name" "env_str en = env"
    using names by (auto simp: DatabaseName_new_def Environment_new_def tryE_Inr validated_new_Inr)
  note reg = register_rows [where wall = wall and db = db and env = en, OF Cons.prems(2)]
  note IH = Cons.IH [OF rest reg(1)]
  show ?case
  proof (intro conjI ballI allI impI)
    fix r assume r: "r \<in> set t'" "dr_id r \<in> set ids"
    show "listed r"
    proof (cases "dr_id r \<in> set ids'")
      case False
      with r IH have "r \<in> set (register wall db en t)" "dr_id r = db_str db @ '':'' @ env_str en" by (auto simp: ids)
      then show ?thesis by (rule reg(3))
    qed (use IH r in blast)
  next
    fix r :: database_row
    assume "dr_id r \<notin> set ids"
    then show "r \<in> set t' \<longleftrightarrow> r \<in> set t" using IH reg(4) by (auto simp: ids)
  qed (use IH reg(2) texts p ids in auto)
qed simp

lemma database_ids_pairs:
  "map (\<lambda>(name, env). name @ '':'' @ env) (concat (map (\<lambda>d. map (Pair (dd_name d)) (dd_environments d)) inputs)) = database_ids inputs"
  by (simp add: database_ids_def map_concat o_def)

text \<open>The configured databases are active rows of the configuration and the only ones; a database that is no longer configured
  is kept, as an orphan, if requests refer to it; other rows are as before.\<close>

definition databases_mirrored :: "string list \<Rightarrow> config_site \<Rightarrow> config_site \<Rightarrow> bool" where
  "databases_mirrored ids z z' \<longleftrightarrow>
     dr_id ` {r \<in> set (cs_databases z'). listed r} = set ids
     \<and> (\<forall>r \<in> set (cs_databases z). dr_id r \<notin> set ids \<longrightarrow>
          (if \<not> listed r then r \<in> set (cs_databases z')
           else if referenced (cs_store z) (dr_id r) then r\<lparr> dr_state := ''orphan'' \<rparr> \<in> set (cs_databases z')
           else dr_id r \<notin> dr_id ` set (cs_databases z')))"

lemma reconcile_databases_rows:
  assumes "reconcile_stale_databases s ids t = (c, t')" and "distinct (map dr_id t)"
  shows "map dr_id t' = map dr_id (filter (\<lambda>r. \<not> (stale_database ids r \<and> \<not> referenced s (dr_id r))) t)"
    and "set t' = {r \<in> set t. \<not> stale_database ids r} \<union> {r\<lparr> dr_state := ''orphan'' \<rparr> | r. r \<in> set t \<and> stale_database ids r \<and> referenced s (dr_id r)}"
proof -
  let ?orphan = "\<lambda>r. stale_database ids r \<and> referenced s (dr_id r)"
  let ?f = "\<lambda>r. if ?orphan r then r\<lparr> dr_state := ''orphan'' \<rparr> else r"
  have t': "t' = filter (\<lambda>r. \<not> (stale_database ids r \<and> \<not> referenced s (dr_id r))) (map ?f t)"
    using assms(1) by (simp add: reconcile_stale_databases_def Let_def upd_where_def)
  have "stale_database ids (?f r) \<and> \<not> referenced s (dr_id (?f r)) \<longleftrightarrow> stale_database ids r \<and> \<not> referenced s (dr_id r)" for r
    by (simp add: stale_database_def)
  then have t'': "t' = map ?f (filter (\<lambda>r. \<not> (stale_database ids r \<and> \<not> referenced s (dr_id r))) t)"
    unfolding t' filter_map comp_def by (intro arg_cong [of _ _ "map ?f"] filter_cong) simp_all
  then show "map dr_id t' = map dr_id (filter (\<lambda>r. \<not> (stale_database ids r \<and> \<not> referenced s (dr_id r))) t)"
    by (simp add: if_distrib [of dr_id] cong: if_cong)
  show "set t' = {r \<in> set t. \<not> stale_database ids r} \<union> {r\<lparr> dr_state := ''orphan'' \<rparr> | r. r \<in> set t \<and> stale_database ids r \<and> referenced s (dr_id r)}"
    unfolding t'' by auto
qed

lemma sync_databases_Inr:
  assumes "sync_databases wall limit inputs z = Inr (c, z')"
  obtains t orphaned deleted all where
    "register_all wall (concat (map (\<lambda>d. map (Pair (dd_name d)) (dd_environments d)) inputs)) (cs_databases z) = Inr (database_ids inputs, t)"
    "reconcile_stale_databases (cs_store z) (database_ids inputs) t = ((orphaned, deleted), cs_databases z')"
    "list_active_databases (cs_databases z') = Inr all" "limit_check ''database'' limit (as_u32 (card (fst ` set all))) = Inr ()"
    "z' = z\<lparr> cs_databases := cs_databases z', cs_store := (cs_store z)\<lparr> st_databases := map dr_id (cs_databases z') \<rparr> \<rparr>"
    "c = (orphaned + deleted, length (database_ids inputs))"
proof -
  from assms obtain ids t where reg: "register_all wall (concat (map (\<lambda>d. map (Pair (dd_name d)) (dd_environments d)) inputs)) (cs_databases z) = Inr (ids, t)"
    by (auto simp: sync_databases_def tryE_Inr)
  have "ids = map (\<lambda>(name, env). name @ '':'' @ env) ps" if "register_all wall ps t0 = Inr (ids, t)" for ps t0
    using that by (induction ps arbitrary: t0 ids)
      (auto simp: tryE_Inr map_err_Inr DatabaseName_new_def Environment_new_def validated_new_Inr)
  from this [OF reg] have ids: "ids = database_ids inputs" unfolding database_ids_pairs .
  obtain orphaned deleted t' where rec: "reconcile_stale_databases (cs_store z) (database_ids inputs) t = ((orphaned, deleted), t')"
    by (metis prod.collapse)
  from assms reg rec obtain all where "list_active_databases t' = Inr all"
    "limit_check ''database'' limit (as_u32 (card (fst ` set all))) = Inr ()" "c = (orphaned + deleted, length (database_ids inputs))"
    and z': "z' = z\<lparr> cs_databases := t', cs_store := (cs_store z)\<lparr> st_databases := map dr_id t' \<rparr> \<rparr>"
    by (auto simp: sync_databases_def tryE_Inr ids)
  moreover from z' have "cs_databases z' = t'" by simp
  ultimately show thesis using that [OF reg [unfolded ids], of orphaned deleted all] rec by simp
qed

lemma sync_databases_effect:
  assumes run: "sync_databases wall limit inputs z = Inr (c, z')" and dist: "distinct (map dr_id (cs_databases z))"
  shows "distinct (map dr_id (cs_databases z'))" and "databases_mirrored (database_ids inputs) z z'"
proof -
  let ?ids = "database_ids inputs"
  from run obtain t c' where
    reg: "register_all wall (concat (map (\<lambda>d. map (Pair (dd_name d)) (dd_environments d)) inputs)) (cs_databases z) = Inr (?ids, t)"
    and rec: "reconcile_stale_databases (cs_store z) ?ids t = (c', cs_databases z')"
    by (rule sync_databases_Inr) auto
  note rows = register_all_rows [OF reg dist]
  then have t: "distinct (map dr_id t)" by blast
  note new = reconcile_databases_rows [OF rec t]
  show "distinct (map dr_id (cs_databases z'))" unfolding new(1) using t by (simp add: distinct_map_filter)
  have stale: "stale_database ?ids r \<longleftrightarrow> listed r \<and> dr_id r \<notin> set ?ids" for r by (auto simp: stale_database_def listed_def)
  show "databases_mirrored ?ids z z'"
    unfolding databases_mirrored_def
  proof (intro conjI ballI impI)
    show "dr_id ` {r \<in> set (cs_databases z'). listed r} = set ?ids"
    proof (intro subset_antisym subsetI)
      fix i assume "i \<in> dr_id ` {r \<in> set (cs_databases z'). listed r}"
      then obtain r where r: "r \<in> set (cs_databases z')" "listed r" and i: "i = dr_id r" by blast
      from r(1) consider "\<not> stale_database ?ids r" | r1 where "r = r1\<lparr> dr_state := ''orphan'' \<rparr>" unfolding new(2) by blast
      then show "i \<in> set ?ids" by cases (use r(2) i in \<open>simp_all add: stale listed_def\<close>)
    next
      fix i assume i: "i \<in> set ?ids"
      with rows have "i \<in> dr_id ` set t" by simp
      then obtain r where r: "r \<in> set t" "i = dr_id r" by blast
      with rows i have "listed r" by blast
      moreover note r
      moreover from calculation i have "r \<in> set (cs_databases z')" by (simp add: new(2) stale)
      ultimately show "i \<in> dr_id ` {r \<in> set (cs_databases z'). listed r}" by blast
    qed
    fix r assume r: "r \<in> set (cs_databases z)" "dr_id r \<notin> set ?ids"
    with rows have rt: "r \<in> set t" by blast
    have "dr_id r \<notin> dr_id ` set (cs_databases z')" if "listed r" "\<not> referenced (cs_store z) (dr_id r)"
      unfolding new(2) using that r(2) unique_row [OF t rt] by (auto simp: stale)
    then show "if \<not> listed r then r \<in> set (cs_databases z')
         else if referenced (cs_store z) (dr_id r) then r\<lparr> dr_state := ''orphan'' \<rparr> \<in> set (cs_databases z')
         else dr_id r \<notin> dr_id ` set (cs_databases z')"
      using rt r(2) by (auto simp: new(2) stale)
  qed
qed

lemma register_again:
  assumes "\<exists>r \<in> set t. dr_id r = db_str db @ '':'' @ env_str env" and "\<forall>r \<in> set t. dr_id r = db_str db @ '':'' @ env_str env \<longrightarrow> listed r"
  shows "register wall db env t = t"
proof -
  let ?i = "db_str db @ '':'' @ env_str env"
  have "list_ex (\<lambda>r. dr_id r = ?i) t" using assms(1) by (auto simp: list_ex_iff)
  then have "register wall db env t = map (\<lambda>r. if dr_id r = ?i then r\<lparr> dr_source := ''config'', dr_state := ''active'' \<rparr> else r) t"
    by (simp add: register_def Let_def upd_where_def)
  also have "\<dots> = t" by (rule map_idI) (use assms(2) in \<open>simp add: listed_def\<close>)
  finally show ?thesis .
qed

lemma register_all_again:
  assumes "register_all wall ps t0 = Inr (ids, t1)" and "\<forall>i \<in> set ids. (\<exists>r \<in> set t. dr_id r = i) \<and> (\<forall>r \<in> set t. dr_id r = i \<longrightarrow> listed r)"
  shows "register_all wall' ps t = Inr (ids, t)"
  using assms
proof (induction ps arbitrary: t0 ids)
  case (Cons p ps)
  obtain name env where p: "p = (name, env)" by (cases p)
  from Cons.prems(1) obtain db en ids' where names: "DatabaseName_new name = Inr db" "Environment_new env = Inr en"
    and rest: "register_all wall ps (register wall db en t0) = Inr (ids', t1)"
    and ids: "ids = (db_str db @ '':'' @ env_str en) # ids'"
    by (auto simp: p tryE_Inr map_err_Inr)
  have "register wall' db en t = t" using Cons.prems(2) by (intro register_again) (auto simp: ids)
  moreover have "register_all wall' ps t = Inr (ids', t)" using Cons.IH [OF rest] Cons.prems(2) by (simp add: ids)
  ultimately show ?case by (simp add: p names ids)
qed simp

lemma reconcile_databases_none:
  assumes "\<forall>r \<in> set t. \<not> stale_database ids r"
  shows "reconcile_stale_databases s ids t = ((0, 0), t)"
proof -
  have "upd_where (\<lambda>r. stale_database ids r \<and> referenced s (dr_id r)) (\<lambda>r. r\<lparr> dr_state := ''orphan'' \<rparr>) t = t"
    using assms by (intro upd_where_none) auto
  moreover have "affected (\<lambda>r. stale_database ids r \<and> referenced s (dr_id r)) t = 0"
    "affected (\<lambda>r. stale_database ids r \<and> \<not> referenced s (dr_id r)) t = 0" using assms by (auto simp: affected_zero)
  moreover have "filter (\<lambda>r. \<not> (stale_database ids r \<and> \<not> referenced s (dr_id r))) t = t" using assms by (intro filter_True) auto
  ultimately show ?thesis by (simp add: reconcile_stale_databases_def Let_def)
qed

lemma sync_databases_again:
  assumes run: "sync_databases wall limit inputs z = Inr (c, z')" and dist: "distinct (map dr_id (cs_databases z))"
    and same: "cs_databases z2 = cs_databases z'" "st_databases (cs_store z2) = map dr_id (cs_databases z')"
  shows "sync_databases wall2 limit inputs z2 = Inr ((0, length (database_ids inputs)), z2)"
proof -
  let ?ids = "database_ids inputs"
  from run obtain t c' all where
    reg: "register_all wall (concat (map (\<lambda>d. map (Pair (dd_name d)) (dd_environments d)) inputs)) (cs_databases z) = Inr (?ids, t)"
    and all: "list_active_databases (cs_databases z') = Inr all" "limit_check ''database'' limit (as_u32 (card (fst ` set all))) = Inr ()"
    by (rule sync_databases_Inr) auto
  note effect = sync_databases_effect [OF run dist]
  have listed: "dr_id ` {r \<in> set (cs_databases z'). listed r} = set ?ids" using effect(2) by (simp add: databases_mirrored_def)
  have "(\<exists>r \<in> set (cs_databases z'). dr_id r = i) \<and> (\<forall>r \<in> set (cs_databases z'). dr_id r = i \<longrightarrow> listed r)" if "i \<in> set ?ids" for i
  proof -
    from that have "i \<in> dr_id ` {r \<in> set (cs_databases z'). listed r}" unfolding listed .
    then obtain r where r: "r \<in> set (cs_databases z')" "i = dr_id r" "listed r" by blast
    have "listed r'" if h: "r' \<in> set (cs_databases z')" "dr_id r' = i" for r'
    proof -
      have "r' = r" by (rule unique_row [OF effect(1) h(1) r(1)]) (simp add: h(2) r(2))
      with r(3) show ?thesis by simp
    qed
    with r(1,2) show ?thesis by blast
  qed
  then have "register_all wall2 (concat (map (\<lambda>d. map (Pair (dd_name d)) (dd_environments d)) inputs)) (cs_databases z') = Inr (?ids, cs_databases z')"
    by (intro register_all_again [OF reg]) blast
  moreover have "reconcile_stale_databases (cs_store z2) ?ids (cs_databases z') = ((0, 0), cs_databases z')"
  proof (intro reconcile_databases_none ballI)
    fix r assume "r \<in> set (cs_databases z')"
    then show "\<not> stale_database ?ids r" using listed by (auto simp: stale_database_def listed_def)
  qed
  moreover have "z2\<lparr> cs_databases := cs_databases z', cs_store := (cs_store z2)\<lparr> st_databases := map dr_id (cs_databases z') \<rparr> \<rparr> = z2"
    unfolding same(2) [symmetric] unfolding same(1) [symmetric] by simp
  ultimately show ?thesis using all by (simp add: sync_databases_def same(1))
qed

subsection \<open>The other tables\<close>

text \<open>Reading and writing one by one is reading all, then writing all.\<close>

lemma parse_and_create_all:
  "collect parse xs = Inr vs \<Longrightarrow> parse_and_create parse create xs t = tryE (create_all create vs t) (\<lambda>t'. Inr (vs, t'))"
proof (induction xs arbitrary: vs t)
  case (Cons x xs)
  then obtain v vs' where "parse x = Inr v" "collect parse xs = Inr vs'" "vs = v # vs'" by (auto simp: tryE_Inr)
  with Cons.IH show ?case by (cases "create v t") (auto simp: tryE_def split: sum.splits)
qed simp

lemma parse_and_reconcile:
  "collect parse xs = Inr vs \<Longrightarrow>
     tryE (parse_and_create parse create xs t) (\<lambda>(vs, t'). let (deleted, t'') = purge (map ident vs) t' in Inr ((deleted, length vs), t''))
       = reconcile ident create purge vs t"
  by (simp add: parse_and_create_all reconcile_def tryE_def split: sum.split)

text \<open>What the configuration asks for.\<close>

record desired =
  de_roles :: "role_definition list"
  de_webhooks :: "webhook list"
  de_workflows :: "workflow list"
  de_execution_policies :: "execution_policy list"
  de_review_policies :: "review_policy list"
  de_result_policies :: "result_policy list"
  de_notification_policies :: "notification_policy list"

definition asks_for :: "sync_env \<Rightarrow> sync_input \<Rightarrow> desired \<Rightarrow> bool" where
  "asks_for env input d \<longleftrightarrow>
     collect parse_role (sy_roles input) = Inr (de_roles d)
     \<and> collect (parse_webhook (se_validate_url env) (se_clock env 0)) (sy_webhooks input) = Inr (de_webhooks d)
     \<and> parse_workflows (se_lib env) (se_aa_read env) (sy_workflows input) = Inr (de_workflows d)
     \<and> parse_execution_policies (sy_execution_policies input) = Inr (de_execution_policies d)
     \<and> collect parse_review_policy (List.enumerate 0 (sy_sql_review input)) = Inr (de_review_policies d)
     \<and> collect parse_result_policy (List.enumerate 0 (sy_result_policies input)) = Inr (de_result_policies d)
     \<and> collect parse_notification_policy (List.enumerate 0 (sy_notification_policies input)) = Inr (de_notification_policies d)"

text \<open>A successful synchronisation is the composition of the reconciliations.\<close>

lemma then_on_table:
  "thenT (on_table get upd f) k z = Inr r \<longleftrightarrow> (\<exists>x t. f (get z) = Inr (x, t) \<and> k x (upd (\<lambda>_. t) z) = Inr r)"
  by (auto simp: thenT_def on_table_def tryE_Inr)

lemma then_within_limit:
  "thenT (within_limit what limit have) k z = Inr r \<longleftrightarrow> limit_check what limit (have z) = Inr () \<and> k () z = Inr r"
  by (auto simp: thenT_def within_limit_def tryE_Inr)

text \<open>The tables after all the steps, given the site after the databases were synchronised.\<close>

definition with_tables :: "config_site \<Rightarrow> config_site \<Rightarrow> config_site" where
  "with_tables z1 z' =
     z1\<lparr> cs_groups := cs_groups z', cs_roles := cs_roles z', cs_webhooks := cs_webhooks z', cs_workflows := cs_workflows z',
        cs_execution_policies := cs_execution_policies z', cs_review_policies := cs_review_policies z',
        cs_result_policies := cs_result_policies z', cs_notification_policies := cs_notification_policies z' \<rparr>"

lemma sync_all_inner_Inr:
  assumes "sync_all_inner env input z = Inr (s, z')"
  obtains z1 where "sync_databases (se_wall env) (se_max_databases env) (sy_databases input) z = Inr (sm_databases s, z1)"
    "sync_groups (se_wall env) (sy_groups input) (cs_groups z1) = Inr (sm_groups s, cs_groups z')"
    "sync_roles (sy_roles input) (cs_roles z1) = Inr (sm_roles s, cs_roles z')"
    "limit_check ''role'' (se_max_roles env) (as_u32 (length (cs_roles z'))) = Inr ()"
    "sync_webhooks (se_wall env) (se_validate_url env) (se_clock env 0) (sy_webhooks input) (cs_webhooks z1)
       = Inr (sm_webhooks s, cs_webhooks z')"
    "limit_check ''webhook'' (se_max_webhooks env) (as_u32 (length (list_active_webhooks (cs_webhooks z')))) = Inr ()"
    "sync_workflows (se_lib env) (se_aa_read env) (sy_workflows input) (cs_workflows z1) = Inr (sm_workflows s, cs_workflows z')"
    "limit_check ''workflow'' (se_max_workflows env) (as_u32 (length (cs_workflows z'))) = Inr ()"
    "sync_execution_policies (sy_execution_policies input) (cs_execution_policies z1)
       = Inr (sm_execution_policies s, cs_execution_policies z')"
    "sync_sql_review_policies (sy_sql_review input) (cs_review_policies z1) = Inr (sm_sql_review_policies s, cs_review_policies z')"
    "sync_result_policies (sy_result_policies input) (cs_result_policies z1) = Inr (sm_result_policies s, cs_result_policies z')"
    "sync_notification_policies (sy_notification_policies input) (cs_notification_policies z1)
       = Inr (sm_notification_policies s, cs_notification_policies z')"
    "z' = with_tables z1 z'"
proof -
  have "\<exists>z1. sync_databases (se_wall env) (se_max_databases env) (sy_databases input) z = Inr (sm_databases s, z1)
       \<and> sync_groups (se_wall env) (sy_groups input) (cs_groups z1) = Inr (sm_groups s, cs_groups z')
       \<and> sync_roles (sy_roles input) (cs_roles z1) = Inr (sm_roles s, cs_roles z')
       \<and> limit_check ''role'' (se_max_roles env) (as_u32 (length (cs_roles z'))) = Inr ()
       \<and> sync_webhooks (se_wall env) (se_validate_url env) (se_clock env 0) (sy_webhooks input) (cs_webhooks z1)
           = Inr (sm_webhooks s, cs_webhooks z')
       \<and> limit_check ''webhook'' (se_max_webhooks env) (as_u32 (length (list_active_webhooks (cs_webhooks z')))) = Inr ()
       \<and> sync_workflows (se_lib env) (se_aa_read env) (sy_workflows input) (cs_workflows z1) = Inr (sm_workflows s, cs_workflows z')
       \<and> limit_check ''workflow'' (se_max_workflows env) (as_u32 (length (cs_workflows z'))) = Inr ()
       \<and> sync_execution_policies (sy_execution_policies input) (cs_execution_policies z1)
           = Inr (sm_execution_policies s, cs_execution_policies z')
       \<and> sync_sql_review_policies (sy_sql_review input) (cs_review_policies z1) = Inr (sm_sql_review_policies s, cs_review_policies z')
       \<and> sync_result_policies (sy_result_policies input) (cs_result_policies z1) = Inr (sm_result_policies s, cs_result_policies z')
       \<and> sync_notification_policies (sy_notification_policies input) (cs_notification_policies z1)
           = Inr (sm_notification_policies s, cs_notification_policies z')
       \<and> z' = with_tables z1 z'"
  proof -
    from assms obtain c1 z1 where z1: "sync_databases (se_wall env) (se_max_databases env) (sy_databases input) z = Inr (c1, z1)"
      unfolding sync_all_inner_def thenT_Inr by blast
    note rest = assms [unfolded sync_all_inner_def thenT_eval(1) [where m = "sync_databases _ _ _", OF z1] then_on_table then_within_limit doneT_def sum.inject prod.inject]
    show ?thesis using rest
      by (elim exE conjE) (hypsubst, rule exI [of _ z1], simp add: z1 with_tables_def)
  qed
  then show thesis using that by blast
qed

lemma sync_all_inner_run:
  assumes "sync_databases (se_wall env) (se_max_databases env) (sy_databases input) z = Inr (c1, z1)"
    "sync_groups (se_wall env) (sy_groups input) (cs_groups z1) = Inr (c2, t2)"
    "sync_roles (sy_roles input) (cs_roles z1) = Inr (c3, t3)"
    "limit_check ''role'' (se_max_roles env) (as_u32 (length t3)) = Inr ()"
    "sync_webhooks (se_wall env) (se_validate_url env) (se_clock env 0) (sy_webhooks input) (cs_webhooks z1) = Inr (c4, t4)"
    "limit_check ''webhook'' (se_max_webhooks env) (as_u32 (length (list_active_webhooks t4))) = Inr ()"
    "sync_workflows (se_lib env) (se_aa_read env) (sy_workflows input) (cs_workflows z1) = Inr (c5, t5)"
    "limit_check ''workflow'' (se_max_workflows env) (as_u32 (length t5)) = Inr ()"
    "sync_execution_policies (sy_execution_policies input) (cs_execution_policies z1) = Inr (c6, t6)"
    "sync_sql_review_policies (sy_sql_review input) (cs_review_policies z1) = Inr (c7, t7)"
    "sync_result_policies (sy_result_policies input) (cs_result_policies z1) = Inr (c8, t8)"
    "sync_notification_policies (sy_notification_policies input) (cs_notification_policies z1) = Inr (c9, t9)"
  shows "sync_all_inner env input z =
    Inr (\<lparr> sm_databases = c1, sm_groups = c2, sm_roles = c3, sm_webhooks = c4, sm_workflows = c5, sm_execution_policies = c6,
           sm_sql_review_policies = c7, sm_result_policies = c8, sm_notification_policies = c9 \<rparr>,
         z1\<lparr> cs_groups := t2, cs_roles := t3, cs_webhooks := t4, cs_workflows := t5, cs_execution_policies := t6,
            cs_review_policies := t7, cs_result_policies := t8, cs_notification_policies := t9 \<rparr>)"
  by (simp add: sync_all_inner_def thenT_def on_table_def within_limit_def doneT_def assms)

subsection \<open>The database mirrors the configuration\<close>

text \<open>The managed rows of a table are the given values and the other rows are as before; a later value wins over an earlier one
  with the same identifier.\<close>

definition mirrors ::
  "('t \<Rightarrow> string \<Rightarrow> 'w option) \<Rightarrow> ('t \<Rightarrow> string set) \<Rightarrow> ('v \<Rightarrow> string) \<Rightarrow> ('v \<Rightarrow> 'w) \<Rightarrow> 'v list \<Rightarrow> 't \<Rightarrow> 't \<Rightarrow> bool" where
  "mirrors view managed ident shown vs t t' \<longleftrightarrow>
     managed t' = ident ` set vs
     \<and> view t' = (view t |` (- managed t)) ++ map_of (rev (map (\<lambda>v. (ident v, shown v)) vs))"

text \<open>No value has the identifier of a row that is managed otherwise.\<close>

definition unclaimed :: "('t \<Rightarrow> string \<Rightarrow> 'w option) \<Rightarrow> ('t \<Rightarrow> string set) \<Rightarrow> ('v \<Rightarrow> string) \<Rightarrow> 'v list \<Rightarrow> 't \<Rightarrow> bool" where
  "unclaimed view managed ident vs t \<longleftrightarrow> (\<forall>v \<in> set vs. view t (ident v) = None \<or> ident v \<in> managed t)"

context config_table
begin

lemma reconcile_mirrors:
  assumes "ok t" and "\<And>v. v \<in> set vs \<Longrightarrow> good v" and "unclaimed view managed ident vs t"
    and "reconcile ident create purge vs t = Inr (c, t')"
  shows "ok t' \<and> mirrors view managed ident shown vs t t'"
proof -
  have "clear t vs" using assms(2,3) by (simp add: clear_def unclaimed_def)
  from reconcile_effect [OF assms(1) this assms(4)] show ?thesis by (simp add: mirrors_def)
qed

end

definition tables_ok :: "config_site \<Rightarrow> bool" where
  "tables_ok z \<longleftrightarrow>
     distinct (map dr_id (cs_databases z)) \<and> roles_ok (cs_roles z) \<and> distinct (map mr_id (cs_webhooks z))
     \<and> rows_ok (\<lambda>w. (wf_database w, wf_environment w, wf_operations w)) (fits_scope ''wf:'' wf_database wf_environment) (cs_workflows z)
     \<and> rows_ok (\<lambda>p. (ep_database p, ep_environment p)) (fits_scope ''ep:'' ep_database ep_environment) (cs_execution_policies z)
     \<and> rows_ok (\<lambda>p. (vp_database p, vp_environment p)) (\<lambda>_ _. True) (cs_review_policies z)
     \<and> rows_ok (\<lambda>p. (rp_database p, rp_environment p)) (fits_scope ''rp:'' rp_database rp_environment) (cs_result_policies z)
     \<and> rows_ok (\<lambda>p. (np_database p, np_environment p)) (fits_scope ''np:'' np_database np_environment) (cs_notification_policies z)"

definition no_clash :: "desired \<Rightarrow> config_site \<Rightarrow> bool" where
  "no_clash d z \<longleftrightarrow>
     unclaimed role_view role_managed rd_name (de_roles d) (cs_roles z)
     \<and> unclaimed hooks_view rows_managed hk_id (de_webhooks d) (cs_webhooks z)
     \<and> unclaimed rows_view rows_managed wf_id (de_workflows d) (cs_workflows z)
     \<and> unclaimed rows_view rows_managed ep_id (de_execution_policies d) (cs_execution_policies z)
     \<and> unclaimed rows_view rows_managed vp_id (de_review_policies d) (cs_review_policies z)
     \<and> unclaimed rows_view rows_managed rp_id (de_result_policies d) (cs_result_policies z)
     \<and> unclaimed rows_view rows_managed np_id (de_notification_policies d) (cs_notification_policies z)"

text \<open>The tables of a site against what the configuration asks for. A group that stays keeps its row and its members; the members of a
  group that goes are deleted with it.\<close>

definition site_mirrors :: "sync_input \<Rightarrow> desired \<Rightarrow> config_site \<Rightarrow> config_site \<Rightarrow> bool" where
  "site_mirrors input d z z' \<longleftrightarrow>
     databases_mirrored (database_ids (sy_databases input)) z z'
     \<and> group_names (cs_groups z') = set (sy_groups input)
     \<and> (\<forall>g \<in> set (fst (cs_groups z)). fst g \<in> set (sy_groups input) \<longrightarrow> g \<in> set (fst (cs_groups z')))
     \<and> snd (cs_groups z')
         = filter (\<lambda>m. \<not> (fst m \<in> group_names (cs_groups z) \<and> fst m \<notin> set (sy_groups input))) (snd (cs_groups z))
     \<and> mirrors role_view role_managed rd_name (\<lambda>r. r) (de_roles d) (cs_roles z) (cs_roles z')
     \<and> mirrors hooks_view rows_managed hk_id hook_shown (de_webhooks d) (cs_webhooks z) (cs_webhooks z')
     \<and> mirrors rows_view rows_managed wf_id (\<lambda>w. w) (de_workflows d) (cs_workflows z) (cs_workflows z')
     \<and> mirrors rows_view rows_managed ep_id (\<lambda>p. p) (de_execution_policies d) (cs_execution_policies z) (cs_execution_policies z')
     \<and> mirrors rows_view rows_managed vp_id (\<lambda>p. p) (de_review_policies d) (cs_review_policies z) (cs_review_policies z')
     \<and> mirrors rows_view rows_managed rp_id (\<lambda>p. p) (de_result_policies d) (cs_result_policies z) (cs_result_policies z')
     \<and> mirrors rows_view rows_managed np_id (\<lambda>p. p) (de_notification_policies d) (cs_notification_policies z)
         (cs_notification_policies z')"

lemma collect_values: "collect f xs = Inr vs \<Longrightarrow> v \<in> set vs \<Longrightarrow> \<exists>x \<in> set xs. f x = Inr v"
  by (induction xs arbitrary: vs) (auto simp: tryE_Inr)

text \<open>The parsed values have identifiers that fit their scopes.\<close>

lemma asked_fits:
  assumes "asks_for env input d"
  shows "w \<in> set (de_workflows d) \<Longrightarrow> fits_scope ''wf:'' wf_database wf_environment (wf_id w) w"
    and "p \<in> set (de_execution_policies d) \<Longrightarrow> fits_scope ''ep:'' ep_database ep_environment (ep_id p) p"
    and "r \<in> set (de_result_policies d) \<Longrightarrow> fits_scope ''rp:'' rp_database rp_environment (rp_id r) r"
    and "n \<in> set (de_notification_policies d) \<Longrightarrow> fits_scope ''np:'' np_database np_environment (np_id n) n"
proof -
  from assms have parsed:
    "parse_workflows (se_lib env) (se_aa_read env) (sy_workflows input) = Inr (de_workflows d)"
    "parse_execution_policies (sy_execution_policies input) = Inr (de_execution_policies d)"
    "collect parse_result_policy (List.enumerate 0 (sy_result_policies input)) = Inr (de_result_policies d)"
    "collect parse_notification_policy (List.enumerate 0 (sy_notification_policies input)) = Inr (de_notification_policies d)"
    by (simp_all add: asks_for_def)
  from parsed(2) have eps: "collect parse_execution_policy (List.enumerate 0 (sy_execution_policies input)) = Inr (de_execution_policies d)"
    by (auto simp: parse_execution_policies_def tryE_Inr)
  show "w \<in> set (de_workflows d) \<Longrightarrow> fits_scope ''wf:'' wf_database wf_environment (wf_id w) w"
    using collect_values [OF parsed(1) [unfolded parse_workflows_def]] parsed_fits(1) by blast
  show "p \<in> set (de_execution_policies d) \<Longrightarrow> fits_scope ''ep:'' ep_database ep_environment (ep_id p) p"
    using collect_values [OF eps, of p] parsed_fits(2) by fast
  show "r \<in> set (de_result_policies d) \<Longrightarrow> fits_scope ''rp:'' rp_database rp_environment (rp_id r) r"
    using collect_values [OF parsed(3), of r] parsed_fits(3) by fast
  show "n \<in> set (de_notification_policies d) \<Longrightarrow> fits_scope ''np:'' np_database np_environment (np_id n) n"
    using collect_values [OF parsed(4), of n] parsed_fits(4) by fast
qed

text \<open>The reconciliation of each table, given what was asked for.\<close>

lemma sync_reconciles:
  assumes "asks_for env input d"
  shows "sync_roles (sy_roles input) t1 = reconcile rd_name create_role delete_stale_config_roles (de_roles d) t1"
    and "sync_webhooks (se_wall env) (se_validate_url env) (se_clock env 0) (sy_webhooks input) t2
      = reconcile hk_id (create_webhook (se_wall env)) delete_stale (de_webhooks d) t2"
    and "sync_workflows (se_lib env) (se_aa_read env) (sy_workflows input) t3 = reconcile wf_id create_workflow delete_stale (de_workflows d) t3"
    and "sync_execution_policies (sy_execution_policies input) t4
      = reconcile ep_id create_execution_policy delete_stale (de_execution_policies d) t4"
    and "sync_sql_review_policies (sy_sql_review input) t5
      = reconcile vp_id create_sql_review_policy delete_stale (de_review_policies d) t5"
    and "sync_result_policies (sy_result_policies input) t6 = reconcile rp_id create_result_policy delete_stale (de_result_policies d) t6"
    and "sync_notification_policies (sy_notification_policies input) t7
      = reconcile np_id create_notification_policy delete_stale (de_notification_policies d) t7"
proof -
  from assms have "collect parse_role (sy_roles input) = Inr (de_roles d)"
    "collect parse_review_policy (List.enumerate 0 (sy_sql_review input)) = Inr (de_review_policies d)" by (simp_all add: asks_for_def)
  then show "sync_roles (sy_roles input) t1 = reconcile rd_name create_role delete_stale_config_roles (de_roles d) t1"
    "sync_sql_review_policies (sy_sql_review input) t5 = reconcile vp_id create_sql_review_policy delete_stale (de_review_policies d) t5"
    unfolding sync_roles_def sync_sql_review_policies_def by (simp_all only: parse_and_reconcile)
qed (use assms in \<open>simp_all add: asks_for_def sync_webhooks_def sync_workflows_def sync_execution_policies_def
      sync_result_policies_def sync_notification_policies_def\<close>)

lemma sync_databases_frame:
  assumes "sync_databases wall limit inputs z = Inr (c, z')"
  shows "cs_groups z' = cs_groups z \<and> cs_roles z' = cs_roles z \<and> cs_webhooks z' = cs_webhooks z \<and> cs_workflows z' = cs_workflows z
    \<and> cs_execution_policies z' = cs_execution_policies z \<and> cs_review_policies z' = cs_review_policies z
    \<and> cs_result_policies z' = cs_result_policies z \<and> cs_notification_policies z' = cs_notification_policies z
    \<and> st_requests (cs_store z') = st_requests (cs_store z) \<and> st_databases (cs_store z') = map dr_id (cs_databases z')"
proof -
  from assms obtain t where "z' = z\<lparr> cs_databases := t, cs_store := (cs_store z)\<lparr> st_databases := map dr_id t \<rparr> \<rparr>"
    by (rule sync_databases_Inr) blast
  then show ?thesis by simp
qed

lemma sync_all_inner_mirrors:
  assumes ok: "tables_ok z" and run: "sync_all_inner env input z = Inr (s, z')" and asked: "asks_for env input d" and free: "no_clash d z"
  shows "site_mirrors input d z z' \<and> tables_ok z'"
proof -
  from run obtain z1 where dbs: "sync_databases (se_wall env) (se_max_databases env) (sy_databases input) z = Inr (sm_databases s, z1)"
    and steps: "sync_groups (se_wall env) (sy_groups input) (cs_groups z1) = Inr (sm_groups s, cs_groups z')"
      "sync_roles (sy_roles input) (cs_roles z1) = Inr (sm_roles s, cs_roles z')"
      "sync_webhooks (se_wall env) (se_validate_url env) (se_clock env 0) (sy_webhooks input) (cs_webhooks z1) = Inr (sm_webhooks s, cs_webhooks z')"
      "sync_workflows (se_lib env) (se_aa_read env) (sy_workflows input) (cs_workflows z1) = Inr (sm_workflows s, cs_workflows z')"
      "sync_execution_policies (sy_execution_policies input) (cs_execution_policies z1)
        = Inr (sm_execution_policies s, cs_execution_policies z')"
      "sync_sql_review_policies (sy_sql_review input) (cs_review_policies z1) = Inr (sm_sql_review_policies s, cs_review_policies z')"
      "sync_result_policies (sy_result_policies input) (cs_result_policies z1) = Inr (sm_result_policies s, cs_result_policies z')"
      "sync_notification_policies (sy_notification_policies input) (cs_notification_policies z1)
        = Inr (sm_notification_policies s, cs_notification_policies z')"
    and z': "z' = with_tables z1 z'"
    by (rule sync_all_inner_Inr)
  note members = sync_groups_members [OF steps(1)]
  note steps = steps [unfolded sync_reconciles [OF asked] sync_groups_def]
  note frame = sync_databases_frame [OF dbs]
  have dbs': "cs_databases z' = cs_databases z1" by (subst z') (simp add: with_tables_def)
  from ok have ids: "distinct (map dr_id (cs_databases z))" by (simp add: tables_ok_def)
  note databases = sync_databases_effect [OF dbs ids]
  have groups: "group_names (cs_groups z') = set (sy_groups input)"
    using group_rows.reconcile_mirrors [OF _ _ _ steps(1)] by (simp add: mirrors_def unclaimed_def group_view_def)
  note tables = role_rows.reconcile_mirrors [OF _ _ _ steps(2)] webhook_rows.reconcile_mirrors [OF _ _ _ steps(3)]
    workflow_rows.reconcile_mirrors [OF _ _ _ steps(4)] execution_rows.reconcile_mirrors [OF _ _ _ steps(5)]
    review_rows.reconcile_mirrors [OF _ _ _ steps(6)] result_rows.reconcile_mirrors [OF _ _ _ steps(7)]
    notification_rows.reconcile_mirrors [OF _ _ _ steps(8)]
  have "databases_mirrored (database_ids (sy_databases input)) z z'" using databases(2) by (simp add: databases_mirrored_def dbs')
  then show ?thesis
    using ok free frame groups members databases(1) tables asked_fits [OF asked]
    by (simp add: site_mirrors_def tables_ok_def no_clash_def dbs')
qed

subsection \<open>The transaction\<close>

lemma sync_tx_Inr:
  assumes "sync_tx env input z = Inr (s, z')"
  obtains z1 g a where "sync_all_inner env input z = Inr (s, z1)"
    and "z' = z1\<lparr> cs_generations := cs_generations z1 @ [g], cs_store := (cs_store z1)\<lparr> st_audit := a \<rparr> \<rparr>"
proof -
  from assms obtain z1 g u s1 where "sync_all_inner env input z = Inr (s, z1)"
    and rec: "record_event (se_lib env) (se_audit env) (audit_event_simple ''config.synced'' ''policy'' ''system'' None (se_clock env 1) CtxSystem)
      (cs_store z1) = Inr (u, s1)"
    and "z' = z1\<lparr> cs_generations := cs_generations z1 @ [g], cs_store := s1 \<rparr>"
    by (auto simp: sync_tx_def thenT_Inr tryE_Inr Let_def)
  moreover from rec obtain a where "s1 = (cs_store z1)\<lparr> st_audit := a \<rparr>" by (rule record_event_Inr)
  ultimately show thesis using that by simp
qed

lemma sync_all_outcome:
  assumes "sync_all env faults input z = (r, z')"
  shows "(z' = z \<and> (\<exists>e. r = Inl e))
    \<or> (\<exists>s. sync_tx env input z = Inr (s, z') \<and> r = (case se_reload_error env of None \<Rightarrow> Inr s
          | Some msg \<Rightarrow> Inl (Internal (''notifier reload failed (DB committed, restart required): '' @ msg))))"
proof (cases "run_in_tx faults (sync_tx env input) z")
  case (Pair r1 z1)
  show ?thesis
  proof (cases r1)
    case (Inl e)
    with Pair have "z1 = z" by (auto dest: uow.fails)
    with Inl Pair assms show ?thesis by (auto simp: sync_all_def)
  next
    case (Inr s)
    with Pair have "sync_tx env input z = Inr (s, z1)" by (auto dest: uow.commits)
    with Inr Pair assms show ?thesis by (auto simp: sync_all_def split: option.splits)
  qed
qed

text \<open>A synchronisation that fails leaves the database as it was, unless the transaction was committed and only the notifier
  could not be reloaded; then the database is that of the successful synchronisation and the error says so.\<close>

theorem failed_sync_leaves_database:
  assumes "sync_all env faults input z = (Inl e, z')"
  shows "z' = z
    \<or> (\<exists>s msg. sync_tx env input z = Inr (s, z') \<and> se_reload_error env = Some msg
         \<and> e = Internal (''notifier reload failed (DB committed, restart required): '' @ msg))"
  using sync_all_outcome [OF assms] by (auto split: option.splits)

text \<open>C8: After a successful synchronisation the database mirrors the configuration. The active databases of the configuration are
  exactly the configured pairs, a database no longer configured is deleted, or kept as an orphan if requests refer to it. The
  groups are the configured ones; a group that was there before keeps its row and its members, and no membership changes but that the
  members of a removed group go with it. In each of the seven tables of roles, webhooks, workflows, execution, review, result and
  notification policies the rows managed by the configuration are exactly the configured values, the last one winning for each
  identifier, and the rows managed otherwise are untouched, provided that no configured value has the identifier of a row managed
  otherwise (\<open>no_clash\<close>). The uniqueness of identifiers and keys is kept.\<close>

theorem config_sync_exact:
  assumes "tables_ok z" and "sync_all env faults input z = (Inr s, z')" and "asks_for env input d" and "no_clash d z"
  shows "site_mirrors input d z z' \<and> tables_ok z'"
proof -
  from sync_all_outcome [OF assms(2)] have "sync_tx env input z = Inr (s, z')" by (auto split: option.splits)
  then obtain z1 g a where z1: "sync_all_inner env input z = Inr (s, z1)"
    and z': "z' = z1\<lparr> cs_generations := cs_generations z1 @ [g], cs_store := (cs_store z1)\<lparr> st_audit := a \<rparr> \<rparr>"
    by (rule sync_tx_Inr)
  from sync_all_inner_mirrors [OF assms(1) z1 assms(3,4)] show ?thesis
    by (simp add: z' site_mirrors_def databases_mirrored_def tables_ok_def)
qed

text \<open>The store and its list of databases agree.\<close>

definition store_backed :: "config_site \<Rightarrow> bool" where
  "store_backed z \<longleftrightarrow> store_ok (cs_store z) \<and> distinct (map dr_id (cs_databases z)) \<and> st_databases (cs_store z) = map dr_id (cs_databases z)"

lemma referenced_kept:
  assumes "databases_mirrored ids z z'" "i \<in> dr_id ` set (cs_databases z)" "referenced (cs_store z) i"
  shows "i \<in> dr_id ` set (cs_databases z')"
proof (cases "i \<in> set ids")
  case True
  with assms(1) have "i \<in> dr_id ` {r \<in> set (cs_databases z'). listed r}" by (simp add: databases_mirrored_def)
  then show ?thesis by blast
next
  case False
  from assms(2) obtain r where r: "r \<in> set (cs_databases z)" "i = dr_id r" by blast
  with assms(1) False have "if \<not> listed r then r \<in> set (cs_databases z')
      else if referenced (cs_store z) (dr_id r) then r\<lparr> dr_state := ''orphan'' \<rparr> \<in> set (cs_databases z')
      else dr_id r \<notin> dr_id ` set (cs_databases z')" by (simp add: databases_mirrored_def)
  then have "r \<in> set (cs_databases z') \<or> r\<lparr> dr_state := ''orphan'' \<rparr> \<in> set (cs_databases z')"
    using assms(3) r(2) by (auto split: if_splits)
  moreover have "dr_id (r\<lparr> dr_state := ''orphan'' \<rparr>) = i" using r(2) by simp
  ultimately show ?thesis using r(2) by (metis image_eqI)
qed

lemma sync_databases_store:
  assumes "sync_databases wall limit inputs z = Inr (c, z')" and "store_backed z"
  shows "store_backed z'"
proof -
  from assms(2) have backed: "store_ok (cs_store z)" "distinct (map dr_id (cs_databases z))" "st_databases (cs_store z) = map dr_id (cs_databases z)"
    by (simp_all add: store_backed_def)
  note effect = sync_databases_effect [OF assms(1) backed(2)]
  from assms(1) obtain t where z': "z' = z\<lparr> cs_databases := t, cs_store := (cs_store z)\<lparr> st_databases := map dr_id t \<rparr> \<rparr>"
    by (rule sync_databases_Inr) blast
  have "rq_database_id r \<in> dr_id ` set t" if r: "r \<in> set (st_requests (cs_store z))" for r
  proof -
    have "rq_database_id r \<in> dr_id ` set (cs_databases z)" using r backed(1,3) by (auto simp: store_ok_def refs_ok_def)
    moreover have "referenced (cs_store z) (rq_database_id r)" using r by (auto simp: referenced_def rq_database_id_def list_ex_iff)
    ultimately show ?thesis using referenced_kept [OF effect(2)] by (simp add: z')
  qed
  then have "refs_ok (cs_store z')" using backed(1) by (auto simp: z' store_ok_def refs_ok_def)
  with backed(1) effect(1) show ?thesis by (simp add: z' store_backed_def store_ok_def keys_ok_def)
qed

text \<open>C9: Whatever the outcome of a synchronisation, the database keeps its invariant: keys stay unique and every request still has
  its database, even one that is no longer configured.\<close>

theorem config_sync_keeps_store:
  assumes "store_backed z" and "sync_all env faults input z = (r, z')"
  shows "store_backed z' \<and> st_requests (cs_store z') = st_requests (cs_store z)"
proof -
  from sync_all_outcome [OF assms(2)] consider "z' = z" | s where "sync_tx env input z = Inr (s, z')" by blast
  then show ?thesis
  proof cases
    case 2
    then obtain z1 g a where z1: "sync_all_inner env input z = Inr (s, z1)"
      and z': "z' = z1\<lparr> cs_generations := cs_generations z1 @ [g], cs_store := (cs_store z1)\<lparr> st_audit := a \<rparr> \<rparr>"
      by (rule sync_tx_Inr)
    from z1 obtain z0 where z0: "sync_databases (se_wall env) (se_max_databases env) (sy_databases input) z = Inr (sm_databases s, z0)"
      and rest: "z1 = with_tables z0 z1" by (rule sync_all_inner_Inr)
    have "cs_store z1 = cs_store z0" "cs_databases z1 = cs_databases z0" by (subst rest, simp add: with_tables_def)+
    with sync_databases_store [OF z0 assms(1)] sync_databases_frame [OF z0] show ?thesis
      by (simp add: z' store_backed_def store_ok_def keys_ok_def refs_ok_def)
  qed (use assms(1) in simp)
qed

subsection \<open>Repetition\<close>

lemma mirrors_settled:
  assumes "mirrors view managed ident shown vs t t'" and "distinct (map ident vs)"
  shows "managed t' = ident ` set vs" and "\<forall>v \<in> set vs. view t' (ident v) = Some (shown v)"
proof -
  have "map_of (rev (map (\<lambda>v. (ident v, shown v)) vs)) (ident v) = Some (shown v)" if "v \<in> set vs" for v
    using assms(2) that by (intro map_of_is_SomeI) (auto simp: o_def rev_map [symmetric])
  with assms(1) show "managed t' = ident ` set vs" "\<forall>v \<in> set vs. view t' (ident v) = Some (shown v)" by (simp_all add: mirrors_def)
qed

context settling_table
begin

text \<open>Reconciling the values twice.\<close>

lemma settled_again:
  assumes "ok t" and "unclaimed view managed ident vs t" and "reconcile ident create purge vs t = Inr (c, t')"
    and "distinct (map ident vs)" and "\<And>v. v \<in> set vs \<Longrightarrow> good v"
  obtains t'' where "reconcile ident create purge vs t' = Inr ((0, length vs), t'')" and "still t'' = still t'"
proof -
  have clear: "clear t vs" using assms(2,5) by (simp add: clear_def unclaimed_def)
  have inj: "inj_on ident (set vs)" using assms(4) by (simp add: distinct_map)
  from reconcile_mirrors [OF assms(1,5,2,3)] have ok': "ok t'" and m: "mirrors view managed ident shown vs t t'" by auto
  note stored = mirrors_settled [OF m assms(4)]
  have "\<forall>v \<in> set vs. good v \<and> view t' (ident v) = Some (shown v) \<and> settled v t'"
    using stored(2) assms(5) reconcile_settles [OF assms(1) clear inj assms(3)] by blast
  from reconcile_again [OF ok' stored(1) this inj] that show thesis by blast
qed

end

definition unique_ids :: "desired \<Rightarrow> bool" where
  "unique_ids d \<longleftrightarrow>
     distinct (map rd_name (de_roles d)) \<and> distinct (map hk_id (de_webhooks d)) \<and> distinct (map wf_id (de_workflows d))
     \<and> distinct (map ep_id (de_execution_policies d)) \<and> distinct (map vp_id (de_review_policies d))
     \<and> distinct (map rp_id (de_result_policies d)) \<and> distinct (map np_id (de_notification_policies d))"

definition nothing_stale :: "sync_summary \<Rightarrow> bool" where
  "nothing_stale s \<longleftrightarrow>
     fst (sm_databases s) = 0 \<and> fst (sm_groups s) = 0 \<and> fst (sm_roles s) = 0 \<and> fst (sm_webhooks s) = 0 \<and> fst (sm_workflows s) = 0
     \<and> fst (sm_execution_policies s) = 0 \<and> fst (sm_sql_review_policies s) = 0 \<and> fst (sm_result_policies s) = 0
     \<and> fst (sm_notification_policies s) = 0"

text \<open>The time at which a webhook is read is not part of what is shown of it.\<close>

lemma parse_webhooks_later:
  "collect (parse_webhook validate_url now) ws = Inr hs \<Longrightarrow>
     \<exists>hs'. collect (parse_webhook validate_url now') ws = Inr hs' \<and> map (\<lambda>h. (hk_id h, hook_shown h)) hs' = map (\<lambda>h. (hk_id h, hook_shown h)) hs"
proof (induction ws arbitrary: hs)
  case (Cons w ws)
  then obtain h hs1 where h: "parse_webhook validate_url now w = Inr h" and "collect (parse_webhook validate_url now) ws = Inr hs1"
    and hs: "hs = h # hs1" by (auto simp: tryE_Inr)
  from Cons.IH [OF this(2)] obtain hs' where hs': "collect (parse_webhook validate_url now') ws = Inr hs'"
    "map (\<lambda>h. (hk_id h, hook_shown h)) hs' = map (\<lambda>h. (hk_id h, hook_shown h)) hs1" by blast
  let ?h = "h\<lparr> hk_created_at := Some now', hk_updated_at := Some now' \<rparr>"
  have "parse_webhook validate_url now' w = Inr ?h" using h by (auto simp: parse_webhook_def tryE_Inr split: if_splits)
  with hs' show ?case by (intro exI [of _ "?h # hs'"]) (simp add: hs hook_shown_def)
qed simp

abbreviation later :: "(nat \<Rightarrow> timestamp) \<Rightarrow> (string \<Rightarrow> timestamp) \<Rightarrow> audit_env \<Rightarrow> string \<Rightarrow> sync_env \<Rightarrow> sync_env" where
  "later clock wall audit digest env \<equiv> env\<lparr> se_clock := clock, se_wall := wall, se_audit := audit, se_digest := digest \<rparr>"

lemma asks_later:
  assumes "asks_for env input d"
  obtains hs where "asks_for (later clock wall audit digest env) input (d\<lparr> de_webhooks := hs \<rparr>)"
    and "map (\<lambda>h. (hk_id h, hook_shown h)) hs = map (\<lambda>h. (hk_id h, hook_shown h)) (de_webhooks d)"
proof -
  from assms obtain hs where "collect (parse_webhook (se_validate_url env) (clock 0)) (sy_webhooks input) = Inr hs"
    "map (\<lambda>h. (hk_id h, hook_shown h)) hs = map (\<lambda>h. (hk_id h, hook_shown h)) (de_webhooks d)"
    using parse_webhooks_later unfolding asks_for_def by blast
  with assms that show thesis by (simp add: asks_for_def)
qed

lemma webhooks_again:
  assumes ok: "distinct (map mr_id t)" and free: "unclaimed hooks_view rows_managed hk_id vs t"
    and run: "reconcile hk_id (create_webhook wall) delete_stale vs t = Inr (c, t')" and ids: "distinct (map hk_id vs)"
    and hs: "map (\<lambda>h. (hk_id h, hook_shown h)) hs = map (\<lambda>h. (hk_id h, hook_shown h)) vs"
  obtains t'' where "reconcile hk_id (create_webhook wall') delete_stale hs t' = Inr ((0, length hs), t'')" and "untimed t'' = untimed t'"
proof -
  have inj: "inj_on hk_id (set vs)" using ids by (simp add: distinct_map)
  from webhook_rows.reconcile_mirrors [OF ok _ free run] have ok': "distinct (map mr_id t')"
    and m: "mirrors hooks_view rows_managed hk_id hook_shown vs t t'" by auto
  note stored = mirrors_settled [OF m ids]
  have settled: "\<forall>v \<in> set vs. hook_settled v t'"
    by (rule webhook_settles.reconcile_settles [OF ok _ inj run]) (use free in \<open>simp add: webhook_rows.clear_def unclaimed_def\<close>)
  have "map fst (map (\<lambda>h. (hk_id h, hook_shown h)) hs) = map fst (map (\<lambda>h. (hk_id h, hook_shown h)) vs)" using hs by (rule arg_cong)
  then have keys: "map hk_id hs = map hk_id vs" by (simp add: o_def)
  have same: "(\<lambda>h. (hk_id h, hook_shown h)) ` set hs = (\<lambda>h. (hk_id h, hook_shown h)) ` set vs"
    using arg_cong [OF hs, of set] by (simp only: set_map)
  have "rows_managed t' = hk_id ` set hs" using stored(1) arg_cong [OF keys, of set] by (simp only: set_map)
  moreover have "\<forall>h \<in> set hs. True \<and> hooks_view t' (hk_id h) = Some (hook_shown h) \<and> hook_settled h t'"
  proof
    fix h assume "h \<in> set hs"
    then have "(hk_id h, hook_shown h) \<in> (\<lambda>h. (hk_id h, hook_shown h)) ` set vs" unfolding same [symmetric] by blast
    then obtain v where "v \<in> set vs" "hk_id v = hk_id h" "hook_shown v = hook_shown h" by auto
    with stored(2) settled show "True \<and> hooks_view t' (hk_id h) = Some (hook_shown h) \<and> hook_settled h t'"
      by (metis hook_settled_def)
  qed
  moreover have "inj_on hk_id (set hs)" using ids by (simp add: keys [symmetric] distinct_map)
  ultimately show thesis using webhook_settles.reconcile_again [OF ok'] that by blast
qed

lemma untimed_active:
  assumes "untimed t' = untimed t"
  shows "length (list_active_webhooks t') = length (list_active_webhooks t)"
proof -
  have "length (list_active_webhooks h) = length (filter (\<lambda>r. hk_status (mr_value r) = HookActive) (untimed h))" for h
    by (induction h) (simp_all add: list_active_webhooks_def untimed_def)
  with assms show ?thesis by simp
qed

text \<open>Running the steps again on what they left changes nothing but the times of the webhooks.\<close>

lemma sync_all_inner_again:
  assumes ok: "tables_ok z" and run: "sync_all_inner env input z = Inr (s, z1)" and asked: "asks_for env input d"
    and free: "no_clash d z" and unique: "unique_ids d"
    and z2: "z2 = z1\<lparr> cs_generations := g, cs_store := (cs_store z1)\<lparr> st_audit := a \<rparr> \<rparr>"
  shows "\<exists>s' t. sync_all_inner (later clock wall audit digest env) input z2 = Inr (s', z2\<lparr> cs_webhooks := t \<rparr>) \<and> nothing_stale s'
    \<and> untimed t = untimed (cs_webhooks z2)"
proof -
  let ?env = "later clock wall audit digest env"
  from run obtain z0 where dbs: "sync_databases (se_wall env) (se_max_databases env) (sy_databases input) z = Inr (sm_databases s, z0)"
    and steps: "sync_groups (se_wall env) (sy_groups input) (cs_groups z0) = Inr (sm_groups s, cs_groups z1)"
      "sync_roles (sy_roles input) (cs_roles z0) = Inr (sm_roles s, cs_roles z1)"
      "sync_webhooks (se_wall env) (se_validate_url env) (se_clock env 0) (sy_webhooks input) (cs_webhooks z0) = Inr (sm_webhooks s, cs_webhooks z1)"
      "sync_workflows (se_lib env) (se_aa_read env) (sy_workflows input) (cs_workflows z0) = Inr (sm_workflows s, cs_workflows z1)"
      "sync_execution_policies (sy_execution_policies input) (cs_execution_policies z0)
        = Inr (sm_execution_policies s, cs_execution_policies z1)"
      "sync_sql_review_policies (sy_sql_review input) (cs_review_policies z0) = Inr (sm_sql_review_policies s, cs_review_policies z1)"
      "sync_result_policies (sy_result_policies input) (cs_result_policies z0) = Inr (sm_result_policies s, cs_result_policies z1)"
      "sync_notification_policies (sy_notification_policies input) (cs_notification_policies z0)
        = Inr (sm_notification_policies s, cs_notification_policies z1)"
    and limits: "limit_check ''role'' (se_max_roles env) (as_u32 (length (cs_roles z1))) = Inr ()"
      "limit_check ''webhook'' (se_max_webhooks env) (as_u32 (length (list_active_webhooks (cs_webhooks z1)))) = Inr ()"
      "limit_check ''workflow'' (se_max_workflows env) (as_u32 (length (cs_workflows z1))) = Inr ()"
    and rest: "z1 = with_tables z0 z1"
    by (rule sync_all_inner_Inr)
  have z0: "cs_databases z1 = cs_databases z0" "cs_store z1 = cs_store z0" by (subst rest, simp add: with_tables_def)+
  from ok have ids: "distinct (map dr_id (cs_databases z))" by (simp add: tables_ok_def)
  have dbs2: "sync_databases wall (se_max_databases env) (sy_databases input) z2 = Inr ((0, length (database_ids (sy_databases input))), z2)"
    by (rule sync_databases_again [OF dbs ids]) (use sync_databases_frame [OF dbs] in \<open>simp_all add: z2 z0\<close>)
  obtain hs where asked2: "asks_for ?env input (d\<lparr> de_webhooks := hs \<rparr>)"
    and hs: "map (\<lambda>h. (hk_id h, hook_shown h)) hs = map (\<lambda>h. (hk_id h, hook_shown h)) (de_webhooks d)"
    using asked by (rule asks_later)
  note recs = sync_reconciles [OF asked2, simplified] and steps = steps [unfolded sync_reconciles [OF asked]]
  note good = asked_fits [OF asked] and frees = free [unfolded no_clash_def] and oks = ok [unfolded tables_ok_def]
    and uniques = unique [unfolded unique_ids_def]
  note frame = sync_databases_frame [OF dbs]
  have "group_names (cs_groups z1) = set (sy_groups input)"
    using sync_all_inner_mirrors [OF ok run asked free] by (simp add: site_mirrors_def)
  then have t2: "sync_groups wall (sy_groups input) (cs_groups z1) = Inr ((0, length (sy_groups input)), cs_groups z1)"
    using group_settles.reconcile_again [where t' = "cs_groups z1" and wall = wall and vs = "sy_groups input"]
    unfolding sync_groups_def by (auto simp: group_view_def)
  have t3: "reconcile rd_name create_role delete_stale_config_roles (de_roles d) (cs_roles z1)
      = Inr ((0, length (de_roles d)), cs_roles z1)"
    by (rule role_settles.settled_again [OF _ _ steps(2)]) (use frame frees oks uniques in simp_all)
  obtain t4 where t4: "reconcile hk_id (create_webhook wall) delete_stale hs (cs_webhooks z1) = Inr ((0, length hs), t4)"
    "untimed t4 = untimed (cs_webhooks z1)"
    by (rule webhooks_again [OF _ _ steps(3) _ hs]) (use frame frees oks uniques in simp_all)
  have t5: "reconcile wf_id create_workflow delete_stale (de_workflows d) (cs_workflows z1)
      = Inr ((0, length (de_workflows d)), cs_workflows z1)"
    by (rule workflow_rows.settled_again [OF _ _ steps(4)]) (use frame frees oks uniques good in simp_all)
  have t6: "reconcile ep_id create_execution_policy delete_stale (de_execution_policies d) (cs_execution_policies z1)
      = Inr ((0, length (de_execution_policies d)), cs_execution_policies z1)"
    by (rule execution_rows.settled_again [OF _ _ steps(5)]) (use frame frees oks uniques good in simp_all)
  have t7: "reconcile vp_id create_sql_review_policy delete_stale (de_review_policies d) (cs_review_policies z1)
      = Inr ((0, length (de_review_policies d)), cs_review_policies z1)"
    by (rule review_rows.settled_again [OF _ _ steps(6)]) (use frame frees oks uniques in simp_all)
  have t8: "reconcile rp_id create_result_policy delete_stale (de_result_policies d) (cs_result_policies z1)
      = Inr ((0, length (de_result_policies d)), cs_result_policies z1)"
    by (rule result_rows.settled_again [OF _ _ steps(7)]) (use frame frees oks uniques good in simp_all)
  have t9: "reconcile np_id create_notification_policy delete_stale (de_notification_policies d) (cs_notification_policies z1)
      = Inr ((0, length (de_notification_policies d)), cs_notification_policies z1)"
    by (rule notification_rows.settled_again [OF _ _ steps(8)]) (use frame frees oks uniques good in simp_all)
  have "sync_all_inner ?env input z2 =
    Inr (\<lparr> sm_databases = (0, length (database_ids (sy_databases input))), sm_groups = (0, length (sy_groups input)),
           sm_roles = (0, length (de_roles d)), sm_webhooks = (0, length hs), sm_workflows = (0, length (de_workflows d)),
           sm_execution_policies = (0, length (de_execution_policies d)), sm_sql_review_policies = (0, length (de_review_policies d)),
           sm_result_policies = (0, length (de_result_policies d)), sm_notification_policies = (0, length (de_notification_policies d)) \<rparr>,
         z2\<lparr> cs_groups := cs_groups z1, cs_roles := cs_roles z1, cs_webhooks := t4, cs_workflows := cs_workflows z1,
            cs_execution_policies := cs_execution_policies z1, cs_review_policies := cs_review_policies z1,
            cs_result_policies := cs_result_policies z1, cs_notification_policies := cs_notification_policies z1 \<rparr>)"
    by (rule sync_all_inner_run)
      (simp_all add: dbs2, simp_all add: z2 recs t2 t3 t4(1) t5 t6 t7 t8 t9 untimed_active [OF t4(2)] limits)
  then have "sync_all_inner ?env input z2 =
    Inr (\<lparr> sm_databases = (0, length (database_ids (sy_databases input))), sm_groups = (0, length (sy_groups input)),
           sm_roles = (0, length (de_roles d)), sm_webhooks = (0, length hs), sm_workflows = (0, length (de_workflows d)),
           sm_execution_policies = (0, length (de_execution_policies d)), sm_sql_review_policies = (0, length (de_review_policies d)),
           sm_result_policies = (0, length (de_result_policies d)), sm_notification_policies = (0, length (de_notification_policies d)) \<rparr>,
         z2\<lparr> cs_webhooks := t4 \<rparr>)" by (simp add: z2)
  then show ?thesis using t4(2) by (intro exI conjI) (assumption, simp_all add: nothing_stale_def z2)
qed

lemma sync_all_clean:
  assumes "sync_all_inner env input z = Inr (s, z1)" and "audit_ids_fresh (se_audit env) (cs_store z1)" and "se_reload_error env = None"
  shows "\<exists>g row rest. sync_all env no_faults input z
      = (Inr s, z1\<lparr> cs_generations := cs_generations z1 @ [g], cs_store := (cs_store z1)\<lparr> st_audit := st_audit (cs_store z1) @ row # rest \<rparr> \<rparr>)
    \<and> gn_digest g = se_digest env \<and> ar_event_type row = ''config.synced'' \<and> length rest \<le> 1"
proof -
  let ?ev = "audit_event_simple ''config.synced'' ''policy'' ''system'' None (se_clock env 1) CtxSystem"
  obtain a where a: "record_event (se_lib env) (se_audit env) ?ev (cs_store z1) = Inr ((), (cs_store z1)\<lparr> st_audit := a \<rparr>)"
    using record_event_succeeds [OF assms(2)] by blast
  then obtain t rest where same: "(cs_store z1)\<lparr> st_audit := a \<rparr> = (cs_store z1)\<lparr> st_audit := t \<rparr>"
    and t: "t = st_audit (cs_store z1) @ audit_row_of (se_lib env) (st_audit (cs_store z1)) (fst (au_ids (se_audit env))) ?ev # rest"
    and rest: "length rest \<le> 1" by (rule record_event_Inr)
  have "ar_event_type (audit_row_of lib log i ev) = ae_event_type ev" for lib log i ev by (simp add: audit_row_of_def Let_def)
  then have "ar_event_type (audit_row_of (se_lib env) (st_audit (cs_store z1)) (fst (au_ids (se_audit env))) ?ev) = ''config.synced''"
    by (simp add: audit_event_simple_def)
  moreover have "\<exists>g. sync_all env no_faults input z
      = (Inr s, z1\<lparr> cs_generations := cs_generations z1 @ [g], cs_store := (cs_store z1)\<lparr> st_audit := a \<rparr> \<rparr>) \<and> gn_digest g = se_digest env"
    using a assms(1,3) by (simp add: sync_all_def uow.clean sync_tx_def thenT_def Let_def) (intro exI conjI, rule refl, simp)
  ultimately show ?thesis using rest unfolding same t by blast
qed

text \<open>C34: Synchronisation is idempotent. Once the configuration has been synchronised, doing it again at any later time, with nothing
  changed in between, succeeds, passes the limits again and finds nothing to remove; and of the whole database, the memberships of the
  groups and the rows managed otherwise included, only this changes: the update times of the webhooks, one more row in the table of
  generations, with the digest of the configuration, and the event \<open>config.synced\<close> in the audit log, with at most one checkpoint after
  it. The configured values of each table have distinct identifiers (\<open>unique_ids\<close>), none of them that of a row managed otherwise
  (\<open>no_clash\<close>), and the identifiers drawn for the audit rows are new.\<close>

theorem config_sync_idempotent:
  assumes "tables_ok z" and run: "sync_all env faults input z = (Inr s, z')" and "asks_for env input d" and "no_clash d z"
    and "unique_ids d" and fresh: "audit_ids_fresh audit (cs_store z')"
  shows "\<exists>s' z'' g row rest.
    sync_all (env\<lparr> se_clock := clock, se_wall := wall, se_audit := audit, se_digest := digest \<rparr>) no_faults input z' = (Inr s', z'')
    \<and> nothing_stale s' \<and> untimed (cs_webhooks z'') = untimed (cs_webhooks z')
    \<and> z'' = z'\<lparr> cs_webhooks := cs_webhooks z'', cs_generations := cs_generations z' @ [g],
        cs_store := (cs_store z')\<lparr> st_audit := st_audit (cs_store z') @ row # rest \<rparr> \<rparr>
    \<and> gn_digest g = digest \<and> ar_event_type row = ''config.synced'' \<and> length rest \<le> 1"
proof -
  from sync_all_outcome [OF run] have tx: "sync_tx env input z = Inr (s, z')" and reload: "se_reload_error env = None"
    by (auto split: option.splits)
  from tx obtain z1 g a where z1: "sync_all_inner env input z = Inr (s, z1)"
    and z': "z' = z1\<lparr> cs_generations := cs_generations z1 @ [g], cs_store := (cs_store z1)\<lparr> st_audit := a \<rparr> \<rparr>"
    by (rule sync_tx_Inr)
  from sync_all_inner_again [OF assms(1) z1 assms(3-5) z'] obtain s' t
    where again: "sync_all_inner (later clock wall audit digest env) input z' = Inr (s', z'\<lparr> cs_webhooks := t \<rparr>)" "nothing_stale s'"
      "untimed t = untimed (cs_webhooks z')" by blast
  from sync_all_clean [OF again(1)] fresh reload obtain g' row rest
    where "sync_all (later clock wall audit digest env) no_faults input z'
      = (Inr s', z'\<lparr> cs_webhooks := t, cs_generations := cs_generations z' @ [g'],
          cs_store := (cs_store z')\<lparr> st_audit := st_audit (cs_store z') @ row # rest \<rparr> \<rparr>)"
      "gn_digest g' = digest" "ar_event_type row = ''config.synced''" "length rest \<le> 1"
    by auto
  with again(2,3) show ?thesis by (intro exI conjI) (assumption, simp_all)
qed

subsection \<open>A small site\<close>

definition demo_role :: "string \<Rightarrow> role_definition" where
  "demo_role name = \<lparr> rd_name = name, rd_permissions = [], rd_databases = [db_wildcard], rd_environments = [Environment ''prod''] \<rparr>"

text \<open>One database with a request, one policy that is no longer configured, one built-in role.\<close>

definition demo_site :: config_site where
  "demo_site =
     \<lparr> cs_store = demo_store Pending,
       cs_databases = [\<lparr> dr_id = ''app:prod'', dr_name = ''app'', dr_environment = ''prod'', dr_source = ''config'', dr_state = ''active'',
                         dr_created_at = 0 \<rparr>],
       cs_groups = ([(''old'', 0)], [(''old'', ''ann'')]),
       cs_roles = [\<lparr> ro_definition = demo_role ''admin'', ro_built_in = True, ro_config_synced = False, ro_source = ''system'' \<rparr>],
       cs_webhooks = [], cs_workflows = [],
       cs_execution_policies = [\<lparr> mr_id = ''ep:app:prod'', mr_source = ''config'', mr_state = ''active'',
         mr_value = default_execution_policy\<lparr> ep_id := ''ep:app:prod'', ep_database := DatabaseName ''app'', ep_environment := Environment ''prod'' \<rparr> \<rparr>],
       cs_review_policies = [], cs_result_policies = [], cs_notification_policies = [], cs_generations = [] \<rparr>"

definition demo_input :: sync_input where
  "demo_input =
     \<lparr> sy_databases = [\<lparr> dd_name = ''app'', dd_environments = [''dev''] \<rparr>], sy_groups = [''dba''],
       sy_roles = [\<lparr> rc_name = ''dba'', rc_permissions = [], rc_databases = [], rc_environments = [''prod''] \<rparr>],
       sy_webhooks = [\<lparr> hd_id = ''ops'', hd_url = ''https://ops'', hd_events = [], hd_format = ''slack'', hd_secret = None \<rparr>],
       sy_workflows = [],
       sy_execution_policies = [\<lparr> ed_database = ''app'', ed_environment = ''*'', ed_max_executions = Some 3, ed_execution_window_secs = None,
         ed_retry_on_failure = None, ed_statement_timeout_secs = None, ed_max_statement_timeout_secs = None, ed_max_rows = None,
         ed_migration_lease_duration_secs = None, ed_migration_statement_timeout_secs = None \<rparr>],
       sy_sql_review = [], sy_result_policies = [], sy_notification_policies = [] \<rparr>"

definition demo_sync_env :: sync_env where
  "demo_sync_env =
     \<lparr> se_lib = example_lib, se_audit = \<lparr> au_signer = None, au_interval = 100, au_ids = (''e1'', ''e2''), au_wall = (1, 1) \<rparr>,
       se_clock = (\<lambda>_. 1), se_wall = (\<lambda>_. 1), se_max_databases = 5, se_max_roles = 5, se_max_webhooks = 5, se_max_workflows = 5,
       se_validate_url = (\<lambda>_. Inr ()), se_aa_read = (\<lambda>_. Inl []), se_digest = ''d1'', se_reload_error = None \<rparr>"

definition demo_desired :: desired where
  "demo_desired =
     \<lparr> de_roles = [demo_role ''dba''],
       de_webhooks = [\<lparr> hk_id = ''ops'', hk_url = ''https://ops'', hk_events = [], hk_format = FormatSlack, hk_secret = None,
         hk_status = HookActive, hk_created_at = Some 1, hk_updated_at = Some 1 \<rparr>],
       de_workflows = [],
       de_execution_policies = [default_execution_policy\<lparr> ep_id := ''ep:app:*'', ep_database := DatabaseName ''app'', ep_max_executions := 3 \<rparr>],
       de_review_policies = [], de_result_policies = [], de_notification_policies = [] \<rparr>"

lemma demo_site_ok: "tables_ok demo_site" "store_backed demo_site"
  by (simp_all add: tables_ok_def roles_ok_def rows_ok_def fits_scope_def id_scope_def Let_def demo_site_def demo_role_def
      store_backed_def demo_store_ok, simp add: demo_store_def)

lemma demo_asked: "asks_for demo_sync_env demo_input demo_desired"
  by (simp add: asks_for_def demo_sync_env_def demo_input_def demo_desired_def demo_role_def parse_role_def parse_webhook_def
      parse_workflows_def parse_execution_policies_def parse_execution_policy_def validate_execution_policy_def
      default_execution_policy_def scope_db_def scope_env_def DatabaseName_new_def Environment_new_def validated_new_def
      db_wildcard_def env_wildcard_def Let_def name_char_def is_lower_def is_digit_def)

lemma demo_free: "no_clash demo_desired demo_site" "unique_ids demo_desired"
  by (simp_all add: no_clash_def unclaimed_def unique_ids_def demo_desired_def demo_site_def demo_role_def role_view_def
      hooks_view_def rows_view_def find_row_def)

lemma demo_inner:
  "\<exists>s z1. sync_all_inner demo_sync_env demo_input demo_site = Inr (s, z1) \<and> st_audit (cs_store z1) = []"
proof -
  note recs = sync_reconciles [OF demo_asked]
  have "\<exists>c t. sync_databases (se_wall demo_sync_env) (se_max_databases demo_sync_env) (sy_databases demo_input) demo_site
      = Inr (c, demo_site\<lparr> cs_databases := t, cs_store := (cs_store demo_site)\<lparr> st_databases := map dr_id t \<rparr> \<rparr>)"
    by (simp add: sync_databases_def demo_sync_env_def demo_input_def demo_site_def DatabaseName_new_def Environment_new_def
        validated_new_def name_char_def is_lower_def is_digit_def register_def Let_def reconcile_stale_databases_def stale_database_def
        referenced_def demo_store_def demo_request_def database_id_def upd_where_def affected_def list_active_databases_def
        limit_check_def as_u32_def)
  then obtain c t where dbs: "sync_databases (se_wall demo_sync_env) (se_max_databases demo_sync_env) (sy_databases demo_input) demo_site
      = Inr (c, demo_site\<lparr> cs_databases := t, cs_store := (cs_store demo_site)\<lparr> st_databases := map dr_id t \<rparr> \<rparr>)" by blast
  show ?thesis
    unfolding sync_all_inner_def thenT_eval(1) [where m = "sync_databases _ _ _", OF dbs]
    unfolding thenT_def on_table_def within_limit_def recs
    by (simp add: reconcile_def demo_sync_env_def demo_input_def demo_site_def demo_desired_def demo_role_def sync_groups_def
        create_group_def delete_stale_config_groups_def create_role_def delete_stale_config_roles_def stale_role_def create_webhook_def
        delete_stale_def stale_def create_execution_policy_def upsert_managed_def find_row_def upd_where_def affected_def
        default_execution_policy_def env_wildcard_def list_active_webhooks_def limit_check_def as_u32_def demo_store_def Let_def)
qed

lemma demo_synced:
  "\<exists>s z'. sync_all demo_sync_env no_faults demo_input demo_site = (Inr s, z') \<and> map ar_id (st_audit (cs_store z')) = [''e1'']"
proof -
  obtain s z1 where "sync_all_inner demo_sync_env demo_input demo_site = Inr (s, z1)" "st_audit (cs_store z1) = []"
    using demo_inner by blast
  then show ?thesis
    by (simp add: sync_all_def uow.clean sync_tx_def thenT_def record_event_def record_audit_def insert_audit_event_def
        demo_sync_env_def Let_def)
qed

theorem failed_sync_leaves_database_witness:
  "sync_all demo_sync_env (no_faults\<lparr> tf_begin := Some ''disk'' \<rparr>) demo_input demo_site = (Inl (Internal ''begin: disk''), demo_site)
   \<and> (demo_site = demo_site
     \<or> (\<exists>s msg. sync_tx demo_sync_env demo_input demo_site = Inr (s, demo_site) \<and> se_reload_error demo_sync_env = Some msg
         \<and> Internal ''begin: disk'' = Internal (''notifier reload failed (DB committed, restart required): '' @ msg)))"
proof -
  have run: "sync_all demo_sync_env (no_faults\<lparr> tf_begin := Some ''disk'' \<rparr>) demo_input demo_site
      = (Inl (Internal ''begin: disk''), demo_site)" by (simp add: sync_all_def run_in_tx_def)
  from failed_sync_leaves_database [OF run] run show ?thesis by blast
qed

theorem config_sync_exact_witness:
  "\<exists>s z'. tables_ok demo_site \<and> sync_all demo_sync_env no_faults demo_input demo_site = (Inr s, z')
     \<and> asks_for demo_sync_env demo_input demo_desired \<and> no_clash demo_desired demo_site
     \<and> site_mirrors demo_input demo_desired demo_site z' \<and> tables_ok z'"
  using demo_synced config_sync_exact [OF demo_site_ok(1) _ demo_asked demo_free(1)] demo_site_ok(1) demo_asked demo_free(1) by blast

theorem config_sync_keeps_store_witness:
  "\<exists>s z'. store_backed demo_site \<and> sync_all demo_sync_env no_faults demo_input demo_site = (Inr s, z') \<and> store_backed z'
     \<and> st_requests (cs_store z') = [demo_request Pending]"
proof -
  obtain s z' where run: "sync_all demo_sync_env no_faults demo_input demo_site = (Inr s, z')" using demo_synced by blast
  from config_sync_keeps_store [OF demo_site_ok(2) run] demo_site_ok(2) run show ?thesis by (auto simp: demo_site_def demo_store_def)
qed

theorem config_sync_idempotent_witness:
  "\<exists>s z' s' z'' g row rest. sync_all demo_sync_env no_faults demo_input demo_site = (Inr s, z')
     \<and> sync_all (demo_sync_env\<lparr> se_clock := (\<lambda>_. 9), se_wall := (\<lambda>_. 9),
          se_audit := \<lparr> au_signer = None, au_interval = 100, au_ids = (''e3'', ''e4''), au_wall = (9, 9) \<rparr>, se_digest := ''d1'' \<rparr>)
          no_faults demo_input z' = (Inr s', z'')
     \<and> nothing_stale s' \<and> untimed (cs_webhooks z'') = untimed (cs_webhooks z')
     \<and> z'' = z'\<lparr> cs_webhooks := cs_webhooks z'', cs_generations := cs_generations z' @ [g],
         cs_store := (cs_store z')\<lparr> st_audit := st_audit (cs_store z') @ row # rest \<rparr> \<rparr>
     \<and> gn_digest g = ''d1'' \<and> ar_event_type row = ''config.synced'' \<and> length rest \<le> 1"
proof -
  obtain s z' where run: "sync_all demo_sync_env no_faults demo_input demo_site = (Inr s, z')"
    and ids: "map ar_id (st_audit (cs_store z')) = [''e1'']" using demo_synced by (elim exE conjE)
  then have "audit_ids_fresh \<lparr> au_signer = None, au_interval = 100, au_ids = (''e3'', ''e4''), au_wall = (9, 9) \<rparr> (cs_store z')"
    by (auto simp: audit_ids_fresh_def)
  from config_sync_idempotent [OF demo_site_ok(1) run demo_asked demo_free this] run show ?thesis by blast
qed

end
