(* ===== verification/Spec2Isabelle.thy ===== *)
theory Spec2Isabelle
  imports Workflow_Validator Agent_Runner Request_System Sign_In Migration_Runner Results Agent_Poll Client_Ip
    Config_Mirror
begin

text \<open>
  A verification library for dbward, a server that lets people run SQL and migrations on
  databases only after review and approval. Paths below are relative to \<open>src/crates\<close>.

  \<^bold>\<open>The program.\<close> A client asks the server to run SQL (\<open>dbward-app/src/use_cases/create_request.rs\<close>).
  The SQL is classified and reviewed, its risk is assessed from the stored schema, and the
  workflow of the database decides whether the request is approved at once or waits for votes. Approvers vote
  (\<open>approve_request.rs\<close>, \<open>reject_request.rs\<close>), somebody dispatches the approved request
  (\<open>resume_request.rs\<close>) or cancels it (\<open>cancel_request.rs\<close>). An agent claims it with a signed token
  (\<open>agent_claim.rs\<close>), keeps the lease alive (\<open>agent_heartbeat.rs\<close>), checks the token, runs the SQL
  (\<open>dbward-agent/src/executor\<close>) and submits the result (\<open>agent_submit_result.rs\<close>). Background tasks take back
  lost executions, undo stale dispatches and expire overdue requests (\<open>dbward-server/src/background\<close>). All
  state is in one SQLite database behind a unit of work (\<open>dbward-infra/src/sqlite\<close>), and every change
  writes to a hash-chained audit log. Every call comes through the authentication middleware
  (\<open>dbward-server/src/middleware/auth.rs\<close>), which turns an API token or an OpenID token into a user with roles;
  administrators manage users and tokens (\<open>user_manage.rs\<close>, \<open>token_manage.rs\<close>). Databases, roles, groups, workflows and
  policies come from the configuration of the server (\<open>dbward-config/src/server.rs\<close>), which is validated when it is loaded and
  then synchronised with the database (\<open>use_cases/sync_config\<close>).

  \<^bold>\<open>Conventions.\<close> Strings are lists of bytes; times are integers counting nanoseconds; \<open>u32\<close>, \<open>u64\<close> and \<open>u8\<close>
  are words, and conversions that wrap in the code wrap in the model. Fallible code returns a sum
  with the error on the left, in the code's order of checks and with its messages. A table is a list of
  rows in insertion order. A transaction is a function from the store to an error or a value with
  the new store, run by \<open>run_in_tx\<close>, which also takes the faults SQLite may report at begin and commit.
  Third-party code is a parameter: the record \<open>lib\<close> holds SHA-256, hexadecimal, RFC 3339 and JSON functions,
  other records hold the SQL parser, the signature scheme, the storage, clocks and drawn identifiers. Theorems that
  need a law of such code (a hash without collisions, a parser that undoes the printer) assume it by name, and their
  witnesses use a concrete instance.

  \<^bold>\<open>The theories.\<close>
  \<^item> \<open>Prelude\<close>: result monad, byte strings, numbers as text, JSON values, rows and tables, and the interfaces
    \<open>keyed_table\<close> and \<open>transition_system\<close>.
  \<^item> \<open>Values\<close>, \<open>Policies\<close>, \<open>Auth\<close>, \<open>Entities\<close>: the data of \<open>dbward-domain\<close> with its validation, printing and parsing.
  \<^item> \<open>Status_Machine\<close>: \<open>services/status_machine.rs\<close>. Executions need a final approval, an automatic approval or
    an emergency in their history; final states are absorbing.
  \<^item> \<open>Workflow_Engine\<close>, \<open>Workflow_Validator\<close>: lookup, automatic approval, steps, eligibility and validation. A workflow
    without an error-level issue can be completed.
  \<^item> \<open>Sql\<close>, \<open>Sql_Classifier\<close>, \<open>Risk\<close>: the guard in front of the parser, classification, review and risk scoring, over
    an abstract syntax of the statements the code distinguishes. What it means for a statement to read is defined on the syntax
    tree apart from the classifier (\<open>reads\<close>, \<open>writes_query\<close>, \<open>effectful\<close>); the classifier agrees with it on \<open>simple_statement\<close>, and takes
    the modifying queries outside of it for reads.
  \<^item> \<open>Risk_Analysis\<close>: facts about tables and the search for cascading deletes, which is shown to find exactly the
    tables within the depth limit, each at its distance.
  \<^item> \<open>Authorizer\<close>: the interface \<open>authorizer\<close> and the role-based implementation, interpreted as \<open>rbac\<close>.
  \<^item> \<open>Audit_Events\<close>, \<open>Audit_Chain\<close>: events, hash chain, signed checkpoints and verification. The head of a verified log
    fixes every column of its rows; a checkpoint written early makes the log unverifiable.
  \<^item> \<open>Store\<close>, \<open>Store_Invariants\<close>: tables, statements and transactions, the interface \<open>unit_of_work\<close> (interpreted as \<open>uow\<close>), the
    constraints of the schema as the invariant \<open>store_ok\<close>, and the refinement of the status machine by the guarded updates.
  \<^item> \<open>UC_Approval\<close>, \<open>UC_Execution\<close>, \<open>UC_Submit\<close>, \<open>UC_Create\<close>: the use cases; each theorem says who may do what, what exactly
    changes, and that a failure leaves the store as it was. Eligibility to vote is stated apart from the code (\<open>open_selector\<close>,
    \<open>step_complete\<close>, \<open>voted\<close>). An execution whose result is not stored does not count against the limit on executions.
  \<^item> \<open>Execution_Token\<close>, \<open>Agent_Runner\<close>: the token from signing to verification, what the agent runs, and its submission
    loop. The loop is a \<open>partial_function\<close>; that it returns is a theorem with a bound on the attempts.
  \<^item> \<open>Background\<close>: the rounds of the background tasks; the interface \<open>tick_loop\<close> covers a loop over rows in which each row has
    its own transaction, and is interpreted for leases, dispatch timeouts and expiry.
  \<^item> \<open>Tame\<close>, \<open>Request_System\<close>: the whole server as a step relation. A call first reads and checks, later its transaction runs on
    whatever the store has become; calls and background tasks interleave freely and may fail at any point. The
    invariant \<open>lawful\<close> is proved through \<open>transition_system\<close>; from it follow that no request runs without the votes its
    workflow asks for, that the votes obey the rules about who may vote, and that every reachable store satisfies the schema.
  \<^item> \<open>Directory\<close>: users, memberships, tokens, roles and onboarding requests beside the store (the record \<open>site\<close>), with the
    statements of \<open>unit_of_work.rs\<close>, \<open>user_repo.rs\<close>, \<open>token_repo.rs\<close> and \<open>group_repo.rs\<close> on them.
  \<^item> \<open>Authentication\<close>: token verification (\<open>auth/api_token.rs\<close>), role resolution with its cache (\<open>auth/db_role_resolver.rs\<close>)
    and the middleware. A computation of the server is a function from the site to a result and the new site, since
    a refused request may leave audit rows and cache entries.
  \<^item> \<open>Identity\<close>, \<open>User_Admin\<close>: the use cases on tokens and on users.
  \<^item> \<open>Identity_System\<close>, \<open>Access\<close>, \<open>Sign_In\<close>: the step relation of these operations. The interfaces \<open>tx_invariant\<close>,
    \<open>site_invariant\<close> and \<open>user_invariant\<close> lift an invariant of the statements to every operation; they are interpreted for the
    consistency of the tables, the user limit, the presence of an administrator and the exclusion of a suspended user. The
    theorems say who is signed in and as whom, and that a new user can sign in.
  \<^item> \<open>Migration_Files\<close>, \<open>Migration_Runner\<close>: migration files and details (\<open>dbward-migrate/src/parser.rs\<close>, \<open>approval.rs\<close>), the runner
    (\<open>runner.rs\<close>), the agent's migration jobs and the PostgreSQL driver for migrations (\<open>dbward-driver/src/postgres.rs\<close>) over a
    server that runs batches as transactions. The laws of the server (\<open>server_ok\<close>, \<open>server_runs\<close>) are assumed for a set of scripts, which must
    leave the table of versions and the transaction alone. A run executes and records exactly what is pending, can be resumed after any failure, and is
    undone by the matching run down.
  \<^item> \<open>Results\<close>: reading and awaiting results (\<open>get_result.rs\<close>, \<open>stream_result.rs\<close>) with the lookup of result policies: who may
    read, and that the data an agent submits is what the requester reads.
  \<^item> \<open>Agent_Poll\<close>: \<open>agent_poll.rs\<close>, the offer of dispatched jobs to an agent.
  \<^item> \<open>Client_Ip\<close>: \<open>middleware/trusted_proxies.rs\<close>; a client cannot choose the address it is recorded under.
  \<^item> \<open>Server_Config\<close>, \<open>Config_Policies\<close>: the sections of the configuration, its validation (\<open>dbward-config/src/server.rs\<close>) and
    its conversion into policies (\<open>sync_config/convert.rs\<close> and the first halves of the functions of \<open>apply.rs\<close>). What is accepted can be
    converted, no accepted workflow is a dead end, and the order of the stored workflows does not matter if operations are
    written by their own names.
  \<^item> \<open>Config_Sync\<close>, \<open>Config_Mirror\<close>: the synchronisation (\<open>sync_config/mod.rs\<close>, \<open>apply.rs\<close>) and its statements
    (\<open>sqlite/sync_ops.rs\<close>). The interface \<open>config_table\<close> says what writing and purging promise; \<open>policy_table\<close> gives it for the tables
    of policies, and the two are interpreted for all eight tables. \<open>settling_table\<close> extends \<open>config_table\<close> by what a repeated
    writing leaves alone, and is interpreted for the same tables. A synchronisation makes the managed rows equal to the configuration, keeps
    the members of the groups that stay, changes on repetition only update times of webhooks and its own records, keeps the
    database of every request, and changes nothing if it fails.

  \<^bold>\<open>Bounds.\<close> The only loops without a structural measure are the cascade search, which ends because
    every table is queued at most once, and the submission loop, which ends because its pauses add up to the deadline. Step
    indices are 32-bit words in the code; theorems about workflows assume fewer than \<open>2 ^ 32\<close> steps where the conversion matters.

  \<^bold>\<open>Not modelled.\<close> HTTP routing, the command line client, the MCP adapter, the queries of the database drivers and the MySQL
  driver, chat and webhook delivery and result storage are input and output around the modelled operations. The table extractor and
  the SQL redactor walk the syntax tree of the parser crate and are parameters of the creation. Lists and searches
  (\<open>list_requests.rs\<close>, \<open>audit_query.rs\<close>), preflight and dry runs only read or advise. Of the configuration, reading
  TOML with environment variables, the diagnostics that collect all issues and the files of agent and client are left out. The
  license is outside the library; its limits are arguments of the operations.

  \<^bold>\<open>Limits.\<close> Calls of \<open>Request_System\<close> interleave between their checks and their transactions; the operations of
  \<open>Identity_System\<close>, the middleware among them, are one step each, although the middleware takes the connection separately for
  lookup, count, upsert and suspension check. Columns that hold JSON for roles and groups are kept decoded, so their corruption is not
  modelled, and the repository of role definitions always answers. The scripts of migrations are not parsed or reviewed by the
  server; theorems about reviewed SQL exclude them.
\<close>

end
